(* ===== verification/Prelude.thy ===== *)
theory Prelude
  imports Main "HOL-Library.Multiset" "HOL-Library.AList" "HOL-Library.Char_ord" "HOL-Library.List_Lexorder"
begin

section \<open>Shared vocabulary of the development\<close>

text \<open>
  What every component theory uses: the collections its hints go into, the model of a Go
  map as an association list with distinct keys, and the contract of Go's
  \<open>sort.Slice\<close> as a locale with the insertion sort that Go runs on short slices as its
  instance.
\<close>

named_theorems go_simps \<open>evaluation rules of the Go standard library model\<close>
named_theorems store_simps \<open>how the record store's view changes under one operation\<close>
named_theorems phase_simps \<open>unfoldings of the phase-state handlers\<close>

subsection \<open>Go maps\<close>

text \<open>
  A Go map is an association list with distinct keys; \<open>m[k] = v\<close> is
  \<^const>\<open>AList.update\<close>, \<open>delete(m, k)\<close> is \<^const>\<open>AList.delete\<close>, a lookup is
  \<^const>\<open>map_of\<close>. Go iterates a map in an unspecified order, so whatever a
  component computes from an iteration is shown not to depend on the order, or keeps the
  order as a parameter.
\<close>

type_synonym ('k, 'v) gomap = "('k \<times> 'v) list"

abbreviation gomap_ok :: "('k, 'v) gomap \<Rightarrow> bool" where
  "gomap_ok m \<equiv> distinct (map fst m)"

lemma gomap_ok_update [simp, intro]: "gomap_ok m \<Longrightarrow> gomap_ok (AList.update k v m)"
  by (rule AList.distinct_update)

lemma gomap_ok_delete [simp, intro]: "gomap_ok m \<Longrightarrow> gomap_ok (AList.delete k m)"
  by (rule AList.distinct_delete)

lemma map_of_update [simp]: "map_of (AList.update k v m) = (map_of m)(k \<mapsto> v)"
  by (rule AList.update_conv')

lemma map_of_delete [simp]: "map_of (AList.delete k m) = (map_of m)(k := None)"
  by (rule AList.delete_conv')

lemma gomap_values_distinct:
  assumes "gomap_ok m" and "\<And>k v. (k, v) \<in> set m \<Longrightarrow> key v = k"
  shows "distinct (map key (map snd m))"
proof -
  have "map key (map snd m) = map fst m"
    using assms(2) by (auto simp: map_eq_conv)
  with assms(1) show ?thesis by (simp del: map_map)
qed

lemma gomap_mset_eqI:
  assumes "gomap_ok m" and "gomap_ok m'" and "map_of m = map_of m'"
  shows "mset m = mset m'"
proof -
  have "set m = set m'"
    using assms by (metis map_of_eqI map_of_inject_set subset_antisym order_refl)
  moreover have "distinct m" "distinct m'"
    using assms(1,2) by (auto simp: distinct_map)
  ultimately show ?thesis by (simp add: set_eq_iff_mset_eq_distinct)
qed

subsection \<open>sort.Slice\<close>

text \<open>
  \<open>sort.Slice\<close> promises a permutation in which no later element is less than an
  earlier one, provided \<open>less\<close> is a strict weak order on the elements; it is not stable, so nothing
  more may be relied on. On slices of at most 12 elements Go runs the insertion sort
  below, which is stable; it is the executable instance of the contract.
\<close>

definition strict_weak :: "('a \<Rightarrow> 'a \<Rightarrow> bool) \<Rightarrow> bool" where
  "strict_weak lt \<longleftrightarrow>
     (\<forall>x. \<not> lt x x) \<and> (\<forall>x y z. lt x y \<longrightarrow> lt y z \<longrightarrow> lt x z) \<and>
     (\<forall>x y z. \<not> lt x y \<longrightarrow> \<not> lt y z \<longrightarrow> \<not> lt x z)"

text \<open>On the elements of a slice, which is all that the algorithm compares.\<close>

definition strict_weak_on :: "'a set \<Rightarrow> ('a \<Rightarrow> 'a \<Rightarrow> bool) \<Rightarrow> bool" where
  "strict_weak_on A lt \<longleftrightarrow>
     (\<forall>x \<in> A. \<not> lt x x) \<and> (\<forall>x \<in> A. \<forall>y \<in> A. \<forall>z \<in> A. lt x y \<longrightarrow> lt y z \<longrightarrow> lt x z) \<and>
     (\<forall>x \<in> A. \<forall>y \<in> A. \<forall>z \<in> A. \<not> lt x y \<longrightarrow> \<not> lt y z \<longrightarrow> \<not> lt x z)"

lemma strict_weak_on: "strict_weak lt \<Longrightarrow> strict_weak_on A lt"
  unfolding strict_weak_def strict_weak_on_def by blast

lemma strict_weak_onD:
  assumes "strict_weak_on A lt"
  shows "x \<in> A \<Longrightarrow> y \<in> A \<Longrightarrow> lt x y \<Longrightarrow> \<not> lt y x"
    and "x \<in> A \<Longrightarrow> y \<in> A \<Longrightarrow> z \<in> A \<Longrightarrow> \<not> lt x y \<Longrightarrow> \<not> lt y z \<Longrightarrow> \<not> lt x z"
  using assms unfolding strict_weak_on_def by blast+

lemma strict_weak_on_key:
  fixes f :: "'a \<Rightarrow> 'b::linorder"
  assumes "\<And>x y. x \<in> A \<Longrightarrow> y \<in> A \<Longrightarrow> lt x y \<longleftrightarrow> f x > f y"
  shows "strict_weak_on A lt"
  using assms by (auto simp: strict_weak_on_def)

lemma strict_weak_key:
  fixes f :: "'a \<Rightarrow> 'b::linorder"
  shows "strict_weak (\<lambda>x y. f x < f y)" and "strict_weak (\<lambda>x y. f x > f y)"
  by (auto simp: strict_weak_def)

fun ins_back :: "('a \<Rightarrow> 'a \<Rightarrow> bool) \<Rightarrow> 'a \<Rightarrow> 'a list \<Rightarrow> 'a list" where
  "ins_back lt x [] = [x]"
| "ins_back lt x (y # ys) = (if lt x y then y # ins_back lt x ys else x # y # ys)"

definition insertion_sort :: "('a \<Rightarrow> 'a \<Rightarrow> bool) \<Rightarrow> 'a list \<Rightarrow> 'a list" where
  "insertion_sort lt xs = rev (foldl (\<lambda>acc x. ins_back lt x acc) [] xs)"

lemma mset_ins_back [simp]: "mset (ins_back lt x ys) = add_mset x (mset ys)"
  by (induction ys) auto

lemma mset_insertion_foldl:
  "mset (foldl (\<lambda>acc x. ins_back lt x acc) acc xs) = mset acc + mset xs"
  by (induction xs arbitrary: acc) auto

lemma mset_insertion_sort [simp]: "mset (insertion_sort lt xs) = mset xs"
  by (simp add: insertion_sort_def mset_insertion_foldl)

lemma strict_weakD:
  assumes "strict_weak lt"
  shows "\<not> lt x x" and "lt x y \<Longrightarrow> lt y z \<Longrightarrow> lt x z"
    and "\<not> lt x y \<Longrightarrow> \<not> lt y z \<Longrightarrow> \<not> lt x z" and "lt x y \<Longrightarrow> \<not> lt y x"
  using assms unfolding strict_weak_def by blast+

lemma set_ins_back [simp]: "set (ins_back lt x ys) = insert x (set ys)"
  by (induction ys) auto

lemma sorted_ins_back:
  assumes "strict_weak_on A lt" and "sorted_wrt (\<lambda>x y. \<not> lt x y) ys" and "insert x (set ys) \<subseteq> A"
  shows "sorted_wrt (\<lambda>x y. \<not> lt x y) (ins_back lt x ys)"
  using assms(2,3)
proof (induction ys)
  case Nil
  then show ?case by simp
next
  case (Cons y ys)
  show ?case
  proof (cases "lt x y")
    case True
    with strict_weak_onD(1) [OF assms(1) _ _ True] Cons show ?thesis by auto
  next
    case False
    have "\<forall>z \<in> set ys. \<not> lt x z"
      using Cons.prems strict_weak_onD(2) [OF assms(1) _ _ _ False] by auto
    with Cons.prems False show ?thesis by simp
  qed
qed

lemma sorted_insertion_foldl:
  assumes "strict_weak_on A lt" and "sorted_wrt (\<lambda>x y. \<not> lt x y) acc" and "set acc \<union> set xs \<subseteq> A"
  shows "sorted_wrt (\<lambda>x y. \<not> lt x y) (foldl (\<lambda>acc x. ins_back lt x acc) acc xs)"
  using assms(2,3)
proof (induction xs arbitrary: acc)
  case (Cons x xs)
  have "sorted_wrt (\<lambda>x y. \<not> lt x y) (ins_back lt x acc)"
    using Cons.prems by (intro sorted_ins_back [OF assms(1)]) auto
  with Cons show ?case by simp
qed simp

lemma sorted_insertion_sort_on:
  "strict_weak_on (set xs) lt \<Longrightarrow> sorted_wrt (\<lambda>x y. \<not> lt y x) (insertion_sort lt xs)"
  using sorted_insertion_foldl [of "set xs" lt "[]" xs] by (simp add: insertion_sort_def sorted_wrt_rev)

lemma sorted_insertion_sort:
  "strict_weak lt \<Longrightarrow> sorted_wrt (\<lambda>x y. \<not> lt y x) (insertion_sort lt xs)"
  by (rule sorted_insertion_sort_on [OF strict_weak_on])

text \<open>
  The contract. The client lemmas say what every caller of \<open>sort.Slice\<close> relies on; the
  last one says that the result is determined once \<open>less\<close> separates the elements.
\<close>

locale slice_sort =
  fixes sort_slice :: "('a \<Rightarrow> 'a \<Rightarrow> bool) \<Rightarrow> 'a list \<Rightarrow> 'a list"
  assumes slice_perm: "mset (sort_slice lt xs) = mset xs"
    and slice_sorted_on: "strict_weak_on (set xs) lt \<Longrightarrow> sorted_wrt (\<lambda>x y. \<not> lt y x) (sort_slice lt xs)"
begin

lemma slice_sorted: "strict_weak lt \<Longrightarrow> sorted_wrt (\<lambda>x y. \<not> lt y x) (sort_slice lt xs)"
  by (rule slice_sorted_on [OF strict_weak_on])

lemma slice_set [simp]: "set (sort_slice lt xs) = set xs"
  using slice_perm [of lt xs] by (metis set_mset_mset)

lemma slice_length [simp]: "length (sort_slice lt xs) = length xs"
  using slice_perm [of lt xs] by (metis size_mset)

lemma slice_distinct [simp]: "distinct (sort_slice lt xs) = distinct xs"
  using slice_perm [of lt xs] by (metis distinct_count_atmost_1 set_mset_mset)

lemma slice_distinct_map: "distinct (map f (sort_slice lt xs)) = distinct (map f xs)"
proof -
  have "mset (map f (sort_slice lt xs)) = mset (map f xs)"
    by (simp add: slice_perm)
  then show ?thesis by (rule mset_eq_imp_distinct_iff)
qed

lemma slice_top:
  assumes "strict_weak lt" and "sort_slice lt xs = y # ys" and "x \<in> set xs"
  shows "\<not> lt x y"
proof -
  have "sorted_wrt (\<lambda>x y. \<not> lt y x) (y # ys)"
    using slice_sorted [OF assms(1), of xs] assms(2) by simp
  moreover have "x \<in> set (y # ys)" using assms(2,3) slice_set [of lt xs] by simp
  ultimately show ?thesis using strict_weakD(1) [OF assms(1)] by auto
qed

end

interpretation gosort: slice_sort insertion_sort
  by unfold_locales (simp_all add: sorted_insertion_sort_on)

lemma sorted_wrt_unique:
  assumes "sorted_wrt R xs" and "sorted_wrt R ys" and "mset xs = mset ys"
    and antisym: "\<And>x y. x \<in> set xs \<Longrightarrow> y \<in> set xs \<Longrightarrow> R x y \<Longrightarrow> R y x \<Longrightarrow> x = y"
  shows "xs = ys"
  using assms
proof (induction xs arbitrary: ys)
  case Nil
  then show ?case by simp
next
  case (Cons x xs)
  from Cons.prems(3) obtain y ys' where ys: "ys = y # ys'" by (cases ys) auto
  have "x \<in> set ys" using Cons.prems(3) by (metis list.set_intros(1) set_mset_mset)
  moreover have "y \<in> set (x # xs)" using Cons.prems(3) ys by (metis list.set_intros(1) set_mset_mset)
  ultimately have "x = y"
    using Cons.prems(1,2) Cons.prems(4)[of x y] ys by auto
  moreover have "xs = ys'"
    using Cons.prems ys \<open>x = y\<close> by (intro Cons.IH) auto
  ultimately show ?case using ys by simp
qed

text \<open>Any sort that keeps the contract agrees with the insertion sort on separated elements.\<close>

lemma slice_sort_determined:
  assumes "slice_sort srt" and "strict_weak lt" and "mset xs = mset ys"
    and "\<And>x y. x \<in> set xs \<Longrightarrow> y \<in> set xs \<Longrightarrow> x \<noteq> y \<Longrightarrow> lt x y \<or> lt y x"
  shows "srt lt xs = insertion_sort lt ys"
proof (rule sorted_wrt_unique [where R = "\<lambda>x y. \<not> lt y x"])
  show "sorted_wrt (\<lambda>x y. \<not> lt y x) (srt lt xs)"
    by (rule slice_sort.slice_sorted [OF assms(1,2)])
  show "sorted_wrt (\<lambda>x y. \<not> lt y x) (insertion_sort lt ys)"
    by (rule sorted_insertion_sort [OF assms(2)])
  show "mset (srt lt xs) = mset (insertion_sort lt ys)"
    by (simp add: slice_sort.slice_perm [OF assms(1)] assms(3))
next
  fix x y assume "x \<in> set (srt lt xs)" "y \<in> set (srt lt xs)" "\<not> lt y x" "\<not> lt x y"
  then show "x = y"
    using assms(4) by (metis slice_sort.slice_set [OF assms(1)])
qed

subsection \<open>Lists\<close>

lemma filter_set_eqI: "(\<And>x. x \<in> set xs \<Longrightarrow> P x = Q x) \<Longrightarrow> filter P xs = filter Q xs"
  by (simp cong: filter_cong)

text \<open>\<open>if len(xs) > limit { xs = xs[:limit] }\<close>, with the signed limit of the code.\<close>

definition truncate_to :: "nat \<Rightarrow> 'a list \<Rightarrow> 'a list" where
  "truncate_to n xs = (if n < length xs then take n xs else xs)"

lemma truncate_to_take: "truncate_to n xs = take n xs"
  by (simp add: truncate_to_def)

text \<open>
  A loop that appends to a slice the first occurrence of each value: the \<open>seen\<close> map and
  the result of the code.
\<close>

fun dedup_seen :: "'a list \<Rightarrow> 'a list \<Rightarrow> 'a list" where
  "dedup_seen seen [] = []"
| "dedup_seen seen (x # xs) =
     (if x \<in> set seen then dedup_seen seen xs else x # dedup_seen (x # seen) xs)"

lemma set_dedup_seen: "set (dedup_seen seen xs) = set xs - set seen"
  by (induction xs arbitrary: seen) auto

lemma distinct_dedup_seen: "distinct (dedup_seen seen xs)"
  by (induction xs arbitrary: seen) (auto simp: set_dedup_seen)

lemma dedup_seen_id: "distinct xs \<Longrightarrow> set xs \<inter> set seen = {} \<Longrightarrow> dedup_seen seen xs = xs"
  by (induction xs arbitrary: seen) auto

end
