(* ===== verification/GoString.thy ===== *)
theory GoString
  imports Prelude
begin

section \<open>Go strings: bytes, runes and the functions of package strings\<close>

text \<open>
  A Go string is a sequence of bytes, here a \<^typ>\<open>string\<close> (a list of 8-bit characters):
  \<open>len(s)\<close> is \<^const>\<open>length\<close> and \<open>s[i:j]\<close> is \<^const>\<open>take\<close> and \<^const>\<open>drop\<close>.
  This theory has the functions of package \<open>strings\<close> and of \<open>unicode/utf8\<close> the code
  calls. A rune is represented by its UTF-8 bytes, an invalid byte by those of U+FFFD.
\<close>

subsection \<open>Prefixes, substrings\<close>

definition has_prefix :: "string \<Rightarrow> string \<Rightarrow> bool" where
  "has_prefix s p = (take (length p) s = p)"

definition has_suffix :: "string \<Rightarrow> string \<Rightarrow> bool" where
  "has_suffix s p = has_prefix (rev s) (rev p)"

definition trim_prefix :: "string \<Rightarrow> string \<Rightarrow> string" where
  "trim_prefix s p = (if has_prefix s p then drop (length p) s else s)"

fun str_index :: "string \<Rightarrow> string \<Rightarrow> nat option" where
  "str_index s p =
     (if has_prefix s p then Some 0
      else case s of [] \<Rightarrow> None | _ # r \<Rightarrow> map_option Suc (str_index r p))"

declare str_index.simps [simp del]

definition str_contains :: "string \<Rightarrow> string \<Rightarrow> bool" where
  "str_contains s p = (str_index s p \<noteq> None)"

lemma has_prefix_append [simp]: "has_prefix (p @ s) p"
  by (simp add: has_prefix_def)

lemma has_prefix_iff: "has_prefix s p \<longleftrightarrow> (\<exists>r. s = p @ r)"
  unfolding has_prefix_def by (metis append_eq_conv_conj append_take_drop_id)

lemma has_suffix_iff: "has_suffix s p \<longleftrightarrow> (\<exists>r. s = r @ p)"
  unfolding has_suffix_def has_prefix_iff by (metis rev_append rev_rev_ident)

lemma str_index_Some: "str_index s p = Some i \<Longrightarrow> has_prefix (drop i s) p"
proof (induction s arbitrary: i)
  case Nil
  then show ?case by (subst (asm) str_index.simps) (auto split: if_splits)
next
  case (Cons a s)
  then show ?case by (subst (asm) str_index.simps) (auto split: if_splits)
qed

lemma str_index_None: "str_index s p = None \<longleftrightarrow> (\<forall>u v. s \<noteq> u @ p @ v)"
proof (induction s)
  case Nil
  show ?case by (subst str_index.simps) (auto simp: has_prefix_iff)
next
  case (Cons a s)
  show ?case
    by (subst str_index.simps) (auto simp: Cons has_prefix_iff Cons_eq_append_conv)
qed

lemma str_contains_iff: "str_contains s p \<longleftrightarrow> (\<exists>u v. s = u @ p @ v)"
  by (simp add: str_contains_def str_index_None)

text \<open>\<open>strings.Replace(s, old, new, 1)\<close> for a non-empty \<open>old\<close>.\<close>

definition replace_first :: "string \<Rightarrow> string \<Rightarrow> string \<Rightarrow> string" where
  "replace_first s old new =
     (case str_index s old of None \<Rightarrow> s
      | Some i \<Rightarrow> take i s @ new @ drop (i + length old) s)"

text \<open>\<open>strings.ReplaceAll(s, old, new)\<close> for a one-byte \<open>old\<close>.\<close>

definition replace_char :: "char \<Rightarrow> string \<Rightarrow> string \<Rightarrow> string" where
  "replace_char c new s = concat (map (\<lambda>x. if x = c then new else [x]) s)"

text \<open>\<open>strings.ReplaceAll(s, old, new)\<close> for a non-empty \<open>old\<close>, scanning left to right.\<close>

function replace_all :: "string \<Rightarrow> string \<Rightarrow> string \<Rightarrow> string" where
  "replace_all old new s =
     (if old = [] then s
      else if has_prefix s old then new @ replace_all old new (drop (length old) s)
      else case s of [] \<Rightarrow> [] | x # r \<Rightarrow> x # replace_all old new r)"
  by pat_completeness auto
termination
  by (relation "measure (\<lambda>(old, new, s). length s)")
    (auto simp: has_prefix_def intro!: diff_less split: list.splits)

declare replace_all.simps [simp del]

subsection \<open>Splitting and joining\<close>

text \<open>\<open>strings.Split(s, sep)\<close> for a one-byte separator: always at least one part.\<close>

fun split_on :: "char \<Rightarrow> string \<Rightarrow> string list" where
  "split_on c [] = [[]]"
| "split_on c (x # xs) =
     (if x = c then [] # split_on c xs
      else case split_on c xs of [] \<Rightarrow> [[x]] | p # ps \<Rightarrow> (x # p) # ps)"

text \<open>\<open>strings.Join(parts, sep)\<close>.\<close>

fun join :: "string \<Rightarrow> string list \<Rightarrow> string" where
  "join sep [] = []"
| "join sep [p] = p"
| "join sep (p # ps) = p @ sep @ join sep ps"

lemma split_on_nonempty [simp]: "split_on c s \<noteq> []"
  by (induction s) (auto split: list.splits)

lemma split_on_none: "c \<notin> set s \<Longrightarrow> split_on c s = [s]"
  by (induction s) auto

lemma split_on_append: "c \<notin> set p \<Longrightarrow> split_on c (p @ c # s) = p # split_on c s"
  by (induction p) auto

lemma join_Cons: "ps \<noteq> [] \<Longrightarrow> join sep (p # ps) = p @ sep @ join sep ps"
  by (cases ps) auto

lemma join_split_on: "join [c] (split_on c s) = s"
proof (induction s)
  case Nil
  show ?case by simp
next
  case (Cons x s)
  obtain p ps where sp: "split_on c s = p # ps" by (cases "split_on c s") auto
  show ?case
  proof (cases "x = c")
    case True
    then show ?thesis using Cons sp by (simp add: join_Cons)
  next
    case False
    then show ?thesis using Cons sp by (cases ps) auto
  qed
qed

lemma split_on_join:
  "ps \<noteq> [] \<Longrightarrow> \<forall>p \<in> set ps. c \<notin> set p \<Longrightarrow> split_on c (join [c] ps) = ps"
proof (induction ps)
  case Nil
  then show ?case by simp
next
  case (Cons p ps)
  then show ?case
    by (cases "ps = []") (simp_all add: split_on_none join_Cons split_on_append)
qed

lemma split_on_parts: "p \<in> set (split_on c s) \<Longrightarrow> c \<notin> set p"
proof (induction s arbitrary: p)
  case Nil
  then show ?case by simp
next
  case (Cons x s)
  then show ?case
    by (cases "split_on c s") (auto split: if_splits)
qed

subsection \<open>White space\<close>

text \<open>
  \<open>unicode.IsSpace\<close> holds of 25 runes. Their encodings start with an ASCII or a lead
  byte and no encoding of another rune contains them at an inner position, so testing
  byte positions for them is what \<open>TrimSpace\<close> and \<open>Fields\<close> do rune by rune.
  \<open>space_width s\<close> is the width of the space rune \<open>s\<close> starts with, 0 if there is none;
  \<open>space_width_rev\<close> is the same for a reversed string.
\<close>

definition is_ascii_space :: "char \<Rightarrow> bool" where
  "is_ascii_space c \<longleftrightarrow>
     c \<in> {CHR 0x20, CHR 0x09, CHR 0x0A, CHR 0x0B, CHR 0x0C, CHR 0x0D}"

definition is_space2 :: "char \<Rightarrow> char \<Rightarrow> bool" where
  "is_space2 a b \<longleftrightarrow> a = CHR 0xC2 \<and> (b = CHR 0x85 \<or> b = CHR 0xA0)"

definition is_space3 :: "char \<Rightarrow> char \<Rightarrow> char \<Rightarrow> bool" where
  "is_space3 a b c \<longleftrightarrow>
     a = CHR 0xE1 \<and> b = CHR 0x9A \<and> c = CHR 0x80 \<or>
     a = CHR 0xE2 \<and> b = CHR 0x80 \<and>
       c \<in> {CHR 0x80, CHR 0x81, CHR 0x82, CHR 0x83, CHR 0x84, CHR 0x85, CHR 0x86, CHR 0x87,
            CHR 0x88, CHR 0x89, CHR 0x8A, CHR 0xA8, CHR 0xA9, CHR 0xAF} \<or>
     a = CHR 0xE2 \<and> b = CHR 0x81 \<and> c = CHR 0x9F \<or>
     a = CHR 0xE3 \<and> b = CHR 0x80 \<and> c = CHR 0x80"

fun space_width :: "string \<Rightarrow> nat" where
  "space_width [] = 0"
| "space_width (a # r) =
     (if is_ascii_space a then 1
      else case r of [] \<Rightarrow> 0
      | b # r' \<Rightarrow> if is_space2 a b then 2
         else case r' of [] \<Rightarrow> 0 | c # _ \<Rightarrow> if is_space3 a b c then 3 else 0)"

fun space_width_rev :: "string \<Rightarrow> nat" where
  "space_width_rev [] = 0"
| "space_width_rev (c # r) =
     (if is_ascii_space c then 1
      else case r of [] \<Rightarrow> 0
      | b # r' \<Rightarrow> if is_space2 b c then 2
         else case r' of [] \<Rightarrow> 0 | a # _ \<Rightarrow> if is_space3 a b c then 3 else 0)"

lemma space_width_le: "space_width s \<le> length s"
  by (cases s rule: space_width.cases) (auto split: list.splits)

lemma space_width_rev_le: "space_width_rev s \<le> length s"
  by (cases s rule: space_width_rev.cases) (auto split: list.splits)

declare space_width.simps [simp del] space_width_rev.simps [simp del]

lemma space_width_Nil [simp]: "space_width [] = 0" and space_width_rev_Nil [simp]: "space_width_rev [] = 0"
  by (simp_all add: space_width.simps space_width_rev.simps)

lemma drop_shorter: "w s \<noteq> 0 \<Longrightarrow> (\<And>t. w t \<le> length t) \<Longrightarrow> length (drop (w s) s) < length (s :: string)"
  by (metis diff_less le_0_eq length_drop not_gr_zero)

function trim_left :: "string \<Rightarrow> string" where
  "trim_left s = (if space_width s = 0 then s else trim_left (drop (space_width s) s))"
  by pat_completeness auto
termination
  by (relation "measure length") (simp_all add: drop_shorter space_width_le del: length_drop)

function trim_left_rev :: "string \<Rightarrow> string" where
  "trim_left_rev s =
     (if space_width_rev s = 0 then s else trim_left_rev (drop (space_width_rev s) s))"
  by pat_completeness auto
termination
  by (relation "measure length") (simp_all add: drop_shorter space_width_rev_le del: length_drop)

declare trim_left.simps [simp del] trim_left_rev.simps [simp del]

definition trim_space :: "string \<Rightarrow> string" where
  "trim_space s = rev (trim_left_rev (rev (trim_left s)))"

lemma trim_left_id: "space_width s = 0 \<Longrightarrow> trim_left s = s"
  by (simp add: trim_left.simps)

lemma trim_left_rev_id: "space_width_rev s = 0 \<Longrightarrow> trim_left_rev s = s"
  by (simp add: trim_left_rev.simps)

text \<open>A string that begins and ends with an ASCII byte other than a space is not changed.\<close>

definition plain_char :: "char \<Rightarrow> bool" where
  "plain_char c \<longleftrightarrow> \<not> is_ascii_space c \<and> c < CHR 0x80"

lemma plain_not_lead: "plain_char a \<Longrightarrow> \<not> is_space2 a b \<and> \<not> is_space3 a b c"
  by (auto simp: plain_char_def is_space2_def is_space3_def less_char_def)

lemma plain_not_last: "plain_char c \<Longrightarrow> \<not> is_space2 b c \<and> \<not> is_space3 a b c"
  by (auto simp: plain_char_def is_space2_def is_space3_def less_char_def)

lemma space_width_plain [simp]: "plain_char c \<Longrightarrow> space_width (c # r) = 0"
  using plain_not_lead by (auto simp: plain_char_def space_width.simps split: list.splits)

lemma space_width_rev_plain [simp]: "plain_char c \<Longrightarrow> space_width_rev (c # r) = 0"
  using plain_not_last by (auto simp: plain_char_def space_width_rev.simps split: list.splits)

lemma trim_space_plain:
  assumes "plain_char a" and "plain_char z"
  shows "trim_space (a # s @ [z]) = a # s @ [z]"
  using assms by (simp add: trim_space_def trim_left_id trim_left_rev_id)

lemma trim_space_Nil [simp]: "trim_space [] = []"
  by (simp add: trim_space_def trim_left_id trim_left_rev_id)

text \<open>\<open>strings.TrimLeft(s, cutset)\<close> and \<open>strings.TrimRight(s, cutset)\<close> for ASCII cutsets.\<close>

definition trim_cut :: "string \<Rightarrow> string \<Rightarrow> string" where
  "trim_cut cs s = dropWhile (\<lambda>c. c \<in> set cs) s"

definition trim_cut_right :: "string \<Rightarrow> string \<Rightarrow> string" where
  "trim_cut_right cs s = rev (trim_cut cs (rev s))"

text \<open>\<open>strings.Fields(s)\<close>: the maximal space-free pieces.\<close>

function fields_acc :: "string \<Rightarrow> string \<Rightarrow> string list" where
  "fields_acc cur s =
     (case s of [] \<Rightarrow> (if cur = [] then [] else [rev cur])
      | c # r \<Rightarrow>
          (let w = space_width s in
           if w = 0 then fields_acc (c # cur) r
           else (if cur = [] then [] else [rev cur]) @ fields_acc [] (drop w s)))"
  by pat_completeness auto
termination
  by (relation "measure (\<lambda>(cur, s). length s)")
    (auto intro!: diff_less)

declare fields_acc.simps [simp del]

definition go_fields :: "string \<Rightarrow> string list" where
  "go_fields s = fields_acc [] s"

lemma fields_acc_nonempty: "[] \<notin> set (fields_acc cur s)"
proof (induction cur s rule: fields_acc.induct)
  case (1 cur s)
  then show ?case
    by (subst fields_acc.simps) (auto simp: Let_def split: list.splits)
qed

lemma fields_nonempty: "t \<in> set (go_fields s) \<Longrightarrow> t \<noteq> []"
  using fields_acc_nonempty [of "[]" s] by (auto simp: go_fields_def)

subsection \<open>Runes\<close>

text \<open>The bytes of the rune a string starts with, per the acceptance ranges of
  \<open>unicode/utf8\<close>; 0 when the first byte starts no valid encoding.\<close>

definition byte_in :: "nat \<Rightarrow> nat \<Rightarrow> char \<Rightarrow> bool" where
  "byte_in lo hi c \<longleftrightarrow> lo \<le> of_char c \<and> of_char c \<le> hi"

definition second_ok :: "char \<Rightarrow> char \<Rightarrow> bool" where
  "second_ok a b \<longleftrightarrow>
     byte_in 0x80 0xBF b \<and>
     (a = CHR 0xE0 \<longrightarrow> byte_in 0xA0 0xBF b) \<and> (a = CHR 0xED \<longrightarrow> byte_in 0x80 0x9F b) \<and>
     (a = CHR 0xF0 \<longrightarrow> byte_in 0x90 0xBF b) \<and> (a = CHR 0xF4 \<longrightarrow> byte_in 0x80 0x8F b)"

definition rune_width :: "string \<Rightarrow> nat" where
  "rune_width s =
     (case s of [] \<Rightarrow> 0
      | a # r \<Rightarrow>
        if byte_in 0 0x7F a then 1
        else if byte_in 0xC2 0xDF a then
          (case r of b # _ \<Rightarrow> if second_ok a b then 2 else 0 | [] \<Rightarrow> 0)
        else if byte_in 0xE0 0xEF a then
          (case r of b # c # _ \<Rightarrow> if second_ok a b \<and> byte_in 0x80 0xBF c then 3 else 0 | _ \<Rightarrow> 0)
        else if byte_in 0xF0 0xF4 a then
          (case r of b # c # d # _ \<Rightarrow>
             if second_ok a b \<and> byte_in 0x80 0xBF c \<and> byte_in 0x80 0xBF d then 4 else 0
           | _ \<Rightarrow> 0)
        else 0)"

definition rune_error :: string where
  "rune_error = [CHR 0xEF, CHR 0xBF, CHR 0xBD]"

text \<open>\<open>[]rune(s)\<close>, each rune by its encoding.\<close>

function runes :: "string \<Rightarrow> string list" where
  "runes s =
     (case s of [] \<Rightarrow> []
      | a # r \<Rightarrow> (let w = rune_width s in
          if w = 0 then rune_error # runes r else take w s # runes (drop w s)))"
  by pat_completeness auto
termination
  by (relation "measure length") (auto intro!: diff_less)

declare runes.simps [simp del]

text \<open>A string is valid UTF-8 when decoding it meets no invalid byte.\<close>

function valid_utf8 :: "string \<Rightarrow> bool" where
  "valid_utf8 s =
     (if s = [] then True
      else let w = rune_width s in if w = 0 then False else valid_utf8 (drop w s))"
  by pat_completeness auto
termination
  by (relation "measure length") (auto intro!: diff_less)

declare valid_utf8.simps [simp del]

lemma rune_width_le: "rune_width s \<le> length s"
  by (auto simp: rune_width_def split: list.splits)

lemma rune_width_ascii: "byte_in 0 0x7F a \<Longrightarrow> rune_width (a # r) = 1"
  by (simp add: rune_width_def)

lemma runes_Nil [simp]: "runes [] = []"
  by (simp add: runes.simps)

lemma runes_ascii_Cons: "byte_in 0 0x7F a \<Longrightarrow> runes (a # r) = [a] # runes r"
  by (subst runes.simps) (simp add: rune_width_ascii)

lemma runes_ascii: "\<forall>c \<in> set s. byte_in 0 0x7F c \<Longrightarrow> runes s = map (\<lambda>c. [c]) s"
  by (induction s) (auto simp: runes_ascii_Cons)

text \<open>\<open>string([]rune(s))\<close> is \<open>s\<close> when \<open>s\<close> is valid UTF-8.\<close>

lemma concat_runes: "valid_utf8 s \<Longrightarrow> concat (runes s) = s"
proof (induction s rule: runes.induct)
  case (1 s)
  show ?case
  proof (cases s)
    case Nil
    then show ?thesis by simp
  next
    case (Cons a r)
    with "1.prems" have "rune_width s \<noteq> 0 \<and> valid_utf8 (drop (rune_width s) s)"
      by (subst (asm) valid_utf8.simps) (auto simp: Let_def split: if_splits)
    then have w: "rune_width s \<noteq> 0" and v: "valid_utf8 (drop (rune_width s) s)" by auto
    from "1.IH"(2) [OF Cons refl w] v have "concat (runes (drop (rune_width s) s)) = drop (rune_width s) s"
      by simp
    with Cons w show ?thesis by (subst runes.simps) (simp add: Let_def)
  qed
qed

text \<open>\<open>if runes := []rune(s); len(runes) > n { s = string(runes[:n]) }\<close>.\<close>

definition truncate_runes :: "nat \<Rightarrow> string \<Rightarrow> string" where
  "truncate_runes n s = (if n < length (runes s) then concat (take n (runes s)) else s)"

subsection \<open>Case mapping and numbers\<close>

definition ascii_lower :: "char \<Rightarrow> char" where
  "ascii_lower c =
     (if byte_in 0x41 0x5A c then char_of (of_char c + 32 :: nat) else c)"

text \<open>
  \<open>strings.ToLower\<close> as the code uses it, for lookups among ASCII keys: ASCII letters
  and the two other runes whose lower case is ASCII (U+212A gives k, U+0130 gives i);
  the remaining runes map to runes outside ASCII and are left as they are, so a result
  is an ASCII key exactly when Go's is.
\<close>

function to_lower :: "string \<Rightarrow> string" where
  "to_lower s =
     (case s of [] \<Rightarrow> []
      | c # r \<Rightarrow>
        if has_prefix s [CHR 0xE2, CHR 0x84, CHR 0xAA] then CHR ''k'' # to_lower (drop 3 s)
        else if has_prefix s [CHR 0xC4, CHR 0xB0] then CHR ''i'' # to_lower (drop 2 s)
        else ascii_lower c # to_lower r)"
  by pat_completeness auto
termination
  by (relation "measure length") (auto intro!: diff_less)

declare to_lower.simps [simp del]

text \<open>\<open>fmt.Sprintf("%d", n)\<close>.\<close>

fun digits_of :: "nat \<Rightarrow> string" where
  "digits_of n =
     (if n < 10 then [char_of (48 + n)] else digits_of (n div 10) @ [char_of (48 + n mod 10)])"

declare digits_of.simps [simp del]

definition show_int :: "int \<Rightarrow> string" where
  "show_int i = (if i < 0 then CHR ''-'' # digits_of (nat (- i)) else digits_of (nat i))"

definition is_digit :: "char \<Rightarrow> bool" where
  "is_digit c \<longleftrightarrow> byte_in 48 57 c"

definition digit_val :: "char \<Rightarrow> nat" where
  "digit_val c = of_char c - 48"

definition dec_val :: "string \<Rightarrow> nat" where
  "dec_val s = foldl (\<lambda>n c. 10 * n + digit_val c) 0 s"

lemma of_char_digit: "n < 10 \<Longrightarrow> of_char (char_of (48 + n) :: char) = (48 + n :: nat)"
  by simp

lemma digits_of_digits: "\<forall>c \<in> set (digits_of n). is_digit c"
proof (induction n rule: digits_of.induct)
  case (1 n)
  then show ?case
    by (subst digits_of.simps) (auto simp: is_digit_def byte_in_def)
qed

lemma digits_of_nonempty [simp]: "digits_of n \<noteq> []"
  by (subst digits_of.simps) simp

lemma dec_val_digits_of: "dec_val (digits_of n) = n"
proof (induction n rule: digits_of.induct)
  case (1 n)
  show ?case
  proof (cases "n < 10")
    case True
    then show ?thesis by (simp add: digits_of.simps [of n] dec_val_def digit_val_def)
  next
    case False
    with 1 have "dec_val (digits_of (n div 10)) = n div 10" by simp
    with False show ?thesis
      by (simp add: digits_of.simps [of n] dec_val_def digit_val_def)
  qed
qed

text \<open>\<open>strconv.Atoi\<close> on a 64-bit platform: an optional sign, decimal digits, in range.\<close>

definition parse_digits :: "string \<Rightarrow> nat option" where
  "parse_digits s = (if s \<noteq> [] \<and> (\<forall>c \<in> set s. is_digit c) then Some (dec_val s) else None)"

definition atoi :: "string \<Rightarrow> int option" where
  "atoi s =
     (let (neg, ds) = (case s of [] \<Rightarrow> (False, [])
                       | c # r \<Rightarrow> if c = CHR ''-'' then (True, r)
                                  else if c = CHR ''+'' then (False, r) else (False, s))
      in case parse_digits ds of None \<Rightarrow> None
         | Some n \<Rightarrow> (let i = (if neg then - int n else int n)
                      in if - (2 ^ 63) \<le> i \<and> i < 2 ^ 63 then Some i else None))"

lemma digits_head: "digits_of n = c # r \<Longrightarrow> c \<noteq> CHR ''-'' \<and> c \<noteq> CHR ''+''"
  using digits_of_digits [of n] by (auto simp: is_digit_def byte_in_def)

lemma atoi_show_int:
  assumes "- (2 ^ 63) \<le> i" and "i < 2 ^ 63"
  shows "atoi (show_int i) = Some i"
proof -
  have pd: "parse_digits (digits_of n) = Some n" for n
    by (simp add: parse_digits_def digits_of_digits dec_val_digits_of)
  show ?thesis
  proof (cases "i < 0")
    case True
    then show ?thesis using assms pd [of "nat (- i)"] by (simp add: atoi_def show_int_def)
  next
    case False
    obtain c r where d: "digits_of (nat i) = c # r"
      by (cases "digits_of (nat i)") auto
    from digits_head [OF d] pd [of "nat i"] False assms show ?thesis
      by (simp add: atoi_def show_int_def d)
  qed
qed

end
