(* ===== verification/JsonProps.thy ===== *)
theory JsonProps
  imports Json
begin

section \<open>The JSON model: fuel and round trips\<close>

declare pv.simps [simp del] pe.simps [simp del] pm.simps [simp del]

subsection \<open>Every parser consumes its input\<close>

lemma skip_ws_le: "length (skip_ws s) \<le> length s"
  by (simp add: skip_ws_def length_dropWhile_le)

lemma take_ch_less: "take_ch c s = Some r \<Longrightarrow> length r < length s"
  using skip_ws_le [of s] by (auto simp: take_ch_def split: list.splits if_splits)

lemma cons_out_Some: "cons_out p x = Some (t, r) \<longleftrightarrow> (\<exists>t'. x = Some (t', r) \<and> t = p @ t')"
  by (auto simp: cons_out_def)

lemma pstr_less: "pstr s = Some (t, r) \<Longrightarrow> length r < length s"
proof (induction s arbitrary: t r rule: pstr.induct)
  case (1 s)
  show ?case
  proof (cases s)
    case Nil
    with "1.prems" show ?thesis by (subst (asm) pstr.simps) simp
  next
    case (Cons c r1)
    consider (q) "c = CHR 0x22" | (e) "c = CHR 0x5C" | (ctl) "c \<noteq> CHR 0x22" "c \<noteq> CHR 0x5C" "c < CHR 0x20"
      | (o) "c \<noteq> CHR 0x22" "c \<noteq> CHR 0x5C" "\<not> c < CHR 0x20" by blast
    then show ?thesis
    proof cases
      case q
      with "1.prems" Cons show ?thesis by (subst (asm) pstr.simps) simp
    next
      case e
      with "1.prems" Cons obtain x r2 where r1: "r1 = x # r2"
        by (subst (asm) pstr.simps) (auto split: list.splits)
      show ?thesis
      proof (cases "x = CHR ''u''")
        case True
        with "1.prems" Cons e r1 obtain u where u: "hex4 r2 = Some u"
          by (subst (asm) pstr.simps) (auto split: option.splits)
        with "1.prems" Cons e r1 True obtain t' where "pstr (snd (u_rune u (drop 4 r2))) = Some (t', r)"
          by (subst (asm) pstr.simps) (auto simp: cons_out_Some Let_def)
        from "1.IH"(1) [OF Cons _ e r1 True u refl this] have "length r < length (snd (u_rune u (drop 4 r2)))"
          by (simp add: e)
        with u_rune_le [of u "drop 4 r2"] Cons r1 show ?thesis by simp
      next
        case False
        with "1.prems" Cons e r1 obtain y t' where y: "unescape x = Some y" and "pstr r2 = Some (t', r)"
          by (subst (asm) pstr.simps) (auto simp: cons_out_Some split: option.splits)
        from "1.IH"(2) [OF Cons _ e r1 False y this(2)] Cons r1 show ?thesis by (simp add: e)
      qed
    next
      case ctl
      with "1.prems" Cons show ?thesis by (subst (asm) pstr.simps) simp
    next
      case o
      show ?thesis
      proof (cases "rune_width s = 0")
        case True
        with "1.prems" Cons o obtain t' where "pstr r1 = Some (t', r)"
          by (subst (asm) pstr.simps) (auto simp: cons_out_Some Let_def)
        from "1.IH"(3) [OF Cons o refl True this] Cons show ?thesis by simp
      next
        case False
        with "1.prems" Cons o obtain t' where "pstr (drop (rune_width s) s) = Some (t', r)"
          by (subst (asm) pstr.simps) (auto simp: cons_out_Some Let_def)
        from "1.IH"(4) [OF Cons o refl False this] Cons show ?thesis by simp
      qed
    qed
  qed
qed

lemma span_digits_split: "span_digits s = (ds, r) \<Longrightarrow> s = ds @ r"
  by (auto simp: span_digits_def)

lemma pfrac_split: "pfrac s = Some (f, r) \<Longrightarrow> s = f @ r"
  by (auto simp: pfrac_def Let_def dest!: span_digits_split split: list.splits if_splits prod.splits)

lemma pexp_split: "pexp s = Some (f, r) \<Longrightarrow> s = f @ r"
  by (auto simp: pexp_def Let_def dest!: span_digits_split split: list.splits if_splits prod.splits)

lemma pnum_split: "pnum s = Some (l, r) \<Longrightarrow> s = l @ r \<and> l \<noteq> []"
  by (auto simp: pnum_def Let_def dest!: span_digits_split pfrac_split pexp_split
      split: list.splits if_splits prod.splits option.splits)

lemma parse_less:
  shows "pv n d s = Some (v, r) \<Longrightarrow> length r < length s"
    and "pe n d s = Some (vs, r) \<Longrightarrow> length r < length s"
    and "pm n d s = Some (ms, r) \<Longrightarrow> length r < length s"
proof (induction n d s and n d s and n d s arbitrary: v r and vs r and ms r rule: pv_pe_pm.induct)
  case (2 n d s)
  from "2.prems" obtain c q where sk: "skip_ws s = c # q"
    by (cases "skip_ws s") (simp_all add: pv.simps)
  have q: "length q < length s" using skip_ws_le [of s] sk by simp
  note step = "2.prems" [unfolded pv.simps sk list.case]
  consider (str) "c = CHR 0x22" | (obj) "c = CHR ''{''" | (arr) "c = CHR ''[''"
    | (rest) "c \<noteq> CHR 0x22" "c \<noteq> CHR ''{''" "c \<noteq> CHR ''[''" by blast
  then show ?case
  proof cases
    case str
    with step obtain t where "pstr q = Some (t, r)" by auto
    with pstr_less q show ?thesis by (metis less_trans)
  next
    case obj
    with step have d: "d \<noteq> 0" by (auto split: if_splits)
    show ?thesis
    proof (cases "take_ch CHR ''}'' q")
      case None
      with step obj d obtain ms where "pm n (d - 1) q = Some (ms, r)" by auto
      with "2.IH"(1) [OF sk _ obj d None this] obj q show ?thesis by simp
    next
      case (Some r')
      with step obj d take_ch_less [OF Some] q show ?thesis by simp
    qed
  next
    case arr
    with step have d: "d \<noteq> 0" by (auto split: if_splits)
    show ?thesis
    proof (cases "take_ch CHR '']'' q")
      case None
      with step arr d obtain vs where "pe n (d - 1) q = Some (vs, r)" by auto
      with "2.IH"(2) [OF sk _ _ arr d None this] arr q show ?thesis by simp
    next
      case (Some r')
      with step arr d take_ch_less [OF Some] q show ?thesis by simp
    qed
  next
    case rest
    with step have "length r \<le> length q"
      by (auto split: if_splits dest!: pnum_split simp: Cons_eq_append_conv)
    with q show ?thesis by simp
  qed
next
  case (4 n d s)
  from "4.prems" obtain v r1 where v: "pv n d s = Some (v, r1)"
    by (auto simp: pe.simps split: option.splits)
  from "4.IH"(1) [OF v] have l: "length r1 < length s" .
  show ?case
  proof (cases "take_ch CHR '','' r1")
    case None
    with "4.prems" v l show ?thesis
      by (auto simp: pe.simps dest!: take_ch_less)
  next
    case (Some r2)
    with "4.prems" v obtain ws where "pe n d r2 = Some (ws, r)"
      by (auto simp: pe.simps)
    from "4.IH"(2) [OF v refl Some this] take_ch_less [OF Some] l show ?thesis by simp
  qed
next
  case (6 n d s)
  from "6.prems" obtain r0 key r1 r2 v r3 where
    a: "take_ch CHR 0x22 s = Some r0" and b: "pstr r0 = Some (key, r1)" and
    c: "take_ch CHR '':'' r1 = Some r2" and v: "pv n d r2 = Some (v, r3)"
    by (auto simp: pm.simps split: option.splits prod.splits)
  have l: "length r3 < length s"
    using "6.IH"(1) [OF a b refl c v] take_ch_less [OF a] pstr_less [OF b] take_ch_less [OF c] by simp
  show ?case
  proof (cases "take_ch CHR '','' r3")
    case None
    with "6.prems" a b c v l show ?thesis by (auto simp: pm.simps dest!: take_ch_less)
  next
    case (Some r4)
    with "6.prems" a b c v obtain ms' where "pm n d r4 = Some (ms', r)"
      by (auto simp: pm.simps)
    from "6.IH"(2) [OF a b refl c v refl Some this] take_ch_less [OF Some] l show ?thesis by simp
  qed
qed (simp_all add: pv.simps pe.simps pm.simps)

subsection \<open>The fuel is enough\<close>

text \<open>A value takes at most two units of fuel for each byte of its text.\<close>

lemma pe_step:
  assumes "pv m d s = pv n d s" and "\<And>v r r'. pv m d s = Some (v, r) \<Longrightarrow> take_ch CHR '','' r = Some r' \<Longrightarrow> pe m d r' = pe n d r'"
  shows "pe (Suc m) d s = pe (Suc n) d s"
  using assms(2) unfolding pe.simps assms(1) [symmetric]
  by (auto split: option.split prod.split)

lemma pm_step:
  assumes "\<And>r0 key r1 r2. take_ch CHR 0x22 s = Some r0 \<Longrightarrow> pstr r0 = Some (key, r1) \<Longrightarrow> take_ch CHR '':'' r1 = Some r2 \<Longrightarrow>
      pv m d r2 = pv n d r2 \<and>
      (\<forall>v r r'. pv m d r2 = Some (v, r) \<longrightarrow> take_ch CHR '','' r = Some r' \<longrightarrow> pm m d r' = pm n d r')"
  shows "pm (Suc m) d s = pm (Suc n) d s"
proof (cases "take_ch CHR 0x22 s")
  case None
  then show ?thesis by (simp add: pm.simps)
next
  case 0: (Some r0)
  show ?thesis
  proof (cases "pstr r0")
    case None
    with 0 show ?thesis by (simp add: pm.simps)
  next
    case (Some kr)
    then obtain key r1 where 1: "pstr r0 = Some (key, r1)" by (cases kr) auto
    show ?thesis
    proof (cases "take_ch CHR '':'' r1")
      case None
      with 0 1 show ?thesis by (simp add: pm.simps)
    next
      case 2: (Some r2)
      from assms [OF 0 1 2] show ?thesis
        by (auto simp: pm.simps 0 1 2 split: option.split prod.split)
    qed
  qed
qed

lemma pv_step:
  assumes "\<And>c q. skip_ws s = c # q \<Longrightarrow> pm m (d - 1) q = pm n (d - 1) q \<and> pe m (d - 1) q = pe n (d - 1) q"
  shows "pv (Suc m) d s = pv (Suc n) d s"
proof (cases "skip_ws s")
  case Nil
  then show ?thesis by (simp add: pv.simps)
next
  case (Cons c q)
  from assms [OF this] have "pm m (d - 1) q = pm n (d - 1) q" "pe m (d - 1) q = pe n (d - 1) q" by simp_all
  with Cons show ?thesis by (simp only: pv.simps list.case)
qed

lemma parse_fuel_step:
  "(2 * length s \<le> n \<longrightarrow> pv n d s = pv (Suc n) d s) \<and>
   (2 * length s + 1 \<le> n \<longrightarrow> pe n d s = pe (Suc n) d s) \<and>
   (2 * length s + 1 \<le> n \<longrightarrow> pm n d s = pm (Suc n) d s)"
proof (induction n arbitrary: s d)
  case 0
  have "skip_ws [] = []" by (simp add: skip_ws_def)
  then show ?case by (simp add: pv.simps)
next
  case (Suc m)
  show ?case
  proof (intro conjI impI)
    assume l: "2 * length s \<le> Suc m"
    show "pv (Suc m) d s = pv (Suc (Suc m)) d s"
    proof (rule pv_step)
      fix c q assume "skip_ws s = c # q"
      with skip_ws_le [of s] have "2 * length q + 1 \<le> m" using l by simp
      with Suc.IH [of q "d - 1"]
      show "pm m (d - 1) q = pm (Suc m) (d - 1) q \<and> pe m (d - 1) q = pe (Suc m) (d - 1) q" by simp
    qed
  next
    assume l: "2 * length s + 1 \<le> Suc m"
    show "pe (Suc m) d s = pe (Suc (Suc m)) d s"
    proof (rule pe_step)
      show "pv m d s = pv (Suc m) d s" using Suc.IH [of s d] l by simp
    next
      fix v r r' assume "pv m d s = Some (v, r)" "take_ch CHR '','' r = Some r'"
      from parse_less(1) [OF this(1)] take_ch_less [OF this(2)] l
      have "2 * length r' + 1 \<le> m" by simp
      then show "pe m d r' = pe (Suc m) d r'" using Suc.IH [of r' d] by simp
    qed
  next
    assume l: "2 * length s + 1 \<le> Suc m"
    show "pm (Suc m) d s = pm (Suc (Suc m)) d s"
    proof (rule pm_step)
      fix r0 key r1 r2
      assume "take_ch CHR 0x22 s = Some r0" "pstr r0 = Some (key, r1)" "take_ch CHR '':'' r1 = Some r2"
      from take_ch_less [OF this(1)] pstr_less [OF this(2)] take_ch_less [OF this(3)]
      have r2: "length r2 < length s" by simp
      have "pv m d r2 = pv (Suc m) d r2" using Suc.IH [of r2 d] r2 l by simp
      moreover have "pm m d r' = pm (Suc m) d r'"
        if "pv m d r2 = Some (v, r)" "take_ch CHR '','' r = Some r'" for v r r'
        using parse_less(1) [OF that(1)] take_ch_less [OF that(2)] r2 l Suc.IH [of r' d] by simp
      ultimately show "pv m d r2 = pv (Suc m) d r2 \<and>
        (\<forall>v r r'. pv m d r2 = Some (v, r) \<longrightarrow> take_ch CHR '','' r = Some r' \<longrightarrow> pm m d r' = pm (Suc m) d r')"
        by blast
    qed
  qed
qed

lemma parse_fuel:
  assumes "2 * length s \<le> n" and "n \<le> n'"
  shows "pv n' d s = pv n d s"
  using assms(2)
proof (induction rule: dec_induct)
  case base
  show ?case by simp
next
  case (step k)
  then show ?case using parse_fuel_step [of s k d] assms(1) by simp
qed

subsection \<open>Strings round-trip\<close>

lemma of_char_lt: "of_char (c :: char) < (256 :: nat)"
  by simp

lemma hex_val_digit: "n < 16 \<Longrightarrow> hex_val (hex_digit n) = Some n"
  by (simp add: hex_val_def hex_digit_def byte_in_def)

lemma nibbles_sum:
  "(n::nat) = 16 * a + x \<Longrightarrow> a = 16 * b + y \<Longrightarrow> b = 16 * c + z \<Longrightarrow> 4096 * c + 256 * z + 16 * y + x = n"
  by simp

lemma nibbles:
  fixes n :: nat
  assumes "n < 65536"
  shows "4096 * (n div 4096 mod 16) + 256 * (n div 256 mod 16) + 16 * (n div 16 mod 16) + n mod 16 = n"
proof (rule nibbles_sum [where a = "n div 16" and b = "n div 256"])
  show "n = 16 * (n div 16) + n mod 16" by simp
  have "n div 256 = n div 16 div 16" and d: "n div 4096 = n div 256 div 16"
    by (simp_all add: div_mult2_eq [symmetric])
  then show "n div 16 = 16 * (n div 256) + n div 16 mod 16" by simp
  have "n div 4096 mod 16 = n div 4096" using assms by simp
  then show "n div 256 = 16 * (n div 4096 mod 16) + n div 256 mod 16" unfolding d by simp
qed

lemma hex4_digits:
  assumes "n < 65536"
  shows "hex4 (hex_digit (n div 4096 mod 16) # hex_digit (n div 256 mod 16) # hex_digit (n div 16 mod 16)
     # hex_digit (n mod 16) # t) = Some n"
proof -
  have "hex_val (hex_digit (m mod 16)) = Some (m mod 16)" for m by (simp add: hex_val_digit)
  then show ?thesis by (simp only: hex4.simps option.case prod.case nibbles [OF assms])
qed

lemma pstr_hex:
  "hex4 r = Some n \<Longrightarrow>
   pstr (CHR 0x5C # CHR ''u'' # r) = cons_out (fst (u_rune n (drop 4 r))) (pstr (snd (u_rune n (drop 4 r))))"
  by (subst pstr.simps) (simp add: Let_def)

lemma pstr_u_escape:
  assumes "n < 65536"
  shows "pstr (u_escape n @ t) = cons_out (fst (u_rune n t)) (pstr (snd (u_rune n t)))"
  unfolding u_escape_def append.simps pstr_hex [OF hex4_digits [OF assms]] by simp

lemma pstr_plain_rune:
  assumes "rune_width s = w" and "w \<noteq> 0" and "s = c # q" and "c \<noteq> CHR 0x22" "c \<noteq> CHR 0x5C" "\<not> c < CHR 0x20"
  shows "pstr s = cons_out (take w s) (pstr (drop w s))"
  using assms by (subst pstr.simps) (simp add: Let_def)

lemma rune_width_cases:
  assumes "rune_width s \<noteq> 0"
  obtains (1) a r where "s = a # r" "byte_in 0 0x7F a" "rune_width s = 1"
  | (2) a b r where "s = a # b # r" "\<not> byte_in 0 0x7F a" "byte_in 0xC2 0xDF a" "second_ok a b" "rune_width s = 2"
  | (3) a b c r where "s = a # b # c # r" "\<not> byte_in 0 0x7F a" "\<not> byte_in 0xC2 0xDF a" "byte_in 0xE0 0xEF a"
      "second_ok a b" "byte_in 0x80 0xBF c" "rune_width s = 3"
  | (4) a b c d r where "s = a # b # c # d # r" "\<not> byte_in 0 0x7F a" "\<not> byte_in 0xC2 0xDF a" "\<not> byte_in 0xE0 0xEF a"
      "byte_in 0xF0 0xF4 a" "second_ok a b" "byte_in 0x80 0xBF c" "byte_in 0x80 0xBF d" "rune_width s = 4"
proof -
  note w = assms [unfolded rune_width_def]
  obtain a r where s: "s = a # r" using assms by (cases s) (simp_all add: rune_width_def)
  show ?thesis
  proof (cases "byte_in 0 0x7F a")
    case True
    with s show ?thesis by (intro 1 [of a r]) (simp_all add: rune_width_def)
  next
    case a1: False
    show ?thesis
    proof (cases "byte_in 0xC2 0xDF a")
      case True
      with w s a1 obtain b r1 where "r = b # r1" "second_ok a b" by (auto split: list.splits if_splits)
      with s a1 True show ?thesis by (intro 2 [of a b r1]) (simp_all add: rune_width_def)
    next
      case a2: False
      show ?thesis
      proof (cases "byte_in 0xE0 0xEF a")
        case True
        with w s a1 a2 obtain b c r1 where "r = b # c # r1" "second_ok a b" "byte_in 0x80 0xBF c"
          by (auto split: list.splits if_splits)
        with s a1 a2 True show ?thesis by (intro 3 [of a b c r1]) (simp_all add: rune_width_def)
      next
        case a3: False
        with w s a1 a2 have a4: "byte_in 0xF0 0xF4 a" by (auto split: if_splits)
        with w s a1 a2 a3 obtain b c d r1 where
          "r = b # c # d # r1" "second_ok a b" "byte_in 0x80 0xBF c" "byte_in 0x80 0xBF d"
          by (auto split: list.splits if_splits)
        with s a1 a2 a3 a4 show ?thesis by (intro 4 [of a b c d r1]) (simp_all add: rune_width_def)
      qed
    qed
  qed
qed

lemma rune_width_take:
  assumes "rune_width s \<noteq> 0"
  shows "rune_width (take (rune_width s) s @ t) = rune_width s"
  using assms by (cases s rule: rune_width_cases) (simp_all add: rune_width_def)

lemma pstr_esc_ascii:
  assumes "byte_in 0 0x7F c"
  shows "pstr (esc_ascii c @ t) = cons_out [c] (pstr t)"
proof -
  have small: "(of_char c :: nat) < 128" using assms by (simp add: byte_in_def)
  have u: "pstr (u_escape (of_char c) @ t) = cons_out [c] (pstr t)"
    using small by (simp add: pstr_u_escape u_rune_def utf8_enc_def)
  have e: "unescape d = Some c \<Longrightarrow> d \<noteq> CHR ''u'' \<Longrightarrow> pstr (CHR 0x5C # d # t) = cons_out [c] (pstr t)" for d
    by (subst pstr.simps) simp
  have p: "c \<noteq> CHR 0x22 \<Longrightarrow> c \<noteq> CHR 0x5C \<Longrightarrow> \<not> c < CHR 0x20 \<Longrightarrow> pstr (c # t) = cons_out [c] (pstr t)"
    using pstr_plain_rune [OF rune_width_ascii [OF assms, of t]] by simp
  show ?thesis
  proof (cases "c = CHR 0x22 \<or> c = CHR 0x5C \<or> c = CHR 0x08 \<or> c = CHR 0x0C \<or> c = CHR 0x0A \<or> c = CHR 0x0D \<or> c = CHR 0x09")
    case True
    then show ?thesis by (elim disjE) (simp_all add: esc_ascii_def e unescape_def)
  next
    case False
    then show ?thesis
    proof (cases "c < CHR 0x20 \<or> c = CHR ''<'' \<or> c = CHR ''>'' \<or> c = CHR ''&''")
      case True
      with False have "esc_ascii c = u_escape (of_char c)" by (simp add: esc_ascii_def)
      then show ?thesis by (simp only: u)
    next
      case nu: False
      with False have "esc_ascii c = [c]" by (simp add: esc_ascii_def)
      with nu False show ?thesis by (simp add: p)
    qed
  qed
qed

lemma utf8_enc_separators:
  "utf8_enc 0x2028 = [CHR 0xE2, CHR 0x80, CHR 0xA8]" "utf8_enc 0x2029 = [CHR 0xE2, CHR 0x80, CHR 0xA9]"
  by (simp_all add: utf8_enc_def char_of_eq_iff)

lemma pstr_esc_rune:
  assumes w: "rune_width s \<noteq> 0"
  shows "pstr (esc_rune (take (rune_width s) s) @ t) = cons_out (take (rune_width s) s) (pstr t)"
proof -
  obtain a r where s: "s = a # r" using w by (cases s) (auto simp: rune_width_def)
  show ?thesis
  proof (cases "byte_in 0 0x7F a")
    case True
    then show ?thesis by (simp add: s rune_width_ascii esc_rune_def pstr_esc_ascii)
  next
    case False
    let ?x = "take (rune_width s) s"
    have a: "a \<noteq> CHR 0x22" "a \<noteq> CHR 0x5C" "\<not> a < CHR 0x20"
      using False by (auto simp: byte_in_def less_char_def)
    have len: "rune_width s \<noteq> 1" using False
      by (auto simp: s rune_width_def split: list.splits if_splits)
    then have x2: "\<exists>b y. ?x = a # b # y"
      using w rune_width_le [of s] s by (cases r) (auto simp: take_Cons' split: if_splits)
    have plain: "pstr (?x @ t) = cons_out ?x (pstr t)"
    proof -
      obtain q where q: "?x @ t = a # q" using x2 by auto
      have "length ?x = rune_width s" using rune_width_le [of s] by simp
      with pstr_plain_rune [OF rune_width_take [OF w, of t] w q a] show ?thesis by simp
    qed
    consider (ls) "?x = [CHR 0xE2, CHR 0x80, CHR 0xA8]" | (ps) "?x = [CHR 0xE2, CHR 0x80, CHR 0xA9]"
      | (other) "esc_rune ?x = ?x" unfolding esc_rune_def using x2 by fastforce
    then show ?thesis
    proof cases
      case ls
      then show ?thesis by (simp add: esc_rune_def pstr_u_escape u_rune_def utf8_enc_separators [simplified])
    next
      case ps
      then show ?thesis by (simp add: esc_rune_def pstr_u_escape u_rune_def utf8_enc_separators [simplified])
    next
      case other
      then show ?thesis using plain by simp
    qed
  qed
qed

lemma pstr_esc: "valid_utf8 s \<Longrightarrow> pstr (esc s @ CHR 0x22 # rest) = Some (s, rest)"
proof (induction s rule: valid_utf8.induct)
  case (1 s)
  show ?case
  proof (cases s)
    case Nil
    then show ?thesis by (simp add: esc.simps pstr.simps)
  next
    case (Cons a r)
    with "1.prems" have w: "rune_width s \<noteq> 0" and v: "valid_utf8 (drop (rune_width s) s)"
      unfolding valid_utf8.simps [of s] Let_def by (simp_all split: if_splits)
    from Cons have ne: "s \<noteq> []" by simp
    from Cons w have "esc s = esc_rune (take (rune_width s) s) @ esc (drop (rune_width s) s)"
      by (subst esc.simps) (simp add: Let_def)
    with "1.IH" [OF ne refl w v] show ?thesis
      by (simp add: pstr_esc_rune [OF w] cons_out_def)
  qed
qed

subsection \<open>Numbers round-trip\<close>

text \<open>What may follow a number literal without becoming a part of it.\<close>

definition num_stop :: "string \<Rightarrow> bool" where
  "num_stop s =
     (case s of [] \<Rightarrow> True | c # r \<Rightarrow> \<not> is_digit c \<and> c \<noteq> CHR ''.'' \<and> c \<noteq> CHR ''e'' \<and> c \<noteq> CHR ''E'')"

definition num_ok :: "string \<Rightarrow> bool" where
  "num_ok l \<longleftrightarrow> pnum l = Some (l, [])"

lemma takeWhile_stop:
  assumes "\<And>c q. r = c # q \<Longrightarrow> \<not> P c"
  shows "takeWhile P (s @ r) = takeWhile P s" and "dropWhile P (s @ r) = dropWhile P s @ r"
  using assms by (induction s; cases r; simp)+

lemma num_stop_digit: "num_stop r \<Longrightarrow> r = c # q \<Longrightarrow> \<not> is_digit c"
  by (simp add: num_stop_def)

lemma span_digits_app:
  "num_stop t \<Longrightarrow> span_digits s = (ds, r) \<Longrightarrow> span_digits (s @ t) = (ds, r @ t)"
  using takeWhile_stop [of t is_digit s] num_stop_digit by (auto simp: span_digits_def)

lemma pfrac_app:
  assumes t: "num_stop t" and p: "pfrac s = Some (f, r)"
  shows "pfrac (s @ t) = Some (f, r @ t)"
proof (cases s)
  case Nil
  with assms show ?thesis by (cases t) (auto simp: pfrac_def num_stop_def)
next
  case (Cons c q)
  obtain ds r' where d: "span_digits q = (ds, r')" by fastforce
  from span_digits_app [OF t d] p Cons d show ?thesis by (auto simp: pfrac_def split: if_splits)
qed

lemma pexp_app:
  assumes t: "num_stop t" and p: "pexp s = Some (f, r)"
  shows "pexp (s @ t) = Some (f, r @ t)"
proof (cases s)
  case Nil
  with assms show ?thesis by (cases t) (auto simp: pexp_def num_stop_def)
next
  case (Cons c q)
  show ?thesis
  proof (cases "c = CHR ''e'' \<or> c = CHR ''E''")
    case False
    with p Cons show ?thesis by (auto simp: pexp_def)
  next
    case True
    define sr where "sr = (case q of x # r0 \<Rightarrow> if x = CHR ''+'' \<or> x = CHR ''-'' then ([x], r0) else ([], q) | [] \<Rightarrow> ([], q))"
    obtain sg r1 where sr: "sr = (sg, r1)" by (cases sr)
    obtain ds r' where d: "span_digits r1 = (ds, r')" by fastforce
    from p Cons True sr d have res: "ds \<noteq> []" "f = c # sg @ ds" "r = r'"
      by (auto simp: pexp_def sr_def split: if_splits)
    have q: "q \<noteq> []" using sr d res by (auto simp: sr_def span_digits_def)
    then have "(case q @ t of x # r0 \<Rightarrow> if x = CHR ''+'' \<or> x = CHR ''-'' then ([x], r0) else ([], q @ t) | [] \<Rightarrow> ([], q @ t))
        = (sg, r1 @ t)"
      using sr by (cases q) (auto simp: sr_def split: if_splits)
    with True Cons res span_digits_app [OF t d] show ?thesis by (simp add: pexp_def)
  qed
qed

lemma pnum_app:
  assumes t: "num_stop t" and l: "num_ok l"
  shows "pnum (l @ t) = Some (l, t)"
proof -
  define a where "a = (case l of c # r0 \<Rightarrow> if c = CHR ''-'' then ([c], r0) else ([], l) | [] \<Rightarrow> ([], l))"
  obtain sg r where a: "a = (sg, r)" by (cases a)
  define b where "b = (case r of c # r0 \<Rightarrow> if c = CHR ''0'' then ([c], r0) else span_digits r | [] \<Rightarrow> ([], r))"
  obtain ip r1 where b: "b = (ip, r1)" by (cases b)
  from l have p: "ip \<noteq> []" "(case pfrac r1 of None \<Rightarrow> None
           | Some (f, r2) \<Rightarrow> (case pexp r2 of None \<Rightarrow> None
             | Some (e, r3) \<Rightarrow> Some (sg @ ip @ f @ e, r3))) = Some (l, [])"
    unfolding num_ok_def pnum_def a_def [symmetric] a by (simp_all add: b_def [symmetric] b split: if_splits)
  then obtain f r2 e where f: "pfrac r1 = Some (f, r2)" and e: "pexp r2 = Some (e, [])" and le: "l = sg @ ip @ f @ e"
    by (auto split: option.splits)
  have r: "r \<noteq> []" using b p(1) by (auto simp: b_def)
  then have a': "(case l @ t of c # r0 \<Rightarrow> if c = CHR ''-'' then ([c], r0) else ([], l @ t) | [] \<Rightarrow> ([], l @ t)) = (sg, r @ t)"
    using a by (cases l) (auto simp: a_def split: if_splits)
  have b': "(case r @ t of c # r0 \<Rightarrow> if c = CHR ''0'' then ([c], r0) else span_digits (r @ t) | [] \<Rightarrow> ([], r @ t)) = (ip, r1 @ t)"
    using b r span_digits_app [OF t, of r ip r1] by (cases r) (auto simp: b_def split: if_splits)
  show ?thesis
    unfolding pnum_def a' using b' p(1) pfrac_app [OF t f] pexp_app [OF t e] le by simp
qed

lemma digits_of_head: "0 < n \<Longrightarrow> hd (digits_of n) \<noteq> CHR ''0''"
proof (induction n rule: digits_of.induct)
  case (1 n)
  show ?case
  proof (cases "n < 10")
    case True
    with 1 show ?thesis by (simp add: digits_of.simps [of n] char_of_eq_iff take_bit_eq_mod)
  next
    case False
    with 1 show ?thesis by (subst digits_of.simps) simp
  qed
qed

lemma num_ok_show_int: "num_ok (show_int i)"
proof -
  have tail: "pfrac [] = Some ([], [])" "pexp [] = Some ([], [])" by (simp_all add: pfrac_def pexp_def)
  have sd: "span_digits (digits_of n) = (digits_of n, [])" for n
    using digits_of_digits [of n] by (simp add: span_digits_def)
  have ip: "(case digits_of n of c # r0 \<Rightarrow> if c = CHR ''0'' then ([c], r0) else span_digits (digits_of n)
      | [] \<Rightarrow> ([], digits_of n)) = (digits_of n, [])" for n
  proof (cases "n = 0")
    case True
    then show ?thesis by (simp add: digits_of.simps char_of_eq_iff)
  next
    case False
    with digits_of_head [of n] sd [of n] show ?thesis by (cases "digits_of n") auto
  qed
  have hd: "(case digits_of n of c # r0 \<Rightarrow> if c = CHR ''-'' then ([c], r0) else ([], digits_of n)
      | [] \<Rightarrow> ([], digits_of n)) = ([], digits_of n)" for n
    using digits_head [of n] by (cases "digits_of n") auto
  show ?thesis
  proof (cases "i < 0")
    case True
    then show ?thesis
      unfolding num_ok_def show_int_def pnum_def using ip [of "nat (- i)"] tail by simp
  next
    case False
    then show ?thesis
      unfolding num_ok_def show_int_def pnum_def if_not_P [OF False] hd [of "nat i"]
      using ip [of "nat i"] tail by simp
  qed
qed

subsection \<open>Values round-trip, for every layout\<close>

text \<open>
  \<open>wf_json\<close>: strings and keys are valid UTF-8 and numbers are literals of the grammar.
  \<open>jdepth\<close> is the nesting depth the parser counts.
\<close>

fun wf_json :: "json \<Rightarrow> bool" where
  "wf_json JNull = True"
| "wf_json (JBool b) = True"
| "wf_json (JNum l) = num_ok l"
| "wf_json (JStr s) = valid_utf8 s"
| "wf_json (JArr vs) = list_all wf_json vs"
| "wf_json (JObj ms) = list_all (\<lambda>m. valid_utf8 (fst m) \<and> wf_json (snd m)) ms"

fun jdepth :: "json \<Rightarrow> nat" where
  "jdepth (JArr vs) = Suc (fold max (map jdepth vs) 0)"
| "jdepth (JObj ms) = Suc (fold max (map (\<lambda>m. jdepth (snd m)) ms) 0)"
| "jdepth _ = 0"

lemma fold_max_le: "fold max xs (a::nat) \<le> d \<longleftrightarrow> a \<le> d \<and> (\<forall>x \<in> set xs. x \<le> d)"
  by (induction xs arbitrary: a) auto

definition all_ws :: "string \<Rightarrow> bool" where
  "all_ws u = list_all is_ws u"

lemma skip_ws_app: "all_ws u \<Longrightarrow> skip_ws (u @ s) = skip_ws s"
  by (induction u) (auto simp: skip_ws_def all_ws_def)

lemma take_ch_app: "all_ws u \<Longrightarrow> take_ch c (u @ s) = take_ch c s"
  by (simp add: take_ch_def skip_ws_app)

lemma take_ch_Cons: "\<not> is_ws x \<Longrightarrow> take_ch c (x # s) = (if x = c then Some s else None)"
  by (simp add: take_ch_def skip_ws_def)

text \<open>The bytes a value can start with.\<close>

definition value_head :: "char \<Rightarrow> bool" where
  "value_head c \<longleftrightarrow> c \<in> set ''ntf{[-'' \<or> c = CHR 0x22 \<or> is_digit c"

lemma value_head_simps [simp]:
  "value_head (CHR ''n'')" "value_head (CHR ''t'')" "value_head (CHR ''f'')" "value_head (CHR 0x22)"
  "value_head (CHR ''['')" "value_head (CHR ''{'')"
  by (simp_all add: value_head_def)

lemma value_head_not: "value_head c \<Longrightarrow> \<not> is_ws c \<and> c \<noteq> CHR '']'' \<and> c \<noteq> CHR ''}'' \<and> c \<noteq> CHR '',''"
  by (auto simp: value_head_def is_ws_def is_digit_def byte_in_def)

lemma pnum_head:
  assumes "pnum s = Some (l, r)"
  shows "\<exists>c q. l = c # q \<and> (c = CHR ''-'' \<or> is_digit c)"
proof -
  from pnum_split [OF assms] obtain c q where l: "l = c # q" and s: "s = c # q @ r" by (cases l) auto
  have "\<not> (c \<noteq> CHR ''-'' \<and> \<not> is_digit c)"
  proof
    assume c: "c \<noteq> CHR ''-'' \<and> \<not> is_digit c"
    then have "c \<noteq> CHR ''0''" by (auto simp: is_digit_def byte_in_def)
    with c have "pnum s = None" by (simp add: s pnum_def span_digits_def)
    with assms show False by simp
  qed
  with l show ?thesis by blast
qed

locale json_layout =
  fixes nl :: "nat \<Rightarrow> string" and sp :: string
  assumes ws_nl: "all_ws (nl k)" and ws_sp: "all_ws sp"
begin

lemma value_text_head: "wf_json v \<Longrightarrow> \<exists>c q. jpr nl sp k v = c # q \<and> value_head c"
proof (cases v)
  case (JNum l)
  assume "wf_json v"
  with JNum pnum_head [of l l "[]"] show ?thesis by (auto simp: num_ok_def value_head_def)
qed (auto simp: jstr_def)

lemma num_stop_nl: "num_stop (nl k @ c # r) \<longleftrightarrow> num_stop (c # r) \<or> nl k \<noteq> []"
  using ws_nl [of k] by (cases "nl k") (auto simp: num_stop_def all_ws_def is_ws_def is_digit_def byte_in_def)

lemma num_stop_close [simp]:
  "num_stop (nl k @ CHR '']'' # r)" "num_stop (nl k @ CHR ''}'' # r)" "num_stop (CHR '','' # r)"
  by (simp_all add: num_stop_nl) (simp_all add: num_stop_def is_digit_def byte_in_def)

lemma skip_value: "wf_json v \<Longrightarrow> all_ws u \<Longrightarrow> skip_ws (u @ jpr nl sp k v @ t) = jpr nl sp k v @ t"
  using value_text_head [of v k] value_head_not
  by (auto simp: skip_ws_app) (auto simp: skip_ws_def)

lemma take_value: "wf_json v \<Longrightarrow> all_ws u \<Longrightarrow> c = CHR '']'' \<Longrightarrow> take_ch c (u @ jpr nl sp k v @ t) = None"
  using value_text_head [of v k] value_head_not
  by (fastforce simp: take_ch_app take_ch_Cons)

text \<open>The three parsers on printed text.\<close>

definition value_ok :: "json \<Rightarrow> bool" where
  "value_ok v \<longleftrightarrow> (\<forall>k n d u rest. wf_json v \<longrightarrow> jdepth v \<le> d \<longrightarrow> 2 * length (jpr nl sp k v) \<le> n \<longrightarrow>
     all_ws u \<longrightarrow> num_stop rest \<longrightarrow> pv n d (u @ jpr nl sp k v @ rest) = Some (v, rest))"

lemma pe_text:
  assumes "\<And>v. v \<in> set vs \<Longrightarrow> value_ok v" and "vs \<noteq> []" and "list_all wf_json vs"
    and "\<forall>v \<in> set vs. jdepth v \<le> d" and "2 * length (jels nl sp k vs) + 1 \<le> n" and "all_ws u"
    and "u = nl k'"
  shows "pe n d (jels nl sp k vs @ u @ CHR '']'' # rest) = Some (vs, rest)"
  using assms
proof (induction vs arbitrary: n)
  case Nil
  then show ?case by simp
next
  case (Cons v vs)
  from Cons.prems(5) obtain m where n: "n = Suc m" by (cases n) auto
  have v: "value_ok v" "wf_json v" "jdepth v \<le> d" using Cons.prems by simp_all
  show ?case
  proof (cases vs)
    case Nil
    have "pv m d (nl k @ jpr nl sp k v @ u @ CHR '']'' # rest) = Some (v, u @ CHR '']'' # rest)"
      using v Cons.prems(5) n Nil ws_nl by (auto simp: value_ok_def \<open>u = nl k'\<close>)
    with Nil n \<open>all_ws u\<close> show ?thesis by (simp add: pe.simps take_ch_app take_ch_Cons is_ws_def)
  next
    case (Cons w ws)
    let ?t = "jels nl sp k vs @ u @ CHR '']'' # rest"
    have "pv m d (nl k @ jpr nl sp k v @ CHR '','' # ?t) = Some (v, CHR '','' # ?t)"
      using v Cons.prems(5) n Cons ws_nl by (auto simp: value_ok_def)
    moreover have "pe m d ?t = Some (vs, rest)"
      using Cons.prems n Cons by (intro Cons.IH) auto
    ultimately show ?thesis using Cons n by (simp add: pe.simps take_ch_Cons is_ws_def)
  qed
qed

lemma pm_text:
  assumes "\<And>m. m \<in> set ms \<Longrightarrow> value_ok (snd m)" and "ms \<noteq> []"
    and "list_all (\<lambda>m. valid_utf8 (fst m) \<and> wf_json (snd m)) ms"
    and "\<forall>m \<in> set ms. jdepth (snd m) \<le> d" and "2 * length (jmems nl sp k ms) + 1 \<le> n" and "all_ws u"
    and "u = nl k'"
  shows "pm n d (jmems nl sp k ms @ u @ CHR ''}'' # rest) = Some (ms, rest)"
  using assms
proof (induction ms arbitrary: n)
  case Nil
  then show ?case by simp
next
  case (Cons m ms)
  obtain key v where m: "m = (key, v)" by (cases m)
  from Cons.prems(5) obtain n' where n: "n = Suc n'" by (cases n) auto
  have v: "value_ok v" "wf_json v" "jdepth v \<le> d" and key: "valid_utf8 key"
    using Cons.prems(1) [of m] Cons.prems(3,4) m by simp_all
  have open_key: "take_ch CHR 0x22 (nl k @ jstr key @ s) = Some (esc key @ CHR 0x22 # s)" for s
    by (simp add: take_ch_app ws_nl take_ch_Cons jstr_def is_ws_def)
  have colon: "take_ch CHR '':'' (CHR '':'' # s) = Some s" for s
    by (simp add: take_ch_Cons is_ws_def)
  show ?case
  proof (cases ms)
    case Nil
    have "pv n' d (sp @ jpr nl sp k v @ u @ CHR ''}'' # rest) = Some (v, u @ CHR ''}'' # rest)"
      using v Cons.prems(5) n Nil ws_sp m by (auto simp: value_ok_def \<open>u = nl k'\<close>)
    with Nil n m \<open>all_ws u\<close> show ?thesis
      by (simp add: pm.simps open_key colon pstr_esc [OF key] take_ch_app take_ch_Cons is_ws_def)
  next
    case (Cons w ws)
    let ?t = "jmems nl sp k ms @ u @ CHR ''}'' # rest"
    have "pv n' d (sp @ jpr nl sp k v @ CHR '','' # ?t) = Some (v, CHR '','' # ?t)"
      using v Cons.prems(5) n Cons ws_sp m by (auto simp: value_ok_def)
    moreover have "pm n' d ?t = Some (ms, rest)"
      using Cons.prems n Cons m by (intro Cons.IH) auto
    ultimately show ?thesis using Cons n m
      by (simp add: pm.simps open_key colon pstr_esc [OF key] take_ch_Cons is_ws_def)
  qed
qed

lemma jels_head:
  assumes "vs \<noteq> []" and "list_all wf_json vs"
  shows "take_ch CHR '']'' (jels nl sp k vs @ t) = None"
proof -
  obtain v ws where vs: "vs = v # ws" using assms(1) by (cases vs) auto
  have "jels nl sp k vs @ t = nl k @ jpr nl sp k v @ (if ws = [] then [] else '','' @ jels nl sp k ws) @ t"
    by (simp add: vs)
  with take_value [of v "nl k"] assms(2) vs ws_nl show ?thesis by simp
qed

lemma jmems_head: "ms \<noteq> [] \<Longrightarrow> take_ch CHR ''}'' (jmems nl sp k ms @ t) = None"
  by (cases ms; cases "hd ms") (simp_all add: take_ch_app ws_nl jstr_def take_ch_Cons is_ws_def)

lemma value_text: "value_ok v"
  unfolding value_ok_def
proof (induction v)
  case JNull
  show ?case
  proof (intro allI impI)
    fix k n d u rest assume "2 * length (jpr nl sp k JNull) \<le> n" "all_ws u"
    then show "pv n d (u @ jpr nl sp k JNull @ rest) = Some (JNull, rest)"
      by (cases n) (simp_all add: pv.simps skip_ws_app, simp add: skip_ws_def is_ws_def has_prefix_def)
  qed
next
  case (JBool b)
  show ?case
  proof (intro allI impI)
    fix k n d u rest assume "2 * length (jpr nl sp k (JBool b)) \<le> n" "all_ws u"
    then show "pv n d (u @ jpr nl sp k (JBool b) @ rest) = Some (JBool b, rest)"
      by (cases n; cases b) (simp_all add: pv.simps skip_ws_app, simp_all add: skip_ws_def is_ws_def has_prefix_def)
  qed
next
  case (JNum l)
  show ?case
  proof (intro allI impI)
    fix k n d u rest
    assume l: "wf_json (JNum l)" and n: "2 * length (jpr nl sp k (JNum l)) \<le> n"
      and u: "all_ws u" and r: "num_stop rest"
    from pnum_head [of l l "[]"] l obtain c q where cq: "l = c # q" "c = CHR ''-'' \<or> is_digit c"
      by (auto simp: num_ok_def)
    then have c: "\<not> is_ws c" "c \<noteq> CHR 0x22" "c \<noteq> CHR ''{''" "c \<noteq> CHR ''[''" "c \<noteq> CHR ''t''" "c \<noteq> CHR ''f''" "c \<noteq> CHR ''n''"
      by (auto simp: is_ws_def is_digit_def byte_in_def)
    then have "skip_ws (l @ rest) = c # q @ rest" using cq by (simp add: skip_ws_def)
    with n u c cq pnum_app [OF r, of l] l
    show "pv n d (u @ jpr nl sp k (JNum l) @ rest) = Some (JNum l, rest)"
      by (cases n) (simp_all add: pv.simps skip_ws_app has_prefix_def)
  qed
next
  case (JStr s)
  show ?case
  proof (intro allI impI)
    fix k n d u rest
    assume "wf_json (JStr s)" and "2 * length (jpr nl sp k (JStr s)) \<le> n" and "all_ws u"
    then show "pv n d (u @ jpr nl sp k (JStr s) @ rest) = Some (JStr s, rest)"
      by (cases n) (simp_all add: jstr_def pv.simps skip_ws_app, simp add: skip_ws_def is_ws_def pstr_esc)
  qed
next
  case (JArr vs)
  show ?case
  proof (intro allI impI)
    fix k n d u rest
    assume wf: "wf_json (JArr vs)" and dep: "jdepth (JArr vs) \<le> d" and n: "2 * length (jpr nl sp k (JArr vs)) \<le> n"
      and u: "all_ws u"
    obtain m where m: "n = Suc m" using n by (cases n) (auto split: if_splits)
    have ok: "\<And>v. v \<in> set vs \<Longrightarrow> value_ok v" using JArr.IH by (simp add: value_ok_def)
    have d: "d \<noteq> 0" "\<forall>v \<in> set vs. jdepth v \<le> d - 1"
      using dep fold_max_le [of "map jdepth vs" 0 "d - 1"] by auto
    show "pv n d (u @ jpr nl sp k (JArr vs) @ rest) = Some (JArr vs, rest)"
    proof (cases "vs = []")
      case True
      then show ?thesis using d m
        by (simp add: pv.simps skip_ws_app u) (simp add: skip_ws_def is_ws_def take_ch_Cons)
    next
      case False
      have "pe m (d - 1) (jels nl sp (Suc k) vs @ nl k @ CHR '']'' # rest) = Some (vs, rest)"
        using wf d(2) n m False by (intro pe_text [OF ok]) (simp_all add: ws_nl)
      with False d m jels_head [OF False] wf show ?thesis
        by (simp add: pv.simps skip_ws_app u) (simp add: skip_ws_def is_ws_def)
    qed
  qed
next
  case (JObj ms)
  show ?case
  proof (intro allI impI)
    fix k n d u rest
    assume wf: "wf_json (JObj ms)" and dep: "jdepth (JObj ms) \<le> d" and n: "2 * length (jpr nl sp k (JObj ms)) \<le> n"
      and u: "all_ws u"
    obtain m where m: "n = Suc m" using n by (cases n) (auto split: if_splits)
    have ok: "\<And>m. m \<in> set ms \<Longrightarrow> value_ok (snd m)"
      using JObj.IH unfolding value_ok_def by (metis prod.collapse snds.intros)
    have d: "d \<noteq> 0" "\<forall>m \<in> set ms. jdepth (snd m) \<le> d - 1"
      using dep fold_max_le [of "map (\<lambda>m. jdepth (snd m)) ms" 0 "d - 1"] by auto
    show "pv n d (u @ jpr nl sp k (JObj ms) @ rest) = Some (JObj ms, rest)"
    proof (cases "ms = []")
      case True
      then show ?thesis using d m
        by (simp add: pv.simps skip_ws_app u) (simp add: skip_ws_def is_ws_def take_ch_Cons)
    next
      case False
      have "pm m (d - 1) (jmems nl sp (Suc k) ms @ nl k @ CHR ''}'' # rest) = Some (ms, rest)"
        using wf d(2) n m False by (intro pm_text [OF ok]) (simp_all add: ws_nl)
      with False d m jmems_head [OF False] show ?thesis
        by (simp add: pv.simps skip_ws_app u) (simp add: skip_ws_def is_ws_def)
    qed
  qed
qed

theorem parse_print:
  assumes "wf_json v" and "jdepth v \<le> max_depth"
  shows "json_parse (jpr nl sp 0 v) = Some v"
proof -
  have "pv (2 * length (jpr nl sp 0 v) + 1) max_depth ([] @ jpr nl sp 0 v @ []) = Some (v, [])"
    using value_text [of v, unfolded value_ok_def, rule_format, OF assms, of 0 _ "[]" "[]"]
    by (simp add: all_ws_def num_stop_def)
  then show ?thesis by (simp add: json_parse_def skip_ws_def)
qed

end

interpretation compact: json_layout "\<lambda>_. []" "[]"
  by unfold_locales (simp_all add: all_ws_def)

interpretation indent2: json_layout indent_nl "[CHR 0x20]"
  by unfold_locales (simp_all add: all_ws_def indent_nl_def is_ws_def list_all_iff)

lemma parse_marshal: "wf_json v \<Longrightarrow> jdepth v \<le> max_depth \<Longrightarrow> json_parse (marshal v) = Some v"
  unfolding marshal_def by (rule compact.parse_print)

lemma parse_marshal_indent:
  "wf_json v \<Longrightarrow> jdepth v \<le> max_depth \<Longrightarrow> json_parse (marshal_indent v) = Some v"
  unfolding marshal_indent_def by (rule indent2.parse_print)

subsection \<open>Compact text is one line\<close>

definition text_char :: "char \<Rightarrow> bool" where
  "text_char c \<longleftrightarrow> \<not> c < CHR 0x20"

lemma text_char_of: "32 \<le> n \<Longrightarrow> n < 256 \<Longrightarrow> text_char (char_of (n::nat))"
  by (simp add: text_char_def less_char_def)

lemma text_hex_digit: "n < 16 \<Longrightarrow> text_char (hex_digit n)"
  by (simp add: hex_digit_def text_char_of)

lemma text_u_escape: "\<forall>c \<in> set (u_escape n). text_char c"
  by (simp add: u_escape_def text_hex_digit) (simp add: text_char_def less_char_def)

lemma text_byte_in: "byte_in lo hi c \<Longrightarrow> 32 \<le> lo \<Longrightarrow> text_char c"
  by (simp add: text_char_def less_char_def byte_in_def)

lemma text_char_lits [simp]:
  "text_char (CHR ''.'')" "text_char (CHR ''e'')" "text_char (CHR ''E'')" "text_char (CHR ''+'')"
  "text_char (CHR ''-'')" "text_char (CHR ''0'')" "text_char (CHR 0x22)" "text_char (CHR 0x5C)" "text_char (CHR '':'')"
  "text_char (CHR '','')" "text_char (CHR ''['')" "text_char (CHR '']'')" "text_char (CHR ''{'')" "text_char (CHR ''}'')"
  by (simp_all add: text_char_def less_char_def)

lemma text_letter [simp]: "byte_in 97 122 c \<Longrightarrow> text_char c"
  by (erule text_byte_in) simp

lemma text_esc_ascii: "\<forall>c \<in> set (esc_ascii a). text_char c"
proof -
  have "\<not> (a < CHR 0x20 \<or> a = CHR ''<'' \<or> a = CHR ''>'' \<or> a = CHR ''&'') \<Longrightarrow> text_char a"
    by (simp add: text_char_def)
  moreover have "text_char (CHR ''b'')" "text_char (CHR ''f'')" "text_char (CHR ''n'')" "text_char (CHR ''r'')"
    "text_char (CHR ''t'')" by (simp_all add: byte_in_def)
  moreover have "\<forall>c \<in> set (u_escape (of_char a)). text_char c" by (rule text_u_escape)
  ultimately show ?thesis unfolding esc_ascii_def by (auto simp del: byte_in_def split: if_split)
qed

lemma text_esc_wide:
  assumes "\<forall>c \<in> set x. byte_in 0x80 0xFF c" and "2 \<le> length x"
  shows "\<forall>c \<in> set (esc_rune x). text_char c"
proof -
  have "text_char c" if "c \<in> set x" for c using assms(1) that text_byte_in [of "0x80" "0xFF" c] by simp
  moreover have "(case x of [c] \<Rightarrow> esc_ascii c | _ \<Rightarrow> x) = x" using assms(2) by (cases x; cases "tl x") auto
  ultimately show ?thesis using text_u_escape unfolding esc_rune_def by simp
qed

lemma text_esc_rune:
  assumes w: "rune_width s \<noteq> 0"
  shows "\<forall>c \<in> set (esc_rune (take (rune_width s) s)). text_char c"
  using w
proof (cases s rule: rune_width_cases)
  case (1 a r)
  then show ?thesis using text_esc_ascii by (simp add: esc_rune_def)
next
  case (2 a b r)
  then show ?thesis by (intro text_esc_wide) (simp_all add: byte_in_def second_ok_def)
next
  case (3 a b c r)
  then show ?thesis by (intro text_esc_wide) (simp_all add: byte_in_def second_ok_def)
next
  case (4 a b c d r)
  then show ?thesis by (intro text_esc_wide) (simp_all add: byte_in_def second_ok_def)
qed

lemma text_esc: "\<forall>c \<in> set (esc s). text_char c"
proof (induction s rule: esc.induct)
  case (1 s)
  show ?case
  proof (cases s)
    case Nil
    then show ?thesis by (simp add: esc.simps)
  next
    case (Cons a r)
    show ?thesis
    proof (cases "rune_width s = 0")
      case True
      with Cons "1.IH"(1) [OF Cons refl] text_u_escape [of "0xFFFD"] show ?thesis
        by (subst esc.simps) (auto simp: Let_def)
    next
      case False
      with Cons "1.IH"(2) [OF Cons refl] text_esc_rune [OF False] show ?thesis
        by (subst esc.simps) (auto simp: Let_def)
    qed
  qed
qed

lemma text_digits: "span_digits s = (ds, r) \<Longrightarrow> list_all text_char ds"
  by (auto simp: span_digits_def is_digit_def list_all_iff dest!: set_takeWhileD intro: text_byte_in)

lemma text_pfrac: "pfrac s = Some (f, r) \<Longrightarrow> list_all text_char f"
  by (auto simp: pfrac_def dest!: text_digits split: list.splits if_splits prod.splits)

lemma text_pexp: "pexp s = Some (f, r) \<Longrightarrow> list_all text_char f"
  by (auto simp: pexp_def dest!: text_digits split: list.splits if_splits prod.splits)

lemma text_pnum: "pnum s = Some (l, r) \<Longrightarrow> list_all text_char l"
  by (auto simp: pnum_def Let_def dest!: text_digits text_pfrac text_pexp
      split: list.splits if_splits prod.splits option.splits)

lemma text_jstr: "list_all text_char (jstr s)"
  using text_esc by (simp add: jstr_def list_all_iff)

lemma text_jpr:
  shows "nl = (\<lambda>_. []) \<Longrightarrow> sp = [] \<Longrightarrow> wf_json v \<Longrightarrow> list_all text_char (jpr nl sp k v)"
    and "nl = (\<lambda>_. []) \<Longrightarrow> sp = [] \<Longrightarrow> list_all wf_json vs \<Longrightarrow> list_all text_char (jels nl sp k vs)"
    and "nl = (\<lambda>_. []) \<Longrightarrow> sp = [] \<Longrightarrow> list_all (\<lambda>m. valid_utf8 (fst m) \<and> wf_json (snd m)) ms \<Longrightarrow>
      list_all text_char (jmems nl sp k ms)"
proof (induction nl sp k v and nl sp k vs and nl sp k ms rule: jpr_jels_jmems.induct)
  case (3 nl sp k l)
  then show ?case using text_pnum [of l l "[]"] by (simp add: num_ok_def)
qed (simp_all add: text_jstr byte_in_def)

lemma marshal_one_line:
  assumes "wf_json v"
  shows "CHR 0x0A \<notin> set (marshal v)" and "CHR 0x0D \<notin> set (marshal v)"
  using text_jpr(1) [OF refl refl assms, of 0]
  by (auto simp: marshal_def text_char_def less_char_def list_all_iff)

subsection \<open>Parsed strings are valid UTF-8\<close>

lemma valid_utf8_append: "valid_utf8 p \<Longrightarrow> valid_utf8 (p @ t) = valid_utf8 t"
proof (induction p rule: valid_utf8.induct)
  case (1 p)
  show ?case
  proof (cases "p = []")
    case True
    then show ?thesis by simp
  next
    case False
    with "1.prems" have w: "rune_width p \<noteq> 0" and v: "valid_utf8 (drop (rune_width p) p)"
      unfolding valid_utf8.simps [of p] Let_def by (simp_all split: if_splits)
    have wa: "rune_width (p @ t) = rune_width p"
      using rune_width_take [OF w, of "drop (rune_width p) p @ t"]
      by (simp only: append_assoc [symmetric] append_take_drop_id)
    have "valid_utf8 (p @ t) = valid_utf8 (drop (rune_width p) (p @ t))"
      using False w wa unfolding valid_utf8.simps [of "p @ t"] Let_def by simp
    also have "drop (rune_width p) (p @ t) = drop (rune_width p) p @ t"
      using rune_width_le [of p] by simp
    finally show ?thesis using "1.IH" [OF False refl w v] by simp
  qed
qed

lemma valid_utf8_one: "rune_width p = length p \<Longrightarrow> valid_utf8 p"
  by (simp add: valid_utf8.simps)

lemma valid_utf8_ascii_one: "byte_in 0 0x7F c \<Longrightarrow> valid_utf8 [c]"
  by (rule valid_utf8_one) (simp add: rune_width_ascii)

lemma valid_utf8_rune: "rune_width s \<noteq> 0 \<Longrightarrow> valid_utf8 (take (rune_width s) s)"
  using rune_width_take [of s "[]"] rune_width_le [of s] by (intro valid_utf8_one) simp

lemma valid_utf8_error: "valid_utf8 rune_error"
  by (rule valid_utf8_one) (simp add: rune_error_def rune_width_def byte_in_def second_ok_def)

lemma of_char_char_of: "n < 256 \<Longrightarrow> of_char (char_of n :: char) = (n :: nat)"
  by (simp add: of_char_mod_256)

lemma hex_val_le: "hex_val c = Some n \<Longrightarrow> n < 16"
  by (auto simp: hex_val_def byte_in_def split: if_splits)

lemma hex4_less: "hex4 s = Some n \<Longrightarrow> n < 65536"
  by (induction s rule: hex4.induct) (auto split: option.splits dest!: hex_val_le)

lemma char_of_eq_nat: "n < 256 \<Longrightarrow> char_of n = c \<longleftrightarrow> n = (of_char c :: nat)"
  by (metis char_of_char of_char_char_of)

lemma byte_in_char_of: "n < 256 \<Longrightarrow> byte_in lo hi (char_of n) \<longleftrightarrow> lo \<le> n \<and> n \<le> hi"
  by (simp only: byte_in_def of_char_char_of)

lemma rune_width_2:
  fixes x :: nat and y :: nat
  assumes "2 \<le> x" "x < 32" "y < 64"
  shows "rune_width [char_of (0xC0 + x), char_of (0x80 + y)] = 2"
  using assms by (simp add: rune_width_def second_ok_def byte_in_char_of char_of_eq_nat)

lemma rune_width_3:
  fixes x :: nat and y :: nat and z :: nat
  assumes "x < 16" "y < 64" "z < 64" "x = 0 \<Longrightarrow> 32 \<le> y" "x = 13 \<Longrightarrow> y < 32"
  shows "rune_width [char_of (0xE0 + x), char_of (0x80 + y), char_of (0x80 + z)] = 3"
proof -
  have "second_ok (char_of (0xE0 + x)) (char_of (0x80 + y))"
    using assms by (auto simp: second_ok_def byte_in_char_of char_of_eq_nat)
  then show ?thesis using assms by (simp add: rune_width_def byte_in_char_of)
qed

lemma rune_width_4:
  fixes x :: nat and y :: nat and z :: nat and u :: nat
  assumes "x < 5" "y < 64" "z < 64" "u < 64" "x = 0 \<Longrightarrow> 16 \<le> y" "x = 4 \<Longrightarrow> y < 16"
  shows "rune_width [char_of (0xF0 + x), char_of (0x80 + y), char_of (0x80 + z), char_of (0x80 + u)] = 4"
proof -
  have "second_ok (char_of (0xF0 + x)) (char_of (0x80 + y))"
    using assms by (auto simp: second_ok_def byte_in_char_of char_of_eq_nat)
  then show ?thesis using assms by (simp add: rune_width_def byte_in_char_of)
qed

lemma mod64_bound:
  fixes q :: nat
  shows "q div 64 = k \<Longrightarrow> q mod 64 = q - 64 * k"
  by (simp add: minus_div_mult_eq_mod [symmetric] mult.commute)

lemma valid_utf8_enc:
  assumes "n < 0x110000" and "\<not> (0xD800 \<le> n \<and> n < 0xE000)"
  shows "valid_utf8 (utf8_enc n)"
proof (rule valid_utf8_one)
  consider "n < 0x80" | "0x80 \<le> n" "n < 0x800" | "0x800 \<le> n" "n < 0x10000" | "0x10000 \<le> n" by linarith
  then show "rune_width (utf8_enc n) = length (utf8_enc n)"
  proof cases
    case 1
    then show ?thesis by (simp add: utf8_enc_def rune_width_ascii byte_in_char_of)
  next
    case 2
    then have "n div 64 < 32" "2 \<le> n div 64" by linarith+
    with 2 rune_width_2 [of "n div 64" "n mod 64"] show ?thesis
      by (simp add: utf8_enc_def)
  next
    case 3
    have d: "n div 64 div 64 = n div 4096" by (simp add: div_mult2_eq [symmetric])
    have "n div 4096 < 16" using 3 by linarith
    moreover have "n div 4096 = 0 \<Longrightarrow> 32 \<le> n div 64 mod 64"
      using mod64_bound [of "n div 64" 0] d 3 by linarith
    moreover have "n div 4096 = 13 \<Longrightarrow> n div 64 mod 64 < 32"
      using mod64_bound [of "n div 64" 13] d 3 assms(2) by linarith
    ultimately show ?thesis
      using 3 rune_width_3 [of "n div 4096" "n div 64 mod 64" "n mod 64"] by (simp add: utf8_enc_def)
  next
    case 4
    have d: "n div 4096 div 64 = n div 262144" by (simp add: div_mult2_eq [symmetric])
    have "n div 262144 < 5" using assms(1) by linarith
    moreover have "n div 262144 = 0 \<Longrightarrow> 16 \<le> n div 4096 mod 64"
      using mod64_bound [of "n div 4096" 0] d 4 by linarith
    moreover have "n div 262144 = 4 \<Longrightarrow> n div 4096 mod 64 < 16"
      using mod64_bound [of "n div 4096" 4] d 4 assms(1) by linarith
    ultimately show ?thesis
      using 4 rune_width_4 [of "n div 262144" "n div 4096 mod 64" "n div 64 mod 64" "n mod 64"]
      by (simp add: utf8_enc_def)
  qed
qed

lemma u_rune_valid: "u < 65536 \<Longrightarrow> valid_utf8 (fst (u_rune u r))"
proof -
  assume u: "u < 65536"
  have low: "low_surrogate r = Some v \<Longrightarrow> 0xDC00 \<le> v \<and> v < 0xE000" for v
    by (auto simp: low_surrogate_def split: if_splits option.splits)
  have "valid_utf8 (utf8_enc (0x10000 + (u - 0xD800) * 1024 + (v - 0xDC00)))"
    if "low_surrogate r = Some v" "0xD800 \<le> u" "u < 0xDC00" for v
    using low [OF that(1)] that by (intro valid_utf8_enc) auto
  then show ?thesis using u valid_utf8_error valid_utf8_enc
    by (auto simp: u_rune_def split: option.splits)
qed

lemma pstr_valid: "pstr s = Some (t, r) \<Longrightarrow> valid_utf8 t"
proof (induction s arbitrary: t r rule: pstr.induct)
  case (1 s)
  have nil: "valid_utf8 []" by (simp add: valid_utf8.simps)
  show ?case
  proof (cases s)
    case Nil
    with "1.prems" show ?thesis by (subst (asm) pstr.simps) simp
  next
    case (Cons c r1)
    consider (q) "c = CHR 0x22" | (e) "c = CHR 0x5C" | (ctl) "c \<noteq> CHR 0x22" "c \<noteq> CHR 0x5C" "c < CHR 0x20"
      | (o) "c \<noteq> CHR 0x22" "c \<noteq> CHR 0x5C" "\<not> c < CHR 0x20" by blast
    then show ?thesis
    proof cases
      case q
      with "1.prems" Cons nil show ?thesis by (subst (asm) pstr.simps) simp
    next
      case e
      with "1.prems" Cons obtain x r2 where r1: "r1 = x # r2"
        by (subst (asm) pstr.simps) (auto split: list.splits)
      show ?thesis
      proof (cases "x = CHR ''u''")
        case True
        with "1.prems" Cons e r1 obtain u where u: "hex4 r2 = Some u"
          by (subst (asm) pstr.simps) (auto split: option.splits)
        with "1.prems" Cons e r1 True obtain t' where "pstr (snd (u_rune u (drop 4 r2))) = Some (t', r)"
          and t: "t = fst (u_rune u (drop 4 r2)) @ t'"
          by (subst (asm) pstr.simps) (auto simp: cons_out_Some Let_def)
        from "1.IH"(1) [OF Cons _ e r1 True u refl this(1)] have "valid_utf8 t'" by (simp add: e)
        with t valid_utf8_append [OF u_rune_valid [OF hex4_less [OF u]]] show ?thesis by simp
      next
        case False
        with "1.prems" Cons e r1 obtain y t' where y: "unescape x = Some y" and p: "pstr r2 = Some (t', r)"
          and t: "t = y # t'"
          by (subst (asm) pstr.simps) (auto simp: cons_out_Some split: option.splits)
        have "valid_utf8 [y]" using y
          by (intro valid_utf8_ascii_one) (auto simp: unescape_def byte_in_def split: if_splits)
        with t valid_utf8_append [of "[y]" t'] "1.IH"(2) [OF Cons _ e r1 False y p] show ?thesis by (simp add: e)
      qed
    next
      case ctl
      with "1.prems" Cons show ?thesis by (subst (asm) pstr.simps) simp
    next
      case o
      show ?thesis
      proof (cases "rune_width s = 0")
        case True
        with "1.prems" Cons o obtain t' where "pstr r1 = Some (t', r)" "t = rune_error @ t'"
          by (subst (asm) pstr.simps) (auto simp: cons_out_Some Let_def)
        with "1.IH"(3) [OF Cons o refl True this(1)] valid_utf8_append [OF valid_utf8_error] show ?thesis by simp
      next
        case False
        with "1.prems" Cons o obtain t' where "pstr (drop (rune_width s) s) = Some (t', r)"
          "t = take (rune_width s) s @ t'"
          by (subst (asm) pstr.simps) (auto simp: cons_out_Some Let_def)
        with "1.IH"(4) [OF Cons o refl False this(1)] valid_utf8_append [OF valid_utf8_rune [OF False]]
        show ?thesis by simp
      qed
    qed
  qed
qed

text \<open>Every string and key of a parsed value is valid UTF-8.\<close>

fun utf8_json :: "json \<Rightarrow> bool" where
  "utf8_json (JStr s) = valid_utf8 s"
| "utf8_json (JArr vs) = list_all utf8_json vs"
| "utf8_json (JObj ms) = list_all (\<lambda>m. valid_utf8 (fst m) \<and> utf8_json (snd m)) ms"
| "utf8_json _ = True"

text \<open>So is its nesting within the limit: what an untyped decoding can give.\<close>

fun fits :: "nat \<Rightarrow> json \<Rightarrow> bool" where
  "fits d (JStr s) = valid_utf8 s"
| "fits d (JArr vs) = (0 < d \<and> list_all (fits (d - 1)) vs)"
| "fits d (JObj ms) = (0 < d \<and> list_all (\<lambda>m. valid_utf8 (fst m) \<and> fits (d - 1) (snd m)) ms)"
| "fits d _ = True"

lemma fits_utf8: "fits d v \<Longrightarrow> utf8_json v"
  by (induction d v rule: fits.induct) (auto simp: list_all_iff)

lemma parse_fits:
  shows "pv n d s = Some (v, r) \<Longrightarrow> fits d v"
    and "pe n d s = Some (vs, r) \<Longrightarrow> list_all (fits d) vs"
    and "pm n d s = Some (ms, r) \<Longrightarrow> list_all (\<lambda>m. valid_utf8 (fst m) \<and> fits d (snd m)) ms"
proof (induction n d s and n d s and n d s arbitrary: v r and vs r and ms r rule: pv_pe_pm.induct)
  case (2 n d s)
  from "2.prems" obtain c q where sk: "skip_ws s = c # q"
    by (cases "skip_ws s") (simp_all add: pv.simps)
  note step = "2.prems" [unfolded pv.simps sk list.case]
  consider (str) "c = CHR 0x22" | (obj) "c = CHR ''{''" | (arr) "c = CHR ''[''"
    | (rest) "c \<noteq> CHR 0x22" "c \<noteq> CHR ''{''" "c \<noteq> CHR ''[''" by blast
  then show ?case
  proof cases
    case str
    with step show ?thesis by (auto dest: pstr_valid)
  next
    case obj
    with step have d: "d \<noteq> 0" by (auto split: if_splits)
    show ?thesis
    proof (cases "take_ch CHR ''}'' q")
      case None
      with step obj d obtain ms where "pm n (d - 1) q = Some (ms, r)" "v = JObj ms" by auto
      with "2.IH"(1) [OF sk _ obj d None this(1)] obj d show ?thesis by simp
    next
      case (Some r')
      with step obj d show ?thesis by auto
    qed
  next
    case arr
    with step have d: "d \<noteq> 0" by (auto split: if_splits)
    show ?thesis
    proof (cases "take_ch CHR '']'' q")
      case None
      with step arr d obtain vs where "pe n (d - 1) q = Some (vs, r)" "v = JArr vs" by auto
      with "2.IH"(2) [OF sk _ _ arr d None this(1)] arr d show ?thesis by simp
    next
      case (Some r')
      with step arr d show ?thesis by auto
    qed
  next
    case rest
    with step show ?thesis by (auto split: if_splits)
  qed
next
  case (4 n d s)
  from "4.prems" obtain v r1 where v: "pv n d s = Some (v, r1)"
    by (auto simp: pe.simps split: option.splits)
  from "4.IH"(1) [OF v] have l: "fits d v" .
  show ?case
  proof (cases "take_ch CHR '','' r1")
    case None
    with "4.prems" v l show ?thesis by (auto simp: pe.simps)
  next
    case (Some r2)
    with "4.prems" v obtain ws where "pe n d r2 = Some (ws, r)" "vs = v # ws"
      by (auto simp: pe.simps)
    with "4.IH"(2) [OF v refl Some this(1)] l show ?thesis by simp
  qed
next
  case (6 n d s)
  from "6.prems" obtain r0 key r1 r2 v r3 where
    a: "take_ch CHR 0x22 s = Some r0" and b: "pstr r0 = Some (key, r1)" and
    c: "take_ch CHR '':'' r1 = Some r2" and v: "pv n d r2 = Some (v, r3)"
    by (auto simp: pm.simps split: option.splits prod.splits)
  have l: "valid_utf8 key \<and> fits d v"
    using "6.IH"(1) [OF a b refl c v] pstr_valid [OF b] by simp
  show ?case
  proof (cases "take_ch CHR '','' r3")
    case None
    with "6.prems" a b c v l show ?thesis by (auto simp: pm.simps)
  next
    case (Some r4)
    with "6.prems" a b c v obtain ms' where "pm n d r4 = Some (ms', r)" "ms = (key, v) # ms'"
      by (auto simp: pm.simps)
    with "6.IH"(2) [OF a b refl c v refl Some this(1)] l show ?thesis by simp
  qed
qed (simp_all add: pv.simps pe.simps pm.simps)

lemma json_parse_fits: "json_parse s = Some v \<Longrightarrow> fits max_depth v"
  using parse_fits(1) by (auto simp: json_parse_def split: option.splits if_splits)

lemma json_parse_utf8: "json_parse s = Some v \<Longrightarrow> utf8_json v"
  using json_parse_fits fits_utf8 by blast

end
