(* ===== verification/MemoryTypes.thy ===== *)
theory MemoryTypes
  imports JsonProps
begin

section \<open>Package memory: the item type (memory/types.go)\<close>

text \<open>
  Memory items with their validation, their identifiers and their JSON form: what
  \<open>json.Marshal\<close> writes for an item and how \<open>json.Unmarshal\<close> fills the struct from the
  members of an object, with its treatment of null, of unknown and of differently cased
  keys. \<open>dec_enc_item\<close> is the round trip. A slice or pointer that may be nil is an option.
\<close>

subsection \<open>Types\<close>

record item_context =
  Tool :: string
  Intent :: string

record pattern =
  Bad :: string
  Good :: string

record citation =
  File :: string
  Line :: "int option"
  Commit :: "string option"

record item =
  ID :: string
  Type :: string
  Trigger :: string
  Insight :: string
  Tags :: "string list option"
  Source :: string
  Context :: item_context
  Created :: string
  Confirmed :: bool
  Supersedes :: "string list option"
  Related :: "string list option"
  Evidence :: "string option"
  Severity :: "string option"
  Deleted :: "bool option"
  DeletedAt :: "string option"
  RetrievalCount :: "int option"
  LastRetrieved :: "string option"
  InvalidatedAt :: "string option"
  InvalidationReason :: "string option"
  CompactionLevel :: "int option"
  CompactedAt :: "string option"
  Citation :: "citation option"
  Pattern :: "pattern option"

text \<open>The zero values of the structs.\<close>

definition context0 :: item_context where
  "context0 = \<lparr>Tool = [], Intent = []\<rparr>"

definition citation0 :: citation where
  "citation0 = \<lparr>File = [], Line = None, Commit = None\<rparr>"

definition pattern0 :: pattern where
  "pattern0 = \<lparr>Bad = [], Good = []\<rparr>"

definition item0 :: item where
  "item0 = \<lparr>ID = [], Type = [], Trigger = [], Insight = [], Tags = None, Source = [],
     Context = context0, Created = [], Confirmed = False, Supersedes = None, Related = None,
     Evidence = None, Severity = None, Deleted = None, DeletedAt = None, RetrievalCount = None,
     LastRetrieved = None, InvalidatedAt = None, InvalidationReason = None, CompactionLevel = None,
     CompactedAt = None, Citation = None, Pattern = None\<rparr>"

definition TypeLesson :: string where "TypeLesson = ''lesson''"
definition TypeSolution :: string where "TypeSolution = ''solution''"
definition TypePattern :: string where "TypePattern = ''pattern''"
definition TypePreference :: string where "TypePreference = ''preference''"

definition validTypes :: "string list" where
  "validTypes = [TypeLesson, TypeSolution, TypePattern, TypePreference]"

definition validSources :: "string list" where
  "validSources = [''user_correction'', ''self_correction'', ''test_failure'', ''manual'']"

definition validSeverities :: "string list" where
  "validSeverities = [''high'', ''medium'', ''low'']"

lemmas type_defs = TypeLesson_def TypeSolution_def TypePattern_def TypePreference_def

subsection \<open>Identifiers\<close>

text \<open>\<open>TypePrefix\<close>, with the zero value for an unknown type.\<close>

definition TypePrefix :: "string \<Rightarrow> string" where
  "TypePrefix t =
     (if t = TypeLesson then ''L'' else if t = TypeSolution then ''S''
      else if t = TypePattern then ''P'' else if t = TypePreference then ''R'' else [])"

definition hex_byte :: "char \<Rightarrow> string" where
  "hex_byte c = [hex_digit (of_char c div 16), hex_digit (of_char c mod 16)]"

text \<open>\<open>sha256\<close> is the hash function of crypto/sha256, a parameter here.\<close>

definition GenerateID :: "(string \<Rightarrow> string) \<Rightarrow> string \<Rightarrow> string \<Rightarrow> string" where
  "GenerateID sha256 insight typ = TypePrefix typ @ concat (map hex_byte (take 8 (sha256 insight)))"

subsection \<open>Validation\<close>

definition EnsureArrayFields :: "item \<Rightarrow> item" where
  "EnsureArrayFields it =
     it\<lparr>Tags := Some (case Tags it of None \<Rightarrow> [] | Some ts \<Rightarrow> ts),
        Supersedes := Some (case Supersedes it of None \<Rightarrow> [] | Some ts \<Rightarrow> ts),
        Related := Some (case Related it of None \<Rightarrow> [] | Some ts \<Rightarrow> ts)\<rparr>"

datatype item_error =
    IdRequired
  | InvalidType string
  | TriggerRequired
  | InsightRequired
  | InvalidSource string
  | CreatedRequired
  | TagsNull
  | SupersedesNull
  | RelatedNull
  | InvalidSeverity string
  | PatternFieldRequired

definition validateRequiredFields :: "item \<Rightarrow> item_error option" where
  "validateRequiredFields it =
     (if ID it = [] then Some IdRequired
      else if Type it \<notin> set validTypes then Some (InvalidType (Type it))
      else if Trigger it = [] then Some TriggerRequired
      else if Insight it = [] then Some InsightRequired
      else if Source it \<notin> set validSources then Some (InvalidSource (Source it))
      else if Created it = [] then Some CreatedRequired
      else if Tags it = None then Some TagsNull
      else if Supersedes it = None then Some SupersedesNull
      else if Related it = None then Some RelatedNull
      else None)"

definition ValidateItem :: "item \<Rightarrow> item_error option" where
  "ValidateItem it =
     (case validateRequiredFields it of Some e \<Rightarrow> Some e
      | None \<Rightarrow>
        (case Severity it of
           Some s \<Rightarrow> if s \<notin> set validSeverities then Some (InvalidSeverity s)
             else if Type it = TypePattern \<and> Pattern it = None then Some PatternFieldRequired else None
         | None \<Rightarrow> if Type it = TypePattern \<and> Pattern it = None then Some PatternFieldRequired else None))"

subsection \<open>Marshalling\<close>

definition j_strs :: "string list option \<Rightarrow> json" where
  "j_strs x = (case x of None \<Rightarrow> JNull | Some ss \<Rightarrow> JArr (map JStr ss))"

text \<open>A pointer field with \<open>omitempty\<close>: no member when it is nil.\<close>

definition j_opt :: "string \<Rightarrow> ('a \<Rightarrow> json) \<Rightarrow> 'a option \<Rightarrow> (string \<times> json) list" where
  "j_opt key f x = (case x of None \<Rightarrow> [] | Some v \<Rightarrow> [(key, f v)])"

definition j_int :: "int \<Rightarrow> json" where
  "j_int i = JNum (show_int i)"

definition enc_context :: "item_context \<Rightarrow> json" where
  "enc_context c = JObj [(''tool'', JStr (Tool c)), (''intent'', JStr (Intent c))]"

definition enc_pattern :: "pattern \<Rightarrow> json" where
  "enc_pattern p = JObj [(''bad'', JStr (Bad p)), (''good'', JStr (Good p))]"

definition enc_citation :: "citation \<Rightarrow> json" where
  "enc_citation c =
     JObj ((''file'', JStr (File c)) # j_opt ''line'' j_int (Line c) @ j_opt ''commit'' JStr (Commit c))"

definition enc_item :: "item \<Rightarrow> json" where
  "enc_item it = JObj
     ([(''id'', JStr (ID it)), (''type'', JStr (Type it)), (''trigger'', JStr (Trigger it)),
       (''insight'', JStr (Insight it)), (''tags'', j_strs (Tags it)), (''source'', JStr (Source it)),
       (''context'', enc_context (Context it)), (''created'', JStr (Created it)),
       (''confirmed'', JBool (Confirmed it)), (''supersedes'', j_strs (Supersedes it)),
       (''related'', j_strs (Related it))] @
      j_opt ''evidence'' JStr (Evidence it) @ j_opt ''severity'' JStr (Severity it) @
      j_opt ''deleted'' JBool (Deleted it) @ j_opt ''deletedAt'' JStr (DeletedAt it) @
      j_opt ''retrievalCount'' j_int (RetrievalCount it) @ j_opt ''lastRetrieved'' JStr (LastRetrieved it) @
      j_opt ''invalidatedAt'' JStr (InvalidatedAt it) @
      j_opt ''invalidationReason'' JStr (InvalidationReason it) @
      j_opt ''compactionLevel'' j_int (CompactionLevel it) @ j_opt ''compactedAt'' JStr (CompactedAt it) @
      j_opt ''citation'' enc_citation (Citation it) @ j_opt ''pattern'' enc_pattern (Pattern it))"

subsection \<open>Unmarshalling\<close>

text \<open>
  A key selects the field of exactly that name, else the field whose name equals it up to
  case folding; other keys are ignored. A null leaves a scalar or struct alone and sets a
  slice or pointer to nil; any other mismatch of types is an error.
\<close>

fun json_fold :: "string \<Rightarrow> string" where
  "json_fold [] = []"
| "json_fold (c # r) =
     (if c = CHR 0xC5 \<and> has_prefix r [CHR 0xBF] then CHR ''s'' # json_fold (tl r)
      else if c = CHR 0xE2 \<and> has_prefix r [CHR 0x84, CHR 0xAA] then CHR ''k'' # json_fold (drop 2 r)
      else ascii_lower c # json_fold r)"

definition canon_key :: "string list \<Rightarrow> string \<Rightarrow> string option" where
  "canon_key names k =
     (if k \<in> set names then Some k else List.find (\<lambda>n. json_fold n = json_fold k) names)"

definition dec_str :: "string \<Rightarrow> json \<Rightarrow> string option" where
  "dec_str old v = (case v of JNull \<Rightarrow> Some old | JStr s \<Rightarrow> Some s | _ \<Rightarrow> None)"

definition dec_bool :: "bool \<Rightarrow> json \<Rightarrow> bool option" where
  "dec_bool old v = (case v of JNull \<Rightarrow> Some old | JBool b \<Rightarrow> Some b | _ \<Rightarrow> None)"

definition dec_pstr :: "json \<Rightarrow> string option option" where
  "dec_pstr v = (case v of JNull \<Rightarrow> Some None | JStr s \<Rightarrow> Some (Some s) | _ \<Rightarrow> None)"

definition dec_pbool :: "json \<Rightarrow> bool option option" where
  "dec_pbool v = (case v of JNull \<Rightarrow> Some None | JBool b \<Rightarrow> Some (Some b) | _ \<Rightarrow> None)"

definition dec_pint :: "json \<Rightarrow> int option option" where
  "dec_pint v = (case v of JNull \<Rightarrow> Some None | JNum l \<Rightarrow> map_option Some (atoi l) | _ \<Rightarrow> None)"

text \<open>A slice is filled in place: a null element keeps what a slice decoded before had there.\<close>

fun dec_elems :: "string list \<Rightarrow> json list \<Rightarrow> string list option" where
  "dec_elems old [] = Some []"
| "dec_elems old (v # vs) =
     (case dec_str (case old of [] \<Rightarrow> [] | o1 # _ \<Rightarrow> o1) v of None \<Rightarrow> None
      | Some s \<Rightarrow> map_option (\<lambda>ss. s # ss) (dec_elems (tl old) vs))"

definition dec_strs :: "string list option \<Rightarrow> json \<Rightarrow> string list option option" where
  "dec_strs old v =
     (case v of JNull \<Rightarrow> Some None
      | JArr vs \<Rightarrow> map_option Some (dec_elems (case old of None \<Rightarrow> [] | Some ss \<Rightarrow> ss) vs)
      | _ \<Rightarrow> None)"

text \<open>The members of an object are decoded in order.\<close>

fun dec_members :: "('a \<Rightarrow> string \<Rightarrow> json \<Rightarrow> 'a option) \<Rightarrow> 'a \<Rightarrow> (string \<times> json) list \<Rightarrow> 'a option" where
  "dec_members f x [] = Some x"
| "dec_members f x ((k, v) # ms) = (case f x k v of None \<Rightarrow> None | Some x' \<Rightarrow> dec_members f x' ms)"

definition dec_obj :: "('a \<Rightarrow> string \<Rightarrow> json \<Rightarrow> 'a option) \<Rightarrow> 'a \<Rightarrow> json \<Rightarrow> 'a option" where
  "dec_obj f x v = (case v of JNull \<Rightarrow> Some x | JObj ms \<Rightarrow> dec_members f x ms | _ \<Rightarrow> None)"

definition dec_pobj :: "('a \<Rightarrow> string \<Rightarrow> json \<Rightarrow> 'a option) \<Rightarrow> 'a \<Rightarrow> 'a option \<Rightarrow> json \<Rightarrow> 'a option option" where
  "dec_pobj f zero old v =
     (case v of JNull \<Rightarrow> Some None
      | _ \<Rightarrow> map_option Some (dec_obj f (case old of None \<Rightarrow> zero | Some x \<Rightarrow> x) v))"

definition context_field :: "item_context \<Rightarrow> string \<Rightarrow> json \<Rightarrow> item_context option" where
  "context_field c k v =
     (case canon_key [''tool'', ''intent''] k of None \<Rightarrow> Some c
      | Some n \<Rightarrow>
        if n = ''tool'' then map_option (\<lambda>s. c\<lparr>Tool := s\<rparr>) (dec_str (Tool c) v)
        else map_option (\<lambda>s. c\<lparr>Intent := s\<rparr>) (dec_str (Intent c) v))"

definition pattern_field :: "pattern \<Rightarrow> string \<Rightarrow> json \<Rightarrow> pattern option" where
  "pattern_field p k v =
     (case canon_key [''bad'', ''good''] k of None \<Rightarrow> Some p
      | Some n \<Rightarrow>
        if n = ''bad'' then map_option (\<lambda>s. p\<lparr>Bad := s\<rparr>) (dec_str (Bad p) v)
        else map_option (\<lambda>s. p\<lparr>Good := s\<rparr>) (dec_str (Good p) v))"

definition citation_field :: "citation \<Rightarrow> string \<Rightarrow> json \<Rightarrow> citation option" where
  "citation_field c k v =
     (case canon_key [''file'', ''line'', ''commit''] k of None \<Rightarrow> Some c
      | Some n \<Rightarrow>
        if n = ''file'' then map_option (\<lambda>s. c\<lparr>File := s\<rparr>) (dec_str (File c) v)
        else if n = ''line'' then map_option (\<lambda>i. c\<lparr>Line := i\<rparr>) (dec_pint v)
        else map_option (\<lambda>s. c\<lparr>Commit := s\<rparr>) (dec_pstr v))"

definition item_keys :: "string list" where
  "item_keys =
     [''id'', ''type'', ''trigger'', ''insight'', ''tags'', ''source'', ''context'', ''created'',
      ''confirmed'', ''supersedes'', ''related'', ''evidence'', ''severity'', ''deleted'', ''deletedAt'',
      ''retrievalCount'', ''lastRetrieved'', ''invalidatedAt'', ''invalidationReason'',
      ''compactionLevel'', ''compactedAt'', ''citation'', ''pattern'']"

definition set_field :: "item \<Rightarrow> string \<Rightarrow> json \<Rightarrow> item option" where
  "set_field it n v =
     (if n = ''id'' then map_option (\<lambda>s. it\<lparr>ID := s\<rparr>) (dec_str (ID it) v)
      else if n = ''type'' then map_option (\<lambda>s. it\<lparr>Type := s\<rparr>) (dec_str (Type it) v)
      else if n = ''trigger'' then map_option (\<lambda>s. it\<lparr>Trigger := s\<rparr>) (dec_str (Trigger it) v)
      else if n = ''insight'' then map_option (\<lambda>s. it\<lparr>Insight := s\<rparr>) (dec_str (Insight it) v)
      else if n = ''tags'' then map_option (\<lambda>s. it\<lparr>Tags := s\<rparr>) (dec_strs (Tags it) v)
      else if n = ''source'' then map_option (\<lambda>s. it\<lparr>Source := s\<rparr>) (dec_str (Source it) v)
      else if n = ''context'' then map_option (\<lambda>c. it\<lparr>Context := c\<rparr>) (dec_obj context_field (Context it) v)
      else if n = ''created'' then map_option (\<lambda>s. it\<lparr>Created := s\<rparr>) (dec_str (Created it) v)
      else if n = ''confirmed'' then map_option (\<lambda>b. it\<lparr>Confirmed := b\<rparr>) (dec_bool (Confirmed it) v)
      else if n = ''supersedes'' then map_option (\<lambda>s. it\<lparr>Supersedes := s\<rparr>) (dec_strs (Supersedes it) v)
      else if n = ''related'' then map_option (\<lambda>s. it\<lparr>Related := s\<rparr>) (dec_strs (Related it) v)
      else if n = ''evidence'' then map_option (\<lambda>s. it\<lparr>Evidence := s\<rparr>) (dec_pstr v)
      else if n = ''severity'' then map_option (\<lambda>s. it\<lparr>Severity := s\<rparr>) (dec_pstr v)
      else if n = ''deleted'' then map_option (\<lambda>b. it\<lparr>Deleted := b\<rparr>) (dec_pbool v)
      else if n = ''deletedAt'' then map_option (\<lambda>s. it\<lparr>DeletedAt := s\<rparr>) (dec_pstr v)
      else if n = ''retrievalCount'' then map_option (\<lambda>i. it\<lparr>RetrievalCount := i\<rparr>) (dec_pint v)
      else if n = ''lastRetrieved'' then map_option (\<lambda>s. it\<lparr>LastRetrieved := s\<rparr>) (dec_pstr v)
      else if n = ''invalidatedAt'' then map_option (\<lambda>s. it\<lparr>InvalidatedAt := s\<rparr>) (dec_pstr v)
      else if n = ''invalidationReason'' then map_option (\<lambda>s. it\<lparr>InvalidationReason := s\<rparr>) (dec_pstr v)
      else if n = ''compactionLevel'' then map_option (\<lambda>i. it\<lparr>CompactionLevel := i\<rparr>) (dec_pint v)
      else if n = ''compactedAt'' then map_option (\<lambda>s. it\<lparr>CompactedAt := s\<rparr>) (dec_pstr v)
      else if n = ''citation'' then
        map_option (\<lambda>c. it\<lparr>Citation := c\<rparr>) (dec_pobj citation_field citation0 (Citation it) v)
      else if n = ''pattern'' then
        map_option (\<lambda>p. it\<lparr>Pattern := p\<rparr>) (dec_pobj pattern_field pattern0 (Pattern it) v)
      else Some it)"

definition item_field :: "item \<Rightarrow> string \<Rightarrow> json \<Rightarrow> item option" where
  "item_field it k v = (case canon_key item_keys k of None \<Rightarrow> Some it | Some n \<Rightarrow> set_field it n v)"

definition dec_item :: "json \<Rightarrow> item option" where
  "dec_item v = dec_obj item_field item0 v"

subsection \<open>Validation facts\<close>

text \<open>What a valid item satisfies.\<close>

lemma ValidateItem_None:
  "ValidateItem it = None \<longleftrightarrow>
     ID it \<noteq> [] \<and> Type it \<in> set validTypes \<and> Trigger it \<noteq> [] \<and> Insight it \<noteq> [] \<and>
     Source it \<in> set validSources \<and> Created it \<noteq> [] \<and>
     Tags it \<noteq> None \<and> Supersedes it \<noteq> None \<and> Related it \<noteq> None \<and>
     (\<forall>s. Severity it = Some s \<longrightarrow> s \<in> set validSeverities) \<and>
     (Type it = TypePattern \<longrightarrow> Pattern it \<noteq> None)"
  by (auto simp: ValidateItem_def validateRequiredFields_def split: option.splits)

lemma EnsureArrayFields_idem [simp]: "EnsureArrayFields (EnsureArrayFields it) = EnsureArrayFields it"
  by (simp add: EnsureArrayFields_def)

lemma EnsureArrayFields_id:
  "Tags it \<noteq> None \<Longrightarrow> Supersedes it \<noteq> None \<Longrightarrow> Related it \<noteq> None \<Longrightarrow> EnsureArrayFields it = it"
  by (cases it) (auto simp: EnsureArrayFields_def)

lemma EnsureArrayFields_sel [simp]:
  "ID (EnsureArrayFields it) = ID it" "Type (EnsureArrayFields it) = Type it"
  "Created (EnsureArrayFields it) = Created it" "Trigger (EnsureArrayFields it) = Trigger it"
  "Insight (EnsureArrayFields it) = Insight it" "Source (EnsureArrayFields it) = Source it"
  "Severity (EnsureArrayFields it) = Severity it" "Pattern (EnsureArrayFields it) = Pattern it"
  "Deleted (EnsureArrayFields it) = Deleted it"
  by (simp_all add: EnsureArrayFields_def)

lemma EnsureArrayFields_nonnil [simp]:
  "Tags (EnsureArrayFields it) \<noteq> None" "Supersedes (EnsureArrayFields it) \<noteq> None"
  "Related (EnsureArrayFields it) \<noteq> None"
  by (simp_all add: EnsureArrayFields_def)

lemma ValidateItem_Ensure: "ValidateItem it = None \<Longrightarrow> EnsureArrayFields it = it"
  by (simp add: ValidateItem_None EnsureArrayFields_id)

subsection \<open>Items round-trip through JSON\<close>

definition int64 :: "int \<Rightarrow> bool" where
  "int64 i \<longleftrightarrow> - (2 ^ 63) \<le> i \<and> i < 2 ^ 63"

definition opt_ok :: "('a \<Rightarrow> bool) \<Rightarrow> 'a option \<Rightarrow> bool" where
  "opt_ok P x = (case x of None \<Rightarrow> True | Some v \<Rightarrow> P v)"

definition strs_ok :: "string list option \<Rightarrow> bool" where
  "strs_ok x = opt_ok (list_all valid_utf8) x"

definition citation_ok :: "citation \<Rightarrow> bool" where
  "citation_ok c \<longleftrightarrow> valid_utf8 (File c) \<and> opt_ok int64 (Line c) \<and> opt_ok valid_utf8 (Commit c)"

text \<open>The strings of a Go value that JSON can carry, and the integers an int can hold.\<close>

definition item_ok :: "item \<Rightarrow> bool" where
  "item_ok it \<longleftrightarrow>
     list_all valid_utf8 [ID it, Type it, Trigger it, Insight it, Source it, Created it,
       Tool (Context it), Intent (Context it)] \<and>
     list_all strs_ok [Tags it, Supersedes it, Related it] \<and>
     list_all (opt_ok valid_utf8) [Evidence it, Severity it, DeletedAt it, LastRetrieved it,
       InvalidatedAt it, InvalidationReason it, CompactedAt it] \<and>
     list_all (opt_ok int64) [RetrievalCount it, CompactionLevel it] \<and>
     opt_ok citation_ok (Citation it) \<and>
     opt_ok (\<lambda>p. valid_utf8 (Bad p) \<and> valid_utf8 (Good p)) (Pattern it)"

lemma dec_members_append:
  "dec_members f x (a @ b) = (case dec_members f x a of None \<Rightarrow> None | Some y \<Rightarrow> dec_members f y b)"
  by (induction f x a rule: dec_members.induct) (auto split: option.splits)

lemma dec_elems_JStr: "dec_elems old (map JStr ss) = Some ss"
  by (induction ss arbitrary: old) (auto simp: dec_str_def)

lemma dec_strs_j_strs [simp]: "dec_strs old (j_strs x) = Some x"
  by (simp add: dec_strs_def j_strs_def dec_elems_JStr split: option.split)

lemma dec_pint_j_int [simp]: "int64 i \<Longrightarrow> dec_pint (j_int i) = Some (Some i)"
  by (simp add: dec_pint_def j_int_def int64_def atoi_show_int)

lemma canon_key_exact: "k \<in> set names \<Longrightarrow> canon_key names k = Some k"
  by (simp add: canon_key_def)

lemma item_field_exact: "k \<in> set item_keys \<Longrightarrow> item_field it k v = set_field it k v"
  by (simp add: item_field_def canon_key_exact)

lemma dec_context_enc [simp]: "dec_obj context_field c0 (enc_context c) = Some c"
  by (cases c) (simp add: dec_obj_def enc_context_def context_field_def canon_key_exact dec_str_def)

lemma dec_pattern_enc [simp]: "dec_pobj pattern_field p0 old (enc_pattern p) = Some (Some p)"
  by (cases p) (simp add: dec_pobj_def dec_obj_def enc_pattern_def pattern_field_def canon_key_exact dec_str_def)

lemma dec_citation_enc [simp]:
  assumes "citation_ok c"
  shows "dec_pobj citation_field citation0 None (enc_citation c) = Some (Some c)"
  using assms
  by (cases c)
    (auto simp: dec_pobj_def dec_obj_def enc_citation_def citation_field_def canon_key_exact dec_str_def
      dec_pstr_def j_opt_def citation_ok_def opt_ok_def citation0_def split: option.splits)

lemma j_opt_simps [simp]: "j_opt k f None = []" "j_opt k f (Some v) = [(k, f v)]"
  by (simp_all add: j_opt_def)

text \<open>Each optional member, when present, sets its field; when absent, the field stays nil.\<close>

lemma dec_opt_field:
  assumes "k \<in> set item_keys" and "\<And>v. x = Some v \<Longrightarrow> set_field it k (f v) = Some (upd (\<lambda>_. Some v) it)"
    and "x = None \<Longrightarrow> upd (\<lambda>_. None) it = it"
  shows "dec_members item_field it (j_opt k f x @ ms) = dec_members item_field (upd (\<lambda>_. x) it) ms"
  using assms by (cases x) (simp_all add: item_field_exact)

lemma key_in [simp]:
  "''id'' \<in> set item_keys" "''type'' \<in> set item_keys" "''trigger'' \<in> set item_keys" "''insight'' \<in> set item_keys"
  "''tags'' \<in> set item_keys" "''source'' \<in> set item_keys" "''context'' \<in> set item_keys"
  "''created'' \<in> set item_keys" "''confirmed'' \<in> set item_keys" "''supersedes'' \<in> set item_keys"
  "''related'' \<in> set item_keys" "''evidence'' \<in> set item_keys" "''severity'' \<in> set item_keys"
  "''deleted'' \<in> set item_keys" "''deletedAt'' \<in> set item_keys" "''retrievalCount'' \<in> set item_keys"
  "''lastRetrieved'' \<in> set item_keys" "''invalidatedAt'' \<in> set item_keys"
  "''invalidationReason'' \<in> set item_keys" "''compactionLevel'' \<in> set item_keys"
  "''compactedAt'' \<in> set item_keys" "''citation'' \<in> set item_keys" "''pattern'' \<in> set item_keys"
  by (simp_all add: item_keys_def)

lemma set_field_simps:
  "set_field it ''id'' v = map_option (\<lambda>s. it\<lparr>ID := s\<rparr>) (dec_str (ID it) v)"
  "set_field it ''type'' v = map_option (\<lambda>s. it\<lparr>Type := s\<rparr>) (dec_str (Type it) v)"
  "set_field it ''trigger'' v = map_option (\<lambda>s. it\<lparr>Trigger := s\<rparr>) (dec_str (Trigger it) v)"
  "set_field it ''insight'' v = map_option (\<lambda>s. it\<lparr>Insight := s\<rparr>) (dec_str (Insight it) v)"
  "set_field it ''tags'' v = map_option (\<lambda>s. it\<lparr>Tags := s\<rparr>) (dec_strs (Tags it) v)"
  "set_field it ''source'' v = map_option (\<lambda>s. it\<lparr>Source := s\<rparr>) (dec_str (Source it) v)"
  "set_field it ''context'' v = map_option (\<lambda>c. it\<lparr>Context := c\<rparr>) (dec_obj context_field (Context it) v)"
  "set_field it ''created'' v = map_option (\<lambda>s. it\<lparr>Created := s\<rparr>) (dec_str (Created it) v)"
  "set_field it ''confirmed'' v = map_option (\<lambda>b. it\<lparr>Confirmed := b\<rparr>) (dec_bool (Confirmed it) v)"
  "set_field it ''supersedes'' v = map_option (\<lambda>s. it\<lparr>Supersedes := s\<rparr>) (dec_strs (Supersedes it) v)"
  "set_field it ''related'' v = map_option (\<lambda>s. it\<lparr>Related := s\<rparr>) (dec_strs (Related it) v)"
  "set_field it ''evidence'' v = map_option (\<lambda>s. it\<lparr>Evidence := s\<rparr>) (dec_pstr v)"
  "set_field it ''severity'' v = map_option (\<lambda>s. it\<lparr>Severity := s\<rparr>) (dec_pstr v)"
  "set_field it ''deleted'' v = map_option (\<lambda>b. it\<lparr>Deleted := b\<rparr>) (dec_pbool v)"
  "set_field it ''deletedAt'' v = map_option (\<lambda>s. it\<lparr>DeletedAt := s\<rparr>) (dec_pstr v)"
  "set_field it ''retrievalCount'' v = map_option (\<lambda>i. it\<lparr>RetrievalCount := i\<rparr>) (dec_pint v)"
  "set_field it ''lastRetrieved'' v = map_option (\<lambda>s. it\<lparr>LastRetrieved := s\<rparr>) (dec_pstr v)"
  "set_field it ''invalidatedAt'' v = map_option (\<lambda>s. it\<lparr>InvalidatedAt := s\<rparr>) (dec_pstr v)"
  "set_field it ''invalidationReason'' v = map_option (\<lambda>s. it\<lparr>InvalidationReason := s\<rparr>) (dec_pstr v)"
  "set_field it ''compactionLevel'' v = map_option (\<lambda>i. it\<lparr>CompactionLevel := i\<rparr>) (dec_pint v)"
  "set_field it ''compactedAt'' v = map_option (\<lambda>s. it\<lparr>CompactedAt := s\<rparr>) (dec_pstr v)"
  "set_field it ''citation'' v =
     map_option (\<lambda>c. it\<lparr>Citation := c\<rparr>) (dec_pobj citation_field citation0 (Citation it) v)"
  "set_field it ''pattern'' v =
     map_option (\<lambda>p. it\<lparr>Pattern := p\<rparr>) (dec_pobj pattern_field pattern0 (Pattern it) v)"
  by (simp_all add: set_field_def)

lemma dec_str_JStr [simp]: "dec_str old (JStr s) = Some s" and dec_pstr_JStr [simp]: "dec_pstr (JStr s) = Some (Some s)"
  and dec_bool_JBool [simp]: "dec_bool b0 (JBool b) = Some b" and dec_pbool_JBool [simp]: "dec_pbool (JBool b) = Some (Some b)"
  by (simp_all add: dec_str_def dec_pstr_def dec_bool_def dec_pbool_def)

lemma opt_ok_simps [simp]: "opt_ok P None" "opt_ok P (Some v) \<longleftrightarrow> P v"
  by (simp_all add: opt_ok_def)

lemma dec_enc_item:
  assumes "item_ok it"
  shows "dec_item (enc_item it) = Some it"
proof -
  note ok = assms [unfolded item_ok_def]
  have E: "dec_members item_field i (j_opt ''evidence'' JStr x @ ms) = dec_members item_field (i\<lparr>Evidence := x\<rparr>) ms"
    if "Evidence i = None" for i x ms using that by (intro dec_opt_field) (auto simp: set_field_simps)
  have S: "dec_members item_field i (j_opt ''severity'' JStr x @ ms) = dec_members item_field (i\<lparr>Severity := x\<rparr>) ms"
    if "Severity i = None" for i x ms using that by (intro dec_opt_field) (auto simp: set_field_simps)
  have D: "dec_members item_field i (j_opt ''deleted'' JBool x @ ms) = dec_members item_field (i\<lparr>Deleted := x\<rparr>) ms"
    if "Deleted i = None" for i x ms using that by (intro dec_opt_field) (auto simp: set_field_simps)
  have DA: "dec_members item_field i (j_opt ''deletedAt'' JStr x @ ms) = dec_members item_field (i\<lparr>DeletedAt := x\<rparr>) ms"
    if "DeletedAt i = None" for i x ms using that by (intro dec_opt_field) (auto simp: set_field_simps)
  have RC: "dec_members item_field i (j_opt ''retrievalCount'' j_int x @ ms) = dec_members item_field (i\<lparr>RetrievalCount := x\<rparr>) ms"
    if "RetrievalCount i = None" "opt_ok int64 x" for i x ms using that by (intro dec_opt_field) (auto simp: set_field_simps)
  have LR: "dec_members item_field i (j_opt ''lastRetrieved'' JStr x @ ms) = dec_members item_field (i\<lparr>LastRetrieved := x\<rparr>) ms"
    if "LastRetrieved i = None" for i x ms using that by (intro dec_opt_field) (auto simp: set_field_simps)
  have IA: "dec_members item_field i (j_opt ''invalidatedAt'' JStr x @ ms) = dec_members item_field (i\<lparr>InvalidatedAt := x\<rparr>) ms"
    if "InvalidatedAt i = None" for i x ms using that by (intro dec_opt_field) (auto simp: set_field_simps)
  have IR: "dec_members item_field i (j_opt ''invalidationReason'' JStr x @ ms) = dec_members item_field (i\<lparr>InvalidationReason := x\<rparr>) ms"
    if "InvalidationReason i = None" for i x ms using that by (intro dec_opt_field) (auto simp: set_field_simps)
  have CL: "dec_members item_field i (j_opt ''compactionLevel'' j_int x @ ms) = dec_members item_field (i\<lparr>CompactionLevel := x\<rparr>) ms"
    if "CompactionLevel i = None" "opt_ok int64 x" for i x ms using that by (intro dec_opt_field) (auto simp: set_field_simps)
  have CA: "dec_members item_field i (j_opt ''compactedAt'' JStr x @ ms) = dec_members item_field (i\<lparr>CompactedAt := x\<rparr>) ms"
    if "CompactedAt i = None" for i x ms using that by (intro dec_opt_field) (auto simp: set_field_simps)
  have C: "dec_members item_field i (j_opt ''citation'' enc_citation x @ ms) = dec_members item_field (i\<lparr>Citation := x\<rparr>) ms"
    if "Citation i = None" "opt_ok citation_ok x" for i x ms using that by (intro dec_opt_field) (auto simp: set_field_simps)
  have P: "dec_members item_field i (j_opt ''pattern'' enc_pattern x) = Some (i\<lparr>Pattern := x\<rparr>)"
    if "Pattern i = None" for i x
    using that dec_opt_field [of "''pattern''" x i enc_pattern Pattern_update "[]"] by (auto simp: set_field_simps)
  show ?thesis using ok
    unfolding dec_item_def enc_item_def dec_obj_def item0_def
    by (simp add: item_field_exact set_field_simps E S D DA RC LR IA IR CL CA C P)
qed

text \<open>The JSON of such an item is well formed, so its line parses back to it.\<close>

lemma wf_j_strs [simp]: "strs_ok x \<Longrightarrow> wf_json (j_strs x)"
  by (auto simp: strs_ok_def j_strs_def list_all_iff split: option.splits)

lemma list_all_j_opt [simp]: "list_all Q (j_opt k f x) = opt_ok (\<lambda>v. Q (k, f v)) x"
  by (cases x) simp_all

lemma opt_ok_True [simp]: "opt_ok (\<lambda>_. True) x"
  by (cases x) simp_all

lemma opt_ok_mono: "opt_ok P x \<Longrightarrow> (\<And>v. P v \<Longrightarrow> Q v) \<Longrightarrow> opt_ok Q x"
  by (cases x) simp_all

lemma valid_utf8_ascii: "list_all (byte_in 0 0x7F) s \<Longrightarrow> valid_utf8 s"
proof (induction s)
  case Nil
  show ?case by (simp add: valid_utf8.simps)
next
  case (Cons a s)
  then show ?case by (subst valid_utf8.simps) (simp add: rune_width_ascii)
qed

lemma wf_j_int [simp]: "wf_json (j_int i)"
  by (simp add: j_int_def num_ok_show_int)

lemma valid_utf8_lit: "list_all (byte_in 0 0x7F) s \<Longrightarrow> valid_utf8 s = True"
  by (simp add: valid_utf8_ascii)

lemma wf_context [simp]: "valid_utf8 (Tool c) \<Longrightarrow> valid_utf8 (Intent c) \<Longrightarrow> wf_json (enc_context c)"
  by (simp add: enc_context_def valid_utf8_lit byte_in_def)

lemma wf_citation [simp]: "citation_ok c \<Longrightarrow> wf_json (enc_citation c)"
  by (auto simp: enc_citation_def citation_ok_def valid_utf8_lit byte_in_def)

lemma wf_pattern [simp]: "valid_utf8 (Bad p) \<and> valid_utf8 (Good p) \<Longrightarrow> wf_json (enc_pattern p)"
  by (simp add: enc_pattern_def valid_utf8_lit byte_in_def)

lemma wf_enc_item: "item_ok it \<Longrightarrow> wf_json (enc_item it)"
  unfolding enc_item_def item_ok_def
  by (simp add: valid_utf8_lit byte_in_def) (auto elim!: opt_ok_mono)

lemma jdepth_JObj_le:
  "list_all (\<lambda>m. jdepth (snd m) \<le> d) ms \<Longrightarrow> jdepth (JObj ms) \<le> Suc d"
  by (simp add: fold_max_le list_all_iff)

lemma fold_max_0 [simp]: "fold max (map (jdepth \<circ> JStr) ss) 0 = 0"
  by (induction ss) simp_all

lemma jdepth_j_strs [simp]: "jdepth (j_strs x) \<le> Suc 0"
  by (simp add: j_strs_def split: option.split)

lemma opt_ok_all: "(\<And>v. P v) \<Longrightarrow> opt_ok P x"
  by (cases x) simp_all

lemma jdepth_item: "jdepth (enc_item it) \<le> 2"
proof -
  have c: "jdepth (enc_context c) \<le> Suc 0" for c by (simp add: enc_context_def)
  have p: "jdepth (enc_pattern p) \<le> Suc 0" for p by (simp add: enc_pattern_def)
  have ct: "jdepth (enc_citation p) \<le> Suc 0" for p
    unfolding enc_citation_def
    by (rule jdepth_JObj_le) (auto simp: j_int_def intro!: opt_ok_all)
  show ?thesis unfolding enc_item_def Suc_1 [symmetric]
    by (rule jdepth_JObj_le) (simp add: j_int_def opt_ok_all c p ct)
qed

text \<open>A marshalled item is one line without outer white space, and reading it gives the item.\<close>

definition item_line :: "item \<Rightarrow> string" where
  "item_line it = marshal (enc_item it)"

lemma parse_item_line: "item_ok it \<Longrightarrow> json_parse (item_line it) = Some (enc_item it)"
  unfolding item_line_def
  by (rule parse_marshal) (use wf_enc_item jdepth_item [of it] in \<open>auto simp: max_depth_def\<close>)

lemma item_line_no_newline: "item_ok it \<Longrightarrow> CHR 0x0A \<notin> set (item_line it) \<and> CHR 0x0D \<notin> set (item_line it)"
  unfolding item_line_def using marshal_one_line wf_enc_item by blast

lemma item_line_braces: "\<exists>mid. item_line it = CHR ''{'' # mid @ [CHR ''}'']"
  unfolding item_line_def marshal_def enc_item_def by (simp del: append_Cons append_assoc) simp

lemma trim_item_line [simp]: "trim_space (item_line it) = item_line it"
proof -
  obtain mid where "item_line it = CHR ''{'' # mid @ [CHR ''}'']" using item_line_braces by blast
  then show ?thesis by (simp add: trim_space_plain plain_char_def is_ascii_space_def less_char_def)
qed

lemma item_line_nonempty [simp]: "item_line it \<noteq> []"
  using item_line_braces [of it] by auto

subsection \<open>Every decoded item is representable\<close>

lemma atoi_int64: "atoi s = Some i \<Longrightarrow> int64 i"
  by (auto simp: atoi_def int64_def Let_def split: option.splits if_splits prod.splits)

lemma valid_utf8_Nil [simp]: "valid_utf8 []"
  by (simp add: valid_utf8.simps)

lemma dec_str_ok: "dec_str old v = Some s \<Longrightarrow> valid_utf8 old \<Longrightarrow> utf8_json v \<Longrightarrow> valid_utf8 s"
  by (auto simp: dec_str_def split: json.splits)

lemma dec_pstr_ok: "dec_pstr v = Some x \<Longrightarrow> utf8_json v \<Longrightarrow> opt_ok valid_utf8 x"
  by (auto simp: dec_pstr_def split: json.splits)

lemma dec_pint_ok: "dec_pint v = Some x \<Longrightarrow> opt_ok int64 x"
  by (auto simp: dec_pint_def atoi_int64 split: json.splits)

lemma dec_elems_ok:
  "dec_elems old vs = Some ss \<Longrightarrow> list_all valid_utf8 old \<Longrightarrow> list_all utf8_json vs \<Longrightarrow> list_all valid_utf8 ss"
proof (induction old vs arbitrary: ss rule: dec_elems.induct)
  case (2 old v vs)
  let ?o = "case old of [] \<Rightarrow> [] | o1 # _ \<Rightarrow> o1"
  from 2 obtain s ss' where s: "dec_str ?o v = Some s" and r: "dec_elems (tl old) vs = Some ss'" "ss = s # ss'"
    by (auto split: option.splits)
  have "valid_utf8 ?o" "list_all valid_utf8 (tl old)" using 2 by (cases old; simp)+
  with s r "2.IH" [OF s] "2.prems" dec_str_ok [OF s] show ?case by simp
qed simp

lemma dec_strs_ok: "dec_strs old v = Some x \<Longrightarrow> strs_ok old \<Longrightarrow> utf8_json v \<Longrightarrow> strs_ok x"
  by (auto simp: dec_strs_def strs_ok_def dest!: dec_elems_ok split: json.splits option.splits)

text \<open>A field decoder that keeps \<open>P\<close>.\<close>

definition keeps :: "('a \<Rightarrow> string \<Rightarrow> json \<Rightarrow> 'a option) \<Rightarrow> ('a \<Rightarrow> bool) \<Rightarrow> bool" where
  "keeps f P \<longleftrightarrow> (\<forall>x k v y. f x k v = Some y \<longrightarrow> P x \<longrightarrow> utf8_json v \<longrightarrow> P y)"

lemma keepsD: "keeps f P \<Longrightarrow> f x k v = Some y \<Longrightarrow> P x \<Longrightarrow> utf8_json v \<Longrightarrow> P y"
  unfolding keeps_def by blast

lemma dec_members_ok:
  "dec_members f x ms = Some y \<Longrightarrow> keeps f P \<Longrightarrow> P x \<Longrightarrow>
   list_all (\<lambda>m. valid_utf8 (fst m) \<and> utf8_json (snd m)) ms \<Longrightarrow> P y"
  by (induction f x ms rule: dec_members.induct) (auto split: option.splits dest: keepsD)

lemma dec_obj_ok: "dec_obj f x v = Some y \<Longrightarrow> keeps f P \<Longrightarrow> P x \<Longrightarrow> utf8_json v \<Longrightarrow> P y"
  by (auto simp: dec_obj_def split: json.splits dest: dec_members_ok)

lemma dec_pobj_ok:
  "dec_pobj f zero old v = Some y \<Longrightarrow> keeps f P \<Longrightarrow> P zero \<Longrightarrow> opt_ok P old \<Longrightarrow> utf8_json v \<Longrightarrow> opt_ok P y"
  by (cases old) (auto simp: dec_pobj_def split: json.splits dest: dec_obj_ok)

lemma context_field_ok: "keeps context_field (\<lambda>c. valid_utf8 (Tool c) \<and> valid_utf8 (Intent c))"
  by (auto simp: keeps_def context_field_def split: option.splits if_splits dest: dec_str_ok)

lemma pattern_field_ok: "keeps pattern_field (\<lambda>p. valid_utf8 (Bad p) \<and> valid_utf8 (Good p))"
  by (auto simp: keeps_def pattern_field_def split: option.splits if_splits dest: dec_str_ok)

lemma citation_field_ok: "keeps citation_field citation_ok"
  by (auto simp: keeps_def citation_field_def citation_ok_def split: option.splits if_splits
      dest: dec_str_ok dec_pstr_ok dec_pint_ok)

lemma item_field_ok:
  assumes "item_field it k v = Some it'" and "item_ok it" and "utf8_json v"
  shows "item_ok it'"
proof (cases "canon_key item_keys k")
  case None
  with assms show ?thesis by (simp add: item_field_def)
next
  case (Some n)
  with assms(1) have s: "set_field it n v = Some it'" by (simp add: item_field_def)
  note ok = assms(2) [unfolded item_ok_def, simplified]
  have c: "dec_obj context_field (Context it) v = Some c \<Longrightarrow> valid_utf8 (Tool c) \<and> valid_utf8 (Intent c)" for c
    using dec_obj_ok [OF _ context_field_ok, of "Context it" v c] ok assms(3) by blast
  have p: "dec_pobj pattern_field pattern0 (Pattern it) v = Some x \<Longrightarrow> opt_ok (\<lambda>p. valid_utf8 (Bad p) \<and> valid_utf8 (Good p)) x" for x
    using dec_pobj_ok [OF _ pattern_field_ok, of pattern0 "Pattern it" v x] ok assms(3) by (simp add: pattern0_def)
  have z: "citation_ok citation0" by (simp add: citation_ok_def citation0_def)
  have ct: "dec_pobj citation_field citation0 (Citation it) v = Some x \<Longrightarrow> opt_ok citation_ok x" for x
    using dec_pobj_ok [OF _ citation_field_ok, of citation0 "Citation it" v x] z ok assms(3) by blast
  have "n \<in> set item_keys"
    using Some by (auto simp: canon_key_def find_Some_iff split: if_splits)
  then show ?thesis
    unfolding item_keys_def list.set insert_iff empty_iff
    using s ok assms(3)
    by (elim disjE; clarsimp simp: set_field_simps item_ok_def;
        (elim dec_str_ok dec_strs_ok dec_pstr_ok dec_pint_ok c p ct)?; simp?)
qed

lemma item_field_keeps: "keeps item_field item_ok"
  unfolding keeps_def using item_field_ok by blast

lemma dec_item_ok: "dec_item v = Some it \<Longrightarrow> utf8_json v \<Longrightarrow> item_ok it"
proof -
  have z: "item_ok item0" by (simp add: item_ok_def item0_def context0_def strs_ok_def)
  show "dec_item v = Some it \<Longrightarrow> utf8_json v \<Longrightarrow> item_ok it"
    unfolding dec_item_def using dec_obj_ok [OF _ item_field_keeps, of item0 v it] z by blast
qed

lemma item_ok_Ensure [simp]: "item_ok it \<Longrightarrow> item_ok (EnsureArrayFields it)"
  by (auto simp: item_ok_def EnsureArrayFields_def strs_ok_def split: option.splits)

end
