(* ===== verification/MemoryStore.thy ===== *)
theory MemoryStore
  imports MemoryTypes
begin

section \<open>Package memory: the JSONL record store (memory/jsonl.go, memory/compact.go)\<close>

text \<open>
  The lessons file is a sequence of JSON lines; a later line for the same ID replaces an
  earlier one, a tombstone removes it. This theory has the line scanner, the reader, the
  appender and the compactor with the file-system steps of its atomic rewrite, and proves
  that the text the code writes is read back as the map operation it stands for.
\<close>

subsection \<open>bufio.Scanner with the buffer sizes of the code\<close>

text \<open>
  Lines end at a newline, one carriage return before it is dropped, and a final line
  without a newline counts unless it is empty. A line that fills the buffer before its
  newline is seen is \<open>bufio.ErrTooLong\<close>: the lines before it are delivered, then the scan
  stops with the error (the flag).
\<close>

definition max_token :: nat where
  "max_token = 1024 * 1024"

definition drop_cr :: "string \<Rightarrow> string" where
  "drop_cr l = (if l \<noteq> [] \<and> last l = CHR 0x0D then butlast l else l)"

definition raw_lines :: "string \<Rightarrow> string list" where
  "raw_lines s = (let ls = split_on (CHR 0x0A) s in if last ls = [] then butlast ls else ls)"

definition scan_lines :: "string \<Rightarrow> string list \<times> bool" where
  "scan_lines s =
     (let ls = raw_lines s; ok = takeWhile (\<lambda>l. length l < max_token) ls
      in (map drop_cr ok, length ok < length ls))"

text \<open>The loop body of every reader skips lines that are empty after trimming.\<close>

definition content_lines :: "string list \<Rightarrow> string list" where
  "content_lines ls = filter (\<lambda>l. l \<noteq> []) (map trim_space ls)"

datatype opened = Opened string | NotExist | OpenFails

datatype store_error = StoreOpen | StoreScan | StoreMkdir | StoreCreateTemp | StoreWrite | StoreSync
  | StoreClose | StoreRename

subsection \<open>Parsing a line\<close>

text \<open>\<open>json.Unmarshal\<close> into a \<open>map[string]json.RawMessage\<close>: the last of equal keys counts.\<close>

definition unmarshal_map :: "string \<Rightarrow> (string \<times> json) list option" where
  "unmarshal_map line =
     (case json_parse line of Some (JObj ms) \<Rightarrow> Some ms | Some JNull \<Rightarrow> Some [] | _ \<Rightarrow> None)"

definition raw_get :: "(string \<times> json) list \<Rightarrow> string \<Rightarrow> json option" where
  "raw_get raw k = map_of (rev raw) k"

definition raw_deleted :: "(string \<times> json) list \<Rightarrow> bool" where
  "raw_deleted raw =
     (case raw_get raw ''deleted'' of None \<Rightarrow> False | Some v \<Rightarrow> dec_bool False v = Some True)"

definition raw_id :: "(string \<times> json) list \<Rightarrow> string" where
  "raw_id raw =
     (case raw_get raw ''id'' of None \<Rightarrow> []
      | Some v \<Rightarrow> (case dec_str [] v of None \<Rightarrow> [] | Some s \<Rightarrow> s))"

definition parseTombstone :: "(string \<times> json) list \<Rightarrow> item option" where
  "parseTombstone raw =
     (if \<not> raw_deleted raw then None
      else if raw_id raw = [] then None
      else Some (item0\<lparr>ID := raw_id raw\<rparr>))"

text \<open>\<open>json.Unmarshal\<close> into an \<open>Item\<close>.\<close>

definition unmarshal_item :: "string \<Rightarrow> item option" where
  "unmarshal_item line = (case json_parse line of None \<Rightarrow> None | Some v \<Rightarrow> dec_item v)"

definition legacy_type :: "item \<Rightarrow> item" where
  "legacy_type it =
     (if Type it = ''quick'' \<or> Type it = ''full'' then it\<lparr>Type := TypeLesson\<rparr> else it)"

definition parseLine :: "string \<Rightarrow> (item \<times> bool) option" where
  "parseLine line =
     (case unmarshal_map line of None \<Rightarrow> None
      | Some raw \<Rightarrow>
        (case parseTombstone raw of Some it \<Rightarrow> Some (it, True)
         | None \<Rightarrow>
           (case unmarshal_item line of None \<Rightarrow> None
            | Some it0 \<Rightarrow>
              (let it = EnsureArrayFields (legacy_type it0)
               in if ValidateItem it \<noteq> None then None else Some (it, False)))))"

subsection \<open>Reading\<close>

text \<open>\<open>less\<close> of the two sorts: by creation time, then by ID, both bytewise.\<close>

definition item_before :: "item \<Rightarrow> item \<Rightarrow> bool" where
  "item_before a b = (if Created a \<noteq> Created b then Created a < Created b else ID a < ID b)"

definition deduplicateAndSort :: "(string, item) gomap \<Rightarrow> item list" where
  "deduplicateAndSort items = insertion_sort item_before (map snd items)"

record read_state =
  rs_items :: "(string, item) gomap"
  rs_deleted :: "(string, bool) gomap"
  rs_skipped :: nat

record ReadItemsResult =
  Items :: "item list"
  DeletedIDs :: "(string, bool) gomap"
  SkippedCount :: nat

definition read_state0 :: read_state where
  "read_state0 = \<lparr>rs_items = [], rs_deleted = [], rs_skipped = 0\<rparr>"

definition read_line :: "read_state \<Rightarrow> string \<Rightarrow> read_state" where
  "read_line st l =
     (case parseLine l of
        None \<Rightarrow> st\<lparr>rs_skipped := rs_skipped st + 1\<rparr>
      | Some (it, True) \<Rightarrow>
          st\<lparr>rs_items := AList.delete (ID it) (rs_items st),
             rs_deleted := AList.update (ID it) True (rs_deleted st)\<rparr>
      | Some (it, False) \<Rightarrow> st\<lparr>rs_items := AList.update (ID it) it (rs_items st)\<rparr>)"

definition read_all :: "string list \<Rightarrow> read_state" where
  "read_all ls = foldl read_line read_state0 (content_lines ls)"

definition ReadItems :: "opened \<Rightarrow> store_error + ReadItemsResult" where
  "ReadItems f =
     (case f of
        NotExist \<Rightarrow> Inr \<lparr>Items = [], DeletedIDs = [], SkippedCount = 0\<rparr>
      | OpenFails \<Rightarrow> Inl StoreOpen
      | Opened s \<Rightarrow>
          (let (ls, long) = scan_lines s; st = read_all ls
           in if long then Inl StoreScan
              else Inr \<lparr>Items = deduplicateAndSort (rs_items st), DeletedIDs = rs_deleted st,
                        SkippedCount = rs_skipped st\<rparr>))"

subsection \<open>Appending\<close>

text \<open>
  The system calls of \<open>AppendItem\<close> can fail; a failing write may have written a prefix.
  \<open>file\<close> is the content of the lessons file, None when it does not exist.
\<close>

datatype append_fault = NoFault | MkdirFault | OpenFault | WriteFault nat

definition line_bytes :: "item \<Rightarrow> string" where
  "line_bytes it = item_line it @ [CHR 0x0A]"

definition file_text :: "string option \<Rightarrow> string" where
  "file_text f = (case f of None \<Rightarrow> [] | Some s \<Rightarrow> s)"

definition AppendItem :: "append_fault \<Rightarrow> string option \<Rightarrow> item \<Rightarrow> store_error option \<times> string option" where
  "AppendItem fault file it0 =
     (let it = EnsureArrayFields it0 in
      case fault of
        MkdirFault \<Rightarrow> (Some StoreMkdir, file)
      | OpenFault \<Rightarrow> (Some StoreOpen, file)
      | WriteFault n \<Rightarrow> (Some StoreWrite, Some (file_text file @ take n (line_bytes it)))
      | NoFault \<Rightarrow> (None, Some (file_text file @ line_bytes it)))"

definition open_file :: "string option \<Rightarrow> opened" where
  "open_file f = (case f of None \<Rightarrow> NotExist | Some s \<Rightarrow> Opened s)"

subsection \<open>Compaction\<close>

definition TombstoneThreshold :: nat where
  "TombstoneThreshold = 100"

record CompactResult =
  TombstonesRemoved :: nat
  LessonsRemaining :: nat
  DroppedInvalid :: nat

definition is_tombstone_line :: "string \<Rightarrow> bool" where
  "is_tombstone_line l = (case unmarshal_map l of None \<Rightarrow> False | Some raw \<Rightarrow> raw_deleted raw)"

text \<open>The count so far comes back with a scan error too.\<close>

definition CountTombstones :: "opened \<Rightarrow> nat \<times> store_error option" where
  "CountTombstones f =
     (case f of
        NotExist \<Rightarrow> (0, None)
      | OpenFails \<Rightarrow> (0, Some StoreOpen)
      | Opened s \<Rightarrow>
          (let (ls, long) = scan_lines s
           in (length (filter is_tombstone_line (content_lines ls)), if long then Some StoreScan else None)))"

definition NeedsCompaction :: "opened \<Rightarrow> bool \<times> store_error option" where
  "NeedsCompaction f =
     (case CountTombstones f of
        (n, Some e) \<Rightarrow> (False, Some e)
      | (n, None) \<Rightarrow> (TombstoneThreshold \<le> n, None))"

definition processCompactTombstone ::
    "(string \<times> json) list \<Rightarrow> (string, item) gomap \<Rightarrow> bool \<times> (string, item) gomap" where
  "processCompactTombstone raw m =
     (if \<not> raw_deleted raw then (False, m)
      else (True, if raw_id raw \<noteq> [] then AList.delete (raw_id raw) m else m))"

definition processCompactItem :: "string \<Rightarrow> (string, item) gomap \<Rightarrow> bool \<times> (string, item) gomap" where
  "processCompactItem line m =
     (case unmarshal_item line of None \<Rightarrow> (False, m)
      | Some it0 \<Rightarrow>
        (let it = legacy_type it0
         in if ValidateItem it \<noteq> None then (False, m) else (True, AList.update (ID it) it m)))"

definition compact_line ::
    "(string, item) gomap \<times> CompactResult \<Rightarrow> string \<Rightarrow> (string, item) gomap \<times> CompactResult" where
  "compact_line = (\<lambda>(m, r) l.
     case unmarshal_map l of None \<Rightarrow> (m, r)
     | Some raw \<Rightarrow>
       (let (tomb, m1) = processCompactTombstone raw m
        in if tomb then (m1, r\<lparr>TombstonesRemoved := TombstonesRemoved r + 1\<rparr>)
           else let (ok, m2) = processCompactItem l m1
                in (m2, if ok then r else r\<lparr>DroppedInvalid := DroppedInvalid r + 1\<rparr>)))"

definition compact_result0 :: CompactResult where
  "compact_result0 = \<lparr>TombstonesRemoved = 0, LessonsRemaining = 0, DroppedInvalid = 0\<rparr>"

definition parseCompactRecords ::
    "string \<Rightarrow> (store_error \<times> CompactResult) + ((string, item) gomap \<times> CompactResult)" where
  "parseCompactRecords s =
     (let (ls, long) = scan_lines s; (m, r) = foldl compact_line ([], compact_result0) (content_lines ls)
      in if long then Inl (StoreScan, r) else Inr (m, r))"

text \<open>
  The rewrite goes through a temporary file. \<open>fs_target\<close> is the lessons file, \<open>fs_temp\<close>
  the temporary one; \<open>fault\<close> says which system call fails, if any: the call number \<open>k\<close>
  of \<open>WriteAt k n\<close> is the number of lessons written before, \<open>n\<close> the bytes a failing write
  still wrote.
\<close>

record fs =
  fs_target :: "string option"
  fs_temp :: "string option"

datatype compact_fault = CNone | CMkdir | CTemp | CWrite nat nat | CSync | CClose | CRename

fun write_lessons :: "compact_fault \<Rightarrow> nat \<Rightarrow> item list \<Rightarrow> string \<Rightarrow> bool \<times> string" where
  "write_lessons fault k [] t = (True, t)"
| "write_lessons fault k (it # its) t =
     (case fault of
        CWrite k' n \<Rightarrow>
          if k = k' then (False, t @ take n (line_bytes it))
          else write_lessons fault (Suc k) its (t @ line_bytes it)
      | _ \<Rightarrow> write_lessons fault (Suc k) its (t @ line_bytes it))"

definition remove_temp :: "fs \<Rightarrow> fs" where
  "remove_temp d = d\<lparr>fs_temp := None\<rparr>"

definition writeCompactedFile :: "compact_fault \<Rightarrow> fs \<Rightarrow> item list \<Rightarrow> store_error option \<times> fs" where
  "writeCompactedFile fault d lessons =
     (if fault = CMkdir then (Some StoreMkdir, d)
      else if fault = CTemp then (Some StoreCreateTemp, d)
      else
        let (ok, t) = write_lessons fault 0 lessons []; d1 = d\<lparr>fs_temp := Some t\<rparr>
        in if \<not> ok then (Some StoreWrite, remove_temp d1)
           else if fault = CSync then (Some StoreSync, remove_temp d1)
           else if fault = CClose then (Some StoreClose, remove_temp d1)
           else if fault = CRename then (Some StoreRename, remove_temp d1)
           else (None, d1\<lparr>fs_target := fs_temp d1, fs_temp := None\<rparr>))"

definition Compact :: "compact_fault \<Rightarrow> bool \<Rightarrow> fs \<Rightarrow> (store_error option \<times> CompactResult) \<times> fs" where
  "Compact fault open_fails d =
     (if open_fails then ((Some StoreOpen, compact_result0), d)
      else case fs_target d of None \<Rightarrow> ((None, compact_result0), d)
      | Some s \<Rightarrow>
        (case parseCompactRecords s of
           Inl (e, r) \<Rightarrow> ((Some e, r), d)
         | Inr (m, r) \<Rightarrow>
             (let lessons = insertion_sort item_before (map snd m);
                  r1 = r\<lparr>LessonsRemaining := length lessons\<rparr>;
                  (err, d1) = writeCompactedFile fault d lessons
              in ((err, r1), d1))))"

subsection \<open>The scanner on appended lines\<close>

lemma split_on_app: "split_on c (s @ c # t) = split_on c s @ split_on c t"
proof (induction s)
  case Nil
  show ?case by simp
next
  case (Cons x s)
  then show ?case by (cases "split_on c s") auto
qed

text \<open>A file that is empty or ends with a newline.\<close>

definition terminated :: "string \<Rightarrow> bool" where
  "terminated s \<longleftrightarrow> s = [] \<or> last s = CHR 0x0A"

lemma terminated_append [simp]: "terminated (s @ l @ [CHR 0x0A])"
  by (simp add: terminated_def)

lemma raw_lines_line:
  assumes "CHR 0x0A \<notin> set l"
  shows "raw_lines (s @ CHR 0x0A # l @ [CHR 0x0A]) = split_on (CHR 0x0A) s @ [l]"
proof -
  have "split_on (CHR 0x0A) (l @ [CHR 0x0A]) = [l, []]"
    using split_on_append [OF assms, of "[]"] by simp
  then show ?thesis by (simp add: raw_lines_def split_on_app Let_def butlast_append)
qed

lemma raw_lines_append:
  assumes "terminated s" and "CHR 0x0A \<notin> set l"
  shows "raw_lines (s @ l @ [CHR 0x0A]) = raw_lines s @ [l]"
proof (cases s rule: rev_cases)
  case Nil
  then show ?thesis using split_on_append [OF assms(2), of "[]"] by (simp add: raw_lines_def)
next
  case (snoc s' c)
  with assms(1) have s: "s = s' @ CHR 0x0A # []" by (simp add: terminated_def)
  have "raw_lines s = split_on (CHR 0x0A) s'"
    by (simp add: raw_lines_def s split_on_app Let_def)
  then show ?thesis using raw_lines_line [OF assms(2), of s'] s by simp
qed

text \<open>A file whose lines all fit the buffer.\<close>

definition scannable :: "string \<Rightarrow> bool" where
  "scannable s \<longleftrightarrow> list_all (\<lambda>l. length l < max_token) (raw_lines s)"

lemma scan_lines_ok: "scannable s \<Longrightarrow> scan_lines s = (map drop_cr (raw_lines s), False)"
  unfolding scannable_def scan_lines_def Let_def list_all_iff
  by (simp add: takeWhile_eq_all_conv [THEN iffD2])

lemma scan_lines_flag: "snd (scan_lines s) = (\<not> scannable s)"
proof -
  have "length (takeWhile P xs) < length xs \<longleftrightarrow> \<not> list_all P xs" for P and xs :: "string list"
  proof -
    have "takeWhile P xs = xs \<longleftrightarrow> list_all P xs"
      by (simp add: takeWhile_eq_all_conv list_all_iff)
    moreover have "length (takeWhile P xs) < length xs \<longleftrightarrow> takeWhile P xs \<noteq> xs"
      by (metis length_takeWhile_le nat_less_le takeWhile_eq_take take_all_iff)
    ultimately show ?thesis by simp
  qed
  then show ?thesis by (simp add: scan_lines_def scannable_def Let_def)
qed

definition lines_of :: "string \<Rightarrow> string list" where
  "lines_of s = content_lines (fst (scan_lines s))"

lemma drop_cr_id: "l = [] \<or> last l \<noteq> CHR 0x0D \<Longrightarrow> drop_cr l = l"
  by (auto simp: drop_cr_def)

lemma lines_of_append:
  assumes "terminated s" and "scannable s" and "CHR 0x0A \<notin> set l" and "CHR 0x0D \<notin> set l"
    and "length l < max_token" and "trim_space l = l" and "l \<noteq> []"
  shows "lines_of (s @ l @ [CHR 0x0A]) = lines_of s @ [l]" and "scannable (s @ l @ [CHR 0x0A])"
proof -
  have r: "raw_lines (s @ l @ [CHR 0x0A]) = raw_lines s @ [l]" by (rule raw_lines_append [OF assms(1,3)])
  then show sc: "scannable (s @ l @ [CHR 0x0A])" using assms(2,5) by (simp add: scannable_def)
  have d: "drop_cr l = l" by (rule drop_cr_id) (metis assms(4) last_in_set)
  show "lines_of (s @ l @ [CHR 0x0A]) = lines_of s @ [l]"
    using scan_lines_ok [OF sc] scan_lines_ok [OF assms(2)] assms(6,7) d
    by (simp add: lines_of_def content_lines_def r)
qed

lemma lines_of_item:
  assumes "terminated s" and "scannable s" and "item_ok it" and "length (item_line it) < max_token"
  shows "lines_of (s @ line_bytes it) = lines_of s @ [item_line it]" and "scannable (s @ line_bytes it)"
    and "terminated (s @ line_bytes it)"
  using lines_of_append [OF assms(1,2) _ _ assms(4)] item_line_no_newline [OF assms(3)]
  by (auto simp: line_bytes_def)

lemma empty_file [simp]: "scannable []" "terminated []" "lines_of [] = []"
  by (simp_all add: scannable_def terminated_def lines_of_def scan_lines_def raw_lines_def content_lines_def)

text \<open>A whole file of marshalled items.\<close>

definition items_text :: "item list \<Rightarrow> string" where
  "items_text its = concat (map line_bytes its)"

lemma lines_of_items:
  assumes "\<forall>it \<in> set its. item_ok it \<and> length (item_line it) < max_token"
  shows "lines_of (items_text its) = map item_line its \<and> scannable (items_text its) \<and> terminated (items_text its)"
  using assms
proof (induction its rule: rev_induct)
  case Nil
  show ?case by (simp add: items_text_def)
next
  case (snoc it its)
  then have "lines_of (items_text its) = map item_line its" "scannable (items_text its)" "terminated (items_text its)"
    by simp_all
  with lines_of_item [of "items_text its" it] snoc.prems show ?case by (simp add: items_text_def)
qed

subsection \<open>The abstract store\<close>

text \<open>
  What a line means: it puts an item, deletes an ID, or means nothing. The abstract store
  is the map that the lines, applied in order, leave.
\<close>

datatype event = Put item | Del string | Skip

definition line_event :: "string \<Rightarrow> event" where
  "line_event l = (case parseLine l of None \<Rightarrow> Skip | Some (it, t) \<Rightarrow> if t then Del (ID it) else Put it)"

fun apply_event :: "(string \<rightharpoonup> item) \<Rightarrow> event \<Rightarrow> (string \<rightharpoonup> item)" where
  "apply_event m (Put it) = m(ID it \<mapsto> it)"
| "apply_event m (Del i) = m(i := None)"
| "apply_event m Skip = m"

definition lines_store :: "string list \<Rightarrow> (string \<rightharpoonup> item)" where
  "lines_store ls = foldl (\<lambda>m l. apply_event m (line_event l)) Map.empty ls"

definition file_store :: "string \<Rightarrow> (string \<rightharpoonup> item)" where
  "file_store s = lines_store (lines_of s)"

lemma lines_store_snoc [store_simps]: "lines_store (ls @ [l]) = apply_event (lines_store ls) (line_event l)"
  by (simp add: lines_store_def)

definition keyed :: "(string, item) gomap \<Rightarrow> bool" where
  "keyed m \<longleftrightarrow> gomap_ok m \<and> (\<forall>k it. map_of m k = Some it \<longrightarrow> ID it = k)"

lemma keyed_update: "keyed m \<Longrightarrow> keyed (AList.update (ID it) it m)"
  by (simp add: keyed_def)

lemma keyed_delete: "keyed m \<Longrightarrow> keyed (AList.delete k m)"
  by (simp add: keyed_def)

lemma keyed_Nil [simp]: "keyed []" by (simp add: keyed_def)

text \<open>The reader's loop computes the abstract store.\<close>

lemma read_line_store:
  "map_of (rs_items (read_line st l)) = apply_event (map_of (rs_items st)) (line_event l)"
  by (auto simp: read_line_def line_event_def split: option.split bool.split)

lemma read_line_keyed: "keyed (rs_items st) \<Longrightarrow> keyed (rs_items (read_line st l))"
  by (auto simp: read_line_def keyed_update keyed_delete split: option.split bool.split)

lemma read_all_store: "map_of (rs_items (foldl read_line read_state0 ls)) = lines_store ls"
  by (induction ls rule: rev_induct) (simp_all add: lines_store_def read_state0_def read_line_store)

lemma read_all_keyed: "keyed (rs_items (foldl read_line read_state0 ls))"
  by (induction ls rule: rev_induct) (simp_all add: read_state0_def read_line_keyed)

lemma line_event_valid: "line_event l = Put it \<Longrightarrow> ValidateItem it = None \<and> item_ok it"
proof -
  assume "line_event l = Put it"
  then have p: "parseLine l = Some (it, False)" by (auto simp: line_event_def split: option.splits if_splits)
  then obtain it0 where u: "unmarshal_item l = Some it0" and it: "it = EnsureArrayFields (legacy_type it0)"
      and v: "ValidateItem it = None"
    by (auto simp: parseLine_def Let_def split: option.splits if_splits)
  from u have "item_ok it0"
    by (auto simp: unmarshal_item_def split: option.splits intro: dec_item_ok json_parse_utf8)
  then have "item_ok (legacy_type it0)"
    by (simp add: legacy_type_def item_ok_def TypeLesson_def valid_utf8_lit byte_in_def)
  with it v show ?thesis by simp
qed

lemma lines_store_valid: "lines_store ls i = Some it \<Longrightarrow> ID it = i \<and> ValidateItem it = None \<and> item_ok it"
proof (induction ls arbitrary: it rule: rev_induct)
  case Nil
  then show ?case by (simp add: lines_store_def)
next
  case (snoc l ls)
  then show ?case
    by (cases "line_event l") (auto simp: lines_store_snoc dest: line_event_valid split: if_splits)
qed

subsection \<open>The line of an item\<close>

lemma raw_get_simps [simp]:
  "raw_get [] k' = None"
  "raw_get ((k, v) # ms) k' = (case raw_get ms k' of Some w \<Rightarrow> Some w | None \<Rightarrow> if k = k' then Some v else None)"
  "raw_get (a @ b) k' = (case raw_get b k' of Some w \<Rightarrow> Some w | None \<Rightarrow> raw_get a k')"
  "raw_get (j_opt k f x) k' = (if k = k' then map_option f x else None)"
  by (auto simp: raw_get_def map_add_def j_opt_def split: option.splits)

definition item_members :: "item \<Rightarrow> (string \<times> json) list" where
  "item_members it = (case enc_item it of JObj ms \<Rightarrow> ms | _ \<Rightarrow> [])"

lemma enc_item_members: "enc_item it = JObj (item_members it)"
  by (simp add: item_members_def enc_item_def)

lemma raw_item:
  "raw_get (item_members it) ''deleted'' = map_option JBool (Deleted it)"
  "raw_get (item_members it) ''id'' = Some (JStr (ID it))"
  by (simp_all add: item_members_def enc_item_def split: option.split)

lemma raw_item_deleted: "raw_deleted (item_members it) \<longleftrightarrow> Deleted it = Some True"
  by (auto simp: raw_deleted_def raw_item split: option.splits)

lemma raw_item_id: "raw_id (item_members it) = ID it"
  by (simp add: raw_id_def raw_item)

lemma unmarshal_item_line:
  assumes "item_ok it"
  shows "unmarshal_map (item_line it) = Some (item_members it)" and "unmarshal_item (item_line it) = Some it"
  using parse_item_line [OF assms] dec_enc_item [OF assms]
  by (simp_all add: unmarshal_map_def unmarshal_item_def enc_item_members)

lemma legacy_type_valid: "ValidateItem it = None \<Longrightarrow> legacy_type it = it"
  by (auto simp: ValidateItem_None legacy_type_def validTypes_def type_defs)

lemma parse_item_put:
  assumes "item_ok it" and "ValidateItem it = None" and "Deleted it \<noteq> Some True"
  shows "parseLine (item_line it) = Some (it, False)"
  using assms ValidateItem_Ensure [OF assms(2)]
  by (simp add: parseLine_def unmarshal_item_line parseTombstone_def raw_item_deleted legacy_type_valid Let_def)

lemma parse_item_tombstone:
  assumes "item_ok it" and "ID it \<noteq> []" and "Deleted it = Some True"
  shows "parseLine (item_line it) = Some (item0\<lparr>ID := ID it\<rparr>, True)"
  using assms by (simp add: parseLine_def unmarshal_item_line parseTombstone_def raw_item_deleted raw_item_id)

lemma item_event [store_simps]:
  assumes "item_ok it" and "ID it \<noteq> []"
  shows "Deleted it = Some True \<Longrightarrow> line_event (item_line it) = Del (ID it)"
    and "ValidateItem it = None \<Longrightarrow> Deleted it \<noteq> Some True \<Longrightarrow> line_event (item_line it) = Put it"
  using assms by (simp_all add: line_event_def parse_item_put parse_item_tombstone item0_def)

subsection \<open>What ReadItems returns\<close>

lemma item_before_weak: "strict_weak item_before"
  unfolding strict_weak_def item_before_def
  by (intro conjI allI impI) (auto split: if_splits intro: less_trans)

lemma item_before_total: "ID a \<noteq> ID b \<Longrightarrow> item_before a b \<or> item_before b a"
  by (auto simp: item_before_def)

definition sorted_items :: "item list \<Rightarrow> bool" where
  "sorted_items its \<longleftrightarrow> sorted_wrt item_before its"

lemma keyed_iff: "keyed m \<Longrightarrow> map_of m i = Some x \<longleftrightarrow> (i, x) \<in> set m"
  by (simp add: keyed_def map_of_eq_Some_iff)

lemma keyed_set:
  assumes "keyed m"
  shows "it \<in> set (map snd m) \<longleftrightarrow> map_of m (ID it) = Some it"
proof
  assume "it \<in> set (map snd m)"
  then obtain i where "map_of m i = Some it" using keyed_iff [OF assms] by auto
  with assms show "map_of m (ID it) = Some it" by (auto simp: keyed_def)
next
  assume "map_of m (ID it) = Some it"
  then have "(ID it, it) \<in> set m" by (rule map_of_SomeD)
  then show "it \<in> set (map snd m)" by force
qed

lemma keyed_distinct_ids: "keyed m \<Longrightarrow> distinct (map ID (map snd m))"
  by (rule gomap_values_distinct) (auto simp: keyed_def map_of_eq_Some_iff)

lemma set_dedup: "set (deduplicateAndSort m) = set (map snd m)"
  by (simp add: deduplicateAndSort_def)

lemma distinct_ids_dedup: "keyed m \<Longrightarrow> distinct (map ID (deduplicateAndSort m))"
  unfolding deduplicateAndSort_def by (simp add: gosort.slice_distinct_map keyed_distinct_ids del: map_map)

lemma sorted_wrt_strict:
  assumes "\<And>x y. f x \<noteq> f y \<Longrightarrow> R x y \<or> R y x"
  shows "sorted_wrt (\<lambda>x y. \<not> R y x) xs \<Longrightarrow> distinct (map f xs) \<Longrightarrow> sorted_wrt R xs"
  by (induction xs) (use assms in force)+

lemma sorted_dedup: "keyed m \<Longrightarrow> sorted_items (deduplicateAndSort m)"
proof -
  assume k: "keyed m"
  have "sorted_wrt (\<lambda>x y. \<not> item_before y x) (deduplicateAndSort m)"
    unfolding deduplicateAndSort_def by (rule gosort.slice_sorted [OF item_before_weak])
  with sorted_wrt_strict [of ID item_before] item_before_total distinct_ids_dedup [OF k]
  show "sorted_items (deduplicateAndSort m)"
    unfolding sorted_items_def by blast
qed

text \<open>
  The list that holds a store's items in order; there is only one, so neither the order in
  which Go iterates the map nor the sorting algorithm shows.
\<close>

definition lists_store :: "item list \<Rightarrow> (string \<rightharpoonup> item) \<Rightarrow> bool" where
  "lists_store its m \<longleftrightarrow> sorted_items its \<and> (\<forall>it. it \<in> set its \<longleftrightarrow> m (ID it) = Some it)"

lemma lists_store_dedup: "keyed m \<Longrightarrow> lists_store (deduplicateAndSort m) (map_of m)"
  by (simp only: lists_store_def sorted_dedup set_dedup keyed_set) simp

lemma sorted_items_distinct: "sorted_items its \<Longrightarrow> distinct its"
proof -
  have "\<not> item_before x x" for x by (simp add: item_before_def)
  then show "sorted_items its \<Longrightarrow> distinct its"
    unfolding sorted_items_def by (induction its) auto
qed

lemma lists_store_unique: "lists_store xs m \<Longrightarrow> lists_store ys m \<Longrightarrow> xs = ys"
proof (rule sorted_wrt_unique [where R = item_before])
  assume l: "lists_store xs m" "lists_store ys m"
  then show "sorted_wrt item_before xs" "sorted_wrt item_before ys"
    by (simp_all add: lists_store_def sorted_items_def)
  have "set xs = set ys" "distinct xs" "distinct ys"
    using l sorted_items_distinct by (auto simp: lists_store_def)
  then show "mset xs = mset ys" by (simp add: set_eq_iff_mset_eq_distinct)
next
  fix x y assume "item_before x y" "item_before y x"
  then show "x = y" using strict_weakD(4) [OF item_before_weak] by blast
qed

lemma ReadItems_store:
  assumes "scannable s"
  obtains r where "ReadItems (Opened s) = Inr r" and "lists_store (Items r) (file_store s)"
proof -
  let ?st = "read_all (fst (scan_lines s))"
  have st: "map_of (rs_items ?st) = file_store s" "keyed (rs_items ?st)"
    unfolding read_all_def file_store_def lines_of_def by (rule read_all_store, rule read_all_keyed)
  show ?thesis
  proof (rule that)
    show "ReadItems (Opened s) = Inr \<lparr>Items = deduplicateAndSort (rs_items ?st), DeletedIDs = rs_deleted ?st,
        SkippedCount = rs_skipped ?st\<rparr>"
      using scan_lines_ok [OF assms] by (simp add: ReadItems_def Let_def)
    show "lists_store (Items \<lparr>Items = deduplicateAndSort (rs_items ?st), DeletedIDs = rs_deleted ?st,
        SkippedCount = rs_skipped ?st\<rparr>) (file_store s)"
      using lists_store_dedup [OF st(2)] st(1) by simp
  qed
qed

lemma ReadItems_too_long: "\<not> scannable s \<Longrightarrow> ReadItems (Opened s) = Inl StoreScan"
  using scan_lines_flag [of s] by (simp add: ReadItems_def Let_def split_beta)

subsection \<open>The compactor as a reader\<close>

text \<open>What a line means to \<open>parseCompactRecords\<close>.\<close>

definition compact_event :: "string \<Rightarrow> event" where
  "compact_event l =
     (case unmarshal_map l of None \<Rightarrow> Skip
      | Some raw \<Rightarrow>
        if raw_deleted raw then (if raw_id raw \<noteq> [] then Del (raw_id raw) else Skip)
        else (case unmarshal_item l of None \<Rightarrow> Skip
              | Some it \<Rightarrow> if ValidateItem (legacy_type it) = None then Put (legacy_type it) else Skip))"

lemma compact_line_store:
  "map_of (fst (compact_line (m, r) l)) = apply_event (map_of m) (compact_event l)"
  by (simp add: compact_line_def compact_event_def processCompactTombstone_def processCompactItem_def Let_def
      split: option.split)

lemma compact_line_keyed: "keyed m \<Longrightarrow> keyed (fst (compact_line (m, r) l))"
  by (simp add: compact_line_def processCompactTombstone_def processCompactItem_def Let_def
      keyed_update keyed_delete split: option.split)

definition compact_fold :: "string list \<Rightarrow> (string, item) gomap \<times> CompactResult" where
  "compact_fold ls = foldl compact_line ([], compact_result0) ls"

lemma compact_fold_snoc: "compact_fold (ls @ [l]) = compact_line (compact_fold ls) l"
  by (simp add: compact_fold_def)

lemma compact_fold_keyed: "keyed (fst (compact_fold ls))"
proof (induction ls rule: rev_induct)
  case (snoc l ls)
  then show ?case using compact_line_keyed [of "fst (compact_fold ls)" "snd (compact_fold ls)" l]
    by (simp add: compact_fold_snoc)
qed (simp add: compact_fold_def)

text \<open>
  The lines on which reader and compactor agree: a tombstone names its ID under the exact
  key, any other record has no nil array (the reader normalises them before it validates,
  the compactor does not) and is not marked deleted under another spelling of the key.
\<close>

definition plain_line :: "string \<Rightarrow> bool" where
  "plain_line l =
     (case unmarshal_map l of None \<Rightarrow> True
      | Some raw \<Rightarrow>
        if raw_deleted raw then raw_id raw \<noteq> []
        else (case unmarshal_item l of None \<Rightarrow> True
              | Some it \<Rightarrow> Tags it \<noteq> None \<and> Supersedes it \<noteq> None \<and> Related it \<noteq> None \<and> Deleted it \<noteq> Some True))"

lemma legacy_sel [simp]:
  "Tags (legacy_type it) = Tags it" "Supersedes (legacy_type it) = Supersedes it" "Related (legacy_type it) = Related it"
  "Deleted (legacy_type it) = Deleted it" "ID (legacy_type it) = ID it"
  by (simp_all add: legacy_type_def)

lemma compact_event_plain: "plain_line l \<Longrightarrow> compact_event l = line_event l"
proof (cases "unmarshal_map l")
  case None
  then show ?thesis by (simp add: compact_event_def line_event_def parseLine_def)
next
  case (Some raw)
  assume p: "plain_line l"
  show ?thesis
  proof (cases "raw_deleted raw")
    case True
    with p Some show ?thesis
      by (simp add: compact_event_def line_event_def parseLine_def plain_line_def parseTombstone_def)
  next
    case False
    with p Some show ?thesis
      by (auto simp: compact_event_def line_event_def parseLine_def plain_line_def parseTombstone_def Let_def
          EnsureArrayFields_id split: option.split)
  qed
qed

lemma plain_event_live: "plain_line l \<Longrightarrow> line_event l = Put it \<Longrightarrow> Deleted it \<noteq> Some True"
  by (auto simp: line_event_def parseLine_def plain_line_def parseTombstone_def Let_def
      split: option.splits if_splits)

lemma lines_store_live:
  "list_all plain_line ls \<Longrightarrow> lines_store ls i = Some it \<Longrightarrow> Deleted it \<noteq> Some True"
proof (induction ls arbitrary: it rule: rev_induct)
  case Nil
  then show ?case by (simp add: lines_store_def)
next
  case (snoc l ls)
  then show ?case
    by (cases "line_event l") (auto simp: lines_store_snoc dest: plain_event_live split: if_splits)
qed

lemma compact_fold_store:
  "list_all plain_line ls \<Longrightarrow> map_of (fst (compact_fold ls)) = lines_store ls"
proof (induction ls rule: rev_induct)
  case Nil
  then show ?case by (simp add: compact_fold_def lines_store_def)
next
  case (snoc l ls)
  then show ?case
    using compact_line_store [of "fst (compact_fold ls)" "snd (compact_fold ls)" l]
    by (simp add: compact_fold_snoc lines_store_snoc compact_event_plain)
qed

subsection \<open>Rewriting the file\<close>

lemma write_lessons_text:
  "write_lessons fault k its t = (True, t') \<Longrightarrow> t' = t @ items_text its"
  by (induction fault k its t rule: write_lessons.induct)
    (auto simp: items_text_def split: compact_fault.splits if_splits)

lemma write_lessons_ok: "(\<And>k' n. fault \<noteq> CWrite k' n) \<Longrightarrow> write_lessons fault k its t = (True, t @ items_text its)"
  by (induction fault k its t rule: write_lessons.induct)
    (auto simp: items_text_def split: compact_fault.splits)

lemma writeCompacted_ok:
  "writeCompactedFile CNone d its = (None, \<lparr>fs_target = Some (items_text its), fs_temp = None\<rparr>)"
  using write_lessons_ok [of CNone 0 its "[]"] by (cases d) (simp add: writeCompactedFile_def Let_def)

lemma writeCompacted_cases:
  assumes "writeCompactedFile fault d its = (err, d')"
  shows "(err = None \<and> fs_target d' = Some (items_text its) \<and> fs_temp d' = None) \<or>
     (err \<noteq> None \<and> fs_target d' = fs_target d \<and> (fs_temp d' = None \<or> fs_temp d' = fs_temp d))"
  using assms write_lessons_text [of fault 0 its "[]"]
  by (auto simp: writeCompactedFile_def remove_temp_def Let_def split: prod.splits if_splits)

text \<open>The text of the items of a store, read back.\<close>

definition short_item :: "item \<Rightarrow> bool" where
  "short_item it \<longleftrightarrow> length (item_line it) < max_token"

lemma items_text_store:
  assumes "\<forall>it \<in> set its. item_ok it \<and> ValidateItem it = None \<and> Deleted it \<noteq> Some True \<and> short_item it"
    and "distinct (map ID its)"
  shows "scannable (items_text its)" and "terminated (items_text its)"
    and "file_store (items_text its) i = Some it \<longleftrightarrow> it \<in> set its \<and> ID it = i"
    and "length (filter is_tombstone_line (lines_of (items_text its))) = 0"
proof -
  have l: "lines_of (items_text its) = map item_line its" and "scannable (items_text its)" "terminated (items_text its)"
    using lines_of_items [of its] assms(1) by (auto simp: short_item_def)
  then show "scannable (items_text its)" "terminated (items_text its)" by simp_all
  have ev: "line_event (item_line it) = Put it" if "it \<in> set its" for it
    using assms(1) that item_event(2) [of it] by (auto simp: ValidateItem_None)
  have "lines_store (map item_line js) i = Some it \<longleftrightarrow> it \<in> set js \<and> ID it = i"
    if "set js \<subseteq> set its" "distinct (map ID js)" for js
    using that
  proof (induction js arbitrary: it i rule: rev_induct)
    case Nil
    show ?case by (simp add: lines_store_def)
  next
    case (snoc j js)
    then have "line_event (item_line j) = Put j" by (intro ev) simp
    with snoc show ?case by (auto simp: lines_store_snoc) (metis imageI)
  qed
  with l assms(2) show "file_store (items_text its) i = Some it \<longleftrightarrow> it \<in> set its \<and> ID it = i"
    by (simp add: file_store_def)
  have "\<not> is_tombstone_line (item_line it)" if "it \<in> set its" for it
    using assms(1) that by (simp add: is_tombstone_line_def unmarshal_item_line raw_item_deleted)
  with l show "length (filter is_tombstone_line (lines_of (items_text its))) = 0"
    by (simp add: filter_empty_conv)
qed

definition plain_file :: "string \<Rightarrow> bool" where
  "plain_file s \<longleftrightarrow> scannable s \<and> list_all plain_line (lines_of s) \<and>
     (\<forall>it \<in> ran (file_store s). short_item it)"

text \<open>The lessons that a plain file leaves, in order.\<close>

lemma Compact_plain:
  assumes "plain_file s" and "fs_target d = Some s"
  obtains its r where "Compact CNone False d = ((None, r), \<lparr>fs_target = Some (items_text its), fs_temp = None\<rparr>)"
    and "lists_store its (file_store s)" and "LessonsRemaining r = length its"
    and "\<forall>it \<in> set its. item_ok it \<and> ValidateItem it = None \<and> Deleted it \<noteq> Some True \<and> short_item it"
proof -
  from assms(1) have sc: "scannable s" and pl: "list_all plain_line (lines_of s)"
    and sh: "\<forall>it \<in> ran (file_store s). short_item it" by (simp_all add: plain_file_def)
  obtain m r where mr: "compact_fold (lines_of s) = (m, r)" by fastforce
  have m: "keyed m" "map_of m = file_store s"
    using compact_fold_keyed [of "lines_of s"] compact_fold_store [OF pl] mr by (simp_all add: file_store_def)
  have pc: "parseCompactRecords s = Inr (m, r)"
    using mr scan_lines_ok [OF sc] by (simp add: parseCompactRecords_def lines_of_def compact_fold_def Let_def)
  let ?its = "insertion_sort item_before (map snd m)"
  have ls: "lists_store ?its (file_store s)"
    using lists_store_dedup [OF m(1)] m(2) by (simp add: deduplicateAndSort_def)
  show ?thesis
  proof (rule that [of "r\<lparr>LessonsRemaining := length ?its\<rparr>" ?its])
    show "Compact CNone False d = ((None, r\<lparr>LessonsRemaining := length ?its\<rparr>),
        \<lparr>fs_target = Some (items_text ?its), fs_temp = None\<rparr>)"
      using assms(2) pc writeCompacted_ok [of d ?its] by (simp add: Compact_def Let_def)
    show "lists_store ?its (file_store s)" by (rule ls)
    show "\<forall>it \<in> set ?its. item_ok it \<and> ValidateItem it = None \<and> Deleted it \<noteq> Some True \<and> short_item it"
    proof
      fix it assume "it \<in> set ?its"
      then have st: "file_store s (ID it) = Some it" using ls unfolding lists_store_def by blast
      then show "item_ok it \<and> ValidateItem it = None \<and> Deleted it \<noteq> Some True \<and> short_item it"
        using lines_store_valid [of "lines_of s" "ID it" it] lines_store_live [OF pl] sh
        by (auto simp: file_store_def ran_def)
    qed
  qed simp
qed

subsection \<open>Properties\<close>

definition sample_item :: item where
  "sample_item = item0\<lparr>ID := ''L1'', Type := ''lesson'', Trigger := ''t'', Insight := ''use <b>'',
     Source := ''manual'', Created := ''2024-01-02''\<rparr>"

lemma sample_ok: "item_ok sample_item" "ValidateItem (EnsureArrayFields sample_item) = None"
  "Deleted sample_item = None" "ID sample_item = ''L1''"
  by code_simp+

lemma short_itemI: "length (item_line it) < 900 \<Longrightarrow> short_item it"
  by (simp add: short_item_def max_token_def)

lemma sample_short: "short_item (EnsureArrayFields sample_item)"
  by (rule short_itemI) code_simp

text \<open>C1: A record that \<open>AppendItem\<close> writes is what the next \<open>ReadItems\<close> sees: on a readable file
  that ends with a newline, appending a valid item that is not marked deleted leaves a readable
  file, and \<open>ReadItems\<close> returns the sorted items of the old store with the appended item, its nil
  arrays normalised, in the place of any item of the same ID.\<close>

theorem AppendItem_ReadItems:
  assumes "terminated s" and "scannable s" and "item_ok it" and "ValidateItem (EnsureArrayFields it) = None"
    and "Deleted it \<noteq> Some True" and "short_item (EnsureArrayFields it)"
  shows "\<exists>s' r. AppendItem NoFault (Some s) it = (None, Some s') \<and> terminated s' \<and>
     ReadItems (Opened s') = Inr r \<and>
     lists_store (Items r) ((file_store s)(ID it \<mapsto> EnsureArrayFields it))"
proof -
  let ?it = "EnsureArrayFields it" and ?s' = "s @ line_bytes (EnsureArrayFields it)"
  have l: "lines_of ?s' = lines_of s @ [item_line ?it]" and sc: "scannable ?s'" and tm: "terminated ?s'"
    using lines_of_item [OF assms(1,2), of ?it] assms(3,6) by (simp_all add: short_item_def)
  have "line_event (item_line ?it) = Put ?it"
    using assms(3-5) by (intro item_event(2)) (simp_all add: ValidateItem_None)
  then have "file_store ?s' = (file_store s)(ID it \<mapsto> ?it)"
    by (simp add: file_store_def l lines_store_snoc)
  moreover obtain r where "ReadItems (Opened ?s') = Inr r" "lists_store (Items r) (file_store ?s')"
    using ReadItems_store [OF sc] by blast
  ultimately show ?thesis using tm by (auto simp: AppendItem_def file_text_def)
qed

theorem AppendItem_ReadItems_witness:
  "\<exists>s' r. AppendItem NoFault (Some []) sample_item = (None, Some s') \<and> terminated s' \<and>
     ReadItems (Opened s') = Inr r \<and>
     lists_store (Items r) ((file_store [])(ID sample_item \<mapsto> EnsureArrayFields sample_item))"
  using AppendItem_ReadItems [of "[]" sample_item] sample_ok sample_short by simp

text \<open>C40: What readers get is well-formed. Whatever bytes are in the lessons file, as long as no line exceeds the scanner's buffer,
  \<open>ReadItems\<close> succeeds and every item it returns passes \<open>ValidateItem\<close>, holds only UTF-8 strings and integers of their
  width, and no two items have the same identifier.\<close>

theorem ReadItems_typed:
  assumes "scannable s"
  shows "\<exists>r. ReadItems (Opened s) = Inr r \<and> list_all (\<lambda>it. ValidateItem it = None \<and> item_ok it) (Items r) \<and>
     distinct (map ID (Items r))"
proof -
  obtain r where r: "ReadItems (Opened s) = Inr r" "lists_store (Items r) (file_store s)"
    using ReadItems_store [OF assms] by blast
  have "ValidateItem it = None \<and> item_ok it" if "it \<in> set (Items r)" for it
    using r(2) that lines_store_valid unfolding lists_store_def file_store_def by blast
  moreover have "inj_on ID (set (Items r))" using r(2) by (auto simp: lists_store_def inj_on_def)
  moreover have "distinct (Items r)" using r(2) sorted_items_distinct by (simp add: lists_store_def)
  ultimately show ?thesis using r(1) by (auto simp: list_all_iff distinct_map)
qed

theorem ReadItems_typed_witness:
  "\<exists>r. ReadItems (Opened (line_bytes (EnsureArrayFields sample_item))) = Inr r \<and>
     list_all (\<lambda>it. ValidateItem it = None \<and> item_ok it) (Items r) \<and> distinct (map ID (Items r))"
  by (rule ReadItems_typed)
    (use lines_of_item(2) [of "[]" "EnsureArrayFields sample_item"] sample_ok sample_short in \<open>simp add: short_item_def\<close>)

text \<open>Deleting works by appending: when the appended item carries \<open>deleted: true\<close>, the next
  \<open>ReadItems\<close> returns the old store without that ID, whatever the item's other fields are.\<close>

theorem AppendItem_tombstone:
  assumes "terminated s" and "scannable s" and "item_ok it" and "ID it \<noteq> []"
    and "Deleted it = Some True" and "short_item (EnsureArrayFields it)"
  shows "\<exists>s' r. AppendItem NoFault (Some s) it = (None, Some s') \<and> terminated s' \<and>
     ReadItems (Opened s') = Inr r \<and> lists_store (Items r) ((file_store s)(ID it := None))"
proof -
  let ?it = "EnsureArrayFields it" and ?s' = "s @ line_bytes (EnsureArrayFields it)"
  have l: "lines_of ?s' = lines_of s @ [item_line ?it]" and sc: "scannable ?s'" and tm: "terminated ?s'"
    using lines_of_item [OF assms(1,2), of ?it] assms(3,6) by (simp_all add: short_item_def)
  have "line_event (item_line ?it) = Del (ID it)"
    using item_event(1) [of ?it] assms(3-5) by simp
  then have "file_store ?s' = (file_store s)(ID it := None)"
    by (simp add: file_store_def l lines_store_snoc)
  moreover obtain r where "ReadItems (Opened ?s') = Inr r" "lists_store (Items r) (file_store ?s')"
    using ReadItems_store [OF sc] by blast
  ultimately show ?thesis using tm by (auto simp: AppendItem_def file_text_def)
qed

lemma sample_tomb: "short_item (EnsureArrayFields (sample_item\<lparr>Deleted := Some True\<rparr>))"
  "item_ok (sample_item\<lparr>Deleted := Some True\<rparr>)"
  by (rule short_itemI, code_simp) code_simp

theorem AppendItem_tombstone_witness:
  "\<exists>s' r. AppendItem NoFault (Some []) (sample_item\<lparr>Deleted := Some True\<rparr>) = (None, Some s') \<and> terminated s' \<and>
     ReadItems (Opened s') = Inr r \<and>
     lists_store (Items r) ((file_store [])(ID (sample_item\<lparr>Deleted := Some True\<rparr>) := None))"
  using AppendItem_tombstone [of "[]" "sample_item\<lparr>Deleted := Some True\<rparr>"] sample_ok(4) sample_tomb by simp

text \<open>C35: The list that \<open>ReadItems\<close> returns does not depend on the order in which Go iterates the map of
  items, nor on which sorting algorithm \<open>sort.Slice\<close> uses: any permutation of the entries, sorted by
  any function with the contract of \<open>sort.Slice\<close>, gives the same list.\<close>

theorem ReadItems_deterministic:
  assumes "slice_sort srt" and "mset entries = mset (rs_items (read_all ls))"
  shows "srt item_before (map snd entries) = deduplicateAndSort (rs_items (read_all ls))"
proof -
  have k: "keyed (rs_items (read_all ls))" unfolding read_all_def by (rule read_all_keyed)
  have ms: "mset (map snd entries) = mset (map snd (rs_items (read_all ls)))" by (simp add: assms(2))
  have "inj_on ID (set (map snd entries))"
    using keyed_distinct_ids [OF k] unfolding mset_eq_setD [OF ms] distinct_map by blast
  then show ?thesis unfolding deduplicateAndSort_def
    by (intro slice_sort_determined [OF assms(1) item_before_weak ms])
      (meson inj_onD item_before_total)
qed

theorem ReadItems_deterministic_witness:
  "insertion_sort item_before (map snd (rev (rs_items (read_all [])))) = deduplicateAndSort (rs_items (read_all []))"
  by (rule ReadItems_deterministic [OF gosort.slice_sort_axioms]) simp

lemma map_SomeI: "(\<And>i x. f i = Some x \<longleftrightarrow> g i = Some x) \<Longrightarrow> f = g"
  by (rule ext) (metis option.exhaust)

text \<open>C6: Compaction keeps the store: on a plain file it succeeds, the rewritten file is readable, holds
  exactly the items the old one held, contains no tombstone, and \<open>LessonsRemaining\<close> is their
  number.\<close>

theorem Compact_keeps_store:
  assumes "plain_file s" and "fs_target d = Some s"
  shows "\<exists>r s'. Compact CNone False d = ((None, r), \<lparr>fs_target = Some s', fs_temp = None\<rparr>) \<and>
     file_store s' = file_store s \<and> scannable s' \<and> terminated s' \<and>
     CountTombstones (Opened s') = (0, None) \<and> LessonsRemaining r = card (dom (file_store s))"
proof -
  obtain its r where
    c: "Compact CNone False d = ((None, r), \<lparr>fs_target = Some (items_text its), fs_temp = None\<rparr>)" and
    ls: "lists_store its (file_store s)" and n: "LessonsRemaining r = length its" and
    ok: "\<forall>it \<in> set its. item_ok it \<and> ValidateItem it = None \<and> Deleted it \<noteq> Some True \<and> short_item it"
    by (rule Compact_plain [OF assms])
  have key: "file_store s i = Some it \<Longrightarrow> ID it = i" for i it
    using lines_store_valid by (auto simp: file_store_def)
  have mem: "it \<in> set its \<longleftrightarrow> file_store s (ID it) = Some it" for it
    using ls by (simp add: lists_store_def)
  have inj: "inj_on ID (set its)"
    by (rule inj_onI) (metis mem option.inject)
  have d: "distinct (map ID its)"
    unfolding distinct_map using inj sorted_items_distinct ls by (metis lists_store_def)
  note t = items_text_store [OF ok d]
  have fs: "file_store (items_text its) = file_store s"
    by (rule map_SomeI) (metis t(3) mem key)
  have dom: "dom (file_store s) = ID ` set its"
    unfolding dom_def by (intro set_eqI iffI) (use mem key in blast)+
  have "CountTombstones (Opened (items_text its)) = (0, None)"
    using t(4) scan_lines_ok [OF t(1)] by (simp add: CountTombstones_def lines_of_def)
  moreover have "length its = card (dom (file_store s))"
    using d dom distinct_card [of "map ID its"] by simp
  ultimately show ?thesis
    by (intro exI [of _ r] exI [of _ "items_text its"]) (simp only: c t(1,2) fs n simp_thms)
qed

lemma sample_plain: "plain_file (line_bytes (EnsureArrayFields sample_item))"
proof -
  let ?it = "EnsureArrayFields sample_item"
  have l: "lines_of (line_bytes ?it) = [item_line ?it]" and sc: "scannable (line_bytes ?it)"
    using lines_of_item [of "[]" ?it] sample_ok sample_short by (simp_all add: short_item_def)
  have "plain_line (item_line ?it)"
    using sample_ok by (simp add: plain_line_def unmarshal_item_line raw_item_deleted)
  moreover have "line_event (item_line ?it) = Put ?it"
    using sample_ok by (intro item_event(2)) (simp_all add: ValidateItem_None)
  ultimately show ?thesis using l sc sample_short
    by (simp add: plain_file_def file_store_def lines_store_def)
qed

theorem Compact_keeps_store_witness:
  "\<exists>r s'. Compact CNone False \<lparr>fs_target = Some (line_bytes (EnsureArrayFields sample_item)), fs_temp = None\<rparr> =
       ((None, r), \<lparr>fs_target = Some s', fs_temp = None\<rparr>) \<and>
     file_store s' = file_store (line_bytes (EnsureArrayFields sample_item)) \<and> scannable s' \<and> terminated s' \<and>
     CountTombstones (Opened s') = (0, None) \<and>
     LessonsRemaining r = card (dom (file_store (line_bytes (EnsureArrayFields sample_item))))"
  by (rule Compact_keeps_store [OF sample_plain]) simp

text \<open>Compaction is idempotent: compacting the compacted file again succeeds and leaves the very same
  bytes.\<close>

theorem Compact_idempotent:
  assumes "plain_file s" and "Compact CNone False \<lparr>fs_target = Some s, fs_temp = None\<rparr> = ((None, r), d1)"
  shows "\<exists>r'. Compact CNone False d1 = ((None, r'), d1)"
proof -
  obtain its r1 where
    c: "Compact CNone False \<lparr>fs_target = Some s, fs_temp = None\<rparr> = ((None, r1), \<lparr>fs_target = Some (items_text its), fs_temp = None\<rparr>)"
    and ls: "lists_store its (file_store s)" and
    ok: "\<forall>it \<in> set its. item_ok it \<and> ValidateItem it = None \<and> Deleted it \<noteq> Some True \<and> short_item it"
    by (rule Compact_plain [OF assms(1), of "\<lparr>fs_target = Some s, fs_temp = None\<rparr>"]) simp_all
  have mem: "it \<in> set its \<longleftrightarrow> file_store s (ID it) = Some it" for it
    using ls by (simp add: lists_store_def)
  have inj: "inj_on ID (set its)"
    by (rule inj_onI) (metis mem option.inject)
  have d: "distinct (map ID its)"
    unfolding distinct_map using inj sorted_items_distinct ls by (metis lists_store_def)
  note t = items_text_store [OF ok d]
  have l: "lines_of (items_text its) = map item_line its"
    using lines_of_items [of its] ok by (simp add: short_item_def)
  have "plain_file (items_text its)"
    unfolding plain_file_def
  proof (intro conjI)
    show "list_all plain_line (lines_of (items_text its))"
      using ok by (auto simp: l list_all_iff plain_line_def unmarshal_item_line raw_item_deleted ValidateItem_None)
    show "\<forall>it \<in> ran (file_store (items_text its)). short_item it"
      using t(3) ok by (auto simp: ran_def)
  qed (rule t(1))
  then obtain its2 r2 where
    c2: "Compact CNone False \<lparr>fs_target = Some (items_text its), fs_temp = None\<rparr> = ((None, r2), \<lparr>fs_target = Some (items_text its2), fs_temp = None\<rparr>)"
    and ls2: "lists_store its2 (file_store (items_text its))"
    by (rule Compact_plain [of _ "\<lparr>fs_target = Some (items_text its), fs_temp = None\<rparr>"]) simp_all
  have "file_store (items_text its) = file_store s"
    by (rule map_SomeI) (metis t(3) mem lines_store_valid file_store_def)
  with ls2 ls have "its2 = its" using lists_store_unique by simp
  with c c2 assms(2) show ?thesis by auto
qed

theorem Compact_idempotent_witness:
  "\<exists>r1 d1 r'. Compact CNone False \<lparr>fs_target = Some (line_bytes (EnsureArrayFields sample_item)), fs_temp = None\<rparr> = ((None, r1), d1) \<and>
     Compact CNone False d1 = ((None, r'), d1)"
proof -
  obtain its r where "Compact CNone False \<lparr>fs_target = Some (line_bytes (EnsureArrayFields sample_item)), fs_temp = None\<rparr> =
      ((None, r), \<lparr>fs_target = Some (items_text its), fs_temp = None\<rparr>)"
    by (rule Compact_plain [OF sample_plain, of "\<lparr>fs_target = Some (line_bytes (EnsureArrayFields sample_item)), fs_temp = None\<rparr>"]) simp_all
  with Compact_idempotent [OF sample_plain this] show ?thesis by blast
qed

text \<open>C34: Compaction is atomic: whatever system call fails, and however much of a line a failing write
  has written, the lessons file is either untouched or completely rewritten, it is rewritten only
  when no error is returned, and no temporary file stays behind.\<close>

theorem Compact_atomic:
  assumes "Compact fault open_fails d = ((err, r), d')" and "fs_temp d = None"
  shows "fs_temp d' = None \<and>
     (err \<noteq> None \<longrightarrow> fs_target d' = fs_target d) \<and>
     (err = None \<longrightarrow> fs_target d' = fs_target d \<and> fs_target d = None \<or>
        (\<exists>s m. fs_target d = Some s \<and> parseCompactRecords s = Inr m \<and>
          fs_target d' = Some (items_text (deduplicateAndSort (fst m)))))"
proof (cases "open_fails \<or> fs_target d = None")
  case True
  with assms show ?thesis by (auto simp: Compact_def split: if_splits)
next
  case False
  then obtain s where s: "fs_target d = Some s" and o: "\<not> open_fails" by auto
  show ?thesis
  proof (cases "parseCompactRecords s")
    case (Inl e)
    with assms s o show ?thesis by (cases e) (auto simp: Compact_def)
  next
    case (Inr mr)
    obtain m r0 where mr: "mr = (m, r0)" by (cases mr)
    obtain e d1 where w: "writeCompactedFile fault d (insertion_sort item_before (map snd m)) = (e, d1)" by fastforce
    from assms(1) s o Inr mr w have "err = e" "d' = d1" by (simp_all add: Compact_def Let_def)
    with writeCompacted_cases [OF w] assms(2) s Inr mr show ?thesis
      by (auto simp: deduplicateAndSort_def)
  qed
qed

theorem Compact_atomic_witness:
  "\<exists>err r d'. Compact CSync False \<lparr>fs_target = Some [], fs_temp = None\<rparr> = ((err, r), d') \<and> fs_temp d' = None \<and>
     (err \<noteq> None \<longrightarrow> fs_target d' = Some [])"
proof -
  obtain err r d' where c: "Compact CSync False \<lparr>fs_target = Some [], fs_temp = None\<rparr> = ((err, r), d')"
    by (metis prod.exhaust)
  from Compact_atomic [OF c] c show ?thesis by auto
qed

text \<open>An item whose line does not fit the scanner's buffer makes the store unreadable: \<open>AppendItem\<close>
  writes it without an error, and from then on \<open>ReadItems\<close> fails with a scan error and
  \<open>NeedsCompaction\<close> does too.\<close>

theorem AppendItem_long_line:
  assumes "terminated s" and "item_ok it" and "max_token \<le> length (item_line (EnsureArrayFields it))"
  shows "\<exists>s'. AppendItem NoFault (Some s) it = (None, Some s') \<and> ReadItems (Opened s') = Inl StoreScan \<and>
     NeedsCompaction (Opened s') = (False, Some StoreScan)"
proof -
  let ?l = "item_line (EnsureArrayFields it)"
  have "raw_lines (s @ ?l @ [CHR 0x0A]) = raw_lines s @ [?l]"
    using item_line_no_newline [of "EnsureArrayFields it"] assms(2) by (intro raw_lines_append [OF assms(1)]) simp
  with assms(3) have ns: "\<not> scannable (s @ line_bytes (EnsureArrayFields it))"
    by (simp add: scannable_def line_bytes_def)
  then have "NeedsCompaction (Opened (s @ line_bytes (EnsureArrayFields it))) = (False, Some StoreScan)"
    using scan_lines_flag [of "s @ line_bytes (EnsureArrayFields it)"]
    by (simp add: NeedsCompaction_def CountTombstones_def split_beta)
  with ReadItems_too_long [OF ns] show ?thesis by (simp add: AppendItem_def file_text_def)
qed

lemma esc_letters: "esc (replicate n (CHR ''a'')) = replicate n (CHR ''a'')"
proof (induction n)
  case 0
  show ?case by (simp add: esc.simps)
next
  case (Suc n)
  have "rune_width (CHR ''a'' # replicate n (CHR ''a'')) = 1" by (simp add: rune_width_ascii byte_in_def)
  then show ?case using Suc
    by (subst esc.simps) (simp add: Let_def esc_rune_def esc_ascii_def less_char_def)
qed

lemma long_item_line:
  assumes "Insight it = replicate n (CHR ''a'')"
  shows "n \<le> length (item_line it)"
  by (simp add: item_line_def marshal_def enc_item_def jstr_def assms esc_letters)

definition long_item :: item where
  "long_item = sample_item\<lparr>Insight := replicate max_token (CHR ''a'')\<rparr>"

lemma long_item_ok: "item_ok long_item"
proof -
  have "valid_utf8 (replicate n (CHR ''a''))" for n
    by (rule valid_utf8_ascii) (simp add: list_all_iff byte_in_def)
  then show ?thesis using sample_ok(1) by (simp add: long_item_def item_ok_def)
qed

theorem AppendItem_long_line_witness:
  "\<exists>s'. AppendItem NoFault (Some []) long_item = (None, Some s') \<and> ReadItems (Opened s') = Inl StoreScan \<and>
     NeedsCompaction (Opened s') = (False, Some StoreScan)"
  using AppendItem_long_line [of "[]" long_item] long_item_ok
    long_item_line [of "EnsureArrayFields long_item" max_token] by (simp add: long_item_def)

text \<open>A legacy record with a null array is valid for the reader but not for the compactor, which loses
  it: \<open>ReadItems\<close> returns it with empty arrays, while \<open>Compact\<close> counts it as invalid and leaves an
  empty file.\<close>

theorem Compact_drops_legacy:
  assumes "item_ok it" and "ValidateItem (EnsureArrayFields it) = None" and "Deleted it \<noteq> Some True"
    and "short_item it" and "Supersedes it = None"
  shows "(\<exists>r. ReadItems (Opened (line_bytes it)) = Inr r \<and> Items r = [EnsureArrayFields it]) \<and>
     Compact CNone False \<lparr>fs_target = Some (line_bytes it), fs_temp = None\<rparr> =
       ((None, \<lparr>TombstonesRemoved = 0, LessonsRemaining = 0, DroppedInvalid = 1\<rparr>), \<lparr>fs_target = Some [], fs_temp = None\<rparr>)"
proof -
  have l: "lines_of (line_bytes it) = [item_line it]" and sc: "scannable (line_bytes it)"
    using lines_of_item [of "[]" it] assms(1,4) by (simp_all add: short_item_def)
  have lt: "legacy_type it = it"
    using assms(2) by (auto simp: ValidateItem_None legacy_type_def validTypes_def type_defs)
  have p: "parseLine (item_line it) = Some (EnsureArrayFields it, False)"
    using assms lt by (simp add: parseLine_def unmarshal_item_line parseTombstone_def raw_item_deleted Let_def)
  have "ValidateItem it \<noteq> None" using assms(5) by (simp add: ValidateItem_None)
  then have c: "compact_fold [item_line it] = ([], compact_result0\<lparr>DroppedInvalid := 1\<rparr>)"
    using assms(1,3) lt
    by (simp add: compact_fold_def compact_line_def unmarshal_item_line processCompactTombstone_def
        raw_item_deleted processCompactItem_def compact_result0_def)
  have pc: "parseCompactRecords (line_bytes it) = Inr ([], compact_result0\<lparr>DroppedInvalid := 1\<rparr>)"
    using c l scan_lines_ok [OF sc] by (simp add: parseCompactRecords_def lines_of_def compact_fold_def)
  have sn: "content_lines (fst (scan_lines (line_bytes it))) = [item_line it]" "snd (scan_lines (line_bytes it)) = False"
    using l scan_lines_ok [OF sc] by (simp_all add: lines_of_def)
  have "\<exists>r. ReadItems (Opened (line_bytes it)) = Inr r \<and> Items r = [EnsureArrayFields it]"
    using p sn by (simp add: ReadItems_def split_beta Let_def read_all_def read_line_def read_state0_def
        deduplicateAndSort_def insertion_sort_def)
  moreover have "insertion_sort item_before [] = []" by (simp add: insertion_sort_def)
  ultimately show ?thesis
    using pc writeCompacted_ok [of "\<lparr>fs_target = Some (line_bytes it), fs_temp = None\<rparr>" "[]"]
    by (simp add: Compact_def compact_result0_def items_text_def Let_def)
qed

lemma sample_nil: "short_item sample_item" "Supersedes sample_item = None"
  by (rule short_itemI, code_simp) code_simp

theorem Compact_drops_legacy_witness:
  "(\<exists>r. ReadItems (Opened (line_bytes sample_item)) = Inr r \<and> Items r = [EnsureArrayFields sample_item]) \<and>
     Compact CNone False \<lparr>fs_target = Some (line_bytes sample_item), fs_temp = None\<rparr> =
       ((None, \<lparr>TombstonesRemoved = 0, LessonsRemaining = 0, DroppedInvalid = 1\<rparr>), \<lparr>fs_target = Some [], fs_temp = None\<rparr>)"
  by (rule Compact_drops_legacy [OF sample_ok(1,2) _ sample_nil]) (simp add: sample_ok)

end
