(* ===== verification/GoTime.thy ===== *)
theory GoTime
  imports GoString "HOL-Library.Monad_Syntax"
begin

section \<open>Package time: RFC 3339 timestamps\<close>

text \<open>
  Instants are nanoseconds since 1970 (an integer). \<open>parse_rfc3339\<close> is
  \<open>time.Parse(time.RFC3339, s)\<close> with what its general parser also lets through: a one-digit
  hour, a fraction of a second after a period or a comma, offsets up to 24:60. The layout
  \<open>RFC3339Nano\<close> accepts the same strings. \<open>format_rfc3339\<close> is
  \<open>t.UTC().Format(time.RFC3339)\<close>, with the clock reading given by its calendar fields.
\<close>

subsection \<open>The calendar\<close>

definition leap_year :: "nat \<Rightarrow> bool" where
  "leap_year y \<longleftrightarrow> y mod 4 = 0 \<and> (y mod 100 \<noteq> 0 \<or> y mod 400 = 0)"

definition month_days :: "nat \<Rightarrow> nat \<Rightarrow> nat" where
  "month_days y m =
     (if m = 2 then (if leap_year y then 29 else 28)
      else if m \<in> {4, 6, 9, 11} then 30 else 31)"

text \<open>Days before the first of January of \<open>y\<close>, counted from year 0.\<close>

definition year_days :: "nat \<Rightarrow> nat" where
  "year_days y = 365 * y + (y + 3) div 4 - (y + 99) div 100 + (y + 399) div 400"

fun days_before_month :: "nat \<Rightarrow> nat \<Rightarrow> nat" where
  "days_before_month y 0 = 0"
| "days_before_month y (Suc m) = (if m = 0 then 0 else days_before_month y m + month_days y m)"

text \<open>Days since 1970-01-01; year 1970 starts 719528 days after year 0.\<close>

definition epoch_days :: "nat \<Rightarrow> nat \<Rightarrow> nat \<Rightarrow> int" where
  "epoch_days y m d = int (year_days y) + int (days_before_month y m) + int d - 1 - 719528"

definition ns_per_second :: int where "ns_per_second = 1000000000"

record datetime =
  dt_year :: nat
  dt_month :: nat
  dt_day :: nat
  dt_hour :: nat
  dt_minute :: nat
  dt_second :: nat
  dt_nanos :: nat

definition dt_ok :: "datetime \<Rightarrow> bool" where
  "dt_ok t \<longleftrightarrow> dt_year t < 10000 \<and> 1 \<le> dt_month t \<and> dt_month t \<le> 12 \<and>
     1 \<le> dt_day t \<and> dt_day t \<le> month_days (dt_year t) (dt_month t) \<and>
     dt_hour t < 24 \<and> dt_minute t < 60 \<and> dt_second t < 60 \<and> dt_nanos t < 1000000000"

definition instant :: "datetime \<Rightarrow> int" where
  "instant t =
     ((epoch_days (dt_year t) (dt_month t) (dt_day t) * 24 + int (dt_hour t)) * 60 + int (dt_minute t)) * 60
       * ns_per_second + int (dt_second t) * ns_per_second + int (dt_nanos t)"

subsection \<open>Parsing\<close>

definition digit_at :: "string \<Rightarrow> nat \<Rightarrow> bool" where
  "digit_at s i \<longleftrightarrow> i < length s \<and> is_digit (s ! i)"

text \<open>\<open>getnum\<close>: two digits, or one when \<open>fixed\<close> is false and no second digit follows.\<close>

definition getnum :: "bool \<Rightarrow> string \<Rightarrow> (nat \<times> string) option" where
  "getnum fixed s =
     (if \<not> digit_at s 0 then None
      else if \<not> digit_at s 1 then (if fixed then None else Some (digit_val (s ! 0), drop 1 s))
      else Some (10 * digit_val (s ! 0) + digit_val (s ! 1), drop 2 s))"

definition expect :: "char \<Rightarrow> string \<Rightarrow> string option" where
  "expect c s = (case s of [] \<Rightarrow> None | x # r \<Rightarrow> if x = c then Some r else None)"

definition parse_year :: "string \<Rightarrow> (nat \<times> string) option" where
  "parse_year s =
     (if length (take 4 s) = 4 \<and> list_all is_digit (take 4 s) then Some (dec_val (take 4 s), drop 4 s) else None)"

text \<open>The optional fraction: at most nine digits of it count.\<close>

definition parse_fraction :: "string \<Rightarrow> nat \<times> string" where
  "parse_fraction s =
     (if 2 \<le> length s \<and> (s ! 0 = CHR ''.'' \<or> s ! 0 = CHR '','') \<and> digit_at s 1 then
        (let ds = takeWhile is_digit (tl s); d9 = take 9 ds
         in (dec_val d9 * 10 ^ (9 - length d9), drop (1 + length ds) s))
      else (0, s))"

text \<open>The zone: its offset in minutes and the rest.\<close>

definition parse_zone :: "string \<Rightarrow> (int \<times> string) option" where
  "parse_zone s =
     (if 1 \<le> length s \<and> s ! 0 = CHR ''Z'' then Some (0, drop 1 s)
      else if length s < 6 \<or> s ! 3 \<noteq> CHR '':'' then None
      else case (getnum True (take 2 (drop 1 s)), getnum True (take 2 (drop 4 s))) of
        (Some (hh, _), Some (mm, _)) \<Rightarrow>
          if 24 < hh \<or> 60 < mm then None
          else if s ! 0 = CHR ''+'' then Some (int (60 * hh + mm), drop 6 s)
          else if s ! 0 = CHR ''-'' then Some (- int (60 * hh + mm), drop 6 s)
          else None
      | _ \<Rightarrow> None)"

definition parse_rfc3339 :: "string \<Rightarrow> int option" where
  "parse_rfc3339 s0 = do {
     (y, s1) \<leftarrow> parse_year s0;
     s2 \<leftarrow> expect (CHR ''-'') s1;
     (m, s3) \<leftarrow> getnum True s2;
     s4 \<leftarrow> (if m = 0 \<or> 12 < m then None else expect (CHR ''-'') s3);
     (d, s5) \<leftarrow> getnum True s4;
     s6 \<leftarrow> expect (CHR ''T'') s5;
     (hh, s7) \<leftarrow> getnum False s6;
     s8 \<leftarrow> (if 24 \<le> hh then None else expect (CHR '':'') s7);
     (mm, s9) \<leftarrow> getnum True s8;
     s10 \<leftarrow> (if 60 \<le> mm then None else expect (CHR '':'') s9);
     (ss, s11) \<leftarrow> getnum True s10;
     (z, s13) \<leftarrow> (if 60 \<le> ss then None else parse_zone (snd (parse_fraction s11)));
     (if s13 \<noteq> [] \<or> d < 1 \<or> month_days y m < d then None
      else Some (instant \<lparr>dt_year = y, dt_month = m, dt_day = d, dt_hour = hh, dt_minute = mm, dt_second = ss,
                   dt_nanos = fst (parse_fraction s11)\<rparr> - z * 60 * ns_per_second))
   }"

subsection \<open>Formatting\<close>

definition two_digits :: "nat \<Rightarrow> string" where
  "two_digits n = [char_of (48 + n div 10), char_of (48 + n mod 10)]"

definition format_rfc3339 :: "datetime \<Rightarrow> string" where
  "format_rfc3339 t =
     two_digits (dt_year t div 100) @ two_digits (dt_year t mod 100) @ ''-'' @ two_digits (dt_month t) @ ''-'' @
     two_digits (dt_day t) @ ''T'' @ two_digits (dt_hour t) @ '':'' @ two_digits (dt_minute t) @ '':'' @
     two_digits (dt_second t) @ ''Z''"

lemma is_digit_char_of [simp]: "n < (10::nat) \<Longrightarrow> is_digit (char_of (48 + n))"
  by (simp add: is_digit_def byte_in_def)

lemma digit_val_char_of [simp]: "n < (10::nat) \<Longrightarrow> digit_val (char_of (48 + n)) = n"
  by (simp add: digit_val_def)

lemma getnum_two: "n < 100 \<Longrightarrow> getnum fixed (two_digits n @ s) = Some (n, s)"
  by (simp add: getnum_def two_digits_def digit_at_def)

lemma expect_Cons [simp]: "expect c (c # s) = Some s"
  by (simp add: expect_def)

lemma four_digits:
  "10 * p + q = a \<Longrightarrow> 10 * r + s = b \<Longrightarrow> 100 * a + b = y \<Longrightarrow> 1000 * p + 100 * q + 10 * r + s = (y::nat)"
  by simp

lemma parse_year_format:
  assumes "y < 10000"
  shows "parse_year (two_digits (y div 100) @ two_digits (y mod 100) @ s) = Some (y, s)"
proof -
  have a: "y div 100 div 10 < 10" and b: "y mod 100 div 10 < 10"
    using assms by (simp_all add: less_mult_imp_div_less)
  have "1000 * (y div 100 div 10) + 100 * (y div 100 mod 10) + 10 * (y mod 100 div 10) + y mod 100 mod 10 = y"
    by (rule four_digits [of _ _ "y div 100" _ _ "y mod 100"]) (simp_all only: mult_div_mod_eq)
  then have "dec_val [char_of (48 + y div 100 div 10), char_of (48 + y div 100 mod 10),
      char_of (48 + y mod 100 div 10), char_of (48 + y mod 100 mod 10)] = y"
    using a b by (simp only: dec_val_def foldl.simps digit_val_char_of mod_less_divisor zero_less_numeral) simp
  with a b show ?thesis by (simp only: parse_year_def two_digits_def) simp
qed

text \<open>A formatted clock reading parses to the instant of its whole second.\<close>

lemma parse_format:
  assumes "dt_ok t"
  shows "parse_rfc3339 (format_rfc3339 t) = Some (instant (t\<lparr>dt_nanos := 0\<rparr>))"
proof -
  have f: "parse_fraction ''Z'' = (0, ''Z'')" by (simp add: parse_fraction_def)
  have z: "parse_zone ''Z'' = Some (0, [])" by (simp add: parse_zone_def)
  have md: "month_days y m < 100" for y m by (simp add: month_days_def)
  note ok = assms [unfolded dt_ok_def]
  have d: "dt_day t < 100" using ok md [of "dt_year t" "dt_month t"] by simp
  show ?thesis unfolding parse_rfc3339_def format_rfc3339_def
    using ok d by (simp add: parse_year_format getnum_two f z) (cases t, simp)
qed

lemma instant_nanos: "instant t = instant (t\<lparr>dt_nanos := 0\<rparr>) + int (dt_nanos t)"
  by (simp add: instant_def epoch_days_def)

end
