(* ===== verification/Regex.thy ===== *)
theory Regex
  imports GoString
begin

section \<open>The regular expressions of package regexp\<close>

text \<open>
  Go compiles a pattern once and asks whether it matches somewhere in a string
  (\<open>MatchString\<close>) or for the leftmost match and its groups (\<open>FindStringSubmatch\<close>).
  The syntax below has the operators the program's patterns use. Subjects are lists of
  runes. \<open>run\<close> is the backtracking search in the preference order of RE2 (leftmost
  alternative first, greedy before shorter, lazy after), and the main lemma
  \<open>run_iff_matches\<close> says that it finds exactly the matches of the declarative
  semantics \<open>matches\<close>.
\<close>

subsection \<open>Syntax\<close>

datatype cls =
    CAny                            \<comment> \<open>\<open>.\<close>, any rune but a newline\<close>
  | CSpace                          \<comment> \<open>\<open>\s\<close>\<close>
  | CNotSpace                       \<comment> \<open>\<open>\S\<close>\<close>
  | CWord                           \<comment> \<open>\<open>\w\<close> under \<open>(?i)\<close>, closed under simple case folding\<close>
  | CNot char                       \<comment> \<open>\<open>[^c]\<close>\<close>
  | CRanges "(nat \<times> nat) list"      \<comment> \<open>a positive class of ASCII ranges\<close>

datatype re =
    REps
  | RLit string                     \<comment> \<open>one rune\<close>
  | RFold char                      \<comment> \<open>an ASCII letter under \<open>(?i)\<close>\<close>
  | RCls cls
  | RBound                          \<comment> \<open>\<open>\b\<close>\<close>
  | RBegin                          \<comment> \<open>\<open>^\<close>\<close>
  | REnd                            \<comment> \<open>\<open>$\<close>\<close>
  | RSeq re re
  | RAlt re re
  | ROpt re                         \<comment> \<open>\<open>r?\<close>\<close>
  | RStar bool re                   \<comment> \<open>\<open>r*\<close>, greedy or lazy\<close>
  | RGroup nat re                   \<comment> \<open>a capture group\<close>

definition RPlus :: "bool \<Rightarrow> re \<Rightarrow> re" where
  "RPlus g r = RSeq r (RStar g r)"

fun seqs :: "re list \<Rightarrow> re" where
  "seqs [] = REps"
| "seqs [r] = r"
| "seqs (r # rs) = RSeq r (seqs rs)"

fun alts :: "re list \<Rightarrow> re" where
  "alts [] = RCls (CRanges [])"
| "alts [r] = r"
| "alts (r # rs) = RAlt r (alts rs)"

definition is_letter :: "char \<Rightarrow> bool" where
  "is_letter c \<longleftrightarrow> byte_in 0x41 0x5A c \<or> byte_in 0x61 0x7A c"

text \<open>A literal word under \<open>(?i)\<close>.\<close>

definition lit_i :: "string \<Rightarrow> re" where
  "lit_i s = seqs (map (\<lambda>c. if is_letter c then RFold c else RLit [c]) s)"

text \<open>A literal word, case sensitive.\<close>

definition lit :: "string \<Rightarrow> re" where
  "lit s = seqs (map (\<lambda>c. RLit [c]) s)"

definition re_s :: re where "re_s = RCls CSpace"
definition re_any :: re where "re_any = RPlus True (RCls CAny)"
definition re_sp :: re where "re_sp = RPlus True (RCls CSpace)"

subsection \<open>Runes and classes\<close>

definition ascii_word :: "char \<Rightarrow> bool" where
  "ascii_word c \<longleftrightarrow> is_letter c \<or> is_digit c \<or> c = CHR ''_''"

definition rune_word :: "string \<Rightarrow> bool" where
  "rune_word r = (case r of [c] \<Rightarrow> ascii_word c | _ \<Rightarrow> False)"

text \<open>U+017F folds to s, U+212A to k.\<close>

definition long_s :: string where "long_s = [CHR 0xC5, CHR 0xBF]"
definition kelvin :: string where "kelvin = [CHR 0xE2, CHR 0x84, CHR 0xAA]"

definition rune_fold :: "char \<Rightarrow> string \<Rightarrow> bool" where
  "rune_fold c r \<longleftrightarrow>
     (case r of [x] \<Rightarrow> ascii_lower x = ascii_lower c | _ \<Rightarrow> False) \<or>
     (ascii_lower c = CHR ''s'' \<and> r = long_s) \<or> (ascii_lower c = CHR ''k'' \<and> r = kelvin)"

definition re_space :: "string \<Rightarrow> bool" where
  "re_space r \<longleftrightarrow> r \<in> {[CHR 0x09], [CHR 0x0A], [CHR 0x0C], [CHR 0x0D], [CHR 0x20]}"

fun in_cls :: "cls \<Rightarrow> string \<Rightarrow> bool" where
  "in_cls CAny r = (r \<noteq> [CHR 0x0A])"
| "in_cls CSpace r = re_space r"
| "in_cls CNotSpace r = (\<not> re_space r)"
| "in_cls CWord r = (rune_word r \<or> r = long_s \<or> r = kelvin)"
| "in_cls (CNot c) r = (r \<noteq> [c])"
| "in_cls (CRanges rs) r =
     (case r of [c] \<Rightarrow> (\<exists>(lo, hi) \<in> set rs. byte_in lo hi c) | _ \<Rightarrow> False)"

definition word_at :: "string list \<Rightarrow> nat \<Rightarrow> bool" where
  "word_at w i \<longleftrightarrow> i < length w \<and> rune_word (w ! i)"

definition boundary :: "string list \<Rightarrow> nat \<Rightarrow> bool" where
  "boundary w i \<longleftrightarrow> (0 < i \<and> word_at w (i - 1)) \<noteq> word_at w i"

subsection \<open>Declarative semantics\<close>

inductive matches :: "string list \<Rightarrow> re \<Rightarrow> nat \<Rightarrow> nat \<Rightarrow> bool" for w where
  m_eps: "matches w REps i i"
| m_lit: "i < length w \<Longrightarrow> w ! i = r \<Longrightarrow> matches w (RLit r) i (Suc i)"
| m_fold: "i < length w \<Longrightarrow> rune_fold c (w ! i) \<Longrightarrow> matches w (RFold c) i (Suc i)"
| m_cls: "i < length w \<Longrightarrow> in_cls k (w ! i) \<Longrightarrow> matches w (RCls k) i (Suc i)"
| m_bound: "boundary w i \<Longrightarrow> matches w RBound i i"
| m_begin: "matches w RBegin 0 0"
| m_end: "matches w REnd (length w) (length w)"
| m_seq: "matches w a i j \<Longrightarrow> matches w b j k \<Longrightarrow> matches w (RSeq a b) i k"
| m_alt1: "matches w a i j \<Longrightarrow> matches w (RAlt a b) i j"
| m_alt2: "matches w b i j \<Longrightarrow> matches w (RAlt a b) i j"
| m_opt1: "matches w r i j \<Longrightarrow> matches w (ROpt r) i j"
| m_opt0: "matches w (ROpt r) i i"
| m_star0: "matches w (RStar g r) i i"
| m_star1: "matches w r i j \<Longrightarrow> matches w (RStar g r) j k \<Longrightarrow> matches w (RStar g r) i k"
| m_group: "matches w r i j \<Longrightarrow> matches w (RGroup n r) i j"

inductive_simps matches_eps [simp]: "matches w REps i j"
inductive_simps matches_RLit: "matches w (RLit r) i j"
inductive_simps matches_fold: "matches w (RFold c) i j"
inductive_simps matches_cls: "matches w (RCls k) i j"
inductive_simps matches_bound: "matches w RBound i j"
inductive_simps matches_begin: "matches w RBegin i j"
inductive_simps matches_end: "matches w REnd i j"
inductive_simps matches_seq: "matches w (RSeq a b) i j"
inductive_simps matches_alt: "matches w (RAlt a b) i j"
inductive_simps matches_opt: "matches w (ROpt r) i j"
inductive_simps matches_group: "matches w (RGroup n r) i j"

lemmas matches_simps =
  matches_RLit matches_fold matches_cls matches_bound matches_begin matches_end
  matches_seq matches_alt matches_opt matches_group

lemma matches_le: "matches w r i j \<Longrightarrow> i \<le> j"
  by (induction rule: matches.induct) auto

lemma matches_bounded: "matches w r i j \<Longrightarrow> i \<le> length w \<Longrightarrow> j \<le> length w"
  by (induction rule: matches.induct) auto

text \<open>A repetition can be read as iterations that each consume something.\<close>

lemma star_progress:
  "matches w (RStar g r) i k \<Longrightarrow>
   i = k \<or> (\<exists>j. i < j \<and> matches w r i j \<and> matches w (RStar g r) j k)"
proof (induction "RStar g r" i k rule: matches.induct)
  case (m_star0 i)
  then show ?case by simp
next
  case (m_star1 i j k)
  then show ?case using matches_le [OF m_star1(1)] by (cases "i = j") auto
qed

subsection \<open>The search\<close>

type_synonym caps = "(nat \<times> nat \<times> nat) list"

fun star_run :: "(nat \<times> caps \<Rightarrow> (nat \<times> caps) list) \<Rightarrow> bool \<Rightarrow> nat \<Rightarrow> nat \<times> caps \<Rightarrow> (nat \<times> caps) list" where
  "star_run f g 0 st = [st]"
| "star_run f g (Suc n) st =
     (let more = concat (map (star_run f g n) (filter (\<lambda>st'. fst st < fst st') (f st)))
      in if g then more @ [st] else st # more)"

fun run :: "string list \<Rightarrow> re \<Rightarrow> nat \<times> caps \<Rightarrow> (nat \<times> caps) list" where
  "run w REps st = [st]"
| "run w (RLit r) st =
     (if fst st < length w \<and> w ! fst st = r then [(Suc (fst st), snd st)] else [])"
| "run w (RFold c) st =
     (if fst st < length w \<and> rune_fold c (w ! fst st) then [(Suc (fst st), snd st)] else [])"
| "run w (RCls k) st =
     (if fst st < length w \<and> in_cls k (w ! fst st) then [(Suc (fst st), snd st)] else [])"
| "run w RBound st = (if boundary w (fst st) then [st] else [])"
| "run w RBegin st = (if fst st = 0 then [st] else [])"
| "run w REnd st = (if fst st = length w then [st] else [])"
| "run w (RSeq a b) st = concat (map (run w b) (run w a st))"
| "run w (RAlt a b) st = run w a st @ run w b st"
| "run w (ROpt r) st = run w r st @ [st]"
| "run w (RStar g r) st = star_run (run w r) g (length w - fst st) st"
| "run w (RGroup n r) st = map (\<lambda>(j, c). (j, (n, fst st, j) # c)) (run w r st)"

definition run_finds :: "string list \<Rightarrow> re \<Rightarrow> bool" where
  "run_finds w r \<longleftrightarrow> (\<forall>i c. i \<le> length w \<longrightarrow> fst ` set (run w r (i, c)) = {j. matches w r i j})"

lemma star_run_finds:
  assumes r: "run_finds w r"
  shows "i \<le> length w \<Longrightarrow> length w - i \<le> n \<Longrightarrow>
     fst ` set (star_run (run w r) g n (i, c)) = {j. matches w (RStar g r) i j}"
proof (induction n arbitrary: i c)
  case 0
  then have "i = length w" by simp
  moreover have "matches w (RStar g r) i j \<Longrightarrow> j = i" for j
    using \<open>i = length w\<close> matches_le matches_bounded by (metis le_antisym order_refl)
  ultimately show ?case by (auto intro: m_star0)
next
  case (Suc n)
  let ?step = "filter (\<lambda>st'. i < fst st') (run w r (i, c))"
  have fi: "fst ` set (run w r (i, c)) = {j. matches w r i j}"
    using r Suc.prems(1) by (simp add: run_finds_def)
  have rec: "fst ` set (star_run (run w r) g n st') = {k. matches w (RStar g r) (fst st') k}"
    if "st' \<in> set ?step" for st'
  proof -
    have "fst st' \<in> fst ` set (run w r (i, c))" using that by auto
    then have "matches w r i (fst st')" using fi by simp
    then have "fst st' \<le> length w" using Suc.prems(1) by (rule matches_bounded)
    moreover have "i < fst st'" using that by simp
    ultimately show ?thesis
      using Suc.prems(2) Suc.IH [of "fst st'" "snd st'"] by simp
  qed
  have "fst ` set (star_run (run w r) g (Suc n) (i, c)) =
        insert i (\<Union>st' \<in> set ?step. fst ` set (star_run (run w r) g n st'))"
    by (auto simp: Let_def image_UN image_Un)
  also have "\<dots> = insert i (\<Union>st' \<in> set ?step. {k. matches w (RStar g r) (fst st') k})"
    using rec by simp
  also have "\<dots> = insert i {k. \<exists>j. i < j \<and> matches w r i j \<and> matches w (RStar g r) j k}"
  proof -
    have "(\<Union>st' \<in> set ?step. {k. matches w (RStar g r) (fst st') k}) =
          (\<Union>j \<in> {j \<in> fst ` set (run w r (i, c)). i < j}. {k. matches w (RStar g r) j k})"
      by auto
    then show ?thesis using fi by auto
  qed
  also have "\<dots> = {k. matches w (RStar g r) i k}"
    by (auto dest: star_progress intro: m_star0 m_star1)
  finally show ?case .
qed

lemma run_finds_all: "run_finds w r"
proof (induction r)
  case (RSeq a b)
  have "fst ` set (run w (RSeq a b) (i, c)) = {k. matches w (RSeq a b) i k}" if i: "i \<le> length w" for i c
  proof -
    have A: "fst ` set (run w a (i, c)) = {j. matches w a i j}"
      using RSeq.IH(1) i by (simp add: run_finds_def)
    have "fst ` set (run w b st) = {k. matches w b (fst st) k}" if "st \<in> set (run w a (i, c))" for st
    proof -
      have "fst st \<in> fst ` set (run w a (i, c))" using that by simp
      then have "fst st \<le> length w" using A i by (auto intro: matches_bounded)
      then show ?thesis using RSeq.IH(2) by (cases st) (simp add: run_finds_def)
    qed
    then have "fst ` set (run w (RSeq a b) (i, c)) = (\<Union>st \<in> set (run w a (i, c)). {k. matches w b (fst st) k})"
      by (auto simp: image_UN)
    also have "\<dots> = (\<Union>j \<in> fst ` set (run w a (i, c)). {k. matches w b j k})" by simp
    finally show ?thesis using A by (auto simp: matches_seq)
  qed
  then show ?case by (simp add: run_finds_def)
next
  case (RStar g r)
  then show ?case using star_run_finds by (simp add: run_finds_def)
next
  case (RGroup n r)
  then show ?case by (simp add: run_finds_def matches_group image_image case_prod_unfold)
qed (auto simp: run_finds_def matches_simps image_Un)

lemma run_iff_matches:
  "i \<le> length w \<Longrightarrow> j \<in> fst ` set (run w r (i, c)) \<longleftrightarrow> matches w r i j"
  using run_finds_all [of w r] by (simp add: run_finds_def)

lemma run_nonempty: "i \<le> length w \<Longrightarrow> run w r (i, c) \<noteq> [] \<longleftrightarrow> (\<exists>j. matches w r i j)"
  using run_iff_matches [of i w _ r c] by (metis empty_iff image_is_empty list.set(1) last_in_set imageI)

subsection \<open>MatchString and FindStringSubmatch\<close>

definition match_runes :: "re \<Rightarrow> string list \<Rightarrow> bool" where
  "match_runes r w \<longleftrightarrow> list_ex (\<lambda>i. run w r (i, []) \<noteq> []) [0..<Suc (length w)]"

definition match_string :: "re \<Rightarrow> string \<Rightarrow> bool" where
  "match_string r s = match_runes r (runes s)"

definition match_any :: "re list \<Rightarrow> string \<Rightarrow> bool" where
  "match_any rs s = list_ex (\<lambda>r. match_string r s) rs"

text \<open>The leftmost match with its start, end and groups.\<close>

definition find_match :: "re \<Rightarrow> string list \<Rightarrow> (nat \<times> nat \<times> caps) option" where
  "find_match r w =
     map_option (\<lambda>i. (i, hd (run w r (i, []))))
       (List.find (\<lambda>i. run w r (i, []) \<noteq> []) [0..<Suc (length w)])"

definition group_text :: "string list \<Rightarrow> caps \<Rightarrow> nat \<Rightarrow> string" where
  "group_text w c n =
     (case map_of (map (\<lambda>(m, i, j). (m, (i, j))) c) n of
        None \<Rightarrow> [] | Some (i, j) \<Rightarrow> concat (take (j - i) (drop i w)))"

lemma match_runes_iff: "match_runes r w \<longleftrightarrow> (\<exists>i \<le> length w. \<exists>j. matches w r i j)"
  unfolding match_runes_def list_ex_iff
  by (auto simp: run_nonempty less_Suc_eq_le simp del: upt_Suc)

lemma match_string_iff:
  "match_string r s \<longleftrightarrow> (\<exists>i \<le> length (runes s). \<exists>j. matches (runes s) r i j)"
  by (simp add: match_string_def match_runes_iff)

lemma match_any_iff: "match_any rs s \<longleftrightarrow> (\<exists>r \<in> set rs. match_string r s)"
  by (simp add: match_any_def list_ex_iff)

lemma matches_seqs_Cons:
  "matches w (seqs (r # rs)) i k \<longleftrightarrow> (\<exists>j. matches w r i j \<and> matches w (seqs rs) j k)"
  by (cases rs) (auto simp: matches_seq)

lemma matches_alts: "matches w (alts rs) i j \<longleftrightarrow> (\<exists>r \<in> set rs. matches w r i j)"
  by (induction rs rule: alts.induct) (auto simp: matches_alt matches_cls split: list.splits)

text \<open>A literal under \<open>(?i)\<close> matches exactly the runes that fold to it.\<close>

lemma fold_letter: "\<not> is_letter c \<Longrightarrow> ascii_lower c = c"
  by (simp add: ascii_lower_def is_letter_def)

lemma matches_lit_i:
  "matches w (lit_i p) i j \<longleftrightarrow>
     j = i + length p \<and> (\<forall>k < length p. i + k < length w \<and>
       (if is_letter (p ! k) then rune_fold (p ! k) (w ! (i + k)) else w ! (i + k) = [p ! k]))"
proof (induction p arbitrary: i)
  case Nil
  then show ?case by (auto simp: lit_i_def)
next
  case (Cons c p)
  have "matches w (lit_i (c # p)) i j \<longleftrightarrow>
     (i < length w \<and> (if is_letter c then rune_fold c (w ! i) else w ! i = [c])) \<and> matches w (lit_i p) (Suc i) j"
    by (auto simp: lit_i_def matches_seqs_Cons matches_fold matches_RLit simp del: seqs.simps)
  then show ?case
    unfolding Cons.IH by (auto simp: All_less_Suc2)
qed

subsection \<open>Groups\<close>

text \<open>An expression without groups records nothing; a group records the span it matched.\<close>

fun no_group :: "re \<Rightarrow> bool" where
  "no_group (RGroup n r) = False"
| "no_group (RSeq a b) \<longleftrightarrow> no_group a \<and> no_group b"
| "no_group (RAlt a b) \<longleftrightarrow> no_group a \<and> no_group b"
| "no_group (ROpt r) = no_group r"
| "no_group (RStar g r) = no_group r"
| "no_group _ = True"

lemma star_run_no_group:
  assumes "\<And>st st'. st' \<in> set (f st) \<Longrightarrow> snd st' = snd st"
  shows "st' \<in> set (star_run f g n st) \<Longrightarrow> snd st' = snd st"
proof (induction n arbitrary: st)
  case 0
  then show ?case by simp
next
  case (Suc n)
  from Suc.prems consider "st' = st" | m where "m \<in> set (f st)" "st' \<in> set (star_run f g n m)"
    by (auto simp: Let_def split: if_splits)
  then show ?case
  proof cases
    case 2
    with Suc.IH assms show ?thesis by metis
  qed simp
qed

lemma run_no_group: "no_group r \<Longrightarrow> st' \<in> set (run w r st) \<Longrightarrow> snd st' = snd st"
proof (induction r arbitrary: st st')
  case (RStar g r)
  then have "\<And>st st'. st' \<in> set (run w r st) \<Longrightarrow> snd st' = snd st" by simp
  from star_run_no_group [OF this] RStar.prems show ?case by simp
next
  case (RSeq a b)
  then obtain m where "m \<in> set (run w a st)" "st' \<in> set (run w b m)" by auto
  with RSeq show ?case by (metis no_group.simps(2))
qed (auto split: if_splits)

lemma run_spans:
  assumes "fst st \<le> length w" and "st' \<in> set (run w r st)"
  shows "matches w r (fst st) (fst st')" and "fst st' \<le> length w"
proof -
  have "fst st' \<in> fst ` set (run w r (fst st, snd st))" using assms(2) by simp
  then show m: "matches w r (fst st) (fst st')" using run_iff_matches [OF assms(1)] by blast
  show "fst st' \<le> length w" by (rule matches_bounded [OF m assms(1)])
qed

lemma run_group:
  assumes "no_group a" "no_group r" "no_group b" and "i \<le> length w"
    and "(j, c) \<in> set (run w (RSeq a (RSeq (RGroup n r) b)) (i, []))"
  shows "\<exists>x y. c = [(n, x, y)] \<and> matches w a i x \<and> matches w r x y \<and> matches w b y j \<and> y \<le> length w"
proof -
  from assms(5) obtain s1 s2 where s1: "s1 \<in> set (run w a (i, []))"
    and s2: "s2 \<in> set (run w r s1)" and s3: "(j, c) \<in> set (run w b (fst s2, (n, fst s1, fst s2) # snd s2))"
    by fastforce
  have "snd s1 = []" using run_no_group [OF assms(1) s1] by simp
  moreover have "snd s2 = snd s1" by (rule run_no_group [OF assms(2) s2])
  moreover have "c = (n, fst s1, fst s2) # snd s2" using run_no_group [OF assms(3) s3] by simp
  moreover note a = run_spans [of "(i, [])", OF _ s1]
  moreover note r = run_spans [OF _ s2]
  moreover note b = run_spans [OF _ s3]
  ultimately show ?thesis using assms(4) by auto
qed

lemma matches_lit:
  "matches w (lit p) i j \<longleftrightarrow> j = i + length p \<and> (\<forall>k < length p. i + k < length w \<and> w ! (i + k) = [p ! k])"
proof (induction p arbitrary: i)
  case Nil
  then show ?case by (auto simp: lit_def)
next
  case (Cons c p)
  have "matches w (lit (c # p)) i j \<longleftrightarrow> (i < length w \<and> w ! i = [c]) \<and> matches w (lit p) (Suc i) j"
    by (auto simp: lit_def matches_seqs_Cons matches_simps simp del: seqs.simps)
  then show ?case
    unfolding Cons.IH by (auto simp: All_less_Suc2)
qed

lemma matches_star_cls:
  "matches w (RStar g (RCls k)) i j \<longleftrightarrow> i \<le> j \<and> (\<forall>x. i \<le> x \<and> x < j \<longrightarrow> x < length w \<and> in_cls k (w ! x))"
proof
  assume "matches w (RStar g (RCls k)) i j"
  then show "i \<le> j \<and> (\<forall>x. i \<le> x \<and> x < j \<longrightarrow> x < length w \<and> in_cls k (w ! x))"
  proof (induction "RStar g (RCls k)" i j rule: matches.induct)
    case (m_star0 i)
    show ?case by auto
  next
    case (m_star1 i j m)
    from m_star1(1) have "j = Suc i" "i < length w" "in_cls k (w ! i)" by (simp_all add: matches_cls)
    with m_star1 show ?case by (auto simp: le_Suc_eq Suc_le_eq dest: le_neq_implies_less)
  qed
next
  assume "i \<le> j \<and> (\<forall>x. i \<le> x \<and> x < j \<longrightarrow> x < length w \<and> in_cls k (w ! x))"
  then show "matches w (RStar g (RCls k)) i j"
  proof (induction "j - i" arbitrary: i)
    case 0
    then show ?case by (auto intro: m_star0)
  next
    case (Suc n)
    then have "matches w (RCls k) i (Suc i)" by (intro m_cls) auto
    moreover have "matches w (RStar g (RCls k)) (Suc i) j" using Suc by (intro Suc.hyps(1)) auto
    ultimately show ?case by (rule m_star1)
  qed
qed

lemma find_match_Some:
  assumes "find_match r w = Some (i, j, c)"
  shows "i \<le> length w" and "(j, c) \<in> set (run w r (i, []))"
proof -
  from assms obtain i' where i': "List.find (\<lambda>i. run w r (i, []) \<noteq> []) [0..<Suc (length w)] = Some i'"
    and e: "(i, j, c) = (i', hd (run w r (i', [])))" by (auto simp: find_match_def)
  from i' have "i' \<in> set [0..<Suc (length w)]" and ne: "run w r (i', []) \<noteq> []"
    by (auto simp: find_Some_iff in_set_conv_nth simp del: upt_Suc)
  then show "i \<le> length w" "(j, c) \<in> set (run w r (i, []))" using e by (auto intro: hd_in_set)
qed

lemma find_match_None: "find_match r w = None \<longleftrightarrow> \<not> match_runes r w"
  by (auto simp: find_match_def match_runes_def find_None_iff list_ex_iff simp del: upt_Suc)

end
