(* ===== verification/PhaseState.thy ===== *)
theory PhaseState
  imports MemoryTypes GoTime Regex
begin

section \<open>Package hook: the phase state (hook/phase_state.go and the hooks that read it)\<close>

text \<open>
  The cook-it phase state is a JSON file. This theory has its reader with the legacy
  migrations and the 72-hour limit, its writers, the phase guard, the read tracker and the
  stop audit, and the \<open>ca phase-check\<close> handlers that drive it (cli/commands_phase.go).
  Instants are nanoseconds; every operation takes the current one.
\<close>

subsection \<open>Phases and gates\<close>

definition Phases :: "string list" where
  "Phases = [''spec-dev'', ''plan'', ''work'', ''review'', ''compound'']"

definition Gates :: "string list" where
  "Gates = [''post-plan'', ''gate-3'', ''gate-4'', ''final'']"

definition phaseIndexMap :: "(string, nat) gomap" where
  "phaseIndexMap =
     [(''spec-dev'', 1), (''plan'', 2), (''work'', 3), (''review'', 4), (''compound'', 5), (''architect'', 6)]"

definition maxPhaseIndex :: nat where
  "maxPhaseIndex = foldl (\<lambda>mx e. if mx < snd e then snd e else mx) 0 phaseIndexMap"

definition IsValidPhase :: "string \<Rightarrow> bool" where
  "IsValidPhase s = list_ex (\<lambda>p. p = s) Phases"

definition IsValidGate :: "string \<Rightarrow> bool" where
  "IsValidGate s = list_ex (\<lambda>g. g = s) Gates"

definition PhaseIndexOf :: "string \<Rightarrow> nat" where
  "PhaseIndexOf p = (case map_of phaseIndexMap p of None \<Rightarrow> 0 | Some i \<Rightarrow> i)"

definition ValidSkillPhases :: "string list" where
  "ValidSkillPhases = [''spec-dev'', ''plan'', ''work'', ''review'', ''compound'', ''architect'']"

definition IsValidSkillPhase :: "string \<Rightarrow> bool" where
  "IsValidSkillPhase p \<longleftrightarrow> p \<in> set ValidSkillPhases"

definition ResolveSkillPath :: "string \<Rightarrow> string" where
  "ResolveSkillPath p = ''.claude/skills/compound/'' @ p @ ''/SKILL.md''"

definition ExpectedGateForPhase :: "int \<Rightarrow> string" where
  "ExpectedGateForPhase i =
     (if i = 2 then ''post-plan'' else if i = 3 then ''gate-3'' else if i = 4 then ''gate-4''
      else if i = 5 then ''final'' else [])"

subsection \<open>The state and its JSON\<close>

record phase_state =
  CookitActive :: bool
  EpicID :: string
  CurrentPhase :: string
  PhaseIndex :: int
  SkillsRead :: "string list option"
  GatesPassed :: "string list option"
  StartedAt :: string

definition phase_state0 :: phase_state where
  "phase_state0 = \<lparr>CookitActive = False, EpicID = [], CurrentPhase = [], PhaseIndex = 0,
     SkillsRead = None, GatesPassed = None, StartedAt = []\<rparr>"

definition enc_phase :: "phase_state \<Rightarrow> json" where
  "enc_phase st = JObj
     [(''cookit_active'', JBool (CookitActive st)), (''epic_id'', JStr (EpicID st)),
      (''current_phase'', JStr (CurrentPhase st)), (''phase_index'', j_int (PhaseIndex st)),
      (''skills_read'', j_strs (SkillsRead st)), (''gates_passed'', j_strs (GatesPassed st)),
      (''started_at'', JStr (StartedAt st))]"

definition phase_text :: "phase_state \<Rightarrow> string" where
  "phase_text st = marshal_indent (enc_phase st)"

text \<open>
  \<open>GetPhaseState\<close> decodes into a \<open>map[string]interface{}\<close> first, so numbers become float64
  and are printed again before they reach the int field. \<open>lit_parts\<close> splits a literal into
  sign, digits and decimal exponent; \<open>lit_scaled\<close> is its value as a fraction.
\<close>

definition lit_parts :: "string \<Rightarrow> bool \<times> nat \<times> int" where
  "lit_parts l =
     (let (neg, r) = (case l of [] \<Rightarrow> (False, []) | c # q \<Rightarrow> if c = CHR ''-'' then (True, q) else (False, l));
          (ip, r1) = span_digits r;
          (fp, r2) = (case r1 of [] \<Rightarrow> ([], []) | c # q \<Rightarrow> if c = CHR ''.'' then span_digits q else ([], r1));
          e = (case r2 of [] \<Rightarrow> 0
               | _ # q \<Rightarrow> (case q of [] \<Rightarrow> 0
                  | s # q' \<Rightarrow> if s = CHR ''-'' then - int (dec_val q') else if s = CHR ''+'' then int (dec_val q')
                             else int (dec_val q)))
      in (neg, dec_val (ip @ fp), e - int (length fp)))"

definition lit_scaled :: "string \<Rightarrow> bool \<times> nat \<times> nat" where
  "lit_scaled l = (let (neg, m, e) = lit_parts l in (neg, m * 10 ^ nat e, 10 ^ nat (- e)))"

text \<open>A literal beyond the float64 range fails to decode.\<close>

definition lit_finite :: "string \<Rightarrow> bool" where
  "lit_finite l = (let (neg, n, d) = lit_scaled l in n < d * (2 ^ 1024 - 2 ^ 970))"

fun nums_finite :: "json \<Rightarrow> bool" where
  "nums_finite (JNum l) = lit_finite l"
| "nums_finite (JArr vs) = list_all nums_finite vs"
| "nums_finite (JObj ms) = list_all (\<lambda>m. nums_finite (snd m)) ms"
| "nums_finite _ = True"

text \<open>
  The literals whose nearest float64 is the integer \<open>k\<close>, for \<open>k\<close> from 1 to 6: the halfway
  points belong to \<open>k\<close>, whose significand is even. Any other index is refused by the
  validation, whether or not it decodes.
\<close>

definition lit_rounds_to :: "string \<Rightarrow> nat \<Rightarrow> bool" where
  "lit_rounds_to l k =
     (let (neg, n, d) = lit_scaled l; b = (if k < 2 then 0 else if k < 4 then 1 else 2);
          low = (if k \<in> {1, 2, 4} then 54 - b else 53 - b)
      in \<not> neg \<and> (if k * d \<le> n then (n - k * d) * 2 ^ (53 - b) \<le> d else (k * d - n) * 2 ^ low \<le> d))"

definition json_index :: "string \<Rightarrow> int option" where
  "json_index l = map_option int (List.find (lit_rounds_to l) [1..<7])"

definition phase_keys :: "string list" where
  "phase_keys = [''cookit_active'', ''epic_id'', ''current_phase'', ''phase_index'', ''skills_read'',
     ''gates_passed'', ''started_at'']"

definition phase_field :: "phase_state \<Rightarrow> string \<Rightarrow> json \<Rightarrow> phase_state option" where
  "phase_field st k v =
     (case canon_key phase_keys k of None \<Rightarrow> Some st
      | Some n \<Rightarrow>
        if n = ''cookit_active'' then map_option (\<lambda>b. st\<lparr>CookitActive := b\<rparr>) (dec_bool (CookitActive st) v)
        else if n = ''epic_id'' then map_option (\<lambda>s. st\<lparr>EpicID := s\<rparr>) (dec_str (EpicID st) v)
        else if n = ''current_phase'' then map_option (\<lambda>s. st\<lparr>CurrentPhase := s\<rparr>) (dec_str (CurrentPhase st) v)
        else if n = ''phase_index'' then
          (case v of JNull \<Rightarrow> Some st
           | JNum l \<Rightarrow> map_option (\<lambda>i. st\<lparr>PhaseIndex := i\<rparr>) (json_index l)
           | _ \<Rightarrow> None)
        else if n = ''skills_read'' then map_option (\<lambda>s. st\<lparr>SkillsRead := s\<rparr>) (dec_strs (SkillsRead st) v)
        else if n = ''gates_passed'' then map_option (\<lambda>s. st\<lparr>GatesPassed := s\<rparr>) (dec_strs (GatesPassed st) v)
        else map_option (\<lambda>s. st\<lparr>StartedAt := s\<rparr>) (dec_str (StartedAt st) v))"

text \<open>The raw map, its legacy key, and the struct decoded from the map printed with sorted keys.\<close>

definition raw_map :: "(string \<times> json) list \<Rightarrow> (string, json) gomap" where
  "raw_map ms = foldl (\<lambda>m e. AList.update (fst e) (snd e) m) [] ms"

definition migratePhaseState :: "(string, json) gomap \<Rightarrow> (string, json) gomap" where
  "migratePhaseState raw =
     (case map_of raw ''cookit_active'' of Some _ \<Rightarrow> raw
      | None \<Rightarrow>
        (case map_of raw ''lfg_active'' of None \<Rightarrow> raw
         | Some v \<Rightarrow> AList.delete ''lfg_active'' (AList.update ''cookit_active'' v raw)))"

definition key_before :: "string \<times> json \<Rightarrow> string \<times> json \<Rightarrow> bool" where
  "key_before a b \<longleftrightarrow> fst a < fst b"

definition unmarshal_phase :: "string \<Rightarrow> phase_state option" where
  "unmarshal_phase data =
     (case json_parse data of
        Some (JObj ms) \<Rightarrow>
          if nums_finite (JObj ms)
          then dec_members phase_field phase_state0 (insertion_sort key_before (migratePhaseState (raw_map ms)))
          else None
      | Some JNull \<Rightarrow> Some phase_state0
      | _ \<Rightarrow> None)"

subsection \<open>The state file\<close>

text \<open>
  \<open>p_file\<close> is .compound-agent/.ca-phase-state.json and \<open>p_legacy\<close> the old file under
  .claude; \<open>p_writable\<close> says whether files of .compound-agent can be written and removed.
\<close>

record phase_fs =
  p_file :: "string option"
  p_legacy :: "string option"
  p_writable :: bool

definition phaseStateMaxAge :: int where
  "phaseStateMaxAge = 72 * 60 * 60 * ns_per_second"

definition readAndMigrateLegacyPhaseState :: "phase_fs \<Rightarrow> string option \<times> phase_fs" where
  "readAndMigrateLegacyPhaseState d =
     (case p_legacy d of None \<Rightarrow> (None, d)
      | Some s \<Rightarrow> if p_writable d then (Some s, d\<lparr>p_file := Some s, p_legacy := None\<rparr>) else (Some s, d))"

text \<open>\<open>os.Remove\<close> of the state file: whether it fails with an error other than not-exist.\<close>

definition remove_state :: "phase_fs \<Rightarrow> bool \<times> phase_fs" where
  "remove_state d =
     (if p_file d = None then (True, d)
      else if p_writable d then (True, d\<lparr>p_file := None\<rparr>) else (False, d))"

definition validatePhaseState :: "int \<Rightarrow> phase_state \<Rightarrow> phase_fs \<Rightarrow> phase_state option \<times> phase_fs" where
  "validatePhaseState now st d =
     (if PhaseIndex st < 1 \<or> int maxPhaseIndex < PhaseIndex st then (None, d)
      else if StartedAt st = [] then (None, d)
      else
        let st1 = st\<lparr>SkillsRead := Some (case SkillsRead st of None \<Rightarrow> [] | Some x \<Rightarrow> x),
                     GatesPassed := Some (case GatesPassed st of None \<Rightarrow> [] | Some x \<Rightarrow> x)\<rparr>
        in case parse_rfc3339 (StartedAt st) of None \<Rightarrow> (None, d)
           | Some t0 \<Rightarrow> if phaseStateMaxAge < now - t0 then (None, snd (remove_state d)) else (Some st1, d))"

definition GetPhaseState :: "int \<Rightarrow> phase_fs \<Rightarrow> phase_state option \<times> phase_fs" where
  "GetPhaseState now d =
     (let (data, d1) = (case p_file d of Some s \<Rightarrow> (Some s, d) | None \<Rightarrow> readAndMigrateLegacyPhaseState d)
      in case data of None \<Rightarrow> (None, d1)
         | Some s \<Rightarrow>
           (case unmarshal_phase s of None \<Rightarrow> (None, d1)
            | Some st \<Rightarrow> validatePhaseState now st d1))"

definition WritePhaseState :: "phase_state \<Rightarrow> phase_fs \<Rightarrow> bool \<times> phase_fs" where
  "WritePhaseState st d = (if p_writable d then (True, d\<lparr>p_file := Some (phase_text st)\<rparr>) else (False, d))"

text \<open>The partial update: the new skills and gates, when given.\<close>

definition UpdatePhaseState ::
    "int \<Rightarrow> string list option \<Rightarrow> string list option \<Rightarrow> phase_fs \<Rightarrow> bool \<times> phase_fs" where
  "UpdatePhaseState now skills gates d =
     (let (st, d1) = GetPhaseState now d
      in case st of None \<Rightarrow> (True, d1)
         | Some s0 \<Rightarrow>
           (let s1 = (case skills of None \<Rightarrow> s0 | Some x \<Rightarrow> s0\<lparr>SkillsRead := Some x\<rparr>);
                s2 = (case gates of None \<Rightarrow> s1 | Some x \<Rightarrow> s1\<lparr>GatesPassed := Some x\<rparr>)
            in WritePhaseState s2 d1))"

definition strs :: "string list option \<Rightarrow> string list" where
  "strs x = (case x of None \<Rightarrow> [] | Some ss \<Rightarrow> ss)"

definition CleanPhaseStateIfFinal :: "int \<Rightarrow> phase_fs \<Rightarrow> phase_fs" where
  "CleanPhaseStateIfFinal now d =
     (let (st, d1) = GetPhaseState now d
      in case st of None \<Rightarrow> d1
         | Some s \<Rightarrow> if \<not> CookitActive s then d1
                    else if ''final'' \<in> set (strs (GatesPassed s)) then snd (remove_state d1) else d1)"

subsection \<open>Phase guard (hook/phase_guard.go)\<close>

record specific_output =
  HookEventName :: string
  AdditionalContext :: string

definition phaseGuardedEditTools :: "string list" where
  "phaseGuardedEditTools =
     [''Edit'', ''Write'', ''str_replace'', ''create_file'', ''text_editor'', ''developer__text_editor'',
      ''str_replace_editor'', ''write'', ''edit'']"

definition isPhaseGuardedEditTool :: "string \<Rightarrow> bool" where
  "isPhaseGuardedEditTool name \<longleftrightarrow> name \<in> set phaseGuardedEditTools"

definition guard_message :: "phase_state \<Rightarrow> string \<Rightarrow> string" where
  "guard_message st path =
     ''PHASE GUARD WARNING: You are in phase '' @ CurrentPhase st @ '' (index '' @ show_int (PhaseIndex st) @
     '') but have NOT read the skill file yet. Read '' @ path @ '' before continuing.''"

definition ProcessPhaseGuard :: "int \<Rightarrow> string \<Rightarrow> phase_fs \<Rightarrow> specific_output option \<times> phase_fs" where
  "ProcessPhaseGuard now toolName d =
     (if \<not> isPhaseGuardedEditTool toolName then (None, d)
      else let (st, d1) = GetPhaseState now d
           in case st of None \<Rightarrow> (None, d1)
              | Some s \<Rightarrow>
                if \<not> CookitActive s then (None, d1)
                else let path = ResolveSkillPath (CurrentPhase s)
                     in if path \<in> set (strs (SkillsRead s)) then (None, d1)
                        else (Some \<lparr>HookEventName = ''PreToolUse'', AdditionalContext = guard_message s path\<rparr>, d1))"

subsection \<open>Read tracker (hook/read_tracker.go)\<close>

definition skillPathPattern :: re where
  "skillPathPattern =
     seqs [alts [RBegin, RLit ''/''], lit ''.claude/skills/compound/'',
           RGroup 1 (RPlus True (RCls (CNot (CHR ''/'')))), lit ''/SKILL.md'', REnd]"

text \<open>\<open>file_path\<close> of the tool input, when it is a string.\<close>

definition input_path :: "(string, json) gomap \<Rightarrow> string option" where
  "input_path input = (case map_of input ''file_path'' of Some (JStr s) \<Rightarrow> Some s | _ \<Rightarrow> None)"

definition skill_of_path :: "string \<Rightarrow> string option" where
  "skill_of_path p =
     (let w = runes (replace_char (CHR 0x5C) ''/'' p)
      in case find_match skillPathPattern w of None \<Rightarrow> None
         | Some (i, j, caps) \<Rightarrow> Some (group_text w caps 1))"

definition ProcessReadTracker :: "int \<Rightarrow> string \<Rightarrow> (string, json) gomap \<Rightarrow> phase_fs \<Rightarrow> phase_fs" where
  "ProcessReadTracker now toolName input d =
     (if toolName \<noteq> ''Read'' then d
      else let (st, d1) = GetPhaseState now d
           in case st of None \<Rightarrow> d1
              | Some s \<Rightarrow>
                if \<not> CookitActive s then d1
                else case input_path input of None \<Rightarrow> d1
                | Some p \<Rightarrow> (case skill_of_path p of None \<Rightarrow> d1
                  | Some skill \<Rightarrow>
                    (let path = ''.claude/skills/compound/'' @ skill @ ''/SKILL.md''
                     in if path \<in> set (strs (SkillsRead s)) then d1
                        else snd (UpdatePhaseState now (Some (strs (SkillsRead s) @ [path])) None d1))))"

subsection \<open>Stop audit (hook/stop_audit.go)\<close>

record stop_result =
  Continue :: "bool option"
  StopReason :: string

definition stop_ok :: stop_result where
  "stop_ok = \<lparr>Continue = None, StopReason = []\<rparr>"

definition hasTransitionEvidence :: "phase_state \<Rightarrow> bool" where
  "hasTransitionEvidence st =
     (if PhaseIndex st = int (length Phases) then True
      else if PhaseIndex st < 1 \<or> int (length Phases) \<le> PhaseIndex st then False
      else (''.claude/skills/compound/'' @ Phases ! nat (PhaseIndex st) @ ''/SKILL.md'') \<in> set (strs (SkillsRead st)))"

definition ProcessStopAudit :: "int \<Rightarrow> bool \<Rightarrow> phase_fs \<Rightarrow> stop_result \<times> phase_fs" where
  "ProcessStopAudit now stopHookActive d =
     (if stopHookActive then (stop_ok, d)
      else let (st, d1) = GetPhaseState now d
           in case st of None \<Rightarrow> (stop_ok, d1)
              | Some s \<Rightarrow>
                if \<not> CookitActive s then (stop_ok, d1)
                else let gate = ExpectedGateForPhase (PhaseIndex s)
                     in if gate = [] then (stop_ok, d1)
                        else if gate \<in> set (strs (GatesPassed s)) then (stop_ok, d1)
                        else if \<not> hasTransitionEvidence s then (stop_ok, d1)
                        else (\<lparr>Continue = Some False,
                          StopReason = ''PHASE GATE NOT VERIFIED: '' @ CurrentPhase s @ '' requires gate '' @ [CHR 0x27] @
                            gate @ [CHR 0x27] @ ''. Run: ca phase-check gate '' @ gate\<rparr>, d1))"

subsection \<open>The phase-check commands (cli/commands_phase.go)\<close>

datatype phase_error =
    InvalidPhase string
  | StateExists string string
  | NoActiveState
  | InvalidGate string
  | WriteStateFailed
  | RemoveStateFailed

text \<open>The clock reading that \<open>time.Now()\<close> returns, by its UTC fields.\<close>

definition handlePhaseInit ::
    "datetime \<Rightarrow> string \<Rightarrow> bool \<Rightarrow> string \<Rightarrow> phase_fs \<Rightarrow> phase_error option \<times> phase_fs" where
  "handlePhaseInit now epicID force phase d =
     (if \<not> IsValidSkillPhase phase then (Some (InvalidPhase phase), d)
      else
        let (existing, d1) = (if force then (None, d) else GetPhaseState (instant now) d)
        in case existing of Some s \<Rightarrow> (Some (StateExists (EpicID s) (CurrentPhase s)), d1)
           | None \<Rightarrow>
             (let (ok, d2) = WritePhaseState
                \<lparr>CookitActive = True, EpicID = epicID, CurrentPhase = phase, PhaseIndex = int (PhaseIndexOf phase),
                 SkillsRead = Some [], GatesPassed = Some [], StartedAt = format_rfc3339 now\<rparr> d1
              in (if ok then None else Some WriteStateFailed, d2)))"

definition handlePhaseStart :: "datetime \<Rightarrow> string \<Rightarrow> phase_fs \<Rightarrow> phase_error option \<times> phase_fs" where
  "handlePhaseStart now phase d =
     (if \<not> IsValidSkillPhase phase then (Some (InvalidPhase phase), d)
      else let (st, d1) = GetPhaseState (instant now) d
           in case st of None \<Rightarrow> (Some NoActiveState, d1)
              | Some s \<Rightarrow>
                (let (ok, d2) = WritePhaseState
                   (s\<lparr>CurrentPhase := phase, PhaseIndex := int (PhaseIndexOf phase),
                      GatesPassed := Some [], SkillsRead := Some []\<rparr>) d1
                 in (if ok then None else Some WriteStateFailed, d2)))"

definition handlePhaseGate :: "datetime \<Rightarrow> string \<Rightarrow> phase_fs \<Rightarrow> phase_error option \<times> phase_fs" where
  "handlePhaseGate now gate d =
     (if \<not> IsValidGate gate then (Some (InvalidGate gate), d)
      else let (st, d1) = GetPhaseState (instant now) d
           in case st of None \<Rightarrow> (Some NoActiveState, d1)
              | Some s \<Rightarrow>
                let gates = strs (GatesPassed s);
                    s1 = (if gate \<in> set gates then s else s\<lparr>GatesPassed := Some (gates @ [gate])\<rparr>)
                in if gate = ''final'' then
                     (let (ok, d2) = remove_state d1 in (if ok then None else Some RemoveStateFailed, d2))
                   else
                     (let (ok, d2) = WritePhaseState s1 d1 in (if ok then None else Some WriteStateFailed, d2)))"

text \<open>\<open>%v\<close> of a slice of strings.\<close>

definition show_slice :: "string list \<Rightarrow> string" where
  "show_slice ss = ''['' @ join '' '' ss @ '']''"

definition handlePhaseStatus :: "datetime \<Rightarrow> bool \<Rightarrow> phase_fs \<Rightarrow> string list \<times> phase_fs" where
  "handlePhaseStatus now jsonOut d =
     (let (st, d1) = GetPhaseState (instant now) d
      in (if jsonOut then
            (case st of None \<Rightarrow> [marshal (JObj [(''cookit_active'', JBool False)])]
             | Some s \<Rightarrow> [phase_text s])
          else case st of None \<Rightarrow> [''No active cook-it session.'']
            | Some s \<Rightarrow>
              [''Active cook-it Session'',
               ''  Epic: '' @ EpicID s,
               ''  Phase: '' @ CurrentPhase s @ '' ('' @ show_int (PhaseIndex s) @ '')'',
               ''  Skills read: '' @ (if strs (SkillsRead s) \<noteq> [] then show_slice (strs (SkillsRead s)) else ''(none)''),
               ''  Gates passed: '' @ (if strs (GatesPassed s) \<noteq> [] then show_slice (strs (GatesPassed s)) else ''(none)''),
               ''  Started: '' @ StartedAt s], d1))"

definition handlePhaseClean :: "phase_fs \<Rightarrow> phase_error option \<times> phase_fs" where
  "handlePhaseClean d = (let (ok, d1) = remove_state d in (if ok then None else Some RemoveStateFailed, d1))"

end
