(* ===== verification/PhaseProps.thy ===== *)
theory PhaseProps
  imports PhaseState
begin

section \<open>The phase state machine: properties\<close>

text \<open>
  The state file round-trips; a step relation over the commands and hooks has an invariant on
  the file; the guard, the read tracker and the stop audit do their part of the cycle.
\<close>

subsection \<open>The state file round-trips\<close>

definition phase_ok :: "phase_state \<Rightarrow> bool" where
  "phase_ok st \<longleftrightarrow> valid_utf8 (EpicID st) \<and> valid_utf8 (CurrentPhase st) \<and> valid_utf8 (StartedAt st) \<and>
     strs_ok (SkillsRead st) \<and> strs_ok (GatesPassed st) \<and> 1 \<le> PhaseIndex st \<and> PhaseIndex st \<le> 6"

lemma wf_enc_phase: "phase_ok st \<Longrightarrow> wf_json (enc_phase st)"
  by (simp add: phase_ok_def enc_phase_def valid_utf8_lit byte_in_def)

lemma jdepth_enc_phase: "jdepth (enc_phase st) \<le> 2"
  unfolding enc_phase_def Suc_1 [symmetric]
  by (rule jdepth_JObj_le) (simp add: j_int_def)

lemma parse_phase_text: "phase_ok st \<Longrightarrow> json_parse (phase_text st) = Some (enc_phase st)"
  unfolding phase_text_def
  by (rule parse_marshal_indent) (use wf_enc_phase jdepth_enc_phase [of st] in \<open>auto simp: max_depth_def\<close>)

lemma lit_scaled_int: "0 \<le> i \<Longrightarrow> lit_scaled (show_int i) = (False, nat i, 1)"
proof -
  assume "0 \<le> i"
  obtain c q where d: "digits_of (nat i) = c # q" by (cases "digits_of (nat i)") auto
  have sd: "span_digits (c # q) = (c # q, [])"
    using digits_of_digits [of "nat i"] by (simp add: span_digits_def d)
  have "dec_val (c # q) = nat i" using dec_val_digits_of [of "nat i"] d by simp
  then show ?thesis using \<open>0 \<le> i\<close> sd digits_head [OF d]
    by (simp add: lit_scaled_def lit_parts_def show_int_def d)
qed

lemma float_max: "6 < (2::nat) ^ 1024 - 2 ^ 970"
proof -
  have "(2::nat) ^ (970 + 54) - 2 ^ 970 = 2 ^ 970 * (2 ^ 54 - 1)"
    by (simp only: power_add diff_mult_distrib2 mult_1_right)
  then have "(2::nat) ^ 1024 - 2 ^ 970 = 2 ^ 970 * (2 ^ 54 - 1)" by simp
  moreover have "6 < 1 * ((2::nat) ^ 54 - 1)" by simp
  moreover have "1 * ((2::nat) ^ 54 - 1) \<le> 2 ^ 970 * (2 ^ 54 - 1)" by (rule mult_le_mono1) simp
  ultimately show ?thesis by linarith
qed

lemma rounds_int: "0 \<le> i \<Longrightarrow> lit_rounds_to (show_int i) k \<longleftrightarrow> k = nat i"
  by (auto simp: lit_rounds_to_def lit_scaled_int Let_def)

lemma small_index:
  assumes "1 \<le> i" and "i \<le> (6::int)"
  shows "json_index (show_int i) = Some i" and "lit_finite (show_int i)"
proof -
  have "List.find (\<lambda>k. k = nat i) [1..<7] = Some (nat i)"
    using assms by (auto simp: upt_rec)
  moreover have "lit_rounds_to (show_int i) = (\<lambda>k. k = nat i)"
    using rounds_int assms(1) by (intro ext) simp
  ultimately show "json_index (show_int i) = Some i" using assms(1) by (simp add: json_index_def)
  show "lit_finite (show_int i)"
    using assms float_max by (simp only: lit_finite_def lit_scaled_int Let_def prod.case mult_1_left)
qed

lemma nums_finite_strs [simp]: "nums_finite (j_strs x)"
  by (simp add: j_strs_def list_all_iff split: option.split)

lemma phase_members_sorted:
  "insertion_sort key_before (migratePhaseState (raw_map
     [(''cookit_active'', a), (''epic_id'', b), (''current_phase'', c), (''phase_index'', d),
      (''skills_read'', e), (''gates_passed'', f), (''started_at'', g)])) =
   [(''cookit_active'', a), (''current_phase'', c), (''epic_id'', b), (''gates_passed'', f),
    (''phase_index'', d), (''skills_read'', e), (''started_at'', g)]"
  by (simp add: raw_map_def migratePhaseState_def insertion_sort_def key_before_def less_char_def)

lemma canon_phase_keys [simp]:
  "canon_key phase_keys ''cookit_active'' = Some ''cookit_active''"
  "canon_key phase_keys ''epic_id'' = Some ''epic_id''"
  "canon_key phase_keys ''current_phase'' = Some ''current_phase''"
  "canon_key phase_keys ''phase_index'' = Some ''phase_index''"
  "canon_key phase_keys ''skills_read'' = Some ''skills_read''"
  "canon_key phase_keys ''gates_passed'' = Some ''gates_passed''"
  "canon_key phase_keys ''started_at'' = Some ''started_at''"
  by (simp_all add: canon_key_exact phase_keys_def)

lemma unmarshal_phase_text:
  assumes "phase_ok st"
  shows "unmarshal_phase (phase_text st) = Some st"
proof -
  have i: "1 \<le> PhaseIndex st" "PhaseIndex st \<le> 6" using assms by (simp_all add: phase_ok_def)
  show ?thesis
    using parse_phase_text [OF assms] small_index [OF i]
    by (cases st)
      (simp add: unmarshal_phase_def enc_phase_def phase_members_sorted phase_field_def j_int_def)
qed

subsection \<open>Skill paths round-trip through the read tracker's pattern\<close>

lemma run_seq_assoc: "run w (RSeq a (RSeq b c)) st = run w (RSeq (RSeq a b) c) st"
proof -
  have "concat (map (\<lambda>s. concat (map (run w c) (run w b s))) xs) = concat (map (run w c) (concat (map (run w b) xs)))" for xs
    by (induction xs) simp_all
  moreover have "run w (RSeq b c) = (\<lambda>s. concat (map (run w c) (run w b s)))" by (rule ext) simp
  ultimately show ?thesis by (simp only: run.simps)
qed

definition skill_start :: re where
  "skill_start = RSeq (alts [RBegin, RLit ''/'']) (lit ''.claude/skills/compound/'')"

definition skill_end :: re where
  "skill_end = RSeq (lit ''/SKILL.md'') REnd"

definition not_slash :: re where
  "not_slash = RPlus True (RCls (CNot (CHR ''/'')))"

lemma skill_pattern_run:
  "run w skillPathPattern st = run w (RSeq skill_start (RSeq (RGroup 1 not_slash) skill_end)) st"
  unfolding skillPathPattern_def skill_start_def skill_end_def not_slash_def seqs.simps
  by (rule run_seq_assoc)

lemma skill_pattern_matches:
  "matches w skillPathPattern i j \<longleftrightarrow> (\<exists>x y. matches w skill_start i x \<and> matches w not_slash x y \<and> matches w skill_end y j)"
  by (auto simp: skillPathPattern_def skill_start_def skill_end_def not_slash_def matches_seq matches_group)

lemma not_slash_matches:
  "matches w not_slash x y \<longleftrightarrow> x < y \<and> (\<forall>k. x \<le> k \<and> k < y \<longrightarrow> k < length w \<and> w ! k \<noteq> ''/'')"
proof -
  have "matches w not_slash x y \<longleftrightarrow> x < length w \<and> w ! x \<noteq> ''/'' \<and> matches w (RStar True (RCls (CNot (CHR ''/'')))) (Suc x) y"
    by (auto simp: not_slash_def RPlus_def matches_seq matches_cls)
  then show ?thesis unfolding matches_star_cls
    by (auto simp: Suc_le_eq dest: le_neq_implies_less)
qed

lemma skill_end_matches:
  "matches w skill_end y j \<Longrightarrow> j = length w \<and> length w = y + 9"
  by (auto simp: skill_end_def matches_seq matches_lit matches_end)

lemma skill_start_matches:
  assumes "matches w skill_start i x"
  shows "0 < x \<and> w ! (x - 1) = ''/''"
proof -
  from assms obtain m where "matches w (lit ''.claude/skills/compound/'') m x"
    by (auto simp: skill_start_def matches_seq)
  then have "x = m + 24" "w ! (m + 23) = ''/''" by (auto simp: matches_lit dest: spec [of _ 23])
  then show ?thesis by (simp add: add.commute)
qed

lemma no_groups: "no_group skill_start" "no_group skill_end" "no_group not_slash"
  by (simp_all add: skill_start_def skill_end_def not_slash_def RPlus_def lit_def)

lemma valid_runes_append: "valid_utf8 p \<Longrightarrow> runes (p @ t) = runes p @ runes t"
proof (induction p rule: valid_utf8.induct)
  case (1 p)
  show ?case
  proof (cases p)
    case Nil
    then show ?thesis by simp
  next
    case (Cons a r)
    then have ne: "p \<noteq> []" by simp
    with "1.prems" have w: "rune_width p \<noteq> 0" and v: "valid_utf8 (drop (rune_width p) p)"
      unfolding valid_utf8.simps [of p] Let_def by (simp_all split: if_splits)
    have "rune_width (p @ t) = rune_width (take (rune_width p) p @ drop (rune_width p) p @ t)"
      by (simp only: append_assoc [symmetric] append_take_drop_id)
    also have "\<dots> = rune_width p" by (rule rune_width_take [OF w])
    finally have wa: "rune_width (p @ t) = rune_width p" .
    have "runes (p @ t) = take (rune_width p) p # runes (drop (rune_width p) p @ t)"
    proof -
      have "take (rune_width p) (p @ t) = take (rune_width p) p" "drop (rune_width p) (p @ t) = drop (rune_width p) p @ t"
        using rune_width_le [of p] by simp_all
      moreover have "p @ t = a # r @ t" using Cons by simp
      ultimately show ?thesis using w wa by (subst runes.simps) (simp add: Let_def)
    qed
    also have "\<dots> = take (rune_width p) p # runes (drop (rune_width p) p) @ runes t"
      using "1.IH" [OF ne refl w v] by simp
    also have "\<dots> = runes p @ runes t" using Cons w by (subst (2) runes.simps) (simp add: Let_def)
    finally show ?thesis .
  qed
qed

text \<open>A directory prefix: empty or ending with a slash, valid UTF-8, without backslashes.\<close>

definition dir_prefix :: "string \<Rightarrow> bool" where
  "dir_prefix s \<longleftrightarrow> s = [] \<or> (last s = CHR ''/'' \<and> valid_utf8 (butlast s) \<and> CHR 0x5C \<notin> set s)"

definition skill_name :: "string \<Rightarrow> bool" where
  "skill_name p \<longleftrightarrow> p \<noteq> [] \<and> CHR ''/'' \<notin> set p \<and> CHR 0x5C \<notin> set p \<and> valid_utf8 p"

lemma replace_char_id: "c \<notin> set s \<Longrightarrow> replace_char c new s = s"
  by (induction s) (auto simp: replace_char_def)

definition skill_dir :: "string list" where
  "skill_dir = map (\<lambda>c. [c]) ''.claude/skills/compound/''"

definition skill_file :: "string list" where
  "skill_file = map (\<lambda>c. [c]) ''/SKILL.md''"

lemma skill_dir_runes: "runes (''.claude/skills/compound/'' @ t) = skill_dir @ runes t"
  using valid_runes_append [of "''.claude/skills/compound/''" t] runes_ascii [of "''.claude/skills/compound/''"]
  by (simp add: valid_utf8_lit byte_in_def skill_dir_def)

lemma skill_file_runes: "runes ''/SKILL.md'' = skill_file"
  using runes_ascii [of "''/SKILL.md''"] by (simp add: byte_in_def skill_file_def)

lemma prefix_runes:
  assumes "dir_prefix pre"
  shows "runes (pre @ t) = runes pre @ runes t" and "pre = [] \<or> (\<exists>q. runes pre = q @ [''/''])"
proof -
  have "pre = [] \<or> (\<exists>q. pre = q @ ''/'' \<and> valid_utf8 q)"
    using assms unfolding dir_prefix_def by (metis append_butlast_last_id)
  then consider "pre = []" | q where "pre = q @ ''/''" "valid_utf8 q" by blast
  then have "runes (pre @ t) = runes pre @ runes t \<and> (pre = [] \<or> (\<exists>q. runes pre = q @ [''/'']))"
  proof cases
    case 2
    have s: "runes (''/'' @ r) = ''/'' # runes r" for r by (simp add: runes_ascii_Cons byte_in_def)
    show ?thesis using s [of t] s [of "[]"] valid_runes_append [OF 2(2), of "''/'' @ t"]
        valid_runes_append [OF 2(2), of "''/''"] 2(1) by simp
  qed simp
  then show "runes (pre @ t) = runes pre @ runes t" "pre = [] \<or> (\<exists>q. runes pre = q @ [''/''])" by simp_all
qed

lemma skill_path_runes:
  assumes "dir_prefix pre" and "skill_name p"
  shows "runes (replace_char (CHR 0x5C) ''/'' (pre @ ResolveSkillPath p)) = runes pre @ skill_dir @ runes p @ skill_file"
proof -
  have "CHR 0x5C \<notin> set (pre @ ResolveSkillPath p)"
    using assms by (auto simp: dir_prefix_def skill_name_def ResolveSkillPath_def)
  then have "replace_char (CHR 0x5C) ''/'' (pre @ ResolveSkillPath p) = pre @ ''.claude/skills/compound/'' @ p @ ''/SKILL.md''"
    unfolding ResolveSkillPath_def by (rule replace_char_id)
  moreover have "valid_utf8 p" using assms(2) by (simp add: skill_name_def)
  ultimately show ?thesis
    by (simp only: prefix_runes(1) [OF assms(1)] skill_dir_runes valid_runes_append skill_file_runes)
qed

lemma runes_nonempty: "p \<noteq> [] \<Longrightarrow> runes p \<noteq> []"
  by (subst runes.simps) (auto simp: Let_def split: list.split)

lemma skill_seg_lengths: "length skill_dir = 24" "length skill_file = 9" "skill_dir ! 23 = ''/''"
  by (simp_all add: skill_dir_def skill_file_def)

text \<open>In a skill path only one span can be the group: the segment before the file name.\<close>

lemma skill_span:
  fixes u s :: "string list"
  defines "w \<equiv> u @ skill_dir @ s @ skill_file"
  assumes "s \<noteq> []" and "''/'' \<notin> set s"
    and "matches w skill_start i x" and "matches w not_slash x y" and "matches w skill_end y j"
  shows "x = length u + 24" and "y = length u + 24 + length s"
proof -
  have lw: "length w = length u + 24 + length s + 9" by (simp add: w_def skill_seg_lengths)
  with skill_end_matches [OF assms(6)] show y: "y = length u + 24 + length s" by simp
  have at: "w ! (length u + 24 + k) = s ! k" if "k < length s" for k
    using nth_append_length_plus [of "u @ skill_dir" "s @ skill_file" k] that
    by (simp add: w_def skill_seg_lengths nth_append)
  have bf: "w ! (length u + 23) = ''/''"
    using nth_append_length_plus [of u "skill_dir @ s @ skill_file" 23]
    by (simp add: w_def skill_seg_lengths nth_append)
  from skill_start_matches [OF assms(4)] have x: "0 < x" "w ! (x - 1) = ''/''" by simp_all
  from assms(5) have seg: "x < y" "\<And>k. x \<le> k \<Longrightarrow> k < y \<Longrightarrow> w ! k \<noteq> ''/''" by (auto simp: not_slash_matches)
  show "x = length u + 24"
  proof (rule ccontr)
    assume "x \<noteq> length u + 24"
    then consider "x \<le> length u + 23" | "length u + 24 < x" by linarith
    then show False
    proof cases
      case 1
      then show False using seg(2) [of "length u + 23"] bf y by simp
    next
      case 2
      then have "w ! (x - 1) = s ! (x - 1 - (length u + 24))" "x - 1 - (length u + 24) < length s"
        using at [of "x - 1 - (length u + 24)"] seg(1) y by auto
      with x(2) assms(3) show False by (metis nth_mem)
    qed
  qed
qed

lemma skill_pattern_found:
  assumes "u = [] \<or> (\<exists>q. u = q @ [''/''])" and "s \<noteq> []" and "''/'' \<notin> set s"
  shows "match_runes skillPathPattern (u @ skill_dir @ s @ skill_file)"
proof -
  let ?w = "u @ skill_dir @ s @ skill_file"
  let ?x = "length u + 24" and ?y = "length u + 24 + length s"
  have hd: "matches ?w (lit ''.claude/skills/compound/'') (length u) ?x"
    unfolding matches_lit
  proof (intro conjI allI impI)
    fix k assume k: "k < length ''.claude/skills/compound/''"
    have "?w ! (length u + k) = (skill_dir @ s @ skill_file) ! k" by (rule nth_append_length_plus)
    also have "\<dots> = skill_dir ! k" using k by (simp add: nth_append skill_seg_lengths)
    also have "\<dots> = [''.claude/skills/compound/'' ! k]" using k by (simp only: skill_dir_def nth_map)
    finally show "?w ! (length u + k) = [''.claude/skills/compound/'' ! k]" .
  qed (simp_all add: skill_seg_lengths)
  have tl: "matches ?w (lit ''/SKILL.md'') ?y (length ?w)"
    unfolding matches_lit
  proof (intro conjI allI impI)
    fix k assume k: "k < length ''/SKILL.md''"
    have "?w ! (?y + k) = skill_file ! k"
      using nth_append_length_plus [of "u @ skill_dir @ s" skill_file k] by (simp add: skill_seg_lengths add.assoc)
    also have "\<dots> = [''/SKILL.md'' ! k]" using k by (simp only: skill_file_def nth_map)
    finally show "?w ! (?y + k) = [''/SKILL.md'' ! k]" .
  qed (simp_all add: skill_seg_lengths)
  have mid: "matches ?w not_slash ?x ?y"
    unfolding not_slash_matches
  proof (intro conjI allI impI)
    fix k assume "?x \<le> k \<and> k < ?y"
    then obtain m where k: "k = ?x + m" "m < length s" using le_Suc_ex by fastforce
    have "?w ! k = (s @ skill_file) ! m"
      using nth_append_length_plus [of "u @ skill_dir" "s @ skill_file" m] by (simp add: skill_seg_lengths k)
    also have "\<dots> = s ! m" using k(2) by (simp add: nth_append)
    finally show "?w ! k \<noteq> ''/''" using assms(3) k(2) nth_mem by metis
  qed (use assms(2) in \<open>simp_all add: skill_seg_lengths\<close>)
  have "\<exists>i \<le> length u. matches ?w (alts [RBegin, RLit ''/'']) i (length u)"
    using assms(1)
  proof
    assume "u = []"
    then show ?thesis by (auto simp: matches_alt intro: m_begin)
  next
    assume "\<exists>q. u = q @ [''/'']"
    then obtain q where "u = q @ [''/'']" by blast
    then show ?thesis by (auto simp: matches_alt matches_RLit nth_append intro!: exI [of _ "length q"])
  qed
  then obtain i where "i \<le> length u" "matches ?w skill_start i ?x"
    using hd unfolding skill_start_def by (blast intro: m_seq)
  moreover have "matches ?w skill_end ?y (length ?w)"
    unfolding skill_end_def using tl by (blast intro: m_seq m_end)
  ultimately have "matches ?w skillPathPattern i (length ?w)"
    unfolding skill_pattern_matches using mid by blast
  moreover have "i \<le> length ?w" using \<open>i \<le> length u\<close> by simp
  ultimately show ?thesis unfolding match_runes_iff by blast
qed

lemma skill_of_resolved:
  assumes "dir_prefix pre" and "skill_name p"
  shows "skill_of_path (pre @ ResolveSkillPath p) = Some p"
proof -
  let ?u = "runes pre" and ?s = "runes p"
  let ?w = "?u @ skill_dir @ ?s @ skill_file"
  have s: "concat ?s = p" "?s \<noteq> []" using assms(2) concat_runes runes_nonempty by (auto simp: skill_name_def)
  have ns: "''/'' \<notin> set ?s"
  proof
    assume "''/'' \<in> set ?s"
    then have "CHR ''/'' \<in> set (concat ?s)" by force
    then show False using s assms(2) by (simp add: skill_name_def)
  qed
  have u: "?u = [] \<or> (\<exists>q. ?u = q @ [''/''])" using prefix_runes(2) [OF assms(1)] by auto
  from skill_pattern_found [OF u s(2) ns] obtain i j c where f: "find_match skillPathPattern ?w = Some (i, j, c)"
    by (metis find_match_None not_None_eq prod_cases3)
  from find_match_Some [OF f] have i: "i \<le> length ?w" and
    r: "(j, c) \<in> set (run ?w (RSeq skill_start (RSeq (RGroup 1 not_slash) skill_end)) (i, []))"
    by (simp_all only: skill_pattern_run)
  from run_group [OF no_groups(1,3,2) i r] obtain x y where c: "c = [(1, x, y)]" and
    m: "matches ?w skill_start i x" "matches ?w not_slash x y" "matches ?w skill_end y j" by blast
  from skill_span [OF s(2) ns m] have xy: "x = length ?u + 24" "y = length ?u + 24 + length ?s" by simp_all
  have "take (y - x) (drop x ?w) = ?s" using xy by (simp add: skill_seg_lengths)
  moreover have "group_text v [(1, x, y)] 1 = concat (take (y - x) (drop x v))" for v
    by (simp add: group_text_def)
  ultimately have "group_text ?w c 1 = p" using c s(1) by (simp only:)
  then show ?thesis using skill_path_runes [OF assms] f by (simp add: skill_of_path_def)
qed

subsection \<open>What GetPhaseState does to a written file\<close>

definition fresh :: "int \<Rightarrow> phase_state \<Rightarrow> bool" where
  "fresh now st \<longleftrightarrow> (case parse_rfc3339 (StartedAt st) of None \<Rightarrow> False | Some t \<Rightarrow> now - t \<le> phaseStateMaxAge)"

text \<open>The states the program writes.\<close>

definition good_phase :: "phase_state \<Rightarrow> bool" where
  "good_phase st \<longleftrightarrow> CookitActive st \<and> valid_utf8 (EpicID st) \<and> CurrentPhase st \<in> set ValidSkillPhases \<and>
     PhaseIndex st = int (PhaseIndexOf (CurrentPhase st)) \<and>
     (\<exists>ss. SkillsRead st = Some ss \<and> distinct ss \<and> (\<forall>s \<in> set ss. valid_utf8 s \<and> (\<exists>x. s = ResolveSkillPath x))) \<and>
     (\<exists>gs. GatesPassed st = Some gs \<and> distinct gs \<and> set gs \<subseteq> {''post-plan'', ''gate-3'', ''gate-4''}) \<and>
     valid_utf8 (StartedAt st) \<and> parse_rfc3339 (StartedAt st) \<noteq> None"

lemma phases_valid: "p \<in> set ValidSkillPhases \<Longrightarrow> valid_utf8 p \<and> 1 \<le> PhaseIndexOf p \<and> PhaseIndexOf p \<le> 6"
  by (auto simp: ValidSkillPhases_def PhaseIndexOf_def phaseIndexMap_def valid_utf8_lit byte_in_def)

lemma good_ok: "good_phase st \<Longrightarrow> phase_ok st"
proof -
  assume g: "good_phase st"
  have "list_all valid_utf8 gs" if "set gs \<subseteq> {''post-plan'', ''gate-3'', ''gate-4''}" for gs
    using that by (auto simp: list_all_iff valid_utf8_lit byte_in_def)
  with g phases_valid [of "CurrentPhase st"] show ?thesis
    by (auto simp: good_phase_def phase_ok_def strs_ok_def list_all_iff)
qed

lemma maxPhaseIndex_6: "maxPhaseIndex = 6"
  by (simp add: maxPhaseIndex_def phaseIndexMap_def)

lemma Get_written [phase_simps]:
  assumes "good_phase st" and "p_file d = Some (phase_text st)"
  shows "GetPhaseState now d = (if fresh now st then (Some st, d) else (None, snd (remove_state d)))"
proof -
  from assms(1) obtain t where t: "parse_rfc3339 (StartedAt st) = Some t" by (auto simp: good_phase_def)
  have i: "1 \<le> PhaseIndex st" "PhaseIndex st \<le> 6" using good_ok [OF assms(1)] by (simp_all add: phase_ok_def)
  have n: "parse_rfc3339 [] = None" by (simp add: parse_rfc3339_def parse_year_def)
  then have s: "StartedAt st \<noteq> []" using t by auto
  have "st\<lparr>SkillsRead := Some (case SkillsRead st of None \<Rightarrow> [] | Some x \<Rightarrow> x),
           GatesPassed := Some (case GatesPassed st of None \<Rightarrow> [] | Some x \<Rightarrow> x)\<rparr> = st"
    using assms(1) by (cases st) (auto simp: good_phase_def)
  with unmarshal_phase_text [OF good_ok [OF assms(1)]] assms(2) t s i maxPhaseIndex_6 show ?thesis
    by (simp add: GetPhaseState_def validatePhaseState_def fresh_def)
qed

text \<open>
  The invariant: the file is absent or holds a good state, and there is no legacy file.
\<close>

definition phase_inv :: "phase_fs \<Rightarrow> bool" where
  "phase_inv d \<longleftrightarrow> p_legacy d = None \<and> (\<forall>s. p_file d = Some s \<longrightarrow> (\<exists>st. good_phase st \<and> s = phase_text st))"

lemma Get_inv:
  assumes "phase_inv d"
  shows "phase_inv (snd (GetPhaseState now d))"
    and "fst (GetPhaseState now d) = Some st \<Longrightarrow>
      good_phase st \<and> fresh now st \<and> p_file d = Some (phase_text st) \<and> snd (GetPhaseState now d) = d"
proof -
  have "phase_inv (snd (GetPhaseState now d)) \<and> (fst (GetPhaseState now d) = Some st \<longrightarrow>
      good_phase st \<and> fresh now st \<and> p_file d = Some (phase_text st) \<and> snd (GetPhaseState now d) = d)"
  proof (cases "p_file d")
    case None
    with assms show ?thesis
      by (simp add: GetPhaseState_def readAndMigrateLegacyPhaseState_def phase_inv_def)
  next
    case (Some s)
    with assms obtain s0 where "good_phase s0" "s = phase_text s0" by (auto simp: phase_inv_def)
    with Some assms Get_written [of s0 d now] show ?thesis
      by (auto simp: phase_inv_def remove_state_def)
  qed
  then show "phase_inv (snd (GetPhaseState now d))" and "fst (GetPhaseState now d) = Some st \<Longrightarrow>
      good_phase st \<and> fresh now st \<and> p_file d = Some (phase_text st) \<and> snd (GetPhaseState now d) = d" by blast+
qed

lemma Write_inv: "phase_inv d \<Longrightarrow> good_phase st \<Longrightarrow> phase_inv (snd (WritePhaseState st d))"
  by (auto simp: phase_inv_def WritePhaseState_def)

lemma remove_inv: "phase_inv d \<Longrightarrow> phase_inv (snd (remove_state d))"
  by (auto simp: phase_inv_def remove_state_def)

subsection \<open>The step relation\<close>

text \<open>
  One run of a command or hook; the last rule lets the environment change the permissions.
\<close>

inductive phase_step :: "datetime \<Rightarrow> phase_fs \<Rightarrow> phase_fs \<Rightarrow> bool" for now where
  step_init: "valid_utf8 epic \<Longrightarrow> phase_step now d (snd (handlePhaseInit now epic force phase d))"
| step_start: "phase_step now d (snd (handlePhaseStart now phase d))"
| step_gate: "phase_step now d (snd (handlePhaseGate now gate d))"
| step_status: "phase_step now d (snd (handlePhaseStatus now j d))"
| step_clean: "phase_step now d (snd (handlePhaseClean d))"
| step_guard: "phase_step now d (snd (ProcessPhaseGuard (instant now) tool d))"
| step_read: "phase_step now d (ProcessReadTracker (instant now) tool input d)"
| step_stop: "phase_step now d (snd (ProcessStopAudit (instant now) active d))"
| step_final: "phase_step now d (CleanPhaseStateIfFinal (instant now) d)"
| step_chmod: "phase_step now d (d\<lparr>p_writable := b\<rparr>)"

inductive phase_reach :: "phase_fs \<Rightarrow> bool" where
  reach_start: "p_file d = None \<Longrightarrow> p_legacy d = None \<Longrightarrow> phase_reach d"
| reach_step: "phase_reach d \<Longrightarrow> dt_ok now \<Longrightarrow> phase_step now d d' \<Longrightarrow> phase_reach d'"

inductive_cases phase_stepE: "phase_step now d d'"

lemma valid_concat: "\<forall>r \<in> set rs. valid_utf8 r \<Longrightarrow> valid_utf8 (concat rs)"
  by (induction rs) (simp_all add: valid_utf8_append)

lemma runes_valid: "r \<in> set (runes s) \<Longrightarrow> valid_utf8 r"
proof (induction s rule: runes.induct)
  case (1 s)
  show ?case
  proof (cases s)
    case Nil
    with "1.prems" show ?thesis by simp
  next
    case (Cons a q)
    show ?thesis
    proof (cases "rune_width s = 0")
      case True
      with "1.prems" Cons "1.IH"(1) [OF Cons refl True] valid_utf8_error show ?thesis
        by (subst (asm) runes.simps) (auto simp: Let_def)
    next
      case False
      with "1.prems" Cons "1.IH"(2) [OF Cons refl False] valid_utf8_rune [OF False] show ?thesis
        by (subst (asm) runes.simps) (auto simp: Let_def)
    qed
  qed
qed

lemma skill_of_path_valid: "skill_of_path p = Some s \<Longrightarrow> valid_utf8 s"
proof -
  have "valid_utf8 (group_text (runes q) c n)" for q c n
    by (auto simp: group_text_def split: option.split intro!: valid_concat dest!: in_set_takeD in_set_dropD intro: runes_valid)
  then show "skill_of_path p = Some s \<Longrightarrow> valid_utf8 s"
    by (auto simp: skill_of_path_def Let_def split: option.splits)
qed

lemma resolved_valid: "valid_utf8 s \<Longrightarrow> valid_utf8 (ResolveSkillPath s)"
  unfolding ResolveSkillPath_def
  by (subst valid_utf8_append) (simp_all add: valid_utf8_append valid_utf8_lit byte_in_def)

lemma two_digits_ascii: "n < 100 \<Longrightarrow> list_all (byte_in 0 0x7F) (two_digits n)"
  by (simp add: two_digits_def byte_in_char_of) linarith

lemma format_valid: "dt_ok t \<Longrightarrow> valid_utf8 (format_rfc3339 t)"
proof -
  assume ok: "dt_ok t"
  have "month_days (dt_year t) (dt_month t) < 100" by (simp add: month_days_def)
  with ok have "dt_year t div 100 < 100" "dt_year t mod 100 < 100" "dt_month t < 100" "dt_day t < 100"
    "dt_hour t < 100" "dt_minute t < 100" "dt_second t < 100" by (auto simp: dt_ok_def)
  then show ?thesis unfolding format_rfc3339_def
    by (intro valid_utf8_ascii) (simp add: two_digits_ascii byte_in_def)
qed

lemma good_init:
  assumes "valid_utf8 epic" and "IsValidSkillPhase phase" and "dt_ok now"
  shows "good_phase \<lparr>CookitActive = True, EpicID = epic, CurrentPhase = phase, PhaseIndex = int (PhaseIndexOf phase),
    SkillsRead = Some [], GatesPassed = Some [], StartedAt = format_rfc3339 now\<rparr>"
  using assms format_valid [OF assms(3)] parse_format [OF assms(3)] by (simp add: good_phase_def IsValidSkillPhase_def)

lemma good_start:
  "good_phase st \<Longrightarrow> IsValidSkillPhase p \<Longrightarrow>
   good_phase (st\<lparr>CurrentPhase := p, PhaseIndex := int (PhaseIndexOf p), GatesPassed := Some [], SkillsRead := Some []\<rparr>)"
  by (auto simp: good_phase_def IsValidSkillPhase_def)

lemma good_gate:
  "good_phase st \<Longrightarrow> IsValidGate g \<Longrightarrow> g \<noteq> ''final'' \<Longrightarrow> g \<notin> set (strs (GatesPassed st)) \<Longrightarrow>
   good_phase (st\<lparr>GatesPassed := Some (strs (GatesPassed st) @ [g])\<rparr>)"
  by (auto simp: good_phase_def IsValidGate_def Gates_def strs_def)

lemma good_read:
  "good_phase st \<Longrightarrow> valid_utf8 s \<Longrightarrow> ResolveSkillPath s \<notin> set (strs (SkillsRead st)) \<Longrightarrow>
   good_phase (st\<lparr>SkillsRead := Some (strs (SkillsRead st) @ [ResolveSkillPath s])\<rparr>)"
  using resolved_valid [of s] by (auto simp: good_phase_def strs_def)

lemma Get_pair: "GetPhaseState now d = (x, d1) \<Longrightarrow> fst (GetPhaseState now d) = x \<and> snd (GetPhaseState now d) = d1"
  by simp

lemma inv_get:
  assumes "phase_inv d" and "GetPhaseState now d = (x, d1)"
  shows "phase_inv d1" and "x = Some st \<Longrightarrow> good_phase st \<and> fresh now st \<and> p_file d = Some (phase_text st) \<and> d1 = d"
  using Get_inv [OF assms(1), of now] assms(2) by auto

lemma init_inv:
  assumes "phase_inv d" and "dt_ok now" and "valid_utf8 epic"
  shows "phase_inv (snd (handlePhaseInit now epic force phase d))"
proof (cases "IsValidSkillPhase phase")
  case False
  with assms(1) show ?thesis by (simp add: handlePhaseInit_def)
next
  case True
  obtain x d1 where g: "(if force then (None, d) else GetPhaseState (instant now) d) = (x, d1)" by fastforce
  with assms(1) have i: "phase_inv d1" using inv_get(1) [OF assms(1)] by (cases force) auto
  show ?thesis
    using True g Write_inv [OF i good_init [OF assms(3) True assms(2)]] i
    by (cases x) (simp_all add: handlePhaseInit_def split_beta)
qed

lemma start_inv: "phase_inv d \<Longrightarrow> phase_inv (snd (handlePhaseStart now phase d))"
proof -
  assume i: "phase_inv d"
  obtain x d1 where g: "GetPhaseState (instant now) d = (x, d1)" by fastforce
  show ?thesis
    using i inv_get [OF i g] g Write_inv good_start
    by (cases x) (auto simp: handlePhaseStart_def split_beta)
qed

lemma gate_inv: "phase_inv d \<Longrightarrow> phase_inv (snd (handlePhaseGate now gate d))"
proof -
  assume i: "phase_inv d"
  obtain x d1 where g: "GetPhaseState (instant now) d = (x, d1)" by fastforce
  note k = inv_get [OF i g]
  show ?thesis
  proof (cases x)
    case None
    with i k g show ?thesis by (simp add: handlePhaseGate_def)
  next
    case (Some st)
    with k have gd: "good_phase st" by simp
    with g Some i k(1) remove_inv [OF k(1)] Write_inv [OF k(1) gd] Write_inv [OF k(1) good_gate [OF gd]]
    show ?thesis by (auto simp: handlePhaseGate_def split_beta Let_def)
  qed
qed

lemma update_inv:
  assumes "phase_inv d" and "GetPhaseState now d = (Some st, d)" and "valid_utf8 s"
    and "ResolveSkillPath s \<notin> set (strs (SkillsRead st))"
  shows "phase_inv (snd (UpdatePhaseState now (Some (strs (SkillsRead st) @ [ResolveSkillPath s])) None d))"
proof -
  have "good_phase st" using inv_get [OF assms(1,2)] by simp
  from Write_inv [OF assms(1) good_read [OF this assms(3,4)]] assms(2) show ?thesis
    by (simp add: UpdatePhaseState_def)
qed

lemma read_tracker:
  assumes "GetPhaseState now d = (Some st, d)"
  shows "ProcessReadTracker now tool input d =
    (if tool \<noteq> ''Read'' \<or> \<not> CookitActive st then d
     else case input_path input of None \<Rightarrow> d
     | Some p \<Rightarrow> (case skill_of_path p of None \<Rightarrow> d
       | Some skill \<Rightarrow>
         if ResolveSkillPath skill \<in> set (strs (SkillsRead st)) then d
         else snd (UpdatePhaseState now (Some (strs (SkillsRead st) @ [ResolveSkillPath skill])) None d)))"
  unfolding ProcessReadTracker_def assms ResolveSkillPath_def Let_def prod.case option.case by simp

lemma read_inv: "phase_inv d \<Longrightarrow> phase_inv (ProcessReadTracker now tool input d)"
proof -
  assume i: "phase_inv d"
  obtain x d1 where g: "GetPhaseState now d = (x, d1)" by fastforce
  note k = inv_get [OF i g]
  show ?thesis
  proof (cases x)
    case None
    with i k g show ?thesis by (simp add: ProcessReadTracker_def)
  next
    case (Some st)
    with k g have g': "GetPhaseState now d = (Some st, d)" by simp
    show ?thesis
      using i update_inv [OF i g'] skill_of_path_valid
      by (simp add: read_tracker [OF g'] split: option.split)
  qed
qed

lemma hooks_inv:
  assumes "phase_inv d"
  shows "phase_inv (snd (ProcessPhaseGuard now tool d))" and "phase_inv (snd (ProcessStopAudit now active d))"
    and "phase_inv (CleanPhaseStateIfFinal now d)" and "phase_inv (snd (handlePhaseStatus now' j d))"
proof -
  obtain x d1 where g: "GetPhaseState now d = (x, d1)" by fastforce
  note k = inv_get [OF assms g]
  show "phase_inv (snd (ProcessPhaseGuard now tool d))"
    using assms k g by (cases x) (auto simp: ProcessPhaseGuard_def Let_def)
  show "phase_inv (snd (ProcessStopAudit now active d))"
    using assms k g by (cases x) (auto simp: ProcessStopAudit_def Let_def)
  show "phase_inv (CleanPhaseStateIfFinal now d)"
    using assms k g remove_inv by (cases x) (auto simp: CleanPhaseStateIfFinal_def)
  show "phase_inv (snd (handlePhaseStatus now' j d))"
    using Get_inv(1) [OF assms] by (simp add: handlePhaseStatus_def split_beta)
qed

lemma step_inv: "phase_step now d d' \<Longrightarrow> dt_ok now \<Longrightarrow> phase_inv d \<Longrightarrow> phase_inv d'"
proof (induction rule: phase_step.induct)
  case (step_chmod d b)
  then show ?case by (simp add: phase_inv_def)
next
  case (step_clean d)
  then show ?case using remove_inv by (simp add: handlePhaseClean_def split_beta)
qed (simp_all add: init_inv start_inv gate_inv read_inv hooks_inv)

lemma reach_inv: "phase_reach d \<Longrightarrow> phase_inv d"
proof (induction rule: phase_reach.induct)
  case (reach_start d)
  then show ?case by (simp add: phase_inv_def)
next
  case (reach_step d now d')
  then show ?case by (blast intro: step_inv)
qed

subsection \<open>Properties\<close>

text \<open>C3: Whatever commands and hooks have run, at whatever times and with whatever permissions, the
  phase state that \<open>GetPhaseState\<close> returns is consistent: its phase is a known one, its index is the
  index of that phase, the recorded gates are distinct valid gates without the final one, every
  recorded skill is a skill path recorded once, and it is at most 72 hours old.\<close>

theorem phase_state_consistent:
  assumes "phase_reach d" and "GetPhaseState now d = (Some st, d')"
  shows "CookitActive st \<and> IsValidSkillPhase (CurrentPhase st) \<and> PhaseIndex st = int (PhaseIndexOf (CurrentPhase st)) \<and>
     (\<exists>gs. GatesPassed st = Some gs \<and> distinct gs \<and> list_all IsValidGate gs \<and> ''final'' \<notin> set gs) \<and>
     (\<exists>ss. SkillsRead st = Some ss \<and> distinct ss \<and> list_all (\<lambda>s. has_prefix s ''.claude/skills/compound/'') ss) \<and>
     fresh now st \<and> d' = d"
proof -
  have g: "good_phase st" "fresh now st" "d' = d"
    using inv_get(2) [OF reach_inv [OF assms(1)] assms(2) refl] by simp_all
  have "list_all IsValidGate gs \<and> ''final'' \<notin> set gs" if "set gs \<subseteq> {''post-plan'', ''gate-3'', ''gate-4''}" for gs
    using that by (auto simp: list_all_iff IsValidGate_def Gates_def)
  moreover have "list_all (\<lambda>s. has_prefix s ''.claude/skills/compound/'') ss"
    if "\<forall>s \<in> set ss. \<exists>x. s = ResolveSkillPath x" for ss
    using that unfolding list_all_iff ResolveSkillPath_def by (metis has_prefix_append)
  ultimately show ?thesis using g by (auto simp: good_phase_def IsValidSkillPhase_def)
qed

definition dt_sample :: datetime where
  "dt_sample = \<lparr>dt_year = 2024, dt_month = 2, dt_day = 29, dt_hour = 10, dt_minute = 0, dt_second = 0, dt_nanos = 0\<rparr>"

definition fs_empty :: phase_fs where
  "fs_empty = \<lparr>p_file = None, p_legacy = None, p_writable = True\<rparr>"

lemma dt_sample_ok: "dt_ok dt_sample"
  by (simp add: dt_ok_def dt_sample_def month_days_def leap_year_def)

lemma epic_ok: "valid_utf8 ''e-1''"
  by (simp add: valid_utf8_lit byte_in_def)

definition fs_after_init :: "string \<Rightarrow> phase_fs" where
  "fs_after_init p = snd (handlePhaseInit dt_sample ''e-1'' False p fs_empty)"

lemma reach_after_init: "phase_reach (fs_after_init p)"
  unfolding fs_after_init_def
  by (rule reach_step [OF reach_start dt_sample_ok step_init [OF epic_ok]]) (simp_all add: fs_empty_def)

definition init_state :: "string \<Rightarrow> string \<Rightarrow> datetime \<Rightarrow> phase_state" where
  "init_state epic p now = \<lparr>CookitActive = True, EpicID = epic, CurrentPhase = p, PhaseIndex = int (PhaseIndexOf p),
     SkillsRead = Some [], GatesPassed = Some [], StartedAt = format_rfc3339 now\<rparr>"

lemma fresh_init:
  assumes "dt_ok now"
  shows "fresh t (init_state epic p now) \<longleftrightarrow> t - instant (now\<lparr>dt_nanos := 0\<rparr>) \<le> phaseStateMaxAge"
  by (simp add: fresh_def init_state_def parse_format [OF assms])

lemma after_init_file:
  "IsValidSkillPhase p \<Longrightarrow> fs_after_init p = \<lparr>p_file = Some (phase_text (init_state ''e-1'' p dt_sample)), p_legacy = None, p_writable = True\<rparr>"
  by (simp add: fs_after_init_def handlePhaseInit_def fs_empty_def GetPhaseState_def readAndMigrateLegacyPhaseState_def
      WritePhaseState_def init_state_def)

lemma after_init_get:
  assumes "IsValidSkillPhase p"
  shows "GetPhaseState (instant dt_sample) (fs_after_init p) = (Some (init_state ''e-1'' p dt_sample), fs_after_init p)"
proof -
  have g: "good_phase (init_state ''e-1'' p dt_sample)"
    using good_init [OF epic_ok assms dt_sample_ok] by (simp add: init_state_def)
  have "fresh (instant dt_sample) (init_state ''e-1'' p dt_sample)"
    by (simp add: fresh_init [OF dt_sample_ok]) (simp add: dt_sample_def phaseStateMaxAge_def ns_per_second_def)
  with Get_written [OF g, of "fs_after_init p" "instant dt_sample"] after_init_file [OF assms] show ?thesis by simp
qed

theorem phase_state_consistent_witness:
  "\<exists>st. GetPhaseState (instant dt_sample) (fs_after_init ''plan'') = (Some st, fs_after_init ''plan'') \<and>
     PhaseIndex st = int (PhaseIndexOf (CurrentPhase st))"
proof -
  have "IsValidSkillPhase ''plan''" by (simp add: IsValidSkillPhase_def ValidSkillPhases_def)
  from phase_state_consistent [OF reach_after_init after_init_get [OF this]] after_init_get [OF this]
  show ?thesis by blast
qed

text \<open>C7: Starting a phase closes the edit gate until its skill file is read: after a successful
  \<open>phase-check start\<close> the guard warns for every file-mutating tool, and after the Read tool has opened
  that phase's SKILL.md, in any directory, it lets every tool pass.\<close>

theorem guard_cycle:
  assumes "phase_reach d" and "p_writable d" and "dt_ok now" and "GetPhaseState (instant now) d = (Some st, d)"
    and "IsValidSkillPhase p" and "fresh t st" and "dir_prefix pre" and "isPhaseGuardedEditTool tool"
    and "handlePhaseStart now p d = (err, d1)"
    and "d2 = ProcessReadTracker t ''Read'' [(''file_path'', JStr (pre @ ResolveSkillPath p))] d1"
  shows "err = None \<and> fst (ProcessPhaseGuard t tool d1) \<noteq> None \<and> fst (ProcessPhaseGuard t tool d2) = None"
proof -
  have g: "good_phase st" using inv_get(2) [OF reach_inv [OF assms(1)] assms(4) refl] by simp
  define s1 where "s1 = st\<lparr>CurrentPhase := p, PhaseIndex := int (PhaseIndexOf p), GatesPassed := Some [], SkillsRead := Some []\<rparr>"
  define s2 where "s2 = s1\<lparr>SkillsRead := Some [ResolveSkillPath p]\<rparr>"
  have g1: "good_phase s1" unfolding s1_def by (rule good_start [OF g assms(5)])
  have pv: "valid_utf8 p" and nm: "skill_name p"
    using assms(5) phases_valid [of p]
    by (auto simp: IsValidSkillPhase_def skill_name_def ValidSkillPhases_def)
  have g2: "good_phase s2" using good_read [OF g1 pv] by (simp add: s2_def s1_def strs_def)
  have f: "fresh t s1" "fresh t s2" using assms(6) by (simp_all add: fresh_def s1_def s2_def)
  have d1: "err = None" "p_file d1 = Some (phase_text s1)" "p_writable d1"
    using assms(2,4,5,9) by (auto simp: handlePhaseStart_def WritePhaseState_def s1_def)
  have get1: "GetPhaseState t d1 = (Some s1, d1)" using Get_written [OF g1 d1(2), of t] f by simp
  have "d2 = d1\<lparr>p_file := Some (phase_text s2)\<rparr>"
    using assms(10) g1 d1(3) get1 skill_of_resolved [OF assms(7) nm]
    by (simp add: read_tracker [OF get1] input_path_def UpdatePhaseState_def WritePhaseState_def good_phase_def
        strs_def s2_def) (simp add: s1_def)
  then have get2: "GetPhaseState t d2 = (Some s2, d2)" using Get_written [OF g2, of d2 t] f by simp
  have "CookitActive s1" "CookitActive s2" "CurrentPhase s1 = p" "CurrentPhase s2 = p" "strs (SkillsRead s1) = []"
    "strs (SkillsRead s2) = [ResolveSkillPath p]"
    using g1 g2 by (simp_all add: good_phase_def s1_def s2_def strs_def)
  with get1 get2 d1 assms(8) show ?thesis by (simp add: ProcessPhaseGuard_def Let_def)
qed

theorem guard_cycle_witness:
  "\<exists>d1 d2. handlePhaseStart dt_sample ''work'' (fs_after_init ''plan'') = (None, d1) \<and>
     fst (ProcessPhaseGuard (instant dt_sample) ''Edit'' d1) \<noteq> None \<and>
     d2 = ProcessReadTracker (instant dt_sample) ''Read'' [(''file_path'', JStr (''/repo/'' @ ResolveSkillPath ''work''))] d1 \<and>
     fst (ProcessPhaseGuard (instant dt_sample) ''Edit'' d2) = None"
proof -
  have p: "IsValidSkillPhase ''plan''" "IsValidSkillPhase ''work''"
    by (simp_all add: IsValidSkillPhase_def ValidSkillPhases_def)
  obtain err d1 where s: "handlePhaseStart dt_sample ''work'' (fs_after_init ''plan'') = (err, d1)" by fastforce
  have w: "p_writable (fs_after_init ''plan'')" by (simp add: after_init_file [OF p(1)])
  have f: "fresh (instant dt_sample) (init_state ''e-1'' ''plan'' dt_sample)"
    by (simp add: fresh_init [OF dt_sample_ok]) (simp add: dt_sample_def phaseStateMaxAge_def ns_per_second_def)
  have pre: "dir_prefix ''/repo/''" by (simp add: dir_prefix_def valid_utf8_lit byte_in_def)
  have tool: "isPhaseGuardedEditTool ''Edit''" by (simp add: isPhaseGuardedEditTool_def phaseGuardedEditTools_def)
  from guard_cycle [OF reach_after_init w dt_sample_ok after_init_get [OF p(1)] p(2) f pre tool s refl] s
  show ?thesis by blast
qed

text \<open>C8: A blocked stop can always be resolved by the command its message names: when the stop audit
  blocks, the gate at the end of its message is a valid gate, recording it succeeds, and the next
  stop audit lets the session stop.\<close>

theorem stop_audit_resolvable:
  assumes "phase_reach d" and "p_writable d" and "ProcessStopAudit (instant now) False d = (r, d')"
    and "Continue r = Some False"
  shows "\<exists>gate. IsValidGate gate \<and> has_suffix (StopReason r) (''ca phase-check gate '' @ gate) \<and>
     fst (handlePhaseGate now gate d) = None \<and>
     fst (ProcessStopAudit (instant now) False (snd (handlePhaseGate now gate d))) = stop_ok"
proof -
  obtain x d1 where get: "GetPhaseState (instant now) d = (x, d1)" by fastforce
  with assms(3,4) obtain st where x: "x = Some st"
    by (cases x) (auto simp: ProcessStopAudit_def stop_ok_def)
  from inv_get(2) [OF reach_inv [OF assms(1)] get x] have g: "good_phase st" "fresh (instant now) st" "d1 = d"
    "p_file d = Some (phase_text st)" by simp_all
  let ?gate = "ExpectedGateForPhase (PhaseIndex st)"
  from assms(3,4) get x g have ng: "?gate \<noteq> []" "?gate \<notin> set (strs (GatesPassed st))" and
    r: "\<exists>m. StopReason r = m @ ''ca phase-check gate '' @ ?gate"
    by (auto simp: ProcessStopAudit_def stop_ok_def Let_def split: if_splits)
  have vg: "IsValidGate ?gate" using ng(1) by (auto simp: ExpectedGateForPhase_def IsValidGate_def Gates_def split: if_splits)
  have get': "GetPhaseState (instant now) d = (Some st, d)" using get x g(3) by simp
  show ?thesis
  proof (intro exI [of _ ?gate] conjI)
    show "has_suffix (StopReason r) (''ca phase-check gate '' @ ?gate)" using r by (simp only: has_suffix_iff)
    show "fst (handlePhaseGate now ?gate d) = None"
      using vg get' assms(2) by (simp add: handlePhaseGate_def Let_def remove_state_def WritePhaseState_def)
    show "fst (ProcessStopAudit (instant now) False (snd (handlePhaseGate now ?gate d))) = stop_ok"
    proof (cases "?gate = ''final''")
      case True
      then have "p_file (snd (handlePhaseGate now ?gate d)) = None \<and> p_legacy (snd (handlePhaseGate now ?gate d)) = None"
        using vg get' assms(2) g(4) reach_inv [OF assms(1)]
        by (simp add: handlePhaseGate_def Let_def remove_state_def phase_inv_def)
      then show ?thesis
        by (simp add: ProcessStopAudit_def GetPhaseState_def readAndMigrateLegacyPhaseState_def)
    next
      case False
      define s2 where "s2 = st\<lparr>GatesPassed := Some (strs (GatesPassed st) @ [?gate])\<rparr>"
      have g2: "good_phase s2" unfolding s2_def by (rule good_gate [OF g(1) vg False ng(2)])
      have "snd (handlePhaseGate now ?gate d) = d\<lparr>p_file := Some (phase_text s2)\<rparr>"
        using vg get' assms(2) ng(2) False by (simp add: handlePhaseGate_def Let_def WritePhaseState_def s2_def)
      moreover have "GetPhaseState (instant now) (d\<lparr>p_file := Some (phase_text s2)\<rparr>) =
          (Some s2, d\<lparr>p_file := Some (phase_text s2)\<rparr>)"
        using Get_written [OF g2, of "d\<lparr>p_file := Some (phase_text s2)\<rparr>" "instant now"] g(2)
        by (simp add: fresh_def s2_def)
      moreover have "?gate \<in> set (strs (GatesPassed s2))" "PhaseIndex s2 = PhaseIndex st"
        by (simp_all add: s2_def strs_def)
      ultimately show ?thesis by (simp add: ProcessStopAudit_def Let_def)
    qed
  qed (rule vg)
qed

theorem stop_audit_resolvable_witness:
  "Continue (fst (ProcessStopAudit (instant dt_sample) False (fs_after_init ''compound''))) = Some False \<and>
   (\<exists>gate. IsValidGate gate \<and> fst (handlePhaseGate dt_sample gate (fs_after_init ''compound'')) = None \<and>
     fst (ProcessStopAudit (instant dt_sample) False (snd (handlePhaseGate dt_sample gate (fs_after_init ''compound'')))) = stop_ok)"
proof -
  have p: "IsValidSkillPhase ''compound''" by (simp add: IsValidSkillPhase_def ValidSkillPhases_def)
  obtain r d' where s: "ProcessStopAudit (instant dt_sample) False (fs_after_init ''compound'') = (r, d')" by fastforce
  have w: "p_writable (fs_after_init ''compound'')" by (simp add: after_init_file [OF p])
  have c: "Continue r = Some False"
    using s after_init_get [OF p]
    by (auto simp: ProcessStopAudit_def init_state_def PhaseIndexOf_def phaseIndexMap_def ExpectedGateForPhase_def strs_def
        hasTransitionEvidence_def Phases_def Let_def)
  from stop_audit_resolvable [OF reach_after_init w s c] s c show ?thesis by auto
qed

text \<open>A phase state lives exactly 72 hours: after \<open>phase-check init\<close> on a repository without one,
  \<open>GetPhaseState\<close> returns the new state up to 72 hours after its start; later it returns nothing and
  removes the file, so that \<open>init\<close> works again without \<open>--force\<close>.\<close>

theorem phase_state_lifetime:
  assumes "p_file d = None" and "p_legacy d = None" and "p_writable d" and "dt_ok now" and "valid_utf8 epic"
    and "IsValidSkillPhase p" and "handlePhaseInit now epic False p d = (err, d1)"
  shows "err = None \<and>
     (t - instant (now\<lparr>dt_nanos := 0\<rparr>) \<le> phaseStateMaxAge \<longrightarrow> GetPhaseState t d1 = (Some (init_state epic p now), d1)) \<and>
     (phaseStateMaxAge < t - instant (now\<lparr>dt_nanos := 0\<rparr>) \<longrightarrow> GetPhaseState t d1 = (None, d))"
proof -
  have g: "good_phase (init_state epic p now)"
    using good_init [OF assms(5,6,4)] by (simp add: init_state_def)
  have d1: "err = None" "d1 = d\<lparr>p_file := Some (phase_text (init_state epic p now))\<rparr>"
    using assms by (auto simp: handlePhaseInit_def GetPhaseState_def readAndMigrateLegacyPhaseState_def
        WritePhaseState_def init_state_def)
  have "GetPhaseState t d1 = (if fresh t (init_state epic p now) then (Some (init_state epic p now), d1) else (None, d))"
    using Get_written [OF g, of d1 t] d1(2) assms(1,3) by (cases d) (simp add: remove_state_def)
  then show ?thesis using d1(1) by (simp add: fresh_init [OF assms(4)] not_le)
qed

theorem phase_state_lifetime_witness:
  "GetPhaseState (instant dt_sample + 100 * 60 * 60 * ns_per_second) (fs_after_init ''plan'') = (None, fs_empty)"
proof -
  have p: "IsValidSkillPhase ''plan''" by (simp add: IsValidSkillPhase_def ValidSkillPhases_def)
  obtain err d1 where s: "handlePhaseInit dt_sample ''e-1'' False ''plan'' fs_empty = (err, d1)" by fastforce
  have e: "p_file fs_empty = None" "p_legacy fs_empty = None" "p_writable fs_empty" by (simp_all add: fs_empty_def)
  have "phaseStateMaxAge < instant dt_sample + 100 * 60 * 60 * ns_per_second - instant (dt_sample\<lparr>dt_nanos := 0\<rparr>)"
    by (simp add: dt_sample_def phaseStateMaxAge_def ns_per_second_def)
  with phase_state_lifetime [OF e dt_sample_ok epic_ok p s, of "instant dt_sample + 100 * 60 * 60 * ns_per_second"] s
  show ?thesis by (simp add: fs_after_init_def)
qed

end
