(* ===== verification/Cosine.thy ===== *)
theory Cosine
  imports Complex_Main "HOL-Library.Monad_Syntax"
begin

section \<open>Package util: cosine similarity (util/cosine.go)\<close>

text \<open>
  Vectors of float64 are lists of reals; rounding is not modelled. \<open>CosineSimilarity\<close> is
  None where the code returns an error. The lemmas show that it is symmetric and lies
  between -1 and 1.
\<close>

definition cosine_sums :: "real list \<Rightarrow> real list \<Rightarrow> real \<times> real \<times> real" where
  "cosine_sums a b =
     foldl (\<lambda>(dot, na, nb) (x, y). (dot + x * y, na + x * x, nb + y * y)) (0, 0, 0) (zip a b)"

definition CosineSimilarity :: "real list \<Rightarrow> real list \<Rightarrow> real option" where
  "CosineSimilarity a b =
     (if length a \<noteq> length b then None
      else let (dot, na, nb) = cosine_sums a b; mag = sqrt na * sqrt nb
           in if mag = 0 then Some 0 else Some (dot / mag))"

definition dot :: "real list \<Rightarrow> real list \<Rightarrow> real" where
  "dot a b = (\<Sum>(x, y) \<leftarrow> zip a b. x * y)"

lemma cosine_fold:
  fixes d0 a0 b0 :: real
  shows "foldl (\<lambda>(d, na, nb) (x, y). (d + x * y, na + x * x, nb + y * y)) (d0, a0, b0) ps =
     (d0 + (\<Sum>(x, y) \<leftarrow> ps. x * y), a0 + (\<Sum>(x, y) \<leftarrow> ps. x * x), b0 + (\<Sum>(x, y) \<leftarrow> ps. y * y))"
  by (induction ps arbitrary: d0 a0 b0) auto

lemma dot_self: "length a = length b \<Longrightarrow> (\<Sum>(x, y) \<leftarrow> zip a b. x * x) = dot a a \<and> (\<Sum>(x, y) \<leftarrow> zip a b. y * y) = dot b b"
  by (induction a b rule: list_induct2) (simp_all add: dot_def)

lemma cosine_sums_dot: "length a = length b \<Longrightarrow> cosine_sums a b = (dot a b, dot a a, dot b b)"
  using dot_self [of a b] by (simp add: cosine_sums_def cosine_fold dot_def)

lemma cosine_eq:
  "length a = length b \<Longrightarrow> CosineSimilarity a b =
     Some (if sqrt (dot a a) * sqrt (dot b b) = 0 then 0 else dot a b / (sqrt (dot a a) * sqrt (dot b b)))"
  by (simp add: CosineSimilarity_def cosine_sums_dot Let_def)

lemma dot_commute: "dot a b = dot b a"
  unfolding dot_def by (induction a b rule: list_induct2') (simp_all add: mult.commute)

lemma cosine_commute: "CosineSimilarity a b = CosineSimilarity b a"
proof (cases "length a = length b")
  case True
  then show ?thesis by (simp add: cosine_eq dot_commute [of a b] mult.commute)
next
  case False
  then show ?thesis by (simp add: CosineSimilarity_def)
qed

lemma dot_nonneg: "0 \<le> dot a a"
  by (induction a) (simp_all add: dot_def)

text \<open>Cauchy and Schwarz, from the square of \<open>b - t a\<close>.\<close>

lemma dot_square:
  "length a = length b \<Longrightarrow> 0 \<le> dot b b - 2 * t * dot a b + t * t * dot a a"
proof (induction a b rule: list_induct2)
  case Nil
  show ?case by (simp add: dot_def)
next
  case (Cons x a y b)
  have "0 \<le> (y - t * x) * (y - t * x)" by simp
  then have "0 \<le> y * y - 2 * t * (x * y) + t * t * (x * x)" by (simp add: algebra_simps)
  with Cons.IH have "0 \<le> (y * y - 2 * t * (x * y) + t * t * (x * x)) + (dot b b - 2 * t * dot a b + t * t * dot a a)"
    by linarith
  then show ?case by (simp add: dot_def algebra_simps)
qed

lemma dot_zero: "length a = length b \<Longrightarrow> dot a a = 0 \<Longrightarrow> dot a b = 0"
proof (induction a b rule: list_induct2)
  case Nil
  show ?case by (simp add: dot_def)
next
  case (Cons x a y b)
  have "x * x + dot a a = 0" using Cons.prems by (simp add: dot_def)
  with dot_nonneg [of a] have "x * x = 0" "dot a a = 0"
    by (smt (verit) zero_le_square)+
  with Cons.IH show ?case by (simp add: dot_def)
qed

lemma cauchy_schwarz: "length a = length b \<Longrightarrow> dot a b * dot a b \<le> dot a a * dot b b"
proof (cases "dot a a = 0")
  case True
  assume l: "length a = length b"
  show ?thesis using dot_zero [OF l True] True by simp
next
  case False
  assume l: "length a = length b"
  then have p: "0 < dot a a" using False dot_nonneg [of a] by simp
  define t where "t = dot a b / dot a a"
  have e: "t * dot a a = dot a b" using False by (simp add: t_def)
  have "0 \<le> dot b b - 2 * t * dot a b + t * t * dot a a" by (rule dot_square [OF l])
  also have "\<dots> = dot b b - t * dot a b" using e by (simp add: algebra_simps)
  finally have "t * dot a b \<le> dot b b" by simp
  then have "dot a a * (t * dot a b) \<le> dot a a * dot b b" using p by (intro mult_left_mono) simp_all
  moreover have "dot a a * (t * dot a b) = dot a b * dot a b" using e by (simp add: algebra_simps)
  ultimately show ?thesis by simp
qed

lemma cosine_bounds:
  assumes "CosineSimilarity a b = Some s"
  shows "-1 \<le> s \<and> s \<le> 1"
proof -
  have l: "length a = length b" using assms by (auto simp: CosineSimilarity_def split: if_splits)
  let ?m = "sqrt (dot a a) * sqrt (dot b b)"
  have "\<bar>dot a b\<bar> = sqrt (dot a b * dot a b)" by simp
  also have "\<dots> \<le> sqrt (dot a a * dot b b)" by (rule real_sqrt_le_mono [OF cauchy_schwarz [OF l]])
  also have "\<dots> = ?m" by (rule real_sqrt_mult)
  finally have "\<bar>dot a b\<bar> \<le> ?m" .
  moreover have "0 \<le> ?m" by (simp add: dot_nonneg)
  moreover have "\<bar>d\<bar> \<le> m \<Longrightarrow> 0 \<le> m \<Longrightarrow> m \<noteq> 0 \<Longrightarrow> \<bar>d / m\<bar> \<le> 1" for d m :: real by simp
  ultimately have "?m \<noteq> 0 \<Longrightarrow> \<bar>dot a b / ?m\<bar> \<le> 1" by blast
  moreover have "s = (if ?m = 0 then 0 else dot a b / ?m)"
    using assms cosine_eq [OF l] by (simp only: option.inject)
  ultimately have "\<bar>s\<bar> \<le> 1" by (simp only: split: if_split) simp
  then show ?thesis by linarith
qed

text \<open>A vector of non-zero magnitude has similarity 1 with itself.\<close>

lemma cosine_self: "dot a a \<noteq> 0 \<Longrightarrow> CosineSimilarity a a = Some 1"
  using dot_nonneg [of a] by (simp add: cosine_eq)

end
