(* ===== verification/Compound.thy ===== *)
theory Compound
  imports MemoryStore Cosine GoTime
begin

section \<open>Package compound: clustering and pattern synthesis (compound/compound.go)\<close>

text \<open>
  Lessons are clustered by single linkage over a union-find with path halving and turned
  into patterns that are merged into a JSONL file. The order in which Go iterates a map
  is a parameter (\<open>iter\<close>) or, for the groups, the order in which they were created; the
  theorems do not depend on it. Similarities are reals.
\<close>

subsection \<open>Constants and types\<close>

definition DefaultThreshold :: real where "DefaultThreshold = 0.75"
definition MaxNameTags :: nat where "MaxNameTags = 3"
definition MaxNameLength :: nat where "MaxNameLength = 50"

record cct_pattern =
  cct_ID :: string
  cct_Name :: string
  cct_Description :: string
  cct_Frequency :: int
  cct_Testable :: bool
  cct_TestApproach :: "string option"
  cct_SourceIDs :: "string list option"
  cct_Created :: string

record cluster_result =
  Clusters :: "item list list"
  Noise :: "item list"

definition GenerateCctID :: "(string \<Rightarrow> string) \<Rightarrow> string \<Rightarrow> string" where
  "GenerateCctID sha256 inp = ''CCT-'' @ concat (map hex_byte (take 4 (sha256 inp)))"

subsection \<open>The similarity matrix\<close>

definition mat_set :: "real list list \<Rightarrow> nat \<Rightarrow> nat \<Rightarrow> real \<Rightarrow> real list list" where
  "mat_set m i j v = m[i := (m ! i)[j := v]]"

text \<open>The pairs \<open>i < j\<close> in the order of the two nested loops.\<close>

definition pairs_below :: "nat \<Rightarrow> (nat \<times> nat) list" where
  "pairs_below n = concat (map (\<lambda>i. map (\<lambda>j. (i, j)) [Suc i..<n]) [0..<n])"

definition sim_step :: "real list list \<Rightarrow> real list list \<Rightarrow> nat \<times> nat \<Rightarrow> real list list" where
  "sim_step es m = (\<lambda>(i, j).
     case CosineSimilarity (es ! i) (es ! j) of None \<Rightarrow> m
     | Some s \<Rightarrow> mat_set (mat_set m i j s) j i s)"

definition BuildSimilarityMatrix :: "real list list \<Rightarrow> real list list" where
  "BuildSimilarityMatrix es =
     (let n = length es
      in foldl (sim_step es) (map (\<lambda>i. (replicate n 0)[i := 1]) [0..<n]) (pairs_below n))"

subsection \<open>Union-find\<close>

text \<open>
  \<open>find\<close> halves the path while it climbs. It returns the root and the changed parent
  slice, or None if the climb does not end.
\<close>

partial_function (option) uf_find :: "nat list \<Rightarrow> nat \<Rightarrow> (nat \<times> nat list) option" where
  "uf_find p x =
     (if p ! x = x then Some (x, p)
      else (let p' = p[x := p ! (p ! x)] in uf_find p' (p' ! x)))"

definition uf_union :: "nat list \<Rightarrow> nat \<Rightarrow> nat \<Rightarrow> nat list option" where
  "uf_union p a b = do {
     (ra, p1) \<leftarrow> uf_find p a;
     (rb, p2) \<leftarrow> uf_find p1 b;
     Some (if ra \<noteq> rb then p2[ra := rb] else p2)
   }"

text \<open>The loop over the pairs; indexing outside the matrix is a panic, None here.\<close>

fun link_pairs :: "real list list \<Rightarrow> real \<Rightarrow> nat list \<Rightarrow> (nat \<times> nat) list \<Rightarrow> nat list option" where
  "link_pairs m thr p [] = Some p"
| "link_pairs m thr p ((i, j) # ps) =
     (if length m \<le> i \<or> length (m ! i) \<le> j then None
      else if thr \<le> m ! i ! j then
        (case uf_union p i j of None \<Rightarrow> None | Some p' \<Rightarrow> link_pairs m thr p' ps)
      else link_pairs m thr p ps)"

fun group_items :: "item list \<Rightarrow> nat \<Rightarrow> nat list \<Rightarrow> (nat, item list) gomap \<Rightarrow> (nat, item list) gomap option" where
  "group_items [] i p g = Some g"
| "group_items (it # its) i p g =
     (case uf_find p i of None \<Rightarrow> None
      | Some (r, p') \<Rightarrow>
          group_items its (Suc i) p'
            (AList.update r ((case map_of g r of None \<Rightarrow> [] | Some xs \<Rightarrow> xs) @ [it]) g))"

definition split_groups :: "(nat, item list) gomap \<Rightarrow> cluster_result" where
  "split_groups g =
     \<lparr>Clusters = filter (\<lambda>grp. length grp \<noteq> 1) (map snd g),
      Noise = map hd (filter (\<lambda>grp. length grp = 1) (map snd g))\<rparr>"

definition buildClusters :: "item list \<Rightarrow> nat list \<Rightarrow> cluster_result option" where
  "buildClusters items p = map_option split_groups (group_items items 0 p [])"

definition ClusterBySimilarity :: "item list \<Rightarrow> real list list \<Rightarrow> real \<Rightarrow> cluster_result option" where
  "ClusterBySimilarity items es thr =
     (let n = length items
      in if n = 0 then Some \<lparr>Clusters = [], Noise = []\<rparr>
         else case link_pairs (BuildSimilarityMatrix es) thr [0..<n] (pairs_below n) of
           None \<Rightarrow> None | Some p \<Rightarrow> buildClusters items p)"

subsection \<open>Patterns\<close>

definition count_tag :: "(string, nat) gomap \<Rightarrow> string \<Rightarrow> (string, nat) gomap" where
  "count_tag m t = AList.update t (Suc (case map_of m t of None \<Rightarrow> 0 | Some n \<Rightarrow> n)) m"

definition item_tags :: "item \<Rightarrow> string list" where
  "item_tags it = (case Tags it of None \<Rightarrow> [] | Some ts \<Rightarrow> ts)"

definition tag_counts :: "item list \<Rightarrow> (string, nat) gomap" where
  "tag_counts cluster = foldl count_tag [] (concat (map item_tags cluster))"

text \<open>\<open>iter\<close> is the order in which Go iterates the map, \<open>srt\<close> what \<open>sort.Slice\<close> does.\<close>

type_synonym 'a sorter = "('a \<Rightarrow> 'a \<Rightarrow> bool) \<Rightarrow> 'a list \<Rightarrow> 'a list"

definition aggregateTags ::
    "((string, nat) gomap \<Rightarrow> (string, nat) gomap) \<Rightarrow> (string \<times> nat) sorter \<Rightarrow> item list \<Rightarrow> string list" where
  "aggregateTags iter srt cluster =
     map fst (truncate_to MaxNameTags (srt (\<lambda>a b. snd a > snd b) (iter (tag_counts cluster))))"

definition buildPatternName ::
    "((string, nat) gomap \<Rightarrow> (string, nat) gomap) \<Rightarrow> (string \<times> nat) sorter \<Rightarrow> item list \<Rightarrow> string" where
  "buildPatternName iter srt cluster =
     (let tags = aggregateTags iter srt cluster
      in if tags \<noteq> [] then join '', '' tags
         else case cluster of [] \<Rightarrow> []
           | it # _ \<Rightarrow> (if MaxNameLength < length (Insight it) then take MaxNameLength (Insight it) else Insight it))"

definition buildInsightSummary :: "item list \<Rightarrow> string" where
  "buildInsightSummary cluster = join ''; '' (map Insight cluster)"

definition isClusterTestable :: "item list \<Rightarrow> bool" where
  "isClusterTestable cluster =
     list_ex (\<lambda>it. Severity it = Some ''high'' \<or> (case Evidence it of None \<Rightarrow> False | Some e \<Rightarrow> e \<noteq> [])) cluster"

definition SynthesizePattern ::
    "(string \<Rightarrow> string) \<Rightarrow> ((string, nat) gomap \<Rightarrow> (string, nat) gomap) \<Rightarrow> (string \<times> nat) sorter \<Rightarrow> datetime \<Rightarrow>
     item list \<Rightarrow> string \<Rightarrow> cct_pattern" where
  "SynthesizePattern sha256 iter srt now cluster clusterID =
     (let name = buildPatternName iter srt cluster; testable = isClusterTestable cluster
      in \<lparr>cct_ID = GenerateCctID sha256 clusterID, cct_Name = name,
          cct_Description = buildInsightSummary cluster, cct_Frequency = int (length cluster), cct_Testable = testable,
          cct_TestApproach = (if testable then Some (''Verify pattern: '' @ name @ ''. Check '' @
             show_int (int (length cluster)) @ '' related lesson(s).'') else None),
          cct_SourceIDs = Some (map ID cluster), cct_Created = format_rfc3339 now\<rparr>)"

definition merge_existing :: "(string, cct_pattern) gomap \<Rightarrow> cct_pattern list \<Rightarrow> cct_pattern list" where
  "merge_existing byID ex = map (\<lambda>p. case map_of byID (cct_ID p) of Some q \<Rightarrow> q | None \<Rightarrow> p) ex"

fun merge_new :: "string list \<Rightarrow> cct_pattern list \<Rightarrow> cct_pattern list" where
  "merge_new seen [] = []"
| "merge_new seen (p # ps) =
     (if cct_ID p \<in> set seen then merge_new seen ps else p # merge_new (cct_ID p # seen) ps)"

definition mergePatterns :: "cct_pattern list \<Rightarrow> cct_pattern list \<Rightarrow> cct_pattern list" where
  "mergePatterns ex news =
     (let byID = foldl (\<lambda>m p. AList.update (cct_ID p) p m) [] news
      in merge_existing byID ex @ merge_new (map cct_ID ex) news)"

subsection \<open>The pattern file\<close>

definition enc_cct :: "cct_pattern \<Rightarrow> json" where
  "enc_cct p = JObj
     ([(''id'', JStr (cct_ID p)), (''name'', JStr (cct_Name p)), (''description'', JStr (cct_Description p)),
       (''frequency'', j_int (cct_Frequency p)), (''testable'', JBool (cct_Testable p))] @
      j_opt ''testApproach'' JStr (cct_TestApproach p) @
      [(''sourceIds'', j_strs (cct_SourceIDs p)), (''created'', JStr (cct_Created p))])"

definition cct0 :: cct_pattern where
  "cct0 = \<lparr>cct_ID = [], cct_Name = [], cct_Description = [], cct_Frequency = 0, cct_Testable = False,
     cct_TestApproach = None, cct_SourceIDs = None, cct_Created = []\<rparr>"

definition cct_keys :: "string list" where
  "cct_keys = [''id'', ''name'', ''description'', ''frequency'', ''testable'', ''testApproach'', ''sourceIds'', ''created'']"

definition dec_int :: "int \<Rightarrow> json \<Rightarrow> int option" where
  "dec_int old v = (case v of JNull \<Rightarrow> Some old | JNum l \<Rightarrow> atoi l | _ \<Rightarrow> None)"

definition cct_field :: "cct_pattern \<Rightarrow> string \<Rightarrow> json \<Rightarrow> cct_pattern option" where
  "cct_field p k v =
     (case canon_key cct_keys k of None \<Rightarrow> Some p
      | Some n \<Rightarrow>
        if n = ''id'' then map_option (\<lambda>s. p\<lparr>cct_ID := s\<rparr>) (dec_str (cct_ID p) v)
        else if n = ''name'' then map_option (\<lambda>s. p\<lparr>cct_Name := s\<rparr>) (dec_str (cct_Name p) v)
        else if n = ''description'' then map_option (\<lambda>s. p\<lparr>cct_Description := s\<rparr>) (dec_str (cct_Description p) v)
        else if n = ''frequency'' then map_option (\<lambda>i. p\<lparr>cct_Frequency := i\<rparr>) (dec_int (cct_Frequency p) v)
        else if n = ''testable'' then map_option (\<lambda>b. p\<lparr>cct_Testable := b\<rparr>) (dec_bool (cct_Testable p) v)
        else if n = ''testApproach'' then map_option (\<lambda>s. p\<lparr>cct_TestApproach := s\<rparr>) (dec_pstr v)
        else if n = ''sourceIds'' then map_option (\<lambda>s. p\<lparr>cct_SourceIDs := s\<rparr>) (dec_strs (cct_SourceIDs p) v)
        else map_option (\<lambda>s. p\<lparr>cct_Created := s\<rparr>) (dec_str (cct_Created p) v))"

definition unmarshal_cct :: "string \<Rightarrow> cct_pattern option" where
  "unmarshal_cct line = (case json_parse line of None \<Rightarrow> None | Some v \<Rightarrow> dec_obj cct_field cct0 v)"

definition cct_line :: "cct_pattern \<Rightarrow> string" where
  "cct_line p = marshal (enc_cct p) @ [CHR 0x0A]"

definition ReadCctPatterns :: "opened \<Rightarrow> store_error + cct_pattern list" where
  "ReadCctPatterns f =
     (case f of NotExist \<Rightarrow> Inr [] | OpenFails \<Rightarrow> Inl StoreOpen
      | Opened s \<Rightarrow> Inr (List.map_filter unmarshal_cct (content_lines (split_on (CHR 0x0A) s))))"

fun write_patterns :: "compact_fault \<Rightarrow> nat \<Rightarrow> cct_pattern list \<Rightarrow> string \<Rightarrow> bool \<times> string" where
  "write_patterns fault k [] t = (True, t)"
| "write_patterns fault k (p # ps) t =
     (case fault of
        CWrite k' n \<Rightarrow>
          if k = k' then (False, t @ take n (cct_line p)) else write_patterns fault (Suc k) ps (t @ cct_line p)
      | _ \<Rightarrow> write_patterns fault (Suc k) ps (t @ cct_line p))"

text \<open>As in the compactor, \<open>fault\<close> names the failing system call; opening the temporary file truncates it.\<close>

definition writePatternFile :: "compact_fault \<Rightarrow> fs \<Rightarrow> cct_pattern list \<Rightarrow> store_error option \<times> fs" where
  "writePatternFile fault d ps =
     (if fault = CTemp then (Some StoreCreateTemp, d)
      else
        let (ok, t) = write_patterns fault 0 ps []; d1 = d\<lparr>fs_temp := Some t\<rparr>
        in if \<not> ok then (Some StoreWrite, remove_temp d1)
           else if fault = CSync then (Some StoreSync, remove_temp d1)
           else if fault = CClose then (Some StoreClose, remove_temp d1)
           else if fault = CRename then (Some StoreRename, remove_temp d1)
           else (None, d1\<lparr>fs_target := fs_temp d1, fs_temp := None\<rparr>))"

definition WriteCctPatterns :: "compact_fault \<Rightarrow> bool \<Rightarrow> fs \<Rightarrow> cct_pattern list \<Rightarrow> store_error option \<times> fs" where
  "WriteCctPatterns fault open_fails d ps =
     (if fault = CMkdir then (Some StoreMkdir, d)
      else case ReadCctPatterns (if open_fails then OpenFails else open_file (fs_target d)) of
        Inl e \<Rightarrow> (Some e, d)
      | Inr ex \<Rightarrow> writePatternFile fault d (mergePatterns ex ps))"

subsection \<open>Union-find is correct\<close>

text \<open>\<open>rooted p x r k\<close>: climbing from \<open>x\<close> reaches the root \<open>r\<close> in \<open>k\<close> steps.\<close>

inductive rooted :: "nat list \<Rightarrow> nat \<Rightarrow> nat \<Rightarrow> nat \<Rightarrow> bool" for p where
  rooted_0: "p ! x = x \<Longrightarrow> rooted p x x 0"
| rooted_Suc: "p ! x \<noteq> x \<Longrightarrow> rooted p (p ! x) r k \<Longrightarrow> rooted p x r (Suc k)"

inductive_cases rooted_rootE: "rooted p x r 0"
inductive_cases rooted_stepE: "rooted p x r (Suc k)"

inductive_simps rooted_simp: "rooted p x r k"

lemma rooted_unique: "rooted p x r k \<Longrightarrow> rooted p x s m \<Longrightarrow> r = s \<and> k = m"
proof (induction arbitrary: m rule: rooted.induct)
  case (rooted_0 x)
  from rooted_0(2,1) show ?case by (cases rule: rooted.cases) auto
next
  case (rooted_Suc x r k)
  from rooted_Suc(4,1) obtain m' where "m = Suc m'" "rooted p (p ! x) s m'" by (cases rule: rooted.cases) auto
  with rooted_Suc.IH show ?case by auto
qed

lemma rooted_root: "rooted p x r k \<Longrightarrow> p ! r = r"
  by (induction rule: rooted.induct) auto

definition uf_ok :: "nat \<Rightarrow> nat list \<Rightarrow> bool" where
  "uf_ok n p \<longleftrightarrow> length p = n \<and> (\<forall>x < n. p ! x < n \<and> (\<exists>r k. rooted p x r k))"

lemma halve_rooted:
  assumes "x < length p" and "p ! x \<noteq> x" and "rooted p y r k"
  shows "\<exists>k' \<le> k. rooted (p[x := p ! (p ! x)]) y r k'"
  using assms(3)
proof (induction k arbitrary: y rule: less_induct)
  case (less k)
  let ?p' = "p[x := p ! (p ! x)]"
  show ?case
  proof (cases "p ! y = y")
    case True
    with less.prems have "r = y \<and> k = 0" using rooted_unique rooted_0 by blast
    moreover have "?p' ! y = y" using True assms(2) by (cases "y = x") simp_all
    ultimately show ?thesis by (auto intro: rooted_0)
  next
    case False
    with less.prems obtain m where k: "k = Suc m" and m: "rooted p (p ! y) r m"
      by (cases rule: rooted.cases) auto
    show ?thesis
    proof (cases "y = x")
      case False
      from less.IH [OF _ m] k obtain k' where "k' \<le> m" "rooted ?p' (p ! y) r k'" by auto
      moreover have "?p' ! y = p ! y" using False by simp
      ultimately have "rooted ?p' y r (Suc k')" using \<open>p ! y \<noteq> y\<close> by (metis rooted_Suc)
      with \<open>k' \<le> m\<close> k show ?thesis by auto
    next
      case True
      let ?z = "p ! x"
      have px: "?p' ! x = p ! ?z" using assms(1) by simp
      show ?thesis
      proof (cases "p ! ?z = ?z")
        case z: True
        with m True have "r = ?z" "m = 0" using rooted_unique rooted_0 by blast+
        moreover have "rooted ?p' ?z ?z 0" using z assms(2) by (intro rooted_0) simp
        ultimately have "rooted ?p' x r (Suc 0)" using px z assms(2) by (metis rooted_Suc)
        with k True \<open>m = 0\<close> show ?thesis by auto
      next
        case z: False
        with m True obtain q where q: "m = Suc q" "rooted p (p ! ?z) r q"
          by (cases rule: rooted.cases) auto
        have ne: "p ! ?z \<noteq> x"
        proof
          assume "p ! ?z = x"
          with q(2) have "rooted p x r q" by simp
          moreover have "rooted p x r k" using less.prems True by simp
          ultimately have "k = q" using rooted_unique by blast
          with k q(1) show False by simp
        qed
        from less.IH [OF _ q(2)] k q(1) obtain k' where "k' \<le> q" "rooted ?p' (p ! ?z) r k'" by auto
        then have "rooted ?p' x r (Suc k')" using px ne by (metis rooted_Suc)
        with \<open>k' \<le> q\<close> k q(1) True show ?thesis by (intro exI [of _ "Suc k'"]) simp
      qed
    qed
  qed
qed

lemma halve_ok:
  assumes "uf_ok n p" and "x < n" and "p ! x \<noteq> x"
  shows "uf_ok n (p[x := p ! (p ! x)])"
  unfolding uf_ok_def
proof (intro conjI allI impI)
  show "length (p[x := p ! (p ! x)]) = n" using assms(1) by (simp add: uf_ok_def)
next
  fix y assume y: "y < n"
  show "p[x := p ! (p ! x)] ! y < n" using assms y by (cases "y = x") (auto simp: uf_ok_def)
  from assms(1) y obtain r k where "rooted p y r k" by (auto simp: uf_ok_def)
  from halve_rooted [OF _ assms(3) this] assms(1,2)
  show "\<exists>r k. rooted (p[x := p ! (p ! x)]) y r k" by (auto simp: uf_ok_def)
qed

text \<open>The root of an element.\<close>

definition root_of :: "nat list \<Rightarrow> nat \<Rightarrow> nat" where
  "root_of p x = (THE r. \<exists>k. rooted p x r k)"

lemma root_of_eq: "rooted p x r k \<Longrightarrow> root_of p x = r"
  unfolding root_of_def using rooted_unique by blast

lemma root_of_rooted: "uf_ok n p \<Longrightarrow> x < n \<Longrightarrow> \<exists>k. rooted p x (root_of p x) k"
  using root_of_eq by (fastforce simp: uf_ok_def)

lemma root_of_halve:
  assumes "uf_ok n p" and "x < n" and "p ! x \<noteq> x" and "y < n"
  shows "root_of (p[x := p ! (p ! x)]) y = root_of p y"
proof -
  from root_of_rooted [OF assms(1,4)] obtain k where "rooted p y (root_of p y) k" by blast
  from halve_rooted [OF _ assms(3) this] assms(1,2) show ?thesis by (auto simp: uf_ok_def dest: root_of_eq)
qed

lemma root_of_less:
  assumes "uf_ok n p" and "x < n"
  shows "root_of p x < n" and "p ! root_of p x = root_of p x"
proof -
  have "rooted p y r k \<Longrightarrow> y < n \<Longrightarrow> r < n" for y r k
    by (induction rule: rooted.induct) (use assms(1) in \<open>auto simp: uf_ok_def\<close>)
  with root_of_rooted [OF assms] assms(2) show "root_of p x < n" by blast
  show "p ! root_of p x = root_of p x" using root_of_rooted [OF assms] rooted_root by blast
qed

text \<open>\<open>find\<close> always returns, with the root, and changes no root.\<close>

lemma uf_find_root:
  assumes "uf_ok n p" and "x < n"
  shows "\<exists>p'. uf_find p x = Some (root_of p x, p') \<and> uf_ok n p' \<and> (\<forall>y < n. root_of p' y = root_of p y)"
proof -
  from root_of_rooted [OF assms] obtain k where "rooted p x (root_of p x) k" by blast
  then show ?thesis using assms
  proof (induction k arbitrary: p x rule: less_induct)
    case (less k)
    show ?case
    proof (cases "p ! x = x")
      case True
      then have "root_of p x = x" using root_of_eq rooted_0 by blast
      with True less.prems show ?thesis by (simp add: uf_find.simps)
    next
      case False
      let ?p' = "p[x := p ! (p ! x)]" and ?z = "p ! x"
      have xl: "x < length p" using less.prems by (simp add: uf_ok_def)
      have ok': "uf_ok n ?p'" by (rule halve_ok [OF less.prems(2,3) False])
      have px: "?p' ! x = p ! ?z" using xl by simp
      have x': "?p' ! x < n" unfolding px using less.prems(2,3) by (simp add: uf_ok_def)
      from less.prems(1) False obtain m where k: "k = Suc m" and m: "rooted p ?z (root_of p x) m"
        by (cases rule: rooted.cases) auto
      have "\<exists>j \<le> m. rooted p (p ! ?z) (root_of p x) j"
        using m by (cases rule: rooted.cases) (auto intro!: rooted_0 exI [of _ "m - 1"])
      then obtain j where j: "j \<le> m" "rooted p (p ! ?z) (root_of p x) j" by blast
      from halve_rooted [OF xl False j(2)] obtain j' where j': "j' \<le> j" "rooted ?p' (?p' ! x) (root_of p x) j'"
        unfolding px by blast
      then have r': "root_of ?p' (?p' ! x) = root_of p x" using root_of_eq by blast
      from less.IH [of j' ?p' "?p' ! x"] j' j(1) k r' ok' x' obtain p2 where
        p2: "uf_find ?p' (?p' ! x) = Some (root_of p x, p2)" "uf_ok n p2" "\<forall>y < n. root_of p2 y = root_of ?p' y"
        by auto
      have "uf_find p x = uf_find ?p' (?p' ! x)"
        using False by (subst uf_find.simps) (simp add: Let_def)
      with p2 root_of_halve [OF less.prems(2,3) False] show ?thesis by auto
    qed
  qed
qed

lemma link_rooted:
  assumes "rooted p y s k" and "p ! a = a" and "p ! b = b" and "a \<noteq> b" and "a < length p"
  shows "\<exists>k'. rooted (p[a := b]) y (if s = a then b else s) k'"
  using assms(1)
proof (induction rule: rooted.induct)
  case (rooted_0 x)
  have b: "rooted (p[a := b]) b b 0" using assms by (intro rooted.rooted_0) simp
  show ?case
  proof (cases "x = a")
    case True
    have "rooted (p[a := b]) a b (Suc 0)" using assms b by (intro rooted.rooted_Suc) simp_all
    with True show ?thesis by auto
  next
    case False
    then have "rooted (p[a := b]) x x 0" using rooted_0 by (intro rooted.rooted_0) simp
    with False show ?thesis by auto
  qed
next
  case (rooted_Suc x r k)
  then have "x \<noteq> a" using assms(2) by blast
  then have "p[a := b] ! x = p ! x" by simp
  with rooted_Suc show ?case by (metis rooted.rooted_Suc)
qed

lemma uf_union_roots:
  assumes "uf_ok n p" and "a < n" and "b < n"
  shows "\<exists>p'. uf_union p a b = Some p' \<and> uf_ok n p' \<and>
    (\<forall>y < n. root_of p' y = (if root_of p y = root_of p a then root_of p b else root_of p y))"
proof -
  from uf_find_root [OF assms(1,2)] obtain p1 where p1: "uf_find p a = Some (root_of p a, p1)" "uf_ok n p1"
    "\<forall>y < n. root_of p1 y = root_of p y" by blast
  from uf_find_root [OF p1(2) assms(3)] p1(3) assms(3) obtain p2 where
    p2: "uf_find p1 b = Some (root_of p b, p2)" "uf_ok n p2" "\<forall>y < n. root_of p2 y = root_of p y" by auto
  let ?a = "root_of p a" and ?b = "root_of p b"
  show ?thesis
  proof (cases "?a = ?b")
    case True
    with p1 p2 show ?thesis by (simp add: uf_union_def)
  next
    case False
    have ra: "?a < n" "p2 ! ?a = ?a" and rb: "?b < n" "p2 ! ?b = ?b"
      using root_of_less [OF p2(2)] p2(3) assms(2,3) by metis+
    let ?p3 = "p2[?a := ?b]"
    have al: "?a < length p2" using p2(2) ra(1) by (simp add: uf_ok_def)
    have r3: "\<exists>k. rooted ?p3 y (if root_of p y = ?a then ?b else root_of p y) k" if "y < n" for y
      using root_of_rooted [OF p2(2) that] p2(3) that link_rooted [OF _ ra(2) rb(2) False al] by metis
    have "uf_ok n ?p3"
      unfolding uf_ok_def
    proof (intro conjI allI impI)
      show "length ?p3 = n" using p2(2) by (simp add: uf_ok_def)
    next
      fix y assume y: "y < n"
      show "?p3 ! y < n" using p2(2) rb(1) al y by (cases "y = ?a") (auto simp: uf_ok_def)
      show "\<exists>r k. rooted ?p3 y r k" using r3 [OF y] by blast
    qed
    moreover have "\<forall>y < n. root_of ?p3 y = (if root_of p y = ?a then ?b else root_of p y)"
      using r3 root_of_eq by metis
    ultimately show ?thesis using False p1 p2 by (simp add: uf_union_def)
  qed
qed

subsection \<open>The clusters are the connected components\<close>

definition pair_edges :: "real list list \<Rightarrow> real \<Rightarrow> (nat \<times> nat) list \<Rightarrow> (nat \<times> nat) set" where
  "pair_edges m thr ps = {(i, j). (i, j) \<in> set ps \<and> thr \<le> m ! i ! j}"

lemma rtrancl_insert2:
  "(i, j) \<in> (insert (b, a) (insert (a, b) S))\<^sup>* \<longleftrightarrow>
   (let T = (\<lambda>x y. (x, y) \<in> S\<^sup>* \<or> (x, a) \<in> S\<^sup>* \<and> (b, y) \<in> S\<^sup>*) in T i j \<or> T i b \<and> T a j)"
  unfolding Let_def by (subst rtrancl_insert) (simp add: rtrancl_insert)

lemma link_pairs_roots:
  assumes "uf_ok n p" and "\<forall>i < n. \<forall>j < n. root_of p i = root_of p j \<longleftrightarrow> (i, j) \<in> S\<^sup>*"
    and "\<forall>(i, j) \<in> set ps. i < n \<and> j < n" and "length m = n" and "\<forall>i < n. length (m ! i) = n"
  shows "\<exists>p'. link_pairs m thr p ps = Some p' \<and> uf_ok n p' \<and>
     (\<forall>i < n. \<forall>j < n. root_of p' i = root_of p' j \<longleftrightarrow>
        (i, j) \<in> (S \<union> pair_edges m thr ps \<union> (pair_edges m thr ps)\<inverse>)\<^sup>*)"
  using assms
proof (induction ps arbitrary: p S)
  case Nil
  then show ?case by (simp add: pair_edges_def)
next
  case (Cons e ps)
  obtain a b where e: "e = (a, b)" by (cases e)
  with Cons.prems(3) have ab: "a < n" "b < n" by auto
  then have inb: "a < length m" "b < length (m ! a)" using Cons.prems(4,5) by auto
  show ?case
  proof (cases "thr \<le> m ! a ! b")
    case False
    then have "pair_edges m thr (e # ps) = pair_edges m thr ps" by (auto simp: pair_edges_def e)
    with Cons.IH [OF Cons.prems(1,2)] Cons.prems False inb e show ?thesis by simp
  next
    case True
    from uf_union_roots [OF Cons.prems(1) ab] obtain p1 where
      p1: "uf_union p a b = Some p1" "uf_ok n p1"
      "\<forall>y < n. root_of p1 y = (if root_of p y = root_of p a then root_of p b else root_of p y)" by blast
    let ?S1 = "insert (b, a) (insert (a, b) S)"
    have S1: "\<forall>i < n. \<forall>j < n. root_of p1 i = root_of p1 j \<longleftrightarrow> (i, j) \<in> ?S1\<^sup>*"
    proof (intro allI impI)
      fix i j assume ij: "i < n" "j < n"
      have eq: "(x, y) \<in> S\<^sup>* \<longleftrightarrow> root_of p x = root_of p y" if "x < n" "y < n" for x y
        using Cons.prems(2) that by blast
      show "root_of p1 i = root_of p1 j \<longleftrightarrow> (i, j) \<in> ?S1\<^sup>*"
        unfolding rtrancl_insert2 Let_def using p1(3) ij ab by (simp add: eq) metis
    qed
    have "?S1 \<union> pair_edges m thr ps \<union> (pair_edges m thr ps)\<inverse> =
        S \<union> pair_edges m thr (e # ps) \<union> (pair_edges m thr (e # ps))\<inverse>"
      using True by (auto simp: pair_edges_def e)
    with Cons.IH [OF p1(2) S1] Cons.prems p1(1) inb e True show ?thesis by simp
  qed
qed

lemma set_pairs_below: "set (pairs_below n) = {(i, j). i < j \<and> j < n}"
  by (auto simp: pairs_below_def image_iff)

lemma uf_init: "uf_ok n [0..<n]" and root_init: "i < n \<Longrightarrow> root_of [0..<n] i = i"
proof -
  have r: "rooted [0..<n] x x 0" if "x < n" for x using that by (intro rooted_0) simp
  then show "uf_ok n [0..<n]" by (auto simp: uf_ok_def)
  show "i < n \<Longrightarrow> root_of [0..<n] i = i" using r root_of_eq by blast
qed

text \<open>The entries of the matrix.\<close>

definition similarity :: "real list list \<Rightarrow> nat \<Rightarrow> nat \<Rightarrow> real" where
  "similarity es i j = (case CosineSimilarity (es ! i) (es ! j) of None \<Rightarrow> 0 | Some s \<Rightarrow> s)"

definition mat_ok :: "nat \<Rightarrow> real list list \<Rightarrow> bool" where
  "mat_ok n m \<longleftrightarrow> length m = n \<and> (\<forall>i < n. length (m ! i) = n)"

lemma mat_set_ok: "mat_ok n m \<Longrightarrow> mat_ok n (mat_set m i j v)"
proof -
  assume m: "mat_ok n m"
  have "length (mat_set m i j v ! k) = n" if "k < n" for k
    using m that by (cases "k = i") (simp_all add: mat_ok_def mat_set_def)
  with m show ?thesis by (simp add: mat_ok_def mat_set_def)
qed

lemma mat_set_get:
  "mat_ok n m \<Longrightarrow> i < n \<Longrightarrow> j < n \<Longrightarrow> a < n \<Longrightarrow> b < n \<Longrightarrow>
   mat_set m i j v ! a ! b = (if a = i \<and> b = j then v else m ! a ! b)"
  by (auto simp: mat_ok_def mat_set_def nth_list_update)

lemma sim_fold:
  assumes "mat_ok n m" and "\<forall>(i, j) \<in> set ps. i < j \<and> j < n"
  shows "mat_ok n (foldl (sim_step es) m ps) \<and>
    (\<forall>a b. a < b \<longrightarrow> b < n \<longrightarrow> foldl (sim_step es) m ps ! a ! b =
      (if (a, b) \<in> set ps \<and> CosineSimilarity (es ! a) (es ! b) \<noteq> None then similarity es a b else m ! a ! b))"
  using assms(2)
proof (induction ps rule: rev_induct)
  case Nil
  then show ?case using assms(1) by simp
next
  case (snoc e ps)
  obtain i j where e: "e = (i, j)" by (cases e)
  let ?m = "foldl (sim_step es) m ps"
  from snoc have ij: "i < j" "j < n" and ok: "mat_ok n ?m" and ih: "\<And>a b. a < b \<Longrightarrow> b < n \<Longrightarrow> ?m ! a ! b =
      (if (a, b) \<in> set ps \<and> CosineSimilarity (es ! a) (es ! b) \<noteq> None then similarity es a b else m ! a ! b)"
    by (auto simp: e)
  show ?case
  proof (cases "CosineSimilarity (es ! i) (es ! j)")
    case None
    then have st: "foldl (sim_step es) m (ps @ [e]) = ?m" by (simp add: e sim_step_def [of es ?m])
    show ?thesis unfolding st using None ok ih ij by (auto simp: e)
  next
    case (Some s)
    have ok2: "mat_ok n (mat_set ?m i j s)" by (rule mat_set_ok [OF ok])
    have "mat_set (mat_set ?m i j s) j i s ! a ! b = (if a = i \<and> b = j then s else ?m ! a ! b)"
      if "a < b" "b < n" for a b
      using that ij mat_set_get [OF ok2, of j i a b s] mat_set_get [OF ok, of i j a b s] by auto
    moreover have st: "foldl (sim_step es) m (ps @ [e]) = mat_set (mat_set ?m i j s) j i s"
      using Some by (simp add: e sim_step_def [of es ?m])
    ultimately show ?thesis unfolding st using Some mat_set_ok [OF ok2] ih ij
      by (auto simp: e similarity_def)
  qed
qed

lemma BuildSimilarityMatrix_entries:
  "mat_ok (length es) (BuildSimilarityMatrix es)"
  "i < j \<Longrightarrow> j < length es \<Longrightarrow> BuildSimilarityMatrix es ! i ! j = similarity es i j"
proof -
  let ?n = "length es" and ?m0 = "map (\<lambda>i. (replicate (length es) (0::real))[i := 1]) [0..<length es]"
  have m0: "mat_ok ?n ?m0" by (simp add: mat_ok_def)
  note f = sim_fold [OF m0, of "pairs_below ?n" es]
  show "mat_ok (length es) (BuildSimilarityMatrix es)"
    using f by (simp add: BuildSimilarityMatrix_def Let_def set_pairs_below)
  show "i < j \<Longrightarrow> j < length es \<Longrightarrow> BuildSimilarityMatrix es ! i ! j = similarity es i j"
    using f by (auto simp: BuildSimilarityMatrix_def Let_def set_pairs_below similarity_def split: option.split)
qed

text \<open>Connected: linked by a chain of pairs whose similarity reaches the threshold.\<close>

definition linked :: "real list list \<Rightarrow> real \<Rightarrow> nat \<Rightarrow> (nat \<times> nat) set" where
  "linked es thr n = {(i, j). i < j \<and> j < n \<and> thr \<le> similarity es i j}"

text \<open>C39: The search of a root ends. The loop of \<open>find\<close> need not end on an arbitrary array, but clustering only builds forests:
  from the initial array, whatever pairs within the matrix are linked, every later search returns, with an index of the
  array that is its own parent.\<close>

theorem uf_find_ends:
  assumes "\<forall>(i, j) \<in> set ps. i < n \<and> j < n" and "length m = n" and "\<forall>i < n. length (m ! i) = n" and "x < n"
  shows "\<exists>p r p'. link_pairs m thr [0..<n] ps = Some p \<and> uf_find p x = Some (r, p') \<and> r < n \<and> p ! r = r"
proof -
  have "\<forall>i < n. \<forall>j < n. root_of [0..<n] i = root_of [0..<n] j \<longleftrightarrow> (i, j) \<in> {}\<^sup>*" by (simp add: root_init)
  from link_pairs_roots [OF uf_init this assms(1-3)] obtain p where p: "link_pairs m thr [0..<n] ps = Some p" "uf_ok n p" by blast
  with uf_find_root [OF p(2) assms(4)] root_of_less [OF p(2) assms(4)] show ?thesis by blast
qed

theorem uf_find_ends_witness:
  "\<exists>p r p'. link_pairs [[1, 1], [1, 1]] (1 / 2) [0..<2] [(0, 1)] = Some p \<and> uf_find p 1 = Some (r, p') \<and> r < 2 \<and> p ! r = r"
  by (rule uf_find_ends) (simp_all add: less_2_cases_iff)

definition connected :: "real list list \<Rightarrow> real \<Rightarrow> nat \<Rightarrow> (nat \<times> nat) set" where
  "connected es thr n = (linked es thr n \<union> (linked es thr n)\<inverse>)\<^sup>*"

definition component_of :: "item list \<Rightarrow> real list list \<Rightarrow> real \<Rightarrow> nat \<Rightarrow> item list" where
  "component_of items es thr i =
     map ((!) items) (filter (\<lambda>k. (i, k) \<in> connected es thr (length items)) [0..<length items])"

lemma link_matrix:
  assumes "length es = n"
  shows "\<exists>p. link_pairs (BuildSimilarityMatrix es) thr [0..<n] (pairs_below n) = Some p \<and> uf_ok n p \<and>
     (\<forall>i < n. \<forall>j < n. root_of p i = root_of p j \<longleftrightarrow> (i, j) \<in> connected es thr n)"
proof -
  let ?m = "BuildSimilarityMatrix es"
  have e: "pair_edges ?m thr (pairs_below n) = linked es thr n"
    using BuildSimilarityMatrix_entries(2) assms by (auto simp: pair_edges_def set_pairs_below linked_def)
  have m: "length ?m = n" "\<forall>i < n. length (?m ! i) = n"
    using BuildSimilarityMatrix_entries(1) [of es] assms by (simp_all add: mat_ok_def)
  have r0: "\<forall>i < n. \<forall>j < n. root_of [0..<n] i = root_of [0..<n] j \<longleftrightarrow> (i, j) \<in> {}\<^sup>*"
    by (simp add: root_init)
  from link_pairs_roots [OF uf_init r0 _ m, of "pairs_below n" thr] e
  show ?thesis by (auto simp: set_pairs_below connected_def)
qed

text \<open>The grouping loop collects, under each root, the items below it in their order.\<close>

definition with_root :: "nat list \<Rightarrow> nat \<Rightarrow> item list \<Rightarrow> nat \<Rightarrow> item list" where
  "with_root p r its i = map ((!) its) (filter (\<lambda>k. root_of p (i + k) = r) [0..<length its])"

lemma with_root_Cons:
  "with_root p r (it # its) i = (if root_of p i = r then [it] else []) @ with_root p r its (Suc i)"
proof -
  have "[0..<length (it # its)] = 0 # map Suc [0..<length its]"
    by (simp add: map_Suc_upt upt_conv_Cons del: upt_Suc)
  then show ?thesis by (simp add: with_root_def filter_map comp_def)
qed

definition group_of :: "(nat, item list) gomap \<Rightarrow> nat \<Rightarrow> item list" where
  "group_of g r = (case map_of g r of None \<Rightarrow> [] | Some xs \<Rightarrow> xs)"

definition groups_ok :: "(nat, item list) gomap \<Rightarrow> bool" where
  "groups_ok g \<longleftrightarrow> gomap_ok g \<and> (\<forall>r xs. map_of g r = Some xs \<longrightarrow> xs \<noteq> [])"

lemma group_items_groups:
  assumes "uf_ok n p" and "i + length its = n" and "groups_ok g"
  shows "\<exists>g'. group_items its i p g = Some g' \<and> groups_ok g' \<and>
     (\<forall>r. group_of g' r = group_of g r @ with_root p r its i)"
  using assms
proof (induction its arbitrary: i p g)
  case Nil
  then show ?case by (simp add: with_root_def)
next
  case (Cons it its)
  then have i: "i < n" by simp
  from uf_find_root [OF Cons.prems(1) i] obtain p' where p': "uf_find p i = Some (root_of p i, p')"
    "uf_ok n p'" "\<forall>y < n. root_of p' y = root_of p y" by blast
  let ?r = "root_of p i"
  let ?g = "AList.update ?r ((case map_of g ?r of None \<Rightarrow> [] | Some xs \<Rightarrow> xs) @ [it]) g"
  have g: "groups_ok ?g" using Cons.prems(3) by (auto simp: groups_ok_def)
  have wr: "with_root p' r its (Suc i) = with_root p r its (Suc i)" for r
    unfolding with_root_def using p'(3) Cons.prems(2) by (intro arg_cong [where f = "map _"] filter_cong) auto
  have go: "group_of ?g r = group_of g r @ (if ?r = r then [it] else [])" for r
    by (auto simp: group_of_def)
  from Cons.IH [OF p'(2) _ g, of "Suc i"] Cons.prems(2) obtain g' where
    g': "group_items its (Suc i) p' ?g = Some g'" "groups_ok g'"
    "\<forall>r. group_of g' r = group_of ?g r @ with_root p' r its (Suc i)" by auto
  with p'(1) show ?case by (simp add: with_root_Cons wr go)
qed

lemma mset_update_group:
  "gomap_ok g \<Longrightarrow> mset (concat (map snd (AList.update r (group_of g r @ [it]) g))) =
     add_mset it (mset (concat (map snd g)))"
proof (induction g)
  case Nil
  show ?case by (simp add: group_of_def)
next
  case (Cons e g)
  obtain k xs where e: "e = (k, xs)" by (cases e)
  show ?case
  proof (cases "k = r")
    case True
    then show ?thesis by (simp add: e group_of_def)
  next
    case False
    then have "group_of (e # g) r = group_of g r" by (simp add: e group_of_def)
    with Cons False show ?thesis by (simp add: e)
  qed
qed

lemma group_items_mset:
  "group_items its i p g = Some g' \<Longrightarrow> gomap_ok g \<Longrightarrow>
   mset (concat (map snd g')) = mset (concat (map snd g)) + mset its"
proof (induction its i p g rule: group_items.induct)
  case (1 i p g)
  then show ?case by simp
next
  case (2 it its i p g)
  from "2.prems"(1) obtain r p' where f: "uf_find p i = Some (r, p')"
    and g: "group_items its (Suc i) p' (AList.update r (group_of g r @ [it]) g) = Some g'"
    by (auto simp: group_of_def split: option.splits)
  have "mset (concat (map snd g')) = mset (concat (map snd (AList.update r (group_of g r @ [it]) g))) + mset its"
    by (rule "2.IH" [OF f refl, folded group_of_def, OF g]) (simp add: "2.prems"(2))
  with mset_update_group [OF "2.prems"(2), of r it] show ?case by simp
qed

lemma split_groups_mset:
  "mset (concat (Clusters (split_groups g))) + mset (Noise (split_groups g)) = mset (concat (map snd g))"
proof -
  have "mset (concat (filter (\<lambda>xs. length xs \<noteq> 1) gs)) + mset (map hd (filter (\<lambda>xs. length xs = 1) gs)) = mset (concat gs)"
    for gs :: "item list list"
    by (induction gs) (auto simp: length_Suc_conv)
  from this [of "map snd g"] show ?thesis unfolding split_groups_def cluster_result.select_convs .
qed

lemma cluster_groups:
  assumes "length es = length items" and "items \<noteq> []"
  obtains g where "ClusterBySimilarity items es thr = Some (split_groups g)"
    and "set (map snd g) = component_of items es thr ` {..<length items}"
    and "mset (concat (map snd g)) = mset items"
proof -
  let ?n = "length items"
  from link_matrix [OF assms(1), of thr] obtain p where
    p: "link_pairs (BuildSimilarityMatrix es) thr [0..<?n] (pairs_below ?n) = Some p" "uf_ok ?n p"
    "\<forall>i < ?n. \<forall>j < ?n. root_of p i = root_of p j \<longleftrightarrow> (i, j) \<in> connected es thr ?n" by blast
  have g0: "groups_ok []" by (simp add: groups_ok_def)
  from group_items_groups [OF p(2) _ g0, of 0 items] obtain g where
    g: "group_items items 0 p [] = Some g" "groups_ok g" "\<And>r. group_of g r = with_root p r items 0"
    by (auto simp: group_of_def)
  have comp: "with_root p (root_of p i) items 0 = component_of items es thr i" if "i < ?n" for i
  proof -
    have "root_of p k = root_of p i \<longleftrightarrow> (i, k) \<in> connected es thr ?n" if "k < ?n" for k
      using p(3) that \<open>i < ?n\<close> by metis
    then show ?thesis unfolding with_root_def component_of_def
      by (intro arg_cong [where f = "map _"] filter_cong) simp_all
  qed
  have nonempty: "with_root p r items 0 \<noteq> [] \<longleftrightarrow> (\<exists>i < ?n. root_of p i = r)" for r
    by (auto simp: with_root_def filter_empty_conv)
  have "set (map snd g) = {group_of g r | r. group_of g r \<noteq> []}"
  proof -
    have iff: "map_of g r = Some xs \<longleftrightarrow> (r, xs) \<in> set g" for r xs
      using g(2) by (simp add: groups_ok_def map_of_eq_Some_iff)
    have "xs \<in> set (map snd g) \<longleftrightarrow> (\<exists>r. map_of g r = Some xs)" for xs
      by (force simp: iff)
    moreover have "map_of g r = Some xs \<longleftrightarrow> group_of g r = xs \<and> xs \<noteq> []" for r xs
      using g(2) by (auto simp: group_of_def groups_ok_def simp del: map_of_eq_Some_iff split: option.splits)
    ultimately have "xs \<in> set (map snd g) \<longleftrightarrow> (\<exists>r. xs = group_of g r \<and> group_of g r \<noteq> [])" for xs by metis
    then show ?thesis by blast
  qed
  also have "\<dots> = component_of items es thr ` {..<?n}"
  proof (rule set_eqI, rule iffI)
    fix c assume "c \<in> {group_of g r |r. group_of g r \<noteq> []}"
    then obtain r where r: "c = with_root p r items 0" "with_root p r items 0 \<noteq> []" unfolding g(3) by blast
    then obtain i where "i < ?n" "root_of p i = r" using nonempty by blast
    then show "c \<in> component_of items es thr ` {..<?n}" using comp r(1) by blast
  next
    fix c assume "c \<in> component_of items es thr ` {..<?n}"
    then obtain i where i: "i < ?n" "c = component_of items es thr i" by blast
    then have "c = group_of g (root_of p i)" unfolding g(3) by (simp add: comp)
    moreover have "group_of g (root_of p i) \<noteq> []" unfolding g(3) using nonempty i(1) by blast
    ultimately show "c \<in> {group_of g r |r. group_of g r \<noteq> []}" by blast
  qed
  finally have s: "set (map snd g) = component_of items es thr ` {..<?n}" .
  show ?thesis
  proof (rule that)
    show "ClusterBySimilarity items es thr = Some (split_groups g)"
      using p(1) g(1) assms(2) by (simp add: ClusterBySimilarity_def Let_def buildClusters_def)
    show "mset (concat (map snd g)) = mset items" using group_items_mset [OF g(1)] by simp
  qed (rule s)
qed

text \<open>C12: Clustering computes connected components: on items with one embedding each it always ends, its
  clusters are exactly the components of two or more items of the graph that joins items whose
  similarity reaches the threshold, its noise the items alone in their component, and every item
  is in exactly one of them.\<close>

theorem ClusterBySimilarity_components:
  assumes "length es = length items"
  shows "\<exists>res. ClusterBySimilarity items es thr = Some res \<and>
     set (Clusters res) = {c \<in> component_of items es thr ` {..<length items}. length c \<noteq> 1} \<and>
     set (Noise res) = {x. [x] \<in> component_of items es thr ` {..<length items}} \<and>
     mset (concat (Clusters res)) + mset (Noise res) = mset items"
proof (cases "items = []")
  case True
  then show ?thesis by (simp add: ClusterBySimilarity_def)
next
  case False
  obtain g where g: "ClusterBySimilarity items es thr = Some (split_groups g)"
    "set (map snd g) = component_of items es thr ` {..<length items}" "mset (concat (map snd g)) = mset items"
    by (rule cluster_groups [OF assms False])
  have "set (Clusters (split_groups g)) = {c \<in> set (map snd g). length c \<noteq> 1}"
    by (auto simp: split_groups_def)
  moreover have "set (Noise (split_groups g)) = {x. [x] \<in> set (map snd g)}"
  proof -
    have "set (map hd (filter (\<lambda>xs. length xs = 1) gs)) = {x. [x] \<in> set gs}" for gs :: "item list list"
      by (auto simp: length_Suc_conv image_iff) force+
    from this [of "map snd g"] show ?thesis unfolding split_groups_def cluster_result.select_convs .
  qed
  ultimately show ?thesis using g split_groups_mset [of g] by simp
qed

theorem ClusterBySimilarity_components_witness:
  "\<exists>res. ClusterBySimilarity [item0, sample_item] [[1, 0], [1, 0]] DefaultThreshold = Some res \<and>
     mset (concat (Clusters res)) + mset (Noise res) = mset [item0, sample_item]"
proof -
  have "length [[1, 0], [1, 0 :: real]] = length [item0, sample_item]" by simp
  from ClusterBySimilarity_components [OF this, of DefaultThreshold] show ?thesis by blast
qed

subsection \<open>Names of patterns\<close>

lemma count_tag_count: "map_of (foldl count_tag m ts) t = 
  (if t \<in> set ts then Some (count_list ts t + (case map_of m t of None \<Rightarrow> 0 | Some n \<Rightarrow> n)) else map_of m t)"
  by (induction ts arbitrary: m) (auto simp: count_tag_def count_notin split: option.splits)

lemma count_tag_ok: "gomap_ok m \<Longrightarrow> gomap_ok (foldl count_tag m ts)"
  by (induction ts arbitrary: m) (simp_all add: count_tag_def)

definition cluster_tags :: "item list \<Rightarrow> string list" where
  "cluster_tags cluster = concat (map item_tags cluster)"

lemma tag_counts_map: "map_of (tag_counts cluster) t =
    (if t \<in> set (cluster_tags cluster) then Some (count_list (cluster_tags cluster) t) else None)"
  by (simp add: tag_counts_def cluster_tags_def count_tag_count)

text \<open>The tags a pattern is named after are at most three, distinct, occur in the cluster, and no tag
  that is left out occurs more often than one that is taken, whatever the order in which the map of
  counts is iterated and whatever sorting algorithm is used.\<close>

theorem aggregateTags_top:
  assumes "slice_sort srt" and "mset (iter (tag_counts cluster)) = mset (tag_counts cluster)"
  shows "length (aggregateTags iter srt cluster) = min 3 (card (set (cluster_tags cluster))) \<and>
     distinct (aggregateTags iter srt cluster) \<and>
     set (aggregateTags iter srt cluster) \<subseteq> set (cluster_tags cluster) \<and>
     (\<forall>t \<in> set (aggregateTags iter srt cluster). \<forall>u \<in> set (cluster_tags cluster) - set (aggregateTags iter srt cluster).
        count_list (cluster_tags cluster) u \<le> count_list (cluster_tags cluster) t)"
proof -
  let ?m = "tag_counts cluster" and ?ts = "cluster_tags cluster"
  let ?s = "srt (\<lambda>a b. snd a > snd b) (iter ?m)"
  have ok: "gomap_ok ?m" unfolding tag_counts_def by (rule count_tag_ok) simp
  have ms: "mset ?s = mset ?m" by (simp add: slice_sort.slice_perm [OF assms(1)] assms(2))
  then have s: "set ?s = set ?m" "length ?s = length ?m" by (metis set_mset_mset, metis size_mset)
  have "mset (map fst ?s) = mset (map fst ?m)" using ms by simp
  then have d: "distinct (map fst ?s)" using ok mset_eq_imp_distinct_iff by metis
  have mem: "(t, n) \<in> set ?s \<longleftrightarrow> t \<in> set ?ts \<and> n = count_list ?ts t" for t n
  proof -
    have "(t, n) \<in> set ?s \<longleftrightarrow> map_of ?m t = Some n" unfolding s(1) by (rule map_of_eq_Some_iff [OF ok, symmetric])
    also have "\<dots> \<longleftrightarrow> t \<in> set ?ts \<and> n = count_list ?ts t" unfolding tag_counts_map by auto
    finally show ?thesis .
  qed
  have keys: "set (map fst ?s) = set ?ts" using mem by force
  have sw: "sorted_wrt (\<lambda>x y. snd y \<le> snd x) ?s"
    using slice_sort.slice_sorted [OF assms(1) strict_weak_key(2) [of snd], of "iter ?m"] by (simp add: not_less)
  let ?t = "take 3 ?s" and ?d = "drop 3 ?s"
  have tags: "aggregateTags iter srt cluster = map fst ?t"
    by (simp add: aggregateTags_def truncate_to_take MaxNameTags_def)
  have len: "length ?s = card (set ?ts)" using d keys distinct_card [of "map fst ?s"] by simp
  have "sorted_wrt (\<lambda>x y. snd y \<le> snd x) (?t @ ?d)" unfolding append_take_drop_id by (rule sw)
  then have cross: "\<forall>x \<in> set ?t. \<forall>y \<in> set ?d. snd y \<le> snd x" unfolding sorted_wrt_append by blast
  have "count_list ?ts u \<le> count_list ?ts t" if t: "t \<in> set (map fst ?t)" and u: "u \<in> set ?ts - set (map fst ?t)" for t u
  proof -
    from t obtain n where n: "(t, n) \<in> set ?t" by auto
    from u mem have "(u, count_list ?ts u) \<in> set ?s" by simp
    moreover have "(u, count_list ?ts u) \<notin> set ?t" using u by force
    ultimately have "(u, count_list ?ts u) \<in> set ?d" by (metis append_take_drop_id set_append UnE)
    with cross n have "count_list ?ts u \<le> n" by fastforce
    moreover have "n = count_list ?ts t" using n mem in_set_takeD by metis
    ultimately show ?thesis by simp
  qed
  moreover have "distinct (map fst ?t)" using distinct_take [OF d, of 3] by (simp only: take_map)
  moreover have "set (map fst ?t) \<subseteq> set ?ts" using keys set_take_subset [of 3 ?s] by auto
  moreover have "length (map fst ?t) = min 3 (card (set ?ts))" using len by simp
  ultimately show ?thesis unfolding tags by blast
qed

theorem aggregateTags_top_witness:
  "length (aggregateTags id insertion_sort [item0]) = min 3 (card (set (cluster_tags [item0])))"
  using aggregateTags_top [OF gosort.slice_sort_axioms, of id "[item0]"] by simp

subsection \<open>Merging and the file\<close>

lemma merge_new_ids:
  "map cct_ID (merge_new seen ps) = dedup_seen seen (map cct_ID ps)"
  by (induction seen ps rule: merge_new.induct) auto

lemma by_id_fold:
  "map_of (foldl (\<lambda>m p. AList.update (cct_ID p) p m) m ps) i =
     (case find (\<lambda>p. cct_ID p = i) (rev ps) of Some p \<Rightarrow> Some p | None \<Rightarrow> map_of m i)"
  by (induction ps rule: rev_induct) auto

lemma merge_existing_ids:
  "map cct_ID (merge_existing (foldl (\<lambda>m p. AList.update (cct_ID p) p m) [] news) ex) = map cct_ID ex"
  by (auto simp: merge_existing_def by_id_fold find_Some_iff split: option.split)

definition cct_ok :: "cct_pattern \<Rightarrow> bool" where
  "cct_ok p \<longleftrightarrow> list_all valid_utf8 [cct_ID p, cct_Name p, cct_Description p, cct_Created p] \<and> int64 (cct_Frequency p) \<and>
     opt_ok valid_utf8 (cct_TestApproach p) \<and> strs_ok (cct_SourceIDs p)"

lemma canon_cct_keys [simp]:
  "canon_key cct_keys ''id'' = Some ''id''" "canon_key cct_keys ''name'' = Some ''name''"
  "canon_key cct_keys ''description'' = Some ''description''" "canon_key cct_keys ''frequency'' = Some ''frequency''"
  "canon_key cct_keys ''testable'' = Some ''testable''" "canon_key cct_keys ''testApproach'' = Some ''testApproach''"
  "canon_key cct_keys ''sourceIds'' = Some ''sourceIds''" "canon_key cct_keys ''created'' = Some ''created''"
  by (simp_all add: canon_key_exact cct_keys_def)

lemma dec_enc_cct: "cct_ok p \<Longrightarrow> dec_obj cct_field cct0 (enc_cct p) = Some p"
  by (cases p; cases "cct_TestApproach p")
    (auto simp: dec_obj_def enc_cct_def cct_field_def cct0_def cct_ok_def dec_int_def j_int_def int64_def atoi_show_int)

lemma wf_enc_cct: "cct_ok p \<Longrightarrow> wf_json (enc_cct p)"
  unfolding enc_cct_def cct_ok_def by (simp add: valid_utf8_lit byte_in_def)

lemma jdepth_enc_cct: "jdepth (enc_cct p) \<le> 2"
  unfolding enc_cct_def Suc_1 [symmetric]
  by (rule jdepth_JObj_le) (simp add: j_int_def opt_ok_all)

lemma unmarshal_cct_line:
  assumes "cct_ok p"
  shows "unmarshal_cct (marshal (enc_cct p)) = Some p" and "CHR 0x0A \<notin> set (marshal (enc_cct p))"
    and "trim_space (marshal (enc_cct p)) = marshal (enc_cct p)" and "marshal (enc_cct p) \<noteq> []"
proof -
  have "json_parse (marshal (enc_cct p)) = Some (enc_cct p)"
    by (rule parse_marshal [OF wf_enc_cct [OF assms]]) (use jdepth_enc_cct [of p] in \<open>simp add: max_depth_def\<close>)
  then show "unmarshal_cct (marshal (enc_cct p)) = Some p" using dec_enc_cct [OF assms] by (simp add: unmarshal_cct_def)
  show "CHR 0x0A \<notin> set (marshal (enc_cct p))" by (rule marshal_one_line(1) [OF wf_enc_cct [OF assms]])
  have "\<exists>mid. marshal (enc_cct p) = CHR ''{'' # mid @ [CHR ''}'']"
    unfolding marshal_def enc_cct_def by (simp del: append_Cons append_assoc) simp
  then obtain mid where m: "marshal (enc_cct p) = CHR ''{'' # mid @ [CHR ''}'']" by blast
  show "trim_space (marshal (enc_cct p)) = marshal (enc_cct p)"
    unfolding m by (simp add: trim_space_plain plain_char_def is_ascii_space_def less_char_def)
  show "marshal (enc_cct p) \<noteq> []" unfolding m by simp
qed

lemma read_written_patterns:
  "list_all cct_ok ps \<Longrightarrow> ReadCctPatterns (Opened (concat (map cct_line ps))) = Inr ps"
proof -
  assume ok: "list_all cct_ok ps"
  have "split_on (CHR 0x0A) (concat (map cct_line qs)) = map (\<lambda>p. marshal (enc_cct p)) qs @ [[]]" if "list_all cct_ok qs" for qs
    using that
  proof (induction qs)
    case (Cons q qs)
    then show ?case using unmarshal_cct_line(2) [of q]
      by (simp add: cct_line_def split_on_append)
  qed simp
  with ok have s: "split_on (CHR 0x0A) (concat (map cct_line ps)) = map (\<lambda>p. marshal (enc_cct p)) ps @ [[]]" by simp
  have "content_lines (map (\<lambda>p. marshal (enc_cct p)) ps @ [[]]) = map (\<lambda>p. marshal (enc_cct p)) ps"
    using ok by (induction ps) (simp_all add: content_lines_def unmarshal_cct_line)
  moreover have "List.map_filter unmarshal_cct (map (\<lambda>p. marshal (enc_cct p)) ps) = ps"
    using ok by (induction ps) (simp_all add: unmarshal_cct_line map_filter_simps)
  ultimately show ?thesis by (simp add: ReadCctPatterns_def s)
qed

lemma write_patterns_ok: "(\<And>k' n. fault \<noteq> CWrite k' n) \<Longrightarrow> write_patterns fault k ps t = (True, t @ concat (map cct_line ps))"
  by (induction fault k ps t rule: write_patterns.induct) (auto split: compact_fault.splits)

lemma merge_ok: "list_all cct_ok ex \<Longrightarrow> list_all cct_ok news \<Longrightarrow> list_all cct_ok (mergePatterns ex news)"
proof -
  assume e: "list_all cct_ok ex" and n: "list_all cct_ok news"
  have "list_all cct_ok (merge_new seen news)" for seen
    using n by (induction seen news rule: merge_new.induct) simp_all
  moreover have "list_all cct_ok (merge_existing (foldl (\<lambda>m p. AList.update (cct_ID p) p m) [] news) ex)"
    using e n by (auto simp: merge_existing_def by_id_fold list_all_iff find_Some_iff split: option.split)
      (metis nth_mem set_rev length_rev)
  ultimately show ?thesis by (simp add: mergePatterns_def)
qed

lemma merge_new_some:
  "p \<in> set (merge_new seen ps) \<longleftrightarrow> cct_ID p \<notin> set seen \<and> find (\<lambda>q. cct_ID q = cct_ID p) ps = Some p"
  by (induction seen ps rule: merge_new.induct) auto

text \<open>Whatever call fails, the target is what it was or holds all patterns, and no temporary file of the run is left.\<close>

lemma writePatternFile_atomic:
  assumes "writePatternFile fault d ps = (r, d')"
  shows "(case r of Some _ \<Rightarrow> fs_target d' = fs_target d | None \<Rightarrow> fs_target d' = Some (concat (map cct_line ps))) \<and>
    (fs_temp d' = None \<or> d' = d)"
proof -
  obtain ok t where w: "write_patterns fault 0 ps [] = (ok, t)" by fastforce
  have full: "t = concat (map cct_line ps)" if "\<And>k n. fault \<noteq> CWrite k n" using write_patterns_ok [OF that] w by simp
  have all: "write_patterns f k qs u = (True, v) \<Longrightarrow> v = u @ concat (map cct_line qs)" for f k qs u v
    by (induction f k qs u rule: write_patterns.induct) (auto split: compact_fault.splits if_splits)
  have "ok \<Longrightarrow> t = concat (map cct_line ps)" using all [of fault 0 ps "[]" t] w by simp
  with assms w show ?thesis
    by (auto simp: writePatternFile_def Let_def remove_temp_def split: if_splits)
qed

text \<open>C33: Writing patterns merges them into the file, all or nothing, whatever call of the run fails. After a failure the
  file holds what it held. After a success on a file of written patterns \<open>ReadCctPatterns\<close> returns the old
  patterns in their order, each replaced by the last new pattern of its ID if there is one, followed by the new
  patterns of every further ID in the order in which the IDs first occur, each of them the first one of its ID. No
  temporary file of the run is left, and without a failing call the run succeeds.\<close>

theorem WriteCctPatterns_merge:
  assumes "list_all cct_ok ex" and "list_all cct_ok news" and "fs_target d = Some (concat (map cct_line ex))"
    and "WriteCctPatterns fault open_fails d news = (r, d')"
  shows "(fs_temp d' = None \<or> d' = d) \<and> (fault = CNone \<and> \<not> open_fails \<longrightarrow> r = None) \<and>
     (r \<noteq> None \<longrightarrow> fs_target d' = fs_target d) \<and>
     (r = None \<longrightarrow> (\<exists>new. ReadCctPatterns (open_file (fs_target d')) =
         Inr (map (\<lambda>p. case find (\<lambda>q. cct_ID q = cct_ID p) (rev news) of Some q \<Rightarrow> q | None \<Rightarrow> p) ex @ new) \<and>
       map cct_ID new = dedup_seen (map cct_ID ex) (map cct_ID news) \<and>
       (\<forall>p \<in> set new. find (\<lambda>q. cct_ID q = cct_ID p) news = Some p)))"
proof (cases "fault = CMkdir \<or> open_fails")
  case True
  then show ?thesis using assms(4) by (auto simp: WriteCctPatterns_def ReadCctPatterns_def split: if_splits)
next
  case False
  let ?new = "merge_new (map cct_ID ex) news"
  let ?old = "map (\<lambda>p. case find (\<lambda>q. cct_ID q = cct_ID p) (rev news) of Some q \<Rightarrow> q | None \<Rightarrow> p) ex"
  have m: "mergePatterns ex news = ?old @ ?new"
    by (auto simp: mergePatterns_def merge_existing_def by_id_fold split: option.split)
  have w: "writePatternFile fault d (mergePatterns ex news) = (r, d')"
    using False assms(4) read_written_patterns [OF assms(1)] assms(3) by (simp add: WriteCctPatterns_def open_file_def)
  have "r = None" if "fault = CNone"
    using w that write_patterns_ok [of CNone 0 "mergePatterns ex news" "[]"] by (simp add: writePatternFile_def Let_def)
  moreover have "ReadCctPatterns (Opened (concat (map cct_line (?old @ ?new)))) = Inr (?old @ ?new)"
    using read_written_patterns [OF merge_ok [OF assms(1,2)]] unfolding m .
  moreover have "\<forall>p \<in> set ?new. find (\<lambda>q. cct_ID q = cct_ID p) news = Some p" by (simp add: merge_new_some)
  moreover note merge_new_ids [of "map cct_ID ex" news]
  ultimately show ?thesis using writePatternFile_atomic [OF w] unfolding m
    by (cases r) (auto simp: open_file_def)
qed

definition cct_sample :: cct_pattern where
  "cct_sample = cct0\<lparr>cct_ID := ''CCT-1'', cct_Name := ''go'', cct_Frequency := 2, cct_SourceIDs := Some [''L1'']\<rparr>"

theorem WriteCctPatterns_merge_witness:
  "\<exists>r d'. WriteCctPatterns CSync False \<lparr>fs_target = Some (concat (map cct_line [cct_sample])), fs_temp = None\<rparr>
       [cct_sample\<lparr>cct_Name := ''rust''\<rparr>, cct_sample\<lparr>cct_ID := ''CCT-2''\<rparr>] = (r, d') \<and>
     (r = None \<or> fs_target d' = Some (concat (map cct_line [cct_sample])))"
proof -
  have ok: "list_all cct_ok [cct_sample]" "list_all cct_ok [cct_sample\<lparr>cct_Name := ''rust''\<rparr>, cct_sample\<lparr>cct_ID := ''CCT-2''\<rparr>]"
    by code_simp+
  obtain r d' where w: "WriteCctPatterns CSync False \<lparr>fs_target = Some (concat (map cct_line [cct_sample])), fs_temp = None\<rparr>
       [cct_sample\<lparr>cct_Name := ''rust''\<rparr>, cct_sample\<lparr>cct_ID := ''CCT-2''\<rparr>] = (r, d')" by fastforce
  from WriteCctPatterns_merge [OF ok _ w] w show ?thesis by auto
qed

end
