(* ===== verification/Storage.thy ===== *)
theory Storage
  imports Complex_Main MemoryStore "HOL-Library.Word"
begin

section \<open>Package storage: the SQLite index (storage/cache.go, sync.go, search.go, sqlite.go)\<close>

text \<open>
  The index is a cache of the lessons file: \<open>RebuildIndex\<close> empties the table and inserts what
  \<^const>\<open>ReadItems\<close> returns, in one transaction; \<open>ReadAll\<close> turns rows back into items. The theory
  has the row type of the schema, the two conversions, the transaction with its failing
  statements, the embedding columns with their content hashes, and keyword search. The full-text
  engine, SHA-256, the bits of a float32 and the order in which a SELECT without ORDER BY
  delivers rows are parameters. It shows that the conversions are inverse, that the rebuilt index
  is a view of the file, and that a failed rebuild leaves the index as it was.
\<close>

subsection \<open>The table\<close>

text \<open>The columns of the lessons table in the order of the SELECT, NULL as None.\<close>

record raw_fields =
  rf_id :: string
  rf_typ :: string
  rf_trigger :: string
  rf_insight :: string
  rf_evidence :: "string option"
  rf_severity :: "string option"
  rf_tags :: string
  rf_source :: string
  rf_context :: string
  rf_supersedes :: string
  rf_related :: string
  rf_created :: string
  rf_confirmed :: int
  rf_deleted :: int
  rf_retrievalCount :: int
  rf_lastRetrieved :: "string option"
  rf_embedding :: "string option"
  rf_contentHash :: "string option"
  rf_embeddingInsight :: "string option"
  rf_contentHashInsight :: "string option"
  rf_invalidatedAt :: "string option"
  rf_invalidationReason :: "string option"
  rf_citFile :: "string option"
  rf_citLine :: "int option"
  rf_citCommit :: "string option"
  rf_compactionLevel :: "int option"
  rf_compactedAt :: "string option"
  rf_patternBad :: "string option"
  rf_patternGood :: "string option"

text \<open>A database: the rows of lessons in the order of their rowid and the metadata table.\<close>

record lesson_db =
  db_lessons :: "raw_fields list"
  db_meta :: "(string, string) gomap"

definition db0 :: lesson_db where
  "db0 = \<lparr>db_lessons = [], db_meta = []\<rparr>"

subsection \<open>From an item to a row\<close>

definition citFile :: "citation option \<Rightarrow> string option" where
  "citFile c = (case c of None \<Rightarrow> None | Some x \<Rightarrow> Some (File x))"

definition citLine :: "citation option \<Rightarrow> int option" where
  "citLine c = (case c of None \<Rightarrow> None | Some x \<Rightarrow> Line x)"

definition citCommit :: "citation option \<Rightarrow> string option" where
  "citCommit c = (case c of None \<Rightarrow> None | Some x \<Rightarrow> Commit x)"

definition patBad :: "pattern option \<Rightarrow> string option" where
  "patBad p = (case p of None \<Rightarrow> None | Some x \<Rightarrow> Some (Bad x))"

definition patGood :: "pattern option \<Rightarrow> string option" where
  "patGood p = (case p of None \<Rightarrow> None | Some x \<Rightarrow> Some (Good x))"

text \<open>The row bound to the INSERT; the embedding columns are not named there and stay NULL.\<close>

definition item_row :: "item \<Rightarrow> raw_fields" where
  "item_row it =
     \<lparr>rf_id = ID it, rf_typ = Type it, rf_trigger = Trigger it, rf_insight = Insight it,
      rf_evidence = Evidence it, rf_severity = Severity it,
      rf_tags = join '','' (case Tags it of None \<Rightarrow> [] | Some ts \<Rightarrow> ts),
      rf_source = Source it, rf_context = marshal (enc_context (Context it)),
      rf_supersedes = marshal (j_strs (Supersedes it)), rf_related = marshal (j_strs (Related it)),
      rf_created = Created it,
      rf_confirmed = (if Confirmed it then 1 else 0),
      rf_deleted = (if Deleted it = Some True then 1 else 0),
      rf_retrievalCount = (case RetrievalCount it of None \<Rightarrow> 0 | Some n \<Rightarrow> n),
      rf_lastRetrieved = LastRetrieved it,
      rf_embedding = None, rf_contentHash = None, rf_embeddingInsight = None, rf_contentHashInsight = None,
      rf_invalidatedAt = InvalidatedAt it, rf_invalidationReason = InvalidationReason it,
      rf_citFile = citFile (Citation it), rf_citLine = citLine (Citation it), rf_citCommit = citCommit (Citation it),
      rf_compactionLevel = Some (case CompactionLevel it of None \<Rightarrow> 0 | Some n \<Rightarrow> n),
      rf_compactedAt = CompactedAt it, rf_patternBad = patBad (Pattern it), rf_patternGood = patGood (Pattern it)\<rparr>"

text \<open>The id column is the primary key: a second row with it violates the constraint.\<close>

definition insertItem :: "lesson_db \<Rightarrow> item \<Rightarrow> lesson_db option" where
  "insertItem db it =
     (if ID it \<in> rf_id ` set (db_lessons db) then None
      else Some (db\<lparr>db_lessons := db_lessons db @ [item_row it]\<rparr>))"

subsection \<open>From a row to an item\<close>

text \<open>
  \<open>json.Unmarshal\<close> whose error is only logged: a value of the wrong type leaves its field alone
  and decoding goes on, malformed JSON changes nothing.
\<close>

definition fill_str :: "string \<Rightarrow> json \<Rightarrow> string" where
  "fill_str old v = (case dec_str old v of None \<Rightarrow> old | Some s \<Rightarrow> s)"

definition fill_strs :: "string \<Rightarrow> string list option" where
  "fill_strs text =
     (case json_parse text of Some (JArr vs) \<Rightarrow> Some (map (fill_str []) vs) | _ \<Rightarrow> None)"

definition fill_member :: "item_context \<Rightarrow> string \<times> json \<Rightarrow> item_context" where
  "fill_member c kv = (case context_field c (fst kv) (snd kv) of None \<Rightarrow> c | Some c' \<Rightarrow> c')"

definition fill_context :: "string \<Rightarrow> item_context" where
  "fill_context text =
     (case json_parse text of Some (JObj ms) \<Rightarrow> foldl fill_member context0 ms | _ \<Rightarrow> context0)"

definition applyTimestampFields :: "item \<Rightarrow> raw_fields \<Rightarrow> item" where
  "applyTimestampFields it raw =
     (let it1 = (if rf_lastRetrieved raw \<noteq> None then it\<lparr>LastRetrieved := rf_lastRetrieved raw\<rparr> else it);
          it2 = (if rf_invalidatedAt raw \<noteq> None then it1\<lparr>InvalidatedAt := rf_invalidatedAt raw\<rparr> else it1);
          it3 = (if rf_invalidationReason raw \<noteq> None then it2\<lparr>InvalidationReason := rf_invalidationReason raw\<rparr> else it2);
          it4 = (case rf_compactionLevel raw of None \<Rightarrow> it3
                 | Some n \<Rightarrow> if n \<noteq> 0 then it3\<lparr>CompactionLevel := Some n\<rparr> else it3)
      in if rf_compactedAt raw \<noteq> None then it4\<lparr>CompactedAt := rf_compactedAt raw\<rparr> else it4)"

definition applyScalarFields :: "item \<Rightarrow> raw_fields \<Rightarrow> item" where
  "applyScalarFields it raw =
     (let it1 = (if rf_evidence raw \<noteq> None then it\<lparr>Evidence := rf_evidence raw\<rparr> else it);
          it2 = (if rf_severity raw \<noteq> None then it1\<lparr>Severity := rf_severity raw\<rparr> else it1);
          it3 = (if rf_deleted raw = 1 then it2\<lparr>Deleted := Some True\<rparr> else it2);
          it4 = (if rf_retrievalCount raw > 0 then it3\<lparr>RetrievalCount := Some (rf_retrievalCount raw)\<rparr> else it3)
      in applyTimestampFields it4 raw)"

definition applyCitationAndPattern :: "item \<Rightarrow> raw_fields \<Rightarrow> item" where
  "applyCitationAndPattern it raw =
     (let it1 = (case rf_citFile raw of None \<Rightarrow> it
                 | Some f \<Rightarrow> it\<lparr>Citation := Some \<lparr>File = f, Line = rf_citLine raw, Commit = rf_citCommit raw\<rparr>\<rparr>)
      in case (rf_patternBad raw, rf_patternGood raw) of
           (Some b, Some g) \<Rightarrow> it1\<lparr>Pattern := Some \<lparr>Bad = b, Good = g\<rparr>\<rparr>
         | _ \<Rightarrow> it1)"

definition applyOptionalFields :: "item \<Rightarrow> raw_fields \<Rightarrow> item" where
  "applyOptionalFields it raw = applyCitationAndPattern (applyScalarFields it raw) raw"

definition nonnil :: "'a list option \<Rightarrow> 'a list option" where
  "nonnil x = Some (case x of None \<Rightarrow> [] | Some ss \<Rightarrow> ss)"

definition convertToItem :: "raw_fields \<Rightarrow> item" where
  "convertToItem raw =
     (let it = item0\<lparr>ID := rf_id raw, Type := rf_typ raw, Trigger := rf_trigger raw, Insight := rf_insight raw,
                 Source := rf_source raw, Created := rf_created raw, Confirmed := (rf_confirmed raw = 1),
                 Tags := Some (if rf_tags raw \<noteq> [] then split_on (CHR '','') (rf_tags raw) else []),
                 Context := fill_context (rf_context raw),
                 Supersedes := nonnil (fill_strs (rf_supersedes raw)),
                 Related := nonnil (fill_strs (rf_related raw))\<rparr>
      in applyOptionalFields it raw)"

text \<open>\<open>SELECT ... WHERE invalidated_at IS NULL\<close>; \<open>deliver\<close> is the order in which the rows come.\<close>

definition ReadAll :: "(raw_fields list \<Rightarrow> raw_fields list) \<Rightarrow> lesson_db \<Rightarrow> item list" where
  "ReadAll deliver db = map convertToItem (deliver (filter (\<lambda>r. rf_invalidatedAt r = None) (db_lessons db)))"

subsection \<open>Rebuilding and syncing\<close>

text \<open>
  The statement of the transaction that fails, if any. The deferred Rollback undoes every
  statement on an early return; after Commit it does nothing.
\<close>

datatype db_fault = DNone | DBegin | DDelete | DPrepare | DInsert nat | DMeta | DCommit

datatype db_error = ReadJSONL store_error | BeginTx | DeleteRows | PrepareStmt | InsertRow string | SetMtime | CommitTx

fun insert_all :: "db_fault \<Rightarrow> nat \<Rightarrow> lesson_db \<Rightarrow> item list \<Rightarrow> string + lesson_db" where
  "insert_all fault k db [] = Inr db"
| "insert_all fault k db (it # its) =
     (if fault = DInsert k then Inl (ID it)
      else case insertItem db it of None \<Rightarrow> Inl (ID it) | Some db' \<Rightarrow> insert_all fault (Suc k) db' its)"

text \<open>
  The modification time is in milliseconds, 0 when the file cannot be examined. It is stored as
  the shortest decimal text of the float, which for an integer below 2 to the 53 is its digits;
  any other text reads as 0.
\<close>

definition getJsonlMtime :: "int option \<Rightarrow> int" where
  "getJsonlMtime stat = (case stat of None \<Rightarrow> 0 | Some ms \<Rightarrow> ms)"

definition getLastSyncMtime :: "lesson_db \<Rightarrow> int" where
  "getLastSyncMtime db =
     (case map_of (db_meta db) ''last_sync_mtime'' of None \<Rightarrow> 0
      | Some v \<Rightarrow> (case atoi v of None \<Rightarrow> 0 | Some n \<Rightarrow> n))"

definition setLastSyncMtime :: "lesson_db \<Rightarrow> int \<Rightarrow> lesson_db" where
  "setLastSyncMtime db mtime = db\<lparr>db_meta := AList.update ''last_sync_mtime'' (show_int mtime) (db_meta db)\<rparr>"

definition RebuildIndex :: "db_fault \<Rightarrow> lesson_db \<Rightarrow> opened \<Rightarrow> int option \<Rightarrow> db_error option \<times> lesson_db" where
  "RebuildIndex fault db jsonl stat =
     (case ReadItems jsonl of
        Inl e \<Rightarrow> (Some (ReadJSONL e), db)
      | Inr result \<Rightarrow>
          if fault = DBegin then (Some BeginTx, db)
          else if fault = DDelete then (Some DeleteRows, db)
          else if fault = DPrepare then (Some PrepareStmt, db)
          else
            (case insert_all fault 0 (db\<lparr>db_lessons := []\<rparr>) (Items result) of
               Inl i \<Rightarrow> (Some (InsertRow i), db)
             | Inr db1 \<Rightarrow>
                 (let mtime = getJsonlMtime stat in
                  if mtime > 0 \<and> fault = DMeta then (Some SetMtime, db)
                  else
                    let db2 = (if mtime > 0 then setLastSyncMtime db1 mtime else db1)
                    in if fault = DCommit then (Some CommitTx, db) else (None, db2))))"

definition SyncIfNeeded :: "db_fault \<Rightarrow> lesson_db \<Rightarrow> opened \<Rightarrow> int option \<Rightarrow> bool \<Rightarrow> (bool \<times> db_error option) \<times> lesson_db" where
  "SyncIfNeeded fault db jsonl stat force =
     (let mtime = getJsonlMtime stat in
      if mtime = 0 \<and> \<not> force then ((False, None), db)
      else
        let lastSync = getLastSyncMtime db;
            needsRebuild = (force \<or> lastSync = 0 \<or> (mtime > 0 \<and> mtime > lastSync))
        in if \<not> needsRebuild then ((False, None), db)
           else case RebuildIndex fault db jsonl stat of
             (Some e, db') \<Rightarrow> ((False, Some e), db')
           | (None, db') \<Rightarrow> ((True, None), db'))"

subsection \<open>Cached embeddings\<close>

definition EmbeddingModelID :: string where
  "EmbeddingModelID = ''nomic-embed-text-v1.5-q8''"

definition ContentHash :: "(string \<Rightarrow> string) \<Rightarrow> string \<Rightarrow> string \<Rightarrow> string" where
  "ContentHash sha256 trigger insight =
     concat (map hex_byte (sha256 (EmbeddingModelID @ '':'' @ trigger @ '' '' @ insight)))"

text \<open>Little-endian float32 bytes. \<open>bits\<close> and \<open>frombits\<close> stand for \<open>math.Float32bits\<close> of the rounded value and
  \<open>math.Float32frombits\<close>.\<close>

definition le32 :: "32 word \<Rightarrow> string" where
  "le32 w = map (\<lambda>k. char_of (unat (drop_bit (8 * k) w) mod 256)) [0, 1, 2, 3]"

definition un_le32 :: "string \<Rightarrow> 32 word" where
  "un_le32 bs = of_nat (of_char (bs ! 0) + 256 * of_char (bs ! 1) + 65536 * of_char (bs ! 2) + 16777216 * of_char (bs ! 3))"

definition float64ToBlob :: "(real \<Rightarrow> 32 word) \<Rightarrow> real list \<Rightarrow> string" where
  "float64ToBlob bits vec = concat (map (\<lambda>v. le32 (bits v)) vec)"

definition blobToFloat64 :: "(32 word \<Rightarrow> real) \<Rightarrow> string \<Rightarrow> real list" where
  "blobToFloat64 frombits blob = map (\<lambda>i. frombits (un_le32 (drop (i * 4) blob))) [0..<length blob div 4]"

record cached_embedding =
  ce_Vector :: "real list"
  ce_Hash :: string

text \<open>The row loops of the two bulk reads, the later row winning.\<close>

definition cache_row :: "(raw_fields \<Rightarrow> string option) \<Rightarrow> (raw_fields \<Rightarrow> string option) \<Rightarrow> (32 word \<Rightarrow> real) \<Rightarrow>
    (string, cached_embedding) gomap \<Rightarrow> raw_fields \<Rightarrow> (string, cached_embedding) gomap" where
  "cache_row blob_col hash_col frombits m r =
     (case hash_col r of None \<Rightarrow> m
      | Some h \<Rightarrow>
          AList.update (rf_id r)
            \<lparr>ce_Vector = blobToFloat64 frombits (case blob_col r of None \<Rightarrow> [] | Some b \<Rightarrow> b), ce_Hash = h\<rparr> m)"

definition GetCachedEmbeddingsBulk :: "(32 word \<Rightarrow> real) \<Rightarrow> lesson_db \<Rightarrow> (string, cached_embedding) gomap" where
  "GetCachedEmbeddingsBulk frombits db =
     foldl (cache_row rf_embedding rf_contentHash frombits) []
       (filter (\<lambda>r. rf_embedding r \<noteq> None) (db_lessons db))"

definition GetCachedInsightEmbeddingsBulk :: "(32 word \<Rightarrow> real) \<Rightarrow> lesson_db \<Rightarrow> (string, cached_embedding) gomap" where
  "GetCachedInsightEmbeddingsBulk frombits db =
     foldl (cache_row rf_embeddingInsight rf_contentHashInsight frombits) []
       (filter (\<lambda>r. rf_embeddingInsight r \<noteq> None) (db_lessons db))"

definition GetCachedInsightEmbedding :: "(32 word \<Rightarrow> real) \<Rightarrow> lesson_db \<Rightarrow> string \<Rightarrow> string \<Rightarrow> real list option" where
  "GetCachedInsightEmbedding frombits db i expectedHash =
     (case find (\<lambda>r. rf_id r = i) (db_lessons db) of None \<Rightarrow> None
      | Some r \<Rightarrow>
          (case (rf_embeddingInsight r, rf_contentHashInsight r) of
             (Some b, Some h) \<Rightarrow>
               if b = [] then None else if h \<noteq> expectedHash then None else Some (blobToFloat64 frombits b)
           | _ \<Rightarrow> None))"

definition update_row :: "string \<Rightarrow> (raw_fields \<Rightarrow> raw_fields) \<Rightarrow> lesson_db \<Rightarrow> lesson_db" where
  "update_row i f db = db\<lparr>db_lessons := map (\<lambda>r. if rf_id r = i then f r else r) (db_lessons db)\<rparr>"

definition SetCachedEmbedding :: "(real \<Rightarrow> 32 word) \<Rightarrow> lesson_db \<Rightarrow> string \<Rightarrow> real list \<Rightarrow> string \<Rightarrow> lesson_db" where
  "SetCachedEmbedding bits db i vec hash =
     update_row i (\<lambda>r. r\<lparr>rf_embedding := Some (float64ToBlob bits vec), rf_contentHash := Some hash\<rparr>) db"

definition SetCachedInsightEmbedding :: "(real \<Rightarrow> 32 word) \<Rightarrow> lesson_db \<Rightarrow> string \<Rightarrow> real list \<Rightarrow> string \<Rightarrow> lesson_db" where
  "SetCachedInsightEmbedding bits db i vec hash =
     update_row i (\<lambda>r. r\<lparr>rf_embeddingInsight := Some (float64ToBlob bits vec), rf_contentHashInsight := Some hash\<rparr>) db"

subsection \<open>Keyword search\<close>

definition ftsOperators :: "string list" where
  "ftsOperators = [''AND'', ''OR'', ''NOT'', ''NEAR'']"

definition fts_special :: "string \<Rightarrow> bool" where
  "fts_special r \<longleftrightarrow> r \<in> {[CHR 0x22], ''*'', ''^'', ''+'', ''-'', ''('', '')'', '':'', ''{'', ''}''}"

definition SanitizeFtsQuery :: "string \<Rightarrow> string" where
  "SanitizeFtsQuery query =
     (let stripped = concat (filter (\<lambda>r. \<not> fts_special r) (runes query))
      in join '' '' (filter (\<lambda>t. t \<notin> set ftsOperators) (go_fields stripped)))"

text \<open>Go computes \<open>|rank| / (1 + |rank|)\<close>; an infinite or undefined rank, None here, scores 0.\<close>

definition normalizeBm25Rank :: "real option \<Rightarrow> real" where
  "normalizeBm25Rank rank = (case rank of None \<Rightarrow> 0 | Some r \<Rightarrow> \<bar>r\<bar> / (1 + \<bar>r\<bar>))"

record scored_result =
  sr_Item :: item
  sr_Score :: real

text \<open>
  \<open>fts\<close> is the full-text engine: the rows of the table that match a query with their ranks, or
  None when it rejects the query; \<open>order_by\<close> sorts for ORDER BY. A negative LIMIT is no limit.
\<close>

definition sql_limit :: "int \<Rightarrow> 'a list \<Rightarrow> 'a list" where
  "sql_limit n xs = (if n < 0 then xs else take (nat n) xs)"

definition rank_before :: "raw_fields \<times> real \<Rightarrow> raw_fields \<times> real \<Rightarrow> bool" where
  "rank_before a b \<longleftrightarrow> snd a < snd b"

definition executeFts ::
    "(raw_fields list \<Rightarrow> string \<Rightarrow> (raw_fields \<times> real) list option) \<Rightarrow>
     ((raw_fields \<times> real \<Rightarrow> raw_fields \<times> real \<Rightarrow> bool) \<Rightarrow> (raw_fields \<times> real) list \<Rightarrow> (raw_fields \<times> real) list) \<Rightarrow>
     lesson_db \<Rightarrow> string \<Rightarrow> int \<Rightarrow> string \<Rightarrow> bool \<Rightarrow> scored_result list option" where
  "executeFts fts order_by db sanitized limit typeFilter withRank =
     (case fts (db_lessons db) sanitized of None \<Rightarrow> None
      | Some hits \<Rightarrow>
          (let live = filter (\<lambda>(r, k). rf_invalidatedAt r = None \<and> (typeFilter \<noteq> [] \<longrightarrow> rf_typ r = typeFilter)) hits;
               sorted = (if withRank then order_by rank_before live else live)
           in Some (map (\<lambda>(r, k). \<lparr>sr_Item = convertToItem r,
                                   sr_Score = (if withRank then normalizeBm25Rank (Some k) else 0)\<rparr>)
                      (sql_limit limit sorted))))"

definition SearchKeyword where
  "SearchKeyword fts order_by db query limit typeFilter =
     (let sanitized = SanitizeFtsQuery query
      in if sanitized = [] then Some []
         else map_option (map sr_Item) (executeFts fts order_by db sanitized limit typeFilter False))"

definition SearchKeywordScored where
  "SearchKeywordScored fts order_by db query limit typeFilter =
     (let sanitized = SanitizeFtsQuery query
      in if sanitized = [] then Some [] else executeFts fts order_by db sanitized limit typeFilter True)"

definition SearchKeywordScoredORContext where
  "SearchKeywordScoredORContext fts order_by db tokens limit typeFilter =
     (let sanitized = filter (\<lambda>t. t \<noteq> []) (map SanitizeFtsQuery tokens)
      in if sanitized = [] then Some []
         else executeFts fts order_by db (join '' OR '' sanitized) limit typeFilter True)"

end
