(* ===== verification/StorageProps.thy ===== *)
theory StorageProps
  imports Storage
begin

section \<open>The index is a view of the lessons file\<close>

text \<open>
  Proofs about package storage: rows and items convert into each other, a rebuild makes the
  table hold the items of the file, syncing is idempotent, a failing rebuild changes nothing, the
  two embedding caches satisfy one contract (the locale \<open>embedding_cache\<close>), and keyword queries are
  sanitised before they reach the full-text engine.
\<close>

subsection \<open>Rows and items\<close>

text \<open>What the columns can hold of an item.\<close>

definition index_view :: "item \<Rightarrow> item" where
  "index_view it =
     it\<lparr>Tags := Some (let s = join '','' (case Tags it of None \<Rightarrow> [] | Some ts \<Rightarrow> ts) in if s = [] then [] else split_on (CHR '','') s),
        Supersedes := nonnil (Supersedes it), Related := nonnil (Related it), DeletedAt := None,
        Deleted := (if Deleted it = Some True then Some True else None),
        RetrievalCount := (case RetrievalCount it of Some n \<Rightarrow> if n > 0 then Some n else None | None \<Rightarrow> None),
        CompactionLevel := (case CompactionLevel it of Some n \<Rightarrow> if n \<noteq> 0 then Some n else None | None \<Rightarrow> None)\<rparr>"

text \<open>An item that loses nothing in the table: no default written out, no comma in a tag.\<close>

definition indexable :: "item \<Rightarrow> bool" where
  "indexable it \<longleftrightarrow>
     (case Tags it of None \<Rightarrow> False | Some ts \<Rightarrow> ts \<noteq> [[]] \<and> list_all (\<lambda>t. CHR '','' \<notin> set t) ts) \<and>
     Supersedes it \<noteq> None \<and> Related it \<noteq> None \<and> DeletedAt it = None \<and> Deleted it \<noteq> Some False \<and>
     opt_ok (\<lambda>n. n > 0) (RetrievalCount it) \<and> opt_ok (\<lambda>n. n \<noteq> 0) (CompactionLevel it)"

lemma jdepth_strs_max: "jdepth (j_strs x) \<le> max_depth"
  by (rule order.trans [OF jdepth_j_strs]) (simp add: max_depth_def)

lemma fill_strs_row [simp]: "strs_ok x \<Longrightarrow> fill_strs (marshal (j_strs x)) = x"
  using parse_marshal [OF wf_j_strs jdepth_strs_max, of x]
  by (cases x) (simp_all add: fill_strs_def j_strs_def fill_str_def map_idI)

lemma fill_context_row [simp]:
  assumes "valid_utf8 (Tool c)" and "valid_utf8 (Intent c)"
  shows "fill_context (marshal (enc_context c)) = c"
proof -
  have "jdepth (enc_context c) \<le> max_depth" by (simp add: enc_context_def max_depth_def)
  then have "json_parse (marshal (enc_context c)) = Some (enc_context c)"
    by (rule parse_marshal [OF wf_context [OF assms]])
  then show ?thesis
    by (cases c) (simp add: fill_context_def enc_context_def fill_member_def context_field_def canon_key_exact context0_def)
qed

lemma applyTimestampFields_sel [simp]:
  "ID (applyTimestampFields it raw) = ID it"
  "Type (applyTimestampFields it raw) = Type it"
  "Trigger (applyTimestampFields it raw) = Trigger it"
  "Insight (applyTimestampFields it raw) = Insight it"
  "Tags (applyTimestampFields it raw) = Tags it"
  "Source (applyTimestampFields it raw) = Source it"
  "Context (applyTimestampFields it raw) = Context it"
  "Created (applyTimestampFields it raw) = Created it"
  "Confirmed (applyTimestampFields it raw) = Confirmed it"
  "Supersedes (applyTimestampFields it raw) = Supersedes it"
  "Related (applyTimestampFields it raw) = Related it"
  "Evidence (applyTimestampFields it raw) = Evidence it"
  "Severity (applyTimestampFields it raw) = Severity it"
  "Deleted (applyTimestampFields it raw) = Deleted it"
  "DeletedAt (applyTimestampFields it raw) = DeletedAt it"
  "RetrievalCount (applyTimestampFields it raw) = RetrievalCount it"
  "LastRetrieved (applyTimestampFields it raw) = (if rf_lastRetrieved raw \<noteq> None then rf_lastRetrieved raw else LastRetrieved it)"
  "InvalidatedAt (applyTimestampFields it raw) = (if rf_invalidatedAt raw \<noteq> None then rf_invalidatedAt raw else InvalidatedAt it)"
  "InvalidationReason (applyTimestampFields it raw) = (if rf_invalidationReason raw \<noteq> None then rf_invalidationReason raw else InvalidationReason it)"
  "CompactionLevel (applyTimestampFields it raw) = (case rf_compactionLevel raw of None \<Rightarrow> CompactionLevel it | Some n \<Rightarrow> if n \<noteq> 0 then Some n else CompactionLevel it)"
  "CompactedAt (applyTimestampFields it raw) = (if rf_compactedAt raw \<noteq> None then rf_compactedAt raw else CompactedAt it)"
  "Citation (applyTimestampFields it raw) = Citation it"
  "Pattern (applyTimestampFields it raw) = Pattern it"
  "item.more (applyTimestampFields it raw) = item.more it"
  by (auto simp: applyTimestampFields_def Let_def split: option.split)

lemma applyScalarFields_sel [simp]:
  "ID (applyScalarFields it raw) = ID it"
  "Type (applyScalarFields it raw) = Type it"
  "Trigger (applyScalarFields it raw) = Trigger it"
  "Insight (applyScalarFields it raw) = Insight it"
  "Tags (applyScalarFields it raw) = Tags it"
  "Source (applyScalarFields it raw) = Source it"
  "Context (applyScalarFields it raw) = Context it"
  "Created (applyScalarFields it raw) = Created it"
  "Confirmed (applyScalarFields it raw) = Confirmed it"
  "Supersedes (applyScalarFields it raw) = Supersedes it"
  "Related (applyScalarFields it raw) = Related it"
  "Evidence (applyScalarFields it raw) = (if rf_evidence raw \<noteq> None then rf_evidence raw else Evidence it)"
  "Severity (applyScalarFields it raw) = (if rf_severity raw \<noteq> None then rf_severity raw else Severity it)"
  "Deleted (applyScalarFields it raw) = (if rf_deleted raw = 1 then Some True else Deleted it)"
  "DeletedAt (applyScalarFields it raw) = DeletedAt it"
  "RetrievalCount (applyScalarFields it raw) = (if rf_retrievalCount raw > 0 then Some (rf_retrievalCount raw) else RetrievalCount it)"
  "LastRetrieved (applyScalarFields it raw) = (if rf_lastRetrieved raw \<noteq> None then rf_lastRetrieved raw else LastRetrieved it)"
  "InvalidatedAt (applyScalarFields it raw) = (if rf_invalidatedAt raw \<noteq> None then rf_invalidatedAt raw else InvalidatedAt it)"
  "InvalidationReason (applyScalarFields it raw) = (if rf_invalidationReason raw \<noteq> None then rf_invalidationReason raw else InvalidationReason it)"
  "CompactionLevel (applyScalarFields it raw) = (case rf_compactionLevel raw of None \<Rightarrow> CompactionLevel it | Some n \<Rightarrow> if n \<noteq> 0 then Some n else CompactionLevel it)"
  "CompactedAt (applyScalarFields it raw) = (if rf_compactedAt raw \<noteq> None then rf_compactedAt raw else CompactedAt it)"
  "Citation (applyScalarFields it raw) = Citation it"
  "Pattern (applyScalarFields it raw) = Pattern it"
  "item.more (applyScalarFields it raw) = item.more it"
  by (simp_all add: applyScalarFields_def Let_def split: option.split)

lemma applyCitationAndPattern_sel [simp]:
  "ID (applyCitationAndPattern it raw) = ID it"
  "Type (applyCitationAndPattern it raw) = Type it"
  "Trigger (applyCitationAndPattern it raw) = Trigger it"
  "Insight (applyCitationAndPattern it raw) = Insight it"
  "Tags (applyCitationAndPattern it raw) = Tags it"
  "Source (applyCitationAndPattern it raw) = Source it"
  "Context (applyCitationAndPattern it raw) = Context it"
  "Created (applyCitationAndPattern it raw) = Created it"
  "Confirmed (applyCitationAndPattern it raw) = Confirmed it"
  "Supersedes (applyCitationAndPattern it raw) = Supersedes it"
  "Related (applyCitationAndPattern it raw) = Related it"
  "Evidence (applyCitationAndPattern it raw) = Evidence it"
  "Severity (applyCitationAndPattern it raw) = Severity it"
  "Deleted (applyCitationAndPattern it raw) = Deleted it"
  "DeletedAt (applyCitationAndPattern it raw) = DeletedAt it"
  "RetrievalCount (applyCitationAndPattern it raw) = RetrievalCount it"
  "LastRetrieved (applyCitationAndPattern it raw) = LastRetrieved it"
  "InvalidatedAt (applyCitationAndPattern it raw) = InvalidatedAt it"
  "InvalidationReason (applyCitationAndPattern it raw) = InvalidationReason it"
  "CompactionLevel (applyCitationAndPattern it raw) = CompactionLevel it"
  "CompactedAt (applyCitationAndPattern it raw) = CompactedAt it"
  "Citation (applyCitationAndPattern it raw) = (case rf_citFile raw of None \<Rightarrow> Citation it | Some f \<Rightarrow> Some \<lparr>File = f, Line = rf_citLine raw, Commit = rf_citCommit raw\<rparr>)"
  "Pattern (applyCitationAndPattern it raw) = (case (rf_patternBad raw, rf_patternGood raw) of (Some b, Some g) \<Rightarrow> Some \<lparr>Bad = b, Good = g\<rparr> | _ \<Rightarrow> Pattern it)"
  "item.more (applyCitationAndPattern it raw) = item.more it"
  by (simp_all add: applyCitationAndPattern_def Let_def split: option.split)

lemma convert_row:
  assumes "item_ok it"
  shows "convertToItem (item_row it) = index_view it"
proof -
  have ok: "strs_ok (Supersedes it)" "strs_ok (Related it)" "valid_utf8 (Tool (Context it))" "valid_utf8 (Intent (Context it))"
    using assms by (simp_all add: item_ok_def)
  show ?thesis
    by (rule item.equality)
      (auto simp: convertToItem_def item_row_def applyOptionalFields_def index_view_def item0_def ok Let_def
        citFile_def citLine_def citCommit_def patBad_def patGood_def split: option.split)
qed

lemma index_view_sel [simp]:
  "ID (index_view it) = ID it" "InvalidatedAt (index_view it) = InvalidatedAt it"
  by (simp_all add: index_view_def)

lemma index_view_id:
  assumes "indexable it"
  shows "index_view it = it"
proof -
  obtain ts where ts: "Tags it = Some ts" "ts \<noteq> [[]]" "list_all (\<lambda>t. CHR '','' \<notin> set t) ts"
    using assms by (auto simp: indexable_def split: option.splits)
  have tags: "(if join '','' ts = [] then [] else split_on (CHR '','') (join '','' ts)) = ts"
  proof (cases "ts = []")
    case False
    then have "split_on (CHR '','') (join '','' ts) = ts" using ts(3) by (intro split_on_join) (auto simp: list_all_iff)
    moreover have "join '','' ts \<noteq> []" using ts(2) False calculation by (metis split_on.simps(1))
    ultimately show ?thesis by simp
  qed simp
  have "Deleted it = None \<or> Deleted it = Some True" using assms by (cases "Deleted it") (auto simp: indexable_def)
  then show ?thesis
    using assms ts(1) tags
    by (intro item.equality) (auto simp: index_view_def indexable_def nonnil_def opt_ok_def Let_def split: option.splits)
qed

lemma item_row_sel [simp]: "rf_id (item_row it) = ID it" "rf_invalidatedAt (item_row it) = InvalidatedAt it"
  "rf_embedding (item_row it) = None" "rf_embeddingInsight (item_row it) = None" "rf_typ (item_row it) = Type it"
  by (simp_all add: item_row_def)

subsection \<open>The transaction\<close>

lemma insert_all_rows:
  assumes "\<And>j. fault \<noteq> DInsert j" and "distinct (map ID its)" and "ID ` set its \<inter> rf_id ` set (db_lessons db) = {}"
  shows "insert_all fault k db its = Inr (db\<lparr>db_lessons := db_lessons db @ map item_row its\<rparr>)"
  using assms(2,3)
proof (induction its arbitrary: k db)
  case Nil
  then show ?case by simp
next
  case (Cons it its)
  let ?db = "db\<lparr>db_lessons := db_lessons db @ [item_row it]\<rparr>"
  have "insert_all fault (Suc k) ?db its = Inr (?db\<lparr>db_lessons := db_lessons ?db @ map item_row its\<rparr>)"
    using Cons.prems by (intro Cons.IH) auto
  then show ?case using Cons.prems assms(1) by (auto simp: insertItem_def)
qed

lemma insert_all_meta: "insert_all fault k db its = Inr db' \<Longrightarrow> db_meta db' = db_meta db"
  by (induction its arbitrary: k db) (auto simp: insertItem_def split: option.splits if_splits)

text \<open>What a successful read guarantees of the items.\<close>

lemma ReadItems_items:
  assumes "ReadItems jsonl = Inr res"
  shows "distinct (map ID (Items res))" and "it \<in> set (Items res) \<Longrightarrow> item_ok it \<and> ValidateItem it = None"
proof -
  have "distinct (map ID (Items res)) \<and> (\<forall>it \<in> set (Items res). item_ok it \<and> ValidateItem it = None)"
  proof (cases jsonl)
    case (Opened s)
    have sc: "scannable s" using assms Opened ReadItems_too_long [of s] by (cases "scannable s") auto
    let ?st = "read_all (fst (scan_lines s))"
    have k: "keyed (rs_items ?st)" unfolding read_all_def by (rule read_all_keyed)
    have items: "Items res = deduplicateAndSort (rs_items ?st)"
      using assms Opened scan_lines_ok [OF sc] by (auto simp: ReadItems_def Let_def)
    have m: "map_of (rs_items ?st) = lines_store (content_lines (fst (scan_lines s)))"
      unfolding read_all_def by (rule read_all_store)
    have "item_ok it \<and> ValidateItem it = None" if "it \<in> set (Items res)" for it
    proof -
      from that have "map_of (rs_items ?st) (ID it) = Some it"
        using lists_store_dedup [OF k] unfolding lists_store_def items by blast
      then show ?thesis unfolding m using lines_store_valid by blast
    qed
    then show ?thesis using distinct_ids_dedup [OF k] items by simp
  qed (use assms in \<open>auto simp: ReadItems_def\<close>)
  then show "distinct (map ID (Items res))" and "it \<in> set (Items res) \<Longrightarrow> item_ok it \<and> ValidateItem it = None" by blast+
qed

text \<open>The table a successful rebuild leaves.\<close>

lemma RebuildIndex_ok:
  assumes "ReadItems jsonl = Inr res"
  shows "RebuildIndex DNone db jsonl stat =
    (None, (let db1 = db\<lparr>db_lessons := map item_row (Items res)\<rparr> in
       if getJsonlMtime stat > 0 then setLastSyncMtime db1 (getJsonlMtime stat) else db1))"
proof -
  have "insert_all DNone 0 (db\<lparr>db_lessons := []\<rparr>) (Items res) = Inr (db\<lparr>db_lessons := map item_row (Items res)\<rparr>)"
    using insert_all_rows [of DNone "Items res" "db\<lparr>db_lessons := []\<rparr>" 0] ReadItems_items(1) [OF assms] by simp
  then show ?thesis using assms by (simp add: RebuildIndex_def Let_def)
qed

lemma setLastSync_lessons [simp]: "db_lessons (setLastSyncMtime db m) = db_lessons db"
  by (simp add: setLastSyncMtime_def)

lemma getLast_setLast: "int64 m \<Longrightarrow> getLastSyncMtime (setLastSyncMtime db m) = m"
  by (simp add: getLastSyncMtime_def setLastSyncMtime_def int64_def atoi_show_int)

subsection \<open>The contract of an embedding cache\<close>

text \<open>
  The table holds two caches, for the whole item and for its insight. Both read everything in one
  query and write one row. A stored vector comes back as \<open>round\<close> leaves it, which is rounding to
  float32 on the way through the blob.
\<close>

locale embedding_cache =
  fixes bulk :: "lesson_db \<Rightarrow> (string, cached_embedding) gomap"
    and store :: "lesson_db \<Rightarrow> string \<Rightarrow> real list \<Rightarrow> string \<Rightarrow> lesson_db"
    and round :: "real \<Rightarrow> real"
  assumes bulk_store: "i \<in> rf_id ` set (db_lessons db) \<Longrightarrow>
      map_of (bulk (store db i vec h)) = (map_of (bulk db))(i \<mapsto> \<lparr>ce_Vector = map round vec, ce_Hash = h\<rparr>)"
    and store_missing: "i \<notin> rf_id ` set (db_lessons db) \<Longrightarrow> store db i vec h = db"
    and store_items: "map convertToItem (db_lessons (store db i vec h)) = map convertToItem (db_lessons db)"
    and store_ids: "map rf_id (db_lessons (store db i vec h)) = map rf_id (db_lessons db)"
    and store_meta: "db_meta (store db i vec h) = db_meta db"
begin

definition store_all :: "lesson_db \<Rightarrow> (string \<times> real list \<times> string) list \<Rightarrow> lesson_db" where
  "store_all db ws = foldl (\<lambda>d (i, vec, h). store d i vec h) db ws"

lemma store_all_items: "map convertToItem (db_lessons (store_all db ws)) = map convertToItem (db_lessons db)"
  by (induction ws arbitrary: db) (auto simp: store_all_def store_items)

lemma store_all_ids: "map rf_id (db_lessons (store_all db ws)) = map rf_id (db_lessons db)"
  by (induction ws arbitrary: db) (auto simp: store_all_def store_ids)

lemma store_all_meta: "db_meta (store_all db ws) = db_meta db"
  by (induction ws arbitrary: db) (auto simp: store_all_def store_meta)

lemma store_id_set: "rf_id ` set (db_lessons (store db i vec h)) = rf_id ` set (db_lessons db)"
  by (metis store_ids list.set_map)

text \<open>Entries of other items stay; the last write for an item of the table is what its entry holds.\<close>

lemma bulk_store_all:
  "map_of (bulk (store_all db ws)) j =
     (case find (\<lambda>w. fst w = j) (rev ws) of
        Some (_, vec, h) \<Rightarrow> (if j \<in> rf_id ` set (db_lessons db) then Some \<lparr>ce_Vector = map round vec, ce_Hash = h\<rparr>
                         else map_of (bulk db) j)
      | None \<Rightarrow> map_of (bulk db) j)"
proof (induction ws rule: rev_induct)
  case Nil
  then show ?case by (simp add: store_all_def)
next
  case (snoc w ws)
  obtain i vec h where w: "w = (i, vec, h)" by (cases w) auto
  have s: "store_all db (ws @ [w]) = store (store_all db ws) i vec h" by (simp add: store_all_def w)
  have ids: "rf_id ` set (db_lessons (store_all db ws)) = rf_id ` set (db_lessons db)"
    by (metis store_all_ids list.set_map)
  show ?case
  proof (cases "i \<in> rf_id ` set (db_lessons db)")
    case True
    with snoc show ?thesis unfolding s by (simp add: bulk_store ids w)
  next
    case False
    then have d: "store (store_all db ws) i vec h = store_all db ws" by (simp add: store_missing ids)
    show ?thesis
    proof (cases "j = i")
      case True
      with False snoc show ?thesis unfolding s d by (auto simp: w split: option.splits)
    next
      case False
      with snoc show ?thesis unfolding s d by (simp add: w)
    qed
  qed
qed

end

subsection \<open>Blobs\<close>

lemma length_le32 [simp]: "length (le32 w) = 4"
  by (simp add: le32_def)

lemma length_blob: "length (concat (map (\<lambda>v. le32 (bits v)) vec)) = 4 * length vec"
  by (induction vec) simp_all

lemma byte_sum: "n mod 256 + 256 * (n div 256 mod 256) + 65536 * (n div 65536 mod 256) + 16777216 * (n div 16777216 mod 256) = n"
  if "n < 4294967296" for n :: nat
proof -
  have 1: "n div 256 div 256 = n div 65536" "n div 65536 div 256 = n div 16777216" by (simp_all flip: div_mult2_eq)
  have "n div 16777216 < 256" using that by (simp add: div_less_iff_less_mult)
  then have "n div 16777216 mod 256 = n div 16777216" by simp
  moreover have "n = 256 * (n div 256) + n mod 256" "n div 256 = 256 * (n div 65536) + n div 256 mod 256"
    "n div 65536 = 256 * (n div 16777216) + n div 65536 mod 256"
    using mult_div_mod_eq [of 256 n] mult_div_mod_eq [of 256 "n div 256"] mult_div_mod_eq [of 256 "n div 65536"] by (simp_all add: 1)
  ultimately show ?thesis by linarith
qed

lemma un_le32_le32 [simp]: "un_le32 (le32 w @ s) = w"
proof -
  let ?byte = "\<lambda>k. unat (drop_bit (8 * k) w) mod 256"
  have "unat w < 4294967296" using unsigned_less [of w] by simp
  moreover have "?byte k = unat w div 2 ^ (8 * k) mod 256" for k
    by (subst unat_drop_bit_eq) (simp add: drop_bit_eq_div)
  ultimately have "?byte 0 + 256 * ?byte 1 + 65536 * ?byte 2 + 16777216 * ?byte 3 = unat w"
    using byte_sum [of "unat w"] by (simp only:) simp
  then have "of_nat (?byte 0 + 256 * ?byte 1 + 65536 * ?byte 2 + 16777216 * ?byte 3) = w" by (simp only: of_nat_unat ucast_id)
  then show ?thesis by (simp add: un_le32_def le32_def nth_append)
qed

lemma blob_step: "blobToFloat64 fb (le32 w @ s) = fb w # blobToFloat64 fb s"
proof -
  have l: "length (le32 w @ s) div 4 = Suc (length s div 4)" by simp
  have "drop (Suc i * 4) (le32 w @ s) = drop (i * 4) s" for i by simp
  then show ?thesis unfolding blobToFloat64_def l upt_rec [of 0] map_Suc_upt [symmetric] by (simp del: upt_Suc)
qed

text \<open>A vector survives the blob up to rounding its components.\<close>

lemma blob_roundtrip [simp]: "blobToFloat64 fb (float64ToBlob bits vec) = map (\<lambda>v. fb (bits v)) vec"
proof (induction vec)
  case Nil
  then show ?case by (simp add: float64ToBlob_def blobToFloat64_def)
next
  case (Cons v vec)
  have "float64ToBlob bits (v # vec) = le32 (bits v) @ float64ToBlob bits vec" by (simp add: float64ToBlob_def)
  with Cons show ?case by (simp add: blob_step)
qed

subsection \<open>Both caches satisfy the contract\<close>

lemma cache_row_simps:
  "hc r = None \<Longrightarrow> cache_row bc hc fb m r = m"
  "hc r = Some h \<Longrightarrow> bc r = Some b \<Longrightarrow>
     cache_row bc hc fb m r = AList.update (rf_id r) \<lparr>ce_Vector = blobToFloat64 fb b, ce_Hash = h\<rparr> m"
  by (simp_all add: cache_row_def)

lemma cache_fold_update:
  assumes "\<And>r. rf_id (f r) = rf_id r" "\<And>r. bc (f r) = Some b" "\<And>r. hc (f r) = Some h"
    and "\<And>j. j \<noteq> i \<Longrightarrow> map_of m' j = map_of m j"
  shows "map_of (foldl (cache_row bc hc fb) m' (filter (\<lambda>r. bc r \<noteq> None) (map (\<lambda>r. if rf_id r = i then f r else r) rs))) j =
    (if j = i then (if i \<in> rf_id ` set rs then Some \<lparr>ce_Vector = blobToFloat64 fb b, ce_Hash = h\<rparr> else map_of m' i)
     else map_of (foldl (cache_row bc hc fb) m (filter (\<lambda>r. bc r \<noteq> None) rs)) j)"
  using assms(4)
proof (induction rs arbitrary: m m')
  case Nil
  then show ?case by simp
next
  case (Cons r rs)
  let ?e = "\<lparr>ce_Vector = blobToFloat64 fb b, ce_Hash = h\<rparr>"
  show ?case
  proof (cases "rf_id r = i")
    case True
    let ?m = "AList.update i ?e m'" and ?n = "if bc r = None then m else cache_row bc hc fb m r"
    have "map_of ?m j = map_of ?n j" if "j \<noteq> i" for j
      using Cons.prems [OF that] that True by (auto simp: cache_row_def split: option.split)
    from Cons.IH [OF this] True assms(1-3) show ?thesis
      by (cases "bc r") (auto simp: cache_row_simps)
  next
    case False
    show ?thesis
    proof (cases "bc r")
      case None
      with False Cons.IH [OF Cons.prems] show ?thesis by auto
    next
      case (Some x)
      have "map_of (cache_row bc hc fb m' r) j = map_of (cache_row bc hc fb m r) j" if "j \<noteq> i" for j
        using Cons.prems [OF that] by (auto simp: cache_row_def split: option.split)
      moreover have "map_of (cache_row bc hc fb m' r) i = map_of m' i"
        using False by (auto simp: cache_row_def split: option.split)
      ultimately show ?thesis using False Some Cons.IH [of "cache_row bc hc fb m' r" "cache_row bc hc fb m r"] by auto
    qed
  qed
qed

lemma apply_cols [simp]:
  "applyTimestampFields it (r\<lparr>rf_embedding := b, rf_contentHash := h\<rparr>) = applyTimestampFields it r"
  "applyTimestampFields it (r\<lparr>rf_embeddingInsight := b, rf_contentHashInsight := h\<rparr>) = applyTimestampFields it r"
  "applyCitationAndPattern it (r\<lparr>rf_embedding := b, rf_contentHash := h\<rparr>) = applyCitationAndPattern it r"
  "applyCitationAndPattern it (r\<lparr>rf_embeddingInsight := b, rf_contentHashInsight := h\<rparr>) = applyCitationAndPattern it r"
  by (rule item.equality; simp cong: option.case_cong)+

lemma scalar_cols [simp]:
  "applyScalarFields it (r\<lparr>rf_embedding := b, rf_contentHash := h\<rparr>) = applyScalarFields it r"
  "applyScalarFields it (r\<lparr>rf_embeddingInsight := b, rf_contentHashInsight := h\<rparr>) = applyScalarFields it r"
  by (rule item.equality; simp)+

lemma convert_cols [simp]:
  "convertToItem (r\<lparr>rf_embedding := b, rf_contentHash := h\<rparr>) = convertToItem r"
  "convertToItem (r\<lparr>rf_embeddingInsight := b, rf_contentHashInsight := h\<rparr>) = convertToItem r"
  by (simp_all add: convertToItem_def applyOptionalFields_def)

lemma update_row_missing:
  assumes "i \<notin> rf_id ` set (db_lessons db)"
  shows "update_row i f db = db"
proof -
  have "map (\<lambda>r. if rf_id r = i then f r else r) (db_lessons db) = db_lessons db" by (rule map_idI) (use assms in auto)
  then show ?thesis unfolding update_row_def by (simp only:) simp
qed

lemma update_row_keeps:
  "(\<And>r. g (f r) = g r) \<Longrightarrow> map g (db_lessons (update_row i f db)) = map g (db_lessons db)"
  "db_meta (update_row i f db) = db_meta db"
  by (auto simp: update_row_def)

interpretation item_cache: embedding_cache "GetCachedEmbeddingsBulk fb" "SetCachedEmbedding bits" "\<lambda>v. fb (bits v)"
  for fb :: "32 word \<Rightarrow> real" and bits :: "real \<Rightarrow> 32 word"
proof
  fix i and db :: lesson_db and vec h
  let ?f = "\<lambda>r. r\<lparr>rf_embedding := Some (float64ToBlob bits vec), rf_contentHash := Some h\<rparr>"
  assume i: "i \<in> rf_id ` set (db_lessons db)"
  have fold: "map_of (foldl (cache_row rf_embedding rf_contentHash fb) []
        (filter (\<lambda>r. rf_embedding r \<noteq> None) (map (\<lambda>r. if rf_id r = i then ?f r else r) (db_lessons db)))) j =
      (if j = i then (if i \<in> rf_id ` set (db_lessons db)
         then Some \<lparr>ce_Vector = blobToFloat64 fb (float64ToBlob bits vec), ce_Hash = h\<rparr> else map_of [] i)
       else map_of (foldl (cache_row rf_embedding rf_contentHash fb) [] (filter (\<lambda>r. rf_embedding r \<noteq> None) (db_lessons db))) j)" for j
    by (rule cache_fold_update) simp_all
  show "map_of (GetCachedEmbeddingsBulk fb (SetCachedEmbedding bits db i vec h)) =
      (map_of (GetCachedEmbeddingsBulk fb db))(i \<mapsto> \<lparr>ce_Vector = map (\<lambda>v. fb (bits v)) vec, ce_Hash = h\<rparr>)"
    by (rule ext)
      (simp add: GetCachedEmbeddingsBulk_def SetCachedEmbedding_def update_row_def fold i del: not_None_eq)
qed (simp_all add: SetCachedEmbedding_def update_row_missing update_row_keeps)

interpretation insight_cache: embedding_cache "GetCachedInsightEmbeddingsBulk fb" "SetCachedInsightEmbedding bits" "\<lambda>v. fb (bits v)"
  for fb :: "32 word \<Rightarrow> real" and bits :: "real \<Rightarrow> 32 word"
proof
  fix i and db :: lesson_db and vec h
  let ?f = "\<lambda>r. r\<lparr>rf_embeddingInsight := Some (float64ToBlob bits vec), rf_contentHashInsight := Some h\<rparr>"
  assume i: "i \<in> rf_id ` set (db_lessons db)"
  have fold: "map_of (foldl (cache_row rf_embeddingInsight rf_contentHashInsight fb) []
        (filter (\<lambda>r. rf_embeddingInsight r \<noteq> None) (map (\<lambda>r. if rf_id r = i then ?f r else r) (db_lessons db)))) j =
      (if j = i then (if i \<in> rf_id ` set (db_lessons db)
         then Some \<lparr>ce_Vector = blobToFloat64 fb (float64ToBlob bits vec), ce_Hash = h\<rparr> else map_of [] i)
       else map_of (foldl (cache_row rf_embeddingInsight rf_contentHashInsight fb) [] (filter (\<lambda>r. rf_embeddingInsight r \<noteq> None) (db_lessons db))) j)" for j
    by (rule cache_fold_update) simp_all
  show "map_of (GetCachedInsightEmbeddingsBulk fb (SetCachedInsightEmbedding bits db i vec h)) =
      (map_of (GetCachedInsightEmbeddingsBulk fb db))(i \<mapsto> \<lparr>ce_Vector = map (\<lambda>v. fb (bits v)) vec, ce_Hash = h\<rparr>)"
    by (rule ext)
      (simp add: GetCachedInsightEmbeddingsBulk_def SetCachedInsightEmbedding_def update_row_def fold i del: not_None_eq)
qed (simp_all add: SetCachedInsightEmbedding_def update_row_missing update_row_keeps)

subsection \<open>Properties\<close>

text \<open>A row gives back the item it was made from, for every item the reader can return that writes out
  no default and has no comma in a tag: columns, JSON texts and the comma-separated tags together lose
  nothing.\<close>

theorem convertToItem_item_row:
  assumes "item_ok it" and "indexable it"
  shows "convertToItem (item_row it) = it"
  using convert_row [OF assms(1)] index_view_id [OF assms(2)] by simp

theorem convertToItem_item_row_witness:
  "convertToItem (item_row (EnsureArrayFields (sample_item\<lparr>Tags := Some [''go'', ''io''], RetrievalCount := Some 3\<rparr>))) =
     EnsureArrayFields (sample_item\<lparr>Tags := Some [''go'', ''io''], RetrievalCount := Some 3\<rparr>)"
  by (rule convertToItem_item_row; code_simp)

lemma insert_all_prefix:
  "insert_all fault k db its = Inr db' \<Longrightarrow> db_lessons db' = db_lessons db @ map item_row its"
  by (induction its arbitrary: k db) (auto simp: insertItem_def split: option.splits if_splits)

lemma RebuildIndex_None:
  assumes "RebuildIndex fault db jsonl stat = (None, db')"
  obtains res where "ReadItems jsonl = Inr res" and "db_lessons db' = map item_row (Items res)"
    and "getJsonlMtime stat > 0 \<longrightarrow> int64 (getJsonlMtime stat) \<longrightarrow> getLastSyncMtime db' = getJsonlMtime stat"
proof -
  from assms obtain res where r: "ReadItems jsonl = Inr res" by (auto simp: RebuildIndex_def split: sum.splits)
  with assms obtain db1 where i: "insert_all fault 0 (db\<lparr>db_lessons := []\<rparr>) (Items res) = Inr db1"
    and d: "db' = (if getJsonlMtime stat > 0 then setLastSyncMtime db1 (getJsonlMtime stat) else db1)"
    by (auto simp: RebuildIndex_def Let_def split: sum.splits if_splits)
  show ?thesis
    by (rule that [OF r]) (use insert_all_prefix [OF i] d in \<open>auto simp: getLast_setLast\<close>)
qed

lemma no_embedding_cached: "list_all (\<lambda>r. rf_embedding r = None) (db_lessons db) \<Longrightarrow> GetCachedEmbeddingsBulk fb db = []"
proof -
  assume "list_all (\<lambda>r. rf_embedding r = None) (db_lessons db)"
  then have "filter (\<lambda>r. rf_embedding r \<noteq> None) (db_lessons db) = []" by (auto simp: list_all_iff filter_empty_conv)
  then show ?thesis by (simp only: GetCachedEmbeddingsBulk_def foldl.simps)
qed

text \<open>C2: Rebuilding is all or nothing: whatever statement of the transaction fails, the database is the old
  one, and when none fails the items read back from it are, in some order, the items of the lessons
  file that are not invalidated, as the columns hold them; the embeddings cached before are gone.
  Without a fault it succeeds on every readable file.\<close>

theorem RebuildIndex_view:
  assumes "mset (deliver rows) = mset rows"
    and "rows = filter (\<lambda>r. rf_invalidatedAt r = None) (db_lessons (snd (RebuildIndex fault db jsonl stat)))"
  shows "case RebuildIndex fault db jsonl stat of
      (Some e, db') \<Rightarrow> db' = db \<and> (fault = DNone \<longrightarrow> (\<exists>x. e = ReadJSONL x))
    | (None, db') \<Rightarrow>
        (\<exists>res. ReadItems jsonl = Inr res \<and>
           mset (ReadAll deliver db') = mset (map index_view (filter (\<lambda>it. InvalidatedAt it = None) (Items res)))) \<and>
        GetCachedEmbeddingsBulk fb db' = []"
proof -
  obtain e db' where r: "RebuildIndex fault db jsonl stat = (e, db')" by (cases "RebuildIndex fault db jsonl stat")
  show ?thesis
  proof (cases e)
    case (Some x)
    then have "db' = db" using r by (auto simp: RebuildIndex_def Let_def split: sum.splits if_splits)
    moreover have "\<exists>y. x = ReadJSONL y" if "fault = DNone"
    proof (cases "ReadItems jsonl")
      case (Inl y)
      then show ?thesis using r Some by (auto simp: RebuildIndex_def)
    next
      case (Inr res)
      then show ?thesis using RebuildIndex_ok [OF Inr, of db stat] r Some that by (simp add: Let_def)
    qed
    ultimately show ?thesis using r Some by simp
  next
    case None
    with r have "RebuildIndex fault db jsonl stat = (None, db')" by simp
    then obtain res where res: "ReadItems jsonl = Inr res" and l: "db_lessons db' = map item_row (Items res)"
      by (rule RebuildIndex_None)
    let ?live = "filter (\<lambda>it. InvalidatedAt it = None) (Items res)"
    have rows: "rows = map item_row ?live" using assms(2) r l by (simp add: filter_map comp_def)
    have conv: "map (\<lambda>it. convertToItem (item_row it)) ?live = map index_view ?live"
      using ReadItems_items(2) [OF res] by (auto simp: convert_row)
    have "ReadAll deliver db' = map convertToItem (deliver rows)" using assms(2) r by (simp add: ReadAll_def)
    then have "mset (ReadAll deliver db') = image_mset convertToItem (mset rows)" using assms(1) by simp
    also have "\<dots> = mset (map (\<lambda>it. convertToItem (item_row it)) ?live)" by (simp add: rows multiset.map_comp comp_def)
    finally have "mset (ReadAll deliver db') = mset (map index_view ?live)" unfolding conv .
    moreover have "GetCachedEmbeddingsBulk fb db' = []" by (rule no_embedding_cached) (simp add: l list_all_iff)
    ultimately show ?thesis using r None res by auto
  qed
qed

theorem RebuildIndex_view_witness:
  "case RebuildIndex DDelete db0 NotExist None of
      (Some e, db') \<Rightarrow> db' = db0 | (None, db') \<Rightarrow> GetCachedEmbeddingsBulk (\<lambda>_. 0) db' = []"
  using RebuildIndex_view [of id "[]" DDelete db0 NotExist None "\<lambda>_. 0"]
  by (simp add: RebuildIndex_def ReadItems_def db0_def)

text \<open>Syncing brings the index up to date and then rests: when the file was modified after the last sync,
  a sync without fault rebuilds, the table holds the rows of exactly the items of the file, and a second sync
  at the same modification time changes nothing.\<close>

theorem SyncIfNeeded_rests:
  assumes "ReadItems jsonl = Inr res" and "stat = Some ms" and "0 < ms" and "int64 ms"
    and "getLastSyncMtime db < ms"
  shows "\<exists>db'. SyncIfNeeded DNone db jsonl stat False = ((True, None), db') \<and>
     map convertToItem (db_lessons db') = map index_view (Items res) \<and>
     SyncIfNeeded fault db' jsonl' stat False = ((False, None), db')"
proof -
  let ?db = "setLastSyncMtime (db\<lparr>db_lessons := map item_row (Items res)\<rparr>) ms"
  have m: "getJsonlMtime stat = ms" using assms(2) by (simp add: getJsonlMtime_def)
  have "RebuildIndex DNone db jsonl stat = (None, ?db)" using RebuildIndex_ok [OF assms(1)] assms(3) m by (simp add: Let_def)
  then have "SyncIfNeeded DNone db jsonl stat False = ((True, None), ?db)"
    using assms(3,5) m by (simp add: SyncIfNeeded_def Let_def)
  moreover have "map convertToItem (db_lessons ?db) = map index_view (Items res)"
    using ReadItems_items(2) [OF assms(1)] by (auto simp: convert_row)
  moreover have "SyncIfNeeded fault ?db jsonl' stat False = ((False, None), ?db)"
    using assms(3) m getLast_setLast [OF assms(4)] by (simp add: SyncIfNeeded_def Let_def)
  ultimately show ?thesis by blast
qed

theorem SyncIfNeeded_rests_witness:
  "\<exists>db'. SyncIfNeeded DNone db0 NotExist (Some 7) False = ((True, None), db') \<and>
     SyncIfNeeded DMeta db' OpenFails (Some 7) False = ((False, None), db')"
  using SyncIfNeeded_rests [of NotExist _ "Some 7" 7 db0 DMeta OpenFails]
  by (simp add: ReadItems_def int64_def getLastSyncMtime_def db0_def) blast

subsection \<open>Keyword search\<close>

lemma runes_Cons:
  "runes (a # q) = (if rune_width (a # q) = 0 then rune_error # runes q
     else take (rune_width (a # q)) (a # q) # runes (drop (rune_width (a # q)) (a # q)))"
  by (subst runes.simps) (simp add: Let_def)

text \<open>A rune is one ASCII byte or has none.\<close>

definition rune_shape :: "string \<Rightarrow> bool" where
  "rune_shape r \<longleftrightarrow> (\<exists>c. r = [c] \<and> byte_in 0 0x7F c) \<or> (\<forall>c \<in> set r. \<not> byte_in 0 0x7F c)"

lemma byte_in_high: "byte_in lo hi c \<Longrightarrow> 0x80 \<le> lo \<Longrightarrow> \<not> byte_in 0 0x7F c"
  by (simp add: byte_in_def)

lemma rune_shape_width:
  assumes "rune_width s \<noteq> 0"
  shows "rune_shape (take (rune_width s) s)"
  using assms by (cases s rule: rune_width_cases) (auto simp: rune_shape_def second_ok_def dest: byte_in_high)

lemma rune_shapes: "r \<in> set (runes s) \<Longrightarrow> rune_shape r"
proof (induction s rule: length_induct)
  case (1 s)
  show ?case
  proof (cases s)
    case Nil
    with 1 show ?thesis by simp
  next
    case (Cons a q)
    let ?w = "rune_width s"
    have e: "rune_shape rune_error" by (simp add: rune_shape_def rune_error_def byte_in_def)
    show ?thesis
    proof (cases "?w = 0")
      case True
      with "1.prems" Cons have "r = rune_error \<or> r \<in> set (runes q)" by (simp add: runes_Cons)
      with 1 e Cons show ?thesis by auto
    next
      case False
      with "1.prems" Cons have "r = take ?w s \<or> r \<in> set (runes (drop ?w s))" by (simp add: runes_Cons)
      moreover have "length (drop ?w s) < length s" using False Cons by simp
      ultimately show ?thesis using 1 rune_shape_width [OF False] by blast
    qed
  qed
qed

definition fts_chars :: "char set" where
  "fts_chars = {CHR 0x22, CHR ''*'', CHR ''^'', CHR ''+'', CHR ''-'', CHR ''('', CHR '')'', CHR '':'', CHR ''{'', CHR ''}''}"

lemma fts_chars_ascii: "c \<in> fts_chars \<Longrightarrow> byte_in 0 0x7F c \<and> fts_special [c]"
  by (auto simp: fts_chars_def byte_in_def fts_special_def)

lemma stripped_plain: "c \<in> set (concat (filter (\<lambda>r. \<not> fts_special r) (runes q))) \<Longrightarrow> c \<notin> fts_chars"
  using rune_shapes fts_chars_ascii by (fastforce simp: rune_shape_def)

lemma fields_acc_chars: "t \<in> set (fields_acc cur s) \<Longrightarrow> set t \<subseteq> set cur \<union> set s"
proof (induction cur s rule: fields_acc.induct)
  case (1 cur s)
  show ?case
  proof (cases s)
    case Nil
    with "1.prems" show ?thesis by (subst (asm) fields_acc.simps) (auto split: if_splits)
  next
    case (Cons c r)
    show ?thesis
    proof (cases "space_width s = 0")
      case True
      with "1.prems" Cons have "t \<in> set (fields_acc (c # cur) r)" by (subst (asm) fields_acc.simps) (simp add: Let_def)
      with "1.IH"(1) [OF Cons refl True] Cons show ?thesis by auto
    next
      case False
      with "1.prems" Cons have "t = rev cur \<or> t \<in> set (fields_acc [] (drop (space_width s) s))"
        by (subst (asm) fields_acc.simps) (auto simp: Let_def split: if_splits)
      with "1.IH"(2) [OF Cons refl False] set_drop_subset [of "space_width s" s] show ?thesis by auto
    qed
  qed
qed

lemma sanitized_tokens:
  obtains ts where "SanitizeFtsQuery q = join '' '' ts"
    and "\<And>t. t \<in> set ts \<Longrightarrow> t \<noteq> [] \<and> t \<notin> set ftsOperators \<and> set t \<inter> fts_chars = {}"
proof -
  let ?s = "concat (filter (\<lambda>r. \<not> fts_special r) (runes q))"
  let ?ts = "filter (\<lambda>t. t \<notin> set ftsOperators) (go_fields ?s)"
  show ?thesis
  proof (rule that [of ?ts])
    show "SanitizeFtsQuery q = join '' '' ?ts" by (simp add: SanitizeFtsQuery_def Let_def)
    fix t assume t: "t \<in> set ?ts"
    then have "set t \<subseteq> set ?s" using fields_acc_chars [of t "[]" ?s] by (simp add: go_fields_def)
    moreover have "set ?s \<inter> fts_chars = {}" using stripped_plain [of _ q] by blast
    ultimately show "t \<noteq> [] \<and> t \<notin> set ftsOperators \<and> set t \<inter> fts_chars = {}"
      using t fields_nonempty [of t ?s] by auto
  qed
qed

lemma bm25_mono: "r \<le> s \<Longrightarrow> s \<le> 0 \<Longrightarrow> normalizeBm25Rank (Some s) \<le> normalizeBm25Rank (Some r)"
  by (simp add: normalizeBm25Rank_def field_simps)

lemma bm25_bounds: "0 \<le> normalizeBm25Rank r \<and> normalizeBm25Rank r < 1"
  by (auto simp: normalizeBm25Rank_def split: option.split)

text \<open>A scored keyword search sends the engine a sanitised query (tokens with no FTS5 special character,
  none of them an operator) and, when the engine ranks hits with ranks that are not positive, as BM25 in
  FTS5 does, returns at most \<open>limit\<close> items, each a live row of the asked type that the engine found, with scores
  in \<open>[0, 1)\<close> that do not increase. A query with nothing left returns nothing without asking.\<close>

theorem SearchKeywordScored_sound:
  assumes "slice_sort order_by" and "0 \<le> limit"
    and "\<And>q hits. fts (db_lessons db) q = Some hits \<Longrightarrow> \<forall>(r, k) \<in> set hits. k \<le> 0"
    and "SearchKeywordScored fts order_by db query limit typ = Some results"
  shows "length results \<le> nat limit \<and> sorted_wrt (\<ge>) (map sr_Score results) \<and>
     (\<forall>x \<in> set results. 0 \<le> sr_Score x \<and> sr_Score x < 1) \<and>
     (results \<noteq> [] \<longrightarrow> (\<exists>ts hits. fts (db_lessons db) (join '' '' ts) = Some hits \<and>
        (\<forall>t \<in> set ts. t \<noteq> [] \<and> t \<notin> set ftsOperators \<and> set t \<inter> fts_chars = {}) \<and>
        (\<forall>x \<in> set results. \<exists>r \<in> set (map fst hits).
           sr_Item x = convertToItem r \<and> rf_invalidatedAt r = None \<and> (typ \<noteq> [] \<longrightarrow> rf_typ r = typ))))"
proof (cases "SanitizeFtsQuery query = []")
  case True
  with assms(4) show ?thesis by (simp add: SearchKeywordScored_def)
next
  case False
  obtain ts where ts: "SanitizeFtsQuery query = join '' '' ts"
    "\<And>t. t \<in> set ts \<Longrightarrow> t \<noteq> [] \<and> t \<notin> set ftsOperators \<and> set t \<inter> fts_chars = {}"
    by (rule sanitized_tokens) blast
  from False assms(4) obtain hits where h: "fts (db_lessons db) (join '' '' ts) = Some hits"
    by (auto simp: SearchKeywordScored_def executeFts_def ts(1) split: option.splits)
  define live where "live = filter (\<lambda>(r, k). rf_invalidatedAt r = None \<and> (typ \<noteq> [] \<longrightarrow> rf_typ r = typ)) hits"
  define found where "found = take (nat limit) (order_by rank_before live)"
  define out where "out = (\<lambda>(r, k). \<lparr>sr_Item = convertToItem r, sr_Score = normalizeBm25Rank (Some k)\<rparr>)"
  have res: "results = map out found"
    using False assms(2,4) h
    by (simp add: SearchKeywordScored_def executeFts_def ts(1) sql_limit_def found_def live_def out_def Let_def case_prod_unfold)
  have sub: "set found \<subseteq> set live"
    unfolding found_def using set_take_subset slice_sort.slice_set [OF assms(1)] by fastforce
  have neg: "k \<le> 0" if "(r, k) \<in> set live" for r k using assms(3) [OF h] that by (auto simp: live_def)
  have "strict_weak rank_before" using strict_weak_key(1) [of snd] by (simp add: rank_before_def [abs_def])
  then have "sorted_wrt (\<lambda>x y. \<not> rank_before y x) (order_by rank_before live)" by (rule slice_sort.slice_sorted [OF assms(1)])
  then have "sorted_wrt (\<lambda>x y. snd x \<le> snd y) found"
    unfolding found_def by (intro sorted_wrt_take) (simp add: rank_before_def not_less)
  then have "sorted_wrt (\<lambda>x y. sr_Score (out y) \<le> sr_Score (out x)) found"
    by (rule sorted_wrt_mono_rel [rotated]) (use sub neg in \<open>auto simp: out_def intro!: bm25_mono split: prod.split\<close>)
  then have "sorted_wrt (\<ge>) (map sr_Score results)" by (simp add: res sorted_wrt_map)
  moreover have "\<forall>x \<in> set results. 0 \<le> sr_Score x \<and> sr_Score x < 1" using bm25_bounds by (auto simp: res out_def)
  moreover have "\<forall>x \<in> set results. \<exists>r \<in> set (map fst hits).
           sr_Item x = convertToItem r \<and> rf_invalidatedAt r = None \<and> (typ \<noteq> [] \<longrightarrow> rf_typ r = typ)"
  proof
    fix x assume "x \<in> set results"
    then obtain r k where rk: "(r, k) \<in> set found" "x = out (r, k)" by (auto simp: res)
    then have "(r, k) \<in> set live" using sub by blast
    then have "(r, k) \<in> set hits" "rf_invalidatedAt r = None" "typ \<noteq> [] \<longrightarrow> rf_typ r = typ" by (auto simp: live_def)
    moreover have "r \<in> set (map fst hits)" using calculation(1) by force
    ultimately show "\<exists>r\<in>set (map fst hits). sr_Item x = convertToItem r \<and>
        rf_invalidatedAt r = None \<and> (typ \<noteq> [] \<longrightarrow> rf_typ r = typ)" using rk(2) by (auto simp: out_def)
  qed
  moreover have "length results \<le> nat limit" by (simp add: res found_def)
  ultimately show ?thesis using h ts(2) by blast
qed

theorem SearchKeywordScored_sound_witness:
  "length (the (SearchKeywordScored (\<lambda>rows q. Some (map (\<lambda>r. (r, -1)) rows)) insertion_sort
      (db0\<lparr>db_lessons := [item_row sample_item]\<rparr>) ''go (NOT) use'' 5 [])) \<le> 5"
proof -
  let ?fts = "\<lambda>rows q. Some (map (\<lambda>r. (r, -1 :: real)) rows)" and ?db = "db0\<lparr>db_lessons := [item_row sample_item]\<rparr>"
  have "\<exists>r. SearchKeywordScored ?fts insertion_sort ?db ''go (NOT) use'' 5 [] = Some r"
    by (simp add: SearchKeywordScored_def executeFts_def Let_def)
  then obtain r where r: "SearchKeywordScored ?fts insertion_sort ?db ''go (NOT) use'' 5 [] = Some r" by blast
  from SearchKeywordScored_sound [OF gosort.slice_sort_axioms _ _ r] show ?thesis unfolding r by auto
qed

end
