(* ===== verification/Search.thy ===== *)
theory Search
  imports Storage Compound GoTime
begin

section \<open>Packages search and retrieval: vectors, hybrid scores, ranking\<close>

text \<open>
  search/vector.go embeds the query and the items whose cached embedding is stale, scores by cosine
  similarity and truncates; search/hybrid.go blends vector and keyword scores by item ID;
  search/ranking.go multiplies by boosts; retrieval/plan.go and retrieval/session.go put them together.
  The embedder is a parameter, a function from a batch of texts to vectors or None for an error.
  Scores are reals. An index out of range, which panics in Go, is an error value.
\<close>

subsection \<open>Hybrid scores (search/hybrid.go)\<close>

definition DefaultVectorWeight :: real where "DefaultVectorWeight = 0.7"
definition DefaultTextWeight :: real where "DefaultTextWeight = 0.3"
definition CandidateMultiplier :: int where "CandidateMultiplier = 4"
definition MinHybridScore :: real where "MinHybridScore = 0.35"

record scored_item =
  si_Item :: item
  si_Score :: real

record hybrid_options =
  VectorWeight :: "real option"
  TextWeight :: "real option"
  Limit :: int
  MinScore :: real

record resolved_weights =
  vecW :: real
  txtW :: real
  rw_limit :: int
  rw_minScore :: real

definition resolveHybridWeights :: "hybrid_options option \<Rightarrow> resolved_weights option" where
  "resolveHybridWeights opts =
     (let rawVecW = (case opts of None \<Rightarrow> DefaultVectorWeight
            | Some o1 \<Rightarrow> (case VectorWeight o1 of None \<Rightarrow> DefaultVectorWeight | Some w \<Rightarrow> w));
          rawTxtW = (case opts of None \<Rightarrow> DefaultTextWeight
            | Some o1 \<Rightarrow> (case TextWeight o1 of None \<Rightarrow> DefaultTextWeight | Some w \<Rightarrow> w));
          total = rawVecW + rawTxtW
      in if total \<le> 0 then None
         else Some \<lparr>vecW = rawVecW / total, txtW = rawTxtW / total,
                    rw_limit = (case opts of None \<Rightarrow> 0 | Some o1 \<Rightarrow> Limit o1),
                    rw_minScore = (case opts of None \<Rightarrow> 0 | Some o1 \<Rightarrow> MinScore o1)\<rparr>)"

record blend_entry =
  be_item :: item
  be_vecScore :: real
  be_txtScore :: real

definition add_vector :: "(string, blend_entry) gomap \<Rightarrow> scored_item \<Rightarrow> (string, blend_entry) gomap" where
  "add_vector m v =
     AList.update (ID (si_Item v)) \<lparr>be_item = si_Item v, be_vecScore = si_Score v, be_txtScore = 0\<rparr> m"

definition add_keyword :: "(string, blend_entry) gomap \<Rightarrow> scored_item \<Rightarrow> (string, blend_entry) gomap" where
  "add_keyword m k =
     (case map_of m (ID (si_Item k)) of
        Some e \<Rightarrow> AList.update (ID (si_Item k)) (e\<lparr>be_txtScore := si_Score k\<rparr>) m
      | None \<Rightarrow> AList.update (ID (si_Item k)) \<lparr>be_item = si_Item k, be_vecScore = 0, be_txtScore = si_Score k\<rparr> m)"

definition merged_map :: "scored_item list \<Rightarrow> scored_item list \<Rightarrow> (string, blend_entry) gomap" where
  "merged_map vs ks = foldl add_keyword (foldl add_vector [] vs) ks"

definition blended :: "resolved_weights \<Rightarrow> blend_entry \<Rightarrow> real" where
  "blended w e = vecW w * be_vecScore e + txtW w * be_txtScore e"

text \<open>\<open>iter\<close> is the order in which Go ranges over the map.\<close>

definition blendScores ::
    "((string, blend_entry) gomap \<Rightarrow> (string, blend_entry) gomap) \<Rightarrow>
     scored_item list \<Rightarrow> scored_item list \<Rightarrow> resolved_weights \<Rightarrow> scored_item list" where
  "blendScores iter vs ks w =
     map (\<lambda>(i, e). \<lparr>si_Item = be_item e, si_Score = blended w e\<rparr>)
       (filter (\<lambda>(i, e). \<not> (rw_minScore w > 0 \<and> blended w e < rw_minScore w)) (iter (merged_map vs ks)))"

definition by_score :: "scored_item \<Rightarrow> scored_item \<Rightarrow> bool" where
  "by_score a b \<longleftrightarrow> si_Score a > si_Score b"

definition cut_limit :: "int \<Rightarrow> 'a list \<Rightarrow> 'a list" where
  "cut_limit limit xs = (if limit > 0 \<and> int (length xs) > limit then take (nat limit) xs else xs)"

definition MergeHybridScores ::
    "((string, blend_entry) gomap \<Rightarrow> (string, blend_entry) gomap) \<Rightarrow>
     ((scored_item \<Rightarrow> scored_item \<Rightarrow> bool) \<Rightarrow> scored_item list \<Rightarrow> scored_item list) \<Rightarrow>
     scored_item list \<Rightarrow> scored_item list \<Rightarrow> hybrid_options option \<Rightarrow> scored_item list" where
  "MergeHybridScores iter srt vs ks opts =
     (if vs = [] \<and> ks = [] then []
      else case resolveHybridWeights opts of None \<Rightarrow> []
        | Some w \<Rightarrow> cut_limit (rw_limit w) (srt by_score (blendScores iter vs ks w)))"

subsection \<open>Ranking (search/ranking.go)\<close>

definition RecencyThresholdDays :: int where "RecencyThresholdDays = 30"
definition HighSeverityBoost :: real where "HighSeverityBoost = 1.5"
definition MediumSeverityBoost :: real where "MediumSeverityBoost = 1"
definition LowSeverityBoost :: real where "LowSeverityBoost = 0.8"
definition RecencyBoost :: real where "RecencyBoost = 1.2"
definition ConfirmationBoost :: real where "ConfirmationBoost = 1.3"
definition MaxCombinedBoost :: real where "MaxCombinedBoost = 1.8"

definition SeverityBoost :: "item \<Rightarrow> real" where
  "SeverityBoost it =
     (case Severity it of None \<Rightarrow> MediumSeverityBoost
      | Some s \<Rightarrow> if s = ''high'' then HighSeverityBoost
          else if s = ''medium'' then MediumSeverityBoost
          else if s = ''low'' then LowSeverityBoost else MediumSeverityBoost)"

text \<open>\<open>now\<close> is the clock in nanoseconds; the division by hours and days is by a real.\<close>

definition day_ns :: int where "day_ns = 24 * 3600 * 1000000000"

definition RecencyBoostFn :: "int \<Rightarrow> item \<Rightarrow> real" where
  "RecencyBoostFn now it =
     (case parse_rfc3339 (Created it) of None \<Rightarrow> 1
      | Some created \<Rightarrow> if now - created \<le> RecencyThresholdDays * day_ns then RecencyBoost else 1)"

definition ConfirmationBoostFn :: "item \<Rightarrow> real" where
  "ConfirmationBoostFn it = (if Confirmed it then ConfirmationBoost else 1)"

definition CalculateScore :: "int \<Rightarrow> item \<Rightarrow> real \<Rightarrow> real" where
  "CalculateScore now it sim =
     (let boost = min (SeverityBoost it * RecencyBoostFn now it * ConfirmationBoostFn it) MaxCombinedBoost
      in sim * boost)"

record ranked_item =
  ri_Scored :: scored_item
  FinalScore :: real

definition by_final :: "ranked_item \<Rightarrow> ranked_item \<Rightarrow> bool" where
  "by_final a b \<longleftrightarrow> FinalScore a > FinalScore b"

definition RankItems ::
    "((ranked_item \<Rightarrow> ranked_item \<Rightarrow> bool) \<Rightarrow> ranked_item list \<Rightarrow> ranked_item list) \<Rightarrow> int \<Rightarrow>
     scored_item list \<Rightarrow> ranked_item list" where
  "RankItems srt now items =
     (if items = [] then []
      else srt by_final (map (\<lambda>si. \<lparr>ri_Scored = si, FinalScore = CalculateScore now (si_Item si) (si_Score si)\<rparr>) items))"

subsection \<open>Embedding with the cache (search/vector.go)\<close>

datatype search_error = DbRead | EmbedFailed | IndexPanic | KeywordFailed

type_synonym embedder = "string list \<Rightarrow> real list list option"

text \<open>What the search takes from outside: SHA-256, float32 conversion and the delivery order of rows.\<close>

record search_env =
  env_sha256 :: "string \<Rightarrow> string"
  env_bits :: "real \<Rightarrow> 32 word"
  env_frombits :: "32 word \<Rightarrow> real"
  env_deliver :: "raw_fields list \<Rightarrow> raw_fields list"

definition DefaultSimilarityThreshold :: real where "DefaultSimilarityThreshold = 0.8"
definition maxEmbedBatch :: nat where "maxEmbedBatch = 64"

function embed_loop :: "embedder \<Rightarrow> string list \<Rightarrow> real list list \<Rightarrow> real list list option" where
  "embed_loop emb texts result =
     (if texts = [] then Some result
      else case emb (take maxEmbedBatch texts) of None \<Rightarrow> None
        | Some vecs \<Rightarrow> embed_loop emb (drop maxEmbedBatch texts) (result @ vecs))"
  by pat_completeness auto
termination
  by (relation "measure (\<lambda>(e, ts, r). length ts)") (auto simp: maxEmbedBatch_def)

declare embed_loop.simps [simp del]

definition embedBatched :: "embedder \<Rightarrow> string list \<Rightarrow> real list list option" where
  "embedBatched emb texts = (if texts = [] then Some [] else embed_loop emb texts [])"

definition cctToItem :: "cct_pattern \<Rightarrow> item" where
  "cctToItem p =
     item0\<lparr>ID := cct_ID p, Type := TypeLesson, Trigger := cct_Name p, Insight := cct_Description p, Tags := Some [],
       Source := ''manual'', Context := \<lparr>Tool = ''compound'', Intent = ''synthesis''\<rparr>, Created := cct_Created p,
       Confirmed := True, Supersedes := Some [], Related := cct_SourceIDs p\<rparr>"

text \<open>
  The two caching loops of the file differ only in the text, the hash and the cache columns. An
  entry is its item with the text to emb and the hash expected. The slot of an uncached entry is
  nil until it is filled; \<open>vecs[i]\<close> is out of range when the embedder returned too few vectors.
  A failing write to the cache is ignored (\<open>writable\<close> says whether it succeeds).
\<close>

record cache_entry =
  ent_item :: item
  ent_text :: string
  ent_hash :: string

definition cache_hit :: "(string, cached_embedding) gomap \<Rightarrow> cache_entry \<Rightarrow> real list option" where
  "cache_hit cache u =
     (case map_of cache (ID (ent_item u)) of None \<Rightarrow> None
      | Some e \<Rightarrow> if ce_Hash e = ent_hash u then Some (ce_Vector e) else None)"

fun fill_vecs :: "(lesson_db \<Rightarrow> string \<Rightarrow> real list \<Rightarrow> string \<Rightarrow> lesson_db) \<Rightarrow> bool \<Rightarrow>
    (nat \<times> cache_entry) list \<Rightarrow> real list list \<Rightarrow> real list list \<Rightarrow> lesson_db \<Rightarrow> (search_error + real list list) \<times> lesson_db" where
  "fill_vecs store writable [] vecs slots db = (Inr slots, db)"
| "fill_vecs store writable ((i, u) # us) [] slots db = (Inl IndexPanic, db)"
| "fill_vecs store writable ((i, u) # us) (v # vecs) slots db =
     fill_vecs store writable us vecs (slots[i := v])
       (if writable then store db (ID (ent_item u)) v (ent_hash u) else db)"

definition resolve_cached :: "(lesson_db \<Rightarrow> (string, cached_embedding) gomap) \<Rightarrow>
    (lesson_db \<Rightarrow> string \<Rightarrow> real list \<Rightarrow> string \<Rightarrow> lesson_db) \<Rightarrow> bool \<Rightarrow> embedder \<Rightarrow> lesson_db \<Rightarrow> cache_entry list \<Rightarrow>
    (search_error + real list list) \<times> lesson_db" where
  "resolve_cached bulk store writable emb db entries =
     (let cache = bulk db;
          slots = map (\<lambda>u. case cache_hit cache u of None \<Rightarrow> [] | Some v \<Rightarrow> v) entries;
          uncached = filter (\<lambda>(i, u). cache_hit cache u = None) (enumerate 0 entries)
      in if uncached = [] then (Inr slots, db)
         else case embedBatched emb (map (\<lambda>(i, u). ent_text u) uncached) of None \<Rightarrow> (Inl EmbedFailed, db)
           | Some vecs \<Rightarrow> fill_vecs store writable uncached vecs slots db)"

definition item_entry :: "search_env \<Rightarrow> item \<Rightarrow> cache_entry" where
  "item_entry env it =
     \<lparr>ent_item = it, ent_text = Trigger it @ '' '' @ Insight it,
      ent_hash = ContentHash (env_sha256 env) (Trigger it) (Insight it)\<rparr>"

definition resolveItemEmbeddings :: "search_env \<Rightarrow> bool \<Rightarrow> embedder \<Rightarrow> lesson_db \<Rightarrow> item list \<Rightarrow>
    (search_error + real list list) \<times> lesson_db" where
  "resolveItemEmbeddings env writable emb db items =
     resolve_cached (GetCachedEmbeddingsBulk (env_frombits env)) (SetCachedEmbedding (env_bits env))
       writable emb db (map (item_entry env) items)"

definition scoreItems :: "real list \<Rightarrow> item list \<Rightarrow> real list list \<Rightarrow> scored_item list" where
  "scoreItems queryVec items itemVecs =
     List.map_filter (\<lambda>(it, v). map_option (\<lambda>s. \<lparr>si_Item = it, si_Score = s\<rparr>) (CosineSimilarity queryVec v))
       (zip items itemVecs)"

definition scoreCctPatterns :: "embedder \<Rightarrow> real list \<Rightarrow> cct_pattern list \<Rightarrow> scored_item list" where
  "scoreCctPatterns emb queryVec ps =
     (if ps = [] then []
      else case embedBatched emb (map (\<lambda>p. cct_Name p @ '' '' @ cct_Description p) ps) of None \<Rightarrow> []
        | Some cctVecs \<Rightarrow>
            if length cctVecs \<noteq> length ps then []
            else List.map_filter (\<lambda>(p, v). map_option (\<lambda>s. \<lparr>si_Item = cctToItem p, si_Score = s\<rparr>) (CosineSimilarity queryVec v))
                   (zip ps cctVecs))"

text \<open>\<open>cct\<close> is None for an empty repository root, else the pattern file.\<close>

definition Vector where
  "Vector env srt writable emb read_fails db query limit cct =
     (if read_fails then (Inl DbRead, db)
      else
        let items = ReadAll (env_deliver env) db;
            cctPatterns = (case cct of None \<Rightarrow> [] | Some f \<Rightarrow> (case ReadCctPatterns f of Inl _ \<Rightarrow> [] | Inr ps \<Rightarrow> ps))
        in if items = [] \<and> cctPatterns = [] then (Inr [], db)
           else case emb [query] of None \<Rightarrow> (Inl EmbedFailed, db)
             | Some [] \<Rightarrow> (Inl IndexPanic, db)
             | Some (queryVec # _) \<Rightarrow>
                 (case resolveItemEmbeddings env writable emb db items of
                    (Inl e, db') \<Rightarrow> (Inl e, db')
                  | (Inr itemVecs, db') \<Rightarrow>
                      (let results = scoreItems queryVec items itemVecs @ scoreCctPatterns emb queryVec cctPatterns
                       in (Inr (cut_limit limit (srt by_score results)), db'))))"

definition insight_entry :: "search_env \<Rightarrow> item \<Rightarrow> cache_entry" where
  "insight_entry env it =
     \<lparr>ent_item = it, ent_text = Insight it, ent_hash = ContentHash (env_sha256 env) (Insight it) []\<rparr>"

definition filterInsightCandidates :: "search_env \<Rightarrow> item list \<Rightarrow> string \<Rightarrow> cache_entry list" where
  "filterInsightCandidates env items excludeID = map (insight_entry env) (filter (\<lambda>it. ID it \<noteq> excludeID) items)"

definition resolveInsightEmbeddings :: "search_env \<Rightarrow> bool \<Rightarrow> embedder \<Rightarrow> lesson_db \<Rightarrow> cache_entry list \<Rightarrow>
    (search_error + real list list) \<times> lesson_db" where
  "resolveInsightEmbeddings env writable emb db candidates =
     resolve_cached (GetCachedInsightEmbeddingsBulk (env_frombits env)) (SetCachedInsightEmbedding (env_bits env))
       writable emb db candidates"

definition scoreInsightCandidates where
  "scoreInsightCandidates srt queryVec candidates itemVecs threshold =
     srt by_score (filter (\<lambda>x. si_Score x \<ge> threshold) (scoreItems queryVec (map ent_item candidates) itemVecs))"

text \<open>The query vector is indexed only after the candidates are embedded.\<close>

definition FindSimilarLessons where
  "FindSimilarLessons env srt writable emb read_fails db query threshold excludeID preloaded =
     (case (case preloaded of Some items \<Rightarrow> Some items
            | None \<Rightarrow> if read_fails then None else Some (ReadAll (env_deliver env) db)) of
        None \<Rightarrow> (Inl DbRead, db)
      | Some items \<Rightarrow>
          if items = [] then (Inr [], db)
          else case emb [query] of None \<Rightarrow> (Inl EmbedFailed, db)
            | Some queryVecs \<Rightarrow>
                (let candidates = filterInsightCandidates env items excludeID in
                 case resolveInsightEmbeddings env writable emb db candidates of
                   (Inl e, db') \<Rightarrow> (Inl e, db')
                 | (Inr itemVecs, db') \<Rightarrow>
                     (case queryVecs of [] \<Rightarrow> (Inl IndexPanic, db')
                      | queryVec # _ \<Rightarrow> (Inr (scoreInsightCandidates srt queryVec candidates itemVecs threshold), db'))))"

subsection \<open>Retrieval (retrieval/plan.go, retrieval/session.go)\<close>

definition keyword_only :: hybrid_options where
  "keyword_only = \<lparr>VectorWeight = Some 0, TextWeight = Some 0.3, Limit = 0, MinScore = 0\<rparr>"

definition with_vectors :: hybrid_options where
  "with_vectors = \<lparr>VectorWeight = None, TextWeight = None, Limit = 0, MinScore = MinHybridScore\<rparr>"

definition mergeAndRank where
  "mergeAndRank iter srt rsrt now kwItems vecItems vectorAvailable limit =
     (let merged = (if \<not> vectorAvailable then MergeHybridScores iter srt [] kwItems (Some keyword_only)
                    else MergeHybridScores iter srt vecItems kwItems (Some with_vectors));
          ranked = RankItems rsrt now merged
      in if int (length ranked) > limit then take (nat limit) ranked else ranked)"

definition box_line :: string where
  "box_line = concat (replicate 40 [CHR 0xE2, CHR 0x94, CHR 0x80])"

definition FormatLessonsCheck :: "scored_item list \<Rightarrow> string" where
  "FormatLessonsCheck lessons =
     (if lessons = [] then ''No relevant lessons found for this plan.''
      else ''Lessons Check'' @ [CHR 0x0A] @ box_line @ [CHR 0x0A] @
        concat (map (\<lambda>(i, l). show_int (int i + 1) @ ''. '' @ Insight (si_Item l) @ [CHR 0x0A]) (enumerate 0 lessons)))"

text \<open>Without an embedder (None), or when the vector search fails, only keyword results count.\<close>

definition RetrieveForPlan where
  "RetrieveForPlan env iter srt rsrt fts order_by writable read_fails now db cct embedder planText limit0 =
     (let limit = (if limit0 < 1 then 5 else limit0 :: int); candidateLimit = limit * CandidateMultiplier
      in case SearchKeywordScored fts order_by db planText candidateLimit [] of
           None \<Rightarrow> (Inl KeywordFailed, db)
         | Some kwResults \<Rightarrow>
             (let kwItems = map (\<lambda>r. \<lparr>si_Item = sr_Item r, si_Score = sr_Score r\<rparr>) kwResults;
                  found = (case embedder of None \<Rightarrow> (Inl EmbedFailed, db)
                    | Some emb \<Rightarrow> Vector env srt writable emb read_fails db planText candidateLimit cct)
              in case found of
                   (Inl IndexPanic, db') \<Rightarrow> (Inl IndexPanic, db')
                 | (Inl _, db') \<Rightarrow>
                     (let ranked = mergeAndRank iter srt rsrt now kwItems [] False limit
                      in (Inr (ranked, FormatLessonsCheck (map ri_Scored ranked)), db'))
                 | (Inr vecItems, db') \<Rightarrow>
                     (let ranked = mergeAndRank iter srt rsrt now kwItems vecItems True limit
                      in (Inr (ranked, FormatLessonsCheck (map ri_Scored ranked)), db'))))"

definition DefaultSessionLimit :: int where "DefaultSessionLimit = 5"

definition filterHighSeverity :: "item list \<Rightarrow> item list" where
  "filterHighSeverity items =
     filter (\<lambda>it. Severity it = Some ''high'' \<and> Confirmed it \<and> InvalidatedAt it = None) items"

definition session_before :: "item \<Rightarrow> item \<Rightarrow> bool" where
  "session_before a b =
     (case (parse_rfc3339 (Created a), parse_rfc3339 (Created b)) of
        (Some ti, Some tj) \<Rightarrow> ti > tj
      | _ \<Rightarrow> Created a > Created b)"

definition LoadSessionLessons ::
    "((item \<Rightarrow> item \<Rightarrow> bool) \<Rightarrow> item list \<Rightarrow> item list) \<Rightarrow> opened \<Rightarrow> int \<Rightarrow> store_error + item list" where
  "LoadSessionLessons srt jsonl limit0 =
     (let limit = (if limit0 \<le> 0 then DefaultSessionLimit else limit0)
      in case ReadItems jsonl of Inl e \<Rightarrow> Inl e
         | Inr result \<Rightarrow>
             (let filtered = srt session_before (filterHighSeverity (Items result))
              in Inr (if int (length filtered) > limit then take (nat limit) filtered else filtered)))"

end
