(* ===== verification/SearchProps.thy ===== *)
theory SearchProps
  imports Search StorageProps
begin

section \<open>Search: scores, caching and ranking are right\<close>

text \<open>
  The hybrid merge computes the weighted sum per item ID and keeps order and bounds; ranking boosts stay
  in their range; the caching loop, proved once in the locale \<open>embedding_cache\<close> and used for both
  caches, never indexes out of range when the embedder answers in full, and remembers what it computed.
\<close>

subsection \<open>Hybrid merge\<close>

text \<open>The score a result list gives an ID: the last one counts.\<close>

definition last_score :: "scored_item list \<Rightarrow> string \<Rightarrow> real" where
  "last_score xs i = (case find (\<lambda>x. ID (si_Item x) = i) (rev xs) of None \<Rightarrow> 0 | Some x \<Rightarrow> si_Score x)"

definition ids :: "scored_item list \<Rightarrow> string set" where
  "ids xs = (\<lambda>x. ID (si_Item x)) ` set xs"

definition hybrid_score :: "resolved_weights \<Rightarrow> scored_item list \<Rightarrow> scored_item list \<Rightarrow> string \<Rightarrow> real" where
  "hybrid_score w vs ks i = vecW w * last_score vs i + txtW w * last_score ks i"

lemma find_Some_in: "find P xs = Some x \<Longrightarrow> x \<in> set xs"
  by (induction xs) (auto split: if_splits)

lemma last_score_snoc [simp]:
  "last_score (xs @ [x]) i = (if ID (si_Item x) = i then si_Score x else last_score xs i)"
  by (simp add: last_score_def)

lemma ids_simps [simp]: "ids [] = {}" "ids (xs @ ys) = ids xs \<union> ids ys" "ids (x # xs) = insert (ID (si_Item x)) (ids xs)"
  by (auto simp: ids_def)

lemma last_score_none: "i \<notin> ids xs \<Longrightarrow> last_score xs i = 0"
  by (induction xs rule: rev_induct) (auto simp: last_score_def)

definition entries_ok :: "scored_item list \<Rightarrow> scored_item list \<Rightarrow> (string, blend_entry) gomap \<Rightarrow> bool" where
  "entries_ok vs ks m \<longleftrightarrow> gomap_ok m \<and> fst ` set m = ids vs \<union> ids ks \<and>
     (\<forall>i e. map_of m i = Some e \<longrightarrow> ID (be_item e) = i \<and> be_vecScore e = last_score vs i \<and> be_txtScore e = last_score ks i)"

lemma keys_update [simp]: "fst ` set (AList.update k v m) = insert k (fst ` set m)"
  by (simp flip: dom_map_of_conv_image_fst add: update_conv')

lemma add_vectors_ok: "entries_ok vs [] (foldl add_vector [] vs)"
proof (induction vs rule: rev_induct)
  case Nil
  then show ?case by (simp add: entries_ok_def)
next
  case (snoc v vs)
  then show ?case by (auto simp: entries_ok_def add_vector_def last_score_def)
qed

lemma merged_map_ok: "entries_ok vs ks (merged_map vs ks)"
proof (induction ks rule: rev_induct)
  case Nil
  then show ?case using add_vectors_ok by (simp add: merged_map_def)
next
  case (snoc k ks)
  let ?m = "merged_map vs ks" and ?i = "ID (si_Item k)"
  have m: "merged_map vs (ks @ [k]) = add_keyword ?m k" by (simp add: merged_map_def)
  show ?case
  proof (cases "map_of ?m ?i")
    case None
    then have "?i \<notin> ids vs" using snoc by (auto simp: entries_ok_def map_of_eq_None_iff)
    with None snoc show ?thesis by (auto simp: m add_keyword_def entries_ok_def last_score_none)
  next
    case (Some e)
    then have "?i \<in> fst ` set ?m" by (metis domI dom_map_of_conv_image_fst)
    with Some snoc show ?thesis by (auto simp: m add_keyword_def entries_ok_def)
  qed
qed

lemma by_score_weak: "strict_weak by_score"
  using strict_weak_key(2) [of si_Score] by (simp add: by_score_def [abs_def])

lemma cut_limit_prefix: "cut_limit n xs = (if n > 0 then take (nat n) xs else xs)"
  by (simp add: cut_limit_def)

text \<open>C11: The hybrid merge ranks the union of both result lists by weighted score: whatever the iteration order
  of the map and the sorting algorithm, the result is the list, cut at the limit if there is one, that
  holds each ID of either list once, with its vector and keyword scores (the last one given, 0 when missing)
  weighted and added, leaves out just what is below a positive minimum, and does not increase.\<close>

theorem MergeHybridScores_blend:
  assumes "slice_sort srt" and "\<And>m. mset (iter m) = mset m"
    and "resolveHybridWeights opts = Some w"
  shows "\<exists>full. MergeHybridScores iter srt vs ks opts = (if rw_limit w > 0 then take (nat (rw_limit w)) full else full) \<and>
     distinct (map (ID \<circ> si_Item) full) \<and> sorted_wrt (\<lambda>x y. si_Score y \<le> si_Score x) full \<and>
     (\<lambda>x. (ID (si_Item x), si_Score x)) ` set full =
       {(i, hybrid_score w vs ks i) | i. i \<in> ids vs \<union> ids ks \<and>
          (rw_minScore w > 0 \<longrightarrow> rw_minScore w \<le> hybrid_score w vs ks i)}"
proof (cases "vs = [] \<and> ks = []")
  case True
  then show ?thesis by (intro exI [of _ "[]"]) (simp add: MergeHybridScores_def)
next
  case False
  let ?m = "merged_map vs ks" and ?b = "blendScores iter vs ks w"
  let ?full = "srt by_score ?b"
  have m: "gomap_ok ?m" "fst ` set ?m = ids vs \<union> ids ks"
    "\<And>i e. (i, e) \<in> set ?m \<Longrightarrow> ID (be_item e) = i \<and> blended w e = hybrid_score w vs ks i"
    using merged_map_ok [of vs ks] by (auto simp: entries_ok_def blended_def hybrid_score_def)
  have it: "set (iter ?m) = set ?m" "distinct (map fst (iter ?m))"
    using assms(2) [of ?m] m(1) by (metis set_mset_mset, metis mset_map mset_eq_imp_distinct_iff)
  define keep where "keep = filter (\<lambda>(i, e). \<not> (rw_minScore w > 0 \<and> blended w e < rw_minScore w)) (iter ?m)"
  have b: "?b = map (\<lambda>(i, e). \<lparr>si_Item = be_item e, si_Score = blended w e\<rparr>) keep"
    by (simp add: blendScores_def keep_def)
  have "map (ID \<circ> si_Item) ?b = map fst keep"
    using m(3) it(1) by (auto simp: b keep_def)
  moreover have "distinct (map fst keep)" using it(2) by (simp add: keep_def distinct_map_filter)
  ultimately have "distinct (map (ID \<circ> si_Item) ?b)" by simp
  then have d: "distinct (map (ID \<circ> si_Item) ?full)" by (simp only: slice_sort.slice_distinct_map [OF assms(1)])
  have "sorted_wrt (\<lambda>x y. \<not> by_score y x) ?full" by (rule slice_sort.slice_sorted [OF assms(1) by_score_weak])
  then have s: "sorted_wrt (\<lambda>x y. si_Score y \<le> si_Score x) ?full" by (simp add: by_score_def not_less)
  have "(\<lambda>x. (ID (si_Item x), si_Score x)) ` set ?full = (\<lambda>(i, e). (i, hybrid_score w vs ks i)) ` set keep"
  proof -
    have "(\<lambda>x. (ID (si_Item x), si_Score x)) ` set ?full = (\<lambda>(i, e). (ID (be_item e), blended w e)) ` set keep"
      unfolding slice_sort.slice_set [OF assms(1)] b by (simp add: image_image case_prod_unfold)
    also have "\<dots> = (\<lambda>(i, e). (i, hybrid_score w vs ks i)) ` set keep"
      by (rule image_cong) (use m(3) it(1) in \<open>auto simp: keep_def\<close>)
    finally show ?thesis .
  qed
  also have "\<dots> = {(i, hybrid_score w vs ks i) | i. i \<in> ids vs \<union> ids ks \<and>
          (rw_minScore w > 0 \<longrightarrow> rw_minScore w \<le> hybrid_score w vs ks i)}"
  proof -
    have "i \<in> ids vs \<union> ids ks \<longleftrightarrow> (\<exists>e. (i, e) \<in> set ?m)" for i unfolding m(2) [symmetric] by force
    moreover have "(i, e) \<in> set keep \<longleftrightarrow> (i, e) \<in> set ?m \<and>
        (rw_minScore w > 0 \<longrightarrow> rw_minScore w \<le> hybrid_score w vs ks i)" for i e
      using m(3) [of i e] it(1) by (auto simp: keep_def)
    ultimately have "fst ` set keep = {i \<in> ids vs \<union> ids ks. rw_minScore w > 0 \<longrightarrow> rw_minScore w \<le> hybrid_score w vs ks i}"
      by (auto simp: image_iff Bex_def simp del: Un_iff)
    moreover have "(\<lambda>(i, e). (i, hybrid_score w vs ks i)) ` set keep = (\<lambda>i. (i, hybrid_score w vs ks i)) ` fst ` set keep"
      by (simp add: image_image case_prod_unfold)
    ultimately show ?thesis by auto
  qed
  finally have "(\<lambda>x. (ID (si_Item x), si_Score x)) ` set ?full = \<dots>" .
  moreover have "MergeHybridScores iter srt vs ks opts = (if rw_limit w > 0 then take (nat (rw_limit w)) ?full else ?full)"
    using False assms(3) by (auto simp: MergeHybridScores_def cut_limit_prefix)
  ultimately show ?thesis using d s by blast
qed

definition sample_scored :: "real \<Rightarrow> scored_item" where
  "sample_scored s = \<lparr>si_Item = sample_item, si_Score = s\<rparr>"

theorem MergeHybridScores_blend_witness:
  "\<exists>full. MergeHybridScores id insertion_sort [sample_scored 1] [sample_scored 0.5] None = full \<and>
     (\<lambda>x. (ID (si_Item x), si_Score x)) ` set full = {(''L1'', 0.85)}"
proof -
  let ?w = "\<lparr>vecW = 0.7, txtW = 0.3, rw_limit = 0, rw_minScore = 0\<rparr>"
  have w: "resolveHybridWeights None = Some ?w"
    by (simp add: resolveHybridWeights_def DefaultVectorWeight_def DefaultTextWeight_def)
  from MergeHybridScores_blend [OF gosort.slice_sort_axioms _ w, of id "[sample_scored 1]" "[sample_scored 0.5]"]
  show ?thesis by (auto simp: hybrid_score_def last_score_def sample_scored_def sample_item_def)
qed

text \<open>The weights are normalised: when their total is positive and neither is negative, scores in \<open>[0, 1]\<close>
  blend to scores in \<open>[0, 1]\<close>, so the minimum of 0.35 means the same for any weights.\<close>

theorem MergeHybridScores_unit:
  assumes "resolveHybridWeights opts = Some w" and "0 \<le> vecW w" and "0 \<le> txtW w"
    and "\<forall>x \<in> set vs \<union> set ks. 0 \<le> si_Score x \<and> si_Score x \<le> 1"
    and "\<And>m. mset (iter m) = mset m" and "slice_sort srt"
  shows "vecW w + txtW w = 1 \<and> (\<forall>x \<in> set (MergeHybridScores iter srt vs ks opts). 0 \<le> si_Score x \<and> si_Score x \<le> 1)"
proof -
  have total: "vecW w + txtW w = 1"
    using assms(1) by (auto simp: resolveHybridWeights_def Let_def add_divide_distrib [symmetric] split: if_splits)
  have unit: "0 \<le> last_score xs i \<and> last_score xs i \<le> 1" if "set xs \<subseteq> set vs \<union> set ks" for xs i
    using that assms(4) by (auto simp: last_score_def split: option.split dest!: find_Some_in)
  have score: "0 \<le> hybrid_score w vs ks i \<and> hybrid_score w vs ks i \<le> 1" for i
  proof -
    have v: "0 \<le> last_score vs i" "last_score vs i \<le> 1" and k: "0 \<le> last_score ks i" "last_score ks i \<le> 1"
      using unit [of vs i] unit [of ks i] by auto
    have "vecW w * last_score vs i \<le> vecW w * 1" "txtW w * last_score ks i \<le> txtW w * 1"
      using assms(2,3) v k by (intro mult_left_mono; simp)+
    with total assms(2,3) v k show ?thesis by (simp add: hybrid_score_def)
  qed
  have e: "blended w e = hybrid_score w vs ks i" if "(i, e) \<in> set (merged_map vs ks)" for i e
    using merged_map_ok [of vs ks] that by (auto simp: entries_ok_def blended_def hybrid_score_def)
  have "set (iter (merged_map vs ks)) = set (merged_map vs ks)" using assms(5) by (metis set_mset_mset)
  then have "\<forall>x \<in> set (blendScores iter vs ks w). 0 \<le> si_Score x \<and> si_Score x \<le> 1"
    using e score by (auto simp: blendScores_def)
  then have "\<forall>x \<in> set (cut_limit n (srt by_score (blendScores iter vs ks w))). 0 \<le> si_Score x \<and> si_Score x \<le> 1" for n
    using set_take_subset [of "nat n" "srt by_score (blendScores iter vs ks w)"]
    by (auto simp: cut_limit_prefix slice_sort.slice_set [OF assms(6)])
  with total assms(1) show ?thesis by (simp add: MergeHybridScores_def)
qed

theorem MergeHybridScores_unit_witness:
  "list_all (\<lambda>x. si_Score x \<le> 1) (MergeHybridScores id insertion_sort [sample_scored 1] [] (Some with_vectors))"
  unfolding list_all_iff using MergeHybridScores_unit [of "Some with_vectors" "\<lparr>vecW = 0.7, txtW = 0.3, rw_limit = 0, rw_minScore = 0.35\<rparr>"
      "[sample_scored 1]" "[]" id insertion_sort, OF _ _ _ _ _ gosort.slice_sort_axioms]
  by (simp add: resolveHybridWeights_def with_vectors_def DefaultVectorWeight_def DefaultTextWeight_def
      MinHybridScore_def sample_scored_def)

subsection \<open>Ranking\<close>

lemmas boost_defs = HighSeverityBoost_def MediumSeverityBoost_def LowSeverityBoost_def RecencyBoost_def ConfirmationBoost_def
  MaxCombinedBoost_def

lemma severity_bounds: "0.8 \<le> SeverityBoost it \<and> SeverityBoost it \<le> 1.5"
  by (auto simp: SeverityBoost_def boost_defs split: option.split)

lemma recency_bounds: "1 \<le> RecencyBoostFn now it" "1 \<le> ConfirmationBoostFn it"
  by (auto simp: RecencyBoostFn_def ConfirmationBoostFn_def boost_defs split: option.split)

text \<open>Ranking reorders and never drops: the ranked list holds exactly the given items, in an order of
  final scores that does not increase, and each final score is the similarity times a boost between 0.8
  and 1.8, whatever severity, age and confirmation the item has.\<close>

theorem RankItems_boost:
  assumes "slice_sort srt"
  shows "mset (map ri_Scored (RankItems srt now items)) = mset items \<and>
     sorted_wrt (\<lambda>x y. FinalScore y \<le> FinalScore x) (RankItems srt now items) \<and>
     (\<forall>r \<in> set (RankItems srt now items). \<exists>b. 0.8 \<le> b \<and> b \<le> 1.8 \<and> FinalScore r = si_Score (ri_Scored r) * b)"
proof (cases "items = []")
  case True
  then show ?thesis by (simp add: RankItems_def)
next
  case False
  let ?f = "\<lambda>si. \<lparr>ri_Scored = si, FinalScore = CalculateScore now (si_Item si) (si_Score si)\<rparr>"
  have r: "RankItems srt now items = srt by_final (map ?f items)" using False by (simp add: RankItems_def)
  have "mset (map ri_Scored (srt by_final (map ?f items))) = mset items"
    by (simp add: slice_sort.slice_perm [OF assms] multiset.map_comp comp_def)
  moreover have "strict_weak by_final" using strict_weak_key(2) [of FinalScore] by (simp add: by_final_def [abs_def])
  then have "sorted_wrt (\<lambda>x y. \<not> by_final y x) (srt by_final (map ?f items))" by (rule slice_sort.slice_sorted [OF assms])
  then have "sorted_wrt (\<lambda>x y. FinalScore y \<le> FinalScore x) (srt by_final (map ?f items))"
    by (simp add: by_final_def not_less)
  moreover have "\<exists>b. 0.8 \<le> b \<and> b \<le> 1.8 \<and> CalculateScore now it s = s * b" for it s
  proof -
    let ?b = "SeverityBoost it * RecencyBoostFn now it * ConfirmationBoostFn it"
    have "0.8 * 1 * 1 \<le> ?b"
      using severity_bounds [of it] recency_bounds(1) [of now it] recency_bounds(2) [of it] by (intro mult_mono) auto
    then show ?thesis
      by (intro exI [of _ "min ?b MaxCombinedBoost"]) (simp add: CalculateScore_def MaxCombinedBoost_def)
  qed
  ultimately show ?thesis unfolding r using slice_sort.slice_set [OF assms] by fastforce
qed

theorem RankItems_boost_witness:
  "mset (map ri_Scored (RankItems insertion_sort 0 [sample_scored 1, sample_scored 2])) =
     mset [sample_scored 1, sample_scored 2]"
  using RankItems_boost [OF gosort.slice_sort_axioms, of 0 "[sample_scored 1, sample_scored 2]"] by blast

subsection \<open>Embedding in batches\<close>

text \<open>What the search relies on of an embedder: an answer has one vector for each text of a batch.\<close>

definition embedder_ok :: "embedder \<Rightarrow> bool" where
  "embedder_ok emb \<longleftrightarrow> (\<forall>ts vs. length ts \<le> maxEmbedBatch \<longrightarrow> emb ts = Some vs \<longrightarrow> length vs = length ts)"

lemma embed_loop_length:
  "embedder_ok emb \<Longrightarrow> embed_loop emb ts r = Some vs \<Longrightarrow> length vs = length r + length ts"
proof (induction emb ts r rule: embed_loop.induct)
  case (1 emb ts r)
  show ?case
  proof (cases "ts = []")
    case True
    with "1.prems" show ?thesis by (simp add: embed_loop.simps)
  next
    case False
    with "1.prems"(2) obtain bs where b: "emb (take maxEmbedBatch ts) = Some bs"
      and r: "embed_loop emb (drop maxEmbedBatch ts) (r @ bs) = Some vs"
      by (subst (asm) embed_loop.simps) (auto split: option.splits)
    have "length (take maxEmbedBatch ts) \<le> maxEmbedBatch" by simp
    with "1.prems"(1) b have "length bs = length (take maxEmbedBatch ts)" unfolding embedder_ok_def by blast
    with "1.IH" [OF False b "1.prems"(1) r] show ?thesis by simp
  qed
qed

lemma embedBatched_length: "embedder_ok emb \<Longrightarrow> embedBatched emb ts = Some vs \<Longrightarrow> length vs = length ts"
  using embed_loop_length [of emb ts "[]" vs] by (auto simp: embedBatched_def split: if_splits)

lemma embed_loop_pointwise:
  "(\<And>ts. emb ts = Some (map e ts)) \<Longrightarrow> embed_loop emb ts r = Some (r @ map e ts)"
proof (induction emb ts r rule: embed_loop.induct)
  case (1 emb ts r)
  show ?case
  proof (cases "ts = []")
    case True
    then show ?thesis by (simp add: embed_loop.simps)
  next
    case False
    have "embed_loop emb ts r = embed_loop emb (drop maxEmbedBatch ts) (r @ map e (take maxEmbedBatch ts))"
      using False "1.prems" by (subst embed_loop.simps) simp
    also have "\<dots> = Some (r @ map e (take maxEmbedBatch ts) @ map e (drop maxEmbedBatch ts))"
      using "1.IH" [OF False "1.prems" "1.prems"] by simp
    finally show ?thesis by (simp flip: map_append)
  qed
qed

lemma embedBatched_pointwise: "(\<And>ts. emb ts = Some (map e ts)) \<Longrightarrow> embedBatched emb ts = Some (map e ts)"
  using embed_loop_pointwise [of emb e ts "[]"] by (simp add: embedBatched_def)

text \<open>An embedder that may refuse any batch, and otherwise answers text by text.\<close>

definition embeds_by :: "(string \<Rightarrow> real list) \<Rightarrow> embedder \<Rightarrow> bool" where
  "embeds_by e emb \<longleftrightarrow> (\<forall>ts. length ts \<le> maxEmbedBatch \<longrightarrow> emb ts = None \<or> emb ts = Some (map e ts))"

lemma embed_loop_by:
  "embeds_by e emb \<Longrightarrow> embed_loop emb ts r = None \<or> embed_loop emb ts r = Some (r @ map e ts)"
proof (induction emb ts r rule: embed_loop.induct)
  case (1 emb ts r)
  consider "ts = []" | "ts \<noteq> []" "emb (take maxEmbedBatch ts) = None" | "ts \<noteq> []" "emb (take maxEmbedBatch ts) \<noteq> None" by blast
  then show ?case
  proof cases
    case 1
    then show ?thesis by (simp add: embed_loop.simps)
  next
    case 2
    then have "embed_loop emb ts r = None" by (subst embed_loop.simps) (simp del: embed_loop.simps)
    then show ?thesis ..
  next
    case 3
    have "length (take maxEmbedBatch ts) \<le> maxEmbedBatch" by simp
    from "1.prems" [unfolded embeds_by_def, rule_format, OF this] 3(2)
    have b: "emb (take maxEmbedBatch ts) = Some (map e (take maxEmbedBatch ts))" by (simp only: simp_thms)
    have step: "embed_loop emb ts r = embed_loop emb (drop maxEmbedBatch ts) (r @ map e (take maxEmbedBatch ts))"
      using 3 b by (subst embed_loop.simps) (simp del: embed_loop.simps)
    have all: "(r @ map e (take maxEmbedBatch ts)) @ map e (drop maxEmbedBatch ts) = r @ map e ts"
      by (simp flip: map_append)
    show ?thesis using "1.IH" [OF 3(1) b "1.prems"] unfolding step all .
  qed
qed

lemma embedBatched_by: "embeds_by e emb \<Longrightarrow> embedBatched emb ts \<noteq> None \<Longrightarrow> embedBatched emb ts = Some (map e ts)"
  using embed_loop_by [of e emb ts "[]"] by (auto simp: embedBatched_def split: if_splits)

subsection \<open>The caching loop\<close>

definition fill_slots :: "((nat \<times> cache_entry) \<times> real list) list \<Rightarrow> real list list \<Rightarrow> real list list" where
  "fill_slots ws slots = foldl (\<lambda>s ((i, u), v). s[i := v]) slots ws"

lemma length_fill_slots [simp]: "length (fill_slots ws slots) = length slots"
  by (induction ws arbitrary: slots) (auto simp: fill_slots_def)

lemma nth_fill_slots:
  "i < length slots \<Longrightarrow> fill_slots ws slots ! i =
     (case find (\<lambda>w. fst (fst w) = i) (rev ws) of Some w \<Rightarrow> snd w | None \<Rightarrow> slots ! i)"
proof (induction ws rule: rev_induct)
  case Nil
  then show ?case by (simp add: fill_slots_def)
next
  case (snoc w ws)
  have "fill_slots (ws @ [w]) slots = (fill_slots ws slots)[fst (fst w) := snd w]"
    by (simp add: fill_slots_def case_prod_unfold)
  with snoc show ?case by (auto simp: nth_list_update)
qed

definition writes :: "((nat \<times> cache_entry) \<times> real list) list \<Rightarrow> (string \<times> real list \<times> string) list" where
  "writes ws = map (\<lambda>((i, u), v). (ID (ent_item u), v, ent_hash u)) ws"

lemma find_unique:
  assumes "distinct (map f xs)" and "x \<in> set xs"
  shows "find (\<lambda>y. f y = f x) (rev xs) = Some x"
proof (cases "find (\<lambda>y. f y = f x) (rev xs)")
  case None
  with assms(2) have False by (auto simp: find_None_iff)
  then show ?thesis ..
next
  case (Some y)
  then have "y \<in> set xs" "f y = f x" using find_Some_in [OF Some] by (auto simp: find_Some_iff)
  with assms show ?thesis using Some by (metis distinct_map inj_onD)
qed

context embedding_cache
begin

lemma fill_vecs_ok:
  "length us \<le> length vs \<Longrightarrow> fill_vecs store wr us vs slots db =
     (Inr (fill_slots (zip us vs) slots), if wr then store_all db (writes (zip us vs)) else db)"
proof (induction us arbitrary: vs slots db)
  case Nil
  then show ?case by (simp add: fill_slots_def store_all_def writes_def)
next
  case (Cons w us)
  then obtain v vs' where "vs = v # vs'" by (cases vs) auto
  with Cons show ?case by (cases w) (simp add: fill_slots_def store_all_def writes_def)
qed

definition stale :: "lesson_db \<Rightarrow> cache_entry list \<Rightarrow> (nat \<times> cache_entry) list" where
  "stale db es = filter (\<lambda>(i, u). cache_hit (bulk db) u = None) (enumerate 0 es)"

lemma resolve_cached_ok:
  assumes "embedder_ok emb" and "resolve_cached bulk store wr emb db es = (r, db')"
  shows "r = Inl EmbedFailed \<and> db' = db \<or>
    (\<exists>vs. length vs = length (stale db es) \<and>
       r = Inr (fill_slots (zip (stale db es) vs) (map (\<lambda>u. case cache_hit (bulk db) u of None \<Rightarrow> [] | Some v \<Rightarrow> v) es)) \<and>
       db' = (if wr then store_all db (writes (zip (stale db es) vs)) else db))"
proof (cases "stale db es = []")
  case True
  with assms(2) show ?thesis
    by (auto simp: resolve_cached_def stale_def Let_def fill_slots_def store_all_def writes_def)
next
  case False
  show ?thesis
  proof (cases "embedBatched emb (map (\<lambda>(i, u). ent_text u) (stale db es))")
    case None
    with False assms(2) show ?thesis by (simp add: resolve_cached_def stale_def Let_def)
  next
    case (Some vs)
    have l: "length vs = length (stale db es)" using embedBatched_length [OF assms(1) Some] by simp
    have "resolve_cached bulk store wr emb db es = fill_vecs store wr (stale db es) vs
        (map (\<lambda>u. case cache_hit (bulk db) u of None \<Rightarrow> [] | Some v \<Rightarrow> v) es) db"
      using False Some by (simp add: resolve_cached_def stale_def Let_def)
    with assms(2) l show ?thesis by (auto simp: fill_vecs_ok)
  qed
qed

lemma stale_mem: "(i, u) \<in> set (stale db es) \<longleftrightarrow> i < length es \<and> es ! i = u \<and> cache_hit (bulk db) u = None"
  by (auto simp: stale_def in_set_enumerate_eq)

lemma stale_distinct: "distinct (map fst (stale db es))"
  by (simp add: stale_def distinct_map_filter)

text \<open>After a full answer every entry hits, and hits what was returned up to rounding.\<close>

lemma hit_after:
  assumes d: "distinct (map (ID \<circ> ent_item) es)" and t: "\<forall>u \<in> set es. ID (ent_item u) \<in> rf_id ` set (db_lessons db)"
    and l: "length vs = length (stale db es)" and i: "i < length es"
  shows "\<exists>v. cache_hit (bulk (store_all db (writes (zip (stale db es) vs)))) (es ! i) = Some v \<and>
     (let old = fill_slots (zip (stale db es) vs) (map (\<lambda>u. case cache_hit (bulk db) u of None \<Rightarrow> [] | Some v \<Rightarrow> v) es) ! i
      in v = old \<or> v = map round old)"
proof -
  let ?u = "es ! i" and ?ws = "zip (stale db es) vs"
  let ?slots = "map (\<lambda>u. case cache_hit (bulk db) u of None \<Rightarrow> [] | Some v \<Rightarrow> v) es"
  have u: "?u \<in> set es" using i by simp
  have idx: "j = i" if "j < length es" "ID (ent_item (es ! j)) = ID (ent_item ?u)" for j
    using nth_eq_iff_index_eq [OF d, of j i] that i by simp
  have fsts: "map fst ?ws = stale db es" using l by simp
  have sub: "fst (fst w) < length es \<and> es ! fst (fst w) = snd (fst w) \<and> cache_hit (bulk db) (snd (fst w)) = None"
    if "w \<in> set ?ws" for w
  proof -
    have "fst w \<in> set (stale db es)" using that fsts by (metis image_eqI set_map)
    then show ?thesis using stale_mem [of "fst (fst w)" "snd (fst w)" db es] by simp
  qed
  show ?thesis
  proof (cases "cache_hit (bulk db) ?u")
    case (Some v)
    have "\<forall>w \<in> set ?ws. ID (ent_item (snd (fst w))) \<noteq> ID (ent_item ?u) \<and> fst (fst w) \<noteq> i"
    proof
      fix w assume "w \<in> set ?ws"
      from sub [OF this] idx [of "fst (fst w)"] Some
      show "ID (ent_item (snd (fst w))) \<noteq> ID (ent_item ?u) \<and> fst (fst w) \<noteq> i" by auto
    qed
    then have n: "find (\<lambda>w. fst w = ID (ent_item ?u)) (rev (writes ?ws)) = None"
      and m: "find (\<lambda>w. fst (fst w) = i) (rev ?ws) = None"
      unfolding find_None_iff writes_def case_prod_unfold by auto
    have "map_of (bulk (store_all db (writes ?ws))) (ID (ent_item ?u)) = map_of (bulk db) (ID (ent_item ?u))"
      unfolding bulk_store_all n by simp
    then have "cache_hit (bulk (store_all db (writes ?ws))) ?u = Some v" using Some by (simp add: cache_hit_def)
    then show ?thesis using m Some i by (simp add: nth_fill_slots)
  next
    case None
    then have "(i, ?u) \<in> set (map fst ?ws)" unfolding fsts by (simp add: stale_mem i)
    then obtain w where w: "w \<in> set ?ws" "fst w = (i, ?u)" by auto
    have "distinct (map fst (map fst ?ws))" unfolding fsts by (rule stale_distinct)
    then have "find (\<lambda>y. fst (fst y) = fst (fst w)) (rev ?ws) = Some w"
      using find_unique [of "\<lambda>y. fst (fst y)" ?ws w] w(1) by (simp add: comp_def)
    then have f: "find (\<lambda>y. fst (fst y) = i) (rev ?ws) = Some w" using w(2) by simp
    have inj: "y = w" if "y \<in> set ?ws" "ID (ent_item (snd (fst y))) = ID (ent_item ?u)" for y
    proof -
      have "fst (fst y) = i" using sub [OF that(1)] idx [of "fst (fst y)"] that(2) by simp
      moreover have "inj_on (fst \<circ> fst) (set ?ws)" using \<open>distinct (map fst (map fst ?ws))\<close> by (simp add: distinct_map)
      ultimately show ?thesis using inj_onD [of "fst \<circ> fst" "set ?ws" y w] that(1) w by simp
    qed
    have "find (\<lambda>w. fst w = ID (ent_item ?u)) (rev (writes ?ws)) \<noteq> None"
      using w unfolding find_None_iff writes_def case_prod_unfold by force
    then obtain x where x: "find (\<lambda>w. fst w = ID (ent_item ?u)) (rev (writes ?ws)) = Some x" by blast
    then have "x \<in> set (writes ?ws)" "fst x = ID (ent_item ?u)" using find_Some_in [OF x] by (auto simp: find_Some_iff)
    then obtain y where y: "y \<in> set ?ws" "x = (ID (ent_item (snd (fst y))), snd y, ent_hash (snd (fst y)))"
      by (auto simp: writes_def case_prod_unfold)
    then have "y = w" using inj \<open>fst x = ID (ent_item ?u)\<close> by simp
    then have "x = (ID (ent_item ?u), snd w, ent_hash ?u)" using y w(2) by simp
    with x have "map_of (bulk (store_all db (writes ?ws))) (ID (ent_item ?u)) =
        Some \<lparr>ce_Vector = map round (snd w), ce_Hash = ent_hash ?u\<rparr>"
      unfolding bulk_store_all using t u by simp
    then show ?thesis using f i by (simp add: cache_hit_def nth_fill_slots)
  qed
qed

lemma resolve_again:
  assumes "embedder_ok emb" and "distinct (map (ID \<circ> ent_item) es)"
    and "\<forall>u \<in> set es. ID (ent_item u) \<in> rf_id ` set (db_lessons db)"
    and "resolve_cached bulk store True emb db es = (Inr vecs, db')"
  shows "\<exists>vecs'. resolve_cached bulk store wr (\<lambda>_. None) db' es = (Inr vecs', db') \<and>
     list_all2 (\<lambda>v v'. v' = v \<or> v' = map round v) vecs vecs'"
proof -
  obtain vs where l: "length vs = length (stale db es)"
    and v: "vecs = fill_slots (zip (stale db es) vs) (map (\<lambda>u. case cache_hit (bulk db) u of None \<Rightarrow> [] | Some v \<Rightarrow> v) es)"
    and d: "db' = store_all db (writes (zip (stale db es) vs))"
    using resolve_cached_ok [OF assms(1,4)] by auto
  have hit: "\<exists>x. cache_hit (bulk db') (es ! i) = Some x \<and> (x = vecs ! i \<or> x = map round (vecs ! i))" if "i < length es" for i
    using hit_after [OF assms(2,3) l that] by (simp add: v d Let_def)
  then have none: "stale db' es = []" unfolding filter_empty_conv stale_def by (auto simp: in_set_enumerate_eq) fastforce
  let ?vecs = "map (\<lambda>u. case cache_hit (bulk db') u of None \<Rightarrow> [] | Some v \<Rightarrow> v) es"
  have "resolve_cached bulk store wr (\<lambda>_. None) db' es = (Inr ?vecs, db')"
    using none by (simp add: resolve_cached_def stale_def Let_def)
  moreover have "list_all2 (\<lambda>v v'. v' = v \<or> v' = map round v) vecs ?vecs"
    unfolding list_all2_conv_all_nth
  proof (intro conjI allI impI)
    show "length vecs = length ?vecs" by (simp add: v)
    fix i assume "i < length vecs"
    then have "i < length es" by (simp add: v)
    with hit [OF this] show "?vecs ! i = vecs ! i \<or> ?vecs ! i = map round (vecs ! i)" by auto
  qed
  ultimately show ?thesis by blast
qed

text \<open>
  The vector of an entry is the one that the cache has for it, or else what the embedder answers for its text.
\<close>

definition vector_of :: "(string \<Rightarrow> real list) \<Rightarrow> lesson_db \<Rightarrow> cache_entry \<Rightarrow> real list" where
  "vector_of e db u = (case cache_hit (bulk db) u of Some v \<Rightarrow> v | None \<Rightarrow> e (ent_text u))"

lemma resolve_by:
  assumes "embeds_by e emb"
  shows "fst (resolve_cached bulk store wr emb db es) \<in> {Inl EmbedFailed, Inr (map (vector_of e db) es)}"
proof -
  let ?us = "stale db es" and ?slots = "map (\<lambda>u. case cache_hit (bulk db) u of None \<Rightarrow> [] | Some v \<Rightarrow> v) es"
  let ?vs = "map (\<lambda>(i, u). e (ent_text u)) ?us" and ?texts = "map (\<lambda>(i, u). ent_text u) (stale db es)"
  have z: "zip ?us ?vs = map (\<lambda>w. (w, e (ent_text (snd w)))) ?us" by (induction ?us) (auto simp: zip_map2 zip_same_conv_map)
  have "fill_slots (zip ?us ?vs) ?slots = map (vector_of e db) es"
  proof (rule nth_equalityI)
    fix i assume "i < length (fill_slots (zip ?us ?vs) ?slots)"
    then have i: "i < length es" by simp
    show "fill_slots (zip ?us ?vs) ?slots ! i = map (vector_of e db) es ! i"
    proof (cases "cache_hit (bulk db) (es ! i)")
      case None
      with i have m: "(i, es ! i) \<in> set ?us" by (simp add: stale_mem)
      have "distinct (map (\<lambda>w. fst (fst w)) (zip ?us ?vs))" using stale_distinct by (simp add: z comp_def)
      moreover have "((i, es ! i), e (ent_text (es ! i))) \<in> set (zip ?us ?vs)" using m by (force simp: z)
      ultimately have "find (\<lambda>w. fst (fst w) = i) (rev (zip ?us ?vs)) = Some ((i, es ! i), e (ent_text (es ! i)))"
        using find_unique [of "\<lambda>w. fst (fst w)" "zip ?us ?vs" "((i, es ! i), e (ent_text (es ! i)))"] by simp
      with i None show ?thesis by (simp add: nth_fill_slots vector_of_def)
    next
      case (Some v)
      have "find (\<lambda>w. fst (fst w) = i) (rev (zip ?us ?vs)) = None"
        using Some by (auto simp: z find_None_iff stale_mem)
      with i Some show ?thesis by (simp add: nth_fill_slots vector_of_def)
    qed
  qed simp
  moreover have "embedBatched emb ?texts \<in> {None, Some ?vs}"
    using embedBatched_by [OF assms, of ?texts] by (cases "embedBatched emb ?texts") (simp_all add: comp_def case_prod_unfold)
  ultimately show ?thesis
    by (cases "?us = []")
      (auto simp: resolve_cached_def fill_vecs_ok fill_slots_def stale_def [symmetric] Let_def)
qed

end

lemmas resolve_item_facts = item_cache.resolve_cached_ok item_cache.resolve_again

subsection \<open>Vector search\<close>

lemma scoreItems_mem:
  assumes "x \<in> set (scoreItems q items vecs)"
  shows "si_Item x \<in> set items \<and> \<bar>si_Score x\<bar> \<le> 1"
  using assms cosine_bounds [of q] unfolding scoreItems_def List.map_filter_def
  by (fastforce dest: set_zip_leftD simp: abs_le_iff)

lemma scoreCct_mem:
  assumes "x \<in> set (scoreCctPatterns emb q ps)"
  shows "si_Item x \<in> cctToItem ` set ps \<and> \<bar>si_Score x\<bar> \<le> 1"
  using assms cosine_bounds [of q] unfolding scoreCctPatterns_def
  by (fastforce dest: set_zip_leftD simp: abs_le_iff List.map_filter_def split: if_splits option.splits)

text \<open>C32: With an embedder that answers each batch in full, a vector search never indexes out of range: it fails
  with a read or embedding error, or returns at most \<open>limit\<close> results with scores in \<open>[-1, 1]\<close> that do not
  increase, each a live item of the index or a stored pattern, and the items of the index are what they were.\<close>

theorem Vector_safe:
  assumes "embedder_ok emb" and "slice_sort srt"
    and "Vector env srt writable emb read_fails db query limit cct = (r, db')"
  shows "r \<noteq> Inl IndexPanic \<and> map convertToItem (db_lessons db') = map convertToItem (db_lessons db) \<and>
    (\<forall>xs. r = Inr xs \<longrightarrow> (limit > 0 \<longrightarrow> int (length xs) \<le> limit) \<and> sorted_wrt (\<lambda>x y. si_Score y \<le> si_Score x) xs \<and>
       (\<forall>x \<in> set xs. \<bar>si_Score x\<bar> \<le> 1 \<and>
          (si_Item x \<in> set (ReadAll (env_deliver env) db) \<or>
           (\<exists>f ps. cct = Some f \<and> ReadCctPatterns f = Inr ps \<and> si_Item x \<in> cctToItem ` set ps))))"
proof -
  let ?items = "ReadAll (env_deliver env) db"
  define ps where "ps = (case cct of None \<Rightarrow> [] | Some f \<Rightarrow> (case ReadCctPatterns f of Inl _ \<Rightarrow> [] | Inr ps \<Rightarrow> ps))"
  have early: ?thesis if "db' = db" "r = Inl DbRead \<or> r = Inl EmbedFailed \<or> r = Inr []" using that by auto
  show ?thesis
  proof (cases "read_fails \<or> ?items = [] \<and> ps = [] \<or> emb [query] = None")
    case True
    then have "db' = db \<and> (r = Inl DbRead \<or> r = Inl EmbedFailed \<or> r = Inr [])"
      using assms(3) by (auto simp: Vector_def Let_def ps_def [symmetric] split: if_splits)
    with early show ?thesis by blast
  next
    case False
    then obtain qs where qs: "emb [query] = Some qs" by auto
    have "length [query] \<le> maxEmbedBatch" by (simp add: maxEmbedBatch_def)
    then have "length qs = 1" using assms(1) qs unfolding embedder_ok_def by fastforce
    then obtain q where q: "emb [query] = Some [q]" using qs by (auto simp: length_Suc_conv)
    obtain res db1 where rs: "resolveItemEmbeddings env writable emb db ?items = (res, db1)" by fastforce
    have v: "Vector env srt writable emb read_fails db query limit cct =
        (case res of Inl e \<Rightarrow> (Inl e, db1)
         | Inr vecs \<Rightarrow> (Inr (cut_limit limit (srt by_score (scoreItems q ?items vecs @ scoreCctPatterns emb q ps))), db1))"
      using False q rs by (auto simp: Vector_def Let_def ps_def [symmetric] split: sum.split)
    from item_cache.resolve_cached_ok [OF assms(1) rs [unfolded resolveItemEmbeddings_def]]
    consider "res = Inl EmbedFailed" "db1 = db"
      | vecs ws where "res = Inr vecs" "db1 = (if writable then item_cache.store_all (env_bits env) db ws else db)"
      by blast
    then show ?thesis
    proof cases
      case 1
      with v assms(3) show ?thesis by auto
    next
      case 2
      have keep: "map convertToItem (db_lessons db1) = map convertToItem (db_lessons db)"
        unfolding 2(2) by (simp add: item_cache.store_all_items)
      define all where "all = scoreItems q ?items vecs @ scoreCctPatterns emb q ps"
      have xs: "r = Inr (cut_limit limit (srt by_score all))" "db' = db1" using v 2(1) assms(3) by (simp_all add: all_def)
      have "sorted_wrt (\<lambda>x y. \<not> by_score y x) (srt by_score all)" by (rule slice_sort.slice_sorted [OF assms(2) by_score_weak])
      then have s: "sorted_wrt (\<lambda>x y. si_Score y \<le> si_Score x) (cut_limit limit (srt by_score all))"
        by (auto simp: by_score_def not_less cut_limit_prefix intro: sorted_wrt_take)
      have sub: "set (cut_limit limit (srt by_score all)) \<subseteq> set all"
        using set_take_subset [of "nat limit" "srt by_score all"]
        by (auto simp: cut_limit_prefix slice_sort.slice_set [OF assms(2)])
      let ?from = "\<lambda>x. \<bar>si_Score x\<bar> \<le> 1 \<and> (si_Item x \<in> set ?items \<or>
          (\<exists>f ps. cct = Some f \<and> ReadCctPatterns f = Inr ps \<and> si_Item x \<in> cctToItem ` set ps))"
      have "?from x" if "x \<in> set all" for x
      proof (cases "x \<in> set (scoreItems q ?items vecs)")
        case True
        with scoreItems_mem show ?thesis by blast
      next
        case False
        with that have "si_Item x \<in> cctToItem ` set ps \<and> \<bar>si_Score x\<bar> \<le> 1" using scoreCct_mem by (auto simp: all_def)
        moreover from this have "ps \<noteq> []" by auto
        then have "\<exists>f. cct = Some f \<and> ReadCctPatterns f = Inr ps"
          by (auto simp: ps_def split: option.splits sum.splits)
        ultimately show ?thesis by blast
      qed
      with sub have "\<forall>x \<in> set (cut_limit limit (srt by_score all)). ?from x" by blast
      moreover have "limit > 0 \<longrightarrow> int (length (cut_limit limit (srt by_score all))) \<le> limit"
        by (auto simp: cut_limit_prefix)
      ultimately show ?thesis using s xs keep by simp
    qed
  qed
qed

definition unit_embedder :: embedder where
  "unit_embedder ts = Some (map (\<lambda>_. [1]) ts)"

definition sample_env :: search_env where
  "sample_env = \<lparr>env_sha256 = id, env_bits = (\<lambda>_. 0), env_frombits = (\<lambda>_. 1), env_deliver = id\<rparr>"

lemma unit_embedder_ok: "embedder_ok unit_embedder"
  by (simp add: embedder_ok_def unit_embedder_def)

theorem Vector_safe_witness:
  "fst (Vector sample_env insertion_sort True unit_embedder False (db0\<lparr>db_lessons := [item_row sample_item]\<rparr>) ''q'' 5 None)
     \<noteq> Inl IndexPanic"
  using Vector_safe [OF unit_embedder_ok gosort.slice_sort_axioms, of sample_env True False
      "db0\<lparr>db_lessons := [item_row sample_item]\<rparr>" "''q''" 5 None] by (metis prod.collapse)

text \<open>C18: Embeddings are computed once: after a search has embedded the items of the index and could write its cache,
  resolving the same items again asks the embedder nothing (an embedder that always fails does as well),
  changes nothing, and returns for each item the vector of the first time, or that vector rounded to float32.\<close>

theorem resolveItemEmbeddings_cached:
  assumes "embedder_ok emb" and "distinct (map ID items)" and "ID ` set items \<subseteq> rf_id ` set (db_lessons db)"
    and "resolveItemEmbeddings env True emb db items = (Inr vecs, db')"
  shows "\<exists>vecs'. resolveItemEmbeddings env writable (\<lambda>_. None) db' items = (Inr vecs', db') \<and>
     list_all2 (\<lambda>v v'. v' = v \<or> v' = map (\<lambda>x. env_frombits env (env_bits env x)) v) vecs vecs'"
  unfolding resolveItemEmbeddings_def
proof (rule item_cache.resolve_again [OF assms(1) _ _ assms(4) [unfolded resolveItemEmbeddings_def]])
  show "distinct (map (ID \<circ> ent_item) (map (item_entry env) items))" using assms(2) by (simp add: item_entry_def comp_def)
  show "\<forall>u \<in> set (map (item_entry env) items). ID (ent_item u) \<in> rf_id ` set (db_lessons db)"
    using assms(3) by (auto simp: item_entry_def)
qed

theorem resolveItemEmbeddings_cached_witness:
  "\<exists>vecs vecs' db'. resolveItemEmbeddings sample_env True unit_embedder (db0\<lparr>db_lessons := [item_row sample_item]\<rparr>) [sample_item] =
       (Inr vecs, db') \<and>
     resolveItemEmbeddings sample_env True (\<lambda>_. None) db' [sample_item] = (Inr vecs', db') \<and> length vecs' = length vecs"
proof -
  let ?db = "db0\<lparr>db_lessons := [item_row sample_item]\<rparr>"
  have "\<exists>vecs db'. resolveItemEmbeddings sample_env True unit_embedder ?db [sample_item] = (Inr vecs, db')"
    by (simp add: resolveItemEmbeddings_def resolve_cached_def Let_def cache_hit_def GetCachedEmbeddingsBulk_def
        embedBatched_def embed_loop.simps unit_embedder_def maxEmbedBatch_def)
  then obtain vecs db' where r: "resolveItemEmbeddings sample_env True unit_embedder ?db [sample_item] = (Inr vecs, db')" by blast
  from resolveItemEmbeddings_cached [OF unit_embedder_ok _ _ r, of True] show ?thesis
    using r by (auto dest: list_all2_lengthD)
qed

text \<open>An embedder that answers with too few vectors makes the search panic instead of falling back: with any
  non-empty index without cached embeddings, an embedder that returns one vector for the query and none for the
  items drives the index out of range, although the pattern search of the same file checks for it.\<close>

theorem Vector_short_answer_panics:
  assumes "ReadAll (env_deliver env) db \<noteq> []" and "list_all (\<lambda>r. rf_embedding r = None) (db_lessons db)"
    and "emb [query] = Some [q]"
    and "\<And>ts. ts = map (\<lambda>it. Trigger it @ '' '' @ Insight it) (ReadAll (env_deliver env) db) \<Longrightarrow> embedBatched emb ts = Some []"
  shows "Vector env srt writable emb False db query limit cct = (Inl IndexPanic, db)"
proof -
  let ?items = "ReadAll (env_deliver env) db"
  have c: "GetCachedEmbeddingsBulk fb db = []" for fb by (rule no_embedding_cached [OF assms(2)])
  obtain it its where items: "?items = it # its" using assms(1) by (cases ?items) auto
  let ?es = "map (item_entry env) ?items"
  have miss: "cache_hit [] u = None" for u by (simp add: cache_hit_def)
  have texts: "map (\<lambda>(i, u). ent_text u) (enumerate n (map (item_entry env) xs)) = map (\<lambda>it. Trigger it @ '' '' @ Insight it) xs" for n xs
    by (induction xs arbitrary: n) (simp_all add: item_entry_def)
  have "embedBatched emb (map (\<lambda>(i, u). ent_text u) (enumerate 0 ?es)) = Some []" unfolding texts by (rule assms(4)) simp
  moreover have "enumerate 0 ?es = (0, item_entry env it) # enumerate 1 (map (item_entry env) its)" by (simp add: items)
  ultimately have "resolve_cached (\<lambda>db. []) st writable emb db ?es = (Inl IndexPanic, db)" for st
    by (simp add: resolve_cached_def miss case_prod_unfold)
  then have "resolveItemEmbeddings env writable emb db ?items = (Inl IndexPanic, db)"
    by (simp add: resolveItemEmbeddings_def resolve_cached_def c)
  with assms(1,3) show ?thesis by (simp add: Vector_def Let_def)
qed

theorem Vector_short_answer_panics_witness:
  "Vector sample_env insertion_sort True (\<lambda>ts. Some (if ts = [''q''] then [[1]] else [])) False
     (db0\<lparr>db_lessons := [item_row sample_item]\<rparr>) ''q'' 5 None = (Inl IndexPanic, db0\<lparr>db_lessons := [item_row sample_item]\<rparr>)"
proof (rule Vector_short_answer_panics)
  have live: "rf_invalidatedAt (item_row sample_item) = None" by (simp add: sample_item_def item0_def)
  then show "ReadAll (env_deliver sample_env) (db0\<lparr>db_lessons := [item_row sample_item]\<rparr>) \<noteq> []"
    by (simp add: ReadAll_def sample_env_def)
  fix ts assume "ts = map (\<lambda>it. Trigger it @ '' '' @ Insight it) (ReadAll (env_deliver sample_env) (db0\<lparr>db_lessons := [item_row sample_item]\<rparr>))"
  with live have "ts = [Trigger (convertToItem (item_row sample_item)) @ '' '' @ Insight (convertToItem (item_row sample_item))]"
    by (simp add: ReadAll_def sample_env_def)
  then have "ts = [''t use <b>'']" using sample_ok(1) by (simp add: convert_row index_view_def) (simp add: sample_item_def)
  then show "embedBatched (\<lambda>ts. Some (if ts = [''q''] then [[1]] else [])) ts = Some []"
    by (simp add: embedBatched_def embed_loop.simps maxEmbedBatch_def)
qed simp_all

subsection \<open>Session lessons\<close>

text \<open>Session start shows the newest lessons: when every creation time is a valid timestamp, the lessons loaded are
  confirmed, live, high-severity items of the file, at most the limit (5 unless positive), newest first, and
  no such item that is left out is newer than one that is shown.\<close>

theorem LoadSessionLessons_newest:
  assumes "slice_sort srt" and "ReadItems jsonl = Inr res"
    and "\<forall>it \<in> set (Items res). \<exists>n. parse_rfc3339 (Created it) = Some n"
  shows "\<exists>shown. LoadSessionLessons srt jsonl limit = Inr shown \<and>
     length shown = min (nat (if limit \<le> 0 then 5 else limit)) (length (filterHighSeverity (Items res))) \<and>
     set shown \<subseteq> set (filterHighSeverity (Items res)) \<and>
     sorted_wrt (\<lambda>a b. the (parse_rfc3339 (Created b)) \<le> the (parse_rfc3339 (Created a))) shown \<and>
     (\<forall>a \<in> set shown. \<forall>b \<in> set (filterHighSeverity (Items res)) - set shown.
        the (parse_rfc3339 (Created b)) \<le> the (parse_rfc3339 (Created a)))"
proof -
  let ?key = "\<lambda>it. the (parse_rfc3339 (Created it))" and ?high = "filterHighSeverity (Items res)"
  define n where "n = nat (if limit \<le> 0 then 5 else limit)"
  let ?all = "srt session_before ?high"
  have load: "LoadSessionLessons srt jsonl limit = Inr (take n ?all)"
    using assms(2) by (simp add: LoadSessionLessons_def n_def DefaultSessionLimit_def Let_def)
  have k: "session_before x y \<longleftrightarrow> ?key x > ?key y" if "x \<in> set ?high" "y \<in> set ?high" for x y
  proof -
    have it: "x \<in> set (Items res)" "y \<in> set (Items res)" using that by (simp_all add: filterHighSeverity_def)
    obtain m where "parse_rfc3339 (Created x) = Some m" using bspec [OF assms(3) it(1)] by blast
    moreover obtain n where "parse_rfc3339 (Created y) = Some n" using bspec [OF assms(3) it(2)] by blast
    ultimately show ?thesis by (simp add: session_before_def)
  qed
  have "strict_weak_on (set ?high) session_before" by (rule strict_weak_on_key) (rule k)
  then have so: "sorted_wrt (\<lambda>x y. \<not> session_before y x) ?all" by (rule slice_sort.slice_sorted_on [OF assms(1)])
  have high: "set ?all = set ?high" by (rule slice_sort.slice_set [OF assms(1)])
  have s: "sorted_wrt (\<lambda>a b. ?key b \<le> ?key a) ?all"
  proof (rule sorted_wrt_mono_rel [OF _ so])
    fix x y assume "x \<in> set ?all" "y \<in> set ?all" "\<not> session_before y x"
    then show "?key y \<le> ?key x" using k [of y x] unfolding high by simp
  qed
  have cross: "\<forall>a \<in> set (take n ?all). \<forall>b \<in> set (drop n ?all). ?key b \<le> ?key a"
    using s append_take_drop_id [of n ?all] by (metis sorted_wrt_append)
  have "set (take n ?all) \<union> set (drop n ?all) = set ?high"
    using high by (metis append_take_drop_id set_append)
  then have "\<forall>a \<in> set (take n ?all). \<forall>b \<in> set ?high - set (take n ?all). ?key b \<le> ?key a" using cross by blast
  moreover have "set (take n ?all) \<subseteq> set ?high" using high set_take_subset [of n ?all] by simp
  moreover have "length (take n ?all) = min n (length ?high)" by (simp add: slice_sort.slice_length [OF assms(1)])
  moreover have "sorted_wrt (\<lambda>a b. ?key b \<le> ?key a) (take n ?all)" by (rule sorted_wrt_take [OF s])
  ultimately show ?thesis unfolding load n_def by blast
qed

theorem LoadSessionLessons_newest_witness:
  "\<exists>shown. LoadSessionLessons insertion_sort NotExist 0 = Inr shown \<and> length shown = 0"
  using LoadSessionLessons_newest [OF gosort.slice_sort_axioms, of NotExist _ 0]
  by (auto simp: ReadItems_def filterHighSeverity_def)

lemma sample_times:
  "parse_rfc3339 ''2024-01-02T00:00:00+14:00'' = Some 1704103200000000000"
  "parse_rfc3339 ''2024-01-01T12:00:00Z'' = Some 1704110400000000000"
  "parse_rfc3339 ''2024-01-02'' = None"
  by (simp_all add: parse_rfc3339_def parse_year_def expect_def getnum_def digit_at_def is_digit_def byte_in_def
      parse_fraction_def parse_zone_def dec_val_def digit_val_def instant_def epoch_days_def year_days_def month_days_def
      leap_year_def ns_per_second_def)

text \<open>The order of session lessons is not an order when one timestamp is malformed: by the comparison the code
  sorts with, a lesson dated \<open>2024-01-02T00:00:00+14:00\<close> is newer than one dated \<open>2024-01-02\<close>, that one is newer
  than one dated \<open>2024-01-01T12:00:00Z\<close>, and that one is newer than the first, so \<open>sort.Slice\<close> promises nothing.\<close>

theorem session_before_cyclic:
  "session_before (item0\<lparr>Created := ''2024-01-02T00:00:00+14:00''\<rparr>) (item0\<lparr>Created := ''2024-01-02''\<rparr>) \<and>
   session_before (item0\<lparr>Created := ''2024-01-02''\<rparr>) (item0\<lparr>Created := ''2024-01-01T12:00:00Z''\<rparr>) \<and>
   session_before (item0\<lparr>Created := ''2024-01-01T12:00:00Z''\<rparr>) (item0\<lparr>Created := ''2024-01-02T00:00:00+14:00''\<rparr>)"
  by (simp add: session_before_def sample_times)

end
