(* ===== verification/Telemetry.thy ===== *)
theory Telemetry
  imports Storage
begin

section \<open>Package telemetry: the event log (telemetry/telemetry.go)\<close>

text \<open>
  The telemetry table with its autoincremented ids, the INSERT of an event, the DELETE that keeps
  the newest rows and the aggregate queries. A real of the metadata is printed by a parameter.
  It is shown that pruning keeps exactly the newest rows, in order, whatever was logged, so the
  table stays within its bound however hooks interleave.
\<close>

definition EventHookExecution :: string where "EventHookExecution = ''hook_execution''"
definition EventLessonRetrieval :: string where "EventLessonRetrieval = ''lesson_retrieval''"

datatype outcome = OutcomeSuccess | OutcomeError | OutcomeTimeout | OutcomeEmpty

definition MaxRows :: int where "MaxRows = 100000"

record event =
  ev_EventType :: string
  ev_HookName :: string
  ev_Phase :: string
  ev_DurationMs :: int
  ev_Outcome :: outcome
  ev_QueryHash :: string
  ev_Metadata :: "json option"

record tele_row =
  tr_id :: nat
  tr_timestamp :: string
  tr_type :: string
  tr_hook :: string
  tr_phase :: string
  tr_duration :: int
  tr_success :: int
  tr_hash :: string
  tr_metadata :: string

text \<open>The table in the order of its ids; \<open>tt_seq\<close> is the largest id ever given out (AUTOINCREMENT).\<close>

record tele_table =
  tt_rows :: "tele_row list"
  tt_seq :: nat

definition HashQuery :: "(string \<Rightarrow> string) \<Rightarrow> string \<Rightarrow> string" where
  "HashQuery sha256 query = (if query = [] then [] else concat (map hex_byte (take 8 (sha256 query))))"

definition outcomeToSuccess :: "outcome \<Rightarrow> int" where
  "outcomeToSuccess out = (case out of OutcomeSuccess \<Rightarrow> 1 | OutcomeEmpty \<Rightarrow> 1 | _ \<Rightarrow> 0)"

text \<open>\<open>ts\<close> is the formatted clock; the insert fails when \<open>fails\<close> holds.\<close>

definition LogEvent :: "bool \<Rightarrow> string \<Rightarrow> tele_table \<Rightarrow> event \<Rightarrow> bool \<times> tele_table" where
  "LogEvent fails ts t ev =
     (let metadataJSON = (case ev_Metadata ev of None \<Rightarrow> ''{}'' | Some m \<Rightarrow> marshal m);
          row = \<lparr>tr_id = tt_seq t + 1, tr_timestamp = ts, tr_type = ev_EventType ev, tr_hook = ev_HookName ev,
                 tr_phase = ev_Phase ev, tr_duration = ev_DurationMs ev, tr_success = outcomeToSuccess (ev_Outcome ev),
                 tr_hash = ev_QueryHash ev, tr_metadata = metadataJSON\<rparr>
      in if fails then (False, t) else (True, \<lparr>tt_rows = tt_rows t @ [row], tt_seq = tt_seq t + 1\<rparr>))"

text \<open>\<open>SELECT id ... ORDER BY id DESC LIMIT n\<close>, then the rows whose id is not among them go.\<close>

definition newest_ids :: "int \<Rightarrow> tele_row list \<Rightarrow> nat list" where
  "newest_ids n rows = sql_limit n (rev (sort (map tr_id rows)))"

definition PruneEvents :: "tele_table \<Rightarrow> int \<Rightarrow> int \<times> tele_table" where
  "PruneEvents t maxRows =
     (let keep = filter (\<lambda>r. tr_id r \<in> set (newest_ids maxRows (tt_rows t))) (tt_rows t)
      in (int (length (tt_rows t)) - int (length keep), t\<lparr>tt_rows := keep\<rparr>))"

record hook_stat =
  hs_HookName :: string
  hs_Count :: nat
  hs_AvgDurationMs :: real
  hs_SuccessCount :: nat
  hs_ErrorCount :: nat

record stats =
  st_TotalEvents :: nat
  st_HookStats :: "hook_stat list"
  st_RetrievalCount :: nat

definition hook_stat_of :: "tele_row list \<Rightarrow> string \<Rightarrow> hook_stat" where
  "hook_stat_of rows h =
     (let rs = filter (\<lambda>r. tr_hook r = h) rows
      in \<lparr>hs_HookName = h, hs_Count = length rs,
          hs_AvgDurationMs = real_of_int (sum_list (map tr_duration rs)) / real (length rs),
          hs_SuccessCount = length (filter (\<lambda>r. tr_success r = 1) rs),
          hs_ErrorCount = length (filter (\<lambda>r. tr_success r = 0) rs)\<rparr>)"

definition more_events :: "hook_stat \<Rightarrow> hook_stat \<Rightarrow> bool" where
  "more_events a b \<longleftrightarrow> hs_Count a > hs_Count b"

text \<open>\<open>order_by\<close> sorts for ORDER BY, as in the keyword search.\<close>

definition QueryStats :: "((hook_stat \<Rightarrow> hook_stat \<Rightarrow> bool) \<Rightarrow> hook_stat list \<Rightarrow> hook_stat list) \<Rightarrow> tele_table \<Rightarrow> stats" where
  "QueryStats order_by t =
     (let hooks = filter (\<lambda>r. tr_type r = EventHookExecution) (tt_rows t)
      in \<lparr>st_TotalEvents = length (tt_rows t),
          st_HookStats = order_by more_events (map (hook_stat_of hooks) (dedup_seen [] (map tr_hook hooks))),
          st_RetrievalCount = length (filter (\<lambda>r. tr_type r = EventLessonRetrieval) (tt_rows t))\<rparr>)"

subsection \<open>Properties\<close>

definition tele_ok :: "tele_table \<Rightarrow> bool" where
  "tele_ok t \<longleftrightarrow> sorted_wrt (<) (map tr_id (tt_rows t)) \<and> (\<forall>r \<in> set (tt_rows t). tr_id r \<le> tt_seq t)"

lemma LogEvent_ok: "tele_ok t \<Longrightarrow> tele_ok (snd (LogEvent fails ts t ev))"
  by (fastforce simp: tele_ok_def LogEvent_def Let_def sorted_wrt_append less_Suc_eq_le)

lemma prune_filter:
  assumes "sorted_wrt (<) (map tr_id rows)"
  shows "filter (\<lambda>r. tr_id r \<in> set (take n (rev (map tr_id rows)))) rows = drop (length rows - n) rows"
proof -
  let ?d = "length rows - n"
  have "take n (rev (map tr_id rows)) = rev (map tr_id (drop ?d rows))" by (simp add: take_rev drop_map)
  then have ids: "set (take n (rev (map tr_id rows))) = tr_id ` set (drop ?d rows)" by simp
  have "sorted_wrt (\<lambda>a b. tr_id a < tr_id b) (take ?d rows @ drop ?d rows)" using assms by (simp add: sorted_wrt_map)
  then have "\<forall>a \<in> set (take ?d rows). \<forall>b \<in> set (drop ?d rows). tr_id a < tr_id b" unfolding sorted_wrt_append by blast
  then have "\<forall>a \<in> set (take ?d rows). tr_id a \<notin> tr_id ` set (drop ?d rows)" by fastforce
  then have "filter (\<lambda>r. tr_id r \<in> tr_id ` set (drop ?d rows)) (take ?d rows @ drop ?d rows) = drop ?d rows"
    by (simp only: filter_append) (simp add: filter_empty_conv filter_id_conv)
  then show ?thesis unfolding ids by simp
qed

lemma PruneEvents_rows:
  assumes "tele_ok t" and "0 \<le> n"
  shows "tt_rows (snd (PruneEvents t n)) = drop (length (tt_rows t) - nat n) (tt_rows t)"
proof -
  have s: "sorted_wrt (<) (map tr_id (tt_rows t))" using assms(1) by (simp add: tele_ok_def)
  then have "sort (map tr_id (tt_rows t)) = map tr_id (tt_rows t)" by (simp add: sorted_sort_id strict_sorted_iff)
  then show ?thesis using assms(2) prune_filter [OF s, of "nat n"]
    by (simp add: PruneEvents_def Let_def newest_ids_def sql_limit_def)
qed

text \<open>The life of the table: events are logged and the table is pruned, in any order.\<close>

inductive tele_reach :: "tele_table \<Rightarrow> bool" where
  empty: "tele_reach \<lparr>tt_rows = [], tt_seq = 0\<rparr>"
| logged: "tele_reach t \<Longrightarrow> tele_reach (snd (LogEvent fails ts t ev))"
| pruned: "tele_reach t \<Longrightarrow> tele_reach (snd (PruneEvents t n))"

lemma tele_reach_ok: "tele_reach t \<Longrightarrow> tele_ok t"
proof (induction rule: tele_reach.induct)
  case empty
  then show ?case by (simp add: tele_ok_def)
next
  case (logged t fails ts ev)
  then show ?case by (simp add: LogEvent_ok)
next
  case (pruned t n)
  have "sorted_wrt (<) (map tr_id (filter P xs))" if "sorted_wrt (<) (map tr_id xs)" for P and xs :: "tele_row list"
    using that by (induction xs) auto
  with pruned.IH show ?case by (auto simp: tele_ok_def PruneEvents_def Let_def)
qed


definition sample_event :: event where
  "sample_event = \<lparr>ev_EventType = EventHookExecution, ev_HookName = ''h'', ev_Phase = [], ev_DurationMs = 1,
     ev_Outcome = OutcomeError, ev_QueryHash = [], ev_Metadata = None\<rparr>"


end
