(* ===== verification/Hook.thy ===== *)
theory Hook
  imports PhaseState Telemetry Compound
begin

section \<open>Package hook: failure tracking, prompt reminders and dispatch\<close>

text \<open>
  hook/failure_tracker.go counts failed tool calls in a JSON state file, hook/failure_search.go turns the
  failure into search tokens and formats what is found, hook/user_prompt.go matches prompts against
  regular expressions, and hook/runner.go decodes the JSON of a hook call and dispatches it.
  Instants of the failure state are milliseconds. The lesson search is a function from tokens and a limit to
  matches, None for an error or a timeout.
\<close>

subsection \<open>Failure search (hook/failure_search.go)\<close>

definition maxSearchResults :: nat where "maxSearchResults = 3"
definition maxQueryLen :: nat where "maxQueryLen = 200"
definition maxQueryTokens :: nat where "maxQueryTokens = 5"
definition confidenceThreshold :: real where "confidenceThreshold = 0.5"

record lesson_match =
  lm_Trigger :: string
  lm_Insight :: string
  lm_Score :: real

type_synonym lesson_search = "string list \<Rightarrow> nat \<Rightarrow> lesson_match list option"

definition stopWords :: "string list" where
  "stopWords =
     [''a'', ''an'', ''the'', ''is'', ''are'', ''was'', ''were'', ''be'', ''been'', ''being'',
      ''have'', ''has'', ''had'', ''do'', ''does'', ''did'', ''will'', ''would'', ''could'', ''should'',
      ''may'', ''might'', ''can'', ''shall'',
      ''to'', ''of'', ''in'', ''for'', ''on'', ''with'', ''at'', ''by'', ''from'', ''as'',
      ''into'', ''through'', ''during'', ''before'', ''after'', ''above'', ''below'', ''between'',
      ''no'', ''not'', ''but'', ''if'', ''or'', ''and'', ''so'', ''than'', ''too'', ''very'',
      ''just'', ''that'', ''this'', ''it'', ''its'', ''such'', ''which'', ''what'', ''when'', ''where'']"

definition token_cutset :: string where
  "token_cutset = ''.,;:!?()[]{}'' @ [CHR 0x22, CHR 0x27, CHR 0x60]"

definition trim_both :: "string \<Rightarrow> string \<Rightarrow> string" where
  "trim_both cs s = trim_cut_right cs (trim_cut cs s)"

fun collect_tokens :: "string list \<Rightarrow> string list \<Rightarrow> string list" where
  "collect_tokens tokens [] = tokens"
| "collect_tokens tokens (word # ws) =
     (let cleaned = trim_both token_cutset word in
      if length cleaned < 2 \<or> to_lower cleaned \<in> set stopWords then collect_tokens tokens ws
      else
        let tokens' = tokens @ [cleaned]
        in if maxQueryTokens \<le> length tokens' then tokens' else collect_tokens tokens' ws)"

definition BuildSearchTokens :: "string \<Rightarrow> string \<Rightarrow> string \<Rightarrow> string list" where
  "BuildSearchTokens toolName target toolOutput =
     (let t0 = (if target \<noteq> [] then [target] else []);
          t1 = (if toolOutput \<noteq> [] then collect_tokens t0 (go_fields (truncate_runes maxQueryLen (trim_space toolOutput))) else t0)
      in if t1 = [] \<and> toolName \<noteq> [] then [toolName] else t1)"

definition FormatLessonResults :: "lesson_match list \<Rightarrow> string" where
  "FormatLessonResults found =
     (if found = [] then []
      else ''Relevant lessons from past sessions:'' @ [CHR 0x0A] @
        concat (map (\<lambda>(i, m). [CHR 0x0A] @ show_int (int i + 1) @ ''. '' @
          (if lm_Score m < confidenceThreshold then ''(possible match) '' else []) @ ''**'' @ lm_Trigger m @ ''**'' @
          [CHR 0x0A] @ ''   '' @ lm_Insight m) (enumerate 0 found)))"

definition searchLessonsWithTimeout :: "lesson_search \<Rightarrow> string list \<Rightarrow> lesson_match list option" where
  "searchLessonsWithTimeout searchFn tokens =
     map_option (filter (\<lambda>m. lm_Score m > 0)) (searchFn tokens maxSearchResults)"

subsection \<open>Failure tracker (hook/failure_tracker.go)\<close>

definition sameTargetThreshold :: int where "sameTargetThreshold = 3"
definition totalFailureThreshold :: int where "totalFailureThreshold = 3"
definition stateMaxAge :: int where "stateMaxAge = 60 * 60 * 1000"

definition failureTip :: string where
  "failureTip = ''Tip: Multiple failures detected. '' @ [CHR 0x60] @ ''npx ca search'' @ [CHR 0x60] @
     '' may have solutions for similar issues.''"

record failure_state =
  Count :: int
  LastTarget :: string
  SameTargetCount :: int
  Timestamp :: int

definition failure_state0 :: failure_state where
  "failure_state0 = \<lparr>Count = 0, LastTarget = [], SameTargetCount = 0, Timestamp = 0\<rparr>"

definition enc_failure :: "failure_state \<Rightarrow> json" where
  "enc_failure st = JObj
     [(''count'', j_int (Count st)), (''lastTarget'', JStr (LastTarget st)),
      (''sameTargetCount'', j_int (SameTargetCount st)), (''timestamp'', j_int (Timestamp st))]"

definition failure_field :: "failure_state \<Rightarrow> string \<Rightarrow> json \<Rightarrow> failure_state option" where
  "failure_field st k v =
     (case canon_key [''count'', ''lastTarget'', ''sameTargetCount'', ''timestamp''] k of None \<Rightarrow> Some st
      | Some n \<Rightarrow>
        if n = ''count'' then map_option (\<lambda>i. st\<lparr>Count := i\<rparr>) (dec_int (Count st) v)
        else if n = ''lastTarget'' then map_option (\<lambda>s. st\<lparr>LastTarget := s\<rparr>) (dec_str (LastTarget st) v)
        else if n = ''sameTargetCount'' then map_option (\<lambda>i. st\<lparr>SameTargetCount := i\<rparr>) (dec_int (SameTargetCount st) v)
        else map_option (\<lambda>i. st\<lparr>Timestamp := i\<rparr>) (dec_int (Timestamp st) v))"

text \<open>Arithmetic on Go's 64-bit ints wraps.\<close>

definition wrap64 :: "int \<Rightarrow> int" where
  "wrap64 i = (i + 2 ^ 63) mod 2 ^ 64 - 2 ^ 63"

text \<open>\<open>file\<close> is the content of the state file, None when it cannot be read.\<close>

definition readFailureState :: "int \<Rightarrow> string option \<Rightarrow> failure_state" where
  "readFailureState now file =
     (let fresh = failure_state0\<lparr>Timestamp := now\<rparr>
      in case file of None \<Rightarrow> fresh
         | Some data \<Rightarrow>
           (case json_parse data of None \<Rightarrow> fresh
            | Some v \<Rightarrow>
              (case dec_obj failure_field failure_state0 v of None \<Rightarrow> fresh
               | Some st \<Rightarrow> if wrap64 (now - Timestamp st) > stateMaxAge then fresh else st)))"

definition writeFailureState :: "bool \<Rightarrow> failure_state \<Rightarrow> string option \<Rightarrow> string option" where
  "writeFailureState writable st file = (if writable then Some (marshal (enc_failure st)) else file)"

definition deleteFailureState :: "bool \<Rightarrow> string option \<Rightarrow> string option" where
  "deleteFailureState writable file = (if writable then None else file)"

definition input_str :: "(string, json) gomap \<Rightarrow> string \<Rightarrow> string option" where
  "input_str toolInput k = (case map_of toolInput k of Some (JStr s) \<Rightarrow> Some s | _ \<Rightarrow> None)"

definition getFailureTarget :: "string \<Rightarrow> (string, json) gomap \<Rightarrow> string" where
  "getFailureTarget toolName toolInput =
     (if toolName = ''Bash'' then
        (case input_str toolInput ''command'' of None \<Rightarrow> []
         | Some cmd \<Rightarrow> takeWhile (\<lambda>c. c \<noteq> CHR '' '') (trim_space cmd))
      else if toolName = ''Edit'' \<or> toolName = ''Write'' then
        (case input_str toolInput ''file_path'' of None \<Rightarrow> [] | Some fp \<Rightarrow> fp)
      else [])"

definition buildFailureTip :: "string \<Rightarrow> string \<Rightarrow> string \<Rightarrow> lesson_search option \<Rightarrow> string" where
  "buildFailureTip toolName target toolOutput searchFn =
     (case searchFn of None \<Rightarrow> failureTip
      | Some f \<Rightarrow>
        (let tokens = BuildSearchTokens toolName target toolOutput
         in if tokens = [] then failureTip
            else case searchLessonsWithTimeout f tokens of None \<Rightarrow> failureTip
              | Some [] \<Rightarrow> failureTip
              | Some found \<Rightarrow> FormatLessonResults found))"

definition ProcessToolFailureWithSearch ::
    "int \<Rightarrow> bool \<Rightarrow> string \<Rightarrow> (string, json) gomap \<Rightarrow> string \<Rightarrow> lesson_search option \<Rightarrow> string option \<Rightarrow>
     specific_output option \<times> string option" where
  "ProcessToolFailureWithSearch now writable toolName toolInput toolOutput searchFn file =
     (let st0 = readFailureState now file;
          st1 = st0\<lparr>Count := wrap64 (Count st0 + 1)\<rparr>;
          target = getFailureTarget toolName toolInput;
          st2 = (if target \<noteq> [] \<and> target = LastTarget st1
                 then st1\<lparr>SameTargetCount := wrap64 (SameTargetCount st1 + 1)\<rparr>
                 else st1\<lparr>SameTargetCount := 1, LastTarget := target\<rparr>)
      in if SameTargetCount st2 \<ge> sameTargetThreshold \<or> Count st2 \<ge> totalFailureThreshold
         then (Some \<lparr>HookEventName = ''PostToolUseFailure'',
                     AdditionalContext = buildFailureTip toolName target toolOutput searchFn\<rparr>,
               deleteFailureState writable file)
         else (None, writeFailureState writable (st2\<lparr>Timestamp := now\<rparr>) file))"

definition ProcessToolSuccess :: "bool \<Rightarrow> string option \<Rightarrow> string option" where
  "ProcessToolSuccess writable file = deleteFailureState writable file"

subsection \<open>User prompts (hook/user_prompt.go)\<close>

definition CorrectionReminder :: string where
  "CorrectionReminder = ''Remember: You have memory tools available - '' @ [CHR 0x60] @ ''npx ca learn'' @ [CHR 0x60] @
     '' to save insights, '' @ [CHR 0x60] @ ''npx ca search'' @ [CHR 0x60] @ '' to find past solutions.''"

definition PlanningReminder :: string where
  "PlanningReminder =
     [CHR ''I''] @ ''f you'' @ [CHR 0x27] @ ''re uncertain or hesitant, remember your memory tools: '' @ [CHR 0x60] @ ''npx ca search'' @
     [CHR 0x60] @ '' may have relevant context from past sessions.''"

definition word_re :: "string \<Rightarrow> re" where
  "word_re s = seqs [RBound, lit_i s, RBound]"

definition quote_opt :: re where "quote_opt = ROpt (RLit [CHR 0x27])"

text \<open>\<open>\s*(,\s*)?\<close>\<close>

definition comma_gap :: re where
  "comma_gap = seqs [RStar True re_s, ROpt (RGroup 1 (seqs [RLit '','', RStar True re_s]))]"

definition correctionPatterns :: "re list" where
  "correctionPatterns =
     [word_re ''actually'',
      seqs [RBound, lit_i ''no'', ROpt (RCls (CRanges [(44, 44), (46, 46)])), re_s],
      word_re ''wrong'',
      seqs [RBound, lit_i ''that'', quote_opt, lit_i ''s not right'', RBound],
      seqs [RBound, lit_i ''that'', quote_opt, lit_i ''s incorrect'', RBound],
      seqs [RBound, lit_i ''use '', re_any, lit_i '' instead'', RBound],
      word_re ''i told you'',
      word_re ''i already said'',
      word_re ''not like that'',
      word_re ''you forgot'',
      word_re ''you missed'',
      seqs [RBound, lit_i ''stop'', comma_gap, RGroup 2 (alts [lit_i ''doing'', lit_i ''using'', lit_i ''that'']), RBound],
      seqs [RBound, lit_i ''wait'', comma_gap, RGroup 2 (alts [lit_i ''that'', lit_i ''no'', lit_i ''wrong'']), RBound]]"

definition highConfidencePlanning :: "re list" where
  "highConfidencePlanning =
     [word_re ''decide'', word_re ''choose'', word_re ''pick'', word_re ''which approach'', word_re ''what do you think'',
      word_re ''should we'', word_re ''would you'', word_re ''how should'',
      seqs [RBound, lit_i ''what'', quote_opt, lit_i ''s the best'', RBound],
      word_re ''add feature'', word_re ''set up'']"

definition lowConfidencePlanning :: "re list" where
  "lowConfidencePlanning =
     [word_re ''implement'', word_re ''build'', word_re ''create'', word_re ''refactor'', word_re ''fix'',
      word_re ''write'', word_re ''develop'']"

definition detectCorrection :: "string \<Rightarrow> bool" where
  "detectCorrection prompt = match_any correctionPatterns prompt"

definition detectPlanning :: "string \<Rightarrow> bool" where
  "detectPlanning prompt \<longleftrightarrow>
     match_any highConfidencePlanning prompt \<or>
     2 \<le> length (filter (\<lambda>pat. match_string pat prompt) lowConfidencePlanning)"

definition ProcessUserPrompt :: "string \<Rightarrow> specific_output option" where
  "ProcessUserPrompt prompt =
     (if detectCorrection prompt then
        Some \<lparr>HookEventName = ''UserPromptSubmit'', AdditionalContext = CorrectionReminder\<rparr>
      else if detectPlanning prompt then
        Some \<lparr>HookEventName = ''UserPromptSubmit'', AdditionalContext = PlanningReminder\<rparr>
      else None)"

subsection \<open>Decoding and dispatch (hook/runner.go)\<close>

text \<open>
  What reading stdin gives: the text, or an error (timeout, read error). \<open>ReadStdinFrom\<close> refuses
  more than its limit.
\<close>

datatype stdin = StdinData string | StdinFails

definition ReadStdinFrom :: "nat \<Rightarrow> stdin \<Rightarrow> string option" where
  "ReadStdinFrom maxBytes r =
     (case r of StdinFails \<Rightarrow> None | StdinData s \<Rightarrow> if maxBytes < length s then None else Some s)"

definition parseHookInput :: "stdin \<Rightarrow> string option" where
  "parseHookInput r = ReadStdinFrom (2 ^ 20) r"

text \<open>The input structs of the handlers in one record; a handler decodes only its own keys.\<close>

record hook_data =
  hd_prompt :: string
  hd_tool_name :: string
  hd_tool_input :: "(string, json) gomap option"
  hd_tool_output :: string
  hd_working_dir :: string
  hd_stop_active :: bool

definition hook_data0 :: hook_data where
  "hook_data0 = \<lparr>hd_prompt = [], hd_tool_name = [], hd_tool_input = None, hd_tool_output = [], hd_working_dir = [],
     hd_stop_active = False\<rparr>"

text \<open>A \<open>map[string]interface{}\<close> is filled in place; a number beyond float64 is an error.\<close>

definition dec_map :: "(string, json) gomap option \<Rightarrow> json \<Rightarrow> (string, json) gomap option option" where
  "dec_map old v =
     (case v of JNull \<Rightarrow> Some None
      | JObj ms \<Rightarrow> if nums_finite v
          then Some (Some (foldl (\<lambda>m e. AList.update (fst e) (snd e) m) (case old of None \<Rightarrow> [] | Some m \<Rightarrow> m) ms)) else None
      | _ \<Rightarrow> None)"

definition hook_field :: "string list \<Rightarrow> hook_data \<Rightarrow> string \<Rightarrow> json \<Rightarrow> hook_data option" where
  "hook_field keys d k v =
     (case canon_key keys k of None \<Rightarrow> Some d
      | Some n \<Rightarrow>
        if n = ''prompt'' then map_option (\<lambda>s. d\<lparr>hd_prompt := s\<rparr>) (dec_str (hd_prompt d) v)
        else if n = ''tool_name'' then map_option (\<lambda>s. d\<lparr>hd_tool_name := s\<rparr>) (dec_str (hd_tool_name d) v)
        else if n = ''tool_input'' then map_option (\<lambda>m. d\<lparr>hd_tool_input := m\<rparr>) (dec_map (hd_tool_input d) v)
        else if n = ''tool_output'' then map_option (\<lambda>s. d\<lparr>hd_tool_output := s\<rparr>) (dec_str (hd_tool_output d) v)
        else if n = ''working_dir'' then map_option (\<lambda>s. d\<lparr>hd_working_dir := s\<rparr>) (dec_str (hd_working_dir d) v)
        else map_option (\<lambda>b. d\<lparr>hd_stop_active := b\<rparr>) (dec_bool (hd_stop_active d) v))"

definition decode_hook :: "string list \<Rightarrow> string \<Rightarrow> hook_data option" where
  "decode_hook keys raw =
     (case json_parse raw of None \<Rightarrow> None | Some v \<Rightarrow> dec_obj (hook_field keys) hook_data0 v)"

text \<open>
  The world a hook runs in: roots of repositories with their phase files, whether a root has a
  .compound-agent directory, the failure file of the repository, the lesson search and the clocks.
\<close>

record hook_world =
  hw_root :: string
  hw_env_root :: bool
  hw_has_dir :: "string \<Rightarrow> bool"
  hw_phase :: "string \<Rightarrow> phase_fs"
  hw_failure :: "string option"
  hw_writable :: bool
  hw_now :: int
  hw_search :: lesson_search

definition now_ms :: "hook_world \<Rightarrow> int" where
  "now_ms w = hw_now w div 1000000"

definition enc_output :: "specific_output option \<Rightarrow> json" where
  "enc_output r =
     JObj (j_opt ''hookSpecificOutput'' (\<lambda>so. JObj ((''hookEventName'', JStr (HookEventName so)) #
       (if AdditionalContext so = [] then [] else [(''additionalContext'', JStr (AdditionalContext so))]))) r)"

definition enc_stop :: "stop_result \<Rightarrow> json" where
  "enc_stop r =
     JObj (j_opt ''continue'' JBool (Continue r) @
       (if StopReason r = [] then [] else [(''stopReason'', JStr (StopReason r))]))"

text \<open>A handler returns the result to serialise, the exit code, whether an internal error occurred, and the world.\<close>

type_synonym hook_result = "(json \<times> nat \<times> bool) \<times> hook_world"

definition handleErrorResult :: json where
  "handleErrorResult = JObj []"

definition dispatchUserPrompt :: "stdin \<Rightarrow> hook_world \<Rightarrow> hook_result" where
  "dispatchUserPrompt inp w =
     (case parseHookInput inp of None \<Rightarrow> ((handleErrorResult, 0, True), w)
      | Some raw \<Rightarrow>
        (case decode_hook [''prompt''] raw of None \<Rightarrow> ((handleErrorResult, 0, True), w)
         | Some d \<Rightarrow>
           if hd_prompt d = [] then ((JObj [], 0, False), w)
           else ((enc_output (ProcessUserPrompt (hd_prompt d)), 0, False), w)))"

definition the_input :: "hook_data \<Rightarrow> (string, json) gomap" where
  "the_input d = (case hd_tool_input d of None \<Rightarrow> [] | Some m \<Rightarrow> m)"

definition dispatchToolFailure :: "stdin \<Rightarrow> hook_world \<Rightarrow> hook_result" where
  "dispatchToolFailure inp w =
     (case parseHookInput inp of None \<Rightarrow> ((handleErrorResult, 0, True), w)
      | Some raw \<Rightarrow>
        (case decode_hook [''tool_name'', ''tool_input'', ''tool_output''] raw of
           None \<Rightarrow> ((handleErrorResult, 0, True), w)
         | Some d \<Rightarrow>
           if hd_tool_name d = [] then ((JObj [], 0, False), w)
           else
             let (r, f) = ProcessToolFailureWithSearch (now_ms w) (hw_writable w) (hd_tool_name d) (the_input d)
                            (hd_tool_output d) (Some (hw_search w)) (hw_failure w)
             in ((enc_output r, 0, False), w\<lparr>hw_failure := f\<rparr>)))"

definition dispatchToolSuccess :: "stdin \<Rightarrow> hook_world \<Rightarrow> hook_result" where
  "dispatchToolSuccess inp w =
     (case parseHookInput inp of None \<Rightarrow> ((handleErrorResult, 0, True), w)
      | Some _ \<Rightarrow> ((JObj [], 0, False), w\<lparr>hw_failure := ProcessToolSuccess (hw_writable w) (hw_failure w)\<rparr>))"

definition resolvePhaseGuardRoot :: "hook_world \<Rightarrow> string \<Rightarrow> string" where
  "resolvePhaseGuardRoot w workingDir =
     (if hw_env_root w then hw_root w
      else if hw_has_dir w (hw_root w) then hw_root w
      else if workingDir = [] then hw_root w
      else if hw_has_dir w workingDir then workingDir
      else hw_root w)"

definition put_phase :: "hook_world \<Rightarrow> string \<Rightarrow> phase_fs \<Rightarrow> hook_world" where
  "put_phase w r d = w\<lparr>hw_phase := (hw_phase w)(r := d)\<rparr>"

definition dispatchPhaseGuard :: "stdin \<Rightarrow> string \<Rightarrow> hook_world \<Rightarrow> hook_result" where
  "dispatchPhaseGuard inp hookName w =
     (case parseHookInput inp of None \<Rightarrow> ((handleErrorResult, 0, True), w)
      | Some raw \<Rightarrow>
        (case decode_hook [''tool_name'', ''tool_input'', ''working_dir''] raw of
           None \<Rightarrow> ((handleErrorResult, 0, True), w)
         | Some d \<Rightarrow>
           if hd_tool_name d = [] then ((JObj [], 0, False), w)
           else if hookName = ''phase-guard'' then
             (let rt = resolvePhaseGuardRoot w (hd_working_dir d);
                  (r, p) = ProcessPhaseGuard (hw_now w) (hd_tool_name d) (hw_phase w rt)
              in ((enc_output r, 0, False), put_phase w rt p))
           else
             ((JObj [], 0, False),
              put_phase w (hw_root w) (ProcessReadTracker (hw_now w) (hd_tool_name d) (the_input d) (hw_phase w (hw_root w))))))"

definition dispatchStopAudit :: "stdin \<Rightarrow> hook_world \<Rightarrow> hook_result" where
  "dispatchStopAudit inp w =
     (case parseHookInput inp of None \<Rightarrow> ((handleErrorResult, 0, True), w)
      | Some raw \<Rightarrow>
        (case decode_hook [''stop_hook_active''] raw of None \<Rightarrow> ((handleErrorResult, 0, True), w)
         | Some d \<Rightarrow>
           (let (r, p) = ProcessStopAudit (hw_now w) (hd_stop_active d) (hw_phase w (hw_root w))
            in ((enc_stop r, 0, False), put_phase w (hw_root w) p))))"

definition unknown_hook :: "string \<Rightarrow> string" where
  "unknown_hook name = ''Unknown hook: '' @ name @
     ''. Valid hooks: user-prompt, post-tool-failure, post-tool-success, post-read (or read-tracker), phase-guard, phase-audit (or stop-audit), pre-commit (git only)''"

definition dispatchHook :: "string \<Rightarrow> stdin \<Rightarrow> hook_world \<Rightarrow> hook_result" where
  "dispatchHook hookName inp w =
     (if hookName = ''user-prompt'' then dispatchUserPrompt inp w
      else if hookName = ''post-tool-failure'' then dispatchToolFailure inp w
      else if hookName = ''post-tool-success'' then dispatchToolSuccess inp w
      else if hookName \<in> {''phase-guard'', ''post-read'', ''read-tracker''} then dispatchPhaseGuard inp hookName w
      else if hookName \<in> {''phase-audit'', ''stop-audit''} then dispatchStopAudit inp w
      else ((JObj [(''error'', JStr (unknown_hook hookName))], 1, True), w))"

text \<open>What goes to standard output: the banner of the git hook, or the JSON of the result on a line.\<close>

datatype hook_output = NoOutput | Banner | OutLine string

definition runHookCore :: "string \<Rightarrow> stdin \<Rightarrow> hook_world \<Rightarrow> (hook_output \<times> nat \<times> bool) \<times> hook_world" where
  "runHookCore hookName inp w =
     (if hookName = [] then ((NoOutput, 1, True), w)
      else if hookName = ''pre-commit'' then ((Banner, 0, False), w)
      else let ((result, code, err), w') = dispatchHook hookName inp w
           in ((OutLine (marshal result @ [CHR 0x0A]), code, err), w'))"

text \<open>The event logged after a hook, and the pruning when the table has grown too large.\<close>

definition RunHookWithTelemetry ::
    "bool \<Rightarrow> string \<Rightarrow> int \<Rightarrow> string \<Rightarrow> stdin \<Rightarrow> hook_world \<Rightarrow> tele_table \<Rightarrow> (hook_output \<times> nat) \<times> hook_world \<times> tele_table" where
  "RunHookWithTelemetry log_fails ts durationMs hookName inp w t =
     (let ((out, code, hadError), w1) = runHookCore hookName inp w;
          outcome = (if code \<noteq> 0 \<or> hadError then OutcomeError else OutcomeSuccess);
          (st, p) = GetPhaseState (hw_now w1) (hw_phase w1 (hw_root w1));
          ev = \<lparr>ev_EventType = EventHookExecution, ev_HookName = hookName,
                ev_Phase = (case st of None \<Rightarrow> [] | Some s \<Rightarrow> CurrentPhase s), ev_DurationMs = durationMs,
                ev_Outcome = outcome, ev_QueryHash = [], ev_Metadata = None\<rparr>;
          (_, t1) = LogEvent log_fails ts t ev;
          t2 = (if int (length (tt_rows t1)) > MaxRows then snd (PruneEvents t1 MaxRows) else t1)
      in ((out, code), put_phase w1 (hw_root w1) p, t2))"

text \<open>The lesson search backed by the index, with its retrieval events; \<open>show_float\<close> prints a score.\<close>

definition makeLessonSearchFunc where
  "makeLessonSearchFunc fts order_by sha256 show_float log_fails ts hookName db t tokens limit =
     (case SearchKeywordScoredORContext fts order_by db tokens (int limit) TypeLesson of None \<Rightarrow> (None, t)
      | Some scored \<Rightarrow>
          (let qh = HashQuery sha256 (join '' '' tokens);
               t1 = foldl (\<lambda>t s. snd (LogEvent log_fails ts t
                     \<lparr>ev_EventType = EventLessonRetrieval, ev_HookName = hookName, ev_Phase = [], ev_DurationMs = 0,
                      ev_Outcome = OutcomeSuccess, ev_QueryHash = qh,
                      ev_Metadata = Some (JObj [(''lesson_id'', JStr (ID (sr_Item s))), (''score'', JNum (show_float (sr_Score s)))])\<rparr>))
                   t scored
           in (Some (map (\<lambda>s. \<lparr>lm_Trigger = Trigger (sr_Item s), lm_Insight = Insight (sr_Item s), lm_Score = sr_Score s\<rparr>) scored), t1)))"

end
