(* ===== verification/HookProps.thy ===== *)
theory HookProps
  imports Hook
begin

section \<open>Hooks never block, and failures are counted\<close>

text \<open>
  The failure tracker gives its tip at every third failure of a streak; the dispatcher answers every Claude
  Code hook with exit code 0 and one JSON object, whatever arrives on standard input; search
  tokens stay within their bound.
\<close>

subsection \<open>The failure state\<close>

definition failure_ok :: "failure_state \<Rightarrow> bool" where
  "failure_ok st \<longleftrightarrow> int64 (Count st) \<and> valid_utf8 (LastTarget st) \<and> int64 (SameTargetCount st) \<and> int64 (Timestamp st)"

lemma dec_int_j_int [simp]: "int64 i \<Longrightarrow> dec_int old (j_int i) = Some i"
  by (simp add: dec_int_def j_int_def int64_def atoi_show_int)

lemma read_written_failure:
  assumes "failure_ok st"
  shows "readFailureState now (Some (marshal (enc_failure st))) =
    (if wrap64 (now - Timestamp st) > stateMaxAge then failure_state0\<lparr>Timestamp := now\<rparr> else st)"
proof -
  have "wf_json (enc_failure st)" "jdepth (enc_failure st) \<le> max_depth"
    using assms by (simp_all add: enc_failure_def failure_ok_def valid_utf8_lit byte_in_def j_int_def max_depth_def num_ok_show_int)
  then have "json_parse (marshal (enc_failure st)) = Some (enc_failure st)" by (rule parse_marshal)
  moreover have "dec_obj failure_field failure_state0 (enc_failure st) = Some st"
    using assms by (cases st) (simp add: enc_failure_def dec_obj_def failure_field_def canon_key_exact failure_ok_def)
  ultimately show ?thesis by (simp add: readFailureState_def Let_def)
qed

lemma wrap64_id: "int64 i \<Longrightarrow> wrap64 i = i"
  by (simp add: wrap64_def int64_def)

text \<open>A tool call that failed: the clock, the tool, its input and its output.\<close>

type_synonym failure = "int \<times> string \<times> (string, json) gomap \<times> string"

fun run_failures :: "lesson_search option \<Rightarrow> string option \<Rightarrow> failure list \<Rightarrow> bool list" where
  "run_failures fn file [] = []"
| "run_failures fn file ((now, tool, inp, out) # es) =
     (let (r, f) = ProcessToolFailureWithSearch now True tool inp out fn file
      in (r \<noteq> None) # run_failures fn f es)"

text \<open>A streak: each failure within an hour of the one before, on clocks a 64-bit int holds.\<close>

fun streak :: "int \<Rightarrow> failure list \<Rightarrow> bool" where
  "streak t [] = True"
| "streak t ((now, tool, inp, out) # es) \<longleftrightarrow>
     t \<le> now \<and> now - t \<le> stateMaxAge \<and> 0 \<le> now \<and> now < 2 ^ 62 \<and>
     valid_utf8 (getFailureTarget tool inp) \<and> streak now es"

definition counted :: "int \<Rightarrow> int \<Rightarrow> string option \<Rightarrow> bool" where
  "counted t c file \<longleftrightarrow>
     (c = 0 \<and> file = None) \<or>
     (c \<in> {1, 2} \<and> (\<exists>st. file = Some (marshal (enc_failure st)) \<and> failure_ok st \<and> Count st = c \<and>
        1 \<le> SameTargetCount st \<and> SameTargetCount st \<le> c \<and> Timestamp st = t))"

lemma failure_step:
  assumes "counted t c file" and "t \<le> now" "now - t \<le> stateMaxAge" "0 \<le> t" "now < 2 ^ 62"
    and "valid_utf8 (getFailureTarget tool inp)"
  shows "case ProcessToolFailureWithSearch now True tool inp out fn file of
    (r, f) \<Rightarrow> (r \<noteq> None \<longleftrightarrow> c = 2) \<and> counted now ((c + 1) mod 3) f"
proof -
  let ?tg = "getFailureTarget tool inp"
  obtain st where st: "readFailureState now file = st" "Count st = c" "SameTargetCount st \<le> c" "failure_ok st"
    "0 \<le> SameTargetCount st"
  proof (cases "c = 0")
    case True
    then have "readFailureState now file = failure_state0\<lparr>Timestamp := now\<rparr>"
      using assms(1) by (auto simp: counted_def readFailureState_def Let_def)
    with True show thesis using assms(2-5) that by (simp add: failure_ok_def failure_state0_def int64_def)
  next
    case False
    then obtain st where s: "file = Some (marshal (enc_failure st))" "failure_ok st" "Count st = c" "Timestamp st = t"
      "1 \<le> SameTargetCount st" "SameTargetCount st \<le> c"
      using assms(1) by (auto simp: counted_def)
    have "wrap64 (now - t) = now - t" using assms(2-5) by (intro wrap64_id) (simp add: int64_def stateMaxAge_def)
    with s assms(3) have "readFailureState now file = st" by (simp add: read_written_failure)
    with s show thesis by (intro that) auto
  qed
  have c: "c = 0 \<or> c = 1 \<or> c = 2" using assms(1) by (auto simp: counted_def)
  have w: "wrap64 (c + 1) = c + 1" using c by (auto simp: wrap64_def)
  define same where "same = (if ?tg \<noteq> [] \<and> ?tg = LastTarget st then SameTargetCount st + 1 else 1)"
  have ws: "wrap64 (SameTargetCount st + 1) = SameTargetCount st + 1"
    using st(3,4) c by (intro wrap64_id) (auto simp: int64_def failure_ok_def)
  have same: "same \<le> c + 1" "int64 same" "1 \<le> same" "c = 0 \<longrightarrow> same \<le> 1"
    using st(3,4,5) c by (auto simp: same_def failure_ok_def int64_def)
  define new where "new = st\<lparr>Count := c + 1, LastTarget := ?tg, SameTargetCount := same, Timestamp := now\<rparr>"
  have p: "ProcessToolFailureWithSearch now True tool inp out fn file =
    (if c = 2 then (Some \<lparr>HookEventName = ''PostToolUseFailure'', AdditionalContext = buildFailureTip tool ?tg out fn\<rparr>, None)
     else (None, Some (marshal (enc_failure new))))"
    using c same(1) st(1,2) w ws
    by (cases st) (auto simp: ProcessToolFailureWithSearch_def Let_def sameTargetThreshold_def totalFailureThreshold_def
        deleteFailureState_def writeFailureState_def new_def same_def)
  have "failure_ok new" using st(4) same(2) c assms(2-6) by (auto simp: new_def failure_ok_def int64_def)
  moreover have "Count new = c + 1" "SameTargetCount new = same" "Timestamp new = now" by (simp_all add: new_def)
  ultimately show ?thesis
    unfolding p using c same by (auto simp: counted_def)
qed

text \<open>C9: The failure tip comes at every third failure: in a streak of failed tool calls, each within an hour of
  the one before, starting without a state file, calls 3, 6, 9 and so on inject the tip and no other does,
  whichever tools and targets fail; so the threshold for the same target never decides.\<close>

theorem ProcessToolFailure_every_third:
  assumes "streak t es" and "0 \<le> t"
  shows "run_failures fn None es = map (\<lambda>i. i mod 3 = 2) [0..<length es]"
proof -
  have "run_failures fn fl es = map (\<lambda>i. (nat c + i) mod 3 = 2) [0..<length es]"
    if "streak t es" "0 \<le> t" "counted t c fl" for t c fl
    using that
  proof (induction es arbitrary: t c fl)
    case Nil
    then show ?case by simp
  next
    case (Cons e es)
    obtain now tool inp out where e: "e = (now, tool, inp, out)" by (cases e) auto
    obtain r f where p: "ProcessToolFailureWithSearch now True tool inp out fn fl = (r, f)" by fastforce
    from Cons.prems e have s: "t \<le> now" "now - t \<le> stateMaxAge" "0 \<le> now" "now < 2 ^ 62"
      "valid_utf8 (getFailureTarget tool inp)" "streak now es" by simp_all
    from failure_step [OF Cons.prems(3) s(1,2) Cons.prems(2) s(4,5), of out fn] p
    have r: "r \<noteq> None \<longleftrightarrow> c = 2" and f: "counted now ((c + 1) mod 3) f" by simp_all
    have c: "c = 0 \<or> c = 1 \<or> c = 2" using Cons.prems(3) by (auto simp: counted_def)
    have "run_failures fn f es = map (\<lambda>i. (nat ((c + 1) mod 3) + i) mod 3 = 2) [0..<length es]"
      by (rule Cons.IH [OF s(6,3) f])
    moreover have "(nat ((c + 1) mod 3) + i) mod 3 = (nat c + Suc i) mod 3" for i using c by auto
    moreover have "map g [0..<Suc n] = g 0 # map (\<lambda>i. g (Suc i)) [0..<n]" for g :: "nat \<Rightarrow> bool" and n
      by (simp add: upt_rec [of 0 "Suc n"] map_Suc_upt [symmetric] del: upt_Suc)
    ultimately show ?case using r c p by (auto simp: e simp del: upt_Suc)
  qed
  from this [OF assms, of 0 None] show ?thesis by (simp add: counted_def)
qed

theorem ProcessToolFailure_every_third_witness:
  "run_failures None None [(1000, ''Bash'', [(''command'', JStr ''go test'')], []), (2000, ''Edit'', [], []), (3000, ''Read'', [], [])]
     = [False, False, True]"
proof -
  have "streak 0 [(1000, ''Bash'', [(''command'', JStr ''go test'')], []), (2000, ''Edit'', [], []), (3000, ''Read'', [], [])]"
    by (simp add: stateMaxAge_def) code_simp
  from ProcessToolFailure_every_third [OF this, of None] show ?thesis by (simp add: upt_rec)
qed

subsection \<open>Search tokens\<close>

lemma collect_tokens_bound:
  "length tokens < maxQueryTokens \<Longrightarrow> length (collect_tokens tokens ws) \<le> maxQueryTokens"
  by (induction tokens ws rule: collect_tokens.induct) (auto simp: Let_def)

lemma collect_tokens_new:
  "t \<in> set (collect_tokens tokens ws) \<Longrightarrow> t \<in> set tokens \<or> 2 \<le> length t \<and> to_lower t \<notin> set stopWords"
proof (induction tokens ws rule: collect_tokens.induct)
  case (2 tokens word ws)
  let ?c = "trim_both token_cutset word"
  show ?case
  proof (cases "length ?c < 2 \<or> to_lower ?c \<in> set stopWords")
    case True
    with "2.prems" have "t \<in> set (collect_tokens tokens ws)" by (simp add: Let_def)
    with "2.IH"(1) [OF refl True] show ?thesis by blast
  next
    case False
    show ?thesis
    proof (cases "maxQueryTokens \<le> length (tokens @ [?c])")
      case True
      with False "2.prems" show ?thesis by (auto simp: Let_def)
    next
      case full: False
      with False "2.prems" have "t \<in> set (collect_tokens (tokens @ [?c]) ws)" by (simp add: Let_def)
      with "2.IH"(2) [OF refl False refl full] False show ?thesis by auto
    qed
  qed
qed simp

text \<open>The query built from a failure is short and meaningful: it has at most five tokens, at least one when the
  tool has a name, and every token but the target and the tool name has two bytes or more and is no stop word.\<close>

theorem BuildSearchTokens_bounded:
  "length (BuildSearchTokens toolName target toolOutput) \<le> maxQueryTokens \<and>
   (toolName = [] \<or> BuildSearchTokens toolName target toolOutput \<noteq> []) \<and>
   (\<forall>t \<in> set (BuildSearchTokens toolName target toolOutput) - {target, toolName}. 2 \<le> length t \<and> to_lower t \<notin> set stopWords)"
proof -
  let ?t0 = "if target \<noteq> [] then [target] else []"
  have "length ?t0 < maxQueryTokens" by (simp add: maxQueryTokens_def)
  from collect_tokens_bound [OF this] have "length (BuildSearchTokens toolName target toolOutput) \<le> maxQueryTokens"
    by (simp add: BuildSearchTokens_def Let_def maxQueryTokens_def)
  moreover have "2 \<le> length t \<and> to_lower t \<notin> set stopWords"
    if "t \<in> set (BuildSearchTokens toolName target toolOutput)" "t \<noteq> target" "t \<noteq> toolName" for t
    using that collect_tokens_new [of t ?t0] by (auto simp: BuildSearchTokens_def Let_def split: if_splits)
  ultimately show ?thesis by (auto simp: BuildSearchTokens_def Let_def)
qed

theorem BuildSearchTokens_bounded_witness:
  "length (BuildSearchTokens ''Bash'' ''go'' ''undefined: Foo'') \<le> 5"
  using BuildSearchTokens_bounded [of "''Bash''" "''go''" "''undefined: Foo''"] by (simp add: maxQueryTokens_def)

subsection \<open>Dispatch\<close>

definition claude_hooks :: "string list" where
  "claude_hooks = [''user-prompt'', ''post-tool-failure'', ''post-tool-success'', ''phase-guard'', ''post-read'',
     ''read-tracker'', ''phase-audit'', ''stop-audit'']"

lemmas dispatch_defs = dispatchUserPrompt_def dispatchToolFailure_def dispatchToolSuccess_def dispatchPhaseGuard_def
  dispatchStopAudit_def handleErrorResult_def

lemma handler_code:
  "fst (snd (fst (dispatchUserPrompt inp w))) = 0" "fst (snd (fst (dispatchToolFailure inp w))) = 0"
  "fst (snd (fst (dispatchToolSuccess inp w))) = 0" "fst (snd (fst (dispatchPhaseGuard inp h w))) = 0"
  "fst (snd (fst (dispatchStopAudit inp w))) = 0"
  by (simp_all add: dispatch_defs Let_def split: option.split prod.split)

lemma handler_unreadable:
  assumes "parseHookInput inp = None"
  shows "dispatchUserPrompt inp w = ((JObj [], 0, True), w)" "dispatchToolFailure inp w = ((JObj [], 0, True), w)"
    "dispatchToolSuccess inp w = ((JObj [], 0, True), w)" "dispatchPhaseGuard inp h w = ((JObj [], 0, True), w)"
    "dispatchStopAudit inp w = ((JObj [], 0, True), w)"
  using assms by (simp_all add: dispatch_defs)

lemma handler_malformed:
  assumes "parseHookInput inp = Some raw" and "json_parse raw = None"
  shows "dispatchUserPrompt inp w = ((JObj [], 0, True), w)" "dispatchToolFailure inp w = ((JObj [], 0, True), w)"
    "dispatchPhaseGuard inp h w = ((JObj [], 0, True), w)" "dispatchStopAudit inp w = ((JObj [], 0, True), w)"
  using assms by (simp_all add: dispatch_defs decode_hook_def)

lemma dispatchHook_names:
  "dispatchHook ''user-prompt'' inp w = dispatchUserPrompt inp w"
  "dispatchHook ''post-tool-failure'' inp w = dispatchToolFailure inp w"
  "dispatchHook ''post-tool-success'' inp w = dispatchToolSuccess inp w"
  "dispatchHook ''phase-guard'' inp w = dispatchPhaseGuard inp ''phase-guard'' w"
  "dispatchHook ''post-read'' inp w = dispatchPhaseGuard inp ''post-read'' w"
  "dispatchHook ''read-tracker'' inp w = dispatchPhaseGuard inp ''read-tracker'' w"
  "dispatchHook ''phase-audit'' inp w = dispatchStopAudit inp w"
  "dispatchHook ''stop-audit'' inp w = dispatchStopAudit inp w"
  by (simp_all add: dispatchHook_def)

lemma claude_hook_iff:
  "h \<in> set claude_hooks \<longleftrightarrow> h = ''user-prompt'' \<or> h = ''post-tool-failure'' \<or> h = ''post-tool-success'' \<or>
     h = ''phase-guard'' \<or> h = ''post-read'' \<or> h = ''read-tracker'' \<or> h = ''phase-audit'' \<or> h = ''stop-audit''"
  unfolding claude_hooks_def list.set by (simp only: insert_iff empty_iff simp_thms)

lemma dispatch_code: "h \<in> set claude_hooks \<Longrightarrow> fst (snd (fst (dispatchHook h inp w))) = 0"
  unfolding claude_hook_iff by (elim disjE; hypsubst; simp only: dispatchHook_names handler_code)

lemma dispatch_unusable:
  assumes "h \<in> set claude_hooks"
    and "case parseHookInput inp of None \<Rightarrow> True | Some raw \<Rightarrow> h \<noteq> ''post-tool-success'' \<and> json_parse raw = None"
  shows "dispatchHook h inp w = ((JObj [], 0, True), w)"
proof (cases "parseHookInput inp")
  case None
  from assms(1) show ?thesis
    unfolding claude_hook_iff by (elim disjE; hypsubst; simp only: dispatchHook_names handler_unreadable [OF None])
next
  case (Some raw)
  with assms(2) have m: "h \<noteq> ''post-tool-success''" "json_parse raw = None" by simp_all
  from assms(1) m(1) show ?thesis
    unfolding claude_hook_iff
    by (elim disjE; hypsubst; simp only: dispatchHook_names handler_malformed [OF Some m(2)] not_True_eq_False simp_thms)
qed

text \<open>C10: Hooks degrade gracefully: each Claude Code hook exits with 0 and prints one JSON value on a line whatever
  arrives on standard input and whatever state it finds; input that cannot be read, is longer than 1 MiB or is
  not JSON yields the empty object, reports an internal error to telemetry and changes no state. (The hook after
  a successful tool call does not parse its input.)\<close>

theorem runHookCore_degrades:
  assumes "hookName \<in> set claude_hooks"
  shows "\<exists>v err w'. runHookCore hookName inp w = ((OutLine (marshal v @ [CHR 0x0A]), 0, err), w') \<and>
    ((case parseHookInput inp of None \<Rightarrow> True | Some raw \<Rightarrow> hookName \<noteq> ''post-tool-success'' \<and> json_parse raw = None) \<longrightarrow>
       v = JObj [] \<and> err \<and> w' = w)"
proof -
  have n: "hookName \<noteq> []" "hookName \<noteq> ''pre-commit''" using assms by (auto simp: claude_hooks_def)
  obtain v code err w' where d: "dispatchHook hookName inp w = ((v, code, err), w')"
    by (cases "dispatchHook hookName inp w") auto
  have "code = 0" using dispatch_code [OF assms, of inp w] d by simp
  then have r: "runHookCore hookName inp w = ((OutLine (marshal v @ [CHR 0x0A]), 0, err), w')"
    using n d by (simp add: runHookCore_def)
  have "v = JObj [] \<and> err \<and> w' = w"
    if "case parseHookInput inp of None \<Rightarrow> True | Some raw \<Rightarrow> hookName \<noteq> ''post-tool-success'' \<and> json_parse raw = None"
    using dispatch_unusable [OF assms that, of w] d by simp
  with r show ?thesis by blast
qed

definition sample_world :: hook_world where
  "sample_world = \<lparr>hw_root = ''/r'', hw_env_root = False, hw_has_dir = (\<lambda>_. False),
     hw_phase = (\<lambda>_. \<lparr>p_file = None, p_legacy = None, p_writable = True\<rparr>), hw_failure = None, hw_writable = True,
     hw_now = 0, hw_search = (\<lambda>_ _. None)\<rparr>"

theorem runHookCore_degrades_witness:
  "runHookCore ''stop-audit'' StdinFails sample_world = ((OutLine (marshal (JObj []) @ [CHR 0x0A]), 0, True), sample_world)"
proof -
  have "''stop-audit'' \<in> set claude_hooks" by (simp add: claude_hooks_def)
  from runHookCore_degrades [OF this, of StdinFails sample_world] show ?thesis
    by (auto simp: parseHookInput_def ReadStdinFrom_def)
qed

end
