(* ===== verification/Capture.thy ===== *)
theory Capture
  imports Hook Search
begin

section \<open>Package capture and the commands learn, capture and detect\<close>

text \<open>
  capture/triggers.go recognises a user correction, a self-correction and a test failure;
  capture/quality.go decides whether an insight is worth proposing; cli/commands_capture.go validates the
  flags, classifies an input file and saves the captured item with \<open>AppendItem\<close>. What a command
  takes from outside (the lessons file, the database, the embedder, the clock) is the record
  \<open>capture_world\<close>; a command returns its error or its output and the new world. The
  command-line parser is not part of the model: the parsed flags are arguments, and a flag whose presence
  matters is an option.
\<close>

subsection \<open>Triggers (capture/triggers.go)\<close>

record correction_signal =
  cs_Messages :: "string list"
  cs_Context :: item_context

record detected_correction =
  dc_Trigger :: string
  CorrectionMessage :: string
  dc_Context :: item_context

record edit_entry =
  ee_File :: string
  ee_Success :: bool
  ee_Timestamp :: int

type_synonym edit_history = "edit_entry list"

record detected_self_correction =
  ds_File :: string
  ds_Trigger :: string

record test_result =
  Passed :: bool
  Output :: string
  TestFile :: string

record detected_test_failure =
  dt_TestFile :: string
  ErrorOutput :: string
  dt_Trigger :: string

definition userCorrectionPatterns :: "re list" where
  "userCorrectionPatterns =
     [seqs [RBound, lit_i ''no'', RBound, ROpt (RCls (CRanges [(44, 44), (46, 46)])), re_s],
      word_re ''wrong'', word_re ''actually'', word_re ''not that'', word_re ''i meant'']"

definition DetectUserCorrection :: "correction_signal \<Rightarrow> detected_correction option" where
  "DetectUserCorrection signals =
     (if length (cs_Messages signals) < 2 then None
      else map_option (\<lambda>msg. \<lparr>dc_Trigger = ''User correction during '' @ Intent (cs_Context signals),
                              CorrectionMessage = msg, dc_Context = cs_Context signals\<rparr>)
             (List.find (\<lambda>msg. msg \<noteq> [] \<and> match_any userCorrectionPatterns msg) (drop 1 (cs_Messages signals))))"

fun find_fail_retry :: "edit_history \<Rightarrow> detected_self_correction option" where
  "find_fail_retry (a # b # c # es) =
     (if ee_File a = ee_File b \<and> ee_File b = ee_File c \<and> ee_Success a \<and> \<not> ee_Success b \<and> ee_Success c
      then Some \<lparr>ds_File = ee_File a, ds_Trigger = ''Self-correction on '' @ ee_File a\<rparr>
      else find_fail_retry (b # c # es))"
| "find_fail_retry _ = None"

definition DetectSelfCorrection :: "edit_history \<Rightarrow> detected_self_correction option" where
  "DetectSelfCorrection edits = (if length edits < 3 then None else find_fail_retry edits)"

definition errorLinePattern :: re where
  "errorLinePattern = alts [lit_i ''error'', lit_i ''fail'', lit_i ''assert'']"

definition DetectTestFailure :: "test_result \<Rightarrow> detected_test_failure option" where
  "DetectTestFailure result =
     (if Passed result then None
      else
        let lines = filter (\<lambda>l. trim_space l \<noteq> []) (split_on (CHR 0x0A) (Output result));
            found = (case List.find (match_string errorLinePattern) lines of None \<Rightarrow> [] | Some l \<Rightarrow> l);
            errorLine = (if found = [] \<and> lines \<noteq> [] then hd lines else found);
            errorLine = (if length errorLine > 100 then take 100 errorLine else errorLine)
        in Some \<lparr>dt_TestFile = TestFile result, ErrorOutput = Output result,
                  dt_Trigger = ''Test failure in '' @ TestFile result @ '': '' @ errorLine\<rparr>)"

definition use_instead_of :: re where
  "use_instead_of = seqs [RBound, lit_i ''use'', re_sp, re_any, re_sp, lit_i ''instead'', re_sp, lit_i ''of'', RBound]"

definition prefer_over :: re where
  "prefer_over = seqs [RBound, lit_i ''prefer'', re_sp, re_any, re_sp, RGroup 1 (alts [lit_i ''over'', lit_i ''to'']), RBound]"

definition patternIndicators :: "re list" where
  "patternIndicators = [use_instead_of, prefer_over]"

definition solutionIndicators :: "re list" where
  "solutionIndicators =
     [seqs [RBound, lit_i ''when'', re_sp, re_any, RLit '','', re_s],
      seqs [RBound, lit_i ''if'', re_sp, re_any, RBound, lit_i ''then'', RBound],
      seqs [RBound, lit_i ''if'', re_sp, re_any, RLit '','', re_s],
      seqs [RBound, lit_i ''to'', re_sp, lit_i ''fix'', RBound]]"

definition preferenceIndicators :: "re list" where
  "preferenceIndicators =
     [seqs [RBound, lit_i ''always'', re_sp], seqs [RBound, lit_i ''never'', re_sp]]"

definition InferItemType :: "string \<Rightarrow> string" where
  "InferItemType insight =
     (if match_any patternIndicators insight then TypePattern
      else if match_any solutionIndicators insight then TypeSolution
      else if match_any preferenceIndicators insight then TypePreference
      else TypeLesson)"

subsection \<open>Quality gates (capture/quality.go)\<close>

definition DuplicateThreshold :: real where "DuplicateThreshold = 0.98"
definition minWordCount :: nat where "minWordCount = 4"

record novelty_result =
  Novel :: bool
  nv_Reason :: string
  ExistingID :: string

definition novel0 :: novelty_result where
  "novel0 = \<lparr>Novel = True, nv_Reason = [], ExistingID = []\<rparr>"

definition vaguePatterns :: "re list" where
  "vaguePatterns =
     map word_re [''write better'', ''be careful'', ''remember to'', ''make sure'', ''try to'', ''double check'']"

definition re_word :: re where "re_word = RPlus True (RCls CWord)"

definition genericImperativePattern :: re where
  "genericImperativePattern =
     seqs [RBegin, RGroup 1 (alts [lit_i ''always'', lit_i ''never'']), re_sp, re_word,
           ROpt (RGroup 2 (RSeq re_sp re_word)), ROpt (RGroup 2 (RSeq re_sp re_word)), REnd]"

definition actionPatterns :: "re list" where
  "actionPatterns =
     [use_instead_of, prefer_over,
      seqs [RBound, lit_i ''always'', re_sp, re_any, re_sp, lit_i ''when'', RBound],
      seqs [RBound, lit_i ''never'', re_sp, re_any, re_sp, lit_i ''without'', RBound],
      seqs [RBound, lit_i ''avoid'', re_sp, ROpt (RGroup 1 (seqs [lit_i ''using'', re_sp])), re_word],
      seqs [RBound, lit_i ''check'', re_sp, re_any, re_sp, lit_i ''before'', RBound],
      seqs [RBegin, RGroup 1 (alts (map lit_i [''run'', ''use'', ''add'', ''remove'', ''install'', ''update'',
              ''configure'', ''set'', ''enable'', ''disable''])), re_sp]]"

definition isSpecific :: "string \<Rightarrow> bool \<times> string" where
  "isSpecific insight =
     (let words = go_fields (trim_space insight)
      in if length words < minWordCount then (False, ''Insight is too short to be actionable'')
         else if match_any vaguePatterns insight then (False, ''Insight matches a vague pattern'')
         else if match_string genericImperativePattern insight then (False, ''Insight matches a vague pattern'')
         else (True, []))"

definition isActionable :: "string \<Rightarrow> bool \<times> string" where
  "isActionable insight =
     (if match_any actionPatterns insight then (True, []) else (False, ''Insight lacks clear action guidance''))"

record capture_world =
  cw_env :: search_env
  cw_sort :: "(scored_item \<Rightarrow> scored_item \<Rightarrow> bool) \<Rightarrow> scored_item list \<Rightarrow> scored_item list"
  cw_writable :: bool                      \<comment> \<open>whether the embedding cache can be written\<close>
  cw_embedder :: "embedder option"         \<comment> \<open>\<open>getOrStartEmbedder\<close>\<close>
  cw_openable :: bool                      \<comment> \<open>whether \<open>OpenRepoDB\<close> succeeds\<close>
  cw_db :: lesson_db
  cw_readFails :: bool
  cw_lessons :: "string option"            \<comment> \<open>the lessons file\<close>
  cw_append :: append_fault
  cw_now :: datetime

text \<open>An error of the search falls back to novel; an index out of range panics.\<close>

definition isNovelWithDB :: "capture_world \<Rightarrow> string \<Rightarrow> embedder \<Rightarrow> real \<Rightarrow> novelty_result option \<times> capture_world" where
  "isNovelWithDB w insight emb threshold =
     (case FindSimilarLessons (cw_env w) (cw_sort w) (cw_writable w) emb (cw_readFails w) (cw_db w) insight threshold [] None of
        (Inl IndexPanic, db') \<Rightarrow> (None, w\<lparr>cw_db := db'\<rparr>)
      | (Inl _, db') \<Rightarrow> (Some novel0, w\<lparr>cw_db := db'\<rparr>)
      | (Inr [], db') \<Rightarrow> (Some novel0, w\<lparr>cw_db := db'\<rparr>)
      | (Inr (best # _), db') \<Rightarrow>
          (let text = Insight (si_Item best); long = 50 < length text
           in (Some \<lparr>Novel = False,
                 nv_Reason = ''Near-duplicate of existing lesson: '' @ [CHR 0x22] @ (if long then take 50 text else text) @
                   (if long then ''...'' else []) @ [CHR 0x22],
                 ExistingID = ID (si_Item best)\<rparr>, w\<lparr>cw_db := db'\<rparr>)))"

definition isNovel :: "capture_world \<Rightarrow> string \<Rightarrow> real \<Rightarrow> novelty_result option \<times> capture_world" where
  "isNovel w insight threshold =
     (case cw_embedder w of None \<Rightarrow> (Some novel0, w)
      | Some emb \<Rightarrow> if \<not> cw_openable w then (Some novel0, w) else isNovelWithDB w insight emb threshold)"

definition ShouldPropose :: "capture_world \<Rightarrow> string \<Rightarrow> (bool \<times> string) option \<times> capture_world" where
  "ShouldPropose w insight =
     (case isSpecific insight of
        (False, reason) \<Rightarrow> (Some (False, reason), w)
      | (True, _) \<Rightarrow>
          (case isActionable insight of
             (False, reason) \<Rightarrow> (Some (False, reason), w)
           | (True, _) \<Rightarrow>
               (case isNovel w insight DuplicateThreshold of
                  (None, w') \<Rightarrow> (None, w')
                | (Some n, w') \<Rightarrow> (Some (if Novel n then (True, []) else (False, nv_Reason n)), w'))))"

subsection \<open>The learn command (cli/commands_capture.go)\<close>

datatype capture_error =
    NoInsight
  | BadType string
  | PatternBadRequired
  | PatternGoodRequired
  | BadSeverity string
  | CommitWithoutCitation
  | CitationFormat string
  | CitationNumber string
  | CitationNotPositive int
  | NothingToCapture
  | ReadInput
  | ParseInput
  | InputRequired
  | SaveNeedsYes
  | WriteItem store_error
  | NoveltyPanic

type_synonym command_result = "(capture_error + string) \<times> capture_world"

definition nl :: string where "nl = [CHR 0x0A]"

record learn_opts =
  lo_trigger :: string
  lo_tags :: string
  lo_severity :: "string option"   \<comment> \<open>None when the flag is absent\<close>
  lo_citation :: string
  lo_citationCommit :: string
  lo_itemType :: string
  lo_patternBad :: string
  lo_patternGood :: string

definition learn_opts0 :: learn_opts where
  "learn_opts0 = \<lparr>lo_trigger = [], lo_tags = [], lo_severity = None, lo_citation = [], lo_citationCommit = [],
     lo_itemType = ''lesson'', lo_patternBad = [], lo_patternGood = []\<rparr>"

text \<open>\<open>strings.SplitN\<close> with two parts and a one-byte separator.\<close>

definition split_first :: "char \<Rightarrow> string \<Rightarrow> (string \<times> string) option" where
  "split_first c s =
     (if c \<in> set s then Some (takeWhile (\<lambda>x. x \<noteq> c) s, drop 1 (dropWhile (\<lambda>x. x \<noteq> c) s)) else None)"

definition parseCitation :: "string \<Rightarrow> string \<Rightarrow> capture_error + citation" where
  "parseCitation raw commit =
     (case split_first (CHR '':'') raw of None \<Rightarrow> Inl (CitationFormat raw)
      | Some (path, num) \<Rightarrow>
          (case atoi num of None \<Rightarrow> Inl (CitationNumber raw)
           | Some line \<Rightarrow>
               if line < 1 then Inl (CitationNotPositive line)
               else Inr \<lparr>File = path, Line = Some line, Commit = (if commit \<noteq> [] then Some commit else None)\<rparr>))"

text \<open>A result without elements is the nil slice.\<close>

definition dedupTags :: "string \<Rightarrow> string list option" where
  "dedupTags raw =
     (let tags = dedup_seen [] (filter (\<lambda>t. t \<noteq> []) (map trim_space (split_on (CHR '','') raw)))
      in if tags = [] then None else Some tags)"

definition parseTags :: "string \<Rightarrow> string list option" where
  "parseTags raw = (if raw = [] then Some [] else dedupTags raw)"

definition validateLearnInputs :: "learn_opts \<Rightarrow> capture_error + (string \<times> citation option)" where
  "validateLearnInputs opts =
     (let typ = lo_itemType opts in
      if typ \<notin> set validTypes then Inl (BadType typ)
      else if typ = TypePattern \<and> lo_patternBad opts = [] then Inl PatternBadRequired
      else if typ = TypePattern \<and> lo_patternGood opts = [] then Inl PatternGoodRequired
      else
        (case (case lo_severity opts of None \<Rightarrow> None
               | Some s \<Rightarrow> if s \<notin> set validSeverities then Some (BadSeverity s) else None) of
           Some e \<Rightarrow> Inl e
         | None \<Rightarrow>
             if lo_citation opts \<noteq> [] then
               (case parseCitation (lo_citation opts) (lo_citationCommit opts) of
                  Inl e \<Rightarrow> Inl e | Inr cit \<Rightarrow> Inr (typ, Some cit))
             else if lo_citationCommit opts \<noteq> [] then Inl CommitWithoutCitation
             else Inr (typ, None)))"

definition learned :: "string \<Rightarrow> string \<Rightarrow> string" where
  "learned insight i = ''Learned: '' @ insight @ nl @ ''  ID: '' @ i @ nl"

text \<open>The item that \<open>runLearn\<close> builds.\<close>

definition learn_item :: "capture_world \<Rightarrow> string \<Rightarrow> string \<Rightarrow> citation option \<Rightarrow> learn_opts \<Rightarrow> item" where
  "learn_item w insight typ cit opts =
     item0\<lparr>ID := GenerateID (env_sha256 (cw_env w)) insight typ, Type := typ,
       Trigger := (if lo_trigger opts = [] then ''Manual capture'' else lo_trigger opts),
       Insight := insight, Tags := parseTags (lo_tags opts), Source := ''manual'',
       Context := \<lparr>Tool = ''cli'', Intent = ''manual learning''\<rparr>,
       Created := format_rfc3339 (cw_now w), Confirmed := True, Supersedes := Some [], Related := Some [],
       Severity := lo_severity opts, Citation := cit,
       Pattern := (if typ = TypePattern then Some \<lparr>Bad = lo_patternBad opts, Good = lo_patternGood opts\<rparr> else None)\<rparr>"

definition save_item :: "capture_world \<Rightarrow> item \<Rightarrow> capture_error option \<times> capture_world" where
  "save_item w it =
     (case AppendItem (cw_append w) (cw_lessons w) it of
        (None, f') \<Rightarrow> (None, w\<lparr>cw_lessons := f'\<rparr>)
      | (Some e, f') \<Rightarrow> (Some (WriteItem e), w\<lparr>cw_lessons := f'\<rparr>))"

definition runLearn :: "capture_world \<Rightarrow> string list \<Rightarrow> learn_opts \<Rightarrow> command_result" where
  "runLearn w args opts =
     (let insight = join '' '' args in
      case validateLearnInputs opts of Inl e \<Rightarrow> (Inl e, w)
      | Inr (typ, cit) \<Rightarrow>
          (let it = learn_item w insight typ cit opts in
           case save_item w it of
             (Some e, w') \<Rightarrow> (Inl e, w')
           | (None, w') \<Rightarrow> (Inr (learned insight (ID it)), w')))"

definition learnCmd :: "capture_world \<Rightarrow> string list \<Rightarrow> learn_opts \<Rightarrow> command_result" where
  "learnCmd w args opts = (if args = [] then (Inl NoInsight, w) else runLearn w args opts)"

subsection \<open>Input files\<close>

record detect_input =
  di_Messages :: "string list option"
  di_Context :: item_context
  TestResult :: "test_result option"
  EditHistory :: "edit_history option"
  di_Insight :: string

definition detect_input0 :: detect_input where
  "detect_input0 = \<lparr>di_Messages = None, di_Context = context0, TestResult = None, EditHistory = None, di_Insight = []\<rparr>"

definition test_result0 :: test_result where
  "test_result0 = \<lparr>Passed = False, Output = [], TestFile = []\<rparr>"

definition edit_entry0 :: edit_entry where
  "edit_entry0 = \<lparr>ee_File = [], ee_Success = False, ee_Timestamp = 0\<rparr>"

definition test_field :: "test_result \<Rightarrow> string \<Rightarrow> json \<Rightarrow> test_result option" where
  "test_field t k v =
     (case canon_key [''Passed'', ''Output'', ''TestFile''] k of None \<Rightarrow> Some t
      | Some n \<Rightarrow>
          if n = ''Passed'' then map_option (\<lambda>b. t\<lparr>Passed := b\<rparr>) (dec_bool (Passed t) v)
          else if n = ''Output'' then map_option (\<lambda>s. t\<lparr>Output := s\<rparr>) (dec_str (Output t) v)
          else map_option (\<lambda>s. t\<lparr>TestFile := s\<rparr>) (dec_str (TestFile t) v))"

definition edit_field :: "edit_entry \<Rightarrow> string \<Rightarrow> json \<Rightarrow> edit_entry option" where
  "edit_field e k v =
     (case canon_key [''File'', ''Success'', ''Timestamp''] k of None \<Rightarrow> Some e
      | Some n \<Rightarrow>
          if n = ''File'' then map_option (\<lambda>s. e\<lparr>ee_File := s\<rparr>) (dec_str (ee_File e) v)
          else if n = ''Success'' then map_option (\<lambda>b. e\<lparr>ee_Success := b\<rparr>) (dec_bool (ee_Success e) v)
          else map_option (\<lambda>i. e\<lparr>ee_Timestamp := i\<rparr>) (dec_int (ee_Timestamp e) v))"

fun dec_edits :: "edit_entry list \<Rightarrow> json list \<Rightarrow> edit_entry list option" where
  "dec_edits old [] = Some []"
| "dec_edits old (v # vs) =
     (case dec_obj edit_field (case old of [] \<Rightarrow> edit_entry0 | o1 # _ \<Rightarrow> o1) v of None \<Rightarrow> None
      | Some e \<Rightarrow> map_option (\<lambda>es. e # es) (dec_edits (tl old) vs))"

text \<open>A nil slice of edits is the empty list here.\<close>

definition history_field :: "edit_history \<Rightarrow> string \<Rightarrow> json \<Rightarrow> edit_history option" where
  "history_field h k v =
     (case canon_key [''Edits''] k of None \<Rightarrow> Some h
      | Some _ \<Rightarrow> (case v of JNull \<Rightarrow> Some [] | JArr vs \<Rightarrow> dec_edits h vs | _ \<Rightarrow> None))"

definition input_field :: "detect_input \<Rightarrow> string \<Rightarrow> json \<Rightarrow> detect_input option" where
  "input_field i k v =
     (case canon_key [''messages'', ''context'', ''testResult'', ''editHistory'', ''insight''] k of None \<Rightarrow> Some i
      | Some n \<Rightarrow>
          if n = ''messages'' then map_option (\<lambda>x. i\<lparr>di_Messages := x\<rparr>) (dec_strs (di_Messages i) v)
          else if n = ''context'' then map_option (\<lambda>x. i\<lparr>di_Context := x\<rparr>) (dec_obj context_field (di_Context i) v)
          else if n = ''testResult'' then
            map_option (\<lambda>x. i\<lparr>TestResult := x\<rparr>) (dec_pobj test_field test_result0 (TestResult i) v)
          else if n = ''editHistory'' then
            map_option (\<lambda>x. i\<lparr>EditHistory := x\<rparr>) (dec_pobj history_field [] (EditHistory i) v)
          else map_option (\<lambda>x. i\<lparr>di_Insight := x\<rparr>) (dec_str (di_Insight i) v))"

definition decode_input :: "string \<Rightarrow> detect_input option" where
  "decode_input data = (case json_parse data of None \<Rightarrow> None | Some v \<Rightarrow> dec_obj input_field detect_input0 v)"

subsection \<open>Detection\<close>

text \<open>The first signal in order of priority: its trigger, insight and source.\<close>

definition the_messages :: "detect_input \<Rightarrow> string list" where
  "the_messages i = (case di_Messages i of None \<Rightarrow> [] | Some ms \<Rightarrow> ms)"

definition classifySignal :: "detect_input \<Rightarrow> string \<times> string \<times> string" where
  "classifySignal i =
     (case (if 2 \<le> length (the_messages i)
            then DetectUserCorrection \<lparr>cs_Messages = the_messages i, cs_Context = di_Context i\<rparr> else None) of
        Some d \<Rightarrow> (dc_Trigger d, CorrectionMessage d, ''user_correction'')
      | None \<Rightarrow>
        (case Option.bind (TestResult i) DetectTestFailure of
           Some d \<Rightarrow>
             (let ins = (if 200 < length (ErrorOutput d) then take 200 (ErrorOutput d) else ErrorOutput d)
              in (dt_Trigger d, if ins = [] then ''Test failure in '' @ dt_Trigger d else ins, ''test_failure''))
         | None \<Rightarrow>
           (case Option.bind (EditHistory i) DetectSelfCorrection of
              Some d \<Rightarrow> (ds_Trigger d, ''Self-correction detected on '' @ ds_File d, ''self_correction'')
            | None \<Rightarrow> ([], [], []))))"

record detect_result =
  Detected :: bool
  dr_Trigger :: string
  dr_Insight :: string
  dr_Source :: string
  dr_Type :: string
  dr_Reason :: string

definition detect_result0 :: detect_result where
  "detect_result0 = \<lparr>Detected = False, dr_Trigger = [], dr_Insight = [], dr_Source = [], dr_Type = [], dr_Reason = []\<rparr>"

definition detectAndPropose :: "capture_world \<Rightarrow> detect_input \<Rightarrow> (capture_error + detect_result) \<times> capture_world" where
  "detectAndPropose w i =
     (let (trigger, insight, source) = classifySignal i in
      if trigger = [] then (Inr detect_result0, w)
      else case ShouldPropose w insight of
          (None, w') \<Rightarrow> (Inl NoveltyPanic, w')
        | (Some (False, reason), w') \<Rightarrow> (Inr (detect_result0\<lparr>dr_Reason := reason\<rparr>), w')
        | (Some (True, _), w') \<Rightarrow>
            (Inr \<lparr>Detected = True, dr_Trigger = trigger, dr_Insight = insight, dr_Source = source,
                  dr_Type = InferItemType insight, dr_Reason = []\<rparr>, w'))"

text \<open>\<open>input\<close> is what reading the named file gives, None for an error.\<close>

definition detectFromFile :: "capture_world \<Rightarrow> string option \<Rightarrow> (capture_error + detect_result) \<times> capture_world" where
  "detectFromFile w input =
     (case input of None \<Rightarrow> (Inl ReadInput, w)
      | Some data \<Rightarrow> (case decode_input data of None \<Rightarrow> (Inl ParseInput, w) | Some i \<Rightarrow> detectAndPropose w i))"

subsection \<open>The capture and detect commands\<close>

definition buildCaptureItem :: "datetime \<Rightarrow> string \<Rightarrow> string \<Rightarrow> string \<Rightarrow> string \<Rightarrow> string \<Rightarrow> item" where
  "buildCaptureItem now i typ trigger insight source =
     item0\<lparr>ID := i, Type := typ, Trigger := trigger, Insight := insight, Tags := Some [], Source := source,
       Context := \<lparr>Tool = ''cli'', Intent = ''capture''\<rparr>, Created := format_rfc3339 now, Confirmed := True,
       Supersedes := Some [], Related := Some []\<rparr>"

definition result_item :: "capture_world \<Rightarrow> string \<Rightarrow> detect_result \<Rightarrow> item" where
  "result_item w i dr = buildCaptureItem (cw_now w) i (dr_Type dr) (dr_Trigger dr) (dr_Insight dr) (dr_Source dr)"

text \<open>\<open>input\<close> is None without the flag (or with an empty one), else what reading the file gives.\<close>

definition resolveCapture ::
    "capture_world \<Rightarrow> string option option \<Rightarrow> string \<Rightarrow> string \<Rightarrow> (capture_error + detect_result) \<times> capture_world" where
  "resolveCapture w input trigger insight =
     (case input of Some f \<Rightarrow> detectFromFile w f
      | None \<Rightarrow>
          if trigger = [] \<or> insight = [] then (Inl NothingToCapture, w)
          else (Inr \<lparr>Detected = True, dr_Trigger = trigger, dr_Insight = insight, dr_Source = ''manual'',
                     dr_Type = InferItemType insight, dr_Reason = []\<rparr>, w))"

definition saveIfConfirmed :: "capture_world \<Rightarrow> string \<Rightarrow> detect_result \<Rightarrow> bool \<Rightarrow> (capture_error + bool) \<times> capture_world" where
  "saveIfConfirmed w i dr yes =
     (if \<not> yes then (Inr False, w)
      else case save_item w (result_item w i dr) of
          (Some e, w') \<Rightarrow> (Inl e, w') | (None, w') \<Rightarrow> (Inr True, w'))"

text \<open>\<open>json.Marshal\<close> of a map writes its keys in order.\<close>

definition writeJSON :: "json \<Rightarrow> string" where
  "writeJSON v = marshal v @ nl"

definition outputNotDetected :: "string \<Rightarrow> bool \<Rightarrow> bool \<Rightarrow> string" where
  "outputNotDetected reason jsonOut includeSaved =
     (if jsonOut then
        writeJSON (JObj ([(''detected'', JBool False), (''reason'', JStr reason)] @
          (if includeSaved then [(''saved'', JBool False)] else [])))
      else if reason \<noteq> [] then ''Not captured: '' @ reason @ nl
      else ''No correction detected.'' @ nl)"

definition runCapture ::
    "capture_world \<Rightarrow> string \<Rightarrow> string \<Rightarrow> string option option \<Rightarrow> bool \<Rightarrow> bool \<Rightarrow> command_result" where
  "runCapture w trigger insight input jsonOut yes =
     (case resolveCapture w input trigger insight of
        (Inl e, w1) \<Rightarrow> (Inl e, w1)
      | (Inr dr, w1) \<Rightarrow>
          if \<not> Detected dr then (Inr (outputNotDetected (dr_Reason dr) jsonOut True), w1)
          else
            let i = GenerateID (env_sha256 (cw_env w1)) (dr_Insight dr) (dr_Type dr) in
            if jsonOut then
              (case saveIfConfirmed w1 i dr yes of
                 (Inl e, w2) \<Rightarrow> (Inl e, w2)
               | (Inr saved, w2) \<Rightarrow>
                   (Inr (writeJSON (JObj [(''id'', JStr i), (''insight'', JStr (dr_Insight dr)), (''saved'', JBool saved),
                      (''trigger'', JStr (dr_Trigger dr)), (''type'', JStr (dr_Type dr))])), w2))
            else if yes then
              (case save_item w1 (result_item w1 i dr) of
                 (Some e, w2) \<Rightarrow> (Inl e, w2)
               | (None, w2) \<Rightarrow> (Inr (learned (dr_Insight dr) i), w2))
            else (Inr (''Trigger: '' @ dr_Trigger dr @ nl @ ''Insight: '' @ dr_Insight dr @ nl @ ''Type:    '' @ dr_Type dr @ nl @
                    ''Source:  '' @ dr_Source dr @ nl @ nl @ ''To save: run with --yes flag'' @ nl), w1))"

definition detectResultJSON :: "string \<Rightarrow> detect_result \<Rightarrow> bool \<Rightarrow> json" where
  "detectResultJSON i dr saved = JObj
     ([(''detected'', JBool True), (''id'', JStr i), (''insight'', JStr (dr_Insight dr))] @
      (if saved then [(''saved'', JBool True)] else []) @
      [(''source'', JStr (dr_Source dr)), (''trigger'', JStr (dr_Trigger dr)), (''type'', JStr (dr_Type dr))])"

definition runDetectSave :: "capture_world \<Rightarrow> string \<Rightarrow> detect_result \<Rightarrow> bool \<Rightarrow> command_result" where
  "runDetectSave w i dr jsonOut =
     (case save_item w (result_item w i dr) of
        (Some e, w') \<Rightarrow> (Inl e, w')
      | (None, w') \<Rightarrow>
          (Inr (if jsonOut then writeJSON (detectResultJSON i dr True) else learned (dr_Insight dr) i), w'))"

definition outputDetectResult :: "string \<Rightarrow> detect_result \<Rightarrow> bool \<Rightarrow> string" where
  "outputDetectResult i dr jsonOut =
     (if jsonOut then writeJSON (detectResultJSON i dr False)
      else ''Source:   '' @ dr_Source dr @ nl @ ''Trigger:  '' @ dr_Trigger dr @ nl @ ''Insight:  '' @ dr_Insight dr @ nl @
        ''Type:     '' @ dr_Type dr @ nl @ ''ID:       '' @ i @ nl)"

definition runDetect :: "capture_world \<Rightarrow> string option \<Rightarrow> bool \<Rightarrow> bool \<Rightarrow> bool \<Rightarrow> command_result" where
  "runDetect w input save yes jsonOut =
     (case detectFromFile w input of
        (Inl e, w1) \<Rightarrow> (Inl e, w1)
      | (Inr dr, w1) \<Rightarrow>
          if \<not> Detected dr then (Inr (outputNotDetected (dr_Reason dr) jsonOut False), w1)
          else
            let i = GenerateID (env_sha256 (cw_env w1)) (dr_Insight dr) (dr_Type dr)
            in if save \<and> yes then runDetectSave w1 i dr jsonOut
               else (Inr (outputDetectResult i dr jsonOut), w1))"

definition detectCmd :: "capture_world \<Rightarrow> string option option \<Rightarrow> bool \<Rightarrow> bool \<Rightarrow> bool \<Rightarrow> command_result" where
  "detectCmd w input save yes jsonOut =
     (case input of None \<Rightarrow> (Inl InputRequired, w)
      | Some f \<Rightarrow> if save \<and> \<not> yes then (Inl SaveNeedsYes, w) else runDetect w f save yes jsonOut)"

end
