(* ===== verification/Crud.thy ===== *)
theory Crud
  imports Capture
begin

section \<open>The commands show, update, delete, wrong and validate (cli/commands_crud.go)\<close>

text \<open>
  Each command reads the lessons file, looks an item up by its ID and appends a changed copy of it: nothing is
  edited in place. The state is the lessons file with the faults that the appends of one command meet, in
  order. A command returns what it printed and its error. The messages that a command both prints
  and returns are values of \<open>crud_msg\<close>; the other output is text.
\<close>

subsection \<open>State and output\<close>

record crud_world =
  cr_lessons :: "string option"
  cr_openFails :: bool                \<comment> \<open>the lessons file exists but cannot be opened\<close>
  cr_faults :: "append_fault list"    \<comment> \<open>one for each append, none left: no fault\<close>
  cr_now :: datetime

datatype crud_msg =
    NotFound string
  | NotFoundDeleted string
  | IsDeleted string
  | NothingToUpdate
  | InvalidSeverityValue string
  | LessonNotFound string

datatype crud_error =
    ReadLessons store_error
  | WriteLesson store_error
  | WriteTombstone string store_error
  | Failed crud_msg
  | NothingDeleted

datatype printed = Print string | PrintErrorJSON crud_msg | PrintErr crud_msg

type_synonym crud_result = "(printed list \<times> crud_error option) \<times> crud_world"

definition cr_read :: "crud_world \<Rightarrow> store_error + ReadItemsResult" where
  "cr_read w = ReadItems (if cr_openFails w then OpenFails else open_file (cr_lessons w))"

definition cr_append :: "crud_world \<Rightarrow> item \<Rightarrow> store_error option \<times> crud_world" where
  "cr_append w it =
     (let fault = (case cr_faults w of [] \<Rightarrow> NoFault | f # _ \<Rightarrow> f); (e, f') = AppendItem fault (cr_lessons w) it
      in (e, w\<lparr>cr_lessons := f', cr_faults := tl (cr_faults w)\<rparr>))"

definition findItem :: "item list \<Rightarrow> string \<Rightarrow> item option" where
  "findItem items i = List.find (\<lambda>it. ID it = i) items"

definition was_deleted :: "ReadItemsResult \<Rightarrow> string \<Rightarrow> bool" where
  "was_deleted r i = (map_of (DeletedIDs r) i = Some True)"

definition reportError :: "crud_msg \<Rightarrow> bool \<Rightarrow> printed list \<times> crud_error option" where
  "reportError msg jsonOut = ([if jsonOut then PrintErrorJSON msg else PrintErr msg], Some (Failed msg))"

subsection \<open>Text of an item\<close>

definition formatSource :: "string \<Rightarrow> string" where
  "formatSource s = replace_char (CHR ''_'') '' '' s"

definition show_bool :: "bool \<Rightarrow> string" where
  "show_bool b = (if b then ''true'' else ''false'')"

definition opt_line :: "string \<Rightarrow> string option \<Rightarrow> string" where
  "opt_line label v = (case v of None \<Rightarrow> [] | Some s \<Rightarrow> label @ s @ nl)"

definition tag_list :: "item \<Rightarrow> string list" where
  "tag_list it = (case Tags it of None \<Rightarrow> [] | Some ts \<Rightarrow> ts)"

definition formatLessonDetailed :: "item \<Rightarrow> string" where
  "formatLessonDetailed it =
     ''ID:        '' @ ID it @ nl @ ''Type:      '' @ Type it @ nl @ ''Insight:   '' @ Insight it @ nl @
     ''Trigger:   '' @ Trigger it @ nl @ opt_line ''Evidence:  '' (Evidence it) @ opt_line ''Severity:  '' (Severity it) @
     ''Source:    '' @ formatSource (Source it) @ nl @
     (if tag_list it = [] then [] else ''Tags:      '' @ join '', '' (tag_list it) @ nl) @
     ''Confirmed: '' @ show_bool (Confirmed it) @ nl @ ''Created:   '' @ Created it @ nl @
     (if InvalidatedAt it = None then []
      else opt_line ''Invalidated: '' (InvalidatedAt it) @ opt_line ''Reason:    '' (InvalidationReason it))"

definition item_json :: "item \<Rightarrow> string" where
  "item_json it = marshal_indent (enc_item it) @ nl"

subsection \<open>show\<close>

definition showCmd :: "crud_world \<Rightarrow> string \<Rightarrow> bool \<Rightarrow> crud_result" where
  "showCmd w i jsonOut =
     (case cr_read w of Inl e \<Rightarrow> (([], Some (ReadLessons e)), w)
      | Inr result \<Rightarrow>
          (case findItem (Items result) i of
             None \<Rightarrow> (reportError (if was_deleted result i then NotFoundDeleted i else NotFound i) jsonOut, w)
           | Some it \<Rightarrow> (([Print (if jsonOut then item_json it else formatLessonDetailed it)], None), w)))"

subsection \<open>update\<close>

text \<open>A flag is None when it was not given.\<close>

record update_flags =
  uf_insight :: "string option"
  uf_trigger :: "string option"
  uf_evidence :: "string option"
  uf_severity :: "string option"
  uf_tags :: "string option"
  uf_confirmed :: "string option"
  uf_jsonOut :: bool

definition hasAnyUpdateFlag :: "update_flags \<Rightarrow> bool" where
  "hasAnyUpdateFlag f \<longleftrightarrow>
     list_ex (\<lambda>x. x \<noteq> None) [uf_insight f, uf_trigger f, uf_evidence f, uf_severity f, uf_tags f, uf_confirmed f]"

definition validateUpdateFlags :: "update_flags \<Rightarrow> crud_msg option" where
  "validateUpdateFlags f =
     (if \<not> hasAnyUpdateFlag f then Some NothingToUpdate
      else case uf_severity f of None \<Rightarrow> None
        | Some s \<Rightarrow> if s \<notin> set validSeverities then Some (InvalidSeverityValue s) else None)"

definition applyUpdateFlags :: "item \<Rightarrow> update_flags \<Rightarrow> item" where
  "applyUpdateFlags it f =
     it\<lparr>Insight := (case uf_insight f of None \<Rightarrow> Insight it | Some s \<Rightarrow> s),
        Trigger := (case uf_trigger f of None \<Rightarrow> Trigger it | Some s \<Rightarrow> s),
        Evidence := (case uf_evidence f of None \<Rightarrow> Evidence it | Some s \<Rightarrow> Some s),
        Severity := (case uf_severity f of None \<Rightarrow> Severity it | Some s \<Rightarrow> Some s),
        Tags := (case uf_tags f of None \<Rightarrow> Tags it | Some s \<Rightarrow> dedupTags s),
        Confirmed := (case uf_confirmed f of None \<Rightarrow> Confirmed it | Some s \<Rightarrow> s = ''true'')\<rparr>"

definition runUpdate :: "crud_world \<Rightarrow> string \<Rightarrow> update_flags \<Rightarrow> crud_result" where
  "runUpdate w i f =
     (case validateUpdateFlags f of Some msg \<Rightarrow> (reportError msg (uf_jsonOut f), w)
      | None \<Rightarrow>
        (case cr_read w of Inl e \<Rightarrow> (([], Some (ReadLessons e)), w)
         | Inr result \<Rightarrow>
           (case findItem (Items result) i of
              None \<Rightarrow> (reportError (if was_deleted result i then IsDeleted i else NotFound i) (uf_jsonOut f), w)
            | Some it \<Rightarrow>
                (let updated = applyUpdateFlags it f in
                 case cr_append w updated of
                   (Some e, w') \<Rightarrow> (([], Some (WriteLesson e)), w')
                 | (None, w') \<Rightarrow>
                     (([Print (if uf_jsonOut f then item_json updated else ''Updated lesson '' @ i @ nl)], None), w')))))"

subsection \<open>delete\<close>

record delete_warning =
  dw_ID :: string
  dw_Message :: string

definition writeDeleteTombstone :: "crud_world \<Rightarrow> item \<Rightarrow> string \<Rightarrow> store_error option \<times> crud_world" where
  "writeDeleteTombstone w it now = cr_append w (it\<lparr>Deleted := Some True, DeletedAt := Some now\<rparr>)"

text \<open>The map from IDs to items of the code is \<open>findItem\<close>: the items read have distinct IDs.\<close>

fun delete_ids :: "string \<Rightarrow> ReadItemsResult \<Rightarrow> crud_world \<Rightarrow> string list \<Rightarrow>
    (crud_error + string list \<times> delete_warning list) \<times> crud_world" where
  "delete_ids now r w [] = (Inr ([], []), w)"
| "delete_ids now r w (i # is) =
     (case findItem (Items r) i of
        None \<Rightarrow>
          (case delete_ids now r w is of
             (Inl e, w') \<Rightarrow> (Inl e, w')
           | (Inr (deleted, warnings), w') \<Rightarrow>
               (Inr (deleted, \<lparr>dw_ID = i, dw_Message = (if was_deleted r i then ''already deleted'' else ''not found'')\<rparr> # warnings), w'))
      | Some it \<Rightarrow>
          (case writeDeleteTombstone w it now of
             (Some e, w1) \<Rightarrow> (Inl (WriteTombstone i e), w1)
           | (None, w1) \<Rightarrow>
               (case delete_ids now r w1 is of
                  (Inl e, w') \<Rightarrow> (Inl e, w')
                | (Inr (deleted, warnings), w') \<Rightarrow> (Inr (i # deleted, warnings), w'))))"

definition processDeleteIDs :: "crud_world \<Rightarrow> string list \<Rightarrow> ReadItemsResult \<Rightarrow>
    (crud_error + string list \<times> delete_warning list) \<times> crud_world" where
  "processDeleteIDs w ids r = delete_ids (format_rfc3339 (cr_now w)) r w ids"

definition reportDeleteJSON :: "string list \<Rightarrow> delete_warning list \<Rightarrow> string" where
  "reportDeleteJSON deleted warnings =
     writeJSON (JObj [(''deleted'', JArr (map JStr deleted)),
       (''warnings'', JArr (map (\<lambda>w. JObj [(''id'', JStr (dw_ID w)), (''message'', JStr (dw_Message w))]) warnings))])"

definition reportDeleteText :: "string list \<Rightarrow> delete_warning list \<Rightarrow> string \<times> crud_error option" where
  "reportDeleteText deleted warnings =
     ((if deleted = [] then []
       else ''Deleted '' @ show_int (int (length deleted)) @ '' lesson(s): '' @ join '', '' deleted @ nl) @
      concat (map (\<lambda>w. ''[warn] '' @ dw_ID w @ '': '' @ dw_Message w @ nl) warnings),
      if deleted = [] \<and> warnings \<noteq> [] then Some NothingDeleted else None)"

definition reportDeleteResults :: "string list \<Rightarrow> delete_warning list \<Rightarrow> bool \<Rightarrow> printed list \<times> crud_error option" where
  "reportDeleteResults deleted warnings jsonOut =
     (if jsonOut then ([Print (reportDeleteJSON deleted warnings)], None)
      else case reportDeleteText deleted warnings of (text, e) \<Rightarrow> ([Print text], e))"

definition runDelete :: "crud_world \<Rightarrow> string list \<Rightarrow> bool \<Rightarrow> crud_result" where
  "runDelete w args jsonOut =
     (case cr_read w of Inl e \<Rightarrow> (([], Some (ReadLessons e)), w)
      | Inr result \<Rightarrow>
          (case processDeleteIDs w args result of
             (Inl e, w') \<Rightarrow> (([], Some e), w')
           | (Inr (deleted, warnings), w') \<Rightarrow> (reportDeleteResults deleted warnings jsonOut, w')))"

subsection \<open>wrong and validate\<close>

definition wrongCmd :: "crud_world \<Rightarrow> string \<Rightarrow> string option \<Rightarrow> crud_result" where
  "wrongCmd w i reason =
     (case cr_read w of Inl e \<Rightarrow> (([], Some (ReadLessons e)), w)
      | Inr result \<Rightarrow>
          (case findItem (Items result) i of
             None \<Rightarrow> (([PrintErr (LessonNotFound i)], Some (Failed (LessonNotFound i))), w)
           | Some it \<Rightarrow>
               if InvalidatedAt it \<noteq> None then (([Print (''Lesson '' @ i @ '' is already marked as invalid.'' @ nl)], None), w)
               else
                 let updated = it\<lparr>InvalidatedAt := Some (format_rfc3339 (cr_now w)),
                       InvalidationReason := (case reason of None \<Rightarrow> InvalidationReason it | Some s \<Rightarrow> Some s)\<rparr>
                 in case cr_append w updated of
                      (Some e, w') \<Rightarrow> (([], Some (WriteLesson e)), w')
                    | (None, w') \<Rightarrow>
                        (([Print (''Lesson '' @ i @ '' marked as invalid.'' @ nl)] @
                          (case reason of None \<Rightarrow> [] | Some s \<Rightarrow> [Print (''  Reason: '' @ s @ nl)]), None), w')))"

definition validateCmd :: "crud_world \<Rightarrow> string \<Rightarrow> crud_result" where
  "validateCmd w i =
     (case cr_read w of Inl e \<Rightarrow> (([], Some (ReadLessons e)), w)
      | Inr result \<Rightarrow>
          (case findItem (Items result) i of
             None \<Rightarrow> (([PrintErr (LessonNotFound i)], Some (Failed (LessonNotFound i))), w)
           | Some it \<Rightarrow>
               if InvalidatedAt it = None then (([Print (''Lesson '' @ i @ '' is not invalidated.'' @ nl)], None), w)
               else
                 case cr_append w (it\<lparr>InvalidatedAt := None, InvalidationReason := None\<rparr>) of
                   (Some e, w') \<Rightarrow> (([], Some (WriteLesson e)), w')
                 | (None, w') \<Rightarrow> (([Print (''Lesson '' @ i @ '' re-enabled (validated).'' @ nl)], None), w')))"

end
