(* ===== verification/CaptureProps.thy ===== *)
theory CaptureProps
  imports Capture PhaseProps StorageProps SearchProps
begin

section \<open>Properties of the capture commands\<close>

subsection \<open>Saving an item\<close>

lemma hex_byte_ascii: "list_all (byte_in 0 0x7F) (hex_byte c)"
proof -
  have "byte_in 0 0x7F (hex_digit n)" if "n < 16" for n using that by (auto simp: hex_digit_def byte_in_def)
  moreover have "(of_char c :: nat) div 16 < 16" using nat_of_char_less_256 [of c] by (simp add: less_mult_imp_div_less)
  ultimately show ?thesis by (simp add: hex_byte_def)
qed

lemma GenerateID_valid: "valid_utf8 (GenerateID h insight typ)"
proof (rule valid_utf8_ascii)
  have "list_all (byte_in 0 0x7F) (TypePrefix typ)" by (simp add: TypePrefix_def byte_in_def)
  then show "list_all (byte_in 0 0x7F) (GenerateID h insight typ)"
    using hex_byte_ascii by (auto simp: GenerateID_def list_all_iff)
qed

lemma GenerateID_nonempty: "typ \<in> set validTypes \<Longrightarrow> GenerateID h insight typ \<noteq> []"
  by (auto simp: GenerateID_def TypePrefix_def validTypes_def)

lemma InferItemType_valid: "InferItemType insight \<in> set validTypes"
  by (simp add: InferItemType_def validTypes_def)

lemma format_nonempty: "format_rfc3339 t \<noteq> []"
  by (simp add: format_rfc3339_def)

lemma capture_item_ok:
  assumes "valid_utf8 trigger" "valid_utf8 insight" "valid_utf8 source" "valid_utf8 typ" "valid_utf8 i" "dt_ok now"
  shows "item_ok (buildCaptureItem now i typ trigger insight source)"
  using assms format_valid [OF assms(6)]
  by (simp add: item_ok_def buildCaptureItem_def item0_def strs_ok_def opt_ok_def valid_utf8_ascii byte_in_def)

text \<open>What saving does to the items that are read back.\<close>

lemma save_item_event:
  assumes "cw_append w = NoFault" and "terminated (file_text (cw_lessons w))" and "scannable (file_text (cw_lessons w))"
    and "item_ok it" and "short_item (EnsureArrayFields it)"
  shows "\<exists>s' r. save_item w it = (None, w\<lparr>cw_lessons := Some s'\<rparr>) \<and> terminated s' \<and> ReadItems (Opened s') = Inr r \<and>
     lists_store (Items r)
       (apply_event (file_store (file_text (cw_lessons w))) (line_event (item_line (EnsureArrayFields it))))"
proof -
  let ?s = "file_text (cw_lessons w)" and ?it = "EnsureArrayFields it"
  let ?s' = "?s @ line_bytes ?it"
  have l: "lines_of ?s' = lines_of ?s @ [item_line ?it]" and sc: "scannable ?s'" and tm: "terminated ?s'"
    using lines_of_item [OF assms(2,3), of ?it] assms(4,5) by (simp_all add: short_item_def)
  have "file_store ?s' = apply_event (file_store ?s) (line_event (item_line ?it))"
    by (simp add: file_store_def l lines_store_snoc)
  moreover have "save_item w it = (None, w\<lparr>cw_lessons := Some ?s'\<rparr>)"
    using assms(1) by (simp add: save_item_def AppendItem_def)
  moreover obtain r where "ReadItems (Opened ?s') = Inr r" "lists_store (Items r) (file_store ?s')"
    using ReadItems_store [OF sc] by blast
  ultimately show ?thesis using tm by auto
qed

lemma invalid_event:
  assumes "item_ok it" and "ValidateItem it \<noteq> None" and "Deleted it \<noteq> Some True" and "Type it \<in> set validTypes"
    and "EnsureArrayFields it = it"
  shows "line_event (item_line it) = Skip"
proof -
  have "legacy_type it = it" using assms(4) by (auto simp: legacy_type_def validTypes_def type_defs)
  with assms have "parseLine (item_line it) = None"
    by (simp add: parseLine_def unmarshal_item_line parseTombstone_def raw_item_deleted)
  then show ?thesis by (simp add: line_event_def)
qed

text \<open>A captured pattern is lost: \<open>ca capture --yes\<close> with an insight that is classified as a pattern
  reports that it was learned and appends a line, but the item has no pattern field, so that reading the
  lessons file skips the line and returns exactly what it returned before.\<close>

theorem runCapture_pattern_lost:
  assumes "InferItemType insight = TypePattern" and "trigger \<noteq> []" and "insight \<noteq> []"
    and "valid_utf8 trigger" and "valid_utf8 insight" and "dt_ok (cw_now w)"
    and "cw_append w = NoFault" and "cw_lessons w = Some s" and "terminated s" and "scannable s"
    and "i = GenerateID (env_sha256 (cw_env w)) insight TypePattern"
    and "short_item (buildCaptureItem (cw_now w) i TypePattern trigger insight ''manual'')"
  shows "\<exists>s' r r'. runCapture w trigger insight None False True = (Inr (learned insight i), w\<lparr>cw_lessons := Some s'\<rparr>) \<and>
     ReadItems (Opened s) = Inr r \<and> ReadItems (Opened s') = Inr r' \<and> Items r' = Items r"
proof -
  let ?it = "buildCaptureItem (cw_now w) i TypePattern trigger insight ''manual''"
  have ens: "EnsureArrayFields ?it = ?it" by (rule EnsureArrayFields_id) (simp_all add: buildCaptureItem_def)
  have ok: "item_ok ?it"
    using assms(4-6) GenerateID_valid unfolding assms(11)
    by (intro capture_item_ok) (simp_all add: valid_utf8_ascii byte_in_def TypePattern_def)
  have "ValidateItem ?it \<noteq> None" by (simp add: ValidateItem_None buildCaptureItem_def item0_def)
  then have "line_event (item_line ?it) = Skip"
    by (intro invalid_event ok ens) (simp_all add: buildCaptureItem_def item0_def validTypes_def)
  with save_item_event [of w ?it] assms(7-10,12) ok ens obtain s' r' where
    s': "save_item w ?it = (None, w\<lparr>cw_lessons := Some s'\<rparr>)" "ReadItems (Opened s') = Inr r'" "lists_store (Items r') (file_store s)"
    by (auto simp: file_text_def)
  obtain r where r: "ReadItems (Opened s) = Inr r" "lists_store (Items r) (file_store s)"
    using ReadItems_store [OF assms(10)] by blast
  have "runCapture w trigger insight None False True = (Inr (learned insight i), w\<lparr>cw_lessons := Some s'\<rparr>)"
    using assms(1-3,11) s'(1) by (simp add: runCapture_def resolveCapture_def result_item_def)
  with s' r lists_store_unique [OF s'(3) r(2)] show ?thesis by blast
qed

definition sample_now :: datetime where
  "sample_now = \<lparr>dt_year = 2024, dt_month = 1, dt_day = 2, dt_hour = 3, dt_minute = 4, dt_second = 5, dt_nanos = 0\<rparr>"

definition sample_world :: capture_world where
  "sample_world = \<lparr>cw_env = sample_env, cw_sort = insertion_sort, cw_writable = True, cw_embedder = Some unit_embedder,
     cw_openable = True, cw_db = db0, cw_readFails = False, cw_lessons = Some [], cw_append = NoFault,
     cw_now = sample_now\<rparr>"

lemma sample_world_sel [simp]:
  "cw_now sample_world = sample_now" "cw_append sample_world = NoFault" "cw_lessons sample_world = Some []"
  "env_sha256 (cw_env sample_world) = id"
  by (simp_all add: sample_world_def sample_env_def)

definition sample_insight :: string where
  "sample_insight = ''prefer a to b''"

lemma sample_insight_pattern: "InferItemType sample_insight = TypePattern"
  by code_simp

lemma sample_capture_short:
  "short_item (buildCaptureItem sample_now (GenerateID id sample_insight TypePattern) TypePattern ''t'' sample_insight ''manual'')"
  by (rule short_itemI) code_simp

lemma sample_now_ok: "dt_ok sample_now"
  by (simp add: dt_ok_def sample_now_def month_days_def)

theorem runCapture_pattern_lost_witness:
  "\<exists>s' r r'. runCapture sample_world ''t'' sample_insight None False True =
       (Inr (learned sample_insight (GenerateID id sample_insight TypePattern)), sample_world\<lparr>cw_lessons := Some s'\<rparr>) \<and>
     ReadItems (Opened []) = Inr r \<and> ReadItems (Opened s') = Inr r' \<and> Items r' = Items r"
proof (rule runCapture_pattern_lost [OF sample_insight_pattern])
  show "valid_utf8 sample_insight" "valid_utf8 ''t''" by code_simp+
qed (simp_all add: sample_insight_def sample_now_ok sample_capture_short [unfolded sample_insight_def])


subsection \<open>The learn command\<close>

lemma validated:
  assumes "validateLearnInputs opts = Inr (typ, cit)"
  shows "typ = lo_itemType opts" and "typ \<in> set validTypes"
    and "\<And>sev. lo_severity opts = Some sev \<Longrightarrow> sev \<in> set validSeverities"
  using assms by (auto simp: validateLearnInputs_def Let_def split: if_splits option.splits sum.splits)

lemma learn_item_valid:
  assumes "validateLearnInputs opts = Inr (typ, cit)" and "insight \<noteq> []"
  shows "ValidateItem (EnsureArrayFields (learn_item w insight typ cit opts)) = None"
    and "ID (learn_item w insight typ cit opts) \<noteq> []" and "Deleted (learn_item w insight typ cit opts) \<noteq> Some True"
  using validated [OF assms(1)] assms(2) GenerateID_nonempty format_nonempty
  by (auto simp: ValidateItem_None learn_item_def item0_def validSources_def)

text \<open>C14: What \<open>ca learn\<close> reports is what the next read returns: when it exits without error on a readable
  file and the insight is not empty, the item it built is valid, pattern fields included, and
  \<open>ReadItems\<close> returns the old items with it in the place of its ID.\<close>

theorem learnCmd_stored:
  assumes "learnCmd w args opts = (Inr out, w')" and "join '' '' args \<noteq> []"
    and "terminated (file_text (cw_lessons w))" and "scannable (file_text (cw_lessons w))"
    and "\<And>typ cit. validateLearnInputs opts = Inr (typ, cit) \<Longrightarrow>
       item_ok (learn_item w (join '' '' args) typ cit opts) \<and>
       short_item (EnsureArrayFields (learn_item w (join '' '' args) typ cit opts))"
  shows "\<exists>it r s'. out = learned (join '' '' args) (ID it) \<and> Insight it = join '' '' args \<and> ValidateItem it = None \<and>
     cw_lessons w' = Some s' \<and> ReadItems (Opened s') = Inr r \<and>
     lists_store (Items r) ((file_store (file_text (cw_lessons w)))(ID it \<mapsto> it))"
proof -
  have run: "runLearn w args opts = (Inr out, w')" using assms(1) by (simp add: learnCmd_def split: if_splits)
  obtain ty cit where v: "validateLearnInputs opts = Inr (ty, cit)"
  proof (cases "validateLearnInputs opts")
    case (Inl e)
    with run show ?thesis by (simp add: runLearn_def)
  next
    case (Inr p)
    with that show ?thesis by (cases p) simp
  qed
  let ?it = "learn_item w (join '' '' args) ty cit opts"
  from run v have s: "save_item w ?it = (None, w')" and o: "out = learned (join '' '' args) (ID ?it)"
    by (auto simp: runLearn_def Let_def split: prod.splits option.splits)
  from s have nf: "cw_append w = NoFault"
    by (auto simp: save_item_def AppendItem_def Let_def split: append_fault.splits prod.splits)
  obtain s' r where s': "save_item w ?it = (None, w\<lparr>cw_lessons := Some s'\<rparr>)" "ReadItems (Opened s') = Inr r"
    and l: "lists_store (Items r) (apply_event (file_store (file_text (cw_lessons w))) (line_event (item_line (EnsureArrayFields ?it))))"
    using save_item_event [OF nf assms(3,4)] assms(5) [OF v] by blast
  have "item_ok (EnsureArrayFields ?it)" using assms(5) [OF v] by simp
  then have "line_event (item_line (EnsureArrayFields ?it)) = Put (EnsureArrayFields ?it)"
    using learn_item_valid [OF v assms(2)] by (intro item_event(2)) simp_all
  with l have "lists_store (Items r) ((file_store (file_text (cw_lessons w)))(ID ?it \<mapsto> EnsureArrayFields ?it))" by simp
  moreover have "Insight ?it = join '' '' args" by (simp add: learn_item_def)
  ultimately show ?thesis using o s s' learn_item_valid(1) [OF v assms(2)]
    by (intro exI [of _ "EnsureArrayFields ?it"] exI [of _ r] exI [of _ s']) auto
qed

lemma sample_learn:
  "validateLearnInputs learn_opts0 = Inr (TypeLesson, None)"
  "item_ok (learn_item sample_world ''use b'' TypeLesson None learn_opts0)"
  "short_item (EnsureArrayFields (learn_item sample_world ''use b'' TypeLesson None learn_opts0))"
  "learnCmd sample_world [''use'', ''b''] learn_opts0 =
     (Inr (learned ''use b'' (GenerateID id ''use b'' TypeLesson)), snd (learnCmd sample_world [''use'', ''b''] learn_opts0))"
proof -
  show v: "validateLearnInputs learn_opts0 = Inr (TypeLesson, None)" by code_simp
  have it: "learn_item sample_world ''use b'' TypeLesson None learn_opts0 =
     (buildCaptureItem sample_now (GenerateID id ''use b'' TypeLesson) TypeLesson ''Manual capture'' ''use b'' ''manual'')
       \<lparr>Context := \<lparr>Tool = ''cli'', Intent = ''manual learning''\<rparr>\<rparr>"
    by (simp add: learn_item_def buildCaptureItem_def learn_opts0_def item0_def parseTags_def TypePattern_def TypeLesson_def)
  show "item_ok (learn_item sample_world ''use b'' TypeLesson None learn_opts0)" unfolding it by code_simp
  show "short_item (EnsureArrayFields (learn_item sample_world ''use b'' TypeLesson None learn_opts0))"
    unfolding it by (rule short_itemI) code_simp
  show "learnCmd sample_world [''use'', ''b''] learn_opts0 =
     (Inr (learned ''use b'' (GenerateID id ''use b'' TypeLesson)), snd (learnCmd sample_world [''use'', ''b''] learn_opts0))"
    using v by (simp add: learnCmd_def runLearn_def save_item_def AppendItem_def Let_def) (simp add: learn_item_def)
qed

theorem learnCmd_stored_witness:
  "\<exists>it r s'. Insight it = ''use b'' \<and> ValidateItem it = None \<and>
     cw_lessons (snd (learnCmd sample_world [''use'', ''b''] learn_opts0)) = Some s' \<and> ReadItems (Opened s') = Inr r \<and>
     lists_store (Items r) ((file_store [])(ID it \<mapsto> it))"
  using learnCmd_stored [OF sample_learn(4)] sample_learn(1-3) by (auto simp: file_text_def)

subsection \<open>Citations\<close>

lemma split_first_append: "c \<notin> set p \<Longrightarrow> split_first c (p @ c # s) = Some (p, s)"
  by (induction p) (auto simp: split_first_def)

lemma split_first_Some: "split_first c s = Some (p, q) \<Longrightarrow> s = p @ c # q \<and> c \<notin> set p"
proof -
  assume a: "split_first c s = Some (p, q)"
  then have c: "c \<in> set s" and p: "p = takeWhile (\<lambda>x. x \<noteq> c) s" and q: "q = drop 1 (dropWhile (\<lambda>x. x \<noteq> c) s)"
    by (auto simp: split_first_def split: if_splits)
  from c have ne: "dropWhile (\<lambda>x. x \<noteq> c) s \<noteq> []" by simp
  from hd_dropWhile [OF ne] have "hd (dropWhile (\<lambda>x. x \<noteq> c) s) = c" by simp
  with ne q have "dropWhile (\<lambda>x. x \<noteq> c) s = c # q" by (cases "dropWhile (\<lambda>x. x \<noteq> c) s") auto
  then have "s = p @ c # q" using takeWhile_dropWhile_id [of "\<lambda>x. x \<noteq> c" s] p by simp
  moreover have "c \<notin> set p" by (auto simp: p dest: set_takeWhileD)
  ultimately show ?thesis ..
qed

text \<open>Citations round-trip: the text \<open>file:line\<close> of a citation parses back to it, whatever the
  file name holds but a colon, and every citation the parser accepts names a file without a colon and a
  positive line that fits an int.\<close>

theorem parseCitation_roundtrip:
  "(CHR '':'' \<notin> set path \<and> 1 \<le> n \<and> n < 2 ^ 63 \<longrightarrow>
     parseCitation (path @ '':'' @ show_int n) commit =
       Inr \<lparr>File = path, Line = Some n, Commit = (if commit = [] then None else Some commit)\<rparr>) \<and>
   (parseCitation raw commit = Inr cit \<longrightarrow>
     (\<exists>num n. raw = File cit @ '':'' @ num \<and> CHR '':'' \<notin> set (File cit) \<and> atoi num = Some n \<and>
        Line cit = Some n \<and> 1 \<le> n \<and> n < 2 ^ 63))"
proof (intro conjI impI)
  assume a: "CHR '':'' \<notin> set path \<and> 1 \<le> n \<and> n < 2 ^ 63"
  then have "atoi (show_int n) = Some n" by (intro atoi_show_int) auto
  with a show "parseCitation (path @ '':'' @ show_int n) commit =
      Inr \<lparr>File = path, Line = Some n, Commit = (if commit = [] then None else Some commit)\<rparr>"
    by (simp add: parseCitation_def split_first_append)
next
  assume "parseCitation raw commit = Inr cit"
  then obtain path num n where sp: "split_first (CHR '':'') raw = Some (path, num)" and n: "atoi num = Some n" "1 \<le> n"
    and c: "cit = \<lparr>File = path, Line = Some n, Commit = (if commit \<noteq> [] then Some commit else None)\<rparr>"
    by (auto simp: parseCitation_def split: option.splits if_splits)
  have "n < 2 ^ 63" using n(1) by (auto simp: atoi_def Let_def split: option.splits if_splits prod.splits)
  with split_first_Some [OF sp] n c
  show "\<exists>num n. raw = File cit @ '':'' @ num \<and> CHR '':'' \<notin> set (File cit) \<and> atoi num = Some n \<and>
        Line cit = Some n \<and> 1 \<le> n \<and> n < 2 ^ 63"
    by (intro exI [of _ num] exI [of _ n]) simp
qed

theorem parseCitation_roundtrip_witness:
  "parseCitation ''a.go:12'' [] = Inr \<lparr>File = ''a.go'', Line = Some 12, Commit = None\<rparr>"
proof -
  have "parseCitation (''a.go'' @ '':'' @ show_int 12) [] = Inr \<lparr>File = ''a.go'', Line = Some 12, Commit = None\<rparr>"
    using parseCitation_roundtrip [of "''a.go''" 12 "[]"] by simp
  moreover have "show_int 12 = ''12''" by code_simp
  ultimately show ?thesis by simp
qed


subsection \<open>Detection\<close>

definition retried :: "edit_history \<Rightarrow> nat \<Rightarrow> bool" where
  "retried es i \<longleftrightarrow> i + 2 < length es \<and>
     ee_File (es ! i) = ee_File (es ! (i + 1)) \<and> ee_File (es ! (i + 1)) = ee_File (es ! (i + 2)) \<and>
     ee_Success (es ! i) \<and> \<not> ee_Success (es ! (i + 1)) \<and> ee_Success (es ! (i + 2))"

lemma find_fail_retry_first:
  "find_fail_retry es =
     (if \<exists>i. retried es i
      then Some \<lparr>ds_File = ee_File (es ! (LEAST i. retried es i)),
                 ds_Trigger = ''Self-correction on '' @ ee_File (es ! (LEAST i. retried es i))\<rparr>
      else None)"
proof (induction es rule: find_fail_retry.induct)
  case (1 a b c es)
  let ?es = "a # b # c # es"
  have zero: "retried ?es 0 \<longleftrightarrow>
      ee_File a = ee_File b \<and> ee_File b = ee_File c \<and> ee_Success a \<and> \<not> ee_Success b \<and> ee_Success c"
    by (auto simp: retried_def)
  have suc: "retried ?es (Suc i) \<longleftrightarrow> retried (b # c # es) i" for i by (simp add: retried_def)
  show ?case
  proof (cases "retried ?es 0")
    case True
    then have "(LEAST i. retried ?es i) = 0" by (rule Least_eq_0)
    with True zero show ?thesis by (auto intro: exI [of _ 0])
  next
    case False
    have ex: "(\<exists>i. retried ?es i) \<longleftrightarrow> (\<exists>i. retried (b # c # es) i)" using False suc by (metis not0_implies_Suc)
    have "(LEAST i. retried ?es i) = Suc (LEAST i. retried (b # c # es) i)" if "retried (b # c # es) i" for i
      using Least_Suc [of "retried ?es" "Suc i"] that False by (simp add: suc)
    with False zero 1 ex show ?thesis by auto
  qed
qed (auto simp: retried_def)

text \<open>A self-correction is detected exactly when some file was edited successfully, then unsuccessfully, then
  successfully again in three consecutive edits, and the earliest such triple names the file.\<close>

theorem DetectSelfCorrection_iff:
  "(DetectSelfCorrection es = None \<longleftrightarrow> (\<nexists>i. retried es i)) \<and>
   (DetectSelfCorrection es = Some d \<longrightarrow>
     (\<exists>i. retried es i \<and> (\<forall>j < i. \<not> retried es j) \<and> ds_File d = ee_File (es ! i) \<and>
          ds_Trigger d = ''Self-correction on '' @ ds_File d))"
proof -
  have eq: "DetectSelfCorrection es = find_fail_retry es"
  proof (cases "length es < 3")
    case True
    then have "\<nexists>i. retried es i" by (auto simp: retried_def)
    with True show ?thesis unfolding DetectSelfCorrection_def find_fail_retry_first by simp
  qed (simp add: DetectSelfCorrection_def)
  show ?thesis
  proof (cases "\<exists>i. retried es i")
    case True
    then obtain i where i: "retried es i" "\<forall>j < i. \<not> retried es j"
      and d: "DetectSelfCorrection es =
        Some \<lparr>ds_File = ee_File (es ! i), ds_Trigger = ''Self-correction on '' @ ee_File (es ! i)\<rparr>"
      unfolding eq find_fail_retry_first using LeastI_ex not_less_Least by (metis (lifting))
    show ?thesis unfolding d using i by (intro conjI impI exI [of _ i]) auto
  next
    case False
    then show ?thesis unfolding eq find_fail_retry_first by simp
  qed
qed

theorem DetectSelfCorrection_iff_witness:
  "DetectSelfCorrection [\<lparr>ee_File = ''a'', ee_Success = True, ee_Timestamp = 1\<rparr>, \<lparr>ee_File = ''a'', ee_Success = True, ee_Timestamp = 2\<rparr>,
     \<lparr>ee_File = ''a'', ee_Success = False, ee_Timestamp = 3\<rparr>, \<lparr>ee_File = ''a'', ee_Success = True, ee_Timestamp = 4\<rparr>] \<noteq> None"
proof -
  let ?es = "[\<lparr>ee_File = ''a'', ee_Success = True, ee_Timestamp = 1\<rparr>, \<lparr>ee_File = ''a'', ee_Success = True, ee_Timestamp = 2\<rparr>,
     \<lparr>ee_File = ''a'', ee_Success = False, ee_Timestamp = 3\<rparr>, \<lparr>ee_File = ''a'', ee_Success = True, ee_Timestamp = 4\<rparr>]"
  have "retried ?es 1" by (simp add: retried_def)
  then show ?thesis using DetectSelfCorrection_iff [of ?es] by blast
qed

subsection \<open>Only --yes saves\<close>

lemma novelty_keeps_file: "cw_lessons (snd (ShouldPropose w insight)) = cw_lessons w"
  by (auto simp: ShouldPropose_def isNovel_def isNovelWithDB_def Let_def
      split: prod.splits bool.splits option.splits sum.splits search_error.splits list.splits)

lemma detect_keeps_file: "cw_lessons (snd (detectFromFile w input)) = cw_lessons w"
  using novelty_keeps_file
  by (auto simp: detectFromFile_def detectAndPropose_def split: option.splits prod.splits bool.splits) (metis snd_conv)+

lemma resolve_keeps_file: "cw_lessons (snd (resolveCapture w input trigger insight)) = cw_lessons w"
  using detect_keeps_file by (auto simp: resolveCapture_def split: option.splits)

text \<open>C24: Nothing is saved without confirmation: \<open>ca capture\<close> without --yes and \<open>ca detect\<close> without both
  --save and --yes leave the lessons file as it is, whatever the input file, the database, the embedder
  and the system calls do.\<close>

theorem capture_needs_yes:
  "cw_lessons (snd (runCapture w trigger insight input jsonOut False)) = cw_lessons w \<and>
   cw_lessons (snd (detectCmd w input False yes jsonOut)) = cw_lessons w \<and>
   cw_lessons (snd (detectCmd w input save False jsonOut)) = cw_lessons w"
proof -
  have "cw_lessons (snd (runDetect w f save yes jsonOut)) = cw_lessons w" if "\<not> (save \<and> yes)" for f save yes
    using that detect_keeps_file [of w f] by (auto simp: runDetect_def Let_def split: prod.splits sum.splits)
  moreover have "cw_lessons (snd (runCapture w trigger insight input jsonOut False)) = cw_lessons w"
    using resolve_keeps_file [of w input trigger insight]
    by (auto simp: runCapture_def saveIfConfirmed_def Let_def split: prod.splits sum.splits)
  ultimately show ?thesis by (auto simp: detectCmd_def split: option.splits)
qed


subsection \<open>The quality gate\<close>

text \<open>
  The vector that the novelty check compares an item by is the one cached for its text, or else the embedder's
  answer. A near-duplicate is an item of the index whose vector reaches the threshold. The check is carried out
  when there is an embedder, the database opens and is read, and the embedder answers for the insight and for
  the items without a cached vector.
\<close>

definition insight_vector :: "capture_world \<Rightarrow> (string \<Rightarrow> real list) \<Rightarrow> item \<Rightarrow> real list" where
  "insight_vector w e it =
     (case cache_hit (GetCachedInsightEmbeddingsBulk (env_frombits (cw_env w)) (cw_db w)) (insight_entry (cw_env w) it) of
        Some v \<Rightarrow> v | None \<Rightarrow> e (Insight it))"

definition insight_similarity :: "capture_world \<Rightarrow> (string \<Rightarrow> real list) \<Rightarrow> string \<Rightarrow> item \<Rightarrow> real option" where
  "insight_similarity w e insight it = CosineSimilarity (e insight) (insight_vector w e it)"

definition near_duplicate :: "capture_world \<Rightarrow> (string \<Rightarrow> real list) \<Rightarrow> string \<Rightarrow> item \<Rightarrow> bool" where
  "near_duplicate w e insight it \<longleftrightarrow>
     it \<in> set (ReadAll (env_deliver (cw_env w)) (cw_db w)) \<and> ID it \<noteq> [] \<and>
     (\<exists>s. insight_similarity w e insight it = Some s \<and> DuplicateThreshold \<le> s)"

definition novelty_checked :: "capture_world \<Rightarrow> string \<Rightarrow> bool" where
  "novelty_checked w insight \<longleftrightarrow>
     (case cw_embedder w of None \<Rightarrow> False
      | Some emb \<Rightarrow> cw_openable w \<and> \<not> cw_readFails w \<and> emb [insight] \<noteq> None \<and>
          fst (resolveInsightEmbeddings (cw_env w) (cw_writable w) emb (cw_db w)
                 (filterInsightCandidates (cw_env w) (ReadAll (env_deliver (cw_env w)) (cw_db w)) [])) \<noteq> Inl EmbedFailed)"

definition actionable_text :: "string \<Rightarrow> bool" where
  "actionable_text insight \<longleftrightarrow>
     4 \<le> length (go_fields (trim_space insight)) \<and> \<not> match_any vaguePatterns insight \<and>
     \<not> match_string genericImperativePattern insight \<and> match_any actionPatterns insight"

definition duplicate_reason :: "string \<Rightarrow> string" where
  "duplicate_reason text = ''Near-duplicate of existing lesson: '' @ [CHR 0x22] @
     (if 50 < length text then take 50 text @ ''...'' else text) @ [CHR 0x22]"

lemma scoreItems_map:
  "scoreItems q (map ent_item us) (map f us) =
     List.map_filter (\<lambda>u. map_option (\<lambda>s. \<lparr>si_Item = ent_item u, si_Score = s\<rparr>) (CosineSimilarity q (f u))) us"
proof -
  have "zip (map ent_item us) (map f us) = map (\<lambda>u. (ent_item u, f u)) us" by (simp add: zip_map_map zip_same_conv_map)
  then show ?thesis by (simp add: scoreItems_def List.map_filter_def filter_map comp_def case_prod_unfold)
qed

text \<open>The results of the search are the near-duplicates, the most similar first.\<close>

lemma FindSimilar_by:
  assumes ebd: "embeds_by e emb" and srt: "slice_sort (cw_sort w)" and "cw_embedder w = Some emb" and "novelty_checked w insight"
  shows "\<exists>res db'. FindSimilarLessons (cw_env w) (cw_sort w) (cw_writable w) emb (cw_readFails w) (cw_db w) insight
        DuplicateThreshold [] None = (Inr res, db') \<and>
     si_Item ` set res = {it. near_duplicate w e insight it} \<and>
     (\<forall>x \<in> set res. insight_similarity w e insight (si_Item x) = Some (si_Score x)) \<and>
     sorted_wrt (\<lambda>x y. si_Score y \<le> si_Score x) res"
proof -
  let ?env = "cw_env w" and ?items = "ReadAll (env_deliver (cw_env w)) (cw_db w)"
  let ?cands = "filterInsightCandidates ?env ?items []"
  let ?vec = "insight_cache.vector_of (env_frombits ?env) e (cw_db w)"
  have c: "\<not> cw_readFails w" "emb [insight] \<noteq> None"
    "fst (resolveInsightEmbeddings ?env (cw_writable w) emb (cw_db w) ?cands) \<noteq> Inl EmbedFailed"
    using assms(3,4) by (simp_all add: novelty_checked_def)
  have q: "emb [insight] = Some [e insight]"
    using ebd [unfolded embeds_by_def, rule_format, of "[insight]"] c(2) by (simp add: maxEmbedBatch_def)
  have ents: "ent_item (insight_entry ?env it) = it" "ent_text (insight_entry ?env it) = Insight it" for it
    by (simp_all add: insight_entry_def)
  have vec: "?vec (insight_entry ?env it) = insight_vector w e it" for it
    by (simp add: insight_cache.vector_of_def insight_vector_def ents split: option.split)
  show ?thesis
  proof (cases "?items = []")
    case True
    then have "FindSimilarLessons ?env (cw_sort w) (cw_writable w) emb (cw_readFails w) (cw_db w) insight DuplicateThreshold [] None
        = (Inr [], cw_db w)" using c(1) by (simp add: FindSimilarLessons_def)
    with True show ?thesis by (auto simp: near_duplicate_def)
  next
    case False
    have "fst (resolveInsightEmbeddings ?env (cw_writable w) emb (cw_db w) ?cands) = Inr (map ?vec ?cands)"
      using insight_cache.resolve_by [OF ebd, of "env_frombits ?env" "env_bits ?env" "cw_writable w" "cw_db w" ?cands] c(3)
      unfolding resolveInsightEmbeddings_def by simp
    then obtain db' where r: "resolveInsightEmbeddings ?env (cw_writable w) emb (cw_db w) ?cands = (Inr (map ?vec ?cands), db')"
      by (metis prod.collapse)
    let ?hits = "filter (\<lambda>x. si_Score x \<ge> DuplicateThreshold) (scoreItems (e insight) (map ent_item ?cands) (map ?vec ?cands))"
    have res: "FindSimilarLessons ?env (cw_sort w) (cw_writable w) emb (cw_readFails w) (cw_db w) insight DuplicateThreshold [] None
        = (Inr (cw_sort w by_score ?hits), db')"
      using False c(1) by (simp add: FindSimilarLessons_def q r Let_def scoreInsightCandidates_def)
    have hits: "x \<in> set ?hits \<longleftrightarrow> near_duplicate w e insight (si_Item x) \<and> insight_similarity w e insight (si_Item x) = Some (si_Score x)" for x
      unfolding scoreItems_map
      by (cases x) (force simp: List.map_filter_def filterInsightCandidates_def ents vec near_duplicate_def insight_similarity_def)
    have "\<exists>x \<in> set ?hits. si_Item x = it" if nd: "near_duplicate w e insight it" for it
    proof -
      obtain s where "insight_similarity w e insight it = Some s" using nd by (auto simp: near_duplicate_def)
      then show ?thesis using nd hits [of "\<lparr>si_Item = it, si_Score = s\<rparr>"] by (intro bexI [of _ "\<lparr>si_Item = it, si_Score = s\<rparr>"]) auto
    qed
    then have "si_Item ` set ?hits = {it. near_duplicate w e insight it}" using hits by (auto simp: image_iff)
    moreover have "sorted_wrt (\<lambda>x y. si_Score y \<le> si_Score x) (cw_sort w by_score ?hits)"
      using slice_sort.slice_sorted [OF srt by_score_weak, of ?hits] by (simp add: by_score_def not_less)
    ultimately show ?thesis
      using hits by (intro exI [of _ "cw_sort w by_score ?hits"] exI [of _ db'] conjI res) (simp_all add: slice_sort.slice_set [OF srt])
  qed
qed

lemma FindSimilar_unchecked:
  assumes "embeds_by e emb" and "cw_embedder w = Some emb" and "cw_openable w" and "\<not> novelty_checked w insight"
  shows "fst (FindSimilarLessons (cw_env w) (cw_sort w) (cw_writable w) emb (cw_readFails w) (cw_db w) insight
     DuplicateThreshold [] None) \<in> {Inl DbRead, Inl EmbedFailed, Inr []}"
proof -
  let ?res = "resolveInsightEmbeddings (cw_env w) (cw_writable w) emb (cw_db w)
     (filterInsightCandidates (cw_env w) (ReadAll (env_deliver (cw_env w)) (cw_db w)) [])"
  have "cw_readFails w \<or> emb [insight] = None \<or> fst ?res = Inl EmbedFailed"
    using assms(2,3,4) by (auto simp: novelty_checked_def)
  then show ?thesis
    by (cases ?res) (auto simp: FindSimilarLessons_def Let_def split: option.splits)
qed

text \<open>The novelty check ends, and says no exactly for a near-duplicate, naming one of the greatest similarity.\<close>

lemma isNovel_iff:
  assumes "slice_sort (cw_sort w)" and ebd: "\<And>emb. cw_embedder w = Some emb \<Longrightarrow> embeds_by e emb"
  shows "\<exists>n w'. isNovel w insight DuplicateThreshold = (Some n, w') \<and>
     (Novel n \<longleftrightarrow> \<not> (novelty_checked w insight \<and> (\<exists>it. near_duplicate w e insight it))) \<and>
     (\<not> Novel n \<longrightarrow> (\<exists>it s. near_duplicate w e insight it \<and> insight_similarity w e insight it = Some s \<and>
        nv_Reason n = duplicate_reason (Insight it) \<and>
        (\<forall>it' s'. near_duplicate w e insight it' \<and> insight_similarity w e insight it' = Some s' \<longrightarrow> s' \<le> s)))"
proof (cases "cw_embedder w")
  case None
  then show ?thesis by (simp add: isNovel_def novelty_checked_def novel0_def)
next
  case (Some emb)
  let ?f = "FindSimilarLessons (cw_env w) (cw_sort w) (cw_writable w) emb (cw_readFails w) (cw_db w) insight DuplicateThreshold [] None"
  show ?thesis
  proof (cases "cw_openable w \<and> novelty_checked w insight")
    case False
    then have n: "\<not> novelty_checked w insight" using Some by (auto simp: novelty_checked_def)
    have "\<exists>w'. isNovel w insight DuplicateThreshold = (Some novel0, w')"
      using FindSimilar_unchecked [OF ebd [OF Some] Some _ n]
      by (cases ?f) (auto simp: isNovel_def isNovelWithDB_def Some)
    with n show ?thesis by (auto simp: novel0_def)
  next
    case True
    then obtain res db' where f: "?f = (Inr res, db')" and items: "si_Item ` set res = {it. near_duplicate w e insight it}"
      and scores: "\<forall>x \<in> set res. insight_similarity w e insight (si_Item x) = Some (si_Score x)"
      and sorted: "sorted_wrt (\<lambda>x y. si_Score y \<le> si_Score x) res"
      using FindSimilar_by [OF ebd [OF Some] assms(1) Some] by blast
    show ?thesis
    proof (cases res)
      case Nil
      then have "isNovel w insight DuplicateThreshold = (Some novel0, w\<lparr>cw_db := db'\<rparr>)"
        using True by (simp add: isNovel_def isNovelWithDB_def Some f)
      then show ?thesis using Nil items by (auto simp: novel0_def)
    next
      case (Cons b bs)
      let ?n = "\<lparr>Novel = False, nv_Reason = duplicate_reason (Insight (si_Item b)), ExistingID = ID (si_Item b)\<rparr>"
      have n: "isNovel w insight DuplicateThreshold = (Some ?n, w\<lparr>cw_db := db'\<rparr>)"
        using True by (simp add: isNovel_def isNovelWithDB_def Some f Cons Let_def duplicate_reason_def)
      have "si_Item b \<in> {it. near_duplicate w e insight it}" unfolding items [symmetric] Cons by simp
      then have dup: "near_duplicate w e insight (si_Item b)" by (rule CollectD)
      have best: "s' \<le> si_Score b" if "near_duplicate w e insight it'" "insight_similarity w e insight it' = Some s'" for it' s'
      proof -
        have "it' \<in> si_Item ` set res" unfolding items using that(1) by (rule CollectI)
        then obtain x where "x \<in> set res" "si_Item x = it'" by (auto simp: image_iff)
        then show ?thesis using that(2) scores sorted Cons by auto
      qed
      have sim: "insight_similarity w e insight (si_Item b) = Some (si_Score b)" using scores Cons by simp
      show ?thesis
      proof (intro exI conjI)
        show "isNovel w insight DuplicateThreshold = (Some ?n, w\<lparr>cw_db := db'\<rparr>)" by (rule n)
        show "Novel ?n \<longleftrightarrow> \<not> (novelty_checked w insight \<and> (\<exists>it. near_duplicate w e insight it))"
          using True dup by auto
        show "\<not> Novel ?n \<longrightarrow> (\<exists>it s. near_duplicate w e insight it \<and> insight_similarity w e insight it = Some s \<and>
            nv_Reason ?n = duplicate_reason (Insight it) \<and>
            (\<forall>it' s'. near_duplicate w e insight it' \<and> insight_similarity w e insight it' = Some s' \<longrightarrow> s' \<le> s))"
          using dup sim best by (intro impI exI [of _ "si_Item b"] exI [of _ "si_Score b"] conjI allI dup sim) (simp, blast)
      qed
    qed
  qed
qed

text \<open>C15: The quality gate always answers and leaves the lessons file alone. It turns an insight down when its text is
  not specific or not actionable (fewer than four words, a vague phrase, a bare imperative, no action guidance), and
  when the novelty check was carried out and an item of the index reaches the duplicate threshold; the reason then
  quotes an item of the greatest similarity. Otherwise it accepts: without an embedder, with a database that does not
  open or read, or with an embedder that fails, near-duplicates are accepted. The embedder may refuse any batch
  and answers the others text by text; an item's vector is the cached one, when its hash is current.\<close>

theorem ShouldPropose_iff:
  assumes "slice_sort (cw_sort w)" and "\<And>emb. cw_embedder w = Some emb \<Longrightarrow> embeds_by e emb"
  shows "\<exists>reason w'.
     ShouldPropose w insight =
       (Some (actionable_text insight \<and> (novelty_checked w insight \<longrightarrow> (\<nexists>it. near_duplicate w e insight it)), reason), w') \<and>
     cw_lessons w' = cw_lessons w \<and>
     (actionable_text insight \<and> novelty_checked w insight \<and> (\<exists>it. near_duplicate w e insight it) \<longrightarrow>
        (\<exists>it s. near_duplicate w e insight it \<and> insight_similarity w e insight it = Some s \<and> reason = duplicate_reason (Insight it) \<and>
           (\<forall>it' s'. near_duplicate w e insight it' \<and> insight_similarity w e insight it' = Some s' \<longrightarrow> s' \<le> s)))"
proof -
  obtain n w' where n: "isNovel w insight DuplicateThreshold = (Some n, w')"
    and iff: "Novel n \<longleftrightarrow> \<not> (novelty_checked w insight \<and> (\<exists>it. near_duplicate w e insight it))"
    and why: "\<not> Novel n \<longrightarrow> (\<exists>it s. near_duplicate w e insight it \<and> insight_similarity w e insight it = Some s \<and>
        nv_Reason n = duplicate_reason (Insight it) \<and>
        (\<forall>it' s'. near_duplicate w e insight it' \<and> insight_similarity w e insight it' = Some s' \<longrightarrow> s' \<le> s))"
    using isNovel_iff [OF assms] by blast
  have unchanged: "cw_lessons (snd (ShouldPropose w insight)) = cw_lessons w" by (rule novelty_keeps_file)
  consider "\<not> actionable_text insight" | "actionable_text insight" by blast
  then show ?thesis
  proof cases
    case 1
    then have "\<exists>reason. ShouldPropose w insight = (Some (False, reason), w)"
      by (auto simp: ShouldPropose_def isSpecific_def isActionable_def minWordCount_def actionable_text_def Let_def)
    with 1 show ?thesis by auto
  next
    case 2
    then have s: "ShouldPropose w insight = (Some (if Novel n then (True, []) else (False, nv_Reason n)), w')"
      by (simp add: ShouldPropose_def isSpecific_def isActionable_def minWordCount_def actionable_text_def Let_def n)
    show ?thesis
    proof (cases "Novel n")
      case True
      with 2 s iff unchanged show ?thesis by auto
    next
      case False
      with 2 s iff unchanged why show ?thesis by (intro exI [of _ "nv_Reason n"] exI [of _ w']) simp
    qed
  qed
qed

text \<open>A world whose index holds an item with the vector of every text.\<close>

definition full_world :: capture_world where
  "full_world = sample_world\<lparr>cw_db := db0\<lparr>db_lessons := [item_row sample_item]\<rparr>\<rparr>"

theorem ShouldPropose_iff_witness:
  "\<exists>w'. ShouldPropose full_world ''prefer a to b'' = (Some (False, duplicate_reason ''use <b>''), w')"
proof -
  have "\<not> match_any vaguePatterns ''prefer a to b''" "match_any actionPatterns ''prefer a to b''"
    "\<not> match_string genericImperativePattern ''prefer a to b''" "4 \<le> length (go_fields (trim_space ''prefer a to b''))"
    by code_simp+
  then have act: "actionable_text ''prefer a to b''" by (simp add: actionable_text_def)
  have emb: "cw_embedder full_world = Some emb \<Longrightarrow> embeds_by (\<lambda>_. [1]) emb" for emb
    by (auto simp: full_world_def sample_world_def embeds_by_def unit_embedder_def)
  have srt: "slice_sort (cw_sort full_world)"
    using gosort.slice_sort_axioms by (simp add: full_world_def sample_world_def)
  have all: "ReadAll (env_deliver (cw_env full_world)) (cw_db full_world) = [index_view sample_item]"
    using convert_row [OF sample_ok(1)]
    by (simp add: full_world_def sample_world_def sample_env_def ReadAll_def) (simp add: sample_item_def item0_def)
  have vecs: "cache_hit (GetCachedInsightEmbeddingsBulk env (cw_db full_world)) u = None" for env u
    by (simp add: full_world_def GetCachedInsightEmbeddingsBulk_def cache_hit_def)
  have sim: "insight_similarity full_world (\<lambda>_. [1]) ''prefer a to b'' (index_view sample_item) = Some 1"
    by (simp add: insight_similarity_def insight_vector_def vecs CosineSimilarity_def cosine_sums_def)
  have near: "near_duplicate full_world (\<lambda>_. [1]) ''prefer a to b'' it \<longleftrightarrow> it = index_view sample_item" for it
    using sim sample_ok(4) by (auto simp: near_duplicate_def all DuplicateThreshold_def)
  have checked: "novelty_checked full_world ''prefer a to b''"
  proof -
    have e: "cw_embedder full_world = Some unit_embedder" "cw_openable full_world" "\<not> cw_readFails full_world"
      by (simp_all add: full_world_def sample_world_def)
    have "embedBatched unit_embedder ts = Some (map (\<lambda>_. [1]) ts)" for ts
      by (rule embedBatched_pointwise) (simp add: unit_embedder_def)
    then have "fst (resolveInsightEmbeddings env wr unit_embedder (cw_db full_world) us) \<noteq> Inl EmbedFailed" for env wr us
      unfolding resolveInsightEmbeddings_def resolve_cached_def Let_def vecs
      by (simp add: insight_cache.fill_vecs_ok)
    then show ?thesis unfolding novelty_checked_def e by (simp add: e unit_embedder_def)
  qed
  have "Insight (index_view sample_item) = ''use <b>''" by (simp add: sample_item_def index_view_def)
  then show ?thesis
    using ShouldPropose_iff [of full_world "\<lambda>_. [1]" "''prefer a to b''", OF srt emb] act near checked by auto
qed

end
