(* ===== verification/CrudProps.thy ===== *)
theory CrudProps
  imports Crud CaptureProps
begin

section \<open>What the lesson commands do to the stored items\<close>

text \<open>
  The abstract view of the lessons file is the map \<open>stored\<close> from IDs to the items that the next
  \<open>ReadItems\<close> returns. Each command is shown to be an update of that map. \<open>ready\<close> says that the
  file is readable, ends with a newline, and that no system call fails.
\<close>

subsection \<open>The abstract view\<close>

definition stored :: "crud_world \<Rightarrow> (string \<rightharpoonup> item)" where
  "stored w = file_store (file_text (cr_lessons w))"

definition ready :: "crud_world \<Rightarrow> bool" where
  "ready w \<longleftrightarrow> \<not> cr_openFails w \<and> terminated (file_text (cr_lessons w)) \<and> scannable (file_text (cr_lessons w)) \<and>
     cr_faults w = []"

lemma stored_valid: "stored w i = Some it \<Longrightarrow> ID it = i \<and> ValidateItem it = None \<and> item_ok it"
  unfolding stored_def file_store_def by (rule lines_store_valid)

lemma lists_store_find:
  assumes "lists_store items m" and "\<And>it. m i = Some it \<Longrightarrow> ID it = i"
  shows "findItem items i = m i"
proof (cases "findItem items i")
  case None
  then have "\<forall>it \<in> set items. ID it \<noteq> i" by (auto simp: findItem_def find_None_iff)
  with assms have "m i = None" by (cases "m i") (auto simp: lists_store_def)
  with None show ?thesis by simp
next
  case (Some it)
  then have "it \<in> set items" "ID it = i" by (auto simp: findItem_def find_Some_iff)
  with assms Some show ?thesis by (auto simp: lists_store_def)
qed

lemma cr_read_stored:
  assumes "ready w"
  obtains r where "cr_read w = Inr r" and "\<And>i. findItem (Items r) i = stored w i"
proof (cases "cr_lessons w")
  case None
  then have s: "stored w = Map.empty" by (simp add: stored_def file_text_def file_store_def lines_store_def)
  have "cr_read w = Inr \<lparr>Items = [], DeletedIDs = [], SkippedCount = 0\<rparr>"
    using assms None by (simp add: cr_read_def ready_def open_file_def ReadItems_def)
  then show ?thesis by (rule that) (simp add: s findItem_def)
next
  case (Some s)
  with assms obtain r where r: "ReadItems (Opened s) = Inr r" "lists_store (Items r) (file_store s)"
    using ReadItems_store [of s] by (auto simp: ready_def file_text_def)
  have "cr_read w = Inr r" using assms Some r(1) by (simp add: cr_read_def ready_def open_file_def)
  then show ?thesis 
  proof (rule that)
    fix i
    have "file_store s = stored w" by (simp add: stored_def Some file_text_def)
    with r(2) show "findItem (Items r) i = stored w i" using stored_valid by (auto intro: lists_store_find)
  qed
qed

lemma cr_append_event:
  assumes "ready w" and "item_ok it" and "short_item (EnsureArrayFields it)"
  obtains w' where "cr_append w it = (None, w')" and "ready w'" and "cr_now w' = cr_now w"
    and "stored w' = apply_event (stored w) (line_event (item_line (EnsureArrayFields it)))"
proof -
  let ?s = "file_text (cr_lessons w)" and ?it = "EnsureArrayFields it"
  let ?s' = "?s @ line_bytes ?it" and ?w' = "w\<lparr>cr_lessons := Some (?s @ line_bytes ?it), cr_faults := []\<rparr>"
  have l: "lines_of ?s' = lines_of ?s @ [item_line ?it]" and sc: "scannable ?s'" and tm: "terminated ?s'"
    using lines_of_item [of ?s ?it] assms by (simp_all add: short_item_def ready_def)
  have "cr_append w it = (None, ?w')" using assms(1) by (simp add: cr_append_def AppendItem_def ready_def Let_def)
  moreover have "ready ?w'" using assms(1) sc tm by (simp add: ready_def file_text_def)
  moreover have "stored ?w' = apply_event (stored w) (line_event (item_line ?it))"
    using l by (simp add: stored_def file_store_def lines_store_snoc file_text_def)
  ultimately show ?thesis using that by simp
qed

lemma cr_append_put:
  assumes "ready w" and "item_ok it" and "short_item (EnsureArrayFields it)"
    and "ValidateItem (EnsureArrayFields it) = None" and "Deleted it \<noteq> Some True"
  obtains w' where "cr_append w it = (None, w')" and "ready w'" and "cr_now w' = cr_now w"
    and "stored w' = (stored w)(ID it \<mapsto> EnsureArrayFields it)"
proof -
  have "line_event (item_line (EnsureArrayFields it)) = Put (EnsureArrayFields it)"
    using assms by (intro item_event(2)) (simp_all add: ValidateItem_None)
  with cr_append_event [OF assms(1-3)] that show ?thesis by auto
qed

lemma cr_append_put_ex:
  assumes "ready w" and "item_ok it" and "short_item (EnsureArrayFields it)"
    and "ValidateItem (EnsureArrayFields it) = None" and "Deleted it \<noteq> Some True"
  shows "\<exists>w'. cr_append w it = (None, w') \<and> ready w' \<and> stored w' = (stored w)(ID it \<mapsto> EnsureArrayFields it)"
  by (rule cr_append_put [OF assms]) blast

subsection \<open>update\<close>

text \<open>C31: An update does what it reports unless it empties a required field: on an existing lesson, with a valid
  severity if one is given, it prints success and the next read returns the changed item in the place of
  the old one, except that with an empty insight or trigger it prints the same and every stored item,
  the one it names included, stays as it was.\<close>

theorem runUpdate_effect:
  assumes "ready w" and "stored w i = Some it" and "Deleted it \<noteq> Some True" and "validateUpdateFlags f = None"
    and "item_ok (applyUpdateFlags it f)" and "short_item (EnsureArrayFields (applyUpdateFlags it f))"
    and "\<not> uf_jsonOut f"
  shows "\<exists>w'. runUpdate w i f = (([Print (''Updated lesson '' @ i @ nl)], None), w') \<and> ready w' \<and>
     stored w' = (if uf_insight f = Some [] \<or> uf_trigger f = Some [] then stored w
                  else (stored w)(i \<mapsto> EnsureArrayFields (applyUpdateFlags it f)))"
proof -
  let ?up = "applyUpdateFlags it f"
  note it = stored_valid [OF assms(2)]
  have sel: "ID ?up = i" "Deleted ?up \<noteq> Some True" "Type ?up = Type it" "Pattern ?up = Pattern it"
    using it assms(3) by (simp_all add: applyUpdateFlags_def)
  have sev: "\<And>s. uf_severity f = Some s \<Longrightarrow> s \<in> set validSeverities"
    using assms(4) by (auto simp: validateUpdateFlags_def split: if_splits)
  have valid: "ValidateItem (EnsureArrayFields ?up) = None \<longleftrightarrow> \<not> (uf_insight f = Some [] \<or> uf_trigger f = Some [])"
    using it sev by (auto simp: ValidateItem_None applyUpdateFlags_def split: option.splits)
  obtain r where r: "cr_read w = Inr r" "findItem (Items r) i = Some it"
    using cr_read_stored [OF assms(1)] assms(2) by metis
  have run: "runUpdate w i f = (case cr_append w ?up of
      (Some e, w') \<Rightarrow> (([], Some (WriteLesson e)), w')
    | (None, w') \<Rightarrow> (([Print (''Updated lesson '' @ i @ nl)], None), w'))"
    using assms(4,7) r by (simp add: runUpdate_def Let_def)
  show ?thesis
  proof (cases "ValidateItem (EnsureArrayFields ?up) = None")
    case True
    obtain w' where "cr_append w ?up = (None, w')" "ready w'" "stored w' = (stored w)(ID ?up \<mapsto> EnsureArrayFields ?up)"
      using cr_append_put [OF assms(1,5,6) True sel(2)] by metis
    with run valid True sel show ?thesis by simp
  next
    case False
    have "line_event (item_line (EnsureArrayFields ?up)) = Skip"
      using assms(5) False sel it by (intro invalid_event) (auto simp: ValidateItem_None)
    moreover obtain w' where "cr_append w ?up = (None, w')" "ready w'"
        "stored w' = apply_event (stored w) (line_event (item_line (EnsureArrayFields ?up)))"
      using cr_append_event [OF assms(1,5,6)] by metis
    ultimately show ?thesis using run valid False by auto
  qed
qed


text \<open>One stored item, and a world that holds it.\<close>

definition one_item :: item where
  "one_item = EnsureArrayFields sample_item"

definition one_world :: crud_world where
  "one_world = \<lparr>cr_lessons = Some (line_bytes one_item), cr_openFails = False, cr_faults = [], cr_now = sample_now\<rparr>"

lemma one_item_sel [simp]:
  "ID one_item = ''L1''" "Deleted one_item = None" "InvalidatedAt one_item = None" "InvalidationReason one_item = None"
  "EnsureArrayFields one_item = one_item"
  by (simp_all add: one_item_def sample_item_def item0_def EnsureArrayFields_def)

lemma one_world_now [simp]: "cr_now one_world = sample_now"
  by (simp add: one_world_def)

lemma one_world_ready: "ready one_world"
  and one_world_stored: "stored one_world = [''L1'' \<mapsto> one_item]"
proof -
  have l: "lines_of (line_bytes one_item) = [item_line one_item]" "scannable (line_bytes one_item)" "terminated (line_bytes one_item)"
    using lines_of_item [of "[]" one_item] sample_ok sample_short by (simp_all add: one_item_def short_item_def)
  then show "ready one_world" by (simp add: ready_def one_world_def file_text_def)
  have "line_event (item_line one_item) = Put one_item"
    using sample_ok by (intro item_event(2)) (simp_all add: one_item_def)
  then show "stored one_world = [''L1'' \<mapsto> one_item]"
    by (simp add: stored_def one_world_def file_text_def file_store_def l(1) lines_store_def)
qed

definition empty_insight :: update_flags where
  "empty_insight = \<lparr>uf_insight = Some [], uf_trigger = None, uf_evidence = None, uf_severity = None, uf_tags = None,
     uf_confirmed = None, uf_jsonOut = False\<rparr>"

theorem runUpdate_effect_witness:
  "\<exists>w'. runUpdate one_world ''L1'' empty_insight = (([Print (''Updated lesson '' @ ''L1'' @ nl)], None), w') \<and>
     stored w' = [''L1'' \<mapsto> one_item]"
proof -
  have "item_ok (applyUpdateFlags one_item empty_insight)" by code_simp
  moreover have "short_item (EnsureArrayFields (applyUpdateFlags one_item empty_insight))" by (rule short_itemI) code_simp
  moreover have "validateUpdateFlags empty_insight = None" by code_simp
  ultimately show ?thesis
    using runUpdate_effect [OF one_world_ready, of "''L1''" one_item empty_insight]
    by (auto simp: one_world_stored empty_insight_def)
qed

subsection \<open>delete\<close>

lemma opt_ok_Some: "opt_ok P (Some x) = P x"
  by (simp add: opt_ok_def)

lemma tombstone_ok:
  assumes "item_ok it" and "dt_ok now"
  shows "item_ok (it\<lparr>Deleted := Some True, DeletedAt := Some (format_rfc3339 now)\<rparr>)"
  using assms format_valid [OF assms(2)] by (simp add: item_ok_def opt_ok_Some)

definition tombstone :: "crud_world \<Rightarrow> item \<Rightarrow> item" where
  "tombstone w it = it\<lparr>Deleted := Some True, DeletedAt := Some (format_rfc3339 (cr_now w))\<rparr>"

lemma delete_ids_ok:
  assumes "\<And>i it. findItem (Items r) i = Some it \<Longrightarrow>
       ID it = i \<and> i \<noteq> [] \<and> item_ok it \<and> short_item (EnsureArrayFields (tombstone w it))"
    and "dt_ok (cr_now w)"
  shows "ready w1 \<Longrightarrow> cr_now w1 = cr_now w \<Longrightarrow>
    \<exists>warnings w'. delete_ids (format_rfc3339 (cr_now w)) r w1 names =
      (Inr (filter (\<lambda>i. findItem (Items r) i \<noteq> None) names, warnings), w') \<and>
      map dw_ID warnings = filter (\<lambda>i. findItem (Items r) i = None) names \<and> ready w' \<and>
      stored w' = (\<lambda>i. if i \<in> set names \<and> findItem (Items r) i \<noteq> None then None else stored w1 i)"
proof (induction names arbitrary: w1)
  case Nil
  then show ?case by simp
next
  case (Cons i names)
  show ?case
  proof (cases "findItem (Items r) i")
    case None
    from Cons.IH [OF Cons.prems] obtain ws w' where
      "delete_ids (format_rfc3339 (cr_now w)) r w1 names = (Inr (filter (\<lambda>i. findItem (Items r) i \<noteq> None) names, ws), w')"
      "map dw_ID ws = filter (\<lambda>i. findItem (Items r) i = None) names" "ready w'"
      "stored w' = (\<lambda>i. if i \<in> set names \<and> findItem (Items r) i \<noteq> None then None else stored w1 i)"
      by blast
    with None show ?thesis by (auto simp: fun_eq_iff)
  next
    case (Some it)
    note it = assms(1) [OF Some]
    have ok: "item_ok (tombstone w it)" using it assms(2) by (simp add: tombstone_def tombstone_ok)
    have "line_event (item_line (EnsureArrayFields (tombstone w it))) = Del i"
      using item_event(1) [of "EnsureArrayFields (tombstone w it)"] ok it by (simp add: tombstone_def)
    then obtain w2 where a: "cr_append w1 (tombstone w it) = (None, w2)" "ready w2" "cr_now w2 = cr_now w"
        "stored w2 = (stored w1)(i := None)"
      using cr_append_event [OF Cons.prems(1) ok] it Cons.prems(2) by (metis apply_event.simps(2))
    from Cons.IH [OF a(2,3)] obtain ws w' where
      "delete_ids (format_rfc3339 (cr_now w)) r w2 names = (Inr (filter (\<lambda>i. findItem (Items r) i \<noteq> None) names, ws), w')"
      "map dw_ID ws = filter (\<lambda>i. findItem (Items r) i = None) names" "ready w'"
      "stored w' = (\<lambda>i. if i \<in> set names \<and> findItem (Items r) i \<noteq> None then None else stored w2 i)"
      by blast
    with Some a show ?thesis by (auto simp: writeDeleteTombstone_def tombstone_def fun_eq_iff)
  qed
qed

text \<open>C13: Deleting removes exactly the named lessons that exist: the next read returns every other item unchanged,
  the report lists the removed IDs in the order given and one warning for each other ID, and the text
  form fails only when nothing was removed.\<close>

theorem runDelete_removes:
  assumes "ready w" and "dt_ok (cr_now w)" and "args \<noteq> []"
    and "\<And>i it. stored w i = Some it \<Longrightarrow> short_item (EnsureArrayFields (tombstone w it))"
  shows "\<exists>warnings w'. runDelete w args jsonOut =
       (reportDeleteResults (filter (\<lambda>i. stored w i \<noteq> None) args) warnings jsonOut, w') \<and>
     map dw_ID warnings = filter (\<lambda>i. stored w i = None) args \<and>
     ready w' \<and> stored w' = stored w |` (- set args) \<and>
     (snd (reportDeleteResults (filter (\<lambda>i. stored w i \<noteq> None) args) warnings False) \<noteq> None \<longleftrightarrow> stored w' = stored w)"
proof -
  obtain r where r: "cr_read w = Inr r" "\<And>i. findItem (Items r) i = stored w i"
    using cr_read_stored [OF assms(1)] by blast
  have valid: "findItem (Items r) i = Some it \<Longrightarrow>
      ID it = i \<and> i \<noteq> [] \<and> item_ok it \<and> short_item (EnsureArrayFields (tombstone w it))" for i it
    using stored_valid [of w i it] assms(4) [of i it] r(2) by (auto simp: ValidateItem_None)
  obtain ws w' where
    d: "delete_ids (format_rfc3339 (cr_now w)) r w args = (Inr (filter (\<lambda>i. stored w i \<noteq> None) args, ws), w')"
    and ws: "map dw_ID ws = filter (\<lambda>i. stored w i = None) args" and w': "ready w'"
    and s: "stored w' = (\<lambda>i. if i \<in> set args \<and> stored w i \<noteq> None then None else stored w i)"
    using delete_ids_ok [of r w w args, OF valid assms(2) assms(1) refl] unfolding r(2) by blast
  have st: "stored w' = stored w |` (- set args)" unfolding s by (auto simp: restrict_map_def fun_eq_iff)
  have none: "stored w' = stored w \<longleftrightarrow> filter (\<lambda>i. stored w i \<noteq> None) args = []"
    unfolding s by (auto simp: fun_eq_iff filter_empty_conv split: if_splits)
  have "ws \<noteq> []" if "filter (\<lambda>i. stored w i \<noteq> None) args = []"
  proof -
    have "filter (\<lambda>i. stored w i = None) args = args" using that by (auto simp: filter_empty_conv intro: filter_True)
    with ws assms(3) show ?thesis by auto
  qed
  then have "snd (reportDeleteResults (filter (\<lambda>i. stored w i \<noteq> None) args) ws False) \<noteq> None \<longleftrightarrow> stored w' = stored w"
    unfolding none by (simp add: reportDeleteResults_def reportDeleteText_def)
  moreover have "runDelete w args jsonOut = (reportDeleteResults (filter (\<lambda>i. stored w i \<noteq> None) args) ws jsonOut, w')"
    by (simp add: runDelete_def r(1) processDeleteIDs_def d)
  ultimately show ?thesis using ws w' st by blast
qed

theorem runDelete_removes_witness:
  "\<exists>out w'. runDelete one_world [''L1'', ''L2''] False = (out, w') \<and> stored w' = Map.empty"
proof -
  have "short_item (EnsureArrayFields (tombstone one_world one_item))"
  proof (rule short_itemI)
    have "tombstone one_world one_item = one_item\<lparr>Deleted := Some True, DeletedAt := Some (format_rfc3339 sample_now)\<rparr>"
      by (simp add: tombstone_def)
    moreover have "length (item_line (EnsureArrayFields (one_item\<lparr>Deleted := Some True, DeletedAt := Some (format_rfc3339 sample_now)\<rparr>))) < 900"
      by code_simp
    ultimately show "length (item_line (EnsureArrayFields (tombstone one_world one_item))) < 900" by simp
  qed
  then have sh: "stored one_world i = Some it \<Longrightarrow> short_item (EnsureArrayFields (tombstone one_world it))" for i it
    by (simp add: one_world_stored split: if_splits)
  have "stored one_world |` (- set [''L1'', ''L2'']) = Map.empty" by (auto simp: one_world_stored restrict_map_def)
  then show ?thesis
    using runDelete_removes [OF one_world_ready, where args = "[''L1'', ''L2'']" and jsonOut = False] sample_now_ok sh by auto
qed

subsection \<open>wrong and validate\<close>

text \<open>Marking a lesson wrong is undone by validating it: after \<open>wrong\<close> the item is stored with the time and
  the reason of its invalidation, and after \<open>validate\<close> every stored item is what it was before.\<close>

theorem wrong_validate:
  assumes "ready w" and "dt_ok (cr_now w)" and "stored w i = Some it" and "Deleted it \<noteq> Some True"
    and "InvalidatedAt it = None" and "InvalidationReason it = None" and "opt_ok valid_utf8 reason"
    and "short_item it"
    and "short_item (it\<lparr>InvalidatedAt := Some (format_rfc3339 (cr_now w)), InvalidationReason := reason\<rparr>)"
  shows "\<exists>w1 w2. snd (wrongCmd w i reason) = w1 \<and> snd (validateCmd w1 i) = w2 \<and>
     stored w1 = (stored w)(i \<mapsto> it\<lparr>InvalidatedAt := Some (format_rfc3339 (cr_now w)), InvalidationReason := reason\<rparr>) \<and>
     stored w2 = stored w"
proof -
  let ?bad = "it\<lparr>InvalidatedAt := Some (format_rfc3339 (cr_now w)), InvalidationReason := reason\<rparr>"
  note it = stored_valid [OF assms(3)]
  have ens: "EnsureArrayFields it = it" using it ValidateItem_Ensure by blast
  have bad: "ValidateItem ?bad = None" "EnsureArrayFields ?bad = ?bad"
    using it ens by (auto simp: ValidateItem_None intro!: EnsureArrayFields_id)
  have ok: "item_ok ?bad" using it assms(7) format_valid [OF assms(2)] by (auto simp: item_ok_def opt_ok_Some)
  obtain r where r: "cr_read w = Inr r" "findItem (Items r) i = Some it"
    using cr_read_stored [OF assms(1)] assms(3) by metis
  have sel: "ID ?bad = i" "Deleted ?bad \<noteq> Some True" using it assms(4) by simp_all
  have short: "short_item (EnsureArrayFields ?bad)" using assms(9) by (simp only: bad(2))
  obtain w1 where w1: "cr_append w ?bad = (None, w1)" "ready w1" "stored w1 = (stored w)(i \<mapsto> ?bad)"
    using cr_append_put_ex [OF assms(1) ok short _ sel(2)] unfolding sel(1) bad by blast
  have "(case reason of None \<Rightarrow> InvalidationReason it | Some s \<Rightarrow> Some s) = reason" using assms(6) by (cases reason) auto
  then have wrong: "snd (wrongCmd w i reason) = w1" using r w1(1) assms(5) by (simp add: wrongCmd_def Let_def)
  obtain r1 where r1: "cr_read w1 = Inr r1" "findItem (Items r1) i = Some ?bad"
    using cr_read_stored [OF w1(2)] w1(3) by (metis fun_upd_same)
  have undone: "?bad\<lparr>InvalidatedAt := None, InvalidationReason := None\<rparr> = it" using assms(5,6) by (cases it) simp
  obtain w2 where w2: "cr_append w1 it = (None, w2)" "stored w2 = (stored w1)(i \<mapsto> it)"
    using cr_append_put [OF w1(2), of it] it ens assms(4,8) by metis
  have "snd (validateCmd w1 i) = w2" using r1 undone w2(1) by (simp add: validateCmd_def)
  moreover have "stored w2 = stored w" using w2(2) w1(3) assms(3) by (simp add: map_upd_triv)
  ultimately show ?thesis using wrong w1(3) by blast
qed

theorem wrong_validate_witness:
  "stored (snd (validateCmd (snd (wrongCmd one_world ''L1'' None)) ''L1'')) = [''L1'' \<mapsto> one_item]"
proof -
  have "short_item one_item" using sample_short by (simp add: one_item_def)
  moreover have "short_item (one_item\<lparr>InvalidatedAt := Some (format_rfc3339 sample_now), InvalidationReason := None\<rparr>)"
    by (rule short_itemI) code_simp
  ultimately show ?thesis
    using wrong_validate [OF one_world_ready, of "''L1''" one_item None] sample_now_ok
    by (simp add: one_world_stored opt_ok_def)
qed

end
