(* ===== verification/Chunking.thy ===== *)
theory Chunking
  imports MemoryTypes Regex
begin

section \<open>Splitting documents into chunks (knowledge/chunking.go)\<close>

text \<open>
  A file is split into sections by its extension (headings and paragraphs of Markdown, blank lines of
  code and text), and sections are gathered into chunks of about the target size, each starting
  with some lines of the one before. The main lemma, \<open>buildChunks_spans\<close>, describes the chunks as
  overlapping spans that cover the lines of the file in order. SHA-256 is a parameter.
\<close>

subsection \<open>Types and identifiers\<close>

definition DefaultTargetSize :: int where "DefaultTargetSize = 1600"
definition DefaultOverlapSize :: int where "DefaultOverlapSize = 320"

definition SupportedExtensions :: "string list" where
  "SupportedExtensions = [''.md'', ''.txt'', ''.rst'', ''.ts'', ''.tsx'', ''.js'', ''.jsx'', ''.py'']"

definition codeExtensions :: "string list" where
  "codeExtensions = [''.ts'', ''.tsx'', ''.js'', ''.jsx'', ''.py'']"

record chunk =
  ck_ID :: string
  ck_FilePath :: string
  StartLine :: nat
  EndLine :: nat
  ck_Text :: string
  ck_ContentHash :: string

record chunk_options =
  TargetSize :: int
  OverlapSize :: int

definition GenerateChunkID :: "(string \<Rightarrow> string) \<Rightarrow> string \<Rightarrow> nat \<Rightarrow> nat \<Rightarrow> string" where
  "GenerateChunkID sha256 path startLine endLine =
     concat (map hex_byte (take 8 (sha256 (path @ '':'' @ show_int (int startLine) @ '':'' @ show_int (int endLine)))))"

definition ChunkContentHash :: "(string \<Rightarrow> string) \<Rightarrow> string \<Rightarrow> string" where
  "ChunkContentHash sha256 text = concat (map hex_byte (sha256 text))"

record line_obj =
  lineNumber :: nat
  lo_text :: string

text \<open>\<open>filepath.Ext\<close>: from the last dot of the last path element.\<close>

definition file_ext :: "string \<Rightarrow> string" where
  "file_ext path =
     (let r = rev path; tail = takeWhile (\<lambda>c. c \<noteq> CHR ''.'' \<and> c \<noteq> CHR ''/'') r
      in case drop (length tail) r of [] \<Rightarrow> [] | c # _ \<Rightarrow> if c = CHR ''.'' then CHR ''.'' # rev tail else [])"

subsection \<open>Sections\<close>

definition blank :: "line_obj \<Rightarrow> bool" where
  "blank l \<longleftrightarrow> trim_space (lo_text l) = []"

definition headerRegex :: re where
  "headerRegex = seqs [RBegin, RLit ''#'', RPlus True (RLit ''#''), re_s]"

definition isFencedCodeDelimiter :: "string \<Rightarrow> bool" where
  "isFencedCodeDelimiter line = has_prefix (dropWhile (\<lambda>c. c = CHR 0x20 \<or> c = CHR 0x09) line) [CHR 0x60, CHR 0x60, CHR 0x60]"

definition isMarkdownHeading :: "string \<Rightarrow> bool" where
  "isMarkdownHeading line = match_string headerRegex line"

definition hasNonBlank :: "line_obj list \<Rightarrow> bool" where
  "hasNonBlank lines = list_ex (\<lambda>l. \<not> blank l) lines"

type_synonym sections = "line_obj list list \<times> line_obj list"

definition splitMarkdownLine :: "sections \<Rightarrow> line_obj \<Rightarrow> sections" where
  "splitMarkdownLine = (\<lambda>(sections, current) lo.
     if isMarkdownHeading (lo_text lo) \<and> current \<noteq> [] then (sections @ [current], [lo])
     else if blank lo \<and> current \<noteq> [] \<and> hasNonBlank current then (sections @ [current @ [lo]], [])
     else (sections, current @ [lo]))"

definition markdown_line :: "bool \<times> sections \<Rightarrow> line_obj \<Rightarrow> bool \<times> sections" where
  "markdown_line = (\<lambda>(inCodeBlock, sections, current) lo.
     if isFencedCodeDelimiter (lo_text lo) then (\<not> inCodeBlock, sections, current @ [lo])
     else if \<not> inCodeBlock then (inCodeBlock, splitMarkdownLine (sections, current) lo)
     else (inCodeBlock, sections, current @ [lo]))"

definition last_section :: "sections \<Rightarrow> line_obj list list" where
  "last_section = (\<lambda>(sections, current). if current \<noteq> [] then sections @ [current] else sections)"

definition number_lines :: "string list \<Rightarrow> line_obj list" where
  "number_lines fileLines = map (\<lambda>(i, line). \<lparr>lineNumber = i, lo_text = line\<rparr>) (enumerate 1 fileLines)"

definition splitMarkdown :: "string list \<Rightarrow> line_obj list list" where
  "splitMarkdown fileLines = last_section (snd (foldl markdown_line (False, [], []) (number_lines fileLines)))"

fun code_lines :: "sections \<Rightarrow> line_obj list \<Rightarrow> sections" where
  "code_lines (sections, current) [] = (sections, current)"
| "code_lines (sections, current) (lo # rest) =
     (if blank lo \<and> current \<noteq> [] \<and> hasNonBlank rest then code_lines (sections @ [current], [lo]) rest
      else code_lines (sections, current @ [lo]) rest)"

definition splitCode :: "string list \<Rightarrow> line_obj list list" where
  "splitCode fileLines = last_section (code_lines ([], []) (number_lines fileLines))"

definition paragraph_line :: "sections \<Rightarrow> line_obj \<Rightarrow> sections" where
  "paragraph_line = (\<lambda>(sections, current) lo.
     if blank lo \<and> current \<noteq> [] then (sections @ [current], [lo]) else (sections, current @ [lo]))"

definition splitParagraphs :: "string list \<Rightarrow> line_obj list list" where
  "splitParagraphs fileLines = last_section (foldl paragraph_line ([], []) (number_lines fileLines))"

definition splitIntoSections :: "string list \<Rightarrow> string \<Rightarrow> line_obj list list" where
  "splitIntoSections fileLines ext =
     (if ext = ''.md'' then splitMarkdown fileLines
      else if ext = ''.rst'' then splitParagraphs fileLines
      else if ext \<in> set codeExtensions then splitCode fileLines
      else splitParagraphs fileLines)"

subsection \<open>Chunks\<close>

definition joinLines :: "line_obj list \<Rightarrow> string" where
  "joinLines lines = join [CHR 0x0A] (map lo_text lines)"

definition sectionTextLen :: "line_obj list \<Rightarrow> int" where
  "sectionTextLen section = sum_list (map (\<lambda>l. int (length (lo_text l))) section) + (if section = [] then 0 else int (length section) - 1)"

text \<open>The lines that the next chunk repeats, gathered backwards from the end.\<close>

fun take_overlap :: "int \<Rightarrow> line_obj list \<Rightarrow> int \<Rightarrow> line_obj list \<Rightarrow> line_obj list" where
  "take_overlap osize result len [] = result"
| "take_overlap osize result len (l # ls) =
     (let lineLen = int (length (lo_text l)) + 1 in
      if len + lineLen > osize \<and> result \<noteq> [] then result
      else take_overlap osize (l # result) (len + lineLen) ls)"

definition emitChunk :: "(string \<Rightarrow> string) \<Rightarrow> string \<Rightarrow> line_obj list \<Rightarrow> line_obj list \<Rightarrow> int \<Rightarrow> chunk list \<Rightarrow>
    line_obj list \<times> chunk list" where
  "emitChunk sha256 path lines overlapLines overlapSize chunks =
     (if lines = [] then ([], chunks)
      else
        let allLines = overlapLines @ lines; text = joinLines allLines;
            startLine = lineNumber (hd allLines); endLine = lineNumber (last allLines);
            chunks' = chunks @ [\<lparr>ck_ID = GenerateChunkID sha256 path startLine endLine, ck_FilePath = path,
                StartLine = startLine, EndLine = endLine, ck_Text = text, ck_ContentHash = ChunkContentHash sha256 text\<rparr>]
        in (if overlapSize \<le> 0 then [] else take_overlap overlapSize [] 0 (rev lines), chunks'))"

record build_state =
  bs_chunks :: "chunk list"
  accumulated :: "line_obj list"
  accumulatedLength :: int
  bs_overlap :: "line_obj list"

definition build_flush :: "(string \<Rightarrow> string) \<Rightarrow> string \<Rightarrow> int \<Rightarrow> build_state \<Rightarrow> build_state" where
  "build_flush sha256 path overlapSize st =
     (let (ov, cs) = emitChunk sha256 path (accumulated st) (bs_overlap st) overlapSize (bs_chunks st)
      in \<lparr>bs_chunks = cs, accumulated = [], accumulatedLength = 0, bs_overlap = ov\<rparr>)"

definition build_section :: "(string \<Rightarrow> string) \<Rightarrow> string \<Rightarrow> int \<Rightarrow> int \<Rightarrow> build_state \<Rightarrow> line_obj list \<Rightarrow> build_state" where
  "build_section sha256 path targetSize overlapSize st section =
     (let sectionLen = sectionTextLen section;
          st1 = (if accumulatedLength st > 0 \<and> accumulatedLength st + sectionLen > targetSize
                 then build_flush sha256 path overlapSize st else st);
          st2 = st1\<lparr>accumulated := accumulated st1 @ section, accumulatedLength := accumulatedLength st1 + sectionLen\<rparr>
      in if accumulatedLength st2 > targetSize then build_flush sha256 path overlapSize st2 else st2)"

definition buildChunks :: "(string \<Rightarrow> string) \<Rightarrow> line_obj list list \<Rightarrow> string \<Rightarrow> int \<Rightarrow> int \<Rightarrow> chunk list" where
  "buildChunks sha256 sections path targetSize overlapSize =
     (let st = foldl (build_section sha256 path targetSize overlapSize)
                 \<lparr>bs_chunks = [], accumulated = [], accumulatedLength = 0, bs_overlap = []\<rparr> sections
      in if accumulated st \<noteq> []
         then snd (emitChunk sha256 path (accumulated st) (bs_overlap st) overlapSize (bs_chunks st)) else bs_chunks st)"

definition resolveChunkSizes :: "chunk_options option \<Rightarrow> int \<times> int" where
  "resolveChunkSizes opts =
     (case opts of None \<Rightarrow> (DefaultTargetSize, DefaultOverlapSize)
      | Some o1 \<Rightarrow> (if TargetSize o1 > 0 then TargetSize o1 else DefaultTargetSize,
                    if OverlapSize o1 > 0 then OverlapSize o1 else DefaultOverlapSize))"

definition ChunkFile :: "(string \<Rightarrow> string) \<Rightarrow> string \<Rightarrow> string \<Rightarrow> chunk_options option \<Rightarrow> chunk list" where
  "ChunkFile sha256 path content opts =
     (if trim_space content = [] then []
      else if CHR 0x00 \<in> set content then []
      else
        let (targetSize, overlapSize) = resolveChunkSizes opts;
            fileLines = split_on (CHR 0x0A) content;
            ext = to_lower (file_ext path)
        in buildChunks sha256 (splitIntoSections fileLines ext) path targetSize overlapSize)"

subsection \<open>Sections partition the lines\<close>

definition whole :: "sections \<Rightarrow> line_obj list" where
  "whole s = concat (fst s) @ snd s"

lemma whole_step:
  "whole (splitMarkdownLine s lo) = whole s @ [lo]" "whole (paragraph_line s lo) = whole s @ [lo]"
  "whole (snd (markdown_line m lo)) = whole (snd m) @ [lo]"
  by (cases s; cases m; simp add: whole_def splitMarkdownLine_def paragraph_line_def markdown_line_def)+

lemma concat_last_section: "concat (last_section s) = whole s"
  by (cases s) (simp add: last_section_def whole_def)

lemma whole_code: "whole (code_lines s ls) = whole s @ ls"
  by (induction s ls rule: code_lines.induct) (simp_all add: whole_def)

lemma whole_markdown: "whole (snd (foldl markdown_line m ls)) = whole (snd m) @ ls"
  by (induction ls arbitrary: m) (simp_all add: whole_step)

lemma whole_paragraphs: "whole (foldl paragraph_line s ls) = whole s @ ls"
  by (induction ls arbitrary: s) (simp_all add: whole_step)

lemma sections_concat: "concat (splitIntoSections fileLines ext) = number_lines fileLines"
  by (simp add: splitIntoSections_def splitMarkdown_def splitCode_def splitParagraphs_def concat_last_section
      whole_code whole_markdown whole_paragraphs) (simp add: whole_def)

subsection \<open>Overlaps\<close>

lemma take_overlap_suffix:
  "\<exists>p q. rev ls = p @ q \<and> take_overlap osize res len ls = q @ res \<and> (ls \<noteq> [] \<and> res = [] \<longrightarrow> q \<noteq> [])"
proof (induction ls arbitrary: res len)
  case Nil
  then show ?case by simp
next
  case (Cons l ls)
  show ?case
  proof (cases "len + (int (length (lo_text l)) + 1) > osize \<and> res \<noteq> []")
    case True
    then show ?thesis by (intro exI [of _ "rev (l # ls)"] exI [of _ "[]"]) simp
  next
    case False
    obtain p q where "rev ls = p @ q" "take_overlap osize (l # res) (len + (int (length (lo_text l)) + 1)) ls = q @ l # res"
      using Cons.IH [of "l # res" "len + (int (length (lo_text l)) + 1)"] by auto
    with False show ?thesis by (intro exI [of _ p] exI [of _ "q @ [l]"]) (simp add: Let_def)
  qed
qed

text \<open>The overlap stays within its size, except that it always has a whole line.\<close>

definition overlap_len :: "line_obj list \<Rightarrow> int" where
  "overlap_len ls = sum_list (map (\<lambda>l. int (length (lo_text l)) + 1) ls)"

lemma take_overlap_bound:
  "overlap_len res = len \<Longrightarrow> res = [] \<or> length res = 1 \<or> len \<le> osize \<Longrightarrow>
   (let r = take_overlap osize res len ls in length r \<le> 1 \<or> overlap_len r \<le> osize)"
proof (induction ls arbitrary: res len)
  case Nil
  then show ?case by auto
next
  case (Cons l ls)
  show ?case
  proof (cases "len + (int (length (lo_text l)) + 1) > osize \<and> res \<noteq> []")
    case True
    with Cons.prems show ?thesis by auto
  next
    case False
    then have "l # res = [] \<or> length (l # res) = 1 \<or> len + (int (length (lo_text l)) + 1) \<le> osize" by auto
    moreover have "overlap_len (l # res) = len + (int (length (lo_text l)) + 1)"
      using Cons.prems(1) by (simp add: overlap_len_def)
    ultimately have "let r = take_overlap osize (l # res) (len + (int (length (lo_text l)) + 1)) ls in length r \<le> 1 \<or> overlap_len r \<le> osize"
      by (intro Cons.IH)
    moreover have "take_overlap osize res len (l # ls) = take_overlap osize (l # res) (len + (int (length (lo_text l)) + 1)) ls"
      using False by (auto simp: Let_def)
    ultimately show ?thesis by simp
  qed
qed

subsection \<open>Spans\<close>

text \<open>
  Spans of lines \<open>(a, b)\<close>, from position a up to position b: each begins no later than the one before ended
  and ends later; \<open>P\<close> restricts what two neighbours share, and they share at least one line.
\<close>

fun chain :: "(nat \<Rightarrow> nat \<Rightarrow> bool) \<Rightarrow> nat \<Rightarrow> (nat \<times> nat) list \<Rightarrow> nat \<Rightarrow> bool" where
  "chain P e [] n \<longleftrightarrow> e = n"
| "chain P e ((a, b) # s) n \<longleftrightarrow> a \<le> e \<and> e < b \<and> (e = 0 \<or> a < e \<and> P a e) \<and> chain P b s n"

lemma chain_snoc:
  "chain P e s m \<Longrightarrow> a \<le> m \<Longrightarrow> m < b \<Longrightarrow> m = 0 \<or> a < m \<and> P a m \<Longrightarrow> chain P e (s @ [(a, b)]) b"
  by (induction P e s m rule: chain.induct) auto

definition overlap_small :: "int \<Rightarrow> line_obj list \<Rightarrow> nat \<Rightarrow> nat \<Rightarrow> bool" where
  "overlap_small osize ls a e \<longleftrightarrow> e - a \<le> 1 \<or> overlap_len (drop a (take e ls)) \<le> osize"

definition span_chunk :: "(string \<Rightarrow> string) \<Rightarrow> string \<Rightarrow> line_obj list \<Rightarrow> nat \<times> nat \<Rightarrow> chunk" where
  "span_chunk sha256 path ls = (\<lambda>(a, b).
     let part = drop a (take b ls); s = lineNumber (hd part); e = lineNumber (last part)
     in \<lparr>ck_ID = GenerateChunkID sha256 path s e, ck_FilePath = path, StartLine = s, EndLine = e,
         ck_Text = joinLines part, ck_ContentHash = ChunkContentHash sha256 (joinLines part)\<rparr>)"

text \<open>After k lines: the chunks span the first n, the rest is accumulated, the overlap is the end of the n.\<close>

definition built :: "(string \<Rightarrow> string) \<Rightarrow> string \<Rightarrow> int \<Rightarrow> line_obj list \<Rightarrow> nat \<Rightarrow> build_state \<Rightarrow> bool" where
  "built sha256 path osize ls k st \<longleftrightarrow> k \<le> length ls \<and>
     (\<exists>n m spans. n \<le> k \<and> accumulated st = drop n (take k ls) \<and> bs_overlap st = drop m (take n ls) \<and> m \<le> n \<and>
        (n = 0 \<or> m < n \<and> overlap_small osize ls m n) \<and>
        chain (overlap_small osize ls) 0 spans n \<and> bs_chunks st = map (span_chunk sha256 path ls) spans)"

lemma drop_take_join: "m \<le> n \<Longrightarrow> n \<le> k \<Longrightarrow> drop m (take n ls) @ drop n (take k ls) = drop m (take k ls)"
proof -
  assume a: "m \<le> n" "n \<le> k"
  then have "take k ls = take n ls @ drop n (take k ls)" by (metis append_take_drop_id min.absorb1 take_take)
  then have "drop m (take k ls) = drop m (take n ls @ drop n (take k ls))" by simp
  also have "\<dots> = drop m (take n ls) @ drop (m - length (take n ls)) (drop n (take k ls))" by simp
  also have "drop (m - length (take n ls)) (drop n (take k ls)) = drop n (take k ls)"
    using a by (cases "n \<le> length ls") auto
  finally show ?thesis ..
qed

lemma emit_built:
  assumes "built sha256 path osize ls k st" and "accumulated st \<noteq> []" and "osize > 0"
  shows "built sha256 path osize ls k (build_flush sha256 path osize st)" and
    "accumulated (build_flush sha256 path osize st) = []"
    and "\<exists>spans. chain (overlap_small osize ls) 0 spans k \<and>
       snd (emitChunk sha256 path (accumulated st) (bs_overlap st) osize (bs_chunks st)) = map (span_chunk sha256 path ls) spans"
proof -
  from assms(1) obtain n m spans where k: "k \<le> length ls" and n: "n \<le> k" "accumulated st = drop n (take k ls)"
    and m: "bs_overlap st = drop m (take n ls)" "m \<le> n" "n = 0 \<or> m < n \<and> overlap_small osize ls m n"
    and c: "chain (overlap_small osize ls) 0 spans n" "bs_chunks st = map (span_chunk sha256 path ls) spans"
    unfolding built_def by blast
  have lt: "n < k" using assms(2) n(2) k by auto
  have all: "bs_overlap st @ accumulated st = drop m (take k ls)"
    using drop_take_join [OF m(2) n(1)] n(2) m(1) by simp
  let ?ov = "take_overlap osize [] 0 (rev (accumulated st))"
  have em: "emitChunk sha256 path (accumulated st) (bs_overlap st) osize (bs_chunks st) =
      (?ov, map (span_chunk sha256 path ls) (spans @ [(m, k)]))"
    using assms(2,3) by (simp add: emitChunk_def Let_def all c(2) span_chunk_def)
  have ch: "chain (overlap_small osize ls) 0 (spans @ [(m, k)]) k"
    using chain_snoc [OF c(1) m(2) lt] m(3) by auto
  then show "\<exists>spans. chain (overlap_small osize ls) 0 spans k \<and>
       snd (emitChunk sha256 path (accumulated st) (bs_overlap st) osize (bs_chunks st)) = map (span_chunk sha256 path ls) spans"
    unfolding em by (intro exI [of _ "spans @ [(m, k)]"]) simp
  obtain p q where pq: "accumulated st = p @ q" "?ov = q" "q \<noteq> []"
    using take_overlap_suffix [of "rev (accumulated st)" osize "[]" 0] assms(2) unfolding rev_rev_ident append_Nil2
    by (metis rev_is_Nil_conv)
  let ?m = "n + length p"
  have len: "length (accumulated st) = k - n" using n(2) k by simp
  have lenpq: "length p + length q = k - n" using len pq(1) by simp
  have q: "q = drop ?m (take k ls)"
  proof -
    have "q = drop (length p) (accumulated st)" by (simp add: pq(1))
    then show ?thesis by (simp add: n(2) add.commute)
  qed
  have mk: "?m < k" using lenpq pq(3) lt by (cases q) auto
  have small: "overlap_small osize ls ?m k"
  proof -
    have "length ?ov \<le> 1 \<or> overlap_len ?ov \<le> osize"
      using take_overlap_bound [of "[]" 0 osize "rev (accumulated st)"] by (simp add: overlap_len_def Let_def)
    then show ?thesis unfolding pq(2) overlap_small_def using q lenpq mk by auto
  qed
  show "built sha256 path osize ls k (build_flush sha256 path osize st)"
    unfolding built_def
  proof (intro conjI k exI)
    show "accumulated (build_flush sha256 path osize st) = drop k (take k ls)" by (simp add: build_flush_def em)
    show "bs_overlap (build_flush sha256 path osize st) = drop ?m (take k ls)" using q pq(2) by (simp add: build_flush_def em)
    show "bs_chunks (build_flush sha256 path osize st) = map (span_chunk sha256 path ls) (spans @ [(m, k)])"
      by (simp add: build_flush_def em)
    show "k = 0 \<or> ?m < k \<and> overlap_small osize ls ?m k" using mk small by simp
  qed (use mk ch in auto)
  show "accumulated (build_flush sha256 path osize st) = []" by (simp add: build_flush_def em)
qed

lemma append_built:
  assumes "built sha256 path osize ls k st" and "section = drop k (take k' ls)" and "k \<le> k'" and "k' \<le> length ls"
  shows "built sha256 path osize ls k' (st\<lparr>accumulated := accumulated st @ section, accumulatedLength := x\<rparr>)"
proof -
  from assms(1) obtain n m spans where n: "n \<le> k" "accumulated st = drop n (take k ls)"
    and m: "bs_overlap st = drop m (take n ls)" "m \<le> n" "n = 0 \<or> m < n \<and> overlap_small osize ls m n"
    and c: "chain (overlap_small osize ls) 0 spans n" "bs_chunks st = map (span_chunk sha256 path ls) spans"
    unfolding built_def by blast
  have "accumulated st @ section = drop n (take k' ls)" using drop_take_join [OF n(1) assms(3)] n(2) assms(2) by simp
  moreover have "n \<le> k'" using n(1) assms(3) by simp
  ultimately show ?thesis unfolding built_def using m c assms(4)
    by (intro conjI exI [of _ n] exI [of _ m] exI [of _ spans]) simp_all
qed

definition len_ok :: "build_state \<Rightarrow> bool" where
  "len_ok st \<longleftrightarrow> (accumulatedLength st > 0 \<longrightarrow> accumulated st \<noteq> [])"

lemma flush_len_ok: "len_ok (build_flush sha256 path osize st)"
  by (simp add: len_ok_def build_flush_def split: prod.splits)

lemma section_built:
  assumes "built sha256 path osize ls k st" and "len_ok st" and "section = drop k (take k' ls)" and "k \<le> k'" and "k' \<le> length ls"
    and "osize > 0" and "tsize > 0"
  shows "built sha256 path osize ls k' (build_section sha256 path tsize osize st section) \<and>
     len_ok (build_section sha256 path tsize osize st section)"
proof -
  define st1 where "st1 = (if accumulatedLength st > 0 \<and> accumulatedLength st + sectionTextLen section > tsize
                 then build_flush sha256 path osize st else st)"
  have st1: "built sha256 path osize ls k st1 \<and> len_ok st1"
  proof (cases "accumulatedLength st > 0 \<and> accumulatedLength st + sectionTextLen section > tsize")
    case True
    then have "accumulated st \<noteq> []" using assms(2) by (simp add: len_ok_def)
    from emit_built(1) [OF assms(1) this assms(6)] flush_len_ok True show ?thesis by (simp add: st1_def)
  next
    case False
    with assms(1,2) show ?thesis by (simp only: st1_def if_False)
  qed
  define st2 where "st2 = st1\<lparr>accumulated := accumulated st1 @ section, accumulatedLength := accumulatedLength st1 + sectionTextLen section\<rparr>"
  have st2: "built sha256 path osize ls k' st2" unfolding st2_def by (rule append_built [OF conjunct1 [OF st1] assms(3-5)])
  have pos: "accumulatedLength st2 > 0 \<Longrightarrow> accumulated st2 \<noteq> []"
    using st1 by (cases "section") (auto simp: st2_def len_ok_def sectionTextLen_def)
  have eq: "build_section sha256 path tsize osize st section =
      (if accumulatedLength st2 > tsize then build_flush sha256 path osize st2 else st2)"
    by (simp add: build_section_def st1_def st2_def Let_def)
  show ?thesis
  proof (cases "accumulatedLength st2 > tsize")
    case True
    with pos assms(7) have "accumulated st2 \<noteq> []" by simp
    with emit_built(1) [OF st2 this assms(6)] True eq show ?thesis by (simp add: flush_len_ok)
  next
    case False
    with st2 pos eq show ?thesis by (simp add: len_ok_def)
  qed
qed

lemma sections_built:
  "built sha256 path osize ls k st \<Longrightarrow> len_ok st \<Longrightarrow> concat sections = drop k ls \<Longrightarrow> osize > 0 \<Longrightarrow> tsize > 0 \<Longrightarrow>
   built sha256 path osize ls (length ls) (foldl (build_section sha256 path tsize osize) st sections)"
proof (induction sections arbitrary: k st)
  case Nil
  then have "length ls = k" by (auto simp: built_def)
  with Nil show ?case by simp
next
  case (Cons sc secs)
  let ?k' = "k + length sc"
  have k: "k \<le> length ls" using Cons.prems(1) by (simp add: built_def)
  have cc: "sc @ concat secs = drop k ls" using Cons.prems(3) by simp
  then have "length sc + length (concat secs) = length ls - k" by (metis length_append length_drop)
  then have k': "?k' \<le> length ls" using k by simp
  have "take (length sc) (drop k ls) = sc" by (simp flip: cc)
  then have s: "sc = drop k (take ?k' ls)" by (simp add: take_drop add.commute)
  have "drop (length sc) (drop k ls) = concat secs" by (simp flip: cc)
  then have r: "concat secs = drop ?k' ls" by (simp add: add.commute)
  from section_built [OF Cons.prems(1,2) s _ k' Cons.prems(4,5)]
  show ?case using Cons.IH [OF _ _ r Cons.prems(4,5)] by simp
qed

lemma buildChunks_spans:
  assumes "concat sections = ls" and "tsize > 0" and "osize > 0"
  shows "\<exists>spans. chain (overlap_small osize ls) 0 spans (length ls) \<and>
     buildChunks sha256 sections path tsize osize = map (span_chunk sha256 path ls) spans"
proof -
  define st where "st = foldl (build_section sha256 path tsize osize)
     \<lparr>bs_chunks = [], accumulated = [], accumulatedLength = 0, bs_overlap = []\<rparr> sections"
  have "built sha256 path osize ls 0 \<lparr>bs_chunks = [], accumulated = [], accumulatedLength = 0, bs_overlap = []\<rparr>"
    unfolding built_def by (auto intro!: exI [of _ "[]"])
  then have b: "built sha256 path osize ls (length ls) st"
    unfolding st_def using assms by (intro sections_built [where k = 0]) (simp_all add: len_ok_def)
  show ?thesis
  proof (cases "accumulated st = []")
    case False
    with emit_built(3) [OF b False assms(3)] show ?thesis by (simp add: buildChunks_def st_def [symmetric])
  next
    case True
    from b obtain n spans where n: "n \<le> length ls" "accumulated st = drop n ls"
      and c: "chain (overlap_small osize ls) 0 spans n" "bs_chunks st = map (span_chunk sha256 path ls) spans"
      unfolding built_def by auto
    from n True have "n = length ls" by simp
    with c True show ?thesis by (auto simp: buildChunks_def st_def [symmetric])
  qed
qed

subsection \<open>What a chunked file looks like\<close>

lemma number_lines_part:
  assumes "a < b" and "b \<le> length fileLines"
  shows "lineNumber (hd (drop a (take b (number_lines fileLines)))) = a + 1"
    and "lineNumber (last (drop a (take b (number_lines fileLines)))) = b"
    and "joinLines (drop a (take b (number_lines fileLines))) = join [CHR 0x0A] (drop a (take b fileLines))"
proof -
  have nth: "lineNumber (number_lines fileLines ! i) = i + 1" if "i < length fileLines" for i
    using that by (simp add: number_lines_def nth_enumerate_eq)
  have len: "length (number_lines fileLines) = length fileLines" by (simp add: number_lines_def)
  show "lineNumber (hd (drop a (take b (number_lines fileLines)))) = a + 1"
    using assms by (simp add: hd_drop_conv_nth len nth)
  have "last (drop a (take b (number_lines fileLines))) = number_lines fileLines ! (b - 1)"
    using assms by (simp add: last_drop len last_conv_nth)
  then show "lineNumber (last (drop a (take b (number_lines fileLines)))) = b" using assms by (simp add: nth)
  have "map lo_text (number_lines fileLines) = fileLines" by (simp add: number_lines_def case_prod_unfold comp_def)
  then show "joinLines (drop a (take b (number_lines fileLines))) = join [CHR 0x0A] (drop a (take b fileLines))"
    by (simp add: joinLines_def drop_map [symmetric] take_map [symmetric])
qed

lemma chain_bounds: "chain P e s n \<Longrightarrow> (a, b) \<in> set s \<Longrightarrow> a < b \<and> b \<le> n"
proof (induction P e s n rule: chain.induct)
  case (2 P e a' b' s n)
  have "chain P b s n \<Longrightarrow> b \<le> n" for b s by (induction P b s n rule: chain.induct) auto
  with 2 show ?case by fastforce
qed simp

text \<open>The text of lines \<open>(a, b)\<close> of a file as a chunk.\<close>

definition lines_chunk :: "(string \<Rightarrow> string) \<Rightarrow> string \<Rightarrow> string list \<Rightarrow> nat \<times> nat \<Rightarrow> chunk" where
  "lines_chunk sha256 path fileLines = (\<lambda>(a, b).
     let text = join [CHR 0x0A] (drop a (take b fileLines))
     in \<lparr>ck_ID = GenerateChunkID sha256 path (a + 1) b, ck_FilePath = path, StartLine = a + 1, EndLine = b,
         ck_Text = text, ck_ContentHash = ChunkContentHash sha256 text\<rparr>)"

lemma span_lines_chunk:
  "a < b \<Longrightarrow> b \<le> length fileLines \<Longrightarrow> span_chunk sha256 path (number_lines fileLines) (a, b) = lines_chunk sha256 path fileLines (a, b)"
  by (simp add: span_chunk_def lines_chunk_def number_lines_part Let_def)

lemma resolve_pos: "resolveChunkSizes opts = (t, z) \<Longrightarrow> 0 < t \<and> 0 < z"
  by (auto simp: resolveChunkSizes_def DefaultTargetSize_def DefaultOverlapSize_def split: option.splits if_splits)

lemma ChunkFile_none: "trim_space content = [] \<or> CHR 0x00 \<in> set content \<Longrightarrow> ChunkFile sha256 path content opts = []"
  by (auto simp: ChunkFile_def)

lemma ChunkFile_chain:
  assumes "trim_space content \<noteq> [] \<and> CHR 0x00 \<notin> set content"
  shows "\<exists>spans. ChunkFile sha256 path content opts = map (lines_chunk sha256 path (split_on (CHR 0x0A) content)) spans \<and>
      chain (overlap_small (snd (resolveChunkSizes opts)) (number_lines (split_on (CHR 0x0A) content))) 0 spans
        (length (split_on (CHR 0x0A) content))"
proof -
  let ?ls = "split_on (CHR 0x0A) content"
  obtain t z where tz: "resolveChunkSizes opts = (t, z)" by (cases "resolveChunkSizes opts")
  from resolve_pos [OF tz] obtain spans where c: "chain (overlap_small z (number_lines ?ls)) 0 spans (length (number_lines ?ls))"
    and e: "buildChunks sha256 (splitIntoSections ?ls (to_lower (file_ext path))) path t z = map (span_chunk sha256 path (number_lines ?ls)) spans"
    using buildChunks_spans [OF sections_concat, of t z] by blast
  have len: "length (number_lines ?ls) = length ?ls" by (simp add: number_lines_def)
  have "map (span_chunk sha256 path (number_lines ?ls)) spans = map (lines_chunk sha256 path ?ls) spans"
    using chain_bounds [OF c] by (auto simp: span_lines_chunk len)
  with assms e c show ?thesis by (intro exI [of _ spans]) (simp add: ChunkFile_def tz len)
qed

lemma ChunkFile_cases:
  obtains "ChunkFile sha256 path content opts = []"
  | spans where "ChunkFile sha256 path content opts = map (lines_chunk sha256 path (split_on (CHR 0x0A) content)) spans"
      "chain (overlap_small (snd (resolveChunkSizes opts)) (number_lines (split_on (CHR 0x0A) content))) 0 spans
        (length (split_on (CHR 0x0A) content))"
  using ChunkFile_chain ChunkFile_none by metis

lemma ChunkFile_lines_chunk: "c \<in> set (ChunkFile sha256 path content opts) \<Longrightarrow> ck_FilePath c = path"
  by (cases rule: ChunkFile_cases [of sha256 path content opts]) (auto simp: lines_chunk_def Let_def)

lemma chain_ends: "chain P e s n \<Longrightarrow> sorted_wrt (<) (e # map snd s)"
proof (induction P e s n rule: chain.induct)
  case (2 P e a b s n)
  then have "sorted_wrt (<) (b # map snd s)" "e < b" by simp_all
  then show ?case by auto
qed simp

lemma ChunkFile_ends_distinct: "distinct (map EndLine (ChunkFile sha256 path content opts))"
proof -
  have e: "map EndLine (map (lines_chunk sha256 path ls) spans) = map snd spans" for ls spans
    by (simp add: lines_chunk_def Let_def case_prod_unfold comp_def)
  show ?thesis
  proof (cases rule: ChunkFile_cases [of sha256 path content opts])
    case (2 spans)
    then show ?thesis using chain_ends [OF 2(2)] unfolding 2(1) e by (simp add: strict_sorted_iff)
  qed simp
qed

text \<open>C16: Chunking loses no line: the chunks of a text file are spans of its lines, in order, each carrying exactly
  the text of its lines and their numbers; the first begins at line 1, each further one ends later than
  the one before and repeats at least its last line and, beyond that line, no more than the overlap
  size, and the last one ends at the last line. A blank file or one with a NUL byte has none.\<close>

theorem ChunkFile_spans:
  "(trim_space content = [] \<or> CHR 0x00 \<in> set content \<longrightarrow> ChunkFile sha256 path content opts = []) \<and>
   (trim_space content \<noteq> [] \<and> CHR 0x00 \<notin> set content \<longrightarrow>
     (\<exists>spans. ChunkFile sha256 path content opts = map (lines_chunk sha256 path (split_on (CHR 0x0A) content)) spans \<and>
        chain (overlap_small (snd (resolveChunkSizes opts)) (number_lines (split_on (CHR 0x0A) content))) 0 spans
          (length (split_on (CHR 0x0A) content))))"
  using ChunkFile_chain ChunkFile_none by blast

theorem ChunkFile_spans_witness:
  "\<exists>spans. ChunkFile id ''a.md'' ''x'' None = map (lines_chunk id ''a.md'' [''x'']) spans \<and>
     chain (overlap_small (snd (resolveChunkSizes None)) (number_lines [''x''])) 0 spans 1"
proof -
  have "trim_space ''x'' \<noteq> []" "split_on (CHR 0x0A) ''x'' = [''x'']" by code_simp+
  then show ?thesis using ChunkFile_spans [of "''x''" id "''a.md''" None] by simp
qed

end
