(* ===== verification/Knowledge.thy ===== *)
theory Knowledge
  imports Chunking Search
begin

section \<open>The knowledge index (storage/knowledge_db.go and package knowledge)\<close>

text \<open>
  storage/knowledge_db.go keeps chunks of documents with their embeddings and, in a metadata table, the hash of
  each indexed file; knowledge/indexing.go brings the tables in line with the files, knowledge/embedding.go
  embeds the chunks in batches, knowledge/search.go searches by vector and keyword. A write to the
  database is one transaction that succeeds or leaves the tables alone: \<open>kd_faults\<close> says which of the
  next writes fail. A read that fails returns the zero value: \<open>kd_unreadable\<close>. Rows are in the order of
  their rowid. The walk over the directory, the files' contents, SHA-256, the clock, the full-text
  engine and the embedder are parameters.
\<close>

subsection \<open>Tables\<close>

record kchunk =
  kc_ID :: string
  kc_FilePath :: string
  kc_StartLine :: nat
  kc_EndLine :: nat
  kc_ContentHash :: string
  kc_Text :: string
  kc_Model :: string
  kc_UpdatedAt :: string

definition kchunk0 :: kchunk where
  "kchunk0 = \<lparr>kc_ID = [], kc_FilePath = [], kc_StartLine = 0, kc_EndLine = 0, kc_ContentHash = [], kc_Text = [],
     kc_Model = [], kc_UpdatedAt = []\<rparr>"

text \<open>An empty model is stored as NULL and read back as empty.\<close>

record krow =
  kr_chunk :: kchunk
  kr_embedding :: "string option"

record knowledge_db =
  kd_rows :: "krow list"
  kd_meta :: "(string, string) gomap"
  kd_unreadable :: bool
  kd_faults :: "bool list"

definition kd_write :: "(knowledge_db \<Rightarrow> knowledge_db) \<Rightarrow> knowledge_db \<Rightarrow> bool \<times> knowledge_db" where
  "kd_write f db =
     (case kd_faults db of [] \<Rightarrow> (True, f db)
      | fails # rest \<Rightarrow> if fails then (False, db\<lparr>kd_faults := rest\<rparr>) else (True, f (db\<lparr>kd_faults := rest\<rparr>)))"

subsection \<open>Chunks\<close>

text \<open>INSERT OR REPLACE: the row of the same ID goes, the new one comes last.\<close>

definition upsert_row :: "krow list \<Rightarrow> kchunk \<Rightarrow> krow list" where
  "upsert_row rows c = filter (\<lambda>r. kc_ID (kr_chunk r) \<noteq> kc_ID c) rows @ [\<lparr>kr_chunk = c, kr_embedding = None\<rparr>]"

definition UpsertChunks :: "kchunk list \<Rightarrow> knowledge_db \<Rightarrow> bool \<times> knowledge_db" where
  "UpsertChunks chunks db =
     (if chunks = [] then (True, db)
      else kd_write (\<lambda>d. d\<lparr>kd_rows := foldl upsert_row (kd_rows d) chunks\<rparr>) db)"

definition DeleteChunksByFilePath :: "string list \<Rightarrow> knowledge_db \<Rightarrow> bool \<times> knowledge_db" where
  "DeleteChunksByFilePath paths db =
     (if paths = [] then (True, db)
      else kd_write (\<lambda>d. d\<lparr>kd_rows := filter (\<lambda>r. kc_FilePath (kr_chunk r) \<notin> set paths) (kd_rows d)\<rparr>) db)"

definition GetChunkCount :: "knowledge_db \<Rightarrow> nat" where
  "GetChunkCount db = (if kd_unreadable db then 0 else length (kd_rows db))"

definition GetChunkCountByFilePath :: "knowledge_db \<Rightarrow> string \<Rightarrow> nat" where
  "GetChunkCountByFilePath db path =
     (if kd_unreadable db then 0 else length (filter (\<lambda>r. kc_FilePath (kr_chunk r) = path) (kd_rows db)))"

definition GetIndexedFilePaths :: "knowledge_db \<Rightarrow> string list" where
  "GetIndexedFilePaths db =
     (if kd_unreadable db then [] else dedup_seen [] (map (\<lambda>r. kc_FilePath (kr_chunk r)) (kd_rows db)))"

subsection \<open>Metadata\<close>

definition fileHashKey :: "string \<Rightarrow> string" where
  "fileHashKey path = ''file_hash:'' @ path"

definition meta_value :: "knowledge_db \<Rightarrow> string \<Rightarrow> string" where
  "meta_value db key =
     (if kd_unreadable db then [] else case map_of (kd_meta db) key of None \<Rightarrow> [] | Some v \<Rightarrow> v)"

definition GetFileHash :: "knowledge_db \<Rightarrow> string \<Rightarrow> string" where
  "GetFileHash db path = meta_value db (fileHashKey path)"

definition SetFileHash :: "string \<Rightarrow> string \<Rightarrow> knowledge_db \<Rightarrow> bool \<times> knowledge_db" where
  "SetFileHash path h db = kd_write (\<lambda>d. d\<lparr>kd_meta := AList.update (fileHashKey path) h (kd_meta d)\<rparr>) db"

definition RemoveFileHash :: "string \<Rightarrow> knowledge_db \<Rightarrow> bool \<times> knowledge_db" where
  "RemoveFileHash path db = kd_write (\<lambda>d. d\<lparr>kd_meta := AList.delete (fileHashKey path) (kd_meta d)\<rparr>) db"

definition GetLastIndexTime :: "knowledge_db \<Rightarrow> string" where
  "GetLastIndexTime db = meta_value db ''last_index_time''"

definition SetLastIndexTime :: "string \<Rightarrow> knowledge_db \<Rightarrow> bool \<times> knowledge_db" where
  "SetLastIndexTime t db = kd_write (\<lambda>d. d\<lparr>kd_meta := AList.update ''last_index_time'' t (kd_meta d)\<rparr>) db"

subsection \<open>Embeddings\<close>

definition embedding_row :: "(32 word \<Rightarrow> real) \<Rightarrow> (string, cached_embedding) gomap \<Rightarrow> krow \<Rightarrow> (string, cached_embedding) gomap" where
  "embedding_row frombits m r =
     (case kr_embedding r of None \<Rightarrow> m
      | Some blob \<Rightarrow>
          if blob = [] then m
          else AList.update (kc_ID (kr_chunk r))
                 \<lparr>ce_Vector = blobToFloat64 frombits blob, ce_Hash = kc_ContentHash (kr_chunk r)\<rparr> m)"

definition GetAllEmbeddings :: "(32 word \<Rightarrow> real) \<Rightarrow> knowledge_db \<Rightarrow> (string, cached_embedding) gomap" where
  "GetAllEmbeddings frombits db = (if kd_unreadable db then [] else foldl (embedding_row frombits) [] (kd_rows db))"

record chunk_embedding =
  cem_ID :: string
  cem_Vector :: "real list"
  cem_ContentHash :: string

definition set_embedding :: "(real \<Rightarrow> 32 word) \<Rightarrow> krow list \<Rightarrow> chunk_embedding \<Rightarrow> krow list" where
  "set_embedding bits rows e =
     map (\<lambda>r. if kc_ID (kr_chunk r) = cem_ID e
              then r\<lparr>kr_embedding := Some (float64ToBlob bits (cem_Vector e)),
                     kr_chunk := (kr_chunk r)\<lparr>kc_ContentHash := cem_ContentHash e\<rparr>\<rparr> else r) rows"

definition SetChunkEmbedding :: "(real \<Rightarrow> 32 word) \<Rightarrow> string \<Rightarrow> real list \<Rightarrow> string \<Rightarrow> knowledge_db \<Rightarrow> bool \<times> knowledge_db" where
  "SetChunkEmbedding bits i v h db =
     kd_write (\<lambda>d. d\<lparr>kd_rows := set_embedding bits (kd_rows d) \<lparr>cem_ID = i, cem_Vector = v, cem_ContentHash = h\<rparr>\<rparr>) db"

definition SetChunkEmbeddingBatch :: "(real \<Rightarrow> 32 word) \<Rightarrow> chunk_embedding list \<Rightarrow> knowledge_db \<Rightarrow> bool \<times> knowledge_db" where
  "SetChunkEmbeddingBatch bits batch db = kd_write (\<lambda>d. d\<lparr>kd_rows := foldl (set_embedding bits) (kd_rows d) batch\<rparr>) db"

text \<open>Only three columns are read.\<close>

definition brief :: "krow \<Rightarrow> kchunk" where
  "brief r = kchunk0\<lparr>kc_ID := kc_ID (kr_chunk r), kc_Text := kc_Text (kr_chunk r), kc_ContentHash := kc_ContentHash (kr_chunk r)\<rparr>"

definition GetAllChunks :: "knowledge_db \<Rightarrow> kchunk list" where
  "GetAllChunks db = (if kd_unreadable db then [] else map brief (kd_rows db))"

definition GetUnembeddedChunks :: "knowledge_db \<Rightarrow> kchunk list" where
  "GetUnembeddedChunks db = (if kd_unreadable db then [] else map brief (filter (\<lambda>r. kr_embedding r = None) (kd_rows db)))"

definition HydrateChunks :: "knowledge_db \<Rightarrow> string list \<Rightarrow> kchunk list" where
  "HydrateChunks db ids =
     (if ids = [] \<or> kd_unreadable db then [] else filter (\<lambda>c. kc_ID c \<in> set ids) (map kr_chunk (kd_rows db)))"

subsection \<open>Keyword search\<close>

record scored_kchunk =
  sk_Chunk :: kchunk
  sk_Score :: real

definition krank_before :: "krow \<times> real \<Rightarrow> krow \<times> real \<Rightarrow> bool" where
  "krank_before a b \<longleftrightarrow> snd a < snd b"

definition SearchChunksKeywordScored where
  "SearchChunksKeywordScored fts order_by db query limit =
     (let sanitized = SanitizeFtsQuery query in
      if sanitized = [] \<or> kd_unreadable db then []
      else case fts (kd_rows db) sanitized of None \<Rightarrow> []
        | Some hits \<Rightarrow>
            map (\<lambda>(r, k). \<lparr>sk_Chunk = kr_chunk r, sk_Score = normalizeBm25Rank (Some k)\<rparr>)
              (sql_limit limit (order_by krank_before hits)))"

subsection \<open>Indexing (knowledge/indexing.go)\<close>

record index_env =
  ie_sha256 :: "string \<Rightarrow> string"
  ie_now :: string
  ie_walked :: "string list"               \<comment> \<open>the files below the directory, relative to the repository\<close>
  ie_content :: "string \<Rightarrow> string option"

record index_result =
  FilesIndexed :: int
  FilesSkipped :: int
  FilesErrored :: int
  ChunksCreated :: int
  ChunksDeleted :: int

definition index_result0 :: index_result where
  "index_result0 = \<lparr>FilesIndexed = 0, FilesSkipped = 0, FilesErrored = 0, ChunksCreated = 0, ChunksDeleted = 0\<rparr>"

definition fileHash :: "(string \<Rightarrow> string) \<Rightarrow> string \<Rightarrow> string" where
  "fileHash sha256 content = concat (map hex_byte (sha256 content))"

definition toKnowledgeChunks :: "index_env \<Rightarrow> string \<Rightarrow> string \<Rightarrow> kchunk list" where
  "toKnowledgeChunks env path content =
     map (\<lambda>c. \<lparr>kc_ID = ck_ID c, kc_FilePath = ck_FilePath c, kc_StartLine = StartLine c, kc_EndLine = EndLine c,
              kc_ContentHash = ck_ContentHash c, kc_Text = ck_Text c, kc_Model = [], kc_UpdatedAt = ie_now env\<rparr>)
       (ChunkFile (ie_sha256 env) path content None)"

text \<open>The count is -1 for an error, as in the code.\<close>

definition indexSingleFile :: "index_env \<Rightarrow> bool \<Rightarrow> string \<Rightarrow> knowledge_db \<Rightarrow> (bool \<times> int) \<times> knowledge_db" where
  "indexSingleFile env force path db =
     (case ie_content env path of None \<Rightarrow> ((False, -1), db)
      | Some content \<Rightarrow>
          (let h = fileHash (ie_sha256 env) content in
           if \<not> force \<and> GetFileHash db path = h then ((False, 0), db)
           else
             let kChunks = toKnowledgeChunks env path content; (ok1, db1) = DeleteChunksByFilePath [path] db in
             if \<not> ok1 then ((False, -1), db1)
             else
               let (ok2, db2) = (if kChunks \<noteq> [] then UpsertChunks kChunks db1 else (True, db1)) in
               if \<not> ok2 then ((False, -1), db2)
               else
                 let (ok3, db3) = SetFileHash path h db2 in
                 if \<not> ok3 then ((False, -1), db3) else ((True, int (length kChunks)), db3)))"

definition count_file :: "bool \<times> int \<Rightarrow> index_result \<Rightarrow> index_result" where
  "count_file = (\<lambda>(indexed, chunks) st.
     if indexed then st\<lparr>FilesIndexed := FilesIndexed st + 1, ChunksCreated := ChunksCreated st + chunks\<rparr>
     else if chunks = -1 then st\<lparr>FilesErrored := FilesErrored st + 1\<rparr>
     else st\<lparr>FilesSkipped := FilesSkipped st + 1\<rparr>)"

fun indexFiles :: "index_env \<Rightarrow> bool \<Rightarrow> string list \<Rightarrow> index_result \<Rightarrow> knowledge_db \<Rightarrow> index_result \<times> knowledge_db" where
  "indexFiles env force [] st db = (st, db)"
| "indexFiles env force (path # paths) st db =
     (let (res, db1) = indexSingleFile env force path db in indexFiles env force paths (count_file res st) db1)"

text \<open>A failing removal of a hash is ignored.\<close>

definition remove_hashes :: "string list \<Rightarrow> knowledge_db \<Rightarrow> knowledge_db" where
  "remove_hashes paths db = foldl (\<lambda>d p. snd (RemoveFileHash p d)) db paths"

definition syncDeletedFiles :: "string list \<Rightarrow> index_result \<Rightarrow> knowledge_db \<Rightarrow> (bool \<times> index_result) \<times> knowledge_db" where
  "syncDeletedFiles currentFiles st db =
     (let stale = filter (\<lambda>p. p \<notin> set currentFiles) (GetIndexedFilePaths db) in
      if stale = [] then ((True, st), db)
      else
        let st1 = st\<lparr>ChunksDeleted := ChunksDeleted st + int (sum_list (map (GetChunkCountByFilePath db) stale))\<rparr>;
            (ok, db1) = DeleteChunksByFilePath stale db
        in if \<not> ok then ((False, st1), db1) else ((True, st1), remove_hashes stale db1))"

definition walkSupportedFiles :: "index_env \<Rightarrow> string list" where
  "walkSupportedFiles env = filter (\<lambda>p. to_lower (file_ext p) \<in> set SupportedExtensions) (ie_walked env)"

definition IndexDocs :: "index_env \<Rightarrow> bool \<Rightarrow> knowledge_db \<Rightarrow> (bool \<times> index_result) \<times> knowledge_db" where
  "IndexDocs env force db =
     (let paths = walkSupportedFiles env; (st, db1) = indexFiles env force paths index_result0 db;
          ((ok, st1), db2) = syncDeletedFiles paths st db1
      in if \<not> ok then ((False, st1), db2) else ((True, st1), snd (SetLastIndexTime (ie_now env) db2)))"

subsection \<open>Embedding (knowledge/embedding.go)\<close>

definition EmbedBatchSize :: nat where "EmbedBatchSize = 16"

datatype embed_error = EmbedBatch | WrongCount nat nat | WriteBatch

record embed_result =
  ChunksEmbedded :: int
  ChunksSkipped :: int

definition selectChunksToEmbed :: "knowledge_db \<Rightarrow> bool option \<Rightarrow> kchunk list" where
  "selectChunksToEmbed db onlyMissing =
     (case onlyMissing of Some False \<Rightarrow> GetAllChunks db | _ \<Rightarrow> GetUnembeddedChunks db)"

definition embedBatch :: "(real \<Rightarrow> 32 word) \<Rightarrow> embedder \<Rightarrow> kchunk list \<Rightarrow> knowledge_db \<Rightarrow> (int \<times> embed_error option) \<times> knowledge_db" where
  "embedBatch bits emb batch db =
     (case emb (map kc_Text batch) of None \<Rightarrow> ((0, Some EmbedBatch), db)
      | Some vectors \<Rightarrow>
          if length vectors \<noteq> length batch then ((0, Some (WrongCount (length vectors) (length batch))), db)
          else
            let (ok, db1) = SetChunkEmbeddingBatch bits
                  (map (\<lambda>(c, v). \<lparr>cem_ID = kc_ID c, cem_Vector = v, cem_ContentHash = kc_ContentHash c\<rparr>) (zip batch vectors)) db
            in if \<not> ok then ((0, Some WriteBatch), db1) else ((int (length batch), None), db1))"

function embed_batches :: "(real \<Rightarrow> 32 word) \<Rightarrow> embedder \<Rightarrow> kchunk list \<Rightarrow> embed_result \<Rightarrow> knowledge_db \<Rightarrow>
    (embed_result \<times> embed_error option) \<times> knowledge_db" where
  "embed_batches bits emb chunks res db =
     (if chunks = [] then ((res, None), db)
      else
        case embedBatch bits emb (take EmbedBatchSize chunks) db of
          ((n, Some e), db1) \<Rightarrow> ((res\<lparr>ChunksEmbedded := ChunksEmbedded res + n\<rparr>, Some e), db1)
        | ((n, None), db1) \<Rightarrow>
            embed_batches bits emb (drop EmbedBatchSize chunks) (res\<lparr>ChunksEmbedded := ChunksEmbedded res + n\<rparr>) db1)"
  by pat_completeness auto
termination
  by (relation "measure (\<lambda>(b, e, cs, r, d). length cs)") (auto simp: EmbedBatchSize_def)

declare embed_batches.simps [simp del]

definition EmbedChunks :: "(real \<Rightarrow> 32 word) \<Rightarrow> embedder \<Rightarrow> bool option \<Rightarrow> knowledge_db \<Rightarrow>
    (embed_result \<times> embed_error option) \<times> knowledge_db" where
  "EmbedChunks bits emb onlyMissing db =
     (let chunks = selectChunksToEmbed db onlyMissing
      in embed_batches bits emb chunks \<lparr>ChunksEmbedded = 0, ChunksSkipped = int (GetChunkCount db) - int (length chunks)\<rparr> db)"

subsection \<open>Search (knowledge/search.go)\<close>

definition DefaultKnowledgeLimit :: int where "DefaultKnowledgeLimit = 6"
definition kcandidateMultiplier :: int where "kcandidateMultiplier = 4"
definition kminHybridScore :: real where "kminHybridScore = 0.35"
definition kdefaultVectorWeight :: real where "kdefaultVectorWeight = 0.7"
definition kdefaultTextWeight :: real where "kdefaultTextWeight = 0.3"

definition by_kscore :: "scored_kchunk \<Rightarrow> scored_kchunk \<Rightarrow> bool" where
  "by_kscore a b \<longleftrightarrow> sk_Score a > sk_Score b"

definition by_entry :: "string \<times> real \<Rightarrow> string \<times> real \<Rightarrow> bool" where
  "by_entry a b \<longleftrightarrow> snd a > snd b"

text \<open>\<open>iter\<close> is the order in which Go ranges over the map of embeddings.\<close>

definition scoreAndRankEmbeddings ::
    "((string, cached_embedding) gomap \<Rightarrow> (string, cached_embedding) gomap) \<Rightarrow>
     ((string \<times> real \<Rightarrow> string \<times> real \<Rightarrow> bool) \<Rightarrow> (string \<times> real) list \<Rightarrow> (string \<times> real) list) \<Rightarrow>
     real list \<Rightarrow> (string, cached_embedding) gomap \<Rightarrow> int \<Rightarrow> (string \<times> real) list" where
  "scoreAndRankEmbeddings iter esrt queryVec entries limit =
     (let results = esrt by_entry (List.map_filter (\<lambda>(i, e). map_option (\<lambda>s. (i, s)) (CosineSimilarity queryVec (ce_Vector e))) (iter entries))
      in if int (length results) > limit then take (nat limit) results else results)"

definition hydrateScoredChunks :: "knowledge_db \<Rightarrow> (string \<times> real) list \<Rightarrow> scored_kchunk list" where
  "hydrateScoredChunks db scored =
     (let hydrated = HydrateChunks db (map fst scored);
          dataMap = foldl (\<lambda>m c. AList.update (kc_ID c) c m) [] hydrated
      in List.map_filter (\<lambda>(i, s). map_option (\<lambda>c. \<lparr>sk_Chunk = c, sk_Score = s\<rparr>) (map_of dataMap i)) scored)"

definition SearchKnowledgeVector where
  "SearchKnowledgeVector frombits iter esrt db emb query limit =
     (let entries = GetAllEmbeddings frombits db in
      if entries = [] then Inr []
      else case emb [query] of None \<Rightarrow> Inl EmbedFailed
        | Some [] \<Rightarrow> Inl IndexPanic
        | Some (queryVec # _) \<Rightarrow>
            (let topK = scoreAndRankEmbeddings iter esrt queryVec entries limit
             in if topK = [] then Inr [] else Inr (hydrateScoredChunks db topK)))"

record kentry =
  ke_chunk :: kchunk
  ke_vecScore :: real
  ke_txtScore :: real

definition add_kvector :: "(string, kentry) gomap \<Rightarrow> scored_kchunk \<Rightarrow> (string, kentry) gomap" where
  "add_kvector m v = AList.update (kc_ID (sk_Chunk v)) \<lparr>ke_chunk = sk_Chunk v, ke_vecScore = sk_Score v, ke_txtScore = 0\<rparr> m"

definition add_kkeyword :: "(string, kentry) gomap \<Rightarrow> scored_kchunk \<Rightarrow> (string, kentry) gomap" where
  "add_kkeyword m k =
     (case map_of m (kc_ID (sk_Chunk k)) of
        Some e \<Rightarrow> AList.update (kc_ID (sk_Chunk k)) (e\<lparr>ke_txtScore := sk_Score k\<rparr>) m
      | None \<Rightarrow> AList.update (kc_ID (sk_Chunk k)) \<lparr>ke_chunk = sk_Chunk k, ke_vecScore = 0, ke_txtScore = sk_Score k\<rparr> m)"

definition kblended :: "kentry \<Rightarrow> real" where
  "kblended e = kdefaultVectorWeight * ke_vecScore e + kdefaultTextWeight * ke_txtScore e"

definition mergeKnowledgeScores ::
    "((string, kentry) gomap \<Rightarrow> (string, kentry) gomap) \<Rightarrow>
     ((scored_kchunk \<Rightarrow> scored_kchunk \<Rightarrow> bool) \<Rightarrow> scored_kchunk list \<Rightarrow> scored_kchunk list) \<Rightarrow>
     scored_kchunk list \<Rightarrow> scored_kchunk list \<Rightarrow> int \<Rightarrow> scored_kchunk list" where
  "mergeKnowledgeScores kiter ksrt vs ks limit =
     cut_limit limit (ksrt by_kscore
       (map (\<lambda>(i, e). \<lparr>sk_Chunk = ke_chunk e, sk_Score = kblended e\<rparr>)
         (filter (\<lambda>(i, e). \<not> kblended e < kminHybridScore) (kiter (foldl add_kkeyword (foldl add_kvector [] vs) ks)))))"

text \<open>\<open>embedder\<close> is None when there is none; the limit of the options is 0 when it is not given.\<close>

definition SearchKnowledge where
  "SearchKnowledge frombits iter kiter esrt ksrt fts order_by db embedder query limit0 =
     (let limit = (if limit0 > 0 then limit0 else DefaultKnowledgeLimit); candidateLimit = limit * kcandidateMultiplier
      in case embedder of
           None \<Rightarrow> Inr (SearchChunksKeywordScored fts order_by db query limit)
         | Some emb \<Rightarrow>
             (case SearchKnowledgeVector frombits iter esrt db emb query candidateLimit of
                Inl IndexPanic \<Rightarrow> Inl IndexPanic
              | vres \<Rightarrow>
                  (let keywordResults = SearchChunksKeywordScored fts order_by db query candidateLimit in
                   case vres of
                     Inr (v # vs) \<Rightarrow> Inr (mergeKnowledgeScores kiter ksrt (v # vs) keywordResults limit)
                   | _ \<Rightarrow> Inr (cut_limit limit keywordResults))))"

end
