(* ===== verification/KnowledgeProps.thy ===== *)
theory KnowledgeProps
  imports Knowledge SearchProps
begin

section \<open>Properties of the knowledge index\<close>

text \<open>
  The rows of a file are compared with the chunks of its content up to the time of writing, which an
  unchanged file keeps. \<open>index_ok\<close> is the invariant behind skipping unchanged files: where a file hash is
  recorded, the rows of the file are the chunks of a content with that hash.
\<close>

subsection \<open>Rows of a file\<close>

definition untimed :: "kchunk \<Rightarrow> kchunk" where
  "untimed c = c\<lparr>kc_UpdatedAt := []\<rparr>"

definition rows_of :: "knowledge_db \<Rightarrow> string \<Rightarrow> kchunk list" where
  "rows_of db path = map kr_chunk (filter (\<lambda>r. kc_FilePath (kr_chunk r) = path) (kd_rows db))"

definition file_chunks :: "(string \<Rightarrow> string) \<Rightarrow> string \<Rightarrow> string \<Rightarrow> kchunk list" where
  "file_chunks sha256 path content =
     map (\<lambda>c. \<lparr>kc_ID = ck_ID c, kc_FilePath = ck_FilePath c, kc_StartLine = StartLine c, kc_EndLine = EndLine c,
              kc_ContentHash = ck_ContentHash c, kc_Text = ck_Text c, kc_Model = [], kc_UpdatedAt = []\<rparr>)
       (ChunkFile sha256 path content None)"

lemma untimed_chunks: "map untimed (toKnowledgeChunks env path content) = file_chunks (ie_sha256 env) path content"
  by (simp add: toKnowledgeChunks_def file_chunks_def untimed_def)

lemma chunks_path: "c \<in> set (toKnowledgeChunks env path content) \<Longrightarrow> kc_FilePath c = path"
proof -
  have "ck_FilePath k = path" if "k \<in> set (ChunkFile sha path content None)" for k sha
    using that by (rule ChunkFile_lines_chunk)
  then show "c \<in> set (toKnowledgeChunks env path content) \<Longrightarrow> kc_FilePath c = path"
    by (auto simp: toKnowledgeChunks_def)
qed

lemma chunks_ends_distinct: "distinct (map kc_EndLine (toKnowledgeChunks env path content))"
proof -
  have "distinct (map EndLine (ChunkFile (ie_sha256 env) path content None))" by (rule ChunkFile_ends_distinct)
  then show ?thesis by (simp add: toKnowledgeChunks_def comp_def)
qed

subsection \<open>Replacing the rows of a file\<close>

lemma upsert_fresh:
  "distinct (map kc_ID cs) \<Longrightarrow> \<forall>c \<in> set cs. \<forall>r \<in> set rows. kc_ID (kr_chunk r) \<noteq> kc_ID c \<Longrightarrow>
   foldl upsert_row rows cs = rows @ map (\<lambda>c. \<lparr>kr_chunk = c, kr_embedding = None\<rparr>) cs"
proof (induction cs arbitrary: rows)
  case Nil
  then show ?case by simp
next
  case (Cons c cs)
  have "upsert_row rows c = rows @ [\<lparr>kr_chunk = c, kr_embedding = None\<rparr>]"
    using Cons.prems(2) by (simp add: upsert_row_def filter_id_conv)
  moreover have "foldl upsert_row (rows @ [\<lparr>kr_chunk = c, kr_embedding = None\<rparr>]) cs =
      (rows @ [\<lparr>kr_chunk = c, kr_embedding = None\<rparr>]) @ map (\<lambda>c. \<lparr>kr_chunk = c, kr_embedding = None\<rparr>) cs"
    using Cons.prems by (intro Cons.IH) auto
  ultimately show ?case by simp
qed

text \<open>
  Identifiers are eight bytes of a hash; \<open>no_clash\<close> says that the chunks of a set with the same identifier
  are the same lines of the same file.
\<close>

definition no_clash :: "kchunk set \<Rightarrow> bool" where
  "no_clash S \<longleftrightarrow> (\<forall>c \<in> S. \<forall>d \<in> S. kc_ID c = kc_ID d \<longrightarrow> kc_FilePath c = kc_FilePath d \<and> kc_EndLine c = kc_EndLine d)"

definition healthy :: "knowledge_db \<Rightarrow> bool" where
  "healthy db \<longleftrightarrow> \<not> kd_unreadable db \<and> kd_faults db = []"

definition chunk_set :: "knowledge_db \<Rightarrow> kchunk set" where
  "chunk_set db = kr_chunk ` set (kd_rows db)"

text \<open>The tables after a file has been indexed anew.\<close>

definition reindexed :: "index_env \<Rightarrow> string \<Rightarrow> string \<Rightarrow> knowledge_db \<Rightarrow> knowledge_db" where
  "reindexed env path content db =
     db\<lparr>kd_rows := filter (\<lambda>r. kc_FilePath (kr_chunk r) \<noteq> path) (kd_rows db) @
                   map (\<lambda>c. \<lparr>kr_chunk = c, kr_embedding = None\<rparr>) (toKnowledgeChunks env path content),
        kd_meta := AList.update (fileHashKey path) (fileHash (ie_sha256 env) content) (kd_meta db)\<rparr>"

lemma kd_write_ok: "kd_faults db = [] \<Longrightarrow> kd_write f db = (True, f db)"
  by (simp add: kd_write_def)

lemma indexSingleFile_ok:
  assumes "healthy db" and "no_clash (chunk_set db \<union> set (toKnowledgeChunks env path content))"
    and "ie_content env path = Some content"
  shows "indexSingleFile env force path db =
     (if \<not> force \<and> GetFileHash db path = fileHash (ie_sha256 env) content then ((False, 0), db)
      else ((True, int (length (toKnowledgeChunks env path content))), reindexed env path content db))"
proof -
  let ?cs = "toKnowledgeChunks env path content"
  let ?rows = "filter (\<lambda>r. kc_FilePath (kr_chunk r) \<noteq> path) (kd_rows db)"
  have "inj_on kc_ID (set ?cs)"
  proof (rule inj_onI)
    fix c d assume cd: "c \<in> set ?cs" "d \<in> set ?cs" "kc_ID c = kc_ID d"
    with assms(2) have "kc_EndLine c = kc_EndLine d" unfolding no_clash_def by blast
    with cd(1,2) chunks_ends_distinct [of env path content] show "c = d" by (metis distinct_map inj_onD)
  qed
  then have "distinct (map kc_ID ?cs)" using chunks_ends_distinct [of env path content] by (simp add: distinct_map)
  moreover have "\<forall>c \<in> set ?cs. \<forall>r \<in> set ?rows. kc_ID (kr_chunk r) \<noteq> kc_ID c"
  proof (intro ballI)
    fix c r assume c: "c \<in> set ?cs" and r: "r \<in> set ?rows"
    then have "kr_chunk r \<in> chunk_set db" "kc_FilePath (kr_chunk r) \<noteq> kc_FilePath c"
      using chunks_path [OF c] by (auto simp: chunk_set_def)
    with assms(2) c show "kc_ID (kr_chunk r) \<noteq> kc_ID c" unfolding no_clash_def by blast
  qed
  ultimately have up: "foldl upsert_row ?rows ?cs = ?rows @ map (\<lambda>c. \<lparr>kr_chunk = c, kr_embedding = None\<rparr>) ?cs"
    by (rule upsert_fresh)
  have f: "kd_faults db = []" using assms(1) by (simp add: healthy_def)
  show ?thesis
    using assms(3) f up
    by (simp add: indexSingleFile_def DeleteChunksByFilePath_def UpsertChunks_def SetFileHash_def kd_write_ok Let_def reindexed_def)
qed

lemma reindexed_facts:
  "healthy db \<Longrightarrow> healthy (reindexed env path content db)"
  "rows_of (reindexed env path content db) p = (if p = path then toKnowledgeChunks env path content else rows_of db p)"
  "map_of (kd_meta (reindexed env path content db)) (fileHashKey p) =
     (if p = path then Some (fileHash (ie_sha256 env) content) else map_of (kd_meta db) (fileHashKey p))"
  "chunk_set (reindexed env path content db) \<subseteq> chunk_set db \<union> set (toKnowledgeChunks env path content)"
proof -
  show "healthy db \<Longrightarrow> healthy (reindexed env path content db)" by (simp add: healthy_def reindexed_def)
  have "filter (\<lambda>r. kc_FilePath (kr_chunk r) = path) (filter (\<lambda>r. kc_FilePath (kr_chunk r) \<noteq> path) (kd_rows db)) = []" by simp
  then show "rows_of (reindexed env path content db) p = (if p = path then toKnowledgeChunks env path content else rows_of db p)"
    using chunks_path [of _ env path content]
    by (auto simp: rows_of_def reindexed_def filter_map comp_def filter_empty_conv filter_id_conv
        intro!: arg_cong [of _ _ "map kr_chunk"] filter_cong)
  show "map_of (kd_meta (reindexed env path content db)) (fileHashKey p) =
     (if p = path then Some (fileHash (ie_sha256 env) content) else map_of (kd_meta db) (fileHashKey p))"
    by (simp add: reindexed_def fileHashKey_def)
  show "chunk_set (reindexed env path content db) \<subseteq> chunk_set db \<union> set (toKnowledgeChunks env path content)"
    by (auto simp: chunk_set_def reindexed_def)
qed

subsection \<open>Indexing all files\<close>

text \<open>
  What a run knows: \<open>past p\<close> is the content whose hash is recorded for p. The hash of a file that was
  changed differs, and identifiers do not clash among the rows and the chunks of the files.
\<close>

definition index_ok :: "(string \<Rightarrow> string) \<Rightarrow> (string \<Rightarrow> string) \<Rightarrow> knowledge_db \<Rightarrow> bool" where
  "index_ok sha256 past db \<longleftrightarrow>
     (\<forall>p h. map_of (kd_meta db) (fileHashKey p) = Some h \<longrightarrow>
        h = fileHash sha256 (past p) \<and> map untimed (rows_of db p) = file_chunks sha256 p (past p))"

definition hashes_differ :: "index_env \<Rightarrow> (string \<Rightarrow> string) \<Rightarrow> bool" where
  "hashes_differ env past \<longleftrightarrow>
     (\<forall>p c. ie_content env p = Some c \<longrightarrow> fileHash (ie_sha256 env) (past p) = fileHash (ie_sha256 env) c \<longrightarrow> past p = c) \<and>
     (\<forall>c. fileHash (ie_sha256 env) c \<noteq> [])"

definition new_chunks :: "index_env \<Rightarrow> string set \<Rightarrow> kchunk set" where
  "new_chunks env P = (\<Union>p \<in> P. case ie_content env p of None \<Rightarrow> {} | Some c \<Rightarrow> set (toKnowledgeChunks env p c))"

definition now_of :: "index_env \<Rightarrow> string set \<Rightarrow> (string \<Rightarrow> string) \<Rightarrow> string \<Rightarrow> string" where
  "now_of env P past p = (if p \<in> P then case ie_content env p of None \<Rightarrow> past p | Some c \<Rightarrow> c else past p)"

lemma no_clash_mono: "no_clash S \<Longrightarrow> T \<subseteq> S \<Longrightarrow> no_clash T"
  unfolding no_clash_def by blast

lemma index_one:
  assumes "healthy db" and "index_ok (ie_sha256 env) past db" and "hashes_differ env past"
    and "no_clash (chunk_set db \<union> new_chunks env {path})"
  shows "\<exists>res db'. indexSingleFile env force path db = (res, db') \<and> healthy db' \<and>
     index_ok (ie_sha256 env) (now_of env {path} past) db' \<and> chunk_set db' \<subseteq> chunk_set db \<union> new_chunks env {path} \<and>
     (\<forall>p. p \<noteq> path \<or> ie_content env p = None \<longrightarrow> rows_of db' p = rows_of db p) \<and>
     (\<forall>c. ie_content env path = Some c \<longrightarrow> map untimed (rows_of db' path) = file_chunks (ie_sha256 env) path c \<and>
          map_of (kd_meta db') (fileHashKey path) = Some (fileHash (ie_sha256 env) c))"
proof (cases "ie_content env path")
  case None
  then have "now_of env {path} past = past" by (auto simp: now_of_def fun_eq_iff)
  with None assms show ?thesis by (intro exI [of _ "(False, -1)"] exI [of _ db]) (simp add: indexSingleFile_def)
next
  case (Some c)
  let ?h = "fileHash (ie_sha256 env)"
  have nc: "new_chunks env {path} = set (toKnowledgeChunks env path c)" by (simp add: new_chunks_def Some)
  have now: "now_of env {path} past = past(path := c)" by (auto simp: now_of_def Some fun_eq_iff)
  note one = indexSingleFile_ok [OF assms(1) assms(4) [unfolded nc] Some, of force]
  show ?thesis
  proof (cases "\<not> force \<and> GetFileHash db path = ?h c")
    case True
    then have g: "GetFileHash db path = ?h c" by simp
    moreover have "?h c \<noteq> []" using assms(3) by (simp add: hashes_differ_def)
    ultimately have m: "map_of (kd_meta db) (fileHashKey path) = Some (?h c)"
      by (auto simp: GetFileHash_def meta_value_def split: option.splits if_splits)
    with assms(2,3) Some have "past path = c" unfolding index_ok_def hashes_differ_def by metis
    then have "past(path := c) = past" by auto
    moreover have "map untimed (rows_of db path) = file_chunks (ie_sha256 env) path c"
      using assms(2) m \<open>past path = c\<close> unfolding index_ok_def by blast
    moreover have "indexSingleFile env force path db = ((False, 0), db)" using one True by simp
    ultimately show ?thesis using assms(1,2) m Some now by (intro exI [of _ "(False, 0)"] exI [of _ db]) auto
  next
    case False
    let ?db = "reindexed env path c db"
    have "index_ok (ie_sha256 env) (past(path := c)) ?db"
      using assms(2) unfolding index_ok_def by (auto simp: reindexed_facts(2,3) untimed_chunks)
    then show ?thesis using one False reindexed_facts(1) [OF assms(1)] reindexed_facts(4) [where env = env and path = path and content = c and db = db] Some now nc
      by (intro exI [of _ "(True, int (length (toKnowledgeChunks env path c)))"] exI [of _ ?db]) (auto simp: untimed_chunks reindexed_facts(2,3))
  qed
qed

definition counted :: "index_result \<Rightarrow> int" where
  "counted st = FilesIndexed st + FilesSkipped st + FilesErrored st"

lemma counted_file: "counted (count_file r st) = counted st + 1"
  by (simp add: count_file_def counted_def split: prod.splits)

lemma index_all:
  "healthy db \<Longrightarrow> index_ok (ie_sha256 env) past db \<Longrightarrow> hashes_differ env past \<Longrightarrow>
   no_clash (chunk_set db \<union> new_chunks env (set paths)) \<Longrightarrow>
   \<exists>st' db'. indexFiles env force paths st db = (st', db') \<and> healthy db' \<and> counted st' = counted st + int (length paths) \<and>
     index_ok (ie_sha256 env) (now_of env (set paths) past) db' \<and>
     (\<forall>p. p \<notin> set paths \<or> ie_content env p = None \<longrightarrow> rows_of db' p = rows_of db p) \<and>
     (\<forall>p \<in> set paths. \<forall>c. ie_content env p = Some c \<longrightarrow> map untimed (rows_of db' p) = file_chunks (ie_sha256 env) p c)"
proof (induction paths arbitrary: db st past)
  case Nil
  have "now_of env {} past = past" by (simp add: now_of_def fun_eq_iff)
  with Nil show ?case by simp
next
  case (Cons path paths)
  have sub: "new_chunks env {path} \<subseteq> new_chunks env (set (path # paths))" "new_chunks env (set paths) \<subseteq> new_chunks env (set (path # paths))"
    by (auto simp: new_chunks_def)
  have "no_clash (chunk_set db \<union> new_chunks env {path})" using no_clash_mono [OF Cons.prems(4)] sub(1) by blast
  from index_one [OF Cons.prems(1-3) this, of force] obtain res db1 where one: "indexSingleFile env force path db = (res, db1)"
      "healthy db1" "index_ok (ie_sha256 env) (now_of env {path} past) db1"
      "chunk_set db1 \<subseteq> chunk_set db \<union> new_chunks env {path}"
    and rows1: "\<And>p. p \<noteq> path \<or> ie_content env p = None \<Longrightarrow> rows_of db1 p = rows_of db p"
      "\<And>c. ie_content env path = Some c \<Longrightarrow> map untimed (rows_of db1 path) = file_chunks (ie_sha256 env) path c"
    by blast
  have hd: "hashes_differ env (now_of env {path} past)" using Cons.prems(3) by (auto simp: hashes_differ_def now_of_def)
  have nc: "no_clash (chunk_set db1 \<union> new_chunks env (set paths))"
    by (rule no_clash_mono [OF Cons.prems(4)]) (use one(4) sub in blast)
  from Cons.IH [OF one(2,3) hd nc, of "count_file res st"] obtain st' db' where
    r: "indexFiles env force paths (count_file res st) db1 = (st', db')" "healthy db'"
       "counted st' = counted (count_file res st) + int (length paths)"
       "index_ok (ie_sha256 env) (now_of env (set paths) (now_of env {path} past)) db'"
    and rows2: "\<And>p. p \<notin> set paths \<or> ie_content env p = None \<Longrightarrow> rows_of db' p = rows_of db1 p"
       "\<And>p c. p \<in> set paths \<Longrightarrow> ie_content env p = Some c \<Longrightarrow> map untimed (rows_of db' p) = file_chunks (ie_sha256 env) p c"
    by blast
  have "now_of env (set paths) (now_of env {path} past) = now_of env (set (path # paths)) past"
    by (auto simp: now_of_def fun_eq_iff split: option.splits)
  moreover have "rows_of db' p = rows_of db p" if "p \<notin> set (path # paths) \<or> ie_content env p = None" for p
    using rows1(1) [of p] rows2(1) [of p] that by (cases "p = path") auto
  moreover have "map untimed (rows_of db' p) = file_chunks (ie_sha256 env) p c"
    if "p \<in> set (path # paths)" "ie_content env p = Some c" for p c
    using that rows1(2) rows2 by (cases "p \<in> set paths") auto
  ultimately show ?case using one(1) r by (auto simp: counted_file)
qed

subsection \<open>Removing files that are gone\<close>

lemma remove_hashes_facts:
  "healthy db \<Longrightarrow> healthy (remove_hashes ps db) \<and> kd_rows (remove_hashes ps db) = kd_rows db \<and>
     (\<forall>p. map_of (kd_meta (remove_hashes ps db)) (fileHashKey p) = (if p \<in> set ps then None else map_of (kd_meta db) (fileHashKey p)))"
proof (induction ps arbitrary: db)
  case Nil
  then show ?case by (simp add: remove_hashes_def)
next
  case (Cons q ps)
  let ?db = "db\<lparr>kd_meta := AList.delete (fileHashKey q) (kd_meta db)\<rparr>"
  have "remove_hashes (q # ps) db = remove_hashes ps ?db"
    using Cons.prems by (simp add: remove_hashes_def RemoveFileHash_def kd_write_ok healthy_def)
  moreover have "healthy ?db" using Cons.prems by (simp add: healthy_def)
  moreover have "fileHashKey p = fileHashKey q \<longleftrightarrow> p = q" for p by (simp add: fileHashKey_def)
  ultimately show ?case using Cons.IH [of ?db] by auto
qed

lemma rows_of_empty: "rows_of db p = [] \<longleftrightarrow> p \<notin> kc_FilePath ` chunk_set db"
  by (auto simp: rows_of_def chunk_set_def filter_empty_conv)

lemma sync_ok:
  assumes "healthy db" and "index_ok sha256 past db"
  shows "\<exists>st' db'. syncDeletedFiles paths st db = ((True, st'), db') \<and> healthy db' \<and> counted st' = counted st \<and>
     index_ok sha256 past db' \<and> (\<forall>p. rows_of db' p = (if p \<in> set paths then rows_of db p else []))"
proof -
  let ?stale = "filter (\<lambda>p. p \<notin> set paths) (GetIndexedFilePaths db)"
  have stale: "p \<in> set ?stale \<longleftrightarrow> p \<notin> set paths \<and> p \<in> kc_FilePath ` chunk_set db" for p
    using assms(1) by (auto simp: GetIndexedFilePaths_def healthy_def set_dedup_seen chunk_set_def)
  show ?thesis
  proof (cases "?stale = []")
    case True
    then have "rows_of db p = []" if "p \<notin> set paths" for p using stale [of p] that unfolding rows_of_empty by auto
    with True assms show ?thesis by (auto simp: syncDeletedFiles_def)
  next
    case False
    let ?db1 = "db\<lparr>kd_rows := filter (\<lambda>r. kc_FilePath (kr_chunk r) \<notin> set ?stale) (kd_rows db)\<rparr>"
    have rows1: "rows_of ?db1 p = (if p \<in> set paths then rows_of db p else [])" for p
    proof -
      have "rows_of ?db1 p = (if p \<in> set ?stale then [] else rows_of db p)"
        by (auto simp: rows_of_def filter_empty_conv intro!: arg_cong [of _ _ "map kr_chunk"] filter_cong)
      then show ?thesis using stale [of p] rows_of_empty [of db p] by auto
    qed
    have "DeleteChunksByFilePath ?stale db = (True, ?db1)"
      using False assms(1) by (simp add: DeleteChunksByFilePath_def kd_write_ok healthy_def)
    then obtain st' where run: "syncDeletedFiles paths st db = ((True, st'), remove_hashes ?stale ?db1)" "counted st' = counted st"
      using False by (simp add: syncDeletedFiles_def Let_def counted_def)
    have "healthy ?db1" using assms(1) by (simp add: healthy_def)
    note rem = remove_hashes_facts [OF this, of ?stale]
    have rows: "rows_of (remove_hashes ?stale ?db1) p = (if p \<in> set paths then rows_of db p else [])" for p
      using rem rows1 [of p] by (simp add: rows_of_def)
    have "index_ok sha256 past (remove_hashes ?stale ?db1)"
      unfolding index_ok_def
    proof (intro allI impI)
      fix p h assume "map_of (kd_meta (remove_hashes ?stale ?db1)) (fileHashKey p) = Some h"
      then have "p \<notin> set ?stale" "map_of (kd_meta db) (fileHashKey p) = Some h" using rem by (auto split: if_splits)
      moreover from this(1) have "rows_of (remove_hashes ?stale ?db1) p = rows_of db p"
        using stale [of p] rows [of p] rows_of_empty [of db p] by auto
      ultimately show "h = fileHash sha256 (past p) \<and> map untimed (rows_of (remove_hashes ?stale ?db1) p) = file_chunks sha256 p (past p)"
        using assms(2) unfolding index_ok_def by simp
    qed
    with run rem rows show ?thesis by blast
  qed
qed

lemma time_key: "fileHashKey p \<noteq> ''last_index_time''"
  by (simp add: fileHashKey_def)

text \<open>C17: Indexing makes the index a mirror of the documents: with a working database whose recorded hashes are
  true of its rows, one run, forced or not, leaves for every readable supported file exactly the chunks of
  its present content, for an unreadable one the rows it had, and for any other path none; it counts every
  file once, and the recorded hashes are true again, so that the next run starts from the same invariant.\<close>

theorem IndexDocs_mirror:
  assumes "healthy db" and "index_ok (ie_sha256 env) past db" and "hashes_differ env past"
    and "no_clash (chunk_set db \<union> new_chunks env (set (walkSupportedFiles env)))"
  shows "\<exists>st db'. IndexDocs env force db = ((True, st), db') \<and> healthy db' \<and>
     (\<forall>p. (p \<notin> set (walkSupportedFiles env) \<longrightarrow> rows_of db' p = []) \<and>
          (p \<in> set (walkSupportedFiles env) \<longrightarrow>
             (case ie_content env p of None \<Rightarrow> rows_of db' p = rows_of db p
              | Some c \<Rightarrow> map untimed (rows_of db' p) = file_chunks (ie_sha256 env) p c))) \<and>
     FilesIndexed st + FilesSkipped st + FilesErrored st = int (length (walkSupportedFiles env)) \<and>
     index_ok (ie_sha256 env) (now_of env (set (walkSupportedFiles env)) past) db'"
proof -
  let ?paths = "walkSupportedFiles env" and ?past = "now_of env (set (walkSupportedFiles env)) past"
  from index_all [OF assms, of force index_result0] obtain st1 db1 where
    i: "indexFiles env force ?paths index_result0 db = (st1, db1)" "healthy db1" "counted st1 = int (length ?paths)"
      "index_ok (ie_sha256 env) ?past db1"
    and rows1: "\<And>p. p \<notin> set ?paths \<or> ie_content env p = None \<Longrightarrow> rows_of db1 p = rows_of db p"
      "\<And>p c. p \<in> set ?paths \<Longrightarrow> ie_content env p = Some c \<Longrightarrow> map untimed (rows_of db1 p) = file_chunks (ie_sha256 env) p c"
    by (auto simp: counted_def index_result0_def)
  from sync_ok [OF i(2,4), of ?paths st1] obtain st2 db2 where
    s: "syncDeletedFiles ?paths st1 db1 = ((True, st2), db2)" "healthy db2" "counted st2 = counted st1"
      "index_ok (ie_sha256 env) ?past db2"
    and rows2: "\<And>p. rows_of db2 p = (if p \<in> set ?paths then rows_of db1 p else [])"
    by blast
  let ?db = "db2\<lparr>kd_meta := AList.update ''last_index_time'' (ie_now env) (kd_meta db2)\<rparr>"
  have run: "IndexDocs env force db = ((True, st2), ?db)"
    using i(1) s(1,2) by (simp add: IndexDocs_def Let_def SetLastIndexTime_def kd_write_ok healthy_def)
  have same: "rows_of ?db p = rows_of db2 p" "map_of (kd_meta ?db) (fileHashKey p) = map_of (kd_meta db2) (fileHashKey p)" for p
    using time_key [of p] by (simp_all add: rows_of_def)
  have "healthy ?db" using s(2) by (simp add: healthy_def)
  moreover have "index_ok (ie_sha256 env) ?past ?db" using s(4) unfolding index_ok_def same .
  moreover have "FilesIndexed st2 + FilesSkipped st2 + FilesErrored st2 = int (length ?paths)"
    using s(3) i(3) by (simp add: counted_def)
  moreover have "(p \<notin> set ?paths \<longrightarrow> rows_of ?db p = []) \<and>
          (p \<in> set ?paths \<longrightarrow> (case ie_content env p of None \<Rightarrow> rows_of ?db p = rows_of db p
              | Some c \<Rightarrow> map untimed (rows_of ?db p) = file_chunks (ie_sha256 env) p c))" for p
    using rows1 [of p] rows2 [of p] by (auto simp: same split: option.split)
  ultimately show ?thesis using run by blast
qed


definition doc_env :: index_env where
  "doc_env = \<lparr>ie_sha256 = (\<lambda>s. CHR ''h'' # s), ie_now = ''now'', ie_walked = [''a.md'', ''b.png''],
     ie_content = (\<lambda>p. if p = ''a.md'' then Some ''x'' else None)\<rparr>"

definition empty_db :: knowledge_db where
  "empty_db = \<lparr>kd_rows = [], kd_meta = [], kd_unreadable = False, kd_faults = []\<rparr>"

lemma doc_chunks: "length (ChunkFile (\<lambda>s. CHR ''h'' # s) ''a.md'' ''x'' None) = 1"
  by code_simp

lemma doc_walk: "walkSupportedFiles doc_env = [''a.md'']"
proof -
  have "to_lower (file_ext ''a.md'') \<in> set SupportedExtensions" "to_lower (file_ext ''b.png'') \<notin> set SupportedExtensions"
    by code_simp+
  then show ?thesis by (simp add: walkSupportedFiles_def doc_env_def)
qed

lemma doc_new: "\<exists>c. new_chunks doc_env {''a.md''} = {c}"
proof -
  have "length (toKnowledgeChunks doc_env ''a.md'' ''x'') = 1"
    using doc_chunks by (simp add: toKnowledgeChunks_def doc_env_def)
  then obtain c where "toKnowledgeChunks doc_env ''a.md'' ''x'' = [c]" by (auto simp: length_Suc_conv)
  then show ?thesis by (simp add: new_chunks_def doc_env_def)
qed

theorem IndexDocs_mirror_witness:
  "\<exists>st db'. IndexDocs doc_env False empty_db = ((True, st), db') \<and>
     map untimed (rows_of db' ''a.md'') = file_chunks (ie_sha256 doc_env) ''a.md'' ''x'' \<and> rows_of db' ''b.png'' = []"
proof -
  have "healthy empty_db" "chunk_set empty_db = {}" by (simp_all add: healthy_def empty_db_def chunk_set_def)
  moreover have "index_ok (ie_sha256 doc_env) (\<lambda>_. ''x'') empty_db" by (simp add: index_ok_def empty_db_def)
  moreover have "hashes_differ doc_env (\<lambda>_. ''x'')" by (simp add: hashes_differ_def doc_env_def fileHash_def hex_byte_def)
  moreover have "no_clash (new_chunks doc_env {''a.md''})" using doc_new by (auto simp: no_clash_def)
  ultimately obtain st db' where "IndexDocs doc_env False empty_db = ((True, st), db')"
    "\<And>p. (p \<notin> {''a.md''} \<longrightarrow> rows_of db' p = []) \<and> (p \<in> {''a.md''} \<longrightarrow>
       (case ie_content doc_env p of None \<Rightarrow> rows_of db' p = rows_of empty_db p
        | Some c \<Rightarrow> map untimed (rows_of db' p) = file_chunks (ie_sha256 doc_env) p c))"
    using IndexDocs_mirror [of empty_db doc_env "\<lambda>_. ''x''" False] by (auto simp: doc_walk)
  from this(1) this(2) [of "''a.md''"] this(2) [of "''b.png''"] show ?thesis by (simp add: doc_env_def)
qed

text \<open>Indexing a file is not atomic, though its comment says so: when a forced run on an up-to-date file deletes the
  old chunks and the insert of the new ones then fails, the file has no chunks, its recorded hash still
  says that it is up to date, and every later run that is not forced skips it.\<close>

theorem indexSingleFile_loses:
  assumes "\<not> kd_unreadable db" and "kd_faults db = [False, True]" and "ie_content env path = Some content"
    and "GetFileHash db path = fileHash (ie_sha256 env) content" and "toKnowledgeChunks env path content \<noteq> []"
  shows "\<exists>db'. indexSingleFile env True path db = ((False, -1), db') \<and> rows_of db' path = [] \<and> kd_faults db' = [] \<and>
     indexSingleFile env False path db' = ((False, 0), db')"
proof -
  let ?db' = "db\<lparr>kd_rows := filter (\<lambda>r. kc_FilePath (kr_chunk r) \<noteq> path) (kd_rows db), kd_faults := []\<rparr>"
  have "indexSingleFile env True path db = ((False, -1), ?db')"
    using assms by (simp add: indexSingleFile_def DeleteChunksByFilePath_def UpsertChunks_def kd_write_def Let_def)
  moreover have "GetFileHash ?db' path = GetFileHash db path" by (simp add: GetFileHash_def meta_value_def)
  then have "indexSingleFile env False path ?db' = ((False, 0), ?db')"
    using assms(3,4) by (simp add: indexSingleFile_def)
  moreover have "rows_of ?db' path = []" by (simp add: rows_of_def)
  ultimately show ?thesis by auto
qed

theorem indexSingleFile_loses_witness:
  "\<exists>db'. rows_of db' ''a.md'' = [] \<and>
     indexSingleFile doc_env True ''a.md''
       (empty_db\<lparr>kd_meta := [(fileHashKey ''a.md'', fileHash (ie_sha256 doc_env) ''x'')], kd_faults := [False, True]\<rparr>) = ((False, -1), db') \<and>
     indexSingleFile doc_env False ''a.md'' db' = ((False, 0), db')"
proof -
  have "toKnowledgeChunks doc_env ''a.md'' ''x'' \<noteq> []"
    using doc_chunks by (auto simp: toKnowledgeChunks_def doc_env_def)
  then show ?thesis
    using indexSingleFile_loses [of "empty_db\<lparr>kd_meta := [(fileHashKey ''a.md'', fileHash (ie_sha256 doc_env) ''x'')], kd_faults := [False, True]\<rparr>"
        doc_env "''a.md''" "''x''"]
    by (auto simp: empty_db_def GetFileHash_def meta_value_def doc_env_def)
qed

subsection \<open>Embedding every chunk\<close>

definition unembedded :: "krow list \<Rightarrow> krow list" where
  "unembedded rows = filter (\<lambda>r. kr_embedding r = None) rows"

definition ids_of :: "krow list \<Rightarrow> string list" where
  "ids_of rows = map (\<lambda>r. kc_ID (kr_chunk r)) rows"

lemma set_embeddings_ids: "ids_of (foldl (set_embedding bits) rows es) = ids_of rows"
  by (induction es arbitrary: rows) (auto simp: ids_of_def set_embedding_def comp_def)

lemma set_embeddings_text:
  "map (\<lambda>r. kc_Text (kr_chunk r)) (foldl (set_embedding bits) rows es) = map (\<lambda>r. kc_Text (kr_chunk r)) rows"
  by (induction es arbitrary: rows) (auto simp: set_embedding_def comp_def)

lemma unembedded_after:
  "unembedded (foldl (set_embedding bits) rows es) =
     filter (\<lambda>r. kc_ID (kr_chunk r) \<notin> cem_ID ` set es) (unembedded rows)"
proof (induction es arbitrary: rows)
  case Nil
  then show ?case by simp
next
  case (Cons e es)
  have "unembedded (set_embedding bits rows e) = filter (\<lambda>r. kc_ID (kr_chunk r) \<noteq> cem_ID e) (unembedded rows)"
    by (induction rows) (auto simp: unembedded_def set_embedding_def)
  then show ?case by (simp add: Cons.IH)
qed

definition full_answers :: "embedder \<Rightarrow> bool" where
  "full_answers emb \<longleftrightarrow> (\<forall>ts. length ts \<le> EmbedBatchSize \<longrightarrow> (\<exists>vs. emb ts = Some vs \<and> length vs = length ts))"

lemma embed_batches_ok:
  "full_answers emb \<Longrightarrow> healthy db \<Longrightarrow>
   \<exists>db'. embed_batches bits emb chunks res db = ((res\<lparr>ChunksEmbedded := ChunksEmbedded res + int (length chunks)\<rparr>, None), db') \<and>
     healthy db' \<and> ids_of (kd_rows db') = ids_of (kd_rows db) \<and>
     map (\<lambda>r. kc_Text (kr_chunk r)) (kd_rows db') = map (\<lambda>r. kc_Text (kr_chunk r)) (kd_rows db) \<and>
     unembedded (kd_rows db') = filter (\<lambda>r. kc_ID (kr_chunk r) \<notin> kc_ID ` set chunks) (unembedded (kd_rows db))"
proof (induction bits emb chunks res db rule: embed_batches.induct)
  case (1 bits emb chunks res db)
  show ?case
  proof (cases "chunks = []")
    case True
    then show ?thesis using "1.prems" by (simp add: embed_batches.simps)
  next
    case False
    let ?b = "take EmbedBatchSize chunks" and ?r = "drop EmbedBatchSize chunks"
    obtain vs where vs: "emb (map kc_Text ?b) = Some vs" "length vs = length ?b"
      using "1.prems"(1) unfolding full_answers_def by (metis length_map length_take min.cobounded2)
    define es where "es = map (\<lambda>(c, v). \<lparr>cem_ID = kc_ID c, cem_Vector = v, cem_ContentHash = kc_ContentHash c\<rparr>) (zip ?b vs)"
    let ?db = "db\<lparr>kd_rows := foldl (set_embedding bits) (kd_rows db) es\<rparr>"
    have b: "embedBatch bits emb ?b db = ((int (length ?b), None), ?db)"
      using vs "1.prems"(2) by (simp add: embedBatch_def SetChunkEmbeddingBatch_def kd_write_ok healthy_def es_def)
    have h: "healthy ?db" using "1.prems"(2) by (simp add: healthy_def)
    have "map cem_ID es = map (kc_ID \<circ> fst) (zip ?b vs)" by (simp add: es_def case_prod_unfold comp_def)
    also have "\<dots> = map kc_ID (map fst (zip ?b vs))" by simp
    finally have "map cem_ID es = map kc_ID ?b" using vs(2) by (simp add: map_fst_zip)
    then have ids: "cem_ID ` set es = kc_ID ` set ?b" by (metis list.set_map)
    let ?res = "res\<lparr>ChunksEmbedded := ChunksEmbedded res + int (length ?b)\<rparr>"
    from "1.IH" [OF False b [symmetric] refl refl "1.prems"(1) h] obtain db' where
      i: "embed_batches bits emb ?r ?res ?db = ((?res\<lparr>ChunksEmbedded := ChunksEmbedded ?res + int (length ?r)\<rparr>, None), db')"
        "healthy db'" "ids_of (kd_rows db') = ids_of (kd_rows ?db)"
        "map (\<lambda>r. kc_Text (kr_chunk r)) (kd_rows db') = map (\<lambda>r. kc_Text (kr_chunk r)) (kd_rows ?db)"
        "unembedded (kd_rows db') = filter (\<lambda>r. kc_ID (kr_chunk r) \<notin> kc_ID ` set ?r) (unembedded (kd_rows ?db))"
      by blast
    have len: "int (length ?b) + int (length ?r) = int (length chunks)" by (simp flip: of_nat_add length_append)
    have set: "kc_ID ` set chunks = kc_ID ` set ?b \<union> kc_ID ` set ?r" by (metis append_take_drop_id image_Un set_append)
    have "embed_batches bits emb chunks res db = embed_batches bits emb ?r ?res ?db"
      using False b by (subst embed_batches.simps) simp
    moreover have "unembedded (kd_rows db') = filter (\<lambda>r. kc_ID (kr_chunk r) \<notin> kc_ID ` set chunks) (unembedded (kd_rows db))"
      unfolding i(5) set by (simp add: unembedded_after ids conj_commute)
    ultimately show ?thesis using i(1-4) len
      by (intro exI [of _ db']) (simp add: set_embeddings_ids set_embeddings_text add.assoc)
  qed
qed

text \<open>Embedding is complete: with an embedder that answers every batch of at most sixteen texts in full and a
  working database, one run embeds every chunk that had no embedding and then none is left; identifiers
  and texts stay, and the embedded and the skipped chunks add up to all chunks.\<close>

theorem EmbedChunks_complete:
  assumes "full_answers emb" and "healthy db"
  shows "\<exists>res db'. EmbedChunks bits emb None db = ((res, None), db') \<and> GetUnembeddedChunks db' = [] \<and>
     ids_of (kd_rows db') = ids_of (kd_rows db) \<and>
     map (\<lambda>r. kc_Text (kr_chunk r)) (kd_rows db') = map (\<lambda>r. kc_Text (kr_chunk r)) (kd_rows db) \<and>
     ChunksEmbedded res = int (length (GetUnembeddedChunks db)) \<and>
     ChunksEmbedded res + ChunksSkipped res = int (GetChunkCount db')"
proof -
  let ?cs = "GetUnembeddedChunks db"
  let ?res = "\<lparr>ChunksEmbedded = 0, ChunksSkipped = int (GetChunkCount db) - int (length ?cs)\<rparr>"
  from embed_batches_ok [OF assms, of bits ?cs ?res] obtain db' where
    r: "embed_batches bits emb ?cs ?res db = ((?res\<lparr>ChunksEmbedded := int (length ?cs)\<rparr>, None), db')"
      "healthy db'" "ids_of (kd_rows db') = ids_of (kd_rows db)"
      "map (\<lambda>r. kc_Text (kr_chunk r)) (kd_rows db') = map (\<lambda>r. kc_Text (kr_chunk r)) (kd_rows db)"
      "unembedded (kd_rows db') = filter (\<lambda>r. kc_ID (kr_chunk r) \<notin> kc_ID ` set ?cs) (unembedded (kd_rows db))"
    by auto
  have "kc_ID (brief r) = kc_ID (kr_chunk r)" for r by (simp add: brief_def)
  then have "kc_ID ` set ?cs = (\<lambda>r. kc_ID (kr_chunk r)) ` set (unembedded (kd_rows db))"
    using assms(2) by (simp add: GetUnembeddedChunks_def healthy_def unembedded_def image_image)
  then have "unembedded (kd_rows db') = []" using r(5) by (auto simp: filter_empty_conv)
  then have none: "GetUnembeddedChunks db' = []" by (simp add: GetUnembeddedChunks_def unembedded_def)
  have "length (kd_rows db') = length (kd_rows db)" using r(3) by (metis ids_of_def length_map)
  then have "GetChunkCount db' = GetChunkCount db" using r(2) assms(2) by (simp add: GetChunkCount_def healthy_def)
  then have c: "ChunksEmbedded (?res\<lparr>ChunksEmbedded := int (length ?cs)\<rparr>) + ChunksSkipped (?res\<lparr>ChunksEmbedded := int (length ?cs)\<rparr>) =
      int (GetChunkCount db')" by simp
  have run: "EmbedChunks bits emb None db = ((?res\<lparr>ChunksEmbedded := int (length ?cs)\<rparr>, None), db')"
    using r(1) by (simp add: EmbedChunks_def selectChunksToEmbed_def Let_def)
  show ?thesis by (intro exI conjI, rule run, rule none, rule r(3), rule r(4), simp, rule c)
qed

theorem EmbedChunks_complete_witness:
  "\<exists>res db'. EmbedChunks (\<lambda>_. 0) unit_embedder None
       (empty_db\<lparr>kd_rows := [\<lparr>kr_chunk = kchunk0\<lparr>kc_ID := ''c'', kc_Text := ''x''\<rparr>, kr_embedding = None\<rparr>]\<rparr>) = ((res, None), db') \<and>
     GetUnembeddedChunks db' = [] \<and> ChunksEmbedded res = 1"
proof -
  let ?db = "empty_db\<lparr>kd_rows := [\<lparr>kr_chunk = kchunk0\<lparr>kc_ID := ''c'', kc_Text := ''x''\<rparr>, kr_embedding = None\<rparr>]\<rparr>"
  have "full_answers unit_embedder" by (simp add: full_answers_def unit_embedder_def)
  moreover have "healthy ?db" by (simp add: healthy_def empty_db_def)
  moreover have "length (GetUnembeddedChunks ?db) = 1" by (simp add: GetUnembeddedChunks_def empty_db_def)
  ultimately show ?thesis using EmbedChunks_complete [of unit_embedder ?db "\<lambda>_. 0"] by auto
qed

end
