(* ===== verification/FileTree.thy ===== *)
theory FileTree
  imports GoString "HOL-Library.Sublist"
begin

section \<open>Package os: the file tree\<close>

text \<open>
  The setup code installs, updates and removes files all over a repository. This theory has the part of package
  os it uses: a tree of directories and regular files, a path as the list of its names from the root of the tree,
  and the calls \<open>Stat\<close>, \<open>ReadFile\<close>, \<open>WriteFile\<close>, \<open>MkdirAll\<close>, \<open>Remove\<close>, \<open>RemoveAll\<close>, \<open>Rename\<close> and \<open>ReadDir\<close> with the errors
  that the shape of the tree gives. Permissions, devices and links are not modelled. The abstract view of a tree is
  \<open>files\<close>, the map from paths to the contents of regular files; every call is shown to be an update of that map.
\<close>

type_synonym path = "string list"

datatype node =
    RegFile string
  | Dir "(string \<times> node) list"

datatype errno = ENOENT | ENOTDIR | EISDIR | ENOTEMPTY | EINVAL

text \<open>
  An error is a system error, a message, or an error wrapped with \<open>fmt.Errorf("ctx: %w", err)\<close>. A panic ends the program;
  it passes through every handler of errors.
\<close>

datatype io_err = Sys errno | Msg string | Ctx string io_err | Panic string

fun is_not_exist :: "io_err \<Rightarrow> bool" where
  "is_not_exist (Sys e) \<longleftrightarrow> e = ENOENT"
| "is_not_exist (Msg m) \<longleftrightarrow> False"
| "is_not_exist (Ctx c e) \<longleftrightarrow> is_not_exist e"
| "is_not_exist (Panic m) \<longleftrightarrow> False"

definition is_panic :: "io_err \<Rightarrow> bool" where
  "is_panic e = (case e of Panic _ \<Rightarrow> True | _ \<Rightarrow> False)"

definition show_path :: "path \<Rightarrow> string" where
  "show_path p = concat (map (\<lambda>x. CHR ''/'' # x) p)"

subsection \<open>Looking up\<close>

fun lookup_path :: "path \<Rightarrow> node \<Rightarrow> errno + node" where
  "lookup_path [] n = Inr n"
| "lookup_path (x # p) (RegFile c) = Inl ENOTDIR"
| "lookup_path (x # p) (Dir es) = (case map_of es x of None \<Rightarrow> Inl ENOENT | Some n \<Rightarrow> lookup_path p n)"

definition node_at :: "node \<Rightarrow> path \<Rightarrow> node option" where
  "node_at t p = (case lookup_path p t of Inl _ \<Rightarrow> None | Inr n \<Rightarrow> Some n)"

definition files :: "node \<Rightarrow> path \<Rightarrow> string option" where
  "files t p = (case node_at t p of Some (RegFile c) \<Rightarrow> Some c | _ \<Rightarrow> None)"

definition is_dir :: "node \<Rightarrow> bool" where
  "is_dir n = (case n of Dir _ \<Rightarrow> True | RegFile _ \<Rightarrow> False)"

subsection \<open>Changing one place\<close>

text \<open>
  \<open>modify f p\<close> replaces what is at \<open>p\<close>, nothing included, by what \<open>f\<close> makes of it; the directory that holds \<open>p\<close> must exist.
\<close>

fun modify :: "(node option \<Rightarrow> errno + node option) \<Rightarrow> path \<Rightarrow> node option \<Rightarrow> errno + node option" where
  "modify f [] n = f n"
| "modify f (x # p) None = Inl ENOENT"
| "modify f (x # p) (Some (RegFile c)) = Inl ENOTDIR"
| "modify f (x # p) (Some (Dir es)) =
     (case modify f p (map_of es x) of
        Inl e \<Rightarrow> Inl e
      | Inr None \<Rightarrow> Inr (Some (Dir (AList.delete x es)))
      | Inr (Some n) \<Rightarrow> Inr (Some (Dir (AList.update x n es))))"

subsection \<open>The computations of the setup code\<close>

text \<open>
  A setup function reads and changes the tree and returns a value or an error; what it changed before an error stays.
\<close>

type_synonym 'a io = "node \<Rightarrow> (io_err + 'a) \<times> node"

definition ret :: "'a \<Rightarrow> 'a io" where
  "ret x = (\<lambda>t. (Inr x, t))"

definition fail :: "io_err \<Rightarrow> 'a io" where
  "fail e = (\<lambda>t. (Inl e, t))"

definition bind_io :: "'a io \<Rightarrow> ('a \<Rightarrow> 'b io) \<Rightarrow> 'b io" where
  "bind_io m f = (\<lambda>t. case m t of (Inl e, t') \<Rightarrow> (Inl e, t') | (Inr x, t') \<Rightarrow> f x t')"

text \<open>\<open>x, err := m\<close> where the code goes on with both.\<close>

definition try_io :: "'a io \<Rightarrow> (io_err + 'a \<Rightarrow> 'b io) \<Rightarrow> 'b io" where
  "try_io m f = (\<lambda>t. case m t of (Inl e, t') \<Rightarrow> if is_panic e then (Inl e, t') else f (Inl e) t'
     | (Inr x, t') \<Rightarrow> f (Inr x) t')"

definition ctx_io :: "string \<Rightarrow> 'a io \<Rightarrow> 'a io" where
  "ctx_io c m = (\<lambda>t. case m t of (Inl e, t') \<Rightarrow> (Inl (if is_panic e then e else Ctx c e), t') | (Inr x, t') \<Rightarrow> (Inr x, t'))"

definition on_tree :: "(node option \<Rightarrow> errno + node option) \<Rightarrow> path \<Rightarrow> unit io" where
  "on_tree f p = (\<lambda>t. case modify f p (Some t) of
     Inl e \<Rightarrow> (Inl (Sys e), t) | Inr None \<Rightarrow> (Inl (Sys EINVAL), t) | Inr (Some t') \<Rightarrow> (Inr (), t'))"

subsection \<open>The calls\<close>

definition os_stat :: "path \<Rightarrow> node io" where
  "os_stat p = (\<lambda>t. case lookup_path p t of Inl e \<Rightarrow> (Inl (Sys e), t) | Inr n \<Rightarrow> (Inr n, t))"

definition os_read_file :: "path \<Rightarrow> string io" where
  "os_read_file p = (\<lambda>t. case lookup_path p t of
     Inl e \<Rightarrow> (Inl (Sys e), t) | Inr (Dir _) \<Rightarrow> (Inl (Sys EISDIR), t) | Inr (RegFile c) \<Rightarrow> (Inr c, t))"

definition os_write_file :: "path \<Rightarrow> string \<Rightarrow> unit io" where
  "os_write_file p c = on_tree (\<lambda>n. case n of Some (Dir _) \<Rightarrow> Inl EISDIR | _ \<Rightarrow> Inr (Some (RegFile c))) p"

fun mkdirs :: "path \<Rightarrow> node \<Rightarrow> errno + node" where
  "mkdirs p (RegFile c) = Inl ENOTDIR"
| "mkdirs [] (Dir es) = Inr (Dir es)"
| "mkdirs (x # p) (Dir es) =
     (case mkdirs p (case map_of es x of None \<Rightarrow> Dir [] | Some n \<Rightarrow> n) of
        Inl e \<Rightarrow> Inl e | Inr n \<Rightarrow> Inr (Dir (AList.update x n es)))"

definition os_mkdir_all :: "path \<Rightarrow> unit io" where
  "os_mkdir_all p = (\<lambda>t. case mkdirs p t of Inl e \<Rightarrow> (Inl (Sys e), t) | Inr t' \<Rightarrow> (Inr (), t'))"

definition os_remove :: "path \<Rightarrow> unit io" where
  "os_remove p = on_tree (\<lambda>n. case n of None \<Rightarrow> Inl ENOENT
     | Some (Dir (_ # _)) \<Rightarrow> Inl ENOTEMPTY | Some _ \<Rightarrow> Inr None) p"

definition os_remove_all :: "path \<Rightarrow> unit io" where
  "os_remove_all p = (\<lambda>t. case lookup_path p t of Inl ENOENT \<Rightarrow> (Inr (), t)
     | _ \<Rightarrow> on_tree (\<lambda>_. Inr None) p t)"

text \<open>A file replaces a file; a directory takes a free name or replaces an empty directory.\<close>

definition rename_onto :: "node \<Rightarrow> node option \<Rightarrow> errno + node option" where
  "rename_onto src dst =
     (case dst of None \<Rightarrow> Inr (Some src)
      | Some (RegFile _) \<Rightarrow> if is_dir src then Inl ENOTDIR else Inr (Some src)
      | Some (Dir es) \<Rightarrow> if \<not> is_dir src then Inl EISDIR else if es = [] then Inr (Some src) else Inl ENOTEMPTY)"

definition os_rename :: "path \<Rightarrow> path \<Rightarrow> unit io" where
  "os_rename p q =
     (\<lambda>t. case lookup_path p t of Inl e \<Rightarrow> (Inl (Sys e), t)
      | Inr n \<Rightarrow> if prefix p q \<and> (p \<noteq> q \<or> p = []) then (Inl (Sys EINVAL), t)
          else if p = q then (Inr (), t)
          else (case bind_io (on_tree (rename_onto n) q) (\<lambda>_. on_tree (\<lambda>_. Inr None) p) t of
              (Inl e, _) \<Rightarrow> (Inl e, t) | (Inr u, t') \<Rightarrow> (Inr u, t')))"

text \<open>\<open>ReadDir\<close> lists the entries in the order of their names; a name counts once.\<close>

definition listing :: "(string \<times> node) list \<Rightarrow> (string \<times> node) list" where
  "listing es = sort_key fst (AList.clearjunk es)"

definition os_read_dir :: "path \<Rightarrow> (string \<times> node) list io" where
  "os_read_dir p = (\<lambda>t. case lookup_path p t of
     Inl e \<Rightarrow> (Inl (Sys e), t) | Inr (RegFile _) \<Rightarrow> (Inl (Sys ENOTDIR), t)
   | Inr (Dir es) \<Rightarrow> (Inr (listing es), t))"

subsection \<open>What the calls do to the files\<close>

definition files_opt :: "node option \<Rightarrow> path \<Rightarrow> string option" where
  "files_opt n q = (case n of None \<Rightarrow> None | Some m \<Rightarrow> files m q)"

lemma lookup_nil [simp]: "lookup_path [] t = Inr t"
  by (cases t) simp_all

lemma files_opt_simps [simp]: "files_opt None q = None" "files_opt (Some n) q = files n q"
  by (simp_all add: files_opt_def)

lemma node_at_simps [simp]:
  "node_at t [] = Some t"
  "node_at (RegFile c) (x # q) = None"
  "node_at (Dir es) (x # q) = Option.bind (map_of es x) (\<lambda>n. node_at n q)"
  by (simp_all add: node_at_def split: option.splits)

lemma files_simps [simp]:
  "files (RegFile c) q = (if q = [] then Some c else None)"
  "files (Dir es) [] = None"
  "files (Dir es) (x # q) = files_opt (map_of es x) q"
  by (cases q; auto simp: files_def node_at_def files_opt_def split: option.splits sum.splits)+

lemma lookup_node_at: "lookup_path p t = Inr n \<longleftrightarrow> node_at t p = Some n"
  by (auto simp: node_at_def split: sum.splits)

lemma files_iff: "files t p = Some c \<longleftrightarrow> node_at t p = Some (RegFile c)"
  by (auto simp: files_def split: option.splits node.splits)

lemma lookup_ENOENT_files: "lookup_path p t = Inl e \<Longrightarrow> files t p = None"
  by (simp add: files_def node_at_def)

lemma files_below_file: "node_at t p = Some (RegFile c) \<Longrightarrow> files t (p @ x # q) = None"
proof (induction p arbitrary: t)
  case (Cons y p)
  then show ?case by (cases t) (auto simp: Option.bind_eq_Some_conv)
qed simp

lemma files_empty_dir [simp]: "files (Dir []) q = None"
  by (cases q) simp_all

lemma node_at_append: "node_at t (p @ q) = Option.bind (node_at t p) (\<lambda>n. node_at n q)"
proof (induction p arbitrary: t)
  case (Cons x p)
  then show ?case by (cases t) (auto split: Option.bind_split)
qed simp

lemma files_append: "files t (p @ q) = files_opt (node_at t p) q"
  by (simp add: files_def files_opt_def node_at_append split: option.splits Option.bind_splits)

lemma modify_files:
  assumes "modify f p n = Inr n'"
  shows "\<exists>m. f (Option.bind n (\<lambda>t. node_at t p)) = Inr m \<and>
     (\<forall>q. files_opt n' q = (if prefix p q then files_opt m (drop (length p) q) else files_opt n q))"
  using assms
proof (induction p arbitrary: n n')
  case Nil
  then show ?case by (cases n) auto
next
  case (Cons x p)
  obtain es where n: "n = Some (Dir es)"
    using Cons.prems by (cases n; cases "the n") auto
  then obtain r where r: "modify f p (map_of es x) = Inr r"
    using Cons.prems by (auto split: sum.splits)
  from Cons.IH [OF r] obtain m where
    m: "f (Option.bind (map_of es x) (\<lambda>t. node_at t p)) = Inr m"
       "\<And>q. files_opt r q = (if prefix p q then files_opt m (drop (length p) q) else files_opt (map_of es x) q)"
    by blast
  have "files_opt n' q = (if prefix (x # p) q then files_opt m (drop (length (x # p)) q) else files_opt n q)" for q
  proof (cases q)
    case Nil
    then show ?thesis using Cons.prems n r by (cases r) auto
  next
    case (Cons y q')
    have "files_opt n' q = files_opt (if y = x then r else map_of es y) q'"
      using Cons.prems n r Cons by (cases r) auto
    then show ?thesis using m(2) Cons n by auto
  qed
  with m(1) n show ?case by auto
qed

lemma on_tree_files:
  assumes "on_tree f p t = (Inr u, t')"
  shows "\<exists>m. f (node_at t p) = Inr m \<and>
     (\<forall>q. files t' q = (if prefix p q then files_opt m (drop (length p) q) else files t q))"
proof -
  have "modify f p (Some t) = Inr (Some t')"
    using assms by (auto simp: on_tree_def split: sum.splits option.splits)
  from modify_files [OF this] obtain m where "f (Option.bind (Some t) (\<lambda>t. node_at t p)) = Inr m"
    "\<And>q. files_opt (Some t') q = (if prefix p q then files_opt m (drop (length p) q) else files_opt (Some t) q)"
    by blast
  then show ?thesis by (intro exI [of _ m]) simp
qed

lemma node_at_files_below:
  assumes "prefix p q" and "q \<noteq> p" and "node_at t p = None \<or> node_at t p = Some (Dir []) \<or> node_at t p = Some (RegFile c)"
  shows "files t q = None"
proof -
  obtain r where r: "q = p @ r" "r \<noteq> []" using assms(1,2) by (auto elim!: prefixE)
  show ?thesis using assms(3) r(2) unfolding r(1) files_append by auto
qed

lemma on_tree_error: "on_tree f p t = (Inl e, t') \<Longrightarrow> t' = t"
  by (auto simp: on_tree_def split: sum.splits option.splits)

text \<open>\<open>WriteFile\<close> is an update of the map of files, \<open>Remove\<close> and \<open>RemoveAll\<close> restrict it, \<open>MkdirAll\<close> keeps it.\<close>

lemma os_write_file_files:
  assumes "os_write_file p c t = (Inr u, t')"
  shows "files t' = (files t)(p \<mapsto> c)"
proof
  fix q
  from on_tree_files [OF assms [unfolded os_write_file_def]] obtain m where
    m: "(case node_at t p of Some (Dir _) \<Rightarrow> Inl EISDIR | _ \<Rightarrow> Inr (Some (RegFile c))) = Inr m"
       "\<And>q. files t' q = (if prefix p q then files_opt m (drop (length p) q) else files t q)"
    by blast
  then have *: "m = Some (RegFile c)" "\<And>es. node_at t p \<noteq> Some (Dir es)"
    by (auto split: option.splits node.splits)
  have "files t q = None" if "prefix p q" "q \<noteq> p"
  proof (rule node_at_files_below [OF that])
    show "node_at t p = None \<or> node_at t p = Some (Dir []) \<or> node_at t p = Some (RegFile (the (files t p)))"
    proof (cases "node_at t p")
      case (Some n)
      then show ?thesis using *(2) by (cases n) (simp_all add: files_def)
    qed simp
  qed
  then show "files t' q = ((files t)(p \<mapsto> c)) q"
    using m(2) [of q] * by (auto elim!: prefixE)
qed

lemma os_remove_files:
  assumes "os_remove p t = (Inr u, t')"
  shows "files t' = (files t)(p := None)"
proof
  fix q
  from on_tree_files [OF assms [unfolded os_remove_def]] obtain m where
    m: "(case node_at t p of None \<Rightarrow> Inl ENOENT | Some (Dir (_ # _)) \<Rightarrow> Inl ENOTEMPTY | Some _ \<Rightarrow> Inr None) = Inr m"
       "\<And>q. files t' q = (if prefix p q then files_opt m (drop (length p) q) else files t q)"
    by blast
  then have *: "m = None" "(\<exists>c. node_at t p = Some (RegFile c)) \<or> node_at t p = Some (Dir [])"
    by (auto split: option.splits node.splits list.splits)
  have "files t q = None" if "prefix p q" "q \<noteq> p"
    using * node_at_files_below [OF that] by blast
  then show "files t' q = ((files t)(p := None)) q"
    using m(2) [of q] * by (auto elim!: prefixE)
qed

lemma os_remove_all_files:
  assumes "os_remove_all p t = (Inr u, t')"
  shows "files t' q = (if prefix p q then None else files t q)"
proof (cases "lookup_path p t = Inl ENOENT")
  case True
  have "files t q = None" if "prefix p q"
    using that True by (auto elim!: prefixE simp: files_append node_at_def)
  then show ?thesis using assms True by (auto simp: os_remove_all_def)
next
  case False
  then have "on_tree (\<lambda>_. Inr None) p t = (Inr u, t')"
    using assms by (auto simp: os_remove_all_def split: sum.splits errno.splits)
  from on_tree_files [OF this] show ?thesis by auto
qed

lemma mkdirs_files: "mkdirs p t = Inr t' \<Longrightarrow> files t' q = files t q"
proof (induction p t arbitrary: t' q rule: mkdirs.induct)
  case (3 x p es)
  obtain n where n: "mkdirs p (case map_of es x of None \<Rightarrow> Dir [] | Some n \<Rightarrow> n) = Inr n"
      "t' = Dir (AList.update x n es)"
    using 3(2) by (auto split: sum.splits)
  from 3(1) [OF n(1)] n(2) show ?case
  proof (cases q)
    case (Cons y q')
    have "files (Dir []) q' = None" by (cases q') simp_all
    then show ?thesis using 3(1) [OF n(1), of q'] n(2) Cons by (auto split: option.splits)
  qed simp
qed auto

lemma os_mkdir_all_files: "os_mkdir_all p t = (Inr u, t') \<Longrightarrow> files t' = files t"
  by (auto simp: os_mkdir_all_def mkdirs_files fun_eq_iff split: sum.splits)

lemma mkdirs_dir: "mkdirs p t = Inr t' \<Longrightarrow> \<exists>es. node_at t' p = Some (Dir es)"
proof (induction p t arbitrary: t' rule: mkdirs.induct)
  case (3 x p es)
  then show ?case by (auto split: sum.splits)
qed auto

lemma files_put:
  assumes "on_tree f p t = (Inr u, t')" and "f (node_at t p) = Inr (Some (RegFile c))" and "\<And>es. node_at t p = Some (Dir es) \<Longrightarrow> es = []"
  shows "files t' = (files t)(p \<mapsto> c)"
proof
  fix q
  from on_tree_files [OF assms(1)] obtain m where m: "f (node_at t p) = Inr m"
    "\<And>q. files t' q = (if prefix p q then files_opt m (drop (length p) q) else files t q)" by blast
  have "files t q = None" if "prefix p q" "q \<noteq> p"
  proof (rule node_at_files_below [OF that])
    show "node_at t p = None \<or> node_at t p = Some (Dir []) \<or> node_at t p = Some (RegFile (the (files t p)))"
    proof (cases "node_at t p")
      case (Some n)
      then show ?thesis using assms(3) by (cases n) (auto simp: files_def)
    qed simp
  qed
  then show "files t' q = ((files t)(p \<mapsto> c)) q"
    using m(2) [of q] m(1) assms(2) by (cases "q = p") (auto elim!: prefixE split: if_splits)
qed

lemma listing_iff: "(n, e) \<in> set (listing es) \<longleftrightarrow> map_of es n = Some e"
  by (simp add: listing_def map_of_eq_Some_iff [symmetric] AList.distinct_clearjunk AList.map_of_clearjunk)

lemma distinct_listing: "distinct (map fst (listing es))"
proof -
  have "mset (map fst (listing es)) = mset (map fst (AList.clearjunk es))"
    by (simp only: listing_def mset_map mset_sort)
  then show ?thesis by (metis AList.distinct_clearjunk mset_eq_imp_distinct_iff)
qed

text \<open>A change at a place leaves the places beside it, and it succeeds where something is.\<close>

lemma modify_beside:
  assumes "modify f p n = Inr n'" and "\<not> prefix p q" and "\<not> prefix q p"
  shows "Option.bind n' (\<lambda>t. node_at t q) = Option.bind n (\<lambda>t. node_at t q)"
  using assms
proof (induction p arbitrary: n n' q)
  case (Cons x p)
  obtain es where n: "n = Some (Dir es)"
    using Cons.prems(1) by (cases n; cases "the n") auto
  then obtain r where r: "modify f p (map_of es x) = Inr r"
    using Cons.prems(1) by (auto split: sum.splits)
  obtain y q' where q: "q = y # q'" using Cons.prems(3) by (cases q) auto
  show ?case
  proof (cases "y = x")
    case True
    then have "Option.bind r (\<lambda>t. node_at t q') = Option.bind (map_of es x) (\<lambda>t. node_at t q')"
      using Cons.IH [OF r] Cons.prems(2,3) q by simp
    then show ?thesis using Cons.prems(1) n r q True by (cases r) auto
  next
    case False
    then show ?thesis using Cons.prems(1) n r q by (cases r) auto
  qed
qed simp

lemma on_tree_beside:
  "on_tree f p t = (Inr u, t') \<Longrightarrow> \<not> prefix p q \<Longrightarrow> \<not> prefix q p \<Longrightarrow> node_at t' q = node_at t q"
  using modify_beside [of f p "Some t" "Some t'" q] by (auto simp: on_tree_def split: sum.splits option.splits)

lemma modify_ok:
  "Option.bind n (\<lambda>t. node_at t p) = Some k \<Longrightarrow> f (Some k) = Inr m \<Longrightarrow> p \<noteq> [] \<Longrightarrow> \<exists>t'. modify f p n = Inr (Some t')"
proof (induction p arbitrary: n)
  case (Cons x p)
  then obtain es where n: "n = Some (Dir es)" by (cases n; cases "the n") auto
  have "\<exists>r. modify f p (map_of es x) = Inr r"
  proof (cases "p = []")
    case True
    then show ?thesis using Cons.prems n by auto
  next
    case False
    then show ?thesis using Cons.IH [of "map_of es x"] Cons.prems n by auto
  qed
  then show ?case by (auto simp: n split: option.splits)
qed simp

lemma on_tree_ok: "node_at t p = Some k \<Longrightarrow> f (Some k) = Inr m \<Longrightarrow> p \<noteq> [] \<Longrightarrow> \<exists>t'. on_tree f p t = (Inr (), t')"
  using modify_ok [of "Some t" p k f m] by (auto simp: on_tree_def)

lemma bind_io_Inr: "bind_io m f t = (Inr y, t') \<longleftrightarrow> (\<exists>x t1. m t = (Inr x, t1) \<and> f x t1 = (Inr y, t'))"
  by (simp add: bind_io_def split: prod.splits sum.splits)

lemma ctx_io_Inr: "ctx_io c m t = (Inr y, t') \<longleftrightarrow> m t = (Inr y, t')"
  by (simp add: ctx_io_def split: prod.splits sum.splits)

lemma os_rename_files:
  assumes "os_rename p q t = (Inr u, t')" and "files t p = Some c" and "p \<noteq> q"
  shows "files t' = (files t)(q \<mapsto> c, p := None)"
proof -
  have n: "lookup_path p t = Inr (RegFile c)" using assms(2) by (simp add: files_iff lookup_node_at)
  have np: "\<not> (prefix p q \<and> (p \<noteq> q \<or> p = []))" using assms(1) n by (auto simp: os_rename_def split: if_splits)
  obtain t1 where 1: "on_tree (rename_onto (RegFile c)) q t = (Inr (), t1)" and 2: "on_tree (\<lambda>_. Inr None) p t1 = (Inr (), t')"
  proof -
    have "bind_io (on_tree (rename_onto (RegFile c)) q) (\<lambda>_. on_tree (\<lambda>_. Inr None) p) t = (Inr (), t')"
      using assms(1,3) n np unfolding os_rename_def by (simp split: prod.splits sum.splits if_splits)
    then show ?thesis using that by (auto simp: bind_io_Inr)
  qed
  obtain m where m: "rename_onto (RegFile c) (node_at t q) = Inr m" using on_tree_files [OF 1] by blast
  then have "m = Some (RegFile c)" "\<And>es. node_at t q = Some (Dir es) \<Longrightarrow> es = []"
    by (auto simp: rename_onto_def is_dir_def split: option.splits node.splits if_splits)
  then have f1: "files t1 = (files t)(q \<mapsto> c)" using files_put [OF 1] m by blast
  show ?thesis
  proof
    fix r
    have f2: "files t' r = (if prefix p r then None else files t1 r)" using on_tree_files [OF 2] by auto
    have "files t1 p = Some c" using f1 assms(2,3) by simp
    then have b: "files t1 r = None" if "prefix p r" "r \<noteq> p" for r
      using node_at_files_below [OF that, of t1 c] by (simp add: files_iff)
    show "files t' r = ((files t)(q \<mapsto> c, p := None)) r"
    proof (cases "prefix p r \<and> r \<noteq> p")
      case True
      with b [of r] f2 f1 show ?thesis by simp
    next
      case False
      with f2 f1 show ?thesis by (cases "r = p") simp_all
    qed
  qed
qed

end
