(* ===== verification/Settings.thy ===== *)
theory Settings
  imports FileTree PhaseState
begin

section \<open>Package setup: profiles and the hooks in settings.json\<close>

text \<open>
  setup/profile.go, setup/settings.go, setup/hints.go and util/shellescape.go: the installation profiles, the table of
  managed hooks, and the reading, reconciling, checking and removing of hook entries in a settings file of the coding
  agent. The decoded file is a \<open>map[string]any\<close>: an option, since a nil map is what the text \<open>null\<close> decodes to, of an
  association list of JSON values. \<open>initHooks\<close> and \<open>uninstallHooks\<close> (setup/init.go, setup/uninstall.go) are the
  operations on the file.
\<close>

subsection \<open>Profiles\<close>

type_synonym InitProfile = string

definition ProfileMinimal :: InitProfile where "ProfileMinimal = ''minimal''"
definition ProfileWorkflow :: InitProfile where "ProfileWorkflow = ''workflow''"
definition ProfileFull :: InitProfile where "ProfileFull = ''full''"
definition defaultProfile :: InitProfile where "defaultProfile = ProfileFull"

lemmas profile_defs = ProfileMinimal_def ProfileWorkflow_def ProfileFull_def

definition profileRank :: "(InitProfile, nat) gomap" where
  "profileRank = [(ProfileMinimal, 0), (ProfileWorkflow, 1), (ProfileFull, 2)]"

definition rank_of :: "InitProfile \<Rightarrow> nat" where
  "rank_of p = (case map_of profileRank p of None \<Rightarrow> 0 | Some r \<Rightarrow> r)"

text \<open>\<open>None\<close> accepts; otherwise the profile that the message quotes.\<close>

definition validateProfile :: "InitProfile \<Rightarrow> InitProfile option" where
  "validateProfile p =
     (if p = [] then None else case map_of profileRank p of None \<Rightarrow> Some p | Some _ \<Rightarrow> None)"

definition resolveProfile :: "InitProfile \<Rightarrow> InitProfile" where
  "resolveProfile p = (if p = [] then defaultProfile else p)"

definition profileIncludes :: "InitProfile \<Rightarrow> InitProfile \<Rightarrow> bool" where
  "profileIncludes req selected = (rank_of selected \<ge> rank_of req)"

subsection \<open>The managed hooks\<close>

definition ShellEscape :: "string \<Rightarrow> string" where
  "ShellEscape s = [CHR 0x27] @ replace_char CHR 0x27 [CHR 0x27, CHR 0x5C, CHR 0x27, CHR 0x27] s @ [CHR 0x27]"

definition makeHookCommand :: "string \<Rightarrow> string \<Rightarrow> string" where
  "makeHookCommand binaryPath hookName =
     (if binaryPath \<noteq> [] then ShellEscape binaryPath @ '' hooks run '' @ hookName @ '' 2>/dev/null || true''
      else ''npx ca hooks run '' @ hookName @ '' 2>/dev/null || true'')"

definition makePrimeCommand :: "string \<Rightarrow> string" where
  "makePrimeCommand binaryPath =
     (if binaryPath \<noteq> [] then ShellEscape binaryPath @ '' prime 2>/dev/null || true''
      else ''npx ca prime 2>/dev/null || true'')"

definition HookMarkers :: "string list" where
  "HookMarkers =
     [''BIN prime'', ''BIN load-session'', ''ca load-session'', ''compound-agent load-session'',
      ''BIN hooks run user-prompt'', ''BIN hooks run post-tool-failure'', ''BIN hooks run post-tool-success'',
      ''BIN hooks run phase-guard'', ''BIN hooks run read-tracker'', ''BIN hooks run stop-audit'',
      ''BIN hooks run post-read'', ''BIN hooks run phase-audit'', ''BIN index-docs'', ''hook-runner.js'']"

definition HookTypes :: "string list" where
  "HookTypes =
     [''SessionStart'', ''PreCompact'', ''UserPromptSubmit'', ''PostToolUseFailure'', ''PostToolUse'', ''PreToolUse'', ''Stop'']"

record managed_spec =
  sp_hookType :: string
  sp_matcher :: string
  sp_markers :: "string list"
  sp_build :: "string \<Rightarrow> string"
  sp_profile :: InitProfile

text \<open>The marker of the JavaScript runner that earlier versions installed.\<close>

definition js_marker :: "string \<Rightarrow> string" where
  "js_marker h = ''hook-runner.js'' @ [CHR 0x22] @ '' '' @ h"

definition managedHookSpecs :: "managed_spec list" where
  "managedHookSpecs =
     [\<lparr>sp_hookType = ''SessionStart'', sp_matcher = [], sp_markers = [''BIN prime''],
       sp_build = makePrimeCommand, sp_profile = ProfileMinimal\<rparr>,
      \<lparr>sp_hookType = ''PreCompact'', sp_matcher = [], sp_markers = [''BIN prime''],
       sp_build = makePrimeCommand, sp_profile = ProfileMinimal\<rparr>,
      \<lparr>sp_hookType = ''UserPromptSubmit'', sp_matcher = [],
       sp_markers = [''BIN hooks run user-prompt'', js_marker ''user-prompt''],
       sp_build = (\<lambda>b. makeHookCommand b ''user-prompt''), sp_profile = ProfileMinimal\<rparr>,
      \<lparr>sp_hookType = ''PostToolUseFailure'', sp_matcher = ''Bash|Edit|Write'',
       sp_markers = [''BIN hooks run post-tool-failure'', js_marker ''post-tool-failure''],
       sp_build = (\<lambda>b. makeHookCommand b ''post-tool-failure''), sp_profile = ProfileWorkflow\<rparr>,
      \<lparr>sp_hookType = ''PostToolUse'', sp_matcher = ''Bash|Edit|Write'',
       sp_markers = [''BIN hooks run post-tool-success'', js_marker ''post-tool-success''],
       sp_build = (\<lambda>b. makeHookCommand b ''post-tool-success''), sp_profile = ProfileWorkflow\<rparr>,
      \<lparr>sp_hookType = ''PostToolUse'', sp_matcher = ''Read'',
       sp_markers = [''BIN hooks run post-read'', ''BIN hooks run read-tracker'', js_marker ''post-read''],
       sp_build = (\<lambda>b. makeHookCommand b ''post-read''), sp_profile = ProfileWorkflow\<rparr>,
      \<lparr>sp_hookType = ''PreToolUse'', sp_matcher = ''Edit|Write'',
       sp_markers = [''BIN hooks run phase-guard'', js_marker ''phase-guard''],
       sp_build = (\<lambda>b. makeHookCommand b ''phase-guard''), sp_profile = ProfileWorkflow\<rparr>,
      \<lparr>sp_hookType = ''Stop'', sp_matcher = [],
       sp_markers = [''BIN hooks run phase-audit'', ''BIN hooks run stop-audit'', js_marker ''phase-audit''],
       sp_build = (\<lambda>b. makeHookCommand b ''phase-audit''), sp_profile = ProfileWorkflow\<rparr>]"

definition hookSpecsForProfile :: "InitProfile \<Rightarrow> managed_spec list" where
  "hookSpecsForProfile profile = filter (\<lambda>sp. profileIncludes (sp_profile sp) profile) managedHookSpecs"

subsection \<open>Values of type any\<close>

type_synonym obj = "(string, json) gomap"
type_synonym settings = "obj option"

text \<open>A repeated key takes its last value; in an untyped value null and a missing key are both nil.\<close>

fun any_of :: "json \<Rightarrow> json" where
  "any_of (JArr vs) = JArr (map any_of vs)"
| "any_of (JObj ms) = JObj (foldl (\<lambda>m (k, v). AList.update k v m) [] (map (\<lambda>(k, v). (k, any_of v)) ms))"
| "any_of v = v"

definition get_any :: "obj \<Rightarrow> string \<Rightarrow> json" where
  "get_any m k = (case map_of m k of None \<Rightarrow> JNull | Some v \<Rightarrow> v)"

definition as_obj :: "json \<Rightarrow> obj option" where
  "as_obj v = (case v of JObj m \<Rightarrow> Some m | _ \<Rightarrow> None)"

definition as_arr :: "json \<Rightarrow> json list option" where
  "as_arr v = (case v of JArr a \<Rightarrow> Some a | _ \<Rightarrow> None)"

definition as_string :: "json \<Rightarrow> string" where
  "as_string v = (case v of JStr s \<Rightarrow> s | _ \<Rightarrow> [])"

text \<open>\<open>MarshalIndent\<close> sorts the keys of a map; \<open>show_float\<close> prints the float64 of a literal.\<close>

fun sorted_any :: "(string \<Rightarrow> string) \<Rightarrow> json \<Rightarrow> json" where
  "sorted_any show_float (JNum l) = JNum (show_float l)"
| "sorted_any show_float (JArr vs) = JArr (map (sorted_any show_float) vs)"
| "sorted_any show_float (JObj ms) = JObj (sort_key fst (map (\<lambda>(k, v). (k, sorted_any show_float v)) ms))"
| "sorted_any show_float v = v"

subsection \<open>The settings file\<close>

definition ReadClaudeSettings :: "path \<Rightarrow> settings io" where
  "ReadClaudeSettings p =
     try_io (os_read_file p) (\<lambda>r. case r of
         Inl e \<Rightarrow> if is_not_exist e then ret (Some []) else fail (Ctx ''read settings'' e)
       | Inr data \<Rightarrow> (case json_parse data of
           None \<Rightarrow> fail (Ctx ''parse settings'' (Msg ''invalid JSON''))
         | Some v \<Rightarrow> if \<not> nums_finite v then fail (Ctx ''parse settings'' (Msg ''number out of range''))
             else (case any_of v of JNull \<Rightarrow> ret None | JObj m \<Rightarrow> ret (Some m)
               | _ \<Rightarrow> fail (Ctx ''parse settings'' (Msg ''not an object'')))))"

definition settings_text :: "(string \<Rightarrow> string) \<Rightarrow> settings \<Rightarrow> string" where
  "settings_text show_float s =
     marshal_indent (case s of None \<Rightarrow> JNull | Some m \<Rightarrow> sorted_any show_float (JObj m)) @ [CHR 0x0A]"

definition tmp_path :: "path \<Rightarrow> path" where
  "tmp_path p = butlast p @ [last p @ ''.tmp'']"

definition WriteClaudeSettings :: "(string \<Rightarrow> string) \<Rightarrow> path \<Rightarrow> settings \<Rightarrow> unit io" where
  "WriteClaudeSettings show_float p s =
     bind_io (ctx_io ''create directory'' (os_mkdir_all (butlast p))) (\<lambda>_.
     bind_io (ctx_io ''write temp file'' (os_write_file (tmp_path p) (settings_text show_float s))) (\<lambda>_.
     os_rename (tmp_path p) p))"

subsection \<open>Hook entries\<close>

definition hookEntry :: "string \<Rightarrow> string \<Rightarrow> json" where
  "hookEntry matcher command =
     JObj [(''matcher'', JStr matcher),
           (''hooks'', JArr [JObj [(''type'', JStr ''command''), (''command'', JStr command)]])]"

text \<open>
  \<open>getHooksMap\<close> gives the hooks map that the settings hold afterwards; assigning to a nil map panics.
\<close>

definition getHooksMap :: "obj \<Rightarrow> obj" where
  "getHooksMap m = (case get_any m ''hooks'' of JObj h \<Rightarrow> h | _ \<Rightarrow> [])"

text \<open>\<open>getHookArray\<close> gives the array and the hooks map that holds it afterwards.\<close>

definition getHookArray :: "obj \<Rightarrow> string \<Rightarrow> json list \<times> obj" where
  "getHookArray hooks hookType =
     (case get_any hooks hookType of JArr a \<Rightarrow> (a, hooks) | _ \<Rightarrow> ([], AList.update hookType (JArr []) hooks))"

definition normalizeManagedCommand :: "string \<Rightarrow> string" where
  "normalizeManagedCommand cmd =
     (let trimmed = trim_space cmd;
          by_name = (case str_index trimmed '' '' of
              Some i \<Rightarrow> (let first = take i trimmed in
                if first = ''ca'' \<or> has_suffix first ''/ca'' then ''BIN'' @ drop i trimmed else trimmed)
            | None \<Rightarrow> trimmed)
      in if has_prefix trimmed ''npx ca '' then ''BIN '' @ trim_prefix trimmed ''npx ca ''
         else if has_prefix trimmed [CHR 0x27] then
           (case str_index (drop 1 trimmed) [CHR 0x27] of
              Some end \<Rightarrow> ''BIN'' @ drop (end + 2) trimmed | None \<Rightarrow> by_name)
         else by_name)"

definition commandHasMarker :: "string \<Rightarrow> string \<Rightarrow> bool" where
  "commandHasMarker cmd marker \<longleftrightarrow>
     (if str_contains cmd marker then True
      else if has_prefix marker ''BIN '' then str_contains (normalizeManagedCommand cmd) marker
      else False)"

definition hook_command :: "obj \<Rightarrow> string" where
  "hook_command m = as_string (get_any m ''command'')"

definition hookHasMarker :: "json \<Rightarrow> string list \<Rightarrow> bool" where
  "hookHasMarker hook markers =
     (case as_obj hook of None \<Rightarrow> False
      | Some m \<Rightarrow> list_ex (commandHasMarker (hook_command m)) markers)"

text \<open>The hooks of an entry: none if it is not an object with an array of hooks.\<close>

definition entry_hooks :: "json \<Rightarrow> json list option" where
  "entry_hooks entry = Option.bind (as_obj entry) (\<lambda>m. as_arr (get_any m ''hooks''))"

definition set_hooks :: "json list \<Rightarrow> json \<Rightarrow> json" where
  "set_hooks hs entry = (case entry of JObj m \<Rightarrow> JObj (AList.update ''hooks'' (JArr hs) m) | _ \<Rightarrow> entry)"

definition hasHookMarker :: "json list \<Rightarrow> string list \<Rightarrow> bool" where
  "hasHookMarker arr markers =
     list_ex (\<lambda>entry. case entry_hooks entry of None \<Rightarrow> False
       | Some hs \<Rightarrow> list_ex (\<lambda>h. hookHasMarker h markers) hs) arr"

text \<open>The inner loop: the kept hooks, the number of matches and the first command so far.\<close>

fun filter_hooks :: "string list \<Rightarrow> json list \<Rightarrow> nat \<Rightarrow> string \<Rightarrow> json list \<times> nat \<times> string" where
  "filter_hooks markers [] n cmd = ([], n, cmd)"
| "filter_hooks markers (h # hs) n cmd =
     (if hookHasMarker h markers then
        filter_hooks markers hs (Suc n)
          (if cmd = [] then (case as_obj h of None \<Rightarrow> [] | Some m \<Rightarrow> hook_command m) else cmd)
      else (let (kept, n', cmd') = filter_hooks markers hs n cmd in (h # kept, n', cmd')))"

fun filter_entries :: "string list \<Rightarrow> json list \<Rightarrow> nat \<Rightarrow> string \<Rightarrow> json list \<times> nat \<times> string" where
  "filter_entries markers [] n cmd = ([], n, cmd)"
| "filter_entries markers (entry # es) n cmd =
     (case entry_hooks entry of
        None \<Rightarrow> (let (out, n', cmd') = filter_entries markers es n cmd in (entry # out, n', cmd'))
      | Some hs \<Rightarrow>
          (let (kept, n1, cmd1) = filter_hooks markers hs n cmd;
               (out, n', cmd') = filter_entries markers es n1 cmd1
           in if n1 = n then (entry # out, n', cmd')
              else if kept = [] then (out, n', cmd')
              else (set_hooks kept entry # out, n', cmd')))"

definition filterHookEntries :: "json list \<Rightarrow> string list \<Rightarrow> json list \<times> nat \<times> string" where
  "filterHookEntries arr markers = filter_entries markers arr 0 []"

subsection \<open>Installing\<close>

definition upgrade_hook :: "string \<Rightarrow> json \<Rightarrow> json" where
  "upgrade_hook escaped h =
     (case h of JObj m \<Rightarrow>
        (let cmd = hook_command m in
         if str_contains cmd ''npx ca ''
         then JObj (AList.update ''command'' (JStr (replace_first cmd ''npx ca '' (escaped @ '' ''))) m) else h)
      | _ \<Rightarrow> h)"

definition upgrade_entry :: "string \<Rightarrow> json \<Rightarrow> json" where
  "upgrade_entry escaped entry =
     (case entry_hooks entry of None \<Rightarrow> entry | Some hs \<Rightarrow> set_hooks (map (upgrade_hook escaped) hs) entry)"

definition upgrade_type :: "string \<Rightarrow> obj \<Rightarrow> string \<Rightarrow> obj" where
  "upgrade_type escaped hooks hookType =
     (let (arr, hooks1) = getHookArray hooks hookType
      in AList.update hookType (JArr (map (upgrade_entry escaped) arr)) hooks1)"

definition upgradeNpxHooks :: "obj \<Rightarrow> string \<Rightarrow> obj" where
  "upgradeNpxHooks hooks binaryPath =
     (if binaryPath = [] then hooks else foldl (upgrade_type (ShellEscape binaryPath)) hooks HookTypes)"

definition remove_spec :: "InitProfile \<Rightarrow> obj \<Rightarrow> managed_spec \<Rightarrow> obj" where
  "remove_spec profile hooks sp =
     (if profileIncludes (sp_profile sp) profile then hooks
      else case as_arr (get_any hooks (sp_hookType sp)) of None \<Rightarrow> hooks
        | Some arr \<Rightarrow> AList.update (sp_hookType sp) (JArr (fst (filterHookEntries arr (sp_markers sp)))) hooks)"

definition removeOutOfProfileHooks :: "obj \<Rightarrow> InitProfile \<Rightarrow> obj" where
  "removeOutOfProfileHooks hooks profile = foldl (remove_spec profile) hooks managedHookSpecs"

definition install_spec :: "string \<Rightarrow> obj \<Rightarrow> managed_spec \<Rightarrow> obj" where
  "install_spec binaryPath hooks sp =
     (let (arr, hooks1) = getHookArray hooks (sp_hookType sp);
          (filtered, _, firstCommand) = filterHookEntries arr (sp_markers sp);
          command = (if binaryPath = [] \<and> firstCommand \<noteq> [] \<and> \<not> str_contains firstCommand ''npx ca ''
                     then firstCommand else sp_build sp binaryPath)
      in AList.update (sp_hookType sp) (JArr (filtered @ [hookEntry (sp_matcher sp) command])) hooks1)"

definition installInProfileHooks :: "obj \<Rightarrow> string \<Rightarrow> InitProfile \<Rightarrow> obj" where
  "installInProfileHooks hooks binaryPath profile =
     foldl (install_spec binaryPath) hooks (hookSpecsForProfile profile)"

definition dropEmptyHookArrays :: "obj \<Rightarrow> obj" where
  "dropEmptyHookArrays hooks =
     foldl (\<lambda>h hookType. if as_arr (get_any h hookType) = Some [] then AList.delete hookType h else h) hooks HookTypes"

text \<open>The settings afterwards; none if the assignment to a nil map panics.\<close>

definition AddHooksForProfile :: "settings \<Rightarrow> string \<Rightarrow> InitProfile \<Rightarrow> settings" where
  "AddHooksForProfile s binaryPath profile =
     (case s of None \<Rightarrow> None
      | Some m \<Rightarrow>
         (let hooks = getHooksMap m;
              hooks1 = upgradeNpxHooks hooks binaryPath;
              hooks2 = removeOutOfProfileHooks hooks1 profile;
              hooks3 = installInProfileHooks hooks2 binaryPath profile
          in Some (AList.update ''hooks'' (JObj (dropEmptyHookArrays hooks3)) m)))"

definition AddAllHooks :: "settings \<Rightarrow> string \<Rightarrow> settings" where
  "AddAllHooks s binaryPath = AddHooksForProfile s binaryPath ProfileFull"

subsection \<open>Checking\<close>

definition hooks_of :: "settings \<Rightarrow> obj option" where
  "hooks_of s = (case s of None \<Rightarrow> None | Some m \<Rightarrow> as_obj (get_any m ''hooks''))"

definition HasAllHooksForProfile :: "settings \<Rightarrow> InitProfile \<Rightarrow> bool" where
  "HasAllHooksForProfile s profile =
     (case hooks_of s of None \<Rightarrow> False
      | Some hooks \<Rightarrow> list_all (\<lambda>sp. case as_arr (get_any hooks (sp_hookType sp)) of None \<Rightarrow> False
            | Some arr \<Rightarrow> hasHookMarker arr (sp_markers sp)) (hookSpecsForProfile profile))"

definition HasAllHooks :: "settings \<Rightarrow> bool" where
  "HasAllHooks s = HasAllHooksForProfile s ProfileFull"

definition hooksHaveOutOfProfileEntries :: "settings \<Rightarrow> InitProfile \<Rightarrow> bool" where
  "hooksHaveOutOfProfileEntries s profile =
     (case hooks_of s of None \<Rightarrow> False
      | Some hooks \<Rightarrow> list_ex (\<lambda>sp. \<not> profileIncludes (sp_profile sp) profile \<and>
            (case as_arr (get_any hooks (sp_hookType sp)) of None \<Rightarrow> False
             | Some arr \<Rightarrow> hasHookMarker arr (sp_markers sp))) managedHookSpecs)"

definition hookArrayHasNpx :: "json list \<Rightarrow> bool" where
  "hookArrayHasNpx arr =
     list_ex (\<lambda>entry. case entry_hooks entry of None \<Rightarrow> False
       | Some hs \<Rightarrow> list_ex (\<lambda>h. case as_obj h of None \<Rightarrow> False
           | Some m \<Rightarrow> str_contains (hook_command m) ''npx ca '') hs) arr"

definition HooksNeedUpgrade :: "settings \<Rightarrow> string \<Rightarrow> bool" where
  "HooksNeedUpgrade s binaryPath =
     (if binaryPath = [] then False
      else case hooks_of s of None \<Rightarrow> False
        | Some hooks \<Rightarrow> list_ex (\<lambda>hookType. case as_arr (get_any hooks hookType) of None \<Rightarrow> False
            | Some arr \<Rightarrow> hookArrayHasNpx arr) HookTypes)"

definition HooksNeedDedupe :: "settings \<Rightarrow> bool" where
  "HooksNeedDedupe s =
     (case hooks_of s of None \<Rightarrow> False
      | Some hooks \<Rightarrow> list_ex (\<lambda>sp. case as_arr (get_any hooks (sp_hookType sp)) of None \<Rightarrow> False
            | Some arr \<Rightarrow> 1 < fst (snd (filterHookEntries arr (sp_markers sp)))) managedHookSpecs)"

subsection \<open>Removing\<close>

definition isCompoundHookEntry :: "json \<Rightarrow> bool" where
  "isCompoundHookEntry entry =
     (case entry_hooks entry of None \<Rightarrow> False
      | Some hs \<Rightarrow> list_ex (\<lambda>h. case as_obj h of None \<Rightarrow> False
          | Some m \<Rightarrow> list_ex (commandHasMarker (hook_command m)) HookMarkers) hs)"

definition removeHookEntries :: "json list \<Rightarrow> json list \<times> bool" where
  "removeHookEntries arr =
     (let filtered = filter (\<lambda>e. \<not> isCompoundHookEntry e) arr in (filtered, length filtered < length arr))"

definition remove_type :: "obj \<times> bool \<Rightarrow> string \<Rightarrow> obj \<times> bool" where
  "remove_type st hookType =
     (case as_arr (get_any (fst st) hookType) of None \<Rightarrow> st
      | Some arr \<Rightarrow> (let (filtered, removed) = removeHookEntries arr
          in (AList.update hookType (JArr filtered) (fst st), removed \<or> snd st)))"

text \<open>The settings afterwards and whether an entry was removed.\<close>

definition RemoveAllHooks :: "settings \<Rightarrow> settings \<times> bool" where
  "RemoveAllHooks s =
     (case s of None \<Rightarrow> (None, False)
      | Some m \<Rightarrow>
         (case as_obj (get_any m ''hooks'') of None \<Rightarrow> (s, False)
          | Some hooks \<Rightarrow> (let (hooks', anyRemoved) = foldl remove_type (hooks, False) HookTypes
              in (Some (AList.update ''hooks'' (JObj (dropEmptyHookArrays hooks')) m), anyRemoved))))"

subsection \<open>The operations on the file\<close>

definition settings_path :: "path \<Rightarrow> path" where
  "settings_path repoRoot = repoRoot @ [''.claude'', ''settings.json'']"

text \<open>The result is \<open>HooksUpgraded\<close>; \<open>HooksInstalled\<close> is true whenever there is one.\<close>

definition initHooks :: "(string \<Rightarrow> string) \<Rightarrow> path \<Rightarrow> string \<Rightarrow> InitProfile \<Rightarrow> bool io" where
  "initHooks show_float repoRoot binaryPath profile =
     bind_io (ctx_io ''read settings'' (ReadClaudeSettings (settings_path repoRoot))) (\<lambda>s.
       (let needsInstall = \<not> HasAllHooksForProfile s profile;
            needsUpgrade = HooksNeedUpgrade s binaryPath;
            needsDedupe = HooksNeedDedupe s;
            hasOutOfProfile = hooksHaveOutOfProfileEntries s profile
        in if needsInstall \<or> needsUpgrade \<or> needsDedupe \<or> hasOutOfProfile then
             (case AddHooksForProfile s binaryPath profile of
                None \<Rightarrow> fail (Panic ''assignment to entry in nil map'')
              | Some m \<Rightarrow> bind_io (ctx_io ''write settings'' (WriteClaudeSettings show_float (settings_path repoRoot) (Some m)))
                  (\<lambda>_. ret (needsUpgrade \<and> \<not> needsInstall)))
           else ret False))"

definition uninstallHooks :: "(string \<Rightarrow> string) \<Rightarrow> path \<Rightarrow> bool io" where
  "uninstallHooks show_float repoRoot =
     bind_io (ctx_io ''read settings'' (ReadClaudeSettings (settings_path repoRoot))) (\<lambda>s.
       (let (s', removed) = RemoveAllHooks s
        in if removed then
             bind_io (ctx_io ''write settings'' (WriteClaudeSettings show_float (settings_path repoRoot) s')) (\<lambda>_. ret True)
           else ret False))"

definition planHooks :: "path \<Rightarrow> string list io" where
  "planHooks repoRoot =
     try_io (ReadClaudeSettings (settings_path repoRoot)) (\<lambda>r. case r of Inl _ \<Rightarrow> ret []
       | Inr s \<Rightarrow> (case hooks_of s of None \<Rightarrow> ret []
         | Some hooks \<Rightarrow>
             ret (if list_ex (\<lambda>sp. case as_arr (get_any hooks (sp_hookType sp)) of None \<Rightarrow> False
                    | Some arr \<Rightarrow> hasHookMarker arr (sp_markers sp)) managedHookSpecs
                  then [''managed hooks in .claude/settings.json''] else [])))"

subsection \<open>Hints\<close>

definition hintsMarkerFile :: string where
  "hintsMarkerFile = ''.ca-hints-shown''"

definition ReadHintsEnabled :: "path \<Rightarrow> bool io" where
  "ReadHintsEnabled repoRoot =
     try_io (os_read_file (repoRoot @ [''.claude'', ''compound-agent.json''])) (\<lambda>r. case r of Inl _ \<Rightarrow> ret False
       | Inr data \<Rightarrow> ret (case json_parse data of None \<Rightarrow> False
           | Some v \<Rightarrow> nums_finite v \<and> (case any_of v of JObj m \<Rightarrow> get_any m ''hints'' = JBool True | _ \<Rightarrow> False)))"

definition ShouldShowHint :: "path \<Rightarrow> bool io" where
  "ShouldShowHint repoRoot =
     bind_io (ReadHintsEnabled repoRoot) (\<lambda>on.
       if \<not> on then ret False
       else try_io (os_stat (repoRoot @ [''.claude'', hintsMarkerFile])) (\<lambda>r. case r of
           Inl e \<Rightarrow> ret (is_not_exist e) | Inr _ \<Rightarrow> ret False))"

definition MarkHintShown :: "path \<Rightarrow> unit io" where
  "MarkHintShown repoRoot = os_write_file (repoRoot @ [''.claude'', hintsMarkerFile]) []"

definition WorkflowHint :: string where
  "WorkflowHint =
     ''Tip: compound-agent tracks lessons across sessions. Start with:'' @ [CHR 0x0A] @
     ''  ca learn '' @ [CHR 0x22] @ ''<insight>'' @ [CHR 0x22] @ '' --trigger '' @ [CHR 0x22] @ ''<what happened>'' @ [CHR 0x22, CHR 0x0A] @
     ''  ca search '' @ [CHR 0x22] @ ''<topic>'' @ [CHR 0x22, CHR 0x0A] @
     ''  ca info'' @ [CHR 0x0A]"

end
