(* ===== verification/Templates.thy ===== *)
theory Templates
  imports Settings
begin

section \<open>Package setup: templates (setup/templates/embed.go, setup/primitives.go, setup/detect.go)\<close>

text \<open>
  The templates that are embedded in the binary, the detection of the project's stack, and the functions that install,
  update and prune the template files of a repository. The embedded contents are data: a record of file trees and texts.
  Go ranges over a map in an unspecified order, which is the function \<open>tp_range\<close> of the environment; the date, the
  version and the text of a float64 are parts of it too. A path is the list of its names, and a path relative to a
  template root, such as \<open>work/references/x.md\<close>, is split at its slashes where it is joined to a directory.
\<close>

record templates =
  tp_agentsFS :: node
  tp_commandsFS :: node
  tp_skillsFS :: node
  tp_agentRoleSkillsFS :: node
  tp_docsFS :: node
  tp_researchFS :: node
  tp_agentsMd :: string
  tp_claudeMd :: string
  tp_plugin :: string
  tp_gooseHooks :: string
  tp_gooseHints :: string
  tp_gooseRecipe :: string
  tp_gooseReview :: string
  tp_gooseSub :: "(string, string) gomap"
  tp_codex :: string
  tp_agy :: string
  tp_range :: "(string \<times> string) list \<Rightarrow> (string \<times> string) list"
  tp_version :: string
  tp_date :: string
  tp_home :: "path option"
  tp_float :: "string \<Rightarrow> string"

definition nl :: string where
  "nl = [CHR 0x0A]"

subsection \<open>Markers\<close>

definition CompoundAgentSectionHeader :: string where
  "CompoundAgentSectionHeader = ''## Compound Agent Integration''"
definition ClaudeRefStartMarker :: string where
  "ClaudeRefStartMarker = ''<!-- compound-agent:claude-ref:start -->''"
definition ClaudeRefEndMarker :: string where
  "ClaudeRefEndMarker = ''<!-- compound-agent:claude-ref:end -->''"
definition AgentsSectionStartMarker :: string where
  "AgentsSectionStartMarker = ''<!-- compound-agent:start -->''"
definition AgentsSectionEndMarker :: string where
  "AgentsSectionEndMarker = ''<!-- compound-agent:end -->''"
definition AntigravityStartMarker :: string where
  "AntigravityStartMarker = ''<!-- compound-agent:antigravity:start -->''"
definition AntigravityEndMarker :: string where
  "AntigravityEndMarker = ''<!-- compound-agent:antigravity:end -->''"

subsection \<open>The embedded files\<close>

text \<open>\<open>fs.WalkDir\<close>: the regular files below a directory of an embedded tree, with their paths.\<close>

fun walk_files :: "path \<Rightarrow> node \<Rightarrow> (path \<times> string) list" where
  "walk_files p (RegFile c) = [(p, c)]"
| "walk_files p (Dir es) = concat (map (\<lambda>(k, n). walk_files (p @ [k]) n) es)"

definition walk_dir :: "node \<Rightarrow> path \<Rightarrow> (path \<times> string) list" where
  "walk_dir fsys r = (case node_at fsys r of None \<Rightarrow> [] | Some n \<Rightarrow> walk_files r n)"

definition put_all :: "('k \<times> 'v) list \<Rightarrow> ('k, 'v) gomap" where
  "put_all kvs = foldl (\<lambda>m (k, v). AList.update k v m) [] kvs"

definition readEmbedDir :: "node \<Rightarrow> string \<Rightarrow> (string, string) gomap" where
  "readEmbedDir fsys d =
     (case node_at fsys [d] of Some (Dir es) \<Rightarrow>
        put_all (concat (map (\<lambda>(k, n). case n of RegFile c \<Rightarrow> [(k, c)] | Dir _ \<Rightarrow> []) es))
      | _ \<Rightarrow> [])"

definition AgentTemplates :: "templates \<Rightarrow> (string, string) gomap" where
  "AgentTemplates tp = readEmbedDir (tp_agentsFS tp) ''agents''"

definition CommandTemplates :: "templates \<Rightarrow> (string, string) gomap" where
  "CommandTemplates tp = readEmbedDir (tp_commandsFS tp) ''commands''"

definition DocTemplates :: "templates \<Rightarrow> (string, string) gomap" where
  "DocTemplates tp = readEmbedDir (tp_docsFS tp) ''docs''"

text \<open>The first name below the root of each SKILL.md, and the other files by their path below the root.\<close>

definition skill_files :: "(path \<times> string) list \<Rightarrow> (string, string) gomap" where
  "skill_files ws = put_all (concat (map (\<lambda>(p, c).
     if last p = ''SKILL.md'' \<and> length p \<ge> 3 then [(p ! 1, c)] else []) ws))"

definition reference_files :: "(path \<times> string) list \<Rightarrow> (string, string) gomap" where
  "reference_files ws = put_all (concat (map (\<lambda>(p, c).
     if last p = ''SKILL.md'' then [] else if length p \<ge> 2 then [(join ''/'' (tl p), c)] else []) ws))"

definition PhaseSkills :: "templates \<Rightarrow> (string, string) gomap" where
  "PhaseSkills tp = skill_files (walk_dir (tp_skillsFS tp) [''skills''])"

definition PhaseSkillReferences :: "templates \<Rightarrow> (string, string) gomap" where
  "PhaseSkillReferences tp = reference_files (walk_dir (tp_skillsFS tp) [''skills''])"

definition AgentRoleSkills :: "templates \<Rightarrow> (string, string) gomap" where
  "AgentRoleSkills tp = skill_files (walk_dir (tp_agentRoleSkillsFS tp) [''agent-role-skills''])"

definition AgentRoleSkillReferences :: "templates \<Rightarrow> (string, string) gomap" where
  "AgentRoleSkillReferences tp = reference_files (walk_dir (tp_agentRoleSkillsFS tp) [''agent-role-skills''])"

definition ResearchDocs :: "templates \<Rightarrow> (string, string) gomap" where
  "ResearchDocs tp = put_all (map (\<lambda>(p, c). (join ''/'' (drop 2 p), c)) (walk_dir (tp_researchFS tp) [''docs'', ''research'']))"

subsection \<open>The stack\<close>

record StackInfo =
  TestCmd :: string
  LintCmd :: string
  BuildCmd :: string

definition quoted_fallback :: "string \<Rightarrow> string \<Rightarrow> string" where
  "quoted_fallback what tail_text =
     ''sh -c '' @ [CHR 0x27] @ ''echo '' @ [CHR 0x22] @ ''[compound-agent] '' @ what @
     '' command not configured for this stack '' @ [CHR 0xE2, CHR 0x80, CHR 0x94] @
     '' edit .claude/skills/compound/*/SKILL.md or re-run ca setup in a repo with a detectable stack'' @ tail_text @
     [CHR 0x22] @ '' >&2; exit 1'' @ [CHR 0x27]"

definition FallbackTestCmd :: string where
  "FallbackTestCmd = quoted_fallback ''test'' '' (go.mod, Cargo.toml, pyproject.toml, package.json, Makefile)''"
definition FallbackLintCmd :: string where
  "FallbackLintCmd = quoted_fallback ''lint'' []"
definition FallbackBuildCmd :: string where
  "FallbackBuildCmd = quoted_fallback ''build'' []"

definition withFallbacks :: "StackInfo \<Rightarrow> StackInfo" where
  "withFallbacks s =
     (let s1 = (if TestCmd s = [] then s\<lparr>TestCmd := FallbackTestCmd\<rparr> else s);
          s2 = (if LintCmd s1 = [] then s1\<lparr>LintCmd := FallbackLintCmd\<rparr> else s1)
      in if BuildCmd s2 = [] then s2\<lparr>BuildCmd := FallbackBuildCmd\<rparr> else s2)"

definition fileExists :: "node \<Rightarrow> path \<Rightarrow> string \<Rightarrow> bool" where
  "fileExists t repoRoot name = (case node_at t (repoRoot @ [name]) of Some n \<Rightarrow> \<not> is_dir n | None \<Rightarrow> False)"

definition detectNodePackageManager :: "node \<Rightarrow> path \<Rightarrow> StackInfo" where
  "detectNodePackageManager t repoRoot =
     (if fileExists t repoRoot ''pnpm-lock.yaml'' then
        \<lparr>TestCmd = ''pnpm test'', LintCmd = ''pnpm lint'', BuildCmd = ''pnpm build''\<rparr>
      else if fileExists t repoRoot ''yarn.lock'' then
        \<lparr>TestCmd = ''yarn test'', LintCmd = ''yarn lint'', BuildCmd = ''yarn build''\<rparr>
      else if fileExists t repoRoot ''bun.lock'' \<or> fileExists t repoRoot ''bun.lockb'' then
        \<lparr>TestCmd = ''bun test'', LintCmd = ''bun run lint'', BuildCmd = ''bun run build''\<rparr>
      else \<lparr>TestCmd = ''npm test'', LintCmd = ''npm run lint'', BuildCmd = ''npm run build''\<rparr>)"

definition DetectStack :: "path \<Rightarrow> StackInfo io" where
  "DetectStack repoRoot = (\<lambda>t. (Inr
     (if fileExists t repoRoot ''go.mod'' then
        \<lparr>TestCmd = ''go test ./...'', LintCmd = ''golangci-lint run ./...'', BuildCmd = ''go build ./...''\<rparr>
      else if fileExists t repoRoot ''Cargo.toml'' then
        \<lparr>TestCmd = ''cargo test'', LintCmd = ''cargo clippy'', BuildCmd = ''cargo build''\<rparr>
      else if fileExists t repoRoot ''pyproject.toml'' \<or> fileExists t repoRoot ''setup.py'' then
        \<lparr>TestCmd = ''pytest'', LintCmd = ''ruff check .'', BuildCmd = ''python -m compileall .''\<rparr>
      else if fileExists t repoRoot ''package.json'' then detectNodePackageManager t repoRoot
      else if fileExists t repoRoot ''Makefile'' then
        \<lparr>TestCmd = ''make test'', LintCmd = ''make lint'', BuildCmd = ''make build''\<rparr>
      else \<lparr>TestCmd = FallbackTestCmd, LintCmd = FallbackLintCmd, BuildCmd = FallbackBuildCmd\<rparr>), t))"

subsection \<open>Skill front matter\<close>

definition stripYAMLQuotes :: "string \<Rightarrow> string" where
  "stripYAMLQuotes s =
     (if 2 \<le> length s \<and> (hd s = CHR 0x22 \<and> last s = CHR 0x22 \<or> hd s = CHR 0x27 \<and> last s = CHR 0x27)
      then butlast (tl s) else s)"

definition yaml_value :: "string \<Rightarrow> string \<Rightarrow> string" where
  "yaml_value trimmed key = stripYAMLQuotes (trim_space (trim_prefix trimmed key))"

text \<open>The loop over the lines, with the values found so far.\<close>

fun frontmatter_lines :: "string list \<Rightarrow> bool \<Rightarrow> string \<times> string \<times> string \<Rightarrow> string \<times> string \<times> string" where
  "frontmatter_lines [] inside r = r"
| "frontmatter_lines (line # ls) inside (name, desc, phase) =
     (let trimmed = trim_space line in
      if trimmed = ''---'' then
        (if inside then (name, desc, phase) else frontmatter_lines ls True (name, desc, phase))
      else if \<not> inside then frontmatter_lines ls inside (name, desc, phase)
      else if has_prefix trimmed ''name:'' then frontmatter_lines ls inside (yaml_value trimmed ''name:'', desc, phase)
      else if has_prefix trimmed ''description:'' then frontmatter_lines ls inside (name, yaml_value trimmed ''description:'', phase)
      else if has_prefix trimmed ''phase:'' then frontmatter_lines ls inside (name, desc, yaml_value trimmed ''phase:'')
      else frontmatter_lines ls inside (name, desc, phase))"

definition extractFrontmatter :: "string \<Rightarrow> string \<times> string \<times> string" where
  "extractFrontmatter content = frontmatter_lines (split_on CHR 0x0A content) False ([], [], [])"

record SkillEntry =
  se_Name :: string
  se_Description :: string
  se_Phase :: string
  se_Dir :: string

definition enc_skill :: "SkillEntry \<Rightarrow> json" where
  "enc_skill e = JObj ([(''name'', JStr (se_Name e)), (''description'', JStr (se_Description e))] @
     (if se_Phase e = [] then [] else [(''phase'', JStr (se_Phase e))]) @ [(''dir'', JStr (se_Dir e))])"

definition skills_index :: "(string \<times> string) list \<Rightarrow> json" where
  "skills_index skills =
     (let entries = map (\<lambda>(d, content). case extractFrontmatter content of (name, desc, phase) \<Rightarrow>
            \<lparr>se_Name = name, se_Description = desc, se_Phase = phase, se_Dir = d\<rparr>) skills;
          sorted_entries = insertion_sort (\<lambda>a b. se_Dir a < se_Dir b) entries
      in JObj [(''skills'', if sorted_entries = [] then JNull else JArr (map enc_skill sorted_entries))])"

definition skills_dir :: "path \<Rightarrow> path" where
  "skills_dir repoRoot = repoRoot @ [''.claude'', ''skills'', ''compound'']"

definition CompileSkillsIndex :: "templates \<Rightarrow> path \<Rightarrow> unit io" where
  "CompileSkillsIndex tp repoRoot =
     bind_io (ctx_io ''mkdir for skills index'' (os_mkdir_all (skills_dir repoRoot))) (\<lambda>_.
     os_write_file (skills_dir repoRoot @ [''skills_index.json'']) (marshal_indent (skills_index (tp_range tp (PhaseSkills tp)))))"

subsection \<open>Writing one file\<close>

text \<open>\<open>docDatePattern\<close> has a fixed length: the key, a quote, a date of ten bytes and a quote.\<close>

definition date_key :: string where
  "date_key = ''last-updated: '' @ [CHR 0x22]"

definition docDatePattern :: "string \<Rightarrow> bool" where
  "docDatePattern s \<longleftrightarrow>
     has_prefix s date_key \<and>
     (let d = drop (length date_key) s in
      11 \<le> length d \<and> list_all is_digit (take 4 d) \<and> d ! 4 = CHR ''-'' \<and> list_all is_digit (take 2 (drop 5 d)) \<and>
      d ! 7 = CHR ''-'' \<and> list_all is_digit (take 2 (drop 8 d)) \<and> d ! 10 = CHR 0x22)"

function normalizeDocDate :: "string \<Rightarrow> string" where
  "normalizeDocDate s =
     (case s of [] \<Rightarrow> []
      | c # r \<Rightarrow>
        if docDatePattern s
        then date_key @ ''NORMALIZED'' @ [CHR 0x22] @ normalizeDocDate (drop (length date_key + 11) s)
        else c # normalizeDocDate r)"
  by pat_completeness auto
termination
  by (relation "measure length") (auto intro!: diff_less)

declare normalizeDocDate.simps [simp del]

text \<open>Whether the file was created and whether it was updated.\<close>

definition reconcileFile :: "path \<Rightarrow> string \<Rightarrow> (bool \<times> bool) io" where
  "reconcileFile p content =
     try_io (os_read_file p) (\<lambda>r. case r of
         Inl e \<Rightarrow>
           if is_not_exist e then
             bind_io (ctx_io (''write '' @ show_path p) (os_write_file p content)) (\<lambda>_. ret (True, False))
           else fail (Ctx (''read '' @ show_path p) e)
       | Inr existing \<Rightarrow>
           if existing \<noteq> content then
             bind_io (ctx_io (''write '' @ show_path p) (os_write_file p content)) (\<lambda>_. ret (False, True))
           else ret (False, False))"

definition writeSkillFile :: "path \<Rightarrow> string \<Rightarrow> (bool \<times> bool) io" where
  "writeSkillFile p content =
     bind_io (ctx_io (''mkdir '' @ show_path (butlast p)) (os_mkdir_all (butlast p))) (\<lambda>_. reconcileFile p content)"

text \<open>\<open>replace_all\<close> takes the old text first.\<close>

definition substituteQualityGates :: "string \<Rightarrow> StackInfo \<Rightarrow> string" where
  "substituteQualityGates content st =
     (let s = withFallbacks st;
          c1 = replace_all ''{{QUALITY_GATE_TEST}}'' (TestCmd s) content;
          c2 = replace_all ''{{QUALITY_GATE_LINT}}'' (LintCmd s) c1
      in replace_all ''{{QUALITY_GATE_BUILD}}'' (BuildCmd s) c2)"

subsection \<open>Installing groups of files\<close>

text \<open>The loop that all installers share: write each file, count the created and the updated ones, stop at an error.\<close>

fun count_files :: "('k \<times> 'v \<Rightarrow> (bool \<times> bool) io) \<Rightarrow> ('k \<times> 'v) list \<Rightarrow> nat \<Rightarrow> nat \<Rightarrow> (nat \<times> nat) io" where
  "count_files write [] created updated = ret (created, updated)"
| "count_files write (kv # kvs) created updated =
     bind_io (write kv) (\<lambda>(c, u). count_files write kvs
       (if c then Suc created else created) (if u then Suc updated else updated))"

definition rel_path :: "string \<Rightarrow> path" where
  "rel_path rel = split_on CHR ''/'' rel"

definition installMapToDir :: "templates \<Rightarrow> path \<Rightarrow> (string, string) gomap \<Rightarrow> (nat \<times> nat) io" where
  "installMapToDir tp d files_map =
     bind_io (ctx_io (''mkdir '' @ show_path d) (os_mkdir_all d)) (\<lambda>_.
     count_files (\<lambda>(filename, content). reconcileFile (d @ [filename]) content) (tp_range tp files_map) 0 0)"

definition InstallAgentTemplates :: "templates \<Rightarrow> path \<Rightarrow> (nat \<times> nat) io" where
  "InstallAgentTemplates tp repoRoot = installMapToDir tp (repoRoot @ [''.claude'', ''agents'', ''compound'']) (AgentTemplates tp)"

definition InstallWorkflowCommands :: "templates \<Rightarrow> path \<Rightarrow> (nat \<times> nat) io" where
  "InstallWorkflowCommands tp repoRoot = installMapToDir tp (repoRoot @ [''.claude'', ''commands'', ''compound'']) (CommandTemplates tp)"

definition InstallPhaseSkills :: "templates \<Rightarrow> path \<Rightarrow> StackInfo \<Rightarrow> (nat \<times> nat) io" where
  "InstallPhaseSkills tp repoRoot st =
     bind_io (count_files (\<lambda>(phase, content).
         writeSkillFile (skills_dir repoRoot @ [phase, ''SKILL.md'']) (substituteQualityGates content st))
       (tp_range tp (PhaseSkills tp)) 0 0) (\<lambda>(created, updated).
     count_files (\<lambda>(relPath, content).
         writeSkillFile (skills_dir repoRoot @ rel_path relPath) (substituteQualityGates content st))
       (tp_range tp (PhaseSkillReferences tp)) created updated)"

definition installAgentRoleSkillReferences :: "templates \<Rightarrow> path \<Rightarrow> (nat \<times> nat) io" where
  "installAgentRoleSkillReferences tp agentsDir =
     count_files (\<lambda>(relPath, content).
         bind_io (ctx_io (''mkdir '' @ show_path (butlast (agentsDir @ rel_path relPath)))
             (os_mkdir_all (butlast (agentsDir @ rel_path relPath)))) (\<lambda>_.
         reconcileFile (agentsDir @ rel_path relPath) content))
       (tp_range tp (AgentRoleSkillReferences tp)) 0 0"

definition InstallAgentRoleSkills :: "templates \<Rightarrow> path \<Rightarrow> (nat \<times> nat) io" where
  "InstallAgentRoleSkills tp repoRoot =
     (let agentsDir = skills_dir repoRoot @ [''agents''] in
      bind_io (count_files (\<lambda>(role, content).
          bind_io (ctx_io (''mkdir '' @ show_path (agentsDir @ [role])) (os_mkdir_all (agentsDir @ [role]))) (\<lambda>_.
          reconcileFile (agentsDir @ [role, ''SKILL.md'']) content))
        (tp_range tp (AgentRoleSkills tp)) 0 0) (\<lambda>(created, updated).
      bind_io (installAgentRoleSkillReferences tp agentsDir) (\<lambda>(c, u). ret (created + c, updated + u))))"

definition doc_content :: "templates \<Rightarrow> StackInfo \<Rightarrow> string \<Rightarrow> string" where
  "doc_content tp st tmpl =
     substituteQualityGates (replace_all ''{{DATE}}'' (tp_date tp) (replace_all ''{{VERSION}}'' (tp_version tp) tmpl)) st"

definition install_doc :: "path \<Rightarrow> string \<Rightarrow> (bool \<times> bool) io" where
  "install_doc p content =
     try_io (os_read_file p) (\<lambda>r. case r of
         Inl e \<Rightarrow>
           if is_not_exist e then
             bind_io (ctx_io (''write '' @ show_path p) (os_write_file p content)) (\<lambda>_. ret (True, False))
           else fail (Ctx (''read '' @ show_path p) e)
       | Inr existing \<Rightarrow>
           if normalizeDocDate existing \<noteq> normalizeDocDate content then
             bind_io (ctx_io (''write '' @ show_path p) (os_write_file p content)) (\<lambda>_. ret (False, True))
           else ret (False, False))"

definition InstallDocTemplates :: "templates \<Rightarrow> path \<Rightarrow> StackInfo \<Rightarrow> (nat \<times> nat) io" where
  "InstallDocTemplates tp repoRoot st =
     (let d = repoRoot @ [''docs'', ''compound''] in
      bind_io (ctx_io (''mkdir '' @ show_path d) (os_mkdir_all d)) (\<lambda>_.
      count_files (\<lambda>(filename, tmpl). install_doc (d @ [filename]) (doc_content tp st tmpl)) (tp_range tp (DocTemplates tp)) 0 0))"

definition InstallResearchDocs :: "templates \<Rightarrow> path \<Rightarrow> (nat \<times> nat) io" where
  "InstallResearchDocs tp repoRoot =
     (let researchDir = repoRoot @ [''docs'', ''compound'', ''research''] in
      bind_io (ctx_io (''mkdir '' @ show_path researchDir) (os_mkdir_all researchDir)) (\<lambda>_.
      count_files (\<lambda>(relPath, content). writeSkillFile (researchDir @ rel_path relPath) content) (tp_range tp (ResearchDocs tp)) 0 0))"

subsection \<open>The shared files\<close>

definition UpdateAgentsMd :: "templates \<Rightarrow> path \<Rightarrow> bool io" where
  "UpdateAgentsMd tp repoRoot =
     (let p = repoRoot @ [''AGENTS.md''] in
      try_io (os_read_file p) (\<lambda>r. case r of
          Inr existing \<Rightarrow>
            if str_contains existing CompoundAgentSectionHeader then ret False
            else bind_io (os_write_file p (trim_cut_right nl existing @ nl @ tp_agentsMd tp)) (\<lambda>_. ret True)
        | Inl e \<Rightarrow>
            if \<not> is_not_exist e then fail (Ctx ''read AGENTS.md'' e)
            else bind_io (os_write_file p (trim_space (tp_agentsMd tp) @ nl)) (\<lambda>_. ret True)))"

definition EnsureClaudeMdReference :: "templates \<Rightarrow> path \<Rightarrow> bool io" where
  "EnsureClaudeMdReference tp repoRoot =
     (let claudeDir = repoRoot @ [''.claude'']; p = claudeDir @ [''CLAUDE.md''] in
      bind_io (ctx_io ''mkdir .claude'' (os_mkdir_all claudeDir)) (\<lambda>_.
      try_io (os_read_file p) (\<lambda>r. case r of
          Inr content \<Rightarrow>
            if str_contains content ''Compound Agent'' \<or> str_contains content ClaudeRefStartMarker then ret False
            else bind_io (os_write_file p (trim_cut_right nl content @ nl @ tp_claudeMd tp)) (\<lambda>_. ret True)
        | Inl e \<Rightarrow>
            if \<not> is_not_exist e then fail (Ctx ''read CLAUDE.md'' e)
            else bind_io (os_write_file p (''# Project Instructions'' @ nl @ tp_claudeMd tp)) (\<lambda>_. ret True))))"

text \<open>Whether the text decodes to an object whose version is the given string.\<close>

definition manifest_current :: "string \<Rightarrow> string \<Rightarrow> bool" where
  "manifest_current existing version =
     (case json_parse existing of None \<Rightarrow> False
      | Some v \<Rightarrow> nums_finite v \<and> (case any_of v of JObj m \<Rightarrow> get_any m ''version'' = JStr version | _ \<Rightarrow> False))"

definition CreatePluginManifest :: "templates \<Rightarrow> path \<Rightarrow> string \<Rightarrow> (bool \<times> bool) io" where
  "CreatePluginManifest tp repoRoot version =
     (let p = repoRoot @ [''.claude'', ''plugin.json'']; content = replace_all ''{{VERSION}}'' version (tp_plugin tp) in
      bind_io (ctx_io ''mkdir .claude'' (os_mkdir_all (repoRoot @ [''.claude'']))) (\<lambda>_.
      try_io (os_read_file p) (\<lambda>r. case r of
          Inl e \<Rightarrow>
            if \<not> is_not_exist e then fail (Ctx ''read plugin.json'' e)
            else bind_io (os_write_file p content) (\<lambda>_. ret (True, False))
        | Inr existing \<Rightarrow>
            if manifest_current existing version then ret (False, False)
            else bind_io (os_write_file p content) (\<lambda>_. ret (False, True)))))"

end
