(* ===== verification/Prune.thy ===== *)
theory Prune
  imports Templates
begin

section \<open>Package setup: pruning of templates (setup/primitives.go)\<close>

text \<open>
  The removal of template files that the selected profile does not have: flat directories by file name, subdirectories by
  name, and whole subtrees against sets of expected files and directories, given by their paths relative to the subtree.
  The recursion follows the listing that it was given: nothing else runs, so what a directory holds when it is entered is
  what the listing of its parent showed.
\<close>

subsection \<open>Flat directories and subdirectories\<close>

text \<open>The loops over the entries of a listing.\<close>

fun prune_files :: "path \<Rightarrow> string list \<Rightarrow> (string \<times> node) list \<Rightarrow> nat \<Rightarrow> nat io" where
  "prune_files d expected [] n = ret n"
| "prune_files d expected ((name, entry) # es) n =
     (if is_dir entry then prune_files d expected es n
      else if name \<notin> set expected then
        bind_io (ctx_io (''remove '' @ name) (os_remove (d @ [name]))) (\<lambda>_. prune_files d expected es (Suc n))
      else prune_files d expected es n)"

definition pruneStaleFiles :: "path \<Rightarrow> (string, string) gomap \<Rightarrow> nat io" where
  "pruneStaleFiles d expected =
     try_io (os_read_dir d) (\<lambda>r. case r of
         Inl e \<Rightarrow> if is_not_exist e then ret 0 else fail (Ctx (''read '' @ show_path d) e)
       | Inr entries \<Rightarrow> prune_files d (map fst expected) entries 0)"

fun prune_subdirs :: "path \<Rightarrow> string list \<Rightarrow> string list \<Rightarrow> (string \<times> node) list \<Rightarrow> nat \<Rightarrow> nat io" where
  "prune_subdirs d expected skip [] n = ret n"
| "prune_subdirs d expected skip ((name, entry) # es) n =
     (if \<not> is_dir entry then prune_subdirs d expected skip es n
      else if name \<in> set skip then prune_subdirs d expected skip es n
      else if name \<notin> set expected then
        bind_io (ctx_io (''remove '' @ name) (os_remove_all (d @ [name]))) (\<lambda>_. prune_subdirs d expected skip es (Suc n))
      else prune_subdirs d expected skip es n)"

definition pruneStaleSubdirs :: "path \<Rightarrow> (string, string) gomap \<Rightarrow> string list \<Rightarrow> nat io" where
  "pruneStaleSubdirs d expected skip =
     try_io (os_read_dir d) (\<lambda>r. case r of
         Inl e \<Rightarrow> if is_not_exist e then ret 0 else fail (Ctx (''read '' @ show_path d) e)
       | Inr entries \<Rightarrow> prune_subdirs d (map fst expected) skip entries 0)"

subsection \<open>Subtrees\<close>

definition shouldSkipEntry :: "node \<Rightarrow> path \<Rightarrow> string \<Rightarrow> string list \<Rightarrow> bool" where
  "shouldSkipEntry entry relDir name skipTopLevel \<longleftrightarrow> is_dir entry \<and> relDir = [] \<and> name \<in> set skipTopLevel"

text \<open>
  \<open>prune_entries\<close> is the loop of \<open>pruneManagedSubtree\<close> over the entries of the directory \<open>relDir\<close>, with \<open>pruneEntry\<close> and
  \<open>pruneDir\<close> for one entry. Paths relative to the root are lists of names.
\<close>

function prune_entries :: "path \<Rightarrow> path \<Rightarrow> path list \<Rightarrow> path list \<Rightarrow> string list \<Rightarrow> (string \<times> node) list \<Rightarrow> nat \<Rightarrow> nat io" where
  "prune_entries r relDir expectedFiles expectedDirs skipTopLevel [] pruned = ret pruned"
| "prune_entries r relDir expectedFiles expectedDirs skipTopLevel ((name, entry) # es) pruned =
     bind_io
       (if shouldSkipEntry entry relDir name skipTopLevel then ret 0
        else case entry of
          Dir sub \<Rightarrow>
            if relDir @ [name] \<notin> set expectedDirs then
              bind_io (ctx_io (''remove '' @ join ''/'' (relDir @ [name])) (os_remove_all (r @ relDir @ [name]))) (\<lambda>_. ret 1)
            else prune_entries r (relDir @ [name]) expectedFiles expectedDirs skipTopLevel (listing sub) 0
        | RegFile c \<Rightarrow>
            if relDir @ [name] \<notin> set expectedFiles then
              bind_io (ctx_io (''remove '' @ join ''/'' (relDir @ [name])) (os_remove (r @ relDir @ [name]))) (\<lambda>_. ret 1)
            else ret 0)
       (\<lambda>n. prune_entries r relDir expectedFiles expectedDirs skipTopLevel es (pruned + n))"
  by pat_completeness auto

text \<open>It ends since an entry is smaller than the listing it is in, and a listing is no larger than its directory.\<close>

lemma size_list_sum: "size_list f ys = sum_mset (image_mset f (mset ys)) + length ys"
  by (induction ys) auto

lemma size_delete: "size_list f (AList.delete k xs) \<le> size_list f xs"
  by (induction xs) auto

lemma size_clearjunk: "size_list f (AList.clearjunk es) \<le> size_list f es"
proof (induction es rule: AList.clearjunk.induct)
  case (2 kv ps)
  then show ?case using order_trans [OF "2" size_delete] by (cases kv) simp
qed simp

lemma size_listing: "size_list f (listing es) \<le> size_list f es"
  using size_clearjunk [of f es] by (simp add: listing_def size_list_sum)

termination prune_entries
proof (relation "measure (\<lambda>(r, d, ef, ed, sk, es, n). size_list (size_prod (\<lambda>_. 0) size) es)", goal_cases)
  case (2 r d ef ed sk name entry es n sub)
  then show ?case using size_listing [of "size_prod (\<lambda>_. 0) size" sub] by simp
qed auto

definition pruneManagedSubtree :: "path \<Rightarrow> path list \<Rightarrow> path list \<Rightarrow> string list \<Rightarrow> nat io" where
  "pruneManagedSubtree r expectedFiles expectedDirs skipTopLevel =
     try_io (os_read_dir r) (\<lambda>x. case x of
         Inl e \<Rightarrow> if is_not_exist e then ret 0 else fail (Ctx (''read '' @ show_path r) e)
       | Inr entries \<Rightarrow> prune_entries r [] expectedFiles expectedDirs skipTopLevel entries 0)"

subsection \<open>The expected sets\<close>

text \<open>The directories above a file: \<open>path.Dir\<close> until it is the root.\<close>

definition dirs_above :: "path \<Rightarrow> path list" where
  "dirs_above p = map (\<lambda>i. take i p) [1..<length p]"

definition reference_dirs :: "(string, string) gomap \<Rightarrow> path list" where
  "reference_dirs refs = concat (map (\<lambda>(rel, _). dirs_above (rel_path rel)) refs)"

definition reference_paths :: "(string, string) gomap \<Rightarrow> path list" where
  "reference_paths refs = map (\<lambda>(rel, _). rel_path rel) refs"

definition research_dir :: "path \<Rightarrow> path" where
  "research_dir repoRoot = repoRoot @ [''docs'', ''compound'', ''research'']"

definition pruneResearchInternals :: "templates \<Rightarrow> path \<Rightarrow> nat io" where
  "pruneResearchInternals tp researchDir =
     pruneManagedSubtree researchDir (reference_paths (ResearchDocs tp)) (reference_dirs (ResearchDocs tp)) []"

definition skill_expected_files :: "(string, string) gomap \<Rightarrow> (string, string) gomap \<Rightarrow> path list" where
  "skill_expected_files skills refs = map (\<lambda>(phase, _). [phase, ''SKILL.md'']) skills @ reference_paths refs"

definition skill_expected_dirs :: "(string, string) gomap \<Rightarrow> (string, string) gomap \<Rightarrow> path list" where
  "skill_expected_dirs skills refs = map (\<lambda>(phase, _). [phase]) skills @ reference_dirs refs"

definition prunePhaseSkillInternals :: "templates \<Rightarrow> path \<Rightarrow> nat io" where
  "prunePhaseSkillInternals tp skillsDir =
     pruneManagedSubtree skillsDir
       (skill_expected_files (PhaseSkills tp) (PhaseSkillReferences tp) @ [[''skills_index.json'']])
       (skill_expected_dirs (PhaseSkills tp) (PhaseSkillReferences tp)) [''agents'']"

definition pruneAgentRoleSkillInternals :: "templates \<Rightarrow> path \<Rightarrow> nat io" where
  "pruneAgentRoleSkillInternals tp rolesDir =
     pruneManagedSubtree rolesDir
       (skill_expected_files (AgentRoleSkills tp) (AgentRoleSkillReferences tp))
       (skill_expected_dirs (AgentRoleSkills tp) (AgentRoleSkillReferences tp)) []"

subsection \<open>Pruning for a profile\<close>

text \<open>\<open>n, err := step(); pruned += n\<close> over a list of steps.\<close>

fun prune_steps :: "nat io list \<Rightarrow> nat \<Rightarrow> nat io" where
  "prune_steps [] pruned = ret pruned"
| "prune_steps (step # steps) pruned = bind_io step (\<lambda>n. prune_steps steps (pruned + n))"

definition flat_dirs :: "templates \<Rightarrow> path \<Rightarrow> (path \<times> (string, string) gomap) list" where
  "flat_dirs tp repoRoot =
     [(repoRoot @ [''.claude'', ''agents'', ''compound''], AgentTemplates tp),
      (repoRoot @ [''.claude'', ''commands'', ''compound''], CommandTemplates tp),
      (repoRoot @ [''docs'', ''compound''], DocTemplates tp)]"

definition pruneFlatDirs :: "templates \<Rightarrow> path \<Rightarrow> nat io" where
  "pruneFlatDirs tp repoRoot =
     prune_steps (map (\<lambda>(d, expected). pruneStaleFiles d expected) (flat_dirs tp repoRoot)) 0"

definition roles_dir :: "path \<Rightarrow> path" where
  "roles_dir repoRoot = skills_dir repoRoot @ [''agents'']"

definition PruneStaleTemplates :: "templates \<Rightarrow> path \<Rightarrow> nat io" where
  "PruneStaleTemplates tp repoRoot =
     bind_io (pruneFlatDirs tp repoRoot) (\<lambda>pruned.
     prune_steps
       [pruneResearchInternals tp (research_dir repoRoot),
        pruneStaleSubdirs (skills_dir repoRoot) (PhaseSkills tp) [''agents''],
        prunePhaseSkillInternals tp (skills_dir repoRoot),
        pruneStaleSubdirs (roles_dir repoRoot) (AgentRoleSkills tp) [],
        pruneAgentRoleSkillInternals tp (roles_dir repoRoot)] pruned)"

definition templatesByProfile :: "InitProfile \<Rightarrow> InitProfile \<Rightarrow> (string, string) gomap \<Rightarrow> (string, string) gomap" where
  "templatesByProfile minProfile selected m = (if profileIncludes minProfile selected then m else [])"

definition pruneResearchForProfile :: "templates \<Rightarrow> path \<Rightarrow> InitProfile \<Rightarrow> nat io" where
  "pruneResearchForProfile tp researchDir profile =
     (if profile = ProfileFull then pruneResearchInternals tp researchDir
      else try_io (os_stat researchDir) (\<lambda>r. case r of
          Inl _ \<Rightarrow> ret 0
        | Inr n \<Rightarrow> if \<not> is_dir n then ret 0
            else bind_io (ctx_io (''remove '' @ show_path researchDir) (os_remove_all researchDir)) (\<lambda>_. ret 1)))"

definition prunePhaseSkillInternalsForProfile :: "templates \<Rightarrow> path \<Rightarrow> InitProfile \<Rightarrow> nat io" where
  "prunePhaseSkillInternalsForProfile tp skillsDir profile =
     (if \<not> profileIncludes ProfileWorkflow profile then
        pruneManagedSubtree skillsDir [[''skills_index.json'']] [] [''agents'']
      else prunePhaseSkillInternals tp skillsDir)"

definition pruneAgentRoleSkillInternalsForProfile :: "templates \<Rightarrow> path \<Rightarrow> InitProfile \<Rightarrow> nat io" where
  "pruneAgentRoleSkillInternalsForProfile tp rolesDir profile =
     (if \<not> profileIncludes ProfileWorkflow profile then pruneManagedSubtree rolesDir [] [] []
      else pruneAgentRoleSkillInternals tp rolesDir)"

definition pruneStepsForProfile :: "templates \<Rightarrow> path \<Rightarrow> InitProfile \<Rightarrow> nat io list" where
  "pruneStepsForProfile tp repoRoot profile =
     map (\<lambda>(d, expected). pruneStaleFiles d (templatesByProfile ProfileWorkflow profile expected)) (flat_dirs tp repoRoot) @
     [pruneResearchForProfile tp (research_dir repoRoot) profile,
      pruneStaleSubdirs (skills_dir repoRoot) (templatesByProfile ProfileWorkflow profile (PhaseSkills tp)) [''agents''],
      prunePhaseSkillInternalsForProfile tp (skills_dir repoRoot) profile,
      pruneStaleSubdirs (roles_dir repoRoot) (templatesByProfile ProfileWorkflow profile (AgentRoleSkills tp)) [],
      pruneAgentRoleSkillInternalsForProfile tp (roles_dir repoRoot) profile]"

definition PruneForProfile :: "templates \<Rightarrow> path \<Rightarrow> InitProfile \<Rightarrow> nat io" where
  "PruneForProfile tp repoRoot profile =
     (if profile = ProfileFull then PruneStaleTemplates tp repoRoot
      else prune_steps (pruneStepsForProfile tp repoRoot profile) 0)"

subsection \<open>What a downgrade would remove\<close>

fun has_any_file :: "node \<Rightarrow> bool" where
  "has_any_file (RegFile c) = True"
| "has_any_file (Dir es) = list_ex (\<lambda>e. has_any_file (snd e)) es"

definition dirHasAnyFile :: "node \<Rightarrow> path \<Rightarrow> bool" where
  "dirHasAnyFile t d = (case node_at t d of Some n \<Rightarrow> is_dir n \<and> has_any_file n | None \<Rightarrow> False)"

definition detectOutOfProfileTemplates :: "path \<Rightarrow> InitProfile \<Rightarrow> string list io" where
  "detectOutOfProfileTemplates repoRoot profile = (\<lambda>t. (Inr
     (if profile = ProfileFull then []
      else (if \<not> profileIncludes ProfileWorkflow profile then
              filter (\<lambda>rel. dirHasAnyFile t (repoRoot @ rel_path rel))
                [''.claude/agents/compound'', ''.claude/commands/compound'', ''.claude/skills/compound'', ''docs/compound'']
            else []) @
           (if \<not> profileIncludes ProfileFull profile \<and> dirHasAnyFile t (research_dir repoRoot)
            then [''docs/compound/research''] else [])), t))"

end
