(* ===== verification/Setup.thy ===== *)
theory Setup
  imports Prune
begin

section \<open>Package setup: init, harness targets and uninstall\<close>

text \<open>
  setup/init.go, setup/harness.go and setup/uninstall.go: the validation and dispatch of an installation, the managed blocks
  of .gitignore files, the migration of old artifacts, the harness targets, and the three tiers of uninstalling with the
  stripping of managed blocks. The notices that the migration prints to standard error are not kept.
\<close>

definition ArtifactRoot :: string where "ArtifactRoot = ''.compound-agent''"
definition ArtifactLogDir :: string where "ArtifactLogDir = ''agent_logs''"

definition ArtifactRootPath :: "path \<Rightarrow> path" where
  "ArtifactRootPath repoRoot = repoRoot @ [ArtifactRoot]"

definition ArtifactLogPath :: "path \<Rightarrow> path" where
  "ArtifactLogPath repoRoot = repoRoot @ [ArtifactRoot, ArtifactLogDir]"

text \<open>\<open>fmt.Sprintf("%q", s)\<close>; a multi-byte rune is kept as it is, as if it were printable.\<close>

definition quote_byte :: "char \<Rightarrow> string" where
  "quote_byte c =
     (if c = CHR 0x22 \<or> c = CHR 0x5C then [CHR 0x5C, c]
      else if c = CHR 0x07 then [CHR 0x5C, CHR ''a''] else if c = CHR 0x08 then [CHR 0x5C, CHR ''b'']
      else if c = CHR 0x0C then [CHR 0x5C, CHR ''f''] else if c = CHR 0x0A then [CHR 0x5C, CHR ''n'']
      else if c = CHR 0x0D then [CHR 0x5C, CHR ''r''] else if c = CHR 0x09 then [CHR 0x5C, CHR ''t'']
      else if c = CHR 0x0B then [CHR 0x5C, CHR ''v'']
      else if c < CHR 0x20 \<or> c \<ge> CHR 0x7F then [CHR 0x5C, CHR ''x''] @ hex_byte c else [c])"

function quote_body :: "string \<Rightarrow> string" where
  "quote_body s =
     (case s of [] \<Rightarrow> []
      | c # r \<Rightarrow> (let w = rune_width s in
          if w \<le> 1 then quote_byte c @ quote_body r else take w s @ quote_body (drop w s)))"
  by pat_completeness auto
termination
  by (relation "measure length") (auto intro!: diff_less)

declare quote_body.simps [simp del]

definition go_quote :: "string \<Rightarrow> string" where
  "go_quote s = [CHR 0x22] @ quote_body s @ [CHR 0x22]"

subsection \<open>Managed blocks of .gitignore\<close>

definition managed_marker :: string where
  "managed_marker = ''# compound-agent managed''"

definition root_block :: string where
  "root_block = managed_marker @ nl @ ArtifactRoot @ ''/'' @ nl"

text \<open>The content that \<open>updateRootGitignoreBlock\<close> writes; none if it writes nothing.\<close>

definition updateRootGitignoreBlock :: "string \<Rightarrow> string \<Rightarrow> string \<Rightarrow> string option" where
  "updateRootGitignoreBlock content marker newBlock =
     (case str_index content marker of None \<Rightarrow> None
      | Some idx \<Rightarrow>
          (let rest = drop idx content;
               endIdx = str_index rest (nl @ nl);
               existingBlock = (case endIdx of Some e \<Rightarrow> take (e + 1) rest | None \<Rightarrow> trim_cut_right nl rest @ nl)
           in if existingBlock = newBlock then None
              else Some (take idx content @ newBlock @ (case endIdx of Some e \<Rightarrow> drop (e + 1) rest | None \<Rightarrow> []))))"

definition EnsureRootGitignore :: "path \<Rightarrow> unit io" where
  "EnsureRootGitignore repoRoot =
     (let p = repoRoot @ [''.gitignore''] in
      try_io (os_read_file p) (\<lambda>r. case r of
          Inr content \<Rightarrow>
            if str_contains content managed_marker then
              (case updateRootGitignoreBlock content managed_marker root_block of
                 None \<Rightarrow> ret () | Some updated \<Rightarrow> os_write_file p updated)
            else os_write_file p (trim_cut_right nl content @ nl @ nl @ root_block)
        | Inl e \<Rightarrow>
            if \<not> is_not_exist e then fail (Ctx ''read root .gitignore'' e)
            else os_write_file p root_block))"

definition claude_block :: string where
  "claude_block = managed_marker @ nl @ ''.cache/'' @ nl @ ''*.sqlite'' @ nl @ ''*.sqlite-shm'' @ nl @ ''*.sqlite-wal'' @ nl @
     ''.ca-hints-shown'' @ nl @ ''skills/compound/skills_index.json'' @ nl"

definition EnsureGitignore :: "path \<Rightarrow> unit io" where
  "EnsureGitignore repoRoot =
     (let p = repoRoot @ [''.claude'', ''.gitignore''] in
      bind_io (os_mkdir_all (repoRoot @ [''.claude''])) (\<lambda>_.
      try_io (os_read_file p) (\<lambda>r. case r of
          Inr content \<Rightarrow>
            if str_contains content managed_marker then ret ()
            else os_write_file p (trim_cut_right nl content @ nl @ claude_block)
        | Inl e \<Rightarrow>
            if \<not> is_not_exist e then fail (Ctx ''read .gitignore'' e)
            else os_write_file p claude_block)))"

subsection \<open>Migration\<close>

definition legacy_items :: "(path \<times> path) list" where
  "legacy_items =
     [([''agent_logs''], [ArtifactLogDir]), ([''infinity-loop.sh''], [''infinity-loop.sh'']),
      ([''polish-loop.sh''], [''polish-loop.sh'']),
      ([''.claude'', ''.ca-phase-state.json''], [''.ca-phase-state.json'']),
      ([''.claude'', ''.ca-failure-state.json''], [''.ca-failure-state.json'']),
      ([''.claude'', ''.ca-read-state.json''], [''.ca-read-state.json''])]"

fun migrate_items :: "path \<Rightarrow> (path \<times> path) list \<Rightarrow> unit io" where
  "migrate_items repoRoot [] = ret ()"
| "migrate_items repoRoot ((legacy, dest) # xs) =
     (let legacyPath = repoRoot @ legacy; destPath = ArtifactRootPath repoRoot @ dest in
      try_io (os_stat legacyPath) (\<lambda>r.
        if (case r of Inl e \<Rightarrow> is_not_exist e | Inr _ \<Rightarrow> False) then migrate_items repoRoot xs
        else try_io (os_stat destPath) (\<lambda>r'. case r' of
            Inr _ \<Rightarrow> migrate_items repoRoot xs
          | Inl _ \<Rightarrow>
              bind_io (ctx_io (''create destination dir for '' @ join ''/'' legacy) (os_mkdir_all (butlast destPath))) (\<lambda>_.
              bind_io (ctx_io (''migrate '' @ join ''/'' legacy) (os_rename legacyPath destPath)) (\<lambda>_.
              migrate_items repoRoot xs)))))"

definition MigrateLegacyArtifacts :: "path \<Rightarrow> unit io" where
  "MigrateLegacyArtifacts repoRoot =
     bind_io (ctx_io ''create artifact root'' (os_mkdir_all (ArtifactRootPath repoRoot))) (\<lambda>_.
     migrate_items repoRoot legacy_items)"

subsection \<open>Harness targets\<close>

type_synonym HarnessTarget = string

definition HarnessClaude :: HarnessTarget where "HarnessClaude = ''claude''"
definition HarnessCodex :: HarnessTarget where "HarnessCodex = ''codex''"
definition HarnessGoose :: HarnessTarget where "HarnessGoose = ''goose''"
definition HarnessAgy :: HarnessTarget where "HarnessAgy = ''agy''"

lemmas harness_defs = HarnessClaude_def HarnessCodex_def HarnessGoose_def HarnessAgy_def

definition validHarnessTargets :: "HarnessTarget list" where
  "validHarnessTargets = [HarnessClaude, HarnessCodex, HarnessAgy, HarnessGoose]"

definition deprecatedHarnessAliases :: "(HarnessTarget, HarnessTarget) gomap" where
  "deprecatedHarnessAliases = [(''gemini'', HarnessAgy), (''antigravity'', HarnessAgy)]"

definition isValidHarness :: "HarnessTarget \<Rightarrow> bool" where
  "isValidHarness target = list_ex (\<lambda>v. v = target) validHarnessTargets"

definition harnessTargetList :: string where
  "harnessTargetList = join '', '' validHarnessTargets"

text \<open>The inner loop over the parts of one flag value; an unknown name ends it with the error's name.\<close>

fun parse_parts :: "string list \<Rightarrow> HarnessTarget list \<Rightarrow> string list \<Rightarrow> string + HarnessTarget list \<times> string list" where
  "parse_parts [] out warnings = Inr (out, warnings)"
| "parse_parts (part # parts) out warnings =
     (let name = trim_space part in
      if name = [] then parse_parts parts out warnings
      else
        (let target = to_lower name;
             add = (\<lambda>t. if t \<in> set out then out else out @ [t])
         in case map_of deprecatedHarnessAliases target of
              Some canonical \<Rightarrow> parse_parts parts (add canonical)
                (warnings @ [''--harness '' @ go_quote name @ '' is deprecated; using '' @ go_quote canonical @ '' instead''])
            | None \<Rightarrow> if \<not> isValidHarness target then Inl name else parse_parts parts (add target) warnings))"

fun parse_items :: "string list \<Rightarrow> HarnessTarget list \<Rightarrow> string list \<Rightarrow> string + HarnessTarget list \<times> string list" where
  "parse_items [] out warnings = Inr (out, warnings)"
| "parse_items (it # items) out warnings =
     (case parse_parts (split_on CHR '','' it) out warnings of
        Inl name \<Rightarrow> Inl name | Inr (out', warnings') \<Rightarrow> parse_items items out' warnings')"

definition ParseHarnessTargets :: "string list \<Rightarrow> string + HarnessTarget list \<times> string list" where
  "ParseHarnessTargets raw = parse_items raw [] []"

subsection \<open>The result of an installation\<close>

record InitResult =
  HooksInstalled :: bool
  HooksUpgraded :: bool
  DirsCreated :: "path list"
  FilesCreated :: "path list"
  AgentsCount :: "nat \<times> nat"
  CommandsCount :: "nat \<times> nat"
  SkillsCount :: "nat \<times> nat"
  RoleSkillsCount :: "nat \<times> nat"
  DocsCount :: "nat \<times> nat"
  ResearchCount :: "nat \<times> nat"
  TemplatesPruned :: nat
  AgentsMdUpdated :: bool
  ClaudeMdUpdated :: bool
  PluginCreated :: bool
  PluginUpdated :: bool
  ResTargets :: "HarnessTarget list"
  Warnings :: "string list"

definition result0 :: InitResult where
  "result0 = \<lparr>HooksInstalled = False, HooksUpgraded = False, DirsCreated = [], FilesCreated = [], AgentsCount = (0, 0),
     CommandsCount = (0, 0), SkillsCount = (0, 0), RoleSkillsCount = (0, 0), DocsCount = (0, 0), ResearchCount = (0, 0),
     TemplatesPruned = 0, AgentsMdUpdated = False, ClaudeMdUpdated = False, PluginCreated = False, PluginUpdated = False,
     ResTargets = [], Warnings = []\<rparr>"

record InitOptions =
  SkipHooks :: bool
  SkipTemplates :: bool
  BinaryPath :: string
  Profile :: InitProfile
  ConfirmPrune :: bool
  Targets :: "HarnessTarget list"

definition reconcileHarnessFile :: "path \<Rightarrow> string \<Rightarrow> InitResult \<Rightarrow> InitResult io" where
  "reconcileHarnessFile p content res =
     bind_io (reconcileFile p content) (\<lambda>(created, _).
     ret (if created then res\<lparr>FilesCreated := FilesCreated res @ [p]\<rparr> else res))"

definition substituteReviewModel :: "string \<Rightarrow> string \<Rightarrow> string \<Rightarrow> string" where
  "substituteReviewModel body provider model =
     replace_all ''{{REVIEW_MODEL}}'' model (replace_all ''{{REVIEW_PROVIDER}}'' provider body)"

fun reconcile_subs :: "path \<Rightarrow> (string \<times> string) list \<Rightarrow> InitResult \<Rightarrow> InitResult io" where
  "reconcile_subs d [] res = ret res"
| "reconcile_subs d ((name, body) # xs) res =
     bind_io (reconcileHarnessFile (d @ [name]) (substituteReviewModel body [] []) res) (reconcile_subs d xs)"

definition goose_warning :: string where
  "goose_warning = ''goose hooks wired to '' @ [CHR 0x27] @ ''npx ca'' @ [CHR 0x27] @ '' because no ca binary path was resolved; '' @
     ''the hooks require '' @ [CHR 0x27] @ ''ca'' @ [CHR 0x27] @
     '' to be on PATH at hook time. Re-run after installing the ca binary to pin the absolute path.''"

definition installGoose :: "templates \<Rightarrow> path \<Rightarrow> string \<Rightarrow> InitResult \<Rightarrow> InitResult io" where
  "installGoose tp repoRoot binaryPath res =
     (case tp_home tp of None \<Rightarrow> fail (Ctx ''resolve home dir'' (Msg ''no home''))
      | Some home \<Rightarrow>
          (let hooksDir = home @ [''.agents'', ''plugins'', ''compound'', ''hooks''];
               recipeDir = repoRoot @ [''.goose'', ''recipes''] in
           bind_io (ctx_io ''mkdir goose hooks dir'' (os_mkdir_all hooksDir)) (\<lambda>_.
             (let bin = (if binaryPath = [] then ''npx ca'' else ShellEscape binaryPath);
                  res1 = (if binaryPath = [] then res\<lparr>Warnings := Warnings res @ [goose_warning]\<rparr> else res) in
              bind_io (reconcileHarnessFile (hooksDir @ [''hooks.json'']) (replace_all ''{{BIN}}'' bin (tp_gooseHooks tp)) res1) (\<lambda>res2.
              bind_io (reconcileHarnessFile (repoRoot @ [''.goosehints'']) (tp_gooseHints tp) res2) (\<lambda>res3.
              bind_io (ctx_io ''mkdir goose recipes dir'' (os_mkdir_all recipeDir)) (\<lambda>_.
              bind_io (reconcileHarnessFile (recipeDir @ [''compound-cook-it.yaml'']) (tp_gooseRecipe tp) res3) (\<lambda>res4.
              bind_io (reconcileHarnessFile (recipeDir @ [''compound-review.yaml'']) (tp_gooseReview tp) res4) (\<lambda>res5.
              reconcile_subs recipeDir (tp_range tp (tp_gooseSub tp)) res5)))))))))"

definition installCodex :: "templates \<Rightarrow> path \<Rightarrow> InitResult \<Rightarrow> InitResult io" where
  "installCodex tp repoRoot res =
     bind_io (ctx_io ''update AGENTS.md'' (UpdateAgentsMd tp repoRoot)) (\<lambda>_.
     bind_io (ctx_io ''mkdir .codex'' (os_mkdir_all (repoRoot @ [''.codex'']))) (\<lambda>_.
     reconcileHarnessFile (repoRoot @ [''.codex'', ''config.toml''])
       (replace_all ''{{VERSION}}'' (tp_version tp) (tp_codex tp)) res))"

text \<open>The new content of an existing AGENTS.md.\<close>

definition agy_content :: "string \<Rightarrow> string \<Rightarrow> string" where
  "agy_content sect content =
     (case (str_index content AntigravityStartMarker, str_index content AntigravityEndMarker) of
        (Some start, Some e) \<Rightarrow>
          if start < e then take start content @ trim_space sect @ drop (e + length AntigravityEndMarker) content
          else trim_cut_right nl content @ nl @ nl @ sect
      | _ \<Rightarrow> trim_cut_right nl content @ nl @ nl @ sect)"

definition installAgy :: "templates \<Rightarrow> path \<Rightarrow> InitResult \<Rightarrow> InitResult io" where
  "installAgy tp repoRoot res =
     (let p = repoRoot @ [''AGENTS.md''] in
      try_io (os_read_file p) (\<lambda>r. case r of
          Inr content \<Rightarrow>
            (let updated = agy_content (tp_agy tp) content in
             if updated = content then ret res else bind_io (os_write_file p updated) (\<lambda>_. ret res))
        | Inl e \<Rightarrow>
            if \<not> is_not_exist e then fail (Ctx ''read AGENTS.md'' e)
            else bind_io (os_write_file p (tp_agy tp)) (\<lambda>_. ret (res\<lparr>FilesCreated := FilesCreated res @ [p]\<rparr>))))"

subsection \<open>Installing\<close>

fun init_dirs :: "path list \<Rightarrow> InitResult \<Rightarrow> InitResult io" where
  "init_dirs [] res = ret res"
| "init_dirs (d # ds) res =
     try_io (os_stat d) (\<lambda>r.
     bind_io (ctx_io (''create directory '' @ show_path d) (os_mkdir_all d)) (\<lambda>_.
     init_dirs ds (if (case r of Inl e \<Rightarrow> is_not_exist e | Inr _ \<Rightarrow> False)
                   then res\<lparr>DirsCreated := DirsCreated res @ [d]\<rparr> else res)))"

definition lessons_path :: "path \<Rightarrow> path" where
  "lessons_path repoRoot = repoRoot @ [''.claude'', ''lessons'', ''index.jsonl'']"

definition initDirectories :: "path \<Rightarrow> InitResult \<Rightarrow> InitResult io" where
  "initDirectories repoRoot res =
     bind_io (init_dirs
       [repoRoot @ [''.claude''], repoRoot @ [''.claude'', ''lessons''], repoRoot @ [''.claude'', ''.cache''],
        repoRoot @ [''.claude'', ''agents'', ''compound''], repoRoot @ [''.claude'', ''commands'', ''compound''],
        repoRoot @ [''.claude'', ''skills'', ''compound''], repoRoot @ [ArtifactRoot]] res) (\<lambda>res1.
     bind_io (try_io (os_stat (lessons_path repoRoot)) (\<lambda>r.
         if (case r of Inl e \<Rightarrow> is_not_exist e | Inr _ \<Rightarrow> False)
         then bind_io (ctx_io ''create index.jsonl'' (os_write_file (lessons_path repoRoot) []))
                (\<lambda>_. ret (res1\<lparr>FilesCreated := FilesCreated res1 @ [lessons_path repoRoot]\<rparr>))
         else ret res1)) (\<lambda>res2.
     bind_io (EnsureGitignore repoRoot) (\<lambda>_.
     bind_io (EnsureRootGitignore repoRoot) (\<lambda>_.
     bind_io (MigrateLegacyArtifacts repoRoot) (\<lambda>_. ret res2)))))"

fun first_parts :: "string list \<Rightarrow> bool \<Rightarrow> string" where
  "first_parts [] inner = []"
| "first_parts (s # ss) inner = (if inner then '', '' else []) @ s @ first_parts ss True"

definition firstN :: "string list \<Rightarrow> nat \<Rightarrow> string" where
  "firstN ss n = first_parts (truncate_to n ss) False"

text \<open>The groups of templates: the least profile, the name, the installer and where its counts go.\<close>

definition template_groups ::
  "templates \<Rightarrow> path \<Rightarrow> StackInfo \<Rightarrow> (InitProfile \<times> string \<times> (nat \<times> nat) io \<times> (nat \<times> nat \<Rightarrow> InitResult \<Rightarrow> InitResult)) list" where
  "template_groups tp repoRoot st =
     [(ProfileWorkflow, ''agent templates'', InstallAgentTemplates tp repoRoot, \<lambda>c r. r\<lparr>AgentsCount := c\<rparr>),
      (ProfileWorkflow, ''workflow commands'', InstallWorkflowCommands tp repoRoot, \<lambda>c r. r\<lparr>CommandsCount := c\<rparr>),
      (ProfileWorkflow, ''phase skills'', InstallPhaseSkills tp repoRoot st, \<lambda>c r. r\<lparr>SkillsCount := c\<rparr>),
      (ProfileWorkflow, ''agent role skills'', InstallAgentRoleSkills tp repoRoot, \<lambda>c r. r\<lparr>RoleSkillsCount := c\<rparr>),
      (ProfileWorkflow, ''doc templates'', InstallDocTemplates tp repoRoot st, \<lambda>c r. r\<lparr>DocsCount := c\<rparr>),
      (ProfileFull, ''research docs'', InstallResearchDocs tp repoRoot, \<lambda>c r. r\<lparr>ResearchCount := c\<rparr>)]"

fun run_groups ::
  "InitProfile \<Rightarrow> (InitProfile \<times> string \<times> (nat \<times> nat) io \<times> (nat \<times> nat \<Rightarrow> InitResult \<Rightarrow> InitResult)) list \<Rightarrow> InitResult \<Rightarrow> InitResult io" where
  "run_groups profile [] res = ret res"
| "run_groups profile ((minProf, name, f, setc) # gs) res =
     (if \<not> profileIncludes minProf profile then run_groups profile gs res
      else bind_io (ctx_io (''install '' @ name) f) (\<lambda>c. run_groups profile gs (setc c res)))"

definition installTemplateGroups :: "templates \<Rightarrow> path \<Rightarrow> StackInfo \<Rightarrow> InitProfile \<Rightarrow> InitResult \<Rightarrow> InitResult io" where
  "installTemplateGroups tp repoRoot st profile res =
     bind_io (run_groups profile (template_groups tp repoRoot st) res) (\<lambda>res1.
     bind_io (ctx_io ''prune stale templates'' (PruneForProfile tp repoRoot profile)) (\<lambda>pruned.
     (let res2 = res1\<lparr>TemplatesPruned := pruned\<rparr> in
      if profileIncludes ProfileWorkflow profile then
        bind_io (ctx_io ''compile skills index'' (CompileSkillsIndex tp repoRoot)) (\<lambda>_. ret res2)
      else ret res2)))"

definition prune_refusal :: "InitProfile \<Rightarrow> string list \<Rightarrow> string" where
  "prune_refusal profile stale =
     ''profile '' @ go_quote profile @ '' would prune '' @ show_int (int (length stale)) @ '' existing template path(s) (e.g. '' @
     firstN stale 3 @ ''); re-run with ConfirmPrune=true (CLI: --confirm-prune) to proceed''"

definition installTemplates :: "templates \<Rightarrow> path \<Rightarrow> InitProfile \<Rightarrow> bool \<Rightarrow> InitResult \<Rightarrow> InitResult io" where
  "installTemplates tp repoRoot profile confirmPrune res =
     bind_io (ctx_io ''update AGENTS.md'' (UpdateAgentsMd tp repoRoot)) (\<lambda>a.
     bind_io (ctx_io ''ensure CLAUDE.md reference'' (EnsureClaudeMdReference tp repoRoot)) (\<lambda>c.
     bind_io (ctx_io ''create plugin.json'' (CreatePluginManifest tp repoRoot (tp_version tp))) (\<lambda>(created, updated).
     (let res1 = res\<lparr>AgentsMdUpdated := a, ClaudeMdUpdated := c, PluginCreated := created, PluginUpdated := updated\<rparr> in
      bind_io (if confirmPrune then ret [] else detectOutOfProfileTemplates repoRoot profile) (\<lambda>stale.
      if stale \<noteq> [] then fail (Msg (prune_refusal profile stale))
      else bind_io (DetectStack repoRoot) (\<lambda>st. installTemplateGroups tp repoRoot st profile res1))))))"

definition installClaudeTarget :: "templates \<Rightarrow> path \<Rightarrow> InitOptions \<Rightarrow> InitResult \<Rightarrow> InitResult io" where
  "installClaudeTarget tp repoRoot opts res =
     bind_io (initDirectories repoRoot res) (\<lambda>res1.
     bind_io (if SkipHooks opts then ret res1
              else bind_io (initHooks (tp_float tp) repoRoot (BinaryPath opts) (Profile opts)) (\<lambda>upgraded.
                     ret (res1\<lparr>HooksInstalled := True, HooksUpgraded := upgraded\<rparr>))) (\<lambda>res2.
     if SkipTemplates opts then ret res2
     else installTemplates tp repoRoot (Profile opts) (ConfirmPrune opts) res2))"

fun installHarnessTargets :: "templates \<Rightarrow> path \<Rightarrow> string \<Rightarrow> HarnessTarget list \<Rightarrow> InitResult \<Rightarrow> InitResult io" where
  "installHarnessTargets tp repoRoot binaryPath [] res = ret res"
| "installHarnessTargets tp repoRoot binaryPath (target # ts) res =
     bind_io
       (if target = HarnessClaude then ret res
        else if target = HarnessGoose then installGoose tp repoRoot binaryPath res
        else if target = HarnessCodex then installCodex tp repoRoot res
        else if target = HarnessAgy then installAgy tp repoRoot res
        else fail (Msg (''unknown harness target '' @ go_quote target)))
       (installHarnessTargets tp repoRoot binaryPath ts)"

definition harnessListed :: "HarnessTarget list \<Rightarrow> HarnessTarget \<Rightarrow> bool" where
  "harnessListed targets target = list_ex (\<lambda>t. t = target) targets"

definition InitRepo :: "templates \<Rightarrow> path \<Rightarrow> InitOptions \<Rightarrow> InitResult io" where
  "InitRepo tp repoRoot opts0 =
     (case validateProfile (Profile opts0) of
        Some p \<Rightarrow> fail (Msg (''unknown profile '' @ go_quote p @ '': valid values are '' @ go_quote ProfileMinimal @ '', '' @
                     go_quote ProfileWorkflow @ '', '' @ go_quote ProfileFull))
      | None \<Rightarrow>
          (let opts = opts0\<lparr>Profile := resolveProfile (Profile opts0)\<rparr> in
           case find (\<lambda>t. \<not> isValidHarness t) (Targets opts) of
             Some target \<Rightarrow> fail (Msg (''unknown harness target '' @ go_quote target @ '' (valid: '' @ harnessTargetList @ '')''))
           | None \<Rightarrow>
               bind_io (if Targets opts = [] \<or> harnessListed (Targets opts) HarnessClaude
                        then installClaudeTarget tp repoRoot opts result0 else ret result0) (\<lambda>res.
               if Targets opts \<noteq> [] then
                 bind_io (installHarnessTargets tp repoRoot (BinaryPath opts) (Targets opts) res) (\<lambda>res1.
                 ret (res1\<lparr>ResTargets := Targets opts\<rparr>))
               else ret res)))"

subsection \<open>Stripping managed blocks\<close>

text \<open>
  The loop of \<open>removeBlockBetween\<close>: each round removes the first block, with one newline after it and one of two newlines
  before it. The markers are not empty, so every round shortens the text.
\<close>

definition block_suffix :: "string \<Rightarrow> nat \<Rightarrow> string" where
  "block_suffix s e = (let r = drop e s in if has_prefix r nl then drop 1 r else r)"

definition block_prefix :: "string \<Rightarrow> nat \<Rightarrow> string" where
  "block_prefix s i = (let p = take i s in if has_suffix p (nl @ nl) then butlast p else p)"

lemma str_index_le: "str_index s p = Some i \<Longrightarrow> p \<noteq> [] \<Longrightarrow> i + length p \<le> length s"
proof -
  assume "str_index s p = Some i" "p \<noteq> []"
  then have "length p \<le> length s - i" "0 < length p"
    using str_index_Some [of s p i] by (auto simp: has_prefix_iff dest!: arg_cong [of _ _ length])
  then show ?thesis by linarith
qed

function removeBlockBetween :: "string \<Rightarrow> string \<Rightarrow> string \<Rightarrow> string" where
  "removeBlockBetween s start e =
     (if start = [] then s
      else case str_index s start of None \<Rightarrow> s
        | Some i \<Rightarrow>
            (case str_index (drop (i + length start) s) e of
               None \<Rightarrow> trim_cut_right nl (take i s) @ nl
             | Some j \<Rightarrow> removeBlockBetween (block_prefix s i @ block_suffix s (i + length start + j + length e)) start e))"
  by pat_completeness auto

lemma block_removal_shorter:
  assumes "str_index s start = Some i" and "start \<noteq> []"
  shows "length (block_prefix s i @ block_suffix s (i + length start + k)) < length s"
proof -
  have "length (block_prefix s i) \<le> i" by (auto simp: block_prefix_def Let_def)
  moreover have "length (block_suffix s (i + length start + k)) \<le> length s - (i + length start)"
    by (auto simp: block_suffix_def Let_def intro!: diff_le_mono2)
  moreover have "i + length start \<le> length s" by (rule str_index_le [OF assms])
  moreover have "0 < length start" using assms(2) by simp
  ultimately show ?thesis unfolding length_append by linarith
qed

termination removeBlockBetween
proof (relation "measure (\<lambda>(s, start, e). length s)", goal_cases)
  case (2 s start e i j)
  then show ?case using block_removal_shorter [of s start i "j + length e"] by (simp add: add.assoc)
qed simp

declare removeBlockBetween.simps [simp del]

definition markerPairs :: "(string \<times> string) list" where
  "markerPairs =
     [(AgentsSectionStartMarker, AgentsSectionEndMarker), (ClaudeRefStartMarker, ClaudeRefEndMarker),
      (AntigravityStartMarker, AntigravityEndMarker)]"

text \<open>Where the line of position \<open>i\<close> starts.\<close>

definition line_start :: "string \<Rightarrow> nat \<Rightarrow> nat" where
  "line_start s i = i - length (takeWhile (\<lambda>c. c \<noteq> CHR 0x0A) (rev (take i s)))"

definition removeGitignoreBlock :: "string \<Rightarrow> string" where
  "removeGitignoreBlock s =
     (case str_index s managed_marker of None \<Rightarrow> s
      | Some idx \<Rightarrow>
          (let start = line_start s idx;
               rest = drop start s;
               end = (case str_index rest (nl @ nl) of Some b \<Rightarrow> start + b + 1 | None \<Rightarrow> length s);
               pre = trim_cut_right nl (take start s);
               suf = drop end s
           in if pre = [] then trim_cut nl suf
              else if suf = [] then pre @ nl
              else pre @ nl @ trim_cut nl suf))"

definition stripMarkers :: "string \<Rightarrow> string" where
  "stripMarkers s = removeGitignoreBlock (foldl (\<lambda>s (start, e). removeBlockBetween s start e) s markerPairs)"

definition containsAnyMarker :: "string \<Rightarrow> bool" where
  "containsAnyMarker s \<longleftrightarrow> list_ex (\<lambda>(start, e). str_contains s start) markerPairs \<or> str_contains s managed_marker"

definition markerFiles :: "string list" where
  "markerFiles = [''AGENTS.md'', ''.claude/CLAUDE.md'', ''.gitignore'', ''.claude/.gitignore'']"

fun strip_files :: "path \<Rightarrow> string list \<Rightarrow> string list \<Rightarrow> string list io" where
  "strip_files repoRoot [] stripped = ret stripped"
| "strip_files repoRoot (rel # rels) stripped =
     (let p = repoRoot @ rel_path rel in
      try_io (os_read_file p) (\<lambda>r. case r of
          Inl _ \<Rightarrow> strip_files repoRoot rels stripped
        | Inr before \<Rightarrow>
            (let after = stripMarkers before in
             if after = before then strip_files repoRoot rels stripped
             else if trim_space after = [] then
               try_io (os_remove p) (\<lambda>_. strip_files repoRoot rels (stripped @ [rel]))
             else bind_io (ctx_io (''write '' @ rel) (os_write_file p after)) (\<lambda>_. strip_files repoRoot rels (stripped @ [rel])))))"

definition stripAllMarkers :: "path \<Rightarrow> string list io" where
  "stripAllMarkers repoRoot = strip_files repoRoot markerFiles []"

subsection \<open>Uninstalling\<close>

datatype UninstallMode = UninstallHooksOnly | UninstallTemplates | UninstallAll

definition mode_rank :: "UninstallMode \<Rightarrow> nat" where
  "mode_rank m = (case m of UninstallHooksOnly \<Rightarrow> 0 | UninstallTemplates \<Rightarrow> 1 | UninstallAll \<Rightarrow> 2)"

record UninstallResult =
  HooksRemoved :: bool
  TemplatesRemoved :: "string list"
  RuntimeRemoved :: bool
  MarkersStripped :: "string list"
  EmptyResult :: bool

definition templateDirsToRemove :: "string list" where
  "templateDirsToRemove = [''.claude/agents/compound'', ''.claude/commands/compound'', ''.claude/skills/compound'', ''docs/compound'']"

fun remove_dirs :: "path \<Rightarrow> string list \<Rightarrow> string list \<Rightarrow> string list io" where
  "remove_dirs repoRoot [] removed = ret removed"
| "remove_dirs repoRoot (rel # rels) removed =
     try_io (os_stat (repoRoot @ rel_path rel)) (\<lambda>r. case r of
         Inl _ \<Rightarrow> remove_dirs repoRoot rels removed
       | Inr n \<Rightarrow> if \<not> is_dir n then remove_dirs repoRoot rels removed
           else bind_io (ctx_io (''remove '' @ rel) (os_remove_all (repoRoot @ rel_path rel))) (\<lambda>_.
                remove_dirs repoRoot rels (removed @ [rel])))"

definition removeTemplateDirs :: "path \<Rightarrow> string list io" where
  "removeTemplateDirs repoRoot = remove_dirs repoRoot templateDirsToRemove []"

definition removeIfPresent :: "path \<Rightarrow> bool io" where
  "removeIfPresent p = try_io (os_remove p) (\<lambda>r. case r of
      Inr _ \<Rightarrow> ret True | Inl e \<Rightarrow> if is_not_exist e then ret False else fail e)"

definition uninstallTemplates :: "path \<Rightarrow> string list io" where
  "uninstallTemplates repoRoot =
     bind_io (removeTemplateDirs repoRoot) (\<lambda>removed.
     bind_io (ctx_io ''remove .claude/plugin.json'' (removeIfPresent (repoRoot @ [''.claude'', ''plugin.json'']))) (\<lambda>existed.
     ret (if existed then removed @ [''.claude/plugin.json''] else removed)))"

definition uninstallRuntimeAndMarkers :: "path \<Rightarrow> (bool \<times> string list) io" where
  "uninstallRuntimeAndMarkers repoRoot =
     bind_io (try_io (os_stat (ArtifactRootPath repoRoot)) (\<lambda>r.
         if (case r of Inr n \<Rightarrow> is_dir n | Inl _ \<Rightarrow> False)
         then bind_io (ctx_io (''remove '' @ show_path (ArtifactRootPath repoRoot)) (os_remove_all (ArtifactRootPath repoRoot))) (\<lambda>_. ret True)
         else ret False)) (\<lambda>runtime.
     bind_io (stripAllMarkers repoRoot) (\<lambda>stripped. ret (runtime, stripped)))"

definition Uninstall :: "(string \<Rightarrow> string) \<Rightarrow> path \<Rightarrow> UninstallMode \<Rightarrow> UninstallResult io" where
  "Uninstall show_float repoRoot mode =
     bind_io (uninstallHooks show_float repoRoot) (\<lambda>hooks.
     bind_io (if mode_rank mode \<ge> mode_rank UninstallTemplates then uninstallTemplates repoRoot else ret []) (\<lambda>removed.
     bind_io (if mode_rank mode \<ge> mode_rank UninstallAll then uninstallRuntimeAndMarkers repoRoot else ret (False, [])) (\<lambda>(runtime, stripped).
     ret \<lparr>HooksRemoved = hooks, TemplatesRemoved = removed, RuntimeRemoved = runtime, MarkersStripped = stripped,
       EmptyResult = (\<not> hooks \<and> removed = [] \<and> \<not> runtime \<and> stripped = [])\<rparr>)))"

subsection \<open>The plan of an uninstall\<close>

definition planTemplates :: "path \<Rightarrow> string list io" where
  "planTemplates repoRoot = (\<lambda>t. (Inr
     (map (\<lambda>rel. rel @ ''/'') (filter (\<lambda>rel. node_at t (repoRoot @ rel_path rel) \<noteq> None) templateDirsToRemove) @
      (if node_at t (repoRoot @ [''.claude'', ''plugin.json'']) \<noteq> None then [''.claude/plugin.json''] else [])), t))"

definition planRuntimeAndMarkers :: "path \<Rightarrow> string list io" where
  "planRuntimeAndMarkers repoRoot = (\<lambda>t. (Inr
     ((if node_at t (ArtifactRootPath repoRoot) \<noteq> None then [ArtifactRoot @ ''/ (runtime state)''] else []) @
      map (\<lambda>f. f @ '' (compound-agent markers)'')
        (filter (\<lambda>f. case files t (repoRoot @ rel_path f) of None \<Rightarrow> False | Some c \<Rightarrow> containsAnyMarker c) markerFiles)), t))"

definition PlanUninstall :: "path \<Rightarrow> UninstallMode \<Rightarrow> string list io" where
  "PlanUninstall repoRoot mode =
     bind_io (planHooks repoRoot) (\<lambda>a.
     bind_io (if mode_rank mode \<ge> mode_rank UninstallTemplates then planTemplates repoRoot else ret []) (\<lambda>b.
     bind_io (if mode_rank mode \<ge> mode_rank UninstallAll then planRuntimeAndMarkers repoRoot else ret []) (\<lambda>c.
     ret (a @ b @ c))))"

end
