(* ===== verification/SettingsProps.thy ===== *)
theory SettingsProps
  imports Settings
begin

section \<open>What installing and removing hooks does\<close>

text \<open>
  The abstract view of a settings file is the list of hooks of each hook type, whatever entries group them. Installing is
  shown to keep the user's hooks in their order and to end with exactly one hook per spec of the profile; the checks that
  decide whether to install again are false afterwards; removing undoes installing. Two limits are shown too: a binary
  path with a single quote defeats the recognition of managed hooks, and removing drops a user's hook that shares an
  entry with a managed one.
\<close>

subsection \<open>The hooks of a type\<close>

definition arr_of :: "obj \<Rightarrow> string \<Rightarrow> json list" where
  "arr_of hooks ht = (case get_any hooks ht of JArr a \<Rightarrow> a | _ \<Rightarrow> [])"

definition flat :: "json list \<Rightarrow> json list" where
  "flat arr = concat (map (\<lambda>e. case entry_hooks e of None \<Rightarrow> [] | Some hs \<Rightarrow> hs) arr)"

definition hook_map :: "settings \<Rightarrow> obj" where
  "hook_map s = (case hooks_of s of None \<Rightarrow> [] | Some h \<Rightarrow> h)"

definition hooks_in :: "settings \<Rightarrow> string \<Rightarrow> json list" where
  "hooks_in s ht = flat (arr_of (hook_map s) ht)"

definition command_hook :: "string \<Rightarrow> json" where
  "command_hook c = JObj [(''type'', JStr ''command''), (''command'', JStr c)]"

lemma flat_simps [simp]:
  "flat [] = []" "flat (e # es) = (case entry_hooks e of None \<Rightarrow> [] | Some hs \<Rightarrow> hs) @ flat es"
  "flat (xs @ ys) = flat xs @ flat ys"
  by (simp_all add: flat_def)

lemma get_any_update [simp]: "get_any (AList.update k v m) k' = (if k' = k then v else get_any m k')"
  by (simp add: get_any_def)

lemma get_any_delete [simp]: "get_any (AList.delete k m) k' = (if k' = k then JNull else get_any m k')"
  by (simp add: get_any_def)

lemma as_arr_Some: "as_arr v = Some a \<longleftrightarrow> v = JArr a"
  by (cases v) (auto simp: as_arr_def)

lemma as_arr_simps [simp]: "as_arr (JArr a) = Some a" "as_arr JNull = None"
  by (simp_all add: as_arr_def)

lemma as_obj_simps [simp]: "as_obj (JObj m) = Some m"
  by (simp add: as_obj_def)

lemma entry_hooks_set [simp]: "entry_hooks e = Some hs \<Longrightarrow> entry_hooks (set_hooks hs' e) = Some hs'"
  by (cases e) (auto simp: entry_hooks_def set_hooks_def as_obj_def)

lemma entry_hooks_entry [simp]: "entry_hooks (hookEntry m c) = Some [command_hook c]"
  by (simp add: entry_hooks_def hookEntry_def command_hook_def get_any_def)

lemma command_of_hook [simp]: "as_obj (command_hook c) = Some [(''type'', JStr ''command''), (''command'', JStr c)]"
  "hook_command [(''type'', JStr ''command''), (''command'', JStr c)] = c"
  by (simp_all add: command_hook_def hook_command_def get_any_def as_string_def)

lemma hookHasMarker_command [simp]:
  "hookHasMarker (command_hook c) ms = list_ex (commandHasMarker c) ms"
  by (simp add: hookHasMarker_def)

lemma arr_of_update [simp]: "arr_of (AList.update k v m) k' = (if k' = k then (case v of JArr a \<Rightarrow> a | _ \<Rightarrow> []) else arr_of m k')"
  by (simp add: arr_of_def)

lemma arr_of_as_arr: "arr_of m k = (case as_arr (get_any m k) of None \<Rightarrow> [] | Some a \<Rightarrow> a)"
  by (simp add: arr_of_def as_arr_def split: json.splits)

lemma getHookArray_arr: "fst (getHookArray hooks k) = arr_of hooks k"
  by (simp add: getHookArray_def arr_of_def split: json.splits)

lemma getHookArray_map: "arr_of (snd (getHookArray hooks k)) k' = arr_of hooks k'"
  by (auto simp: getHookArray_def arr_of_def split: json.splits)

lemma in_arr_of: "e \<in> set (arr_of m k) \<longleftrightarrow> (\<exists>a. get_any m k = JArr a \<and> e \<in> set a)"
  by (cases "get_any m k") (auto simp: arr_of_def)

lemma in_flat: "h \<in> set (flat arr) \<longleftrightarrow> (\<exists>e \<in> set arr. \<exists>hs. entry_hooks e = Some hs \<and> h \<in> set hs)"
proof (induction arr)
  case (Cons e es)
  then show ?case by (cases "entry_hooks e") auto
qed simp

subsection \<open>Filtering\<close>

lemma hasHookMarker_flat: "hasHookMarker arr ms \<longleftrightarrow> (\<exists>h \<in> set (flat arr). hookHasMarker h ms)"
  by (induction arr) (auto simp: hasHookMarker_def list_ex_iff split: option.splits)

lemma filter_hooks_result:
  "filter_hooks ms hs n c = (kept, n', c') \<Longrightarrow>
     kept = filter (\<lambda>h. \<not> hookHasMarker h ms) hs \<and> n' = n + length (filter (\<lambda>h. hookHasMarker h ms) hs)"
proof (induction hs arbitrary: n c kept n' c')
  case (Cons h hs)
  show ?case
  proof (cases "hookHasMarker h ms")
    case True
    from Cons.prems have "filter_hooks ms hs (Suc n) (if c = [] then case as_obj h of None \<Rightarrow> [] | Some m \<Rightarrow> hook_command m else c)
        = (kept, n', c')" using True by simp
    from Cons.IH [OF this] True show ?thesis by simp
  next
    case False
    obtain k2 n2 c2 where 2: "filter_hooks ms hs n c = (k2, n2, c2)" by (metis prod_cases3)
    show ?thesis using Cons.IH [OF 2] Cons.prems False 2 by auto
  qed
qed simp

lemma filter_entries_result:
  "filter_entries ms es n c = (out, n', c') \<Longrightarrow>
     flat out = filter (\<lambda>h. \<not> hookHasMarker h ms) (flat es) \<and>
     n' = n + length (filter (\<lambda>h. hookHasMarker h ms) (flat es))"
proof (induction es arbitrary: n c out n' c')
  case (Cons e es)
  show ?case
  proof (cases "entry_hooks e")
    case None
    obtain o2 n2 c2 where 2: "filter_entries ms es n c = (o2, n2, c2)" by (metis prod_cases3)
    show ?thesis using Cons.IH [OF 2] Cons.prems None 2 by auto
  next
    case (Some hs)
    obtain k1 n1 c1 where 1: "filter_hooks ms hs n c = (k1, n1, c1)" by (metis prod_cases3)
    obtain o2 n2 c2 where 2: "filter_entries ms es n1 c1 = (o2, n2, c2)" by (metis prod_cases3)
    have k: "k1 = filter (\<lambda>h. \<not> hookHasMarker h ms) hs" "n1 = n + length (filter (\<lambda>h. hookHasMarker h ms) hs)"
      using filter_hooks_result [OF 1] by auto
    have "k1 = hs" if "n1 = n" using that k by (simp add: filter_empty_conv)
    then show ?thesis using Cons.IH [OF 2] Cons.prems Some 1 2 k by (auto split: if_splits)
  qed
qed simp

lemma filterHookEntries_flat:
  "flat (fst (filterHookEntries arr ms)) = filter (\<lambda>h. \<not> hookHasMarker h ms) (flat arr)"
  "fst (snd (filterHookEntries arr ms)) = length (filter (\<lambda>h. hookHasMarker h ms) (flat arr))"
  unfolding filterHookEntries_def
  by (metis filter_entries_result prod.collapse add_0)+

lemma filter_entries_id:
  "\<forall>h \<in> set (flat es). \<not> hookHasMarker h ms \<Longrightarrow> filter_entries ms es n c = (es, n, c)"
proof (induction es)
  case (Cons e es)
  have "filter_hooks ms hs n c = (hs, n, c)" if "\<forall>h \<in> set hs. \<not> hookHasMarker h ms" for hs
    using that by (induction hs) auto
  then show ?case using Cons by (auto split: option.splits)
qed simp

lemma filterHookEntries_id: "\<forall>h \<in> set (flat arr). \<not> hookHasMarker h ms \<Longrightarrow> filterHookEntries arr ms = (arr, 0, [])"
  by (simp add: filterHookEntries_def filter_entries_id)

subsection \<open>The steps of installing\<close>

lemma flat_upgrade: "flat (map (upgrade_entry e) arr) = map (upgrade_hook e) (flat arr)"
  by (induction arr) (auto simp: upgrade_entry_def split: option.splits)

lemma upgrade_type_arr:
  "arr_of (upgrade_type e hooks k) k' = (if k' = k then map (upgrade_entry e) (arr_of hooks k) else arr_of hooks k')"
proof -
  obtain arr hooks1 where g: "getHookArray hooks k = (arr, hooks1)" by force
  have "arr = arr_of hooks k" using getHookArray_arr [of hooks k] g by simp
  moreover have "arr_of hooks1 k' = arr_of hooks k'" using getHookArray_map [of hooks k k'] g by simp
  ultimately show ?thesis using g by (simp add: upgrade_type_def)
qed

lemma foldl_upgrade_arr:
  "distinct ks \<Longrightarrow> arr_of (foldl (upgrade_type e) hooks ks) k =
     (if k \<in> set ks then map (upgrade_entry e) (arr_of hooks k) else arr_of hooks k)"
  by (induction ks arbitrary: hooks) (auto simp: upgrade_type_arr)

lemma HookTypes_distinct: "distinct HookTypes"
  by (simp add: HookTypes_def)

lemma upgradeNpxHooks_flat:
  "bin \<noteq> [] \<Longrightarrow> k \<in> set HookTypes \<Longrightarrow>
     flat (arr_of (upgradeNpxHooks hooks bin) k) = map (upgrade_hook (ShellEscape bin)) (flat (arr_of hooks k))"
  by (simp add: upgradeNpxHooks_def foldl_upgrade_arr HookTypes_distinct flat_upgrade)

lemma foldl_remove_flat:
  "flat (arr_of (foldl (remove_spec profile) hooks sps) k) =
     filter (\<lambda>h. \<not> list_ex (\<lambda>sp. \<not> profileIncludes (sp_profile sp) profile \<and> sp_hookType sp = k \<and>
                  hookHasMarker h (sp_markers sp)) sps) (flat (arr_of hooks k))"
proof (induction sps arbitrary: hooks)
  case (Cons sp sps)
  have "flat (arr_of (remove_spec profile hooks sp) k) =
    filter (\<lambda>h. \<not> (\<not> profileIncludes (sp_profile sp) profile \<and> sp_hookType sp = k \<and> hookHasMarker h (sp_markers sp)))
      (flat (arr_of hooks k))"
    by (cases "sp_hookType sp = k") (auto simp: remove_spec_def arr_of_as_arr filterHookEntries_flat split: option.splits)
  then show ?case by (simp add: Cons.IH conj_commute)
qed simp

lemma install_spec_arr:
  assumes "bin \<noteq> []"
  shows "arr_of (install_spec bin hooks sp) k =
    (if k = sp_hookType sp then fst (filterHookEntries (arr_of hooks k) (sp_markers sp)) @
        [hookEntry (sp_matcher sp) (sp_build sp bin)] else arr_of hooks k)"
proof -
  obtain arr hooks1 where g: "getHookArray hooks (sp_hookType sp) = (arr, hooks1)" by force
  obtain f n c where f: "filterHookEntries arr (sp_markers sp) = (f, n, c)" by (metis prod_cases3)
  have a: "arr = arr_of hooks (sp_hookType sp)" using getHookArray_arr [of hooks "sp_hookType sp"] g by simp
  have "arr_of hooks1 k = arr_of hooks k" using getHookArray_map [of hooks "sp_hookType sp" k] g by simp
  then show ?thesis using assms g f a by (auto simp: install_spec_def)
qed

definition apart :: "string \<Rightarrow> managed_spec \<Rightarrow> managed_spec \<Rightarrow> bool" where
  "apart bin sp sp' \<longleftrightarrow>
     (sp_hookType sp = sp_hookType sp' \<longrightarrow> \<not> hookHasMarker (command_hook (sp_build sp bin)) (sp_markers sp'))"

lemma foldl_install_flat:
  assumes "bin \<noteq> []"
  shows "sorted_wrt (apart bin) (filter (\<lambda>sp. sp_hookType sp = k) sps) \<Longrightarrow>
   flat (arr_of (foldl (install_spec bin) hooks sps) k) =
     filter (\<lambda>h. \<not> list_ex (\<lambda>sp. sp_hookType sp = k \<and> hookHasMarker h (sp_markers sp)) sps) (flat (arr_of hooks k)) @
     map (\<lambda>sp. command_hook (sp_build sp bin)) (filter (\<lambda>sp. sp_hookType sp = k) sps)"
proof (induction sps arbitrary: hooks)
  case (Cons sp sps)
  show ?case
  proof (cases "sp_hookType sp = k")
    case True
    have "\<not> list_ex (\<lambda>sp'. sp_hookType sp' = k \<and> hookHasMarker (command_hook (sp_build sp bin)) (sp_markers sp')) sps"
      using Cons.prems True by (auto simp: list_ex_iff apart_def)
    then show ?thesis using Cons True assms
      by (simp add: install_spec_arr filterHookEntries_flat conj_commute del: hookHasMarker_command)
  next
    case False
    then show ?thesis using Cons assms by (simp add: install_spec_arr)
  qed
qed simp

lemma foldl_install_arr:
  assumes "bin \<noteq> []"
  shows "sorted_wrt (apart bin) sps \<Longrightarrow>
   \<forall>h \<in> set (flat (arr_of hooks k)). \<forall>sp \<in> set sps. sp_hookType sp = k \<longrightarrow> \<not> hookHasMarker h (sp_markers sp) \<Longrightarrow>
   arr_of (foldl (install_spec bin) hooks sps) k =
     arr_of hooks k @ map (\<lambda>sp. hookEntry (sp_matcher sp) (sp_build sp bin)) (filter (\<lambda>sp. sp_hookType sp = k) sps)"
proof (induction sps arbitrary: hooks)
  case (Cons sp sps)
  show ?case
  proof (cases "sp_hookType sp = k")
    case True
    have a: "arr_of (install_spec bin hooks sp) k = arr_of hooks k @ [hookEntry (sp_matcher sp) (sp_build sp bin)]"
      using Cons.prems(2) True by (simp add: install_spec_arr [OF assms] filterHookEntries_id)
    have "\<forall>h \<in> set (flat (arr_of (install_spec bin hooks sp) k)). \<forall>sp' \<in> set sps.
            sp_hookType sp' = k \<longrightarrow> \<not> hookHasMarker h (sp_markers sp')"
      using Cons.prems True unfolding a by (auto simp: apart_def)
    with Cons.IH [OF _ this] Cons.prems(1) a True show ?thesis by simp
  next
    case False
    then show ?thesis using Cons assms by (simp add: install_spec_arr)
  qed
qed simp

lemma dropEmpty_arr: "arr_of (dropEmptyHookArrays hooks) k = arr_of hooks k"
proof -
  have "arr_of (foldl (\<lambda>h ht. if as_arr (get_any h ht) = Some [] then AList.delete ht h else h) hooks ks) k =
      arr_of hooks k" for ks
    by (induction ks arbitrary: hooks) (auto simp: arr_of_as_arr)
  then show ?thesis by (simp add: dropEmptyHookArrays_def)
qed

subsection \<open>Recognising the commands\<close>

text \<open>A binary path that needs no escaping and that no marker occurs in.\<close>

definition plain_binary :: "string \<Rightarrow> bool" where
  "plain_binary bin \<longleftrightarrow>
     bin \<noteq> [] \<and> CHR 0x27 \<notin> set bin \<and> \<not> str_contains bin ''BIN '' \<and> \<not> str_contains bin ''hook-runner.js''"

lemma contains_trans: "str_contains s m \<Longrightarrow> str_contains m p \<Longrightarrow> str_contains s p"
  unfolding str_contains_iff by (metis append.assoc)

lemma contains_split:
  assumes "str_contains (u @ q # v) p" and "q \<notin> set p"
  shows "str_contains u p \<or> str_contains v p"
proof -
  obtain a b where e: "u @ q # v = a @ p @ b" using assms(1) by (auto simp: str_contains_iff)
  then consider w where "u = a @ w" "w @ q # v = p @ b" | w where "u @ w = a" "q # v = w @ p @ b"
    by (auto simp: append_eq_append_conv2)
  then show ?thesis
  proof cases
    case 1
    then consider z where "w = p @ z" "z @ q # v = b" | z where "w @ z = p" "q # v = z @ b"
      by (auto simp: append_eq_append_conv2)
    then show ?thesis
    proof cases
      case 1
      then show ?thesis using \<open>u = a @ w\<close> by (auto simp: str_contains_iff)
    next
      case 2
      then have "z = []" using assms(2) by (cases z) auto
      then show ?thesis using 2 \<open>u = a @ w\<close> by (auto simp: str_contains_iff) (metis append_Nil2)
    qed
  next
    case 2
    then show ?thesis
    proof (cases "w = [] \<and> p = []")
      case True
      then show ?thesis by (auto simp: str_contains_iff)
    next
      case False
      then have "\<exists>w'. v = w' @ p @ b"
        using 2(2) assms(2) by (cases w; cases p) auto
      then show ?thesis by (auto simp: str_contains_iff)
    qed
  qed
qed

lemma str_index_char: "c \<notin> set u \<Longrightarrow> str_index (u @ c # v) [c] = Some (length u)"
proof (induction u)
  case Nil
  show ?case by (subst str_index.simps) (simp add: has_prefix_def)
next
  case (Cons a u)
  then show ?case by (subst str_index.simps) (auto simp: has_prefix_def)
qed

lemma replace_char_none: "c \<notin> set s \<Longrightarrow> replace_char c new s = s"
  by (induction s) (auto simp: replace_char_def)

lemma ShellEscape_plain: "CHR 0x27 \<notin> set s \<Longrightarrow> ShellEscape s = CHR 0x27 # s @ [CHR 0x27]"
  by (simp add: ShellEscape_def replace_char_none)

lemma normalize_quoted:
  assumes "CHR 0x27 \<notin> set bin" and "plain_char z"
  shows "normalizeManagedCommand (ShellEscape bin @ rest @ [z]) = ''BIN'' @ rest @ [z]"
proof -
  let ?cmd = "CHR 0x27 # (bin @ CHR 0x27 # rest) @ [z]"
  have "plain_char CHR 0x27" by code_simp
  then have "trim_space ?cmd = ?cmd" using assms(2) by (rule trim_space_plain)
  moreover have "str_index (drop 1 ?cmd) [CHR 0x27] = Some (length bin)"
    using str_index_char [OF assms(1), of "rest @ [z]"] by simp
  ultimately show ?thesis
    by (simp add: normalizeManagedCommand_def ShellEscape_plain [OF assms(1)] has_prefix_def Let_def)
qed

definition marker_ok :: "string \<Rightarrow> bool" where
  "marker_ok m \<longleftrightarrow> CHR 0x27 \<notin> set m \<and> (str_contains m ''BIN '' \<or> str_contains m ''hook-runner.js'')"

lemma marker_quoted:
  assumes "plain_binary bin" and "marker_ok m" and "plain_char z"
  shows "commandHasMarker (ShellEscape bin @ rest @ [z]) m \<longleftrightarrow>
     str_contains (rest @ [z]) m \<or> has_prefix m ''BIN '' \<and> str_contains (''BIN'' @ rest @ [z]) m"
proof -
  have q: "CHR 0x27 \<notin> set bin" and b: "\<not> str_contains bin m" and m: "CHR 0x27 \<notin> set m"
    using assms(1,2) contains_trans [of bin m] unfolding plain_binary_def marker_ok_def by blast+
  have "\<not> str_contains [] ''BIN ''" "\<not> str_contains [] ''hook-runner.js''" by (simp_all add: str_contains_iff)
  then have m2: "m \<noteq> []" using assms(2) unfolding marker_ok_def by blast
  have "str_contains (ShellEscape bin @ rest @ [z]) m \<longleftrightarrow> str_contains (rest @ [z]) m"
  proof
    assume "str_contains (ShellEscape bin @ rest @ [z]) m"
    then have "str_contains ([] @ CHR 0x27 # (bin @ CHR 0x27 # rest @ [z])) m"
      by (simp add: ShellEscape_plain [OF q])
    then have "str_contains (bin @ CHR 0x27 # rest @ [z]) m"
      using contains_split [OF _ m(1), of "[]"] m2 by (auto simp: str_contains_iff [of "[]"])
    then show "str_contains (rest @ [z]) m" using contains_split [OF _ m(1)] b by blast
  next
    assume "str_contains (rest @ [z]) m"
    then show "str_contains (ShellEscape bin @ rest @ [z]) m"
      unfolding str_contains_iff by (metis append.assoc)
  qed
  then show ?thesis by (simp add: commandHasMarker_def normalize_quoted [OF q assms(3)])
qed

text \<open>What the recognition comes down to for a quoted path followed by \<open>w\<close>.\<close>

definition sees :: "string \<Rightarrow> string \<Rightarrow> bool" where
  "sees w m \<longleftrightarrow> str_contains w m \<or> has_prefix m ''BIN '' \<and> str_contains (''BIN'' @ w) m"

lemma command_sees:
  assumes "plain_binary bin" and "marker_ok m" and "w \<noteq> []" and "plain_char (last w)"
  shows "commandHasMarker (ShellEscape bin @ w) m \<longleftrightarrow> sees w m"
  using marker_quoted [OF assms(1,2,4), of "butlast w"] assms(3) by (simp add: sees_def)

definition hook_word :: "string \<Rightarrow> string" where
  "hook_word h = '' hooks run '' @ h @ '' 2>/dev/null || true''"

definition prime_word :: string where
  "prime_word = '' prime 2>/dev/null || true''"

lemma build_words:
  "bin \<noteq> [] \<Longrightarrow> makeHookCommand bin h = ShellEscape bin @ hook_word h"
  "bin \<noteq> [] \<Longrightarrow> makePrimeCommand bin = ShellEscape bin @ prime_word"
  by (simp_all add: makeHookCommand_def makePrimeCommand_def hook_word_def prime_word_def)

lemma markers_ok: "list_all marker_ok
   ([''BIN prime'', ''BIN hooks run user-prompt'', ''BIN hooks run post-tool-failure'', ''BIN hooks run post-tool-success'',
     ''BIN hooks run post-read'', ''BIN hooks run read-tracker'', ''BIN hooks run phase-guard'', ''BIN hooks run phase-audit'',
     ''BIN hooks run stop-audit''] @ map js_marker [''post-read''])"
  by code_simp

lemma words_end: "hook_word h \<noteq> []" "plain_char (last (hook_word h))" "prime_word \<noteq> []" "plain_char (last prime_word)"
proof -
  show "plain_char (last (hook_word h))" by (simp add: hook_word_def) code_simp
  show "plain_char (last prime_word)" by code_simp
qed (simp_all add: hook_word_def prime_word_def)

lemma sees_own:
  "sees prime_word ''BIN prime''"
  "sees (hook_word ''user-prompt'') ''BIN hooks run user-prompt''"
  "sees (hook_word ''post-tool-failure'') ''BIN hooks run post-tool-failure''"
  "sees (hook_word ''post-tool-success'') ''BIN hooks run post-tool-success''"
  "sees (hook_word ''post-read'') ''BIN hooks run post-read''"
  "sees (hook_word ''phase-guard'') ''BIN hooks run phase-guard''"
  "sees (hook_word ''phase-audit'') ''BIN hooks run phase-audit''"
  by code_simp+

lemma sees_not:
  "\<not> sees (hook_word ''post-tool-success'') ''BIN hooks run post-read''"
  "\<not> sees (hook_word ''post-tool-success'') ''BIN hooks run read-tracker''"
  "\<not> sees (hook_word ''post-tool-success'') (js_marker ''post-read'')"
  by code_simp+

lemma build_marked:
  assumes "plain_binary bin" and "sp \<in> set managedHookSpecs"
  shows "list_ex (commandHasMarker (sp_build sp bin)) (sp_markers sp)"
proof -
  note ok = markers_ok [simplified]
  have "bin \<noteq> []" using assms(1) by (simp add: plain_binary_def)
  with assms(2) show ?thesis
    unfolding managedHookSpecs_def
    by (auto simp: build_words command_sees [OF assms(1) _ words_end(1,2)] command_sees [OF assms(1) _ words_end(3,4)] ok sees_own)
qed

lemma specs_apart: "plain_binary bin \<Longrightarrow> sorted_wrt (apart bin) managedHookSpecs"
proof -
  assume p: "plain_binary bin"
  note ok = markers_ok [simplified]
  have "bin \<noteq> []" using p by (simp add: plain_binary_def)
  then show ?thesis
    by (simp add: managedHookSpecs_def apart_def build_words command_sees [OF p _ words_end(1,2)] ok sees_not)
qed

subsection \<open>Installing\<close>

definition managed :: "string \<Rightarrow> json \<Rightarrow> bool" where
  "managed ht h = list_ex (\<lambda>sp. sp_hookType sp = ht \<and> hookHasMarker h (sp_markers sp)) managedHookSpecs"

definition own_hooks :: "string \<Rightarrow> InitProfile \<Rightarrow> string \<Rightarrow> json list" where
  "own_hooks bin profile ht =
     map (\<lambda>sp. command_hook (sp_build sp bin)) (filter (\<lambda>sp. sp_hookType sp = ht) (hookSpecsForProfile profile))"

lemma hook_map_Some: "hook_map (Some m) = getHooksMap m"
  by (simp add: hook_map_def hooks_of_def getHooksMap_def as_obj_def split: json.splits)

lemma hook_map_AddHooks:
  "hook_map (AddHooksForProfile (Some m) bin profile) = dropEmptyHookArrays (installInProfileHooks
     (removeOutOfProfileHooks (upgradeNpxHooks (getHooksMap m) bin) profile) bin profile)"
  by (simp add: AddHooksForProfile_def Let_def hook_map_def hooks_of_def)

lemma split_managed:
  "\<not> managed ht h \<longleftrightarrow>
     \<not> list_ex (\<lambda>sp. \<not> profileIncludes (sp_profile sp) profile \<and> sp_hookType sp = ht \<and> hookHasMarker h (sp_markers sp)) managedHookSpecs \<and>
     \<not> list_ex (\<lambda>sp. sp_hookType sp = ht \<and> hookHasMarker h (sp_markers sp)) (hookSpecsForProfile profile)"
  by (auto simp: managed_def hookSpecsForProfile_def list_ex_iff)

lemma specs_of_profile: "set (hookSpecsForProfile profile) \<subseteq> set managedHookSpecs"
  by (auto simp: hookSpecsForProfile_def)

lemma specs_of_profile_apart: "plain_binary bin \<Longrightarrow> sorted_wrt (apart bin) (hookSpecsForProfile profile)"
  by (simp add: hookSpecsForProfile_def sorted_wrt_filter specs_apart)

lemma installed_hooks:
  assumes "plain_binary bin" and "ht \<in> set HookTypes"
  shows "hooks_in (AddHooksForProfile (Some m) bin profile) ht =
    filter (\<lambda>h. \<not> managed ht h) (map (upgrade_hook (ShellEscape bin)) (hooks_in (Some m) ht)) @ own_hooks bin profile ht"
proof -
  have b: "bin \<noteq> []" using assms(1) by (simp add: plain_binary_def)
  show ?thesis
    unfolding hooks_in_def hook_map_AddHooks hook_map_Some dropEmpty_arr installInProfileHooks_def removeOutOfProfileHooks_def
      foldl_install_flat [OF b sorted_wrt_filter [OF specs_of_profile_apart [OF assms(1)]]] foldl_remove_flat
      upgradeNpxHooks_flat [OF b assms(2)] filter_filter own_hooks_def
    by (simp add: split_managed [of ht _ profile] conj_commute)
qed

text \<open>What installing does. With a plain binary path, the hooks of every type are afterwards the user's own hooks in
  their order, with npx commands directed to the binary, followed by exactly one hook for each spec of the profile: no
  managed hook of an earlier installation or of another profile is left, and no user hook is lost.\<close>

theorem AddHooksForProfile_hooks:
  assumes "plain_binary bin" and "ht \<in> set HookTypes"
  shows "hooks_in (AddHooksForProfile (Some m) bin profile) ht =
    filter (\<lambda>h. \<not> managed ht h) (map (upgrade_hook (ShellEscape bin)) (hooks_in (Some m) ht)) @ own_hooks bin profile ht"
  using installed_hooks [OF assms, of m profile] by simp

lemma HookTypes_specs: "sp \<in> set managedHookSpecs \<Longrightarrow> sp_hookType sp \<in> set HookTypes"
  by (auto simp: managedHookSpecs_def HookTypes_def)

lemma hasHookMarker_type:
  "(case as_arr (get_any hooks ht) of None \<Rightarrow> False | Some arr \<Rightarrow> hasHookMarker arr ms) \<longleftrightarrow>
     (\<exists>h \<in> set (flat (arr_of hooks ht)). hookHasMarker h ms)"
  by (simp add: arr_of_as_arr hasHookMarker_flat split: option.splits)

lemma sees_not_success:
  "\<not> sees (hook_word ''post-read'') ''BIN hooks run post-tool-success''"
  "\<not> sees (hook_word ''post-read'') (js_marker ''post-tool-success'')"
  by code_simp+

lemma marker_ok_success: "marker_ok (js_marker ''post-tool-success'')"
  by code_simp

lemma hookSpecs_cases:
  "hookSpecsForProfile profile = (if profileIncludes ProfileWorkflow profile then managedHookSpecs else take 3 managedHookSpecs)"
proof -
  have "profileIncludes ProfileMinimal profile"
    by (simp add: profileIncludes_def rank_of_def profileRank_def profile_defs)
  then show ?thesis by (simp add: hookSpecsForProfile_def managedHookSpecs_def)
qed

lemma success_read_apart:
  assumes "plain_binary bin"
  shows "\<not> hookHasMarker (command_hook (sp_build (managedHookSpecs ! 4) bin)) (sp_markers (managedHookSpecs ! 5))"
    and "\<not> hookHasMarker (command_hook (sp_build (managedHookSpecs ! 5) bin)) (sp_markers (managedHookSpecs ! 4))"
proof -
  note ok = markers_ok [simplified] marker_ok_success
  have b: "bin \<noteq> []" using assms by (simp add: plain_binary_def)
  have e: "sp_build (managedHookSpecs ! 4) bin = makeHookCommand bin ''post-tool-success''"
    "sp_build (managedHookSpecs ! 5) bin = makeHookCommand bin ''post-read''"
    "sp_markers (managedHookSpecs ! 4) = [''BIN hooks run post-tool-success'', js_marker ''post-tool-success'']"
    "sp_markers (managedHookSpecs ! 5) = [''BIN hooks run post-read'', ''BIN hooks run read-tracker'', js_marker ''post-read'']"
    by (simp_all add: managedHookSpecs_def)
  show "\<not> hookHasMarker (command_hook (sp_build (managedHookSpecs ! 4) bin)) (sp_markers (managedHookSpecs ! 5))"
    unfolding e by (simp add: build_words [OF b] command_sees [OF assms _ words_end(1,2)] ok sees_not)
  show "\<not> hookHasMarker (command_hook (sp_build (managedHookSpecs ! 5) bin)) (sp_markers (managedHookSpecs ! 4))"
    unfolding e by (simp add: build_words [OF b] command_sees [OF assms _ words_end(1,2)] ok sees_not_success)
qed

lemma specs_of_type:
  assumes "sp \<in> set managedHookSpecs"
  shows "length (filter (\<lambda>sp'. sp_hookType sp' = sp_hookType sp) managedHookSpecs) \<le> 1 \<or>
    (sp = managedHookSpecs ! 4 \<or> sp = managedHookSpecs ! 5) \<and>
    filter (\<lambda>sp'. sp_hookType sp' = sp_hookType sp) managedHookSpecs = [managedHookSpecs ! 4, managedHookSpecs ! 5]"
proof -
  obtain a b c d e f g h where l: "managedHookSpecs = [a, b, c, d, e, f, g, h]"
    "sp_hookType a = ''SessionStart''" "sp_hookType b = ''PreCompact''" "sp_hookType c = ''UserPromptSubmit''"
    "sp_hookType d = ''PostToolUseFailure''" "sp_hookType e = ''PostToolUse''" "sp_hookType f = ''PostToolUse''"
    "sp_hookType g = ''PreToolUse''" "sp_hookType h = ''Stop''"
    by (rule that [OF managedHookSpecs_def]) simp_all
  have "sp = a \<or> sp = b \<or> sp = c \<or> sp = d \<or> sp = e \<or> sp = f \<or> sp = g \<or> sp = h"
    using assms by (simp add: l(1))
  then show ?thesis unfolding l(1) by (elim disjE) (simp_all add: l(2-))
qed

lemma length_filter_sub: "length (filter P (map f (filter Q (filter R xs)))) \<le> length (filter P (map f (filter Q xs)))"
  by (induction xs) auto

lemma own_hooks_once:
  assumes "plain_binary bin" and "sp \<in> set managedHookSpecs"
  shows "length (filter (\<lambda>h. hookHasMarker h (sp_markers sp)) (own_hooks bin profile (sp_hookType sp))) \<le> 1"
proof -
  let ?l = "filter (\<lambda>sp'. sp_hookType sp' = sp_hookType sp) managedHookSpecs"
  have "length (filter (\<lambda>h. hookHasMarker h (sp_markers sp)) (map (\<lambda>sp. command_hook (sp_build sp bin)) ?l)) \<le> 1"
    using specs_of_type [OF assms(2)]
  proof (elim disjE conjE)
    assume "length ?l \<le> 1"
    then show ?thesis by (metis (lifting) length_filter_le length_map order_trans)
  qed (use success_read_apart [OF assms(1)] in \<open>simp_all del: hookHasMarker_command\<close>)
  then show ?thesis
    unfolding own_hooks_def hookSpecsForProfile_def by (rule order_trans [OF length_filter_sub])
qed

lemma own_hook_in:
  assumes "sp \<in> set (hookSpecsForProfile profile)"
  shows "command_hook (sp_build sp bin) \<in> set (own_hooks bin profile (sp_hookType sp))"
  using assms by (auto simp: own_hooks_def)

lemma own_hooks_profile:
  assumes "plain_binary bin" and "sp \<in> set managedHookSpecs" and "\<not> profileIncludes (sp_profile sp) profile"
    and "h \<in> set (own_hooks bin profile (sp_hookType sp))"
  shows "\<not> hookHasMarker h (sp_markers sp)"
proof -
  have "profileIncludes ProfileMinimal profile"
    by (simp add: profileIncludes_def rank_of_def profileRank_def profile_defs)
  with assms(3) have "\<not> profileIncludes ProfileWorkflow profile"
    using assms(2) by (auto simp: managedHookSpecs_def)
  then have "own_hooks bin profile (sp_hookType sp) = []"
    using assms(2,3) \<open>profileIncludes ProfileMinimal profile\<close>
    by (auto simp: own_hooks_def hookSpecs_cases managedHookSpecs_def)
  with assms(4) show ?thesis by simp
qed

lemma managed_marker: "sp \<in> set managedHookSpecs \<Longrightarrow> hookHasMarker h (sp_markers sp) \<Longrightarrow> managed (sp_hookType sp) h"
  by (auto simp: managed_def list_ex_iff)

text \<open>Installing settles. After it, with a plain binary path, every hook of the profile is found, no managed hook is
  duplicated and none of another profile is left, so of the four conditions under which setup writes the file again only
  the npx check can hold, and it looks at the user's own commands alone.\<close>

theorem AddHooksForProfile_settles:
  assumes "plain_binary bin"
  shows "HasAllHooksForProfile (AddHooksForProfile (Some m) bin profile) profile \<and>
    \<not> HooksNeedDedupe (AddHooksForProfile (Some m) bin profile) \<and>
    \<not> hooksHaveOutOfProfileEntries (AddHooksForProfile (Some m) bin profile) profile"
proof -
  define s where "s = AddHooksForProfile (Some m) bin profile"
  obtain hooks where h: "hooks_of s = Some hooks"
    by (simp add: s_def AddHooksForProfile_def Let_def hooks_of_def)
  have v: "flat (arr_of hooks ht) = filter (\<lambda>h. \<not> managed ht h)
      (map (upgrade_hook (ShellEscape bin)) (hooks_in (Some m) ht)) @ own_hooks bin profile ht" if "ht \<in> set HookTypes" for ht
    using installed_hooks [OF assms that, of m profile] h
    by (simp add: s_def [symmetric] hooks_in_def hook_map_def)
  have none: "filter (\<lambda>h. hookHasMarker h (sp_markers sp)) (filter (\<lambda>h. \<not> managed (sp_hookType sp) h) xs) = []"
    if "sp \<in> set managedHookSpecs" for sp xs
    using managed_marker [OF that] by (auto simp: filter_empty_conv)
  have "HasAllHooksForProfile s profile"
    unfolding HasAllHooksForProfile_def h list_all_iff option.case hasHookMarker_type
  proof
    fix sp assume sp: "sp \<in> set (hookSpecsForProfile profile)"
    then have m: "sp \<in> set managedHookSpecs" using specs_of_profile by auto
    show "\<exists>h \<in> set (flat (arr_of hooks (sp_hookType sp))). hookHasMarker h (sp_markers sp)"
      unfolding v [OF HookTypes_specs [OF m]]
      using own_hook_in [OF sp, of bin] build_marked [OF assms m]
      by (intro bexI [of _ "command_hook (sp_build sp bin)"]) auto
  qed
  moreover have "\<not> HooksNeedDedupe s"
  proof -
    have "length (filter (\<lambda>h. hookHasMarker h (sp_markers sp)) (flat (arr_of hooks (sp_hookType sp)))) \<le> 1"
      if m: "sp \<in> set managedHookSpecs" for sp
      unfolding v [OF HookTypes_specs [OF m]] filter_append none [OF m] using own_hooks_once [OF assms m] by simp
    then have "\<not> 1 < fst (snd (filterHookEntries arr (sp_markers sp)))"
      if "sp \<in> set managedHookSpecs" "as_arr (get_any hooks (sp_hookType sp)) = Some arr" for sp arr
      using that unfolding filterHookEntries_flat not_less by (simp add: arr_of_as_arr) (metis (no_types, lifting) option.simps(5))
    then show ?thesis
      unfolding HooksNeedDedupe_def h list_ex_iff option.case by (auto split: option.splits)
  qed
  moreover have "\<not> hooksHaveOutOfProfileEntries s profile"
    unfolding hooksHaveOutOfProfileEntries_def h list_ex_iff option.case hasHookMarker_type
  proof (rule notI, elim bexE conjE)
    fix sp h assume sp: "sp \<in> set managedHookSpecs" "\<not> profileIncludes (sp_profile sp) profile"
      and h: "h \<in> set (flat (arr_of hooks (sp_hookType sp)))" "hookHasMarker h (sp_markers sp)"
    from h(1) have "h \<in> set (own_hooks bin profile (sp_hookType sp))"
      unfolding v [OF HookTypes_specs [OF sp(1)]] using managed_marker [OF sp(1) h(2)] by auto
    with own_hooks_profile [OF assms sp] h(2) show False by blast
  qed
  ultimately show ?thesis unfolding s_def by blast
qed

subsection \<open>Removing\<close>

lemma marker_HookMarkers:
  assumes "sp \<in> set managedHookSpecs" and "hookHasMarker h (sp_markers sp)"
  shows "hookHasMarker h HookMarkers"
proof -
  obtain m where m: "m \<in> set (sp_markers sp)" and h: "hookHasMarker h [m]"
    using assms(2) by (auto simp: hookHasMarker_def list_ex_iff split: option.splits)
  have js: "hookHasMarker h HookMarkers" if "hookHasMarker h [js_marker x]" for x
  proof -
    have "str_contains (js_marker x) ''hook-runner.js''"
      unfolding js_marker_def str_contains_iff by (intro exI [of _ "[]"] exI [of _ "[CHR 0x22] @ '' '' @ x"]) simp
    moreover have "\<not> has_prefix (js_marker x) ''BIN ''" by (simp add: js_marker_def has_prefix_def)
    ultimately have "hookHasMarker h [''hook-runner.js'']"
      using that contains_trans by (auto simp: hookHasMarker_def commandHasMarker_def split: option.splits if_splits)
    then show ?thesis by (auto simp: hookHasMarker_def HookMarkers_def split: option.splits)
  qed
  have "m \<in> set HookMarkers \<or> (\<exists>x. m = js_marker x)"
    using assms(1) m unfolding managedHookSpecs_def HookMarkers_def by auto
  then show ?thesis using h js by (auto simp: hookHasMarker_def list_ex_iff split: option.splits)
qed

lemma isCompound_hooks:
  "isCompoundHookEntry e \<longleftrightarrow> (\<exists>hs. entry_hooks e = Some hs \<and> (\<exists>h \<in> set hs. hookHasMarker h HookMarkers))"
  by (auto simp: isCompoundHookEntry_def hookHasMarker_def list_ex_iff split: option.splits)

lemma not_compound_unmarked:
  assumes "\<forall>e \<in> set arr. \<not> isCompoundHookEntry e" and "sp \<in> set managedHookSpecs"
  shows "\<forall>h \<in> set (flat arr). \<not> hookHasMarker h (sp_markers sp)"
  using assms(1) marker_HookMarkers [OF assms(2)] by (auto simp: isCompound_hooks in_flat) blast

lemma own_entry_compound:
  assumes "plain_binary bin" and "sp \<in> set managedHookSpecs"
  shows "isCompoundHookEntry (hookEntry (sp_matcher sp) (sp_build sp bin))"
  using marker_HookMarkers [OF assms(2), of "command_hook (sp_build sp bin)"] build_marked [OF assms]
  by (simp add: isCompound_hooks)

lemma remove_types_arr:
  "distinct ks \<Longrightarrow> arr_of (fst (foldl remove_type st ks)) k =
     (if k \<in> set ks then filter (\<lambda>e. \<not> isCompoundHookEntry e) (arr_of (fst st) k) else arr_of (fst st) k)"
proof (induction ks arbitrary: st)
  case (Cons x ks)
  have "arr_of (fst (remove_type st x)) k =
      (if k = x then filter (\<lambda>e. \<not> isCompoundHookEntry e) (arr_of (fst st) k) else arr_of (fst st) k)"
    by (auto simp: remove_type_def removeHookEntries_def Let_def arr_of_as_arr split: option.splits)
  then show ?case using Cons by auto
qed simp

lemma remove_types_flag_mono: "snd st \<Longrightarrow> snd (foldl remove_type st ks)"
proof (induction ks arbitrary: st)
  case (Cons x ks)
  have "snd (remove_type st x)" using Cons.prems by (auto simp: remove_type_def removeHookEntries_def split: option.splits prod.splits)
  then show ?case using Cons.IH by simp
qed simp

lemma remove_types_flag:
  assumes "distinct ks" and "k \<in> set ks" and "e \<in> set (arr_of (fst st) k)" and "isCompoundHookEntry e"
  shows "snd (foldl remove_type st ks)"
  using assms(1-3)
proof (induction ks arbitrary: st)
  case (Cons x ks)
  show ?case
  proof (cases "k = x")
    case True
    obtain arr where a: "as_arr (get_any (fst st) x) = Some arr" "e \<in> set arr"
      using Cons.prems(3) True by (auto simp: in_arr_of as_arr_Some)
    have "length (filter (\<lambda>e. \<not> isCompoundHookEntry e) arr) < length arr"
      using a(2) assms(4) by (intro length_filter_less) auto
    then have "snd (remove_type st x)" using a by (simp add: remove_type_def removeHookEntries_def)
    then show ?thesis using remove_types_flag_mono by simp
  next
    case False
    have "arr_of (fst (remove_type st x)) k = arr_of (fst st) k"
      using remove_types_arr [of "[x]" st k] False by simp
    then show ?thesis using Cons False by simp
  qed
qed simp

lemma update_same: "map_of m k = Some v \<Longrightarrow> AList.update k v m = m"
  by (induction m) (auto split: if_splits)

lemma upgrade_entry_none:
  assumes "\<not> hookArrayHasNpx arr"
  shows "map (upgrade_entry e) arr = arr"
proof (rule map_idI)
  fix x assume x: "x \<in> set arr"
  show "upgrade_entry e x = x"
  proof (cases "entry_hooks x")
    case (Some hs)
    have "map (upgrade_hook e) hs = hs"
    proof (rule map_idI)
      fix h assume "h \<in> set hs"
      then show "upgrade_hook e h = h"
        using assms x Some by (auto simp: hookArrayHasNpx_def list_ex_iff upgrade_hook_def as_obj_def split: json.splits)
    qed
    moreover have "set_hooks hs x = x"
    proof (cases x)
      case (JObj m)
      then have "map_of m ''hooks'' = Some (JArr hs)"
        using Some by (auto simp: entry_hooks_def as_obj_def as_arr_Some get_any_def Option.bind_eq_Some_conv split: option.splits)
      then show ?thesis using JObj by (simp add: set_hooks_def update_same)
    qed (use Some in \<open>simp_all add: set_hooks_def\<close>)
    ultimately show ?thesis using Some by (simp add: upgrade_entry_def)
  qed (simp add: upgrade_entry_def)
qed

lemma hooks_of_map: "(case hooks_of s of None \<Rightarrow> False | Some hooks \<Rightarrow> P hooks) \<Longrightarrow> P (hook_map s)"
  by (auto simp: hook_map_def split: option.splits)

lemma upgrade_none:
  assumes "\<not> HooksNeedUpgrade s bin" and "bin \<noteq> []" and "ht \<in> set HookTypes"
  shows "map (upgrade_entry e) (arr_of (hook_map s) ht) = arr_of (hook_map s) ht"
proof (cases "hooks_of s")
  case (Some hooks)
  then have "\<not> hookArrayHasNpx (arr_of hooks ht)"
    using assms by (cases "as_arr (get_any hooks ht)")
      (auto simp: HooksNeedUpgrade_def list_ex_iff arr_of_as_arr, auto simp: hookArrayHasNpx_def)
  then show ?thesis using Some by (simp add: hook_map_def upgrade_entry_none)
qed (simp add: hook_map_def arr_of_def get_any_def)

text \<open>What is under other keys is not touched.\<close>

lemma foldl_frame:
  assumes "\<And>x h. x \<in> set xs \<Longrightarrow> get_any (f h x) k = get_any h k"
  shows "get_any (foldl f h xs) k = get_any h k"
  using assms by (induction xs arbitrary: h) auto

lemma AddHooks_frame:
  assumes "k \<notin> set HookTypes"
  shows "get_any (hook_map (AddHooksForProfile (Some m) bin profile)) k = get_any (getHooksMap m) k"
proof -
  have t: "sp_hookType sp \<noteq> k" if "sp \<in> set managedHookSpecs" for sp
    using HookTypes_specs [OF that] assms by auto
  have g: "get_any (snd (getHookArray h x)) k = get_any h k" if "x \<noteq> k" for h x
    using that by (auto simp: getHookArray_def split: json.splits)
  have up: "get_any (upgradeNpxHooks h bin) k = get_any h k" for h
  proof -
    have "get_any (upgrade_type e h x) k = get_any h k" if "x \<in> set HookTypes" for e h x
    proof -
      have "x \<noteq> k" using that assms by auto
      then show ?thesis using g by (simp add: upgrade_type_def case_prod_beta Let_def)
    qed
    then show ?thesis unfolding upgradeNpxHooks_def by (simp add: foldl_frame)
  qed
  have rem: "get_any (removeOutOfProfileHooks h profile) k = get_any h k" for h
    unfolding removeOutOfProfileHooks_def
  proof (rule foldl_frame)
    fix sp h assume "sp \<in> set managedHookSpecs"
    then show "get_any (remove_spec profile h sp) k = get_any h k"
      using t [of sp] by (auto simp: remove_spec_def split: option.splits)
  qed
  have inst: "get_any (installInProfileHooks h bin profile) k = get_any h k" for h
    unfolding installInProfileHooks_def
  proof (rule foldl_frame)
    fix sp h assume "sp \<in> set (hookSpecsForProfile profile)"
    then have "sp_hookType sp \<noteq> k" using t specs_of_profile by auto
    then show "get_any (install_spec bin h sp) k = get_any h k"
      using g by (simp add: install_spec_def case_prod_beta Let_def)
  qed
  have drp: "get_any (dropEmptyHookArrays h) k = get_any h k" for h
    unfolding dropEmptyHookArrays_def by (rule foldl_frame) (use assms in auto)
  show ?thesis by (simp add: hook_map_AddHooks drp inst rem up)
qed

lemma RemoveAllHooks_Some:
  assumes "get_any m ''hooks'' = JObj hooks"
  shows "RemoveAllHooks (Some m) =
    (Some (AList.update ''hooks'' (JObj (dropEmptyHookArrays (fst (foldl remove_type (hooks, False) HookTypes)))) m),
     snd (foldl remove_type (hooks, False) HookTypes))"
  using assms by (simp add: RemoveAllHooks_def case_prod_beta Let_def)

lemma Remove_frame:
  assumes "k \<notin> set HookTypes"
  shows "get_any (dropEmptyHookArrays (fst (foldl remove_type st HookTypes))) k = get_any (fst st) k"
proof -
  have "get_any (fst (foldl remove_type st ks)) k = get_any (fst st) k" if "k \<notin> set ks" for ks
    using that
  proof (induction ks arbitrary: st)
    case (Cons x ks)
    then have "get_any (fst (remove_type st x)) k = get_any (fst st) k"
      by (auto simp: remove_type_def removeHookEntries_def Let_def split: option.splits)
    then show ?case using Cons by simp
  qed simp
  moreover have "get_any (dropEmptyHookArrays h) k = get_any h k" for h
    unfolding dropEmptyHookArrays_def by (rule foldl_frame) (use assms in auto)
  ultimately show ?thesis using assms by simp
qed

lemma AddHooks_arr:
  assumes "plain_binary bin" and "ht \<in> set HookTypes" and "\<not> HooksNeedUpgrade (Some m) bin"
    and "\<forall>e \<in> set (arr_of (getHooksMap m) ht). \<not> isCompoundHookEntry e"
  shows "arr_of (hook_map (AddHooksForProfile (Some m) bin profile)) ht = arr_of (getHooksMap m) ht @
    map (\<lambda>sp. hookEntry (sp_matcher sp) (sp_build sp bin)) (filter (\<lambda>sp. sp_hookType sp = ht) (hookSpecsForProfile profile))"
proof -
  have b: "bin \<noteq> []" using assms(1) by (simp add: plain_binary_def)
  have u: "arr_of (upgradeNpxHooks (getHooksMap m) bin) ht = arr_of (getHooksMap m) ht"
    using upgrade_none [OF assms(3) b assms(2)] assms(2)
    by (simp add: upgradeNpxHooks_def b foldl_upgrade_arr HookTypes_distinct hook_map_Some)
  have n: "\<forall>h \<in> set (flat (arr_of (getHooksMap m) ht)). \<not> hookHasMarker h (sp_markers sp)" if "sp \<in> set managedHookSpecs" for sp
    using not_compound_unmarked [OF assms(4) that] .
  have r: "arr_of (foldl (remove_spec profile) h sps) ht = arr_of h ht"
    if "arr_of h ht = arr_of (getHooksMap m) ht" "set sps \<subseteq> set managedHookSpecs" for h sps
    using that
  proof (induction sps arbitrary: h)
    case (Cons sp sps)
    have "filterHookEntries (arr_of h ht) (sp_markers sp) = (arr_of h ht, 0, [])"
      using n [of sp] Cons.prems by (intro filterHookEntries_id) simp
    then have "arr_of (remove_spec profile h sp) ht = arr_of h ht"
      by (auto simp: remove_spec_def arr_of_as_arr split: option.splits)
    with Cons show ?case by simp
  qed simp
  show ?thesis
    unfolding hook_map_AddHooks dropEmpty_arr installInProfileHooks_def removeOutOfProfileHooks_def
    using n specs_of_profile by (subst foldl_install_arr [OF b specs_of_profile_apart [OF assms(1)]]) (auto simp: r u)
qed

text \<open>C36: Uninstalling undoes installing. If the settings hold no managed entry and no npx command, then after installing
  with a plain binary path, removing reports that it removed something and gives back the user's entries of every hook
  type, entry by entry, with every other key of the hooks and of the settings as it was.\<close>

theorem RemoveAllHooks_undoes:
  assumes "plain_binary bin" and "\<not> HooksNeedUpgrade (Some m) bin"
    and "\<forall>ht \<in> set HookTypes. \<forall>e \<in> set (arr_of (getHooksMap m) ht). \<not> isCompoundHookEntry e"
    and "RemoveAllHooks (AddHooksForProfile (Some m) bin profile) = (s', removed)"
  shows "removed \<and> (\<exists>m'. s' = Some m' \<and> (\<forall>k. k \<noteq> ''hooks'' \<longrightarrow> get_any m' k = get_any m k) \<and>
    (\<forall>k. if k \<in> set HookTypes then arr_of (getHooksMap m') k = arr_of (getHooksMap m) k
         else get_any (getHooksMap m') k = get_any (getHooksMap m) k))"
proof -
  obtain hooks where A: "AddHooksForProfile (Some m) bin profile = Some (AList.update ''hooks'' (JObj hooks) m)"
    by (simp add: AddHooksForProfile_def Let_def)
  have hm: "hook_map (AddHooksForProfile (Some m) bin profile) = hooks"
    by (simp add: A hook_map_Some getHooksMap_def)
  define st where "st = foldl remove_type (hooks, False) HookTypes"
  have R: "s' = Some (AList.update ''hooks'' (JObj (dropEmptyHookArrays (fst st))) (AList.update ''hooks'' (JObj hooks) m))"
    "removed = snd st"
    using assms(4) RemoveAllHooks_Some [of "AList.update ''hooks'' (JObj hooks) m" hooks] by (simp_all add: A st_def)
  have arr: "arr_of hooks ht = arr_of (getHooksMap m) ht @
      map (\<lambda>sp. hookEntry (sp_matcher sp) (sp_build sp bin)) (filter (\<lambda>sp. sp_hookType sp = ht) (hookSpecsForProfile profile))"
    if "ht \<in> set HookTypes" for ht
    using AddHooks_arr [OF assms(1) that assms(2), of profile] assms(3) that unfolding hm by blast
  have own: "isCompoundHookEntry (hookEntry (sp_matcher sp) (sp_build sp bin))" if "sp \<in> set (hookSpecsForProfile profile)" for sp
    using own_entry_compound [OF assms(1)] that specs_of_profile by auto
  have restored: "arr_of (dropEmptyHookArrays (fst st)) ht = arr_of (getHooksMap m) ht" if "ht \<in> set HookTypes" for ht
  proof -
    have "filter (\<lambda>e. \<not> isCompoundHookEntry e) (arr_of (getHooksMap m) ht) = arr_of (getHooksMap m) ht"
      using assms(3) that by simp
    moreover have "filter (\<lambda>e. \<not> isCompoundHookEntry e) (map (\<lambda>sp. hookEntry (sp_matcher sp) (sp_build sp bin))
        (filter (\<lambda>sp. sp_hookType sp = ht) (hookSpecsForProfile profile))) = []"
      using own by (auto simp: filter_empty_conv)
    ultimately show ?thesis using that
      by (simp add: dropEmpty_arr st_def remove_types_arr [OF HookTypes_distinct] arr)
  qed
  have frame: "get_any (dropEmptyHookArrays (fst st)) k = get_any (getHooksMap m) k" if "k \<notin> set HookTypes" for k
    using Remove_frame [OF that, of "(hooks, False)"] AddHooks_frame [OF that, of m bin profile] by (simp add: st_def hm)
  have "removed"
  proof -
    have sp: "hd managedHookSpecs \<in> set (hookSpecsForProfile profile)" "sp_hookType (hd managedHookSpecs) = ''SessionStart''"
      by (simp_all add: hookSpecs_cases managedHookSpecs_def)
    have "''SessionStart'' \<in> set HookTypes" by (simp add: HookTypes_def)
    moreover have "hookEntry (sp_matcher (hd managedHookSpecs)) (sp_build (hd managedHookSpecs) bin)
        \<in> set (arr_of (fst (hooks, False)) ''SessionStart'')"
      using arr [OF calculation] sp by auto
    ultimately show ?thesis using remove_types_flag [OF HookTypes_distinct _ _ own [OF sp(1)]] R(2) st_def by blast
  qed
  with R(1) restored frame show ?thesis by (simp add: getHooksMap_def)
qed

definition user_settings :: obj where
  "user_settings = [(''model'', JStr ''opus''),
     (''hooks'', JObj [(''Stop'', JArr [hookEntry [] ''make lint'']), (''Custom'', JNull)])]"

lemma user_settings_ok:
  "plain_binary ''/usr/bin/ca''" "\<not> HooksNeedUpgrade (Some user_settings) ''/usr/bin/ca''"
  "\<forall>ht \<in> set HookTypes. \<forall>e \<in> set (arr_of (getHooksMap user_settings) ht). \<not> isCompoundHookEntry e"
proof -
  show "plain_binary ''/usr/bin/ca''" by code_simp
  show "\<not> HooksNeedUpgrade (Some user_settings) ''/usr/bin/ca''" by code_simp
  have "list_all (\<lambda>ht. list_all (\<lambda>e. \<not> isCompoundHookEntry e) (arr_of (getHooksMap user_settings) ht)) HookTypes"
    by code_simp
  then show "\<forall>ht \<in> set HookTypes. \<forall>e \<in> set (arr_of (getHooksMap user_settings) ht). \<not> isCompoundHookEntry e"
    by (simp add: list_all_iff)
qed

lemma RemoveAllHooks_undoes_witness:
  "snd (RemoveAllHooks (AddHooksForProfile (Some user_settings) ''/usr/bin/ca'' ProfileFull))"
  using RemoveAllHooks_undoes [OF user_settings_ok prod.collapse [symmetric]] by blast

lemma AddHooksForProfile_hooks_witness:
  "hooks_in (AddHooksForProfile (Some user_settings) ''/usr/bin/ca'' ProfileFull) ''Stop'' =
    [command_hook ''make lint'', command_hook (makeHookCommand ''/usr/bin/ca'' ''phase-audit'')]"
proof -
  have t: "''Stop'' \<in> set HookTypes" by (simp add: HookTypes_def)
  have u: "hooks_in (Some user_settings) ''Stop'' = [command_hook ''make lint'']"
    by (simp add: hooks_in_def hook_map_Some getHooksMap_def user_settings_def get_any_def arr_of_def)
  have n: "upgrade_hook (ShellEscape ''/usr/bin/ca'') (command_hook ''make lint'') = command_hook ''make lint''"
    by code_simp
  have m: "\<not> managed ''Stop'' (command_hook ''make lint'')"
    using not_compound_unmarked [OF bspec [OF user_settings_ok(3) t]]
    by (auto simp: managed_def list_ex_iff getHooksMap_def user_settings_def get_any_def arr_of_def)
  have o: "own_hooks ''/usr/bin/ca'' ProfileFull ''Stop'' = [command_hook (makeHookCommand ''/usr/bin/ca'' ''phase-audit'')]"
    by (simp add: own_hooks_def hookSpecs_cases managedHookSpecs_def profileIncludes_def rank_of_def profileRank_def profile_defs)
  show ?thesis unfolding AddHooksForProfile_hooks [OF user_settings_ok(1) t] u o using n m by simp
qed

lemma AddHooksForProfile_settles_witness:
  "HasAllHooks (AddAllHooks (Some user_settings) ''/usr/bin/ca'')"
  using AddHooksForProfile_settles [OF user_settings_ok(1), of user_settings ProfileFull]
  by (simp add: HasAllHooks_def AddAllHooks_def)

subsection \<open>Limits\<close>

lemma quoted_path_unseen:
  assumes "CHR 0x27 \<in> set bin" and "\<not> str_contains (ShellEscape bin) ''BIN ''"
  shows "\<not> commandHasMarker (ShellEscape bin @ prime_word) ''BIN prime''"
proof -
  obtain a b where ab: "bin = a @ CHR 0x27 # b" "CHR 0x27 \<notin> set a"
    using split_list_first [OF assms(1)] by blast
  define r where "r = replace_char CHR 0x27 [CHR 0x27, CHR 0x5C, CHR 0x27, CHR 0x27] b"
  have e: "ShellEscape bin = CHR 0x27 # a @ CHR 0x27 # [CHR 0x5C] @ CHR 0x27 # ([CHR 0x27] @ r @ [CHR 0x27])"
    using replace_char_none [OF ab(2)] by (simp add: ShellEscape_def ab(1) r_def replace_char_def)
  have w: "\<not> str_contains prime_word ''BIN prime''" by code_simp
  have q: "CHR 0x27 \<notin> set ''BIN prime''" by simp
  have sub: "str_contains ''BIN prime'' ''BIN ''" by code_simp
  have r: "\<not> str_contains ([CHR 0x27] @ r) ''BIN prime''"
  proof
    assume "str_contains ([CHR 0x27] @ r) ''BIN prime''"
    then have "str_contains (ShellEscape bin) ''BIN prime''"
      unfolding e str_contains_iff by (metis append.assoc append_Cons append_Nil)
    with assms(2) contains_trans [OF _ sub] show False by blast
  qed
  have "\<not> str_contains (ShellEscape bin @ prime_word) ''BIN prime''"
  proof
    assume "str_contains (ShellEscape bin @ prime_word) ''BIN prime''"
    then have "str_contains ((CHR 0x27 # a @ CHR 0x27 # [CHR 0x5C] @ CHR 0x27 # [CHR 0x27] @ r) @ CHR 0x27 # prime_word) ''BIN prime''"
      by (simp add: e)
    from contains_split [OF this q] w
    have "str_contains (CHR 0x27 # a @ CHR 0x27 # [CHR 0x5C] @ CHR 0x27 # [CHR 0x27] @ r) ''BIN prime''" by blast
    then have "str_contains (ShellEscape bin) ''BIN prime''"
      unfolding e str_contains_iff by (metis append.assoc append_Cons)
    with assms(2) contains_trans [OF _ sub] show False by blast
  qed
  moreover have "normalizeManagedCommand (ShellEscape bin @ prime_word) =
      ''BIN'' @ [CHR 0x5C] @ CHR 0x27 # ([CHR 0x27] @ r) @ CHR 0x27 # prime_word"
  proof -
    let ?rest = "[CHR 0x5C] @ CHR 0x27 # ([CHR 0x27] @ r) @ CHR 0x27 # butlast prime_word"
    have z: "plain_char (last prime_word)" using words_end(4) .
    have c: "ShellEscape bin @ prime_word = ShellEscape a @ ?rest @ [last prime_word]"
      using words_end(3) by (simp add: e ShellEscape_plain [OF ab(2)])
    show ?thesis unfolding c normalize_quoted [OF ab(2) z] using words_end(3) by simp
  qed
  moreover have "\<not> str_contains (''BIN'' @ [CHR 0x5C] @ CHR 0x27 # ([CHR 0x27] @ r) @ CHR 0x27 # prime_word) ''BIN prime''"
  proof
    assume "str_contains (''BIN'' @ [CHR 0x5C] @ CHR 0x27 # ([CHR 0x27] @ r) @ CHR 0x27 # prime_word) ''BIN prime''"
    then have "str_contains ((''BIN'' @ [CHR 0x5C]) @ CHR 0x27 # (([CHR 0x27] @ r) @ CHR 0x27 # prime_word)) ''BIN prime''"
      by simp
    from contains_split [OF this q] consider "str_contains (''BIN'' @ [CHR 0x5C]) ''BIN prime''"
      | "str_contains (([CHR 0x27] @ r) @ CHR 0x27 # prime_word) ''BIN prime''" by blast
    then show False
    proof cases
      case 1
      moreover have "\<not> str_contains (''BIN'' @ [CHR 0x5C]) ''BIN prime''" by code_simp
      ultimately show False by simp
    next
      case 2
      from contains_split [OF this q] r w show False by blast
    qed
  qed
  ultimately show ?thesis by (simp add: commandHasMarker_def)
qed

lemma spec_prime: "filter (\<lambda>sp. sp_hookType sp = ''SessionStart'') managedHookSpecs = [hd managedHookSpecs]"
  "filter (\<lambda>sp. sp_hookType sp = ''SessionStart'') (hookSpecsForProfile profile) = [hd managedHookSpecs]"
  "sp_markers (hd managedHookSpecs) = [''BIN prime'']" "sp_build (hd managedHookSpecs) = makePrimeCommand"
  "hd managedHookSpecs \<in> set (hookSpecsForProfile profile)" "sp_hookType (hd managedHookSpecs) = ''SessionStart''"
  by (simp_all add: managedHookSpecs_def hookSpecs_cases)

lemma managed_prime: "managed ''SessionStart'' h \<longleftrightarrow> hookHasMarker h [''BIN prime'']"
proof -
  have "managed ''SessionStart'' h \<longleftrightarrow>
      list_ex (\<lambda>sp. hookHasMarker h (sp_markers sp)) (filter (\<lambda>sp. sp_hookType sp = ''SessionStart'') managedHookSpecs)"
    by (auto simp: managed_def list_ex_iff)
  then show ?thesis by (simp add: spec_prime)
qed

text \<open>A binary path with a single quote is not recognised once it is escaped: what installing adds is not counted as
  managed, so the check for the profile's hooks fails right after every installation, and the next one adds another copy
  and takes none away.\<close>

theorem quoted_path_never_settles:
  assumes "CHR 0x27 \<in> set bin" and "\<not> str_contains (ShellEscape bin) ''BIN ''"
  shows "\<not> HasAllHooksForProfile (AddHooksForProfile (Some m) bin profile) profile \<and>
    hooks_in (AddHooksForProfile (Some m) bin profile) ''SessionStart'' =
      filter (\<lambda>h. \<not> managed ''SessionStart'' h) (map (upgrade_hook (ShellEscape bin)) (hooks_in (Some m) ''SessionStart''))
        @ [command_hook (makePrimeCommand bin)] \<and>
    \<not> managed ''SessionStart'' (command_hook (makePrimeCommand bin))"
proof -
  have b: "bin \<noteq> []" using assms(1) by auto
  have own: "\<not> managed ''SessionStart'' (command_hook (makePrimeCommand bin))"
    using quoted_path_unseen [OF assms] by (simp add: managed_prime build_words(2) [OF b])
  have t: "''SessionStart'' \<in> set HookTypes" by (simp add: HookTypes_def)
  have s: "sorted_wrt (apart bin) (filter (\<lambda>sp. sp_hookType sp = ''SessionStart'') (hookSpecsForProfile profile))"
    by (simp add: spec_prime)
  have h: "hooks_in (AddHooksForProfile (Some m) bin profile) ''SessionStart'' =
      filter (\<lambda>h. \<not> managed ''SessionStart'' h) (map (upgrade_hook (ShellEscape bin)) (hooks_in (Some m) ''SessionStart''))
        @ [command_hook (makePrimeCommand bin)]"
    unfolding hooks_in_def hook_map_AddHooks hook_map_Some dropEmpty_arr installInProfileHooks_def removeOutOfProfileHooks_def
      foldl_install_flat [OF b s] foldl_remove_flat upgradeNpxHooks_flat [OF b t] filter_filter
    by (simp add: split_managed [of _ _ profile] conj_commute spec_prime)
  have none: "\<forall>h \<in> set (hooks_in (AddHooksForProfile (Some m) bin profile) ''SessionStart''). \<not> hookHasMarker h [''BIN prime'']"
    using own unfolding h managed_prime by auto
  have "\<not> HasAllHooksForProfile (AddHooksForProfile (Some m) bin profile) profile"
  proof
    assume a: "HasAllHooksForProfile (AddHooksForProfile (Some m) bin profile) profile"
    obtain hooks where k: "hooks_of (AddHooksForProfile (Some m) bin profile) = Some hooks"
      by (simp add: AddHooksForProfile_def Let_def hooks_of_def)
    have "\<exists>h \<in> set (flat (arr_of hooks ''SessionStart'')). hookHasMarker h [''BIN prime'']"
      using a spec_prime(3,6) spec_prime(5) [of profile] unfolding HasAllHooksForProfile_def k list_all_iff option.case hasHookMarker_type
      by metis
    with none show False by (simp add: hooks_in_def hook_map_def k)
  qed
  with own h show ?thesis by blast
qed

lemma quoted_path_never_settles_witness:
  "\<not> HasAllHooks (AddAllHooks (Some []) (''/home/o'' @ [CHR 0x27] @ ''hara/ca''))"
proof -
  have "\<not> str_contains (ShellEscape (''/home/o'' @ [CHR 0x27] @ ''hara/ca'')) ''BIN ''" by code_simp
  then show ?thesis
    using quoted_path_never_settles [of "''/home/o'' @ [CHR 0x27] @ ''hara/ca''" "[]" ProfileFull]
    by (simp add: HasAllHooks_def AddAllHooks_def)
qed

text \<open>Removing works on whole entries where installing works on hooks: an entry in which the user put a hook of their
  own beside a managed one is dropped with the user's hook by \<open>RemoveAllHooks\<close>, while the filter of installing keeps it.\<close>

theorem removeHookEntries_drops_user_hook:
  assumes "entry_hooks e = Some [u, c]" and "hookHasMarker c ms" and "\<not> hookHasMarker u ms" and "hookHasMarker c HookMarkers"
  shows "removeHookEntries [e] = ([], True) \<and> flat (fst (filterHookEntries [e] ms)) = [u]"
proof -
  have "isCompoundHookEntry e" using assms(1,4) by (simp add: isCompound_hooks)
  then show ?thesis using assms by (simp add: removeHookEntries_def filterHookEntries_flat)
qed

lemma removeHookEntries_drops_user_hook_witness:
  "removeHookEntries [JObj [(''hooks'', JArr [command_hook ''make lint'', command_hook ''ca prime''])]] = ([], True)"
proof -
  have 1: "entry_hooks (JObj [(''hooks'', JArr [command_hook ''make lint'', command_hook ''ca prime''])])
      = Some [command_hook ''make lint'', command_hook ''ca prime'']"
    by (simp add: entry_hooks_def get_any_def)
  have 2: "hookHasMarker (command_hook ''ca prime'') [''BIN prime'']" by code_simp
  have 3: "\<not> hookHasMarker (command_hook ''make lint'') [''BIN prime'']" by code_simp
  have 4: "hookHasMarker (command_hook ''ca prime'') HookMarkers" by code_simp
  show ?thesis using removeHookEntries_drops_user_hook [OF 1 2 3 4] by blast
qed

text \<open>A settings file that holds the JSON text null makes setup panic: the decoded map is nil, no hook is found in it,
  and the first assignment to it ends the program.\<close>

theorem initHooks_null_panics:
  assumes "files t (settings_path repoRoot) = Some ''null''"
  shows "\<exists>msg. initHooks show_float repoRoot bin profile t = (Inl (Panic msg), t)"
proof -
  have r: "os_read_file (settings_path repoRoot) t = (Inr ''null'', t)"
    using assms by (simp add: os_read_file_def files_iff lookup_node_at [symmetric])
  have n: "json_parse ''null'' = Some JNull" by code_simp
  have "ReadClaudeSettings (settings_path repoRoot) t = (Inr None, t)"
    by (simp add: ReadClaudeSettings_def try_io_def r n ret_def)
  then show ?thesis
    by (simp add: initHooks_def bind_io_def ctx_io_def HasAllHooksForProfile_def hooks_of_def AddHooksForProfile_def fail_def Let_def)
qed

lemma initHooks_null_panics_witness:
  "\<exists>msg. initHooks id [''repo''] ''/usr/bin/ca'' ProfileFull
     (Dir [(''repo'', Dir [(''.claude'', Dir [(''settings.json'', RegFile ''null'')])])]) =
   (Inl (Panic msg), Dir [(''repo'', Dir [(''.claude'', Dir [(''settings.json'', RegFile ''null'')])])])"
  by (rule initHooks_null_panics) (simp add: settings_path_def)

end
