(* ===== verification/SettingsFile.thy ===== *)
theory SettingsFile
  imports SettingsProps
begin

section \<open>Setup on the settings file: what is written is read back, and a second run rests\<close>

text \<open>
  The decoded settings are well-formed values (\<open>any_ok\<close>): distinct keys, UTF-8 strings, nesting within the limit of the
  decoder. Installing keeps them so, the written text decodes to the same settings with sorted keys, and every check that
  decides whether to write depends on the hooks alone. So \<open>initHooks\<close> run twice writes once.
\<close>

subsection \<open>Well-formed untyped values\<close>

fun any_ok :: "nat \<Rightarrow> json \<Rightarrow> bool" where
  "any_ok d (JStr s) = valid_utf8 s"
| "any_ok d (JArr vs) = (0 < d \<and> list_all (any_ok (d - 1)) vs)"
| "any_ok d (JObj ms) = (0 < d \<and> gomap_ok ms \<and> list_all (\<lambda>m. valid_utf8 (fst m) \<and> any_ok (d - 1) (snd m)) ms)"
| "any_ok d _ = True"

definition obj_ok :: "nat \<Rightarrow> obj \<Rightarrow> bool" where
  "obj_ok d m \<longleftrightarrow> gomap_ok m \<and> list_all (\<lambda>m. valid_utf8 (fst m) \<and> any_ok d (snd m)) m"

lemma any_ok_obj [simp]: "any_ok (Suc d) (JObj m) \<longleftrightarrow> obj_ok d m"
  by (simp add: obj_ok_def)

declare any_ok.simps(3) [simp del]

lemma any_ok_mono: "any_ok d v \<Longrightarrow> d \<le> d' \<Longrightarrow> any_ok d' v"
proof (induction d v arbitrary: d' rule: any_ok.induct)
  case (2 d vs)
  then have "any_ok (d' - 1) x" if "x \<in> set vs" for x
    using that by (auto simp: list_all_iff intro!: "2.IH")
  with 2 show ?case by (auto simp: list_all_iff)
next
  case (3 d ms)
  then have "any_ok (d' - 1) (snd x)" if "x \<in> set ms" for x
    using that by (auto simp: any_ok.simps(3) list_all_iff intro!: "3.IH")
  with 3 show ?case by (auto simp: any_ok.simps(3) list_all_iff)
qed simp_all

lemma set_update_sub: "set (AList.update k v m) \<subseteq> insert (k, v) (set m)"
  by (induction m) auto

lemma set_delete_sub: "set (AList.delete k m) \<subseteq> set m"
  by (auto simp: AList.delete_eq)

lemma obj_ok_update: "obj_ok d m \<Longrightarrow> valid_utf8 k \<Longrightarrow> any_ok d v \<Longrightarrow> obj_ok d (AList.update k v m)"
  using set_update_sub [of k v m] by (fastforce simp: obj_ok_def list_all_iff)

lemma obj_ok_delete: "obj_ok d m \<Longrightarrow> obj_ok d (AList.delete k m)"
  using set_delete_sub [of k m] by (fastforce simp: obj_ok_def list_all_iff)

lemma obj_ok_Nil [simp]: "obj_ok d []"
  by (simp add: obj_ok_def)

lemma obj_ok_get: "obj_ok d m \<Longrightarrow> any_ok d (get_any m k)"
  by (auto simp: obj_ok_def get_any_def list_all_iff split: option.splits dest!: map_of_SomeD)

lemma foldl_update_ok:
  "obj_ok d acc \<Longrightarrow> \<forall>x \<in> set xs. valid_utf8 (fst x) \<and> any_ok d (snd x) \<Longrightarrow>
     obj_ok d (foldl (\<lambda>m (k, v). AList.update k v m) acc xs)"
  by (induction xs arbitrary: acc) (auto simp: obj_ok_update)

lemma fits_any_ok: "fits d v \<Longrightarrow> any_ok d (any_of v)"
proof (induction d v rule: fits.induct)
  case (2 d vs)
  then show ?case by (auto simp: list_all_iff)
next
  case (3 d ms)
  then obtain e where d: "d = Suc e" by (cases d) auto
  have "\<forall>x \<in> set (map (\<lambda>(k, v). (k, any_of v)) ms). valid_utf8 (fst x) \<and> any_ok e (snd x)"
    using 3 d by (fastforce simp: list_all_iff)
  then show ?case by (simp add: d foldl_update_ok)
qed simp_all

lemma update_fresh: "k \<notin> fst ` set m \<Longrightarrow> AList.update k v m = m @ [(k, v)]"
  by (induction m) auto

lemma foldl_update_id:
  "distinct (map fst (acc @ xs)) \<Longrightarrow> foldl (\<lambda>m (k, v). AList.update k v m) acc xs = acc @ xs"
proof (induction xs arbitrary: acc)
  case (Cons x xs)
  have "AList.update (fst x) (snd x) acc = acc @ [x]"
    using Cons.prems by (simp add: update_fresh)
  then show ?case using Cons by (simp add: case_prod_beta)
qed simp

lemma any_of_id: "any_ok d v \<Longrightarrow> any_of v = v"
proof (induction d v rule: any_ok.induct)
  case (2 d vs)
  then show ?case by (auto simp: list_all_iff intro!: map_idI)
next
  case (3 d ms)
  then have "map (\<lambda>(k, v). (k, any_of v)) ms = ms"
    by (intro map_idI) (auto simp: any_ok.simps(3) list_all_iff)
  moreover have "gomap_ok ms" using 3 by (simp add: any_ok.simps(3))
  ultimately show ?case using foldl_update_id [of "[]" ms] by simp
qed simp_all

subsection \<open>Sorting the keys\<close>

definition sorted_map :: "(string \<Rightarrow> string) \<Rightarrow> obj \<Rightarrow> obj" where
  "sorted_map f m = sort_key fst (map (\<lambda>(k, v). (k, sorted_any f v)) m)"

lemma sorted_any_obj [simp]: "sorted_any f (JObj m) = JObj (sorted_map f m)"
  by (simp add: sorted_map_def)

declare sorted_any.simps(3) [simp del]

lemma map_fst_sorted: "map fst (map (\<lambda>(k, v). (k, g v)) m) = map fst m"
  by auto

lemma gomap_sorted: "gomap_ok m \<Longrightarrow> gomap_ok (sorted_map f m)"
proof -
  assume a: "gomap_ok m"
  have "mset (map fst (sorted_map f m)) = mset (map fst (map (\<lambda>(k, v). (k, sorted_any f v)) m))"
    by (simp only: sorted_map_def mset_map mset_sort)
  then have "mset (map fst (sorted_map f m)) = mset (map fst m)"
    unfolding map_fst_sorted .
  then show ?thesis using a by (metis mset_eq_imp_distinct_iff)
qed

lemma any_ok_sorted: "any_ok d v \<Longrightarrow> any_ok d (sorted_any f v)"
proof (induction d v rule: any_ok.induct)
  case (3 d ms)
  then show ?case using gomap_sorted [of ms f]
    by (auto simp: any_ok.simps(3) sorted_map_def list_all_iff)
qed (auto simp: list_all_iff)

text \<open>What the code relies on of the float64 printer: its texts are literals in range.\<close>

definition float_text :: "(string \<Rightarrow> string) \<Rightarrow> bool" where
  "float_text f \<longleftrightarrow> (\<forall>l. num_ok (f l) \<and> lit_finite (f l))"

lemma any_ok_printable:
  assumes "float_text f"
  shows "any_ok d v \<Longrightarrow> wf_json (sorted_any f v) \<and> jdepth (sorted_any f v) \<le> d \<and> nums_finite (sorted_any f v)"
proof (induction d v rule: any_ok.induct)
  case (2 d vs)
  then have "fold max (map (jdepth \<circ> sorted_any f) vs) 0 \<le> d - 1"
    by (auto simp: list_all_iff fold_max_le)
  with 2 show ?case by (auto simp: list_all_iff)
next
  case (3 d ms)
  have "fold max (map (\<lambda>m. jdepth (snd m)) (sorted_map f ms)) 0 \<le> d - 1"
    using 3 by (auto simp: any_ok.simps(3) sorted_map_def list_all_iff fold_max_le)
  moreover have "list_all (\<lambda>m. valid_utf8 (fst m) \<and> wf_json (snd m) \<and> nums_finite (snd m)) (sorted_map f ms)"
    using 3 by (auto simp: any_ok.simps(3) sorted_map_def list_all_iff)
  ultimately show ?case using 3(2) by (auto simp: any_ok.simps(3) sorted_any_obj list_all_iff)
qed (use assms in \<open>auto simp: float_text_def\<close>)

lemma map_of_sorted: "gomap_ok m \<Longrightarrow> map_of (sorted_map f m) k = map_option (sorted_any f) (map_of m k)"
proof -
  assume a: "gomap_ok m"
  have "map_of (sorted_map f m) = map_of (map (\<lambda>(k, v). (k, sorted_any f v)) m)"
    using gomap_sorted [OF a, of f] a by (subst map_of_inject_set) (simp_all add: sorted_map_def comp_def case_prod_beta)
  then show ?thesis by (simp add: map_of_map)
qed

lemma get_any_sorted: "gomap_ok m \<Longrightarrow> get_any (sorted_map f m) k = sorted_any f (get_any m k)"
  by (simp add: get_any_def map_of_sorted split: option.splits)

lemma arr_of_sorted: "gomap_ok m \<Longrightarrow> arr_of (sorted_map f m) k = map (sorted_any f) (arr_of m k)"
  by (simp add: arr_of_def get_any_sorted split: json.splits)

lemma as_string_sorted [simp]: "as_string (sorted_any f v) = as_string v"
  by (cases v) (simp_all add: as_string_def)

lemma as_obj_sorted: "as_obj (sorted_any f v) = map_option (sorted_map f) (as_obj v)"
  by (cases v) (simp_all add: as_obj_def sorted_map_def)

lemma any_ok_as_obj: "any_ok d v \<Longrightarrow> as_obj v = Some m \<Longrightarrow> \<exists>e. d = Suc e \<and> obj_ok e m"
  by (cases v; cases d) (auto simp: as_obj_def obj_ok_def any_ok.simps(3))

lemma hook_command_sorted: "obj_ok e m \<Longrightarrow> hook_command (sorted_map f m) = hook_command m"
  by (simp add: hook_command_def get_any_sorted obj_ok_def)

lemma hookHasMarker_sorted:
  assumes "any_ok d h"
  shows "hookHasMarker (sorted_any f h) ms = hookHasMarker h ms"
proof (cases "as_obj h")
  case (Some m)
  with any_ok_as_obj [OF assms] show ?thesis by (auto simp: hookHasMarker_def as_obj_sorted hook_command_sorted)
qed (simp add: hookHasMarker_def as_obj_sorted)

lemma entry_hooks_sorted:
  assumes "any_ok d e"
  shows "entry_hooks (sorted_any f e) = map_option (map (sorted_any f)) (entry_hooks e)"
proof (cases "as_obj e")
  case (Some m)
  from any_ok_as_obj [OF assms Some] obtain c where "obj_ok c m" by blast
  then have "get_any (sorted_map f m) ''hooks'' = sorted_any f (get_any m ''hooks'')"
    by (simp add: get_any_sorted obj_ok_def)
  then show ?thesis using Some
    by (cases "get_any m ''hooks''") (simp_all add: entry_hooks_def as_obj_sorted as_arr_def)
qed (simp add: entry_hooks_def as_obj_sorted)

lemma flat_sorted: "list_all (any_ok d) arr \<Longrightarrow> flat (map (sorted_any f) arr) = map (sorted_any f) (flat arr)"
  by (induction arr) (auto simp: entry_hooks_sorted split: option.splits)

lemma entry_hooks_ok: "any_ok d e \<Longrightarrow> entry_hooks e = Some hs \<Longrightarrow> list_all (any_ok (d - 2)) hs"
proof -
  assume a: "any_ok d e" "entry_hooks e = Some hs"
  then obtain m where m: "as_obj e = Some m" "get_any m ''hooks'' = JArr hs"
    by (auto simp: entry_hooks_def as_arr_Some Option.bind_eq_Some_conv)
  from any_ok_as_obj [OF a(1) m(1)] obtain c where "d = Suc c" "obj_ok c m" by blast
  with obj_ok_get [of c m "''hooks''"] m(2) show ?thesis by (simp add: numeral_2_eq_2)
qed

lemma flat_ok: "list_all (any_ok d) arr \<Longrightarrow> h \<in> set (flat arr) \<Longrightarrow> any_ok (d - 2) h"
  using entry_hooks_ok by (fastforce simp: in_flat list_all_iff)

subsection \<open>The checks depend on the hooks alone\<close>

definition npx_hook :: "json \<Rightarrow> bool" where
  "npx_hook h = (case as_obj h of None \<Rightarrow> False | Some m \<Rightarrow> str_contains (hook_command m) ''npx ca '')"

lemma hookArrayHasNpx_flat: "hookArrayHasNpx arr \<longleftrightarrow> (\<exists>h \<in> set (flat arr). npx_hook h)"
  by (induction arr) (auto simp: hookArrayHasNpx_def npx_hook_def [symmetric] list_ex_iff split: option.splits)

lemma hooks_in_None: "hooks_of s = None \<Longrightarrow> hooks_in s ht = []"
  by (simp add: hooks_in_def hook_map_def arr_of_def get_any_def)

lemma HasAll_iff: "HasAllHooksForProfile s profile \<longleftrightarrow>
   (\<forall>sp \<in> set (hookSpecsForProfile profile). \<exists>h \<in> set (hooks_in s (sp_hookType sp)). hookHasMarker h (sp_markers sp))"
proof (cases "hooks_of s")
  case None
  then show ?thesis using spec_prime(5) [of profile] by (auto simp: HasAllHooksForProfile_def hooks_in_None)
next
  case (Some hooks)
  then show ?thesis by (simp add: HasAllHooksForProfile_def list_all_iff hasHookMarker_type hooks_in_def hook_map_def)
qed

lemma OutOfProfile_iff: "hooksHaveOutOfProfileEntries s profile \<longleftrightarrow>
   (\<exists>sp \<in> set managedHookSpecs. \<not> profileIncludes (sp_profile sp) profile \<and>
      (\<exists>h \<in> set (hooks_in s (sp_hookType sp)). hookHasMarker h (sp_markers sp)))"
proof (cases "hooks_of s")
  case None
  then show ?thesis by (simp add: hooksHaveOutOfProfileEntries_def hooks_in_None)
next
  case (Some hooks)
  then show ?thesis by (simp add: hooksHaveOutOfProfileEntries_def list_ex_iff hasHookMarker_type hooks_in_def hook_map_def)
qed

lemma Dedupe_iff: "HooksNeedDedupe s \<longleftrightarrow>
   (\<exists>sp \<in> set managedHookSpecs. 1 < length (filter (\<lambda>h. hookHasMarker h (sp_markers sp)) (hooks_in s (sp_hookType sp))))"
proof (cases "hooks_of s")
  case None
  then show ?thesis by (simp add: HooksNeedDedupe_def hooks_in_None)
next
  case (Some hooks)
  have "(case as_arr (get_any hooks ht) of None \<Rightarrow> False | Some arr \<Rightarrow> 1 < fst (snd (filterHookEntries arr ms))) \<longleftrightarrow>
      1 < length (filter (\<lambda>h. hookHasMarker h ms) (flat (arr_of hooks ht)))" for ht ms
    by (cases "as_arr (get_any hooks ht)") (simp_all add: filterHookEntries_flat arr_of_as_arr)
  then show ?thesis using Some unfolding HooksNeedDedupe_def list_ex_iff by (simp add: hooks_in_def hook_map_def)
qed

lemma Upgrade_iff: "bin \<noteq> [] \<Longrightarrow> HooksNeedUpgrade s bin \<longleftrightarrow> (\<exists>ht \<in> set HookTypes. \<exists>h \<in> set (hooks_in s ht). npx_hook h)"
proof (cases "hooks_of s")
  case None
  then show ?thesis by (simp add: HooksNeedUpgrade_def hooks_in_None)
next
  case (Some hooks)
  have "(case as_arr (get_any hooks ht) of None \<Rightarrow> False | Some arr \<Rightarrow> hookArrayHasNpx arr) \<longleftrightarrow>
      (\<exists>h \<in> set (flat (arr_of hooks ht)). npx_hook h)" for ht
    by (cases "as_arr (get_any hooks ht)") (simp_all add: hookArrayHasNpx_flat arr_of_as_arr)
  moreover assume "bin \<noteq> []"
  ultimately show ?thesis using Some unfolding HooksNeedUpgrade_def list_ex_iff by (simp add: hooks_in_def hook_map_def)
qed

lemma obj_ok_hook_map: "obj_ok (Suc d) m \<Longrightarrow> obj_ok d (getHooksMap m)"
  using obj_ok_get [of "Suc d" m "''hooks''"] by (auto simp: getHooksMap_def split: json.splits)

lemma arr_of_ok: "obj_ok (Suc d) m \<Longrightarrow> list_all (any_ok d) (arr_of m k)"
  using obj_ok_get [of "Suc d" m k] by (cases "get_any m k") (simp_all add: arr_of_def)

lemma hooks_in_sorted:
  assumes "obj_ok (Suc (Suc d)) m"
  shows "hooks_in (Some (sorted_map f m)) ht = map (sorted_any f) (hooks_in (Some m) ht)"
proof -
  have "getHooksMap (sorted_map f m) = sorted_map f (getHooksMap m)"
  proof -
    have "get_any (sorted_map f m) ''hooks'' = sorted_any f (get_any m ''hooks'')"
      using assms by (simp add: get_any_sorted obj_ok_def)
    then show ?thesis
      by (cases "get_any m ''hooks''") (simp_all add: getHooksMap_def, simp_all add: sorted_map_def)
  qed
  moreover have o: "obj_ok (Suc d) (getHooksMap m)" by (rule obj_ok_hook_map [OF assms])
  ultimately have "arr_of (getHooksMap (sorted_map f m)) ht = map (sorted_any f) (arr_of (getHooksMap m) ht)"
    by (simp add: arr_of_sorted obj_ok_def)
  with flat_sorted [OF arr_of_ok [OF o]] show ?thesis by (simp add: hooks_in_def hook_map_Some)
qed

lemma hooks_in_ok: "obj_ok (Suc (Suc d)) m \<Longrightarrow> h \<in> set (hooks_in (Some m) ht) \<Longrightarrow> any_ok (d - 2) h"
  by (auto simp: hooks_in_def hook_map_Some intro: flat_ok [OF arr_of_ok [OF obj_ok_hook_map]])

lemma npx_hook_sorted:
  assumes "any_ok d h"
  shows "npx_hook (sorted_any f h) = npx_hook h"
proof (cases "as_obj h")
  case (Some m)
  from any_ok_as_obj [OF assms Some] obtain c where "obj_ok c m" by blast
  then show ?thesis using Some by (simp add: npx_hook_def as_obj_sorted hook_command_sorted)
qed (simp add: npx_hook_def as_obj_sorted)

lemma filter_sorted:
  assumes "\<And>h. h \<in> set hs \<Longrightarrow> P (g h) = P h"
  shows "length (filter P (map g hs)) = length (filter P hs)"
  using assms by (induction hs) auto

text \<open>None of the four checks sees the sorting of the keys.\<close>

lemma checks_sorted:
  assumes "obj_ok (Suc (Suc d)) m"
  shows "HasAllHooksForProfile (Some (sorted_map f m)) profile = HasAllHooksForProfile (Some m) profile"
    and "hooksHaveOutOfProfileEntries (Some (sorted_map f m)) profile = hooksHaveOutOfProfileEntries (Some m) profile"
    and "HooksNeedDedupe (Some (sorted_map f m)) = HooksNeedDedupe (Some m)"
    and "bin \<noteq> [] \<Longrightarrow> HooksNeedUpgrade (Some (sorted_map f m)) bin = HooksNeedUpgrade (Some m) bin"
proof -
  note ok = hooks_in_ok [OF assms] and s = hooks_in_sorted [OF assms]
  have e: "(\<exists>h \<in> set (hooks_in (Some (sorted_map f m)) ht). hookHasMarker h ms) \<longleftrightarrow>
      (\<exists>h \<in> set (hooks_in (Some m) ht). hookHasMarker h ms)" for ht ms
    using hookHasMarker_sorted [OF ok] by (simp add: s)
  then show "HasAllHooksForProfile (Some (sorted_map f m)) profile = HasAllHooksForProfile (Some m) profile"
    "hooksHaveOutOfProfileEntries (Some (sorted_map f m)) profile = hooksHaveOutOfProfileEntries (Some m) profile"
    by (simp_all add: HasAll_iff OutOfProfile_iff)
  have "length (filter (\<lambda>h. hookHasMarker h ms) (map (sorted_any f) (hooks_in (Some m) ht))) =
      length (filter (\<lambda>h. hookHasMarker h ms) (hooks_in (Some m) ht))" for ht ms
    by (rule filter_sorted) (rule hookHasMarker_sorted [OF ok])
  then show "HooksNeedDedupe (Some (sorted_map f m)) = HooksNeedDedupe (Some m)" by (simp add: Dedupe_iff s)
  have "(\<exists>h \<in> set (hooks_in (Some (sorted_map f m)) ht). npx_hook h) \<longleftrightarrow> (\<exists>h \<in> set (hooks_in (Some m) ht). npx_hook h)" for ht
    using npx_hook_sorted [OF ok] by (simp add: s)
  then show "bin \<noteq> [] \<Longrightarrow> HooksNeedUpgrade (Some (sorted_map f m)) bin = HooksNeedUpgrade (Some m) bin"
    by (simp add: Upgrade_iff)
qed

subsection \<open>Installing keeps the settings well-formed\<close>

lemma getHookArray_ok:
  assumes "obj_ok (Suc d) hooks" and "valid_utf8 k"
  shows "list_all (any_ok d) (fst (getHookArray hooks k)) \<and> obj_ok (Suc d) (snd (getHookArray hooks k))"
  using obj_ok_get [OF assms(1), of k] assms by (auto simp: getHookArray_def obj_ok_update split: json.splits)

lemma filter_hooks_sub: "filter_hooks ms hs n c = (kept, r) \<Longrightarrow> set kept \<subseteq> set hs"
  using filter_hooks_result by (cases r) fastforce

lemma set_hooks_ok:
  assumes "any_ok d e" and "entry_hooks e = Some hs" and "set kept \<subseteq> set hs"
  shows "any_ok d (set_hooks kept e)"
proof -
  obtain m where m: "e = JObj m" "get_any m ''hooks'' = JArr hs"
    using assms(2) by (cases e) (auto simp: entry_hooks_def as_obj_def as_arr_Some)
  from any_ok_as_obj [OF assms(1), of m] obtain c where c: "d = Suc c" "obj_ok c m" by (auto simp: m)
  have "any_ok c (JArr kept)" using obj_ok_get [OF c(2), of "''hooks''"] assms(3) by (auto simp: m list_all_iff)
  moreover have "valid_utf8 ''hooks''" by code_simp
  ultimately show ?thesis by (simp add: m(1) c(1) set_hooks_def obj_ok_update [OF c(2)])
qed

lemma filter_entries_ok:
  "filter_entries ms es n c = (out, r) \<Longrightarrow> list_all (any_ok d) es \<Longrightarrow> list_all (any_ok d) out"
proof (induction es arbitrary: n c out r)
  case (Cons e es)
  show ?case
  proof (cases "entry_hooks e")
    case None
    obtain o2 r2 where 2: "filter_entries ms es n c = (o2, r2)" by (cases "filter_entries ms es n c")
    show ?thesis using Cons.IH [OF 2] Cons.prems None 2 by (auto split: prod.splits)
  next
    case (Some hs)
    obtain k1 n1 c1 where 1: "filter_hooks ms hs n c = (k1, n1, c1)" by (metis prod_cases3)
    obtain o2 r2 where 2: "filter_entries ms es n1 c1 = (o2, r2)" by (cases "filter_entries ms es n1 c1")
    have "any_ok d (set_hooks k1 e)" using Cons.prems(2) Some filter_hooks_sub [OF 1] by (auto intro: set_hooks_ok)
    then show ?thesis using Cons.IH [OF 2] Cons.prems Some 1 2 by (auto split: prod.splits if_splits)
  qed
qed simp

lemma filterHookEntries_ok: "list_all (any_ok d) arr \<Longrightarrow> list_all (any_ok d) (fst (filterHookEntries arr ms))"
  using filter_entries_ok [of ms arr 0 "[]"] unfolding filterHookEntries_def by (metis prod.collapse)

lemma texts_utf8:
  "list_all valid_utf8 ([''hooks'', ''matcher'', ''type'', ''command'', ''Bash|Edit|Write'', ''Read'', ''Edit|Write''] @ HookTypes)"
  by code_simp

lemma hookEntry_ok:
  assumes "valid_utf8 mt" and "valid_utf8 c"
  shows "any_ok (Suc (Suc (Suc d))) (hookEntry mt c)"
  using assms texts_utf8 by (simp add: hookEntry_def obj_ok_def)

lemma ShellEscape_utf8:
  assumes "CHR 0x27 \<notin> set bin" and "valid_utf8 bin"
  shows "valid_utf8 (ShellEscape bin @ w) = valid_utf8 w"
proof -
  have q: "valid_utf8 [CHR 0x27]" by code_simp
  have "ShellEscape bin @ w = [CHR 0x27] @ bin @ [CHR 0x27] @ w" by (simp add: ShellEscape_plain [OF assms(1)])
  then show ?thesis by (simp only: valid_utf8_append [OF q] valid_utf8_append [OF assms(2)])
qed

lemma words_utf8:
  "list_all valid_utf8 (prime_word # map hook_word [''user-prompt'', ''post-tool-failure'', ''post-tool-success'',
     ''post-read'', ''phase-guard'', ''phase-audit''])"
  by code_simp

lemma spec_utf8:
  assumes "plain_binary bin" and "valid_utf8 bin" and "sp \<in> set managedHookSpecs"
  shows "valid_utf8 (sp_build sp bin)" and "valid_utf8 (sp_matcher sp)" and "valid_utf8 (sp_hookType sp)"
proof -
  have b: "bin \<noteq> []" "CHR 0x27 \<notin> set bin" using assms(1) by (simp_all add: plain_binary_def)
  show "valid_utf8 (sp_build sp bin)"
    using assms(3) words_utf8 unfolding managedHookSpecs_def
    by (auto simp: build_words [OF b(1)] ShellEscape_utf8 [OF b(2) assms(2)])
  show "valid_utf8 (sp_matcher sp)" using assms(3) texts_utf8 unfolding managedHookSpecs_def by auto
  show "valid_utf8 (sp_hookType sp)" using HookTypes_specs [OF assms(3)] texts_utf8 by (auto simp: list_all_iff)
qed

lemma foldl_keeps: "P a \<Longrightarrow> (\<And>x a. x \<in> set xs \<Longrightarrow> P a \<Longrightarrow> P (f a x)) \<Longrightarrow> P (foldl f a xs)"
  by (induction xs arbitrary: a) auto

lemma upgrade_arr_ok:
  assumes "\<not> hookArrayHasNpx arr" and "list_all (any_ok d) arr"
  shows "list_all (any_ok d) (map (upgrade_entry e) arr)"
  unfolding upgrade_entry_none [OF assms(1)] by (rule assms(2))

lemma upgradeNpxHooks_ok:
  assumes "obj_ok (Suc d) hooks" and "\<forall>ht \<in> set HookTypes. \<not> hookArrayHasNpx (arr_of hooks ht)"
  shows "obj_ok (Suc d) (upgradeNpxHooks hooks bin)"
proof -
  have "obj_ok (Suc d) (foldl (upgrade_type e) hooks ks)"
    if "distinct ks" "set ks \<subseteq> set HookTypes" "\<forall>ht \<in> set ks. \<not> hookArrayHasNpx (arr_of hooks ht)" "obj_ok (Suc d) hooks"
    for e hooks ks
    using that
  proof (induction ks arbitrary: hooks)
    case (Cons k ks)
    have u: "valid_utf8 k" using Cons.prems(2) texts_utf8 by (auto simp: list_all_iff)
    have g: "list_all (any_ok d) (arr_of hooks k)" "obj_ok (Suc d) (snd (getHookArray hooks k))"
      using getHookArray_ok [OF Cons.prems(4) u] by (simp_all add: getHookArray_arr)
    have "obj_ok (Suc d) (upgrade_type e hooks k)"
      unfolding upgrade_type_def case_prod_beta Let_def getHookArray_arr
      using upgrade_arr_ok [OF _ g(1)] Cons.prems(3) by (intro obj_ok_update [OF g(2) u]) simp
    moreover have "arr_of (upgrade_type e hooks k) ht = arr_of hooks ht" if "ht \<in> set ks" for ht
      using Cons.prems(1) that by (auto simp: upgrade_type_arr)
    ultimately show ?case using Cons.IH Cons.prems by simp
  qed simp
  then show ?thesis using assms HookTypes_distinct by (simp add: upgradeNpxHooks_def)
qed

lemma AddHooks_ok:
  assumes "plain_binary bin" and "valid_utf8 bin" and "obj_ok (Suc (Suc (Suc (Suc (Suc d))))) m" and "\<not> HooksNeedUpgrade (Some m) bin"
  shows "\<exists>m'. AddHooksForProfile (Some m) bin profile = Some m' \<and> obj_ok (Suc (Suc (Suc (Suc (Suc d))))) m'"
proof -
  let ?P = "obj_ok (Suc (Suc (Suc (Suc d))))"
  have b: "bin \<noteq> []" using assms(1) by (simp add: plain_binary_def)
  have n: "\<forall>ht \<in> set HookTypes. \<not> hookArrayHasNpx (arr_of (getHooksMap m) ht)"
    using assms(4) by (simp add: Upgrade_iff [OF b] hookArrayHasNpx_flat hooks_in_def hook_map_Some)
  have 1: "?P (upgradeNpxHooks (getHooksMap m) bin)"
    by (rule upgradeNpxHooks_ok [OF obj_ok_hook_map [OF assms(3)] n])
  have 2: "?P (removeOutOfProfileHooks hooks profile)" if "?P hooks" for hooks
    unfolding removeOutOfProfileHooks_def
  proof (rule foldl_keeps [where P = ?P, OF that])
    fix sp h assume sp: "sp \<in> set managedHookSpecs" and h: "?P h"
    from filterHookEntries_ok [OF arr_of_ok [OF h]]
    show "?P (remove_spec profile h sp)"
      using h by (auto simp: remove_spec_def arr_of_as_arr spec_utf8(3) [OF assms(1,2) sp] intro!: obj_ok_update split: option.splits)
        (metis option.simps(5))
  qed
  have 3: "?P (installInProfileHooks hooks bin profile)" if "?P hooks" for hooks
    unfolding installInProfileHooks_def
  proof (rule foldl_keeps [where P = ?P, OF that])
    fix sp h assume "sp \<in> set (hookSpecsForProfile profile)" and h: "?P h"
    then have sp: "sp \<in> set managedHookSpecs" using specs_of_profile by auto
    note u = spec_utf8 [OF assms(1,2) sp]
    from getHookArray_ok [OF h u(3)] filterHookEntries_ok [of "Suc (Suc (Suc d))" "fst (getHookArray h (sp_hookType sp))" "sp_markers sp"]
    show "?P (install_spec bin h sp)"
      using hookEntry_ok [OF u(2,1)] b by (simp add: install_spec_def case_prod_beta Let_def obj_ok_update u(3))
  qed
  have 4: "?P (dropEmptyHookArrays hooks)" if "?P hooks" for hooks
    unfolding dropEmptyHookArrays_def by (rule foldl_keeps [where P = ?P, OF that]) (simp add: obj_ok_delete)
  have "valid_utf8 ''hooks''" by code_simp
  with 4 [OF 3 [OF 2 [OF 1]]] show ?thesis
    by (simp add: AddHooksForProfile_def Let_def obj_ok_update [OF assms(3)])
qed

subsection \<open>What is written is read back\<close>

lemma settings_text_parse:
  assumes "float_text f" and "obj_ok d m" and "Suc d \<le> max_depth"
  shows "json_parse (settings_text f (Some m)) = Some (JObj (sorted_map f m))"
proof -
  let ?v = "sorted_any f (JObj m)" and ?nl = "[CHR 0x0A]"
  have ok: "wf_json ?v" "jdepth ?v \<le> max_depth"
    using any_ok_printable [OF assms(1), of "Suc d" "JObj m"] assms(2,3) by auto
  have "pv (2 * length (marshal_indent ?v @ ?nl) + 1) max_depth ([] @ jpr indent_nl [CHR 0x20] 0 ?v @ ?nl) = Some (?v, ?nl)"
    using indent2.value_text [of ?v, unfolded indent2.value_ok_def, rule_format, OF ok, of 0 _ "[]" ?nl]
    by (simp add: all_ws_def num_stop_def is_digit_def marshal_indent_def byte_in_def)
  then show ?thesis
    by (simp add: json_parse_def settings_text_def marshal_indent_def skip_ws_def is_ws_def)
qed

lemma tmp_path_neq: "p \<noteq> [] \<Longrightarrow> tmp_path p \<noteq> p"
  by (cases p rule: rev_cases) (simp_all add: tmp_path_def)

lemma WriteClaudeSettings_files:
  assumes "WriteClaudeSettings f p s t = (Inr u, t')" and "p \<noteq> []"
  shows "files t' = (files t)(p \<mapsto> settings_text f s, tmp_path p := None)"
proof -
  from assms(1) obtain t1 t2 where 1: "os_mkdir_all (butlast p) t = (Inr (), t1)"
    and 2: "os_write_file (tmp_path p) (settings_text f s) t1 = (Inr (), t2)" and 3: "os_rename (tmp_path p) p t2 = (Inr u, t')"
    by (auto simp: WriteClaudeSettings_def bind_io_Inr ctx_io_Inr)
  have f2: "files t2 = (files t)(tmp_path p \<mapsto> settings_text f s)"
    using os_write_file_files [OF 2] os_mkdir_all_files [OF 1] by simp
  then show ?thesis
    using os_rename_files [OF 3 _ tmp_path_neq [OF assms(2)], of "settings_text f s"] tmp_path_neq [OF assms(2)]
    by (auto simp: fun_eq_iff)
qed

text \<open>Settings round-trip. When writing the settings succeeds, the file holds them, no temporary file is left and no
  other file has changed, and reading gives the same settings back, their keys sorted at every level.\<close>

theorem WriteClaudeSettings_read:
  assumes "float_text f" and "obj_ok d m" and "Suc d \<le> max_depth" and "p \<noteq> []"
    and "WriteClaudeSettings f p (Some m) t = (Inr (), t')"
  shows "ReadClaudeSettings p t' = (Inr (Some (sorted_map f m)), t') \<and>
    files t' = (files t)(p \<mapsto> settings_text f (Some m), tmp_path p := None)"
proof -
  note fl = WriteClaudeSettings_files [OF assms(5,4)]
  then have "files t' p = Some (settings_text f (Some m))" using tmp_path_neq [OF assms(4)] by simp
  then have r: "os_read_file p t' = (Inr (settings_text f (Some m)), t')"
    by (simp add: os_read_file_def files_iff lookup_node_at [symmetric])
  have ok: "any_ok (Suc d) (JObj (sorted_map f m))" using any_ok_sorted [of "Suc d" "JObj m" f] assms(2) by simp
  have n: "nums_finite (JObj (sorted_map f m))" using any_ok_printable [OF assms(1), of "Suc d" "JObj m"] assms(2) by simp
  have "ReadClaudeSettings p t' = (Inr (Some (sorted_map f m)), t')"
    using any_of_id [OF ok] n
    by (simp add: ReadClaudeSettings_def try_io_def r settings_text_parse [OF assms(1-3)] ret_def del: nums_finite.simps any_of.simps)
  with fl show ?thesis by blast
qed

lemma ReadClaudeSettings_ok:
  assumes "ReadClaudeSettings p t = (Inr (Some m), t')"
  shows "t' = t \<and> obj_ok (max_depth - 1) m"
proof -
  have o: "os_read_file p t = (fst (os_read_file p t), t)"
    by (simp add: os_read_file_def split: sum.splits node.splits)
  show ?thesis
  proof (cases "fst (os_read_file p t)")
    case (Inl e)
    then have "m = []" "t' = t" using assms o
      by (auto simp: ReadClaudeSettings_def try_io_def ret_def fail_def split: prod.splits if_splits)
    then show ?thesis by simp
  next
    case (Inr data)
    then obtain v where v: "json_parse data = Some v" "any_of v = JObj m" "t' = t"
      using assms o by (auto simp: ReadClaudeSettings_def try_io_def ret_def fail_def split: prod.splits option.splits if_splits json.splits)
    have "any_ok (Suc (max_depth - 1)) (JObj m)"
      using fits_any_ok [OF json_parse_fits [OF v(1)]] v(2) by (simp add: max_depth_def)
    then show ?thesis using v(3) by simp
  qed
qed

lemma no_npx_after:
  assumes "plain_binary bin" and "\<not> str_contains bin ''npx ca ''" and "\<not> HooksNeedUpgrade (Some m) bin"
  shows "\<not> HooksNeedUpgrade (AddHooksForProfile (Some m) bin profile) bin"
proof -
  have b: "bin \<noteq> []" "CHR 0x27 \<notin> set bin" using assms(1) by (simp_all add: plain_binary_def)
  have w: "\<not> str_contains w ''npx ca ''" if "w \<in> set (prime_word # map hook_word [''user-prompt'', ''post-tool-failure'',
      ''post-tool-success'', ''post-read'', ''phase-guard'', ''phase-audit''])" for w
  proof -
    have "list_all (\<lambda>w. \<not> str_contains w ''npx ca '') (prime_word # map hook_word [''user-prompt'', ''post-tool-failure'',
      ''post-tool-success'', ''post-read'', ''phase-guard'', ''phase-audit''])" by code_simp
    with that show ?thesis by (auto simp: list_all_iff)
  qed
  have c: "\<not> str_contains (ShellEscape bin @ w) ''npx ca ''" if "\<not> str_contains w ''npx ca ''" for w
  proof
    assume "str_contains (ShellEscape bin @ w) ''npx ca ''"
    then have "str_contains ([] @ CHR 0x27 # (bin @ CHR 0x27 # w)) ''npx ca ''" by (simp add: ShellEscape_plain [OF b(2)])
    from contains_split [OF this] have "str_contains [] ''npx ca '' \<or> str_contains (bin @ CHR 0x27 # w) ''npx ca ''" by simp
    moreover have "\<not> str_contains [] ''npx ca ''" by code_simp
    ultimately have "str_contains (bin @ CHR 0x27 # w) ''npx ca ''" by blast
    from contains_split [OF this] that assms(2) show False by simp
  qed
  have own: "\<not> npx_hook (command_hook (sp_build sp bin))" if "sp \<in> set managedHookSpecs" for sp
  proof -
    have "\<exists>w \<in> set (prime_word # map hook_word [''user-prompt'', ''post-tool-failure'',
      ''post-tool-success'', ''post-read'', ''phase-guard'', ''phase-audit'']). sp_build sp bin = ShellEscape bin @ w"
    proof -
      have "sp_build sp bin = makePrimeCommand bin \<or> (\<exists>h \<in> {''user-prompt'', ''post-tool-failure'', ''post-tool-success'',
          ''post-read'', ''phase-guard'', ''phase-audit''}. sp_build sp bin = makeHookCommand bin h)"
        using that unfolding managedHookSpecs_def set_simps insert_iff by (elim disjE emptyE) simp_all
      then show ?thesis unfolding build_words [OF b(1)] by auto
    qed
    then obtain v where v: "sp_build sp bin = ShellEscape bin @ v" "\<not> str_contains v ''npx ca ''" using w by blast
    show ?thesis using c [OF v(2)] unfolding v(1) by (simp add: npx_hook_def)
  qed
  have user: "upgrade_hook e h = h \<and> \<not> npx_hook h" if "ht \<in> set HookTypes" "h \<in> set (hooks_in (Some m) ht)" for ht h e
  proof -
    have "\<not> npx_hook h" using assms(3) that by (auto simp: Upgrade_iff [OF b(1)])
    then show ?thesis by (auto simp: npx_hook_def upgrade_hook_def as_obj_def split: json.splits)
  qed
  show ?thesis
    unfolding Upgrade_iff [OF b(1)]
  proof (rule notI, elim bexE)
    fix ht h assume ht: "ht \<in> set HookTypes" and h: "h \<in> set (hooks_in (AddHooksForProfile (Some m) bin profile) ht)" and x: "npx_hook h"
    from h [unfolded installed_hooks [OF assms(1) ht]] consider h' where "h' \<in> set (hooks_in (Some m) ht)" "h = upgrade_hook (ShellEscape bin) h'"
      | "h \<in> set (own_hooks bin profile ht)" by auto
    then show False
    proof cases
      case 1
      then show False using user [OF ht 1(1)] x by auto
    next
      case 2
      then show False using own specs_of_profile x by (auto simp: own_hooks_def)
    qed
  qed
qed

text \<open>Setup of the hooks is idempotent on the file. If the first run succeeds with a plain binary path and there is no npx
  command to upgrade, a second run with the same arguments finds nothing to do: it succeeds, reports no upgrade and leaves
  every file as it is.\<close>

theorem initHooks_idempotent:
  assumes "float_text f" and "plain_binary bin" and "valid_utf8 bin" and "\<not> str_contains bin ''npx ca ''"
    and "ReadClaudeSettings (settings_path root_dir) t = (Inr (Some m), t)" and "\<not> HooksNeedUpgrade (Some m) bin"
    and "initHooks f root_dir bin profile t = (Inr up, t')"
  shows "initHooks f root_dir bin profile t' = (Inr False, t')"
proof -
  let ?p = "settings_path root_dir"
  let ?need = "\<lambda>s. \<not> HasAllHooksForProfile s profile \<or> HooksNeedUpgrade s bin \<or> HooksNeedDedupe s \<or> hooksHaveOutOfProfileEntries s profile"
  have b: "bin \<noteq> []" using assms(2) by (simp add: plain_binary_def)
  have rests: "initHooks f root_dir bin profile t' = (Inr False, t')"
    if "ReadClaudeSettings ?p t' = (Inr s, t')" "\<not> ?need s" for s
    using that by (simp add: initHooks_def bind_io_def ctx_io_def ret_def Let_def)
  show ?thesis
  proof (cases "?need (Some m)")
    case False
    then have "t' = t" using assms(5,7) by (simp add: initHooks_def bind_io_def ctx_io_def ret_def Let_def)
    with rests assms(5) False show ?thesis by blast
  next
    case True
    obtain d where d: "max_depth - 1 = Suc (Suc (Suc (Suc (Suc d))))" "Suc (Suc (Suc (Suc (Suc (Suc d))))) \<le> max_depth"
      by (rule that [of 9994]) (simp_all add: max_depth_def)
    have ok: "obj_ok (Suc (Suc (Suc (Suc (Suc d))))) m" using ReadClaudeSettings_ok [OF assms(5)] d(1) by simp
    obtain m1 where m1: "AddHooksForProfile (Some m) bin profile = Some m1" "obj_ok (Suc (Suc (Suc (Suc (Suc d))))) m1"
      using AddHooks_ok [OF assms(2,3) ok assms(6)] by blast
    have w: "WriteClaudeSettings f ?p (Some m1) t = (Inr (), t')"
      using assms(5,7) True m1(1)
      by (auto simp: initHooks_def bind_io_def ctx_io_def ret_def Let_def split: prod.splits sum.splits)
    have p: "?p \<noteq> []" by (simp add: settings_path_def)
    have r: "ReadClaudeSettings ?p t' = (Inr (Some (sorted_map f m1)), t')"
      using WriteClaudeSettings_read [OF assms(1) m1(2) d(2) p w] by blast
    have "\<not> ?need (Some m1)"
      using AddHooksForProfile_settles [OF assms(2), of m profile] no_npx_after [OF assms(2,4,6), of profile] by (simp add: m1(1))
    then have "\<not> ?need (Some (sorted_map f m1))"
      using checks_sorted [OF m1(2)] b by simp
    with rests r show ?thesis by blast
  qed
qed

lemma float_zero: "float_text (\<lambda>_. ''0'')"
proof -
  have "lit_scaled ''0'' = (False, 0, 1)" by code_simp
  moreover have "(2::nat) ^ 970 < 2 ^ 1024" by (rule power_strict_increasing) simp_all
  ultimately have "lit_finite ''0''" by (simp only: lit_finite_def case_prod_conv Let_def mult_1 zero_less_diff)
  moreover have "num_ok ''0''" by code_simp
  ultimately show ?thesis by (simp add: float_text_def)
qed

definition empty_repo :: node where
  "empty_repo = Dir [(''repo'', Dir [])]"

lemma write_empty_repo:
  "WriteClaudeSettings f (settings_path [''repo'']) s empty_repo =
     (Inr (), Dir [(''repo'', Dir [(''.claude'', Dir [(''settings.json'', RegFile (settings_text f s))])])])"
  by (simp add: WriteClaudeSettings_def bind_io_def ctx_io_def os_mkdir_all_def os_write_file_def os_rename_def on_tree_def
      settings_path_def tmp_path_def empty_repo_def rename_onto_def is_dir_def prefix_def)

lemma read_empty_repo: "ReadClaudeSettings (settings_path [''repo'']) empty_repo = (Inr (Some []), empty_repo)"
  by code_simp

lemma WriteClaudeSettings_read_witness:
  "\<exists>t. ReadClaudeSettings (settings_path [''repo'']) t = (Inr (Some []), t) \<and>
     files t (settings_path [''repo'']) = Some (''{}'' @ [CHR 0x0A])"
proof -
  have "settings_path [''repo''] \<noteq> []" "Suc 0 \<le> max_depth" by (simp_all add: settings_path_def max_depth_def)
  from WriteClaudeSettings_read [OF float_zero obj_ok_Nil this(2,1) write_empty_repo]
  have "ReadClaudeSettings (settings_path [''repo'']) (snd (WriteClaudeSettings (\<lambda>_. ''0'') (settings_path [''repo'']) (Some []) empty_repo))
     = (Inr (Some []), snd (WriteClaudeSettings (\<lambda>_. ''0'') (settings_path [''repo'']) (Some []) empty_repo))"
    by (simp add: sorted_map_def write_empty_repo)
  then show ?thesis
    by (intro exI [of _ "snd (WriteClaudeSettings (\<lambda>_. ''0'') (settings_path [''repo'']) (Some []) empty_repo)"])
      (unfold write_empty_repo, simp add: settings_path_def settings_text_def marshal_indent_def sorted_map_def)
qed

lemma initHooks_idempotent_witness:
  "\<exists>t. files t (settings_path [''repo'']) \<noteq> None \<and> initHooks (\<lambda>_. ''0'') [''repo''] ''/usr/bin/ca'' ProfileFull t = (Inr False, t)"
proof -
  have 1: "plain_binary ''/usr/bin/ca''" "valid_utf8 ''/usr/bin/ca''" "\<not> str_contains ''/usr/bin/ca'' ''npx ca ''" by code_simp+
  have 3: "\<not> HooksNeedUpgrade (Some []) ''/usr/bin/ca''" by (simp add: HooksNeedUpgrade_def hooks_of_def get_any_def as_obj_def)
  have n: "\<not> HasAllHooksForProfile (Some []) ProfileFull" by (simp add: HasAllHooksForProfile_def hooks_of_def get_any_def as_obj_def)
  obtain m1 where m1: "AddHooksForProfile (Some []) ''/usr/bin/ca'' ProfileFull = Some m1"
    by (simp add: AddHooksForProfile_def Let_def)
  define t where "t = snd (WriteClaudeSettings (\<lambda>_. ''0'') (settings_path [''repo'']) (Some m1) empty_repo)"
  have w: "WriteClaudeSettings (\<lambda>_. ''0'') (settings_path [''repo'']) (Some m1) empty_repo = (Inr (), t)"
    by (simp add: t_def write_empty_repo)
  then have j: "initHooks (\<lambda>_. ''0'') [''repo''] ''/usr/bin/ca'' ProfileFull empty_repo = (Inr False, t)"
    using n 3 m1 by (simp add: initHooks_def bind_io_def ctx_io_def read_empty_repo ret_def Let_def)
  have "files t (settings_path [''repo'']) \<noteq> None"
    unfolding t_def write_empty_repo by (simp add: settings_path_def)
  with initHooks_idempotent [OF float_zero 1 read_empty_repo 3 j] show ?thesis by blast
qed

end
