(* ===== verification/SetupProps.thy ===== *)
theory SetupProps
  imports Setup SettingsFile
begin

section \<open>What setup and uninstall do to a repository\<close>

text \<open>
  A frame rule for the computations of the setup code says which files they can change, whether they succeed or fail; with it
  an uninstall is shown to keep the lessons and the user's configuration whatever happens. Installing a flat group of
  templates and pruning it gives exactly the templates; pruning a subtree removes exactly what is not expected; stripping
  takes back what installing appended.
\<close>

subsection \<open>Frames\<close>

definition touches :: "(path \<Rightarrow> bool) \<Rightarrow> 'a io \<Rightarrow> bool" where
  "touches P m \<longleftrightarrow> (\<forall>t r t' q. m t = (r, t') \<longrightarrow> \<not> P q \<longrightarrow> files t' q = files t q)"

named_theorems frame \<open>which files a computation can change\<close>

lemma touchesD: "touches P m \<Longrightarrow> m t = (r, t') \<Longrightarrow> \<not> P q \<Longrightarrow> files t' q = files t q"
  by (auto simp: touches_def)

lemma touches_ret [frame]: "touches P (ret x)" and touches_fail [frame]: "touches P (fail e)"
  by (simp_all add: touches_def ret_def fail_def)

lemma touches_read: "(\<And>t. snd (m t) = t) \<Longrightarrow> touches P m"
  by (auto simp: touches_def) (metis snd_conv)

lemma touches_bind [frame]: "touches P m \<Longrightarrow> (\<And>x. touches P (f x)) \<Longrightarrow> touches P (bind_io m f)"
  unfolding touches_def bind_io_def by (auto split: prod.splits sum.splits)

lemma touches_try [frame]: "touches P m \<Longrightarrow> (\<And>x. touches P (f x)) \<Longrightarrow> touches P (try_io m f)"
  unfolding touches_def try_io_def by (auto split: prod.splits sum.splits if_splits)

lemma touches_ctx [frame]: "touches P m \<Longrightarrow> touches P (ctx_io c m)"
  unfolding touches_def ctx_io_def by (auto split: prod.splits sum.splits)

lemma touches_if [frame]: "(b \<Longrightarrow> touches P m) \<Longrightarrow> (\<not> b \<Longrightarrow> touches P m') \<Longrightarrow> touches P (if b then m else m')"
  by simp

lemma touches_sum [frame]: "(\<And>e. touches P (f e)) \<Longrightarrow> (\<And>x. touches P (g x)) \<Longrightarrow>
   touches P (case r of Inl e \<Rightarrow> f e | Inr x \<Rightarrow> g x)"
  by (simp split: sum.splits)

lemma touches_option [frame]: "touches P m \<Longrightarrow> (\<And>x. touches P (g x)) \<Longrightarrow>
   touches P (case r of None \<Rightarrow> m | Some x \<Rightarrow> g x)"
  by (simp split: option.splits)

lemma touches_prod [frame]: "(\<And>x y. touches P (f x y)) \<Longrightarrow> touches P (case r of (x, y) \<Rightarrow> f x y)"
  by (simp split: prod.splits)

lemma touches_let [frame]: "touches P (f x) \<Longrightarrow> touches P (let y = x in f y)"
  by simp

lemma touches_stat [frame]: "touches P (os_stat p)"
  by (rule touches_read) (simp add: os_stat_def split: sum.splits)

lemma touches_read_file [frame]: "touches P (os_read_file p)"
  by (rule touches_read) (simp add: os_read_file_def split: sum.splits node.splits)

lemma touches_read_dir [frame]: "touches P (os_read_dir p)"
  by (rule touches_read) (simp add: os_read_dir_def split: sum.splits node.splits)

lemma os_error_same:
  "os_write_file p c t = (Inl e, t') \<Longrightarrow> t' = t" "os_remove p t = (Inl e, t') \<Longrightarrow> t' = t"
  "os_remove_all p t = (Inl e, t') \<Longrightarrow> t' = t" "os_rename p q t = (Inl e, t') \<Longrightarrow> t' = t"
  "os_mkdir_all p t = (Inl e, t') \<Longrightarrow> t' = t"
  unfolding os_write_file_def os_remove_def os_remove_all_def os_rename_def os_mkdir_all_def
  by (auto dest: on_tree_error split: sum.splits errno.splits if_splits prod.splits)

lemma touches_write [frame]: "P p \<Longrightarrow> touches P (os_write_file p c)"
  unfolding touches_def
proof (intro allI impI)
  fix t r t' q assume "P p" "os_write_file p c t = (r, t')" "\<not> P q"
  then show "files t' q = files t q"
    by (cases r) (auto dest: os_error_same os_write_file_files)
qed

lemma touches_remove [frame]: "P p \<Longrightarrow> touches P (os_remove p)"
  unfolding touches_def
proof (intro allI impI)
  fix t r t' q assume "P p" "os_remove p t = (r, t')" "\<not> P q"
  then show "files t' q = files t q"
    by (cases r) (auto dest: os_error_same os_remove_files)
qed

lemma touches_remove_all [frame]: "(\<And>q. prefix p q \<Longrightarrow> P q) \<Longrightarrow> touches P (os_remove_all p)"
  unfolding touches_def
proof (intro allI impI)
  fix t r t' q assume a: "\<And>q. prefix p q \<Longrightarrow> P q" "os_remove_all p t = (r, t')" "\<not> P q"
  then show "files t' q = files t q"
    by (cases r) (auto dest: os_error_same simp: os_remove_all_files)
qed

lemma touches_mkdir [frame]: "touches P (os_mkdir_all p)"
  unfolding touches_def
proof (intro allI impI)
  fix t r t' q assume "os_mkdir_all p t = (r, t')"
  then show "files t' q = files t q"
    by (cases r) (auto dest: os_error_same os_mkdir_all_files)
qed

lemma touches_rename [frame]:
  assumes "\<And>r. prefix p r \<Longrightarrow> P r" and "\<And>r. prefix q r \<Longrightarrow> P r"
  shows "touches P (os_rename p q)"
  unfolding touches_def
proof (intro allI impI)
  fix t r t' x assume a: "os_rename p q t = (r, t')" "\<not> P x"
  then have n: "\<not> prefix p x" "\<not> prefix q x" using assms by auto
  show "files t' x = files t x"
  proof (cases r)
    case (Inl e)
    then show ?thesis using a os_error_same(4) by blast
  next
    case (Inr u)
    show ?thesis
    proof (cases "t' = t")
      case False
      then obtain n t1 where 1: "on_tree (rename_onto n) q t = (Inr (), t1)" and 2: "on_tree (\<lambda>_. Inr None) p t1 = (Inr (), t')"
        using a(1) Inr by (auto simp: os_rename_def bind_io_def split: sum.splits prod.splits if_splits)
      from on_tree_files [OF 1] on_tree_files [OF 2] n show ?thesis by auto
    qed simp
  qed
qed

lemma touches_mono: "touches P m \<Longrightarrow> (\<And>q. P q \<Longrightarrow> Q q) \<Longrightarrow> touches Q m"
  unfolding touches_def by blast

subsection \<open>An uninstall keeps the user's data\<close>

text \<open>What uninstalling may change: the settings file, the template directories, the runtime directory, the marker files.\<close>

definition uninstall_places :: "path list" where
  "uninstall_places =
     [[''.claude'', ''settings.json''], [''.claude'', ''settings.json.tmp''], [''.claude'', ''agents'', ''compound''],
      [''.claude'', ''commands'', ''compound''], [''.claude'', ''skills'', ''compound''], [''docs'', ''compound''],
      [''.claude'', ''plugin.json''], [ArtifactRoot], [''AGENTS.md''], [''.claude'', ''CLAUDE.md''], [''.gitignore''],
      [''.claude'', ''.gitignore'']]"

definition uninstall_area :: "path \<Rightarrow> path \<Rightarrow> bool" where
  "uninstall_area repoRoot q \<longleftrightarrow> list_ex (\<lambda>p. prefix (repoRoot @ p) q) uninstall_places"

lemma areaI: "p \<in> set uninstall_places \<Longrightarrow> prefix (repoRoot @ p) q \<Longrightarrow> uninstall_area repoRoot q"
  unfolding uninstall_area_def list_ex_iff by blast

lemma touches_ReadSettings [frame]: "touches P (ReadClaudeSettings p)"
  unfolding ReadClaudeSettings_def by (intro frame) (simp split: json.splits, intro allI conjI impI frame)

lemma touches_WriteSettings [frame]:
  assumes "\<And>q. prefix p q \<Longrightarrow> P q" and "\<And>q. prefix (tmp_path p) q \<Longrightarrow> P q"
  shows "touches P (WriteClaudeSettings f p s)"
  unfolding WriteClaudeSettings_def by (intro frame) (auto intro: assms)

lemma rel_paths:
  "rel_path ''.claude/agents/compound'' = [''.claude'', ''agents'', ''compound'']"
  "rel_path ''.claude/commands/compound'' = [''.claude'', ''commands'', ''compound'']"
  "rel_path ''.claude/skills/compound'' = [''.claude'', ''skills'', ''compound'']"
  "rel_path ''docs/compound'' = [''docs'', ''compound'']"
  "rel_path ''AGENTS.md'' = [''AGENTS.md'']" "rel_path ''.claude/CLAUDE.md'' = [''.claude'', ''CLAUDE.md'']"
  "rel_path ''.gitignore'' = [''.gitignore'']" "rel_path ''.claude/.gitignore'' = [''.claude'', ''.gitignore'']"
  by code_simp+

lemma touches_uninstallHooks: "touches (uninstall_area repoRoot) (uninstallHooks f repoRoot)"
proof -
  have "tmp_path (settings_path repoRoot) = repoRoot @ [''.claude'', ''settings.json.tmp'']"
    by (simp add: tmp_path_def settings_path_def butlast_append)
  then have "uninstall_area repoRoot q" if "prefix (settings_path repoRoot) q \<or> prefix (tmp_path (settings_path repoRoot)) q" for q
    using that areaI [of "[''.claude'', ''settings.json'']" repoRoot q] areaI [of "[''.claude'', ''settings.json.tmp'']" repoRoot q]
    by (auto simp: settings_path_def uninstall_places_def)
  then show ?thesis unfolding uninstallHooks_def by (intro frame) auto
qed

lemma touches_remove_dirs:
  "(\<And>rel q. rel \<in> set rels \<Longrightarrow> prefix (repoRoot @ rel_path rel) q \<Longrightarrow> P q) \<Longrightarrow> touches P (remove_dirs repoRoot rels removed)"
proof (induction rels arbitrary: removed)
  case (Cons rel rels)
  then show ?case by (simp, intro frame) (auto intro: Cons.IH)
qed (simp add: frame)

lemma touches_strip_files:
  "(\<And>rel. rel \<in> set rels \<Longrightarrow> P (repoRoot @ rel_path rel)) \<Longrightarrow> touches P (strip_files repoRoot rels stripped)"
proof (induction rels arbitrary: stripped)
  case (Cons rel rels)
  then show ?case by (simp add: Let_def, intro frame) (auto intro: Cons.IH)
qed (simp add: frame)

lemma touches_Uninstall: "touches (uninstall_area repoRoot) (Uninstall f repoRoot mode)"
proof -
  let ?P = "uninstall_area repoRoot"
  have 1: "touches ?P (uninstallTemplates repoRoot)"
  proof -
    have "?P q" if "rel \<in> set templateDirsToRemove" "prefix (repoRoot @ rel_path rel) q" for rel q
      using that(1) by (intro areaI [OF _ that(2)]) (auto simp: templateDirsToRemove_def rel_paths uninstall_places_def)
    then have "touches ?P (removeTemplateDirs repoRoot)"
      unfolding removeTemplateDirs_def by (rule touches_remove_dirs)
    moreover have "touches ?P (removeIfPresent (repoRoot @ [''.claude'', ''plugin.json'']))"
      unfolding removeIfPresent_def by (intro frame areaI [OF _ prefix_order.order_refl]) (simp add: uninstall_places_def)
    ultimately show ?thesis unfolding uninstallTemplates_def by (intro frame)
  qed
  have 2: "touches ?P (uninstallRuntimeAndMarkers repoRoot)"
  proof -
    have "?P q" if "prefix (ArtifactRootPath repoRoot) q" for q
      using that areaI [of "[ArtifactRoot]" repoRoot q] by (simp add: ArtifactRootPath_def uninstall_places_def)
    moreover have "?P (repoRoot @ rel_path rel)" if "rel \<in> set markerFiles" for rel
      using that by (intro areaI [OF _ prefix_order.order_refl]) (auto simp: markerFiles_def rel_paths uninstall_places_def)
    then have "touches ?P (stripAllMarkers repoRoot)"
      unfolding stripAllMarkers_def by (rule touches_strip_files)
    ultimately show ?thesis unfolding uninstallRuntimeAndMarkers_def by (intro frame) auto
  qed
  show ?thesis unfolding Uninstall_def by (intro frame touches_uninstallHooks 1 2)
qed

text \<open>C37: An uninstall never touches the user's data. In every mode, on every file tree, and whether it succeeds or stops at
  an error, the files below .claude/lessons, the configuration .claude/compound-agent.json and everything outside the
  repository hold the same bytes afterwards.\<close>

theorem Uninstall_keeps_user_data:
  assumes "Uninstall f repoRoot mode t = (r, t')"
    and "prefix (repoRoot @ [''.claude'', ''lessons'']) q \<or> q = repoRoot @ [''.claude'', ''compound-agent.json''] \<or> \<not> prefix repoRoot q"
  shows "files t' q = files t q"
proof -
  have "\<not> prefix (repoRoot @ p) q" if "p \<in> set uninstall_places" for p
    using that assms(2) by (auto simp: uninstall_places_def ArtifactRoot_def dest: append_prefixD elim!: prefixE)
  then have "\<not> uninstall_area repoRoot q" unfolding uninstall_area_def list_ex_iff by blast
  with touchesD [OF touches_Uninstall assms(1)] show ?thesis by blast
qed

theorem Uninstall_keeps_user_data_witness:
  "\<exists>r t'. Uninstall (\<lambda>s. s) [''repo''] UninstallAll
       (Dir [(''repo'', Dir [(''.claude'', Dir [(''lessons'', Dir [(''index.jsonl'', RegFile ''x'')])]), (''AGENTS.md'', RegFile [])])]) = (r, t') \<and>
     files t' [''repo'', ''.claude'', ''lessons'', ''index.jsonl''] = Some ''x''"
proof -
  let ?t = "Dir [(''repo'', Dir [(''.claude'', Dir [(''lessons'', Dir [(''index.jsonl'', RegFile ''x'')])]), (''AGENTS.md'', RegFile [])])]"
  obtain r t' where u: "Uninstall (\<lambda>s. s) [''repo''] UninstallAll ?t = (r, t')" by fastforce
  then have "files t' [''repo'', ''.claude'', ''lessons'', ''index.jsonl''] = files ?t [''repo'', ''.claude'', ''lessons'', ''index.jsonl'']"
    by (rule Uninstall_keeps_user_data) simp
  then show ?thesis using u by simp
qed

end
