(* ===== verification/PruneProps.thy ===== *)
theory PruneProps
  imports SetupProps
begin

section \<open>What pruning leaves\<close>

text \<open>
  The effect of pruning a subtree on the files, by induction over its recursion, and what follows for the groups of templates:
  installing a group and pruning it gives exactly the templates.
\<close>

subsection \<open>Subtrees\<close>

text \<open>
  A file is kept if it is expected and all directories on the way to it are, or if it lies in a top-level directory that is
  skipped. \<open>kept_from\<close> looks at the part of the path below \<open>relDir\<close> only.
\<close>

definition kept_from :: "path list \<Rightarrow> path list \<Rightarrow> string list \<Rightarrow> path \<Rightarrow> path \<Rightarrow> bool" where
  "kept_from ef ed skip relDir rel \<longleftrightarrow>
     relDir = [] \<and> tl rel \<noteq> [] \<and> hd rel \<in> set skip \<or>
     relDir @ rel \<in> set ef \<and> (\<forall>i. 0 < i \<and> i < length rel \<longrightarrow> relDir @ take i rel \<in> set ed)"

lemma kept_from_file: "kept_from ef ed skip d [name] \<longleftrightarrow> d @ [name] \<in> set ef"
  by (auto simp: kept_from_def)

lemma kept_from_below:
  assumes "rest \<noteq> []" and "\<not> (d = [] \<and> name \<in> set skip)"
  shows "kept_from ef ed skip d (name # rest) \<longleftrightarrow> d @ [name] \<in> set ed \<and> kept_from ef ed skip (d @ [name]) rest"
proof -
  have "(\<forall>i. 0 < i \<and> i < length (name # rest) \<longrightarrow> d @ take i (name # rest) \<in> set ed) \<longleftrightarrow>
      d @ [name] \<in> set ed \<and> (\<forall>i. 0 < i \<and> i < length rest \<longrightarrow> d @ name # take i rest \<in> set ed)" (is "?l \<longleftrightarrow> ?r")
  proof
    assume l: ?l
    have "d @ name # take i rest \<in> set ed" if "0 < i" "i < length rest" for i
      using l [rule_format, of "Suc i"] that by simp
    moreover have "d @ [name] \<in> set ed" using l [rule_format, of 1] assms(1) by simp
    ultimately show ?r by blast
  next
    assume r: ?r
    show ?l
    proof (intro allI impI)
      fix i assume i: "0 < i \<and> i < length (name # rest)"
      then obtain k where "i = Suc k" by (cases i) auto
      with r i show "d @ take i (name # rest) \<in> set ed" by (cases k) auto
    qed
  qed
  with assms show ?thesis by (auto simp: kept_from_def)
qed

text \<open>A computation \<open>clears D P\<close> if it succeeds, removes the files of \<open>P\<close>, and changes nothing that is not in or above a place of \<open>D\<close>.\<close>

definition clears :: "path set \<Rightarrow> (path \<Rightarrow> bool) \<Rightarrow> node \<Rightarrow> (io_err + 'a) \<times> node \<Rightarrow> bool" where
  "clears D P t res \<longleftrightarrow> (\<exists>x t'. res = (Inr x, t') \<and> (\<forall>q. files t' q = (if P q then None else files t q)) \<and>
     (\<forall>q. (\<forall>d \<in> D. \<not> prefix d q \<and> \<not> prefix q d) \<longrightarrow> node_at t' q = node_at t q))"

lemma clears_ret [simp]: "clears D P t (ret x t) \<longleftrightarrow> (\<forall>q. P q \<longrightarrow> files t q = None)"
  by (auto simp: clears_def ret_def)

lemma clears_bind:
  assumes "clears D P t (m t)" and "\<And>x t1. m t = (Inr x, t1) \<Longrightarrow> clears D' P' t1 (f x t1)"
  shows "clears (D \<union> D') (\<lambda>q. P q \<or> P' q) t (bind_io m f t)"
proof -
  from assms(1) obtain x t1 where 1: "m t = (Inr x, t1)" "\<And>q. files t1 q = (if P q then None else files t q)"
     "\<And>q. (\<forall>d \<in> D. \<not> prefix d q \<and> \<not> prefix q d) \<Longrightarrow> node_at t1 q = node_at t q"
    unfolding clears_def by blast
  from assms(2) [OF 1(1)] obtain y t2 where 2: "f x t1 = (Inr y, t2)" "\<And>q. files t2 q = (if P' q then None else files t1 q)"
     "\<And>q. (\<forall>d \<in> D'. \<not> prefix d q \<and> \<not> prefix q d) \<Longrightarrow> node_at t2 q = node_at t1 q"
    unfolding clears_def by blast
  show ?thesis unfolding clears_def
  proof (intro exI conjI allI impI)
    show "bind_io m f t = (Inr y, t2)" using 1(1) 2(1) by (simp add: bind_io_def)
    show "files t2 q = (if P q \<or> P' q then None else files t q)" for q using 1(2) 2(2) by simp
    show "node_at t2 q = node_at t q" if "\<forall>d \<in> D \<union> D'. \<not> prefix d q \<and> \<not> prefix q d" for q
      using that 1(3) [of q] 2(3) [of q] by simp
  qed
qed

lemma clears_cong0:
  assumes "clears D P t res"
    and "\<And>q. \<forall>d \<in> D'. \<not> prefix d q \<and> \<not> prefix q d \<Longrightarrow> \<forall>d \<in> D. \<not> prefix d q \<and> \<not> prefix q d"
    and "\<And>q. files t q \<noteq> None \<Longrightarrow> P q = P' q"
  shows "clears D' P' t res"
proof -
  note a = assms
  from a(1) obtain x t' where 1: "res = (Inr x, t')" "\<And>q. files t' q = (if P q then None else files t q)"
     "\<And>q. (\<forall>d \<in> D. \<not> prefix d q \<and> \<not> prefix q d) \<Longrightarrow> node_at t' q = node_at t q"
    unfolding clears_def by blast
  show ?thesis unfolding clears_def
  proof (intro exI conjI allI impI)
    show "files t' q = (if P' q then None else files t q)" for q
      using 1(2) [of q] a(3) [of q] by (cases "files t q") auto
    show "node_at t' q = node_at t q" if "\<forall>d \<in> D'. \<not> prefix d q \<and> \<not> prefix q d" for q
      using a(2) [OF that] by (rule 1(3))
  qed (rule 1(1))
qed

lemma clears_cong: "clears D P t res \<Longrightarrow> D \<subseteq> D' \<Longrightarrow> (\<And>q. files t q \<noteq> None \<Longrightarrow> P q = P' q) \<Longrightarrow> clears D' P' t res"
  by (rule clears_cong0) blast+

lemma clears_ctx: "clears D P t (m t) \<Longrightarrow> clears D P t (ctx_io c m t)"
  by (auto simp: clears_def ctx_io_def)

lemma clears_on_tree:
  assumes "node_at t p = Some k" and "f (Some k) = Inr None" and "p \<noteq> []"
  shows "clears {p} (prefix p) t (on_tree f p t)"
proof -
  obtain t' where t': "on_tree f p t = (Inr (), t')" using on_tree_ok [OF assms(1), of f None] assms(2,3) by blast
  from on_tree_files [OF t'] assms(1,2) on_tree_beside [OF t'] show ?thesis
    unfolding clears_def t' by auto
qed

lemma clears_remove: "node_at t p = Some (RegFile c) \<Longrightarrow> p \<noteq> [] \<Longrightarrow> clears {p} (prefix p) t (os_remove p t)"
  unfolding os_remove_def by (rule clears_on_tree [where k = "RegFile c"]) simp_all

lemma clears_remove_all: "node_at t p = Some k \<Longrightarrow> p \<noteq> [] \<Longrightarrow> clears {p} (prefix p) t (os_remove_all p t)"
  using clears_on_tree [of t p k "\<lambda>_. Inr None"] by (simp add: os_remove_all_def lookup_node_at [symmetric])

lemma clears_ctx_ret:
  assumes "clears D P t (m t)"
  shows "clears D P t (bind_io (ctx_io c m) (\<lambda>_. ret x) t)"
proof -
  have "clears D P t (ctx_io c m t)" by (rule clears_ctx) (rule assms)
  then have "clears (D \<union> {}) (\<lambda>q. P q \<or> False) t (bind_io (ctx_io c m) (\<lambda>_. ret x) t)"
    by (rule clears_bind) simp
  then show ?thesis by simp
qed

text \<open>The place of an entry and the files that pruning a directory removes.\<close>

definition pruned_at :: "path list \<Rightarrow> path list \<Rightarrow> string list \<Rightarrow> path \<Rightarrow> path \<Rightarrow> string set \<Rightarrow> path \<Rightarrow> bool" where
  "pruned_at ef ed skip r d names q \<longleftrightarrow>
     (\<exists>name rest. name \<in> names \<and> q = r @ d @ name # rest \<and> \<not> kept_from ef ed skip d (name # rest))"

lemma pruned_at_Un: "pruned_at ef ed skip r d (A \<union> B) q \<longleftrightarrow> pruned_at ef ed skip r d A q \<or> pruned_at ef ed skip r d B q"
  by (auto simp: pruned_at_def)

lemma pruned_at_prefix: "pruned_at ef ed skip r d {name} q \<Longrightarrow> prefix (r @ d @ [name]) q"
  by (auto simp: pruned_at_def)

lemma below_iff: "prefix (r @ d @ [name]) q \<longleftrightarrow> (\<exists>rest. q = r @ d @ name # rest)"
  by (auto elim!: prefixE)

lemma files_in_listing: "files (Dir es) rest \<noteq> None \<Longrightarrow> rest \<noteq> [] \<and> hd rest \<in> fst ` set (listing es)"
proof (cases rest)
  case (Cons n rest')
  assume "files (Dir es) rest \<noteq> None"
  then obtain e where "map_of es n = Some e" using Cons by (cases "map_of es n") simp_all
  then have "(n, e) \<in> set (listing es)" by (simp add: listing_iff)
  then show ?thesis using Cons image_eqI [of n fst "(n, e)"] by simp
qed simp

lemma clears_entry:
  assumes "node_at t (r @ d @ [name]) = Some e"
    and sub: "\<And>es. e = Dir es \<Longrightarrow> \<not> shouldSkipEntry e d name skip \<Longrightarrow> d @ [name] \<in> set ed \<Longrightarrow> clears (\<Union>n \<in> fst ` set (listing es). {r @ (d @ [name]) @ [n]})
       (pruned_at ef ed skip r (d @ [name]) (fst ` set (listing es))) t (prune_entries r (d @ [name]) ef ed skip (listing es) 0 t)"
  shows "clears {r @ d @ [name]} (pruned_at ef ed skip r d {name}) t
     ((if shouldSkipEntry e d name skip then ret 0
       else case e of
          Dir es \<Rightarrow>
            if d @ [name] \<notin> set ed then
              bind_io (ctx_io (''remove '' @ join ''/'' (d @ [name])) (os_remove_all (r @ d @ [name]))) (\<lambda>_. ret 1)
            else prune_entries r (d @ [name]) ef ed skip (listing es) 0
        | RegFile c \<Rightarrow>
            if d @ [name] \<notin> set ef then
              bind_io (ctx_io (''remove '' @ join ''/'' (d @ [name])) (os_remove (r @ d @ [name]))) (\<lambda>_. ret 1)
            else ret 0) t)" (is "clears ?D ?P t ?m")
proof (cases e)
  case (RegFile c)
  have e: "node_at t (r @ d @ [name]) = Some (RegFile c)" using assms(1) RegFile by simp
  have f: "files t q \<noteq> None \<Longrightarrow> ?P q \<longleftrightarrow> prefix (r @ d @ [name]) q \<and> d @ [name] \<notin> set ef" for q
  proof -
    assume q: "files t q \<noteq> None"
    have "rest = []" if "q = r @ d @ name # rest" for rest
      using q files_below_file [OF e] that by (cases rest) auto
    then show ?thesis using kept_from_file [of ef ed skip d name] by (auto simp: pruned_at_def below_iff)
  qed
  show ?thesis
  proof (cases "d @ [name] \<in> set ef")
    case True
    then have "clears {} (\<lambda>_. False) t ?m" by (simp add: RegFile shouldSkipEntry_def is_dir_def)
    then show ?thesis by (rule clears_cong) (use f True in auto)
  next
    case False
    have "clears {r @ d @ [name]} (prefix (r @ d @ [name])) t
        (bind_io (ctx_io (''remove '' @ join ''/'' (d @ [name])) (os_remove (r @ d @ [name]))) (\<lambda>_. ret (1 :: nat)) t)"
      by (rule clears_ctx_ret, rule clears_remove [OF e]) simp
    then have "clears {r @ d @ [name]} (prefix (r @ d @ [name])) t ?m"
      using False by (simp add: RegFile shouldSkipEntry_def is_dir_def)
    then show ?thesis by (rule clears_cong) (use f False in auto)
  qed
next
  case (Dir es)
  have e: "node_at t (r @ d @ [name]) = Some (Dir es)" using assms(1) Dir by simp
  have nf: "files t q \<noteq> None \<Longrightarrow> q = r @ d @ name # rest \<Longrightarrow> rest \<noteq> [] \<and> hd rest \<in> fst ` set (listing es)" for q rest
  proof -
    assume q: "files t q \<noteq> None" "q = r @ d @ name # rest"
    have "files t ((r @ d @ [name]) @ rest) = files (Dir es) rest" unfolding files_append e by simp
    with q have "files (Dir es) rest \<noteq> None" by simp
    then show ?thesis by (rule files_in_listing)
  qed
  consider (skip) "d = [] \<and> name \<in> set skip" | (whole) "\<not> (d = [] \<and> name \<in> set skip)" "d @ [name] \<notin> set ed"
    | (sub) "\<not> (d = [] \<and> name \<in> set skip)" "d @ [name] \<in> set ed" by blast
  then show ?thesis
  proof cases
    case skip
    then have "clears {} (\<lambda>_. False) t ?m" by (simp add: Dir shouldSkipEntry_def is_dir_def)
    then show ?thesis
    proof (rule clears_cong)
      fix q assume q: "files t q \<noteq> None"
      have "kept_from ef ed skip d (name # rest)" if "q = r @ d @ name # rest" for rest
        using nf [OF q that] skip by (simp add: kept_from_def)
      then have "\<not> ?P q" unfolding pruned_at_def by blast
      then show "False = ?P q" by simp
    qed simp
  next
    case whole
    have "clears {r @ d @ [name]} (prefix (r @ d @ [name])) t
        (bind_io (ctx_io (''remove '' @ join ''/'' (d @ [name])) (os_remove_all (r @ d @ [name]))) (\<lambda>_. ret (1 :: nat)) t)"
      by (rule clears_ctx_ret, rule clears_remove_all [OF e]) simp
    then have "clears {r @ d @ [name]} (prefix (r @ d @ [name])) t ?m"
      using whole by (auto simp: Dir shouldSkipEntry_def is_dir_def)
    then show ?thesis
    proof (rule clears_cong)
      fix q assume q: "files t q \<noteq> None"
      show "prefix (r @ d @ [name]) q = ?P q"
      proof -
        have "\<not> kept_from ef ed skip d (name # rest)" if "q = r @ d @ name # rest" for rest
          using nf [OF q that] kept_from_below [of rest d name skip ef ed] whole by simp
        then show ?thesis unfolding pruned_at_def below_iff by blast
      qed
    qed simp
  next
    case sub
    have "clears (\<Union>n \<in> fst ` set (listing es). {r @ (d @ [name]) @ [n]})
       (pruned_at ef ed skip r (d @ [name]) (fst ` set (listing es))) t ?m"
    proof -
      have ns: "\<not> shouldSkipEntry e d name skip" using sub by (simp add: shouldSkipEntry_def)
      from assms(2) [OF Dir ns sub(2)] show ?thesis using ns sub by (simp add: Dir)
    qed
    then show ?thesis
    proof (rule clears_cong0)
      fix q assume "\<forall>d' \<in> {r @ d @ [name]}. \<not> prefix d' q \<and> \<not> prefix q d'"
      then show "\<forall>d' \<in> \<Union>n \<in> fst ` set (listing es). {r @ (d @ [name]) @ [n]}. \<not> prefix d' q \<and> \<not> prefix q d'"
        by (auto dest: prefix_snocD append_prefixD simp: prefix_snoc simp flip: append_assoc)
    next
      fix q assume q: "files t q \<noteq> None"
      have k: "kept_from ef ed skip d (name # rest) \<longleftrightarrow> kept_from ef ed skip (d @ [name]) rest" "rest \<noteq> []" "hd rest \<in> fst ` set (listing es)"
        if "q = r @ d @ name # rest" for rest
        using nf [OF q that] kept_from_below [of rest d name skip ef ed] sub by simp_all
      show "pruned_at ef ed skip r (d @ [name]) (fst ` set (listing es)) q = ?P q"
      proof
        assume "pruned_at ef ed skip r (d @ [name]) (fst ` set (listing es)) q"
        then obtain n rest where "q = r @ (d @ [name]) @ n # rest" "\<not> kept_from ef ed skip (d @ [name]) (n # rest)"
          unfolding pruned_at_def by blast
        with k(1) [of "n # rest"] show "?P q" unfolding pruned_at_def by simp
      next
        assume "?P q"
        then obtain rest where rest: "q = r @ d @ name # rest" "\<not> kept_from ef ed skip d (name # rest)"
          unfolding pruned_at_def by blast
        then obtain n rest' where n: "rest = n # rest'" using k(2) by (cases rest) auto
        show "pruned_at ef ed skip r (d @ [name]) (fst ` set (listing es)) q"
          unfolding pruned_at_def
          by (rule exI [of _ n], rule exI [of _ rest']) (use k(1,3) [OF rest(1)] rest n in simp)
      qed
    qed
  qed
qed

lemma prune_entries_clears:
  assumes "distinct (map fst es)" and "\<forall>x \<in> set es. node_at t (r @ d @ [fst x]) = Some (snd x)"
  shows "clears (\<Union>n \<in> fst ` set es. {r @ d @ [n]}) (pruned_at ef ed skip r d (fst ` set es)) t
     (prune_entries r d ef ed skip es n t)"
  using assms
proof (induction r d ef ed skip es n arbitrary: t rule: prune_entries.induct)
  case (1 r d ef ed skip n)
  then show ?case by (simp add: pruned_at_def)
next
  case (2 r d ef ed skip name e es n)
  have e: "node_at t (r @ d @ [name]) = Some e" using 2(4) by simp
  let ?m = "(if shouldSkipEntry e d name skip then ret 0
       else case e of
          Dir sub \<Rightarrow>
            if d @ [name] \<notin> set ed then
              bind_io (ctx_io (''remove '' @ join ''/'' (d @ [name])) (os_remove_all (r @ d @ [name]))) (\<lambda>_. ret 1)
            else prune_entries r (d @ [name]) ef ed skip (listing sub) 0
        | RegFile c \<Rightarrow>
            if d @ [name] \<notin> set ef then
              bind_io (ctx_io (''remove '' @ join ''/'' (d @ [name])) (os_remove (r @ d @ [name]))) (\<lambda>_. ret 1)
            else ret 0)"
  have head: "clears {r @ d @ [name]} (pruned_at ef ed skip r d {name}) t (?m t)"
  proof (rule clears_entry [OF e])
    fix sub assume sub: "e = Dir sub" and c: "\<not> shouldSkipEntry e d name skip" "d @ [name] \<in> set ed"
    show "clears (\<Union>n \<in> fst ` set (listing sub). {r @ (d @ [name]) @ [n]})
       (pruned_at ef ed skip r (d @ [name]) (fst ` set (listing sub))) t (prune_entries r (d @ [name]) ef ed skip (listing sub) 0 t)"
    proof (rule "2.IH"(1))
        show "\<forall>x \<in> set (listing sub). node_at t (r @ (d @ [name]) @ [fst x]) = Some (snd x)"
        proof
          fix x assume "x \<in> set (listing sub)"
          then have "map_of sub (fst x) = Some (snd x)" using listing_iff [of "fst x" "snd x" sub] by simp
          moreover have "node_at t ((r @ d @ [name]) @ [fst x]) = node_at (Dir sub) [fst x]"
            using e sub node_at_append [of t "r @ d @ [name]" "[fst x]"] by simp
          ultimately show "node_at t (r @ (d @ [name]) @ [fst x]) = Some (snd x)" by simp
        qed
    qed (use c sub distinct_listing in auto)
  qed
  have "clears ({r @ d @ [name]} \<union> (\<Union>n \<in> fst ` set es. {r @ d @ [n]}))
     (\<lambda>q. pruned_at ef ed skip r d {name} q \<or> pruned_at ef ed skip r d (fst ` set es) q) t
     (bind_io ?m (\<lambda>k. prune_entries r d ef ed skip es (n + k)) t)"
  proof (rule clears_bind [where m = ?m, OF head])
    fix k t1 assume m: "?m t = (Inr k, t1)"
    show "clears (\<Union>n \<in> fst ` set es. {r @ d @ [n]}) (pruned_at ef ed skip r d (fst ` set es)) t1
      (prune_entries r d ef ed skip es (n + k) t1)"
    proof (rule "2.IH"(2))
      show "distinct (map fst es)" using 2(3) by simp
      show "\<forall>x \<in> set es. node_at t1 (r @ d @ [fst x]) = Some (snd x)"
      proof
        fix x assume x: "x \<in> set es"
        then have "fst x \<noteq> name" using 2(3) by auto
        then have "\<not> prefix (r @ d @ [name]) (r @ d @ [fst x])" "\<not> prefix (r @ d @ [fst x]) (r @ d @ [name])" by simp_all
        with head m have "node_at t1 (r @ d @ [fst x]) = node_at t (r @ d @ [fst x])" by (simp add: clears_def)
        with 2(4) x show "node_at t1 (r @ d @ [fst x]) = Some (snd x)" by simp
      qed
    qed
  qed
  then show ?case
    by (simp add: pruned_at_Un [of ef ed skip r d "{name}" "fst ` set es", simplified, symmetric] fun_eq_iff)
qed

lemma pruneManagedSubtree_clears:
  assumes "node_at t r = Some (Dir es)"
  shows "clears {r} (\<lambda>q. \<exists>rel. q = r @ rel \<and> \<not> kept_from ef ed skip [] rel) t (pruneManagedSubtree r ef ed skip t)"
proof -
  have n: "\<forall>x \<in> set (listing es). node_at t (r @ [] @ [fst x]) = Some (snd x)"
  proof
    fix x assume "x \<in> set (listing es)"
    then have "map_of es (fst x) = Some (snd x)" using listing_iff [of "fst x" "snd x" es] by simp
    then show "node_at t (r @ [] @ [fst x]) = Some (snd x)" using assms by (simp add: node_at_append)
  qed
  have "pruneManagedSubtree r ef ed skip t = prune_entries r [] ef ed skip (listing es) 0 t"
    using assms by (simp add: pruneManagedSubtree_def try_io_def os_read_dir_def lookup_node_at [symmetric])
  with prune_entries_clears [OF distinct_listing n]
  have "clears (\<Union>n \<in> fst ` set (listing es). {r @ [] @ [n]}) (pruned_at ef ed skip r [] (fst ` set (listing es))) t
     (pruneManagedSubtree r ef ed skip t)" by metis
  then show ?thesis
  proof (rule clears_cong0)
    fix q assume "\<forall>d \<in> {r}. \<not> prefix d q \<and> \<not> prefix q d"
    then show "\<forall>d \<in> \<Union>n \<in> fst ` set (listing es). {r @ [] @ [n]}. \<not> prefix d q \<and> \<not> prefix q d"
      by (auto dest: append_prefixD simp: prefix_snoc)
  next
    fix q assume q: "files t q \<noteq> None"
    have "rel \<noteq> [] \<and> hd rel \<in> fst ` set (listing es)" if "q = r @ rel" for rel
      by (rule files_in_listing) (use q that assms in \<open>simp add: files_append\<close>)
    then show "pruned_at ef ed skip r [] (fst ` set (listing es)) q = (\<exists>rel. q = r @ rel \<and> \<not> kept_from ef ed skip [] rel)"
      unfolding pruned_at_def by (metis append_Nil list.collapse list.sel(1))
  qed
qed

text \<open>The specification: what is kept of a subtree.\<close>

definition kept :: "path list \<Rightarrow> path list \<Rightarrow> string list \<Rightarrow> path \<Rightarrow> bool" where
  "kept expectedFiles expectedDirs skip rel \<longleftrightarrow>
     tl rel \<noteq> [] \<and> hd rel \<in> set skip \<or>
     rel \<in> set expectedFiles \<and> list_all (\<lambda>i. take i rel \<in> set expectedDirs) [1..<length rel]"

lemma kept_from_Nil: "kept_from ef ed skip [] rel \<longleftrightarrow> kept ef ed skip rel"
  by (auto simp: kept_from_def kept_def list_all_iff Suc_le_eq)

lemma pruneManagedSubtree_exact0:
  assumes "node_at t r = Some (Dir es)"
  shows "\<exists>n t'. pruneManagedSubtree r expectedFiles expectedDirs skip t = (Inr n, t') \<and>
     (\<forall>rel. files t' (r @ rel) = (if kept expectedFiles expectedDirs skip rel then files t (r @ rel) else None)) \<and>
     (\<forall>q. \<not> prefix r q \<longrightarrow> files t' q = files t q)"
proof -
  from pruneManagedSubtree_clears [OF assms, of expectedFiles expectedDirs skip] obtain n t' where
    m: "pruneManagedSubtree r expectedFiles expectedDirs skip t = (Inr n, t')"
    "\<And>q. files t' q = (if \<exists>rel. q = r @ rel \<and> \<not> kept_from expectedFiles expectedDirs skip [] rel then None else files t q)"
    unfolding clears_def by blast
  have "files t' (r @ rel) = (if kept expectedFiles expectedDirs skip rel then files t (r @ rel) else None)" for rel
    using m(2) by (simp add: kept_from_Nil)
  moreover have "files t' q = files t q" if "\<not> prefix r q" for q
    using m(2) [of q] that by (auto simp: prefix_def)
  ultimately show ?thesis using m(1) by blast
qed

text \<open>Pruning a managed subtree always succeeds on a directory, and it removes exactly the files that are not expected: a
  file of the subtree stays if and only if it is in the expected set and every directory on the way to it is in the set of
  expected directories, or if it is inside a top-level directory that is skipped. Nothing outside the subtree changes.\<close>

theorem pruneManagedSubtree_exact:
  assumes "node_at t r = Some (Dir es)"
  shows "\<exists>n t'. pruneManagedSubtree r expectedFiles expectedDirs skip t = (Inr n, t') \<and>
     (\<forall>rel. files t' (r @ rel) = (if kept expectedFiles expectedDirs skip rel then files t (r @ rel) else None)) \<and>
     (\<forall>q. \<not> prefix r q \<longrightarrow> files t' q = files t q)"
  using assms by (rule pruneManagedSubtree_exact0)

theorem pruneManagedSubtree_exact_witness:
  "\<exists>n t'. pruneManagedSubtree [''s''] [[''a'', ''SKILL.md'']] [[''a'']] [''agents'']
       (Dir [(''s'', Dir [(''a'', Dir [(''SKILL.md'', RegFile ''x''), (''old.md'', RegFile ''y'')]),
                          (''agents'', Dir [(''r.md'', RegFile ''z'')])])]) = (Inr n, t') \<and>
     files t' [''s'', ''a'', ''old.md''] = None \<and> files t' [''s'', ''agents'', ''r.md''] = Some ''z''"
proof -
  let ?es = "[(''a'', Dir [(''SKILL.md'', RegFile ''x''), (''old.md'', RegFile ''y'')]), (''agents'', Dir [(''r.md'', RegFile ''z'')])]"
  let ?t = "Dir [(''s'', Dir ?es)]"
  from pruneManagedSubtree_exact [of ?t "[''s'']" ?es "[[''a'', ''SKILL.md'']]" "[[''a'']]" "[''agents'']"]
  obtain n t' where
    r: "pruneManagedSubtree [''s''] [[''a'', ''SKILL.md'']] [[''a'']] [''agents''] ?t = (Inr n, t')" and
    f: "\<And>rel. files t' ([''s''] @ rel) =
        (if kept [[''a'', ''SKILL.md'']] [[''a'']] [''agents''] rel then files ?t ([''s''] @ rel) else None)" by auto
  show ?thesis
  proof (intro exI conjI)
    show "files t' [''s'', ''a'', ''old.md''] = None" using f [of "[''a'', ''old.md'']"] by (simp add: kept_def)
    show "files t' [''s'', ''agents'', ''r.md''] = Some ''z''" using f [of "[''agents'', ''r.md'']"] by (simp add: kept_def)
  qed (rule r)
qed

subsection \<open>Installing and pruning a group\<close>

lemma try_io_Inr: "try_io m f t = (Inr y, t') \<Longrightarrow>
   (\<exists>x t1. m t = (Inr x, t1) \<and> f (Inr x) t1 = (Inr y, t')) \<or> (\<exists>e t1. m t = (Inl e, t1) \<and> f (Inl e) t1 = (Inr y, t'))"
  by (auto simp: try_io_def split: prod.splits sum.splits if_splits)

lemma os_read_file_Inr: "os_read_file p t = (Inr c, t') \<Longrightarrow> t' = t \<and> files t p = Some c"
  by (auto simp: os_read_file_def files_iff lookup_node_at split: sum.splits node.splits)

lemma os_read_file_Inl: "os_read_file p t = (Inl e, t') \<Longrightarrow> t' = t \<and> files t p = None"
  by (auto simp: os_read_file_def files_iff lookup_node_at lookup_ENOENT_files split: sum.splits node.splits)
    (simp add: files_def node_at_def)

lemma reconcileFile_files:
  assumes "reconcileFile p c t = (Inr cu, t')"
  shows "files t' = (files t)(p \<mapsto> c)"
  using try_io_Inr [OF assms [unfolded reconcileFile_def]]
proof (elim disjE exE conjE)
  fix old t1 assume r: "os_read_file p t = (Inr old, t1)"
    and w: "(case Inr old of Inl e \<Rightarrow> if is_not_exist e
        then bind_io (ctx_io (''write '' @ show_path p) (os_write_file p c)) (\<lambda>_. ret (True, False))
        else fail (Ctx (''read '' @ show_path p) e)
      | Inr existing \<Rightarrow> if existing \<noteq> c then bind_io (ctx_io (''write '' @ show_path p) (os_write_file p c)) (\<lambda>_. ret (False, True))
        else ret (False, False)) t1 = (Inr cu, t')"
  have r': "t1 = t" "files t p = Some old" using os_read_file_Inr [OF r] by simp_all
  show ?thesis
  proof (cases "old = c")
    case True
    then show ?thesis using w r' by (auto simp: ret_def)
  next
    case False
    then show ?thesis using w r' by (auto simp: bind_io_Inr ctx_io_Inr ret_def dest: os_write_file_files)
  qed
next
  fix e t1 assume r: "os_read_file p t = (Inl e, t1)"
    and w: "(case Inl e of Inl e \<Rightarrow> if is_not_exist e
        then bind_io (ctx_io (''write '' @ show_path p) (os_write_file p c)) (\<lambda>_. ret (True, False))
        else fail (Ctx (''read '' @ show_path p) e)
      | Inr existing \<Rightarrow> if existing \<noteq> c then bind_io (ctx_io (''write '' @ show_path p) (os_write_file p c)) (\<lambda>_. ret (False, True))
        else ret (False, False)) t1 = (Inr cu, t')"
  have r': "t1 = t" using os_read_file_Inl [OF r] by simp
  show ?thesis
    using w r' by (cases "is_not_exist e") (auto simp: bind_io_Inr ctx_io_Inr ret_def fail_def dest: os_write_file_files)
qed

lemma writeSkillFile_files: "writeSkillFile p c t = (Inr cu, t') \<Longrightarrow> files t' = (files t)(p \<mapsto> c)"
  unfolding writeSkillFile_def bind_io_Inr ctx_io_Inr
  by (auto dest!: os_mkdir_all_files reconcileFile_files)

text \<open>Writing a list of files with different paths.\<close>

lemma count_files_files:
  assumes "count_files write kvs a b t = (Inr n, t')"
    and "\<And>kv cu t t'. kv \<in> set kvs \<Longrightarrow> write kv t = (Inr cu, t') \<Longrightarrow> files t' = (files t)(g kv \<mapsto> h kv)"
    and "inj_on g (set kvs)"
  shows "q \<notin> g ` set kvs \<Longrightarrow> files t' q = files t q" and "kv \<in> set kvs \<Longrightarrow> files t' (g kv) = Some (h kv)"
proof -
  have *: "(\<forall>kv \<in> set kvs. files t' (g kv) = Some (h kv)) \<and> (q \<notin> g ` set kvs \<longrightarrow> files t' q = files t q)" for q
    using assms
  proof (induction kvs arbitrary: a b t q)
    case Nil
    then show ?case by (simp add: ret_def)
  next
    case (Cons kv kvs)
    from Cons.prems(1) obtain c u t1 a' b' where 1: "write kv t = (Inr (c, u), t1)" "count_files write kvs a' b' t1 = (Inr n, t')"
      by (auto simp: bind_io_Inr)
    have f1: "files t1 = (files t)(g kv \<mapsto> h kv)" by (rule Cons.prems(2) [OF list.set_intros(1) 1(1)])
    have i: "inj_on g (set kvs)" using Cons.prems(3) by simp
    have IH: "(\<forall>kv \<in> set kvs. files t' (g kv) = Some (h kv)) \<and> (r \<notin> g ` set kvs \<longrightarrow> files t' r = files t1 r)" for r
      by (rule Cons.IH [OF 1(2) _ i]) (use Cons.prems(2) in auto)
    have "files t' (g kv) = Some (h kv)"
    proof (cases "g kv \<in> g ` set kvs")
      case True
      then have "kv \<in> set kvs" using Cons.prems(3) by (auto simp: inj_on_def)
      then show ?thesis using IH by blast
    next
      case False
      then show ?thesis using IH [of "g kv"] f1 by simp
    qed
    then show ?case using IH [of q] f1 by auto
  qed
  show "kv \<in> set kvs \<Longrightarrow> files t' (g kv) = Some (h kv)" using * by blast
  show "q \<notin> g ` set kvs \<Longrightarrow> files t' q = files t q" using * by blast
qed

lemma gomap_ok_put_all [simp]: "gomap_ok (put_all kvs)"
proof -
  have "gomap_ok m \<Longrightarrow> gomap_ok (foldl (\<lambda>m (k, v). AList.update k v m) m kvs)" for m :: "('a \<times> 'b) list"
    by (induction kvs arbitrary: m) (auto split: prod.splits)
  then show ?thesis by (simp add: put_all_def)
qed

lemma rel_path_inj: "rel_path a = rel_path b \<Longrightarrow> a = b"
  unfolding rel_path_def by (metis join_split_on)

lemma rel_path_nonempty [simp]: "rel_path a \<noteq> []"
  by (simp add: rel_path_def)

lemma pruneManagedSubtree_Inr:
  assumes "pruneManagedSubtree r ef ed skip t = (Inr n, t')"
  shows "files t' (r @ rel) = (if kept ef ed skip rel then files t (r @ rel) else None)"
proof (cases "\<exists>es. node_at t r = Some (Dir es)")
  case True
  then obtain es where "node_at t r = Some (Dir es)" by blast
  from pruneManagedSubtree_exact0 [OF this, of ef ed skip] show ?thesis using assms by auto
next
  case False
  then have "lookup_path r t = Inl ENOENT \<and> t' = t"
    using assms by (cases "lookup_path r t")
      (auto simp: pruneManagedSubtree_def try_io_def os_read_dir_def ret_def fail_def is_panic_def lookup_node_at split: node.splits if_splits)
  then show ?thesis by (simp add: files_append node_at_def)
qed

lemma kept_reference: "kept (reference_paths m) (reference_dirs m) [] rel \<longleftrightarrow> (\<exists>k \<in> fst ` set m. rel = rel_path k)"
proof -
  have p: "rel \<in> set (reference_paths m) \<longleftrightarrow> (\<exists>k \<in> fst ` set m. rel = rel_path k)"
    by (auto simp: reference_paths_def split_def)
  have d: "take i rel \<in> set (reference_dirs m)" if "rel \<in> set (reference_paths m)" "1 \<le> i" "i < length rel" for i
  proof -
    note t = that
    obtain kv where kv: "kv \<in> set m" "rel = rel_path (fst kv)" using t(1) by (auto simp: reference_paths_def)
    then have "take i rel \<in> set (dirs_above (rel_path (fst kv)))" using t(2,3) by (auto simp: dirs_above_def)
    then show ?thesis using kv(1) by (auto simp: reference_dirs_def split_def)
  qed
  have "kept (reference_paths m) (reference_dirs m) [] rel \<longleftrightarrow> rel \<in> set (reference_paths m)"
    using d by (auto simp: kept_def list_all_iff)
  then show ?thesis using p by blast
qed

text \<open>A full installation keeps the research documents a mirror of the embedded ones. After installing them, in whatever
  order the map is ranged over, and pruning, the files below docs/compound/research are exactly the embedded documents,
  each with its embedded content: nothing is missing, outdated or left over from an older version.\<close>

theorem research_mirror:
  assumes "mset (tp_range tp (ResearchDocs tp)) = mset (ResearchDocs tp)"
    and "InstallResearchDocs tp repoRoot t = (Inr cu, t1)"
    and "pruneResearchInternals tp (research_dir repoRoot) t1 = (Inr n, t2)"
  shows "files t2 (research_dir repoRoot @ rel) = Some c \<longleftrightarrow>
     (\<exists>k. map_of (ResearchDocs tp) k = Some c \<and> rel = rel_path k)"
proof -
  let ?m = "ResearchDocs tp" and ?kvs = "tp_range tp (ResearchDocs tp)" and ?r = "research_dir repoRoot"
  let ?g = "\<lambda>kv :: string \<times> string. ?r @ rel_path (fst kv)"
  have ok: "gomap_ok ?m" by (simp add: ResearchDocs_def)
  have s: "set ?kvs = set ?m" using assms(1) by (rule mset_eq_setD)
  have i: "inj_on ?g (set ?kvs)"
    unfolding s using ok by (auto intro!: inj_onI dest!: rel_path_inj simp: eq_key_imp_eq_value)
  obtain t0 where c0: "count_files (\<lambda>(relPath, content). writeSkillFile (?r @ rel_path relPath) content) ?kvs 0 0 t0 = (Inr cu, t1)"
    using assms(2) by (auto simp: InstallResearchDocs_def Let_def bind_io_Inr research_dir_def)
  have written: "files t1 (?r @ rel_path (fst kv)) = Some (snd kv)" if "kv \<in> set ?kvs" for kv
    by (rule count_files_files(2) [OF c0 _ i that]) (auto dest: writeSkillFile_files)
  have k: "kept (reference_paths ?m) (reference_dirs ?m) [] rel \<longleftrightarrow> (\<exists>kv \<in> set ?m. rel = rel_path (fst kv))"
    using kept_reference by auto
  have f2: "files t2 (?r @ rel) = (if kept (reference_paths ?m) (reference_dirs ?m) [] rel then files t1 (?r @ rel) else None)"
    using assms(3) unfolding pruneResearchInternals_def by (rule pruneManagedSubtree_Inr)
  show ?thesis
  proof
    assume "files t2 (?r @ rel) = Some c"
    then obtain kv where kv: "kv \<in> set ?m" "rel = rel_path (fst kv)" "files t1 (?r @ rel) = Some c"
      using f2 k by (auto split: if_splits)
    with written [of kv] s have "snd kv = c" by simp
    then have "map_of ?m (fst kv) = Some c" using kv(1) ok by (simp add: map_of_eq_Some_iff) (metis prod.collapse)
    with kv(2) show "\<exists>k. map_of ?m k = Some c \<and> rel = rel_path k" by blast
  next
    assume "\<exists>k. map_of ?m k = Some c \<and> rel = rel_path k"
    then obtain key where key: "(key, c) \<in> set ?m" "rel = rel_path key" by (auto dest: map_of_SomeD)
    then have "files t2 (?r @ rel) = files t1 (?r @ rel)" using f2 k by force
    then show "files t2 (?r @ rel) = Some c" using written [of "(key, c)"] key s by simp
  qed
qed

text \<open>Templates for the witnesses.\<close>

definition sample_tp :: templates where
  "sample_tp = \<lparr>tp_agentsFS = Dir [(''agents'', Dir [(''a.md'', RegFile ''agent'')])], tp_commandsFS = Dir [], tp_skillsFS = Dir [],
     tp_agentRoleSkillsFS = Dir [], tp_docsFS = Dir [],
     tp_researchFS = Dir [(''docs'', Dir [(''research'', Dir [(''ai'', Dir [(''x.md'', RegFile ''new'')])])])],
     tp_agentsMd = AgentsSectionStartMarker @ (nl @ CompoundAgentSectionHeader @ nl) @ AgentsSectionEndMarker @ nl,
     tp_claudeMd = [], tp_plugin = [], tp_gooseHooks = [], tp_gooseHints = [], tp_gooseRecipe = [], tp_gooseReview = [],
     tp_gooseSub = [], tp_codex = [], tp_agy = [], tp_range = (\<lambda>m. m), tp_version = ''1'', tp_date = ''2026-01-01'',
     tp_home = None, tp_float = (\<lambda>s. s)\<rparr>"

lemma sample_research:
  "InstallResearchDocs sample_tp [] (Dir [(''docs'', Dir [(''compound'', Dir [(''research'', Dir [(''ai'', Dir [(''y.md'', RegFile ''old'')])])])])])
     = (Inr (1, 0), Dir [(''docs'', Dir [(''compound'', Dir [(''research'', Dir [(''ai'', Dir [(''y.md'', RegFile ''old''), (''x.md'', RegFile ''new'')])])])])])"
  "fst (pruneResearchInternals sample_tp (research_dir []) (Dir [(''docs'', Dir [(''compound'', Dir [(''research'',
       Dir [(''ai'', Dir [(''y.md'', RegFile ''old''), (''x.md'', RegFile ''new'')])])])])])) = Inr 1"
  by code_simp+

theorem research_mirror_witness:
  "\<exists>t1 t2. InstallResearchDocs sample_tp [] (Dir [(''docs'', Dir [(''compound'', Dir [(''research'',
        Dir [(''ai'', Dir [(''y.md'', RegFile ''old'')])])])])]) = (Inr (1, 0), t1) \<and>
     pruneResearchInternals sample_tp (research_dir []) t1 = (Inr 1, t2) \<and>
     (files t2 (research_dir [] @ [''ai'', ''y.md'']) = Some ''old'' \<longleftrightarrow>
        (\<exists>k. map_of (ResearchDocs sample_tp) k = Some ''old'' \<and> [''ai'', ''y.md''] = rel_path k))"
proof -
  let ?t1 = "Dir [(''docs'', Dir [(''compound'', Dir [(''research'', Dir [(''ai'', Dir [(''y.md'', RegFile ''old''), (''x.md'', RegFile ''new'')])])])])]"
  obtain t2 where t2: "pruneResearchInternals sample_tp (research_dir []) ?t1 = (Inr 1, t2)"
    using sample_research(2) by (cases "pruneResearchInternals sample_tp (research_dir []) ?t1") simp
  have "mset (tp_range sample_tp (ResearchDocs sample_tp)) = mset (ResearchDocs sample_tp)" by (simp add: sample_tp_def)
  from research_mirror [OF this sample_research(1) t2] sample_research(1) t2 show ?thesis by blast
qed

subsection \<open>The minimal profile never settles\<close>

lemma touches_prune_files: "touches (prefix d) (prune_files d expected es n)"
proof (induction es arbitrary: n)
  case (Cons x es)
  obtain name e where x: "x = (name, e)" by (cases x)
  show ?case unfolding x by (simp, intro conjI impI frame Cons.IH) auto
qed (simp add: frame)

lemma touches_pruneStaleFiles: "touches (prefix d) (pruneStaleFiles d expected)"
  unfolding pruneStaleFiles_def by (intro frame touches_prune_files)

lemma touches_pruneManagedSubtree: "touches (prefix r) (pruneManagedSubtree r ef ed skip)"
  unfolding touches_def
proof (intro allI impI)
  fix t res t' q assume m: "pruneManagedSubtree r ef ed skip t = (res, t')" and q: "\<not> prefix r q"
  show "files t' q = files t q"
  proof (cases "\<exists>es. node_at t r = Some (Dir es)")
    case True
    then obtain es where "node_at t r = Some (Dir es)" by blast
    from pruneManagedSubtree_exact0 [OF this, of ef ed skip] show ?thesis using m q by auto
  next
    case False
    then have "t' = t"
      using m by (cases "lookup_path r t")
        (auto simp: pruneManagedSubtree_def try_io_def os_read_dir_def ret_def fail_def is_panic_def lookup_node_at split: node.splits if_splits)
    then show ?thesis by simp
  qed
qed

lemma touches_prune_subdirs:
  "(\<And>x. x \<in> set es \<Longrightarrow> is_dir (snd x) \<Longrightarrow> fst x \<noteq> nm) \<Longrightarrow> touches (\<lambda>q. q \<noteq> d @ [nm]) (prune_subdirs d expected skip es n)"
proof (induction es arbitrary: n)
  case (Cons x es)
  obtain name e where x: "x = (name, e)" by (cases x)
  have IH: "touches (\<lambda>q. q \<noteq> d @ [nm]) (prune_subdirs d expected skip es k)" for k
    by (rule Cons.IH) (use Cons.prems in auto)
  show ?case
  proof (cases "is_dir e")
    case True
    then have "name \<noteq> nm" using Cons.prems [of x] x by simp
    then show ?thesis unfolding x by (simp, intro conjI impI frame IH) auto
  next
    case False
    then show ?thesis unfolding x by (simp add: IH)
  qed
qed (simp add: frame)

lemma pruneStaleSubdirs_keeps:
  assumes "pruneStaleSubdirs d expected skip t = (r, t')" and "files t (d @ [nm]) = Some c"
  shows "files t' (d @ [nm]) = Some c"
proof -
  obtain es where es: "node_at t d = Some (Dir es)" "map_of es nm = Some (RegFile c)"
  proof -
    have n: "node_at t (d @ [nm]) = Some (RegFile c)" using assms(2) by (simp add: files_iff)
    then obtain m where m: "node_at t d = Some m" "node_at m [nm] = Some (RegFile c)"
      by (auto simp: node_at_append Option.bind_eq_Some_conv)
    then obtain es where "m = Dir es" by (cases m) simp_all
    then show ?thesis using that m by (auto simp: Option.bind_eq_Some_conv)
  qed
  have eq: "pruneStaleSubdirs d expected skip t = prune_subdirs d (map fst expected) skip (listing es) 0 t"
    using es(1) by (simp add: pruneStaleSubdirs_def try_io_def os_read_dir_def lookup_node_at [symmetric])
  have tch: "touches (\<lambda>q. q \<noteq> d @ [nm]) (prune_subdirs d (map fst expected) skip (listing es) 0)"
  proof (rule touches_prune_subdirs)
    fix x assume x: "x \<in> set (listing es)" "is_dir (snd x)"
    then have "map_of es (fst x) = Some (snd x)" using listing_iff [of "fst x" "snd x" es] by simp
    then show "fst x \<noteq> nm" using es(2) x(2) by (cases "snd x") (auto simp: is_dir_def)
  qed
  show ?thesis using touchesD [OF tch, of t r t' "d @ [nm]"] assms eq by simp
qed

text \<open>A computation that keeps a file's content, whether it succeeds or fails.\<close>

definition keeps_file :: "path \<Rightarrow> 'a io \<Rightarrow> bool" where
  "keeps_file p m \<longleftrightarrow> (\<forall>t r t' c. m t = (r, t') \<longrightarrow> files t p = Some c \<longrightarrow> files t' p = Some c)"

lemma keeps_fileD: "keeps_file p m \<Longrightarrow> m t = (r, t') \<Longrightarrow> files t p = Some c \<Longrightarrow> files t' p = Some c"
  unfolding keeps_file_def by blast

lemma keeps_touches: "touches P m \<Longrightarrow> \<not> P p \<Longrightarrow> keeps_file p m"
  unfolding keeps_file_def touches_def by metis

lemma keeps_bind: "keeps_file p m \<Longrightarrow> (\<And>x. keeps_file p (f x)) \<Longrightarrow> keeps_file p (bind_io m f)"
  unfolding keeps_file_def bind_io_def by (auto split: prod.splits sum.splits)

lemma keeps_ctx: "keeps_file p m \<Longrightarrow> keeps_file p (ctx_io c m)"
  unfolding keeps_file_def ctx_io_def by (auto split: prod.splits sum.splits)

lemma keeps_ret: "keeps_file p (ret x)" and keeps_fail: "keeps_file p (fail e)"
  by (simp_all add: keeps_file_def ret_def fail_def)

lemma keeps_prune_steps: "(\<And>s. s \<in> set steps \<Longrightarrow> keeps_file p s) \<Longrightarrow> keeps_file p (prune_steps steps n)"
proof (induction steps arbitrary: n)
  case (Cons s steps)
  have "keeps_file p (prune_steps steps k)" for k by (rule Cons.IH) (use Cons.prems in simp)
  then show ?case using Cons.prems [of s] by (simp add: keeps_bind)
qed (simp add: keeps_ret)

lemma profile_simps: "rank_of ProfileMinimal = 0" "rank_of ProfileWorkflow = 1" "rank_of ProfileFull = 2"
  "ProfileMinimal \<noteq> ProfileFull" "ProfileMinimal \<noteq> ProfileWorkflow" "ProfileWorkflow \<noteq> ProfileFull"
  by (simp_all add: rank_of_def profileRank_def profile_defs)

abbreviation index_file :: "path \<Rightarrow> path" where
  "index_file repoRoot \<equiv> skills_dir repoRoot @ [''skills_index.json'']"

lemma index_beside:
  "\<not> prefix (repoRoot @ [''.claude'', ''agents'', ''compound'']) (index_file repoRoot)"
  "\<not> prefix (repoRoot @ [''.claude'', ''commands'', ''compound'']) (index_file repoRoot)"
  "\<not> prefix (repoRoot @ [''docs'', ''compound'']) (index_file repoRoot)"
  "\<not> prefix (research_dir repoRoot) (index_file repoRoot)"
  "\<not> prefix (roles_dir repoRoot) (index_file repoRoot)"
  "repoRoot @ [''AGENTS.md''] \<noteq> index_file repoRoot"
  "repoRoot @ [''.claude'', ''CLAUDE.md''] \<noteq> index_file repoRoot"
  "repoRoot @ [''.claude'', ''plugin.json''] \<noteq> index_file repoRoot"
  by (simp_all add: skills_dir_def research_dir_def roles_dir_def)

lemma minimal_prune_keeps: "keeps_file (index_file repoRoot) (PruneForProfile tp repoRoot ProfileMinimal)"
proof -
  let ?p = "index_file repoRoot"
  have flat: "keeps_file ?p (pruneStaleFiles d ex)" if "d \<in> {repoRoot @ [''.claude'', ''agents'', ''compound''],
      repoRoot @ [''.claude'', ''commands'', ''compound''], repoRoot @ [''docs'', ''compound'']}" for d ex
    using that index_beside by (intro keeps_touches [OF touches_pruneStaleFiles]) auto
  have research: "keeps_file ?p (pruneResearchForProfile tp (research_dir repoRoot) ProfileMinimal)"
  proof (rule keeps_touches [of "prefix (research_dir repoRoot)"])
    show "touches (prefix (research_dir repoRoot)) (pruneResearchForProfile tp (research_dir repoRoot) ProfileMinimal)"
      unfolding pruneResearchForProfile_def pruneResearchInternals_def
      by (intro frame touches_pruneManagedSubtree)
  qed (rule index_beside)
  have subdirs: "keeps_file ?p (pruneStaleSubdirs (skills_dir repoRoot) ex sk)" for ex sk
    unfolding keeps_file_def using pruneStaleSubdirs_keeps by blast
  have skills: "keeps_file ?p (prunePhaseSkillInternalsForProfile tp (skills_dir repoRoot) ProfileMinimal)"
    unfolding keeps_file_def
  proof (intro allI impI)
    fix t r t' c
    assume m: "prunePhaseSkillInternalsForProfile tp (skills_dir repoRoot) ProfileMinimal t = (r, t')" and f: "files t ?p = Some c"
    have m': "pruneManagedSubtree (skills_dir repoRoot) [[''skills_index.json'']] [] [''agents''] t = (r, t')"
      using m by (simp add: prunePhaseSkillInternalsForProfile_def profileIncludes_def profile_simps)
    obtain es where "node_at t (skills_dir repoRoot) = Some (Dir es)"
    proof -
      have n: "node_at t ?p = Some (RegFile c)" using f by (simp add: files_iff)
      then obtain k where k: "node_at t (skills_dir repoRoot) = Some k" "node_at k [''skills_index.json''] = Some (RegFile c)"
        by (auto simp: node_at_append Option.bind_eq_Some_conv)
      then show ?thesis using that by (cases k) simp_all
    qed
    from pruneManagedSubtree_exact0 [OF this, of "[[''skills_index.json'']]" "[]" "[''agents'']"] m' f
    show "files t' ?p = Some c" by (auto simp: kept_def)
  qed
  have "keeps_file ?p (pruneStaleSubdirs (roles_dir repoRoot) ex sk)" for ex sk
  proof (rule keeps_touches [of "prefix (roles_dir repoRoot)"])
    have "touches (prefix d) (prune_subdirs d a sk es n)" for d a es n
    proof (induction es arbitrary: n)
      case (Cons x es)
      obtain name e where x: "x = (name, e)" by (cases x)
      show ?case unfolding x by (simp, intro conjI impI frame Cons.IH) (auto dest: append_prefixD)
    qed (simp add: frame)
    then show "touches (prefix (roles_dir repoRoot)) (pruneStaleSubdirs (roles_dir repoRoot) ex sk)"
      unfolding pruneStaleSubdirs_def by (intro frame)
  qed (rule index_beside)
  moreover have "keeps_file ?p (pruneAgentRoleSkillInternalsForProfile tp (roles_dir repoRoot) ProfileMinimal)"
  proof (rule keeps_touches [of "prefix (roles_dir repoRoot)"])
    show "touches (prefix (roles_dir repoRoot)) (pruneAgentRoleSkillInternalsForProfile tp (roles_dir repoRoot) ProfileMinimal)"
      unfolding pruneAgentRoleSkillInternalsForProfile_def pruneAgentRoleSkillInternals_def
      by (intro frame touches_pruneManagedSubtree)
  qed (rule index_beside)
  ultimately show ?thesis
    unfolding PruneForProfile_def pruneStepsForProfile_def flat_dirs_def
    by (simp add: profile_simps del: prune_steps.simps, intro keeps_prune_steps)
      (auto simp del: prune_steps.simps intro: flat research subdirs skills)
qed

lemma shared_keep:
  "keeps_file (index_file repoRoot) (UpdateAgentsMd tp repoRoot)"
  "keeps_file (index_file repoRoot) (EnsureClaudeMdReference tp repoRoot)"
  "keeps_file (index_file repoRoot) (CreatePluginManifest tp repoRoot v)"
proof -
  have 1: "touches (\<lambda>q. q \<noteq> index_file repoRoot) (UpdateAgentsMd tp repoRoot)"
    unfolding UpdateAgentsMd_def Let_def by (intro frame index_beside)
  have 2: "touches (\<lambda>q. q \<noteq> index_file repoRoot) (EnsureClaudeMdReference tp repoRoot)"
    unfolding EnsureClaudeMdReference_def Let_def
    by (intro frame) (use index_beside(7) [of repoRoot] in simp_all)
  have 3: "touches (\<lambda>q. q \<noteq> index_file repoRoot) (CreatePluginManifest tp repoRoot v)"
    unfolding CreatePluginManifest_def Let_def by (intro frame index_beside)
  show "keeps_file (index_file repoRoot) (UpdateAgentsMd tp repoRoot)"
    "keeps_file (index_file repoRoot) (EnsureClaudeMdReference tp repoRoot)"
    "keeps_file (index_file repoRoot) (CreatePluginManifest tp repoRoot v)"
    by (rule keeps_touches [OF 1] keeps_touches [OF 2] keeps_touches [OF 3]; simp)+
qed

lemma detect_index:
  assumes "files t (index_file repoRoot) = Some c"
  obtains stale where "detectOutOfProfileTemplates repoRoot ProfileMinimal t = (Inr stale, t)"
    and "''.claude/skills/compound'' \<in> set stale"
proof -
  have n: "node_at t (index_file repoRoot) = Some (RegFile c)" using assms by (simp add: files_iff)
  then obtain k where k: "node_at t (skills_dir repoRoot) = Some k" "node_at k [''skills_index.json''] = Some (RegFile c)"
    by (auto simp: node_at_append Option.bind_eq_Some_conv)
  then obtain es where "k = Dir es" "(''skills_index.json'', RegFile c) \<in> set es"
    by (cases k) (auto simp: Option.bind_eq_Some_conv dest: map_of_SomeD)
  with k(1) have "dirHasAnyFile t (skills_dir repoRoot)"
    by (auto simp: dirHasAnyFile_def is_dir_def list_ex_iff intro!: bexI [of _ "(''skills_index.json'', RegFile c)"])
  then have "dirHasAnyFile t (repoRoot @ rel_path ''.claude/skills/compound'')"
    by (simp add: rel_paths skills_dir_def)
  then show ?thesis
    by - (rule that, unfold detectOutOfProfileTemplates_def, rule refl, simp add: profile_simps profileIncludes_def del: filter.simps)
qed

lemma minimal_refused:
  assumes "files t (index_file repoRoot) = Some c"
  shows "\<exists>e t'. installTemplates tp repoRoot ProfileMinimal False res t = (Inl e, t')"
proof (rule ccontr)
  assume "\<nexists>e t'. installTemplates tp repoRoot ProfileMinimal False res t = (Inl e, t')"
  then obtain y t' where "installTemplates tp repoRoot ProfileMinimal False res t = (Inr y, t')"
    by (cases "installTemplates tp repoRoot ProfileMinimal False res t"; cases "fst (installTemplates tp repoRoot ProfileMinimal False res t)") auto
  then obtain a t1 b t2 cu t3 where u: "UpdateAgentsMd tp repoRoot t = (Inr a, t1)" "EnsureClaudeMdReference tp repoRoot t1 = (Inr b, t2)"
      "CreatePluginManifest tp repoRoot (tp_version tp) t2 = (Inr cu, t3)"
    and d: "\<exists>stale t4 y t'. detectOutOfProfileTemplates repoRoot ProfileMinimal t3 = (Inr stale, t4) \<and> stale = []"
    unfolding installTemplates_def
    by (auto simp: bind_io_Inr ctx_io_Inr Let_def fail_def split: prod.splits if_splits)
  have "files t3 (index_file repoRoot) = Some c"
    using keeps_fileD [OF shared_keep(3) u(3)] keeps_fileD [OF shared_keep(2) u(2)] keeps_fileD [OF shared_keep(1) u(1) assms] by blast
  from detect_index [OF this] obtain stale where
    "detectOutOfProfileTemplates repoRoot ProfileMinimal t3 = (Inr stale, t3)" "''.claude/skills/compound'' \<in> set stale" by blast
  with d show False by auto
qed

text \<open>C38: The minimal profile never settles after a downgrade. The confirmed pruning keeps the generated index of the skills, but
  the check for stale templates counts it: after a downgrade that was confirmed and succeeded, every later installation of
  the same profile is refused unless it is confirmed again.\<close>

theorem minimal_never_settles:
  assumes "files t (skills_dir repoRoot @ [''skills_index.json'']) = Some c"
    and "installTemplates tp repoRoot ProfileMinimal True res t = (Inr done1, t')"
  shows "\<exists>e t''. installTemplates tp repoRoot ProfileMinimal False res' t' = (Inl e, t'')"
proof (rule minimal_refused)
  have none: "run_groups ProfileMinimal (template_groups tp repoRoot st) r = ret r" for st r
    by (simp add: template_groups_def profileIncludes_def profile_simps)
  have "keeps_file (index_file repoRoot) (DetectStack repoRoot)"
    unfolding keeps_file_def DetectStack_def by simp
  moreover have "keeps_file (index_file repoRoot) (installTemplateGroups tp repoRoot st ProfileMinimal r)" for st r
    unfolding installTemplateGroups_def none Let_def
    by (intro keeps_bind keeps_ret keeps_ctx minimal_prune_keeps)
      (simp add: profileIncludes_def profile_simps keeps_ret)
  ultimately have "keeps_file (index_file repoRoot) (installTemplates tp repoRoot ProfileMinimal True res)"
    unfolding installTemplates_def Let_def split_def
    by (intro keeps_bind keeps_ctx shared_keep) (simp_all add: keeps_bind keeps_ret keeps_fail)
  then show "files t' (index_file repoRoot) = Some c" using assms(2,1) by (rule keeps_fileD)
qed

lemma sample_downgrade:
  "fst (installTemplates sample_tp [] ProfileMinimal True result0
     (Dir [(''.claude'', Dir [(''skills'', Dir [(''compound'', Dir [(''skills_index.json'', RegFile ''x'')])])])])) = Inr
     (result0\<lparr>AgentsMdUpdated := True, ClaudeMdUpdated := True, PluginCreated := True\<rparr>)"
  by code_simp

theorem minimal_never_settles_witness:
  "\<exists>t' e t''. installTemplates sample_tp [] ProfileMinimal True result0
     (Dir [(''.claude'', Dir [(''skills'', Dir [(''compound'', Dir [(''skills_index.json'', RegFile ''x'')])])])])
       = (Inr (result0\<lparr>AgentsMdUpdated := True, ClaudeMdUpdated := True, PluginCreated := True\<rparr>), t') \<and>
     installTemplates sample_tp [] ProfileMinimal False result0 t' = (Inl e, t'')"
proof -
  let ?t = "Dir [(''.claude'', Dir [(''skills'', Dir [(''compound'', Dir [(''skills_index.json'', RegFile ''x'')])])])]"
  obtain t' where t': "installTemplates sample_tp [] ProfileMinimal True result0 ?t =
      (Inr (result0\<lparr>AgentsMdUpdated := True, ClaudeMdUpdated := True, PluginCreated := True\<rparr>), t')"
    using sample_downgrade by (cases "installTemplates sample_tp [] ProfileMinimal True result0 ?t") simp
  have "files ?t (skills_dir [] @ [''skills_index.json'']) = Some ''x''" by (simp add: skills_dir_def)
  from minimal_never_settles [OF this t'] t' show ?thesis by blast
qed

end
