(* ===== verification/MarkerProps.thy ===== *)
theory MarkerProps
  imports PruneProps
begin

section \<open>Managed blocks and targets\<close>

text \<open>
  What stripping does to a text, in particular to one that the installer wrote; what the installer makes of the root .gitignore;
  and that an installation checks its options before it changes anything.
\<close>

subsection \<open>Markers in lines\<close>

lemma contains_nil [simp]: "str_contains [] p \<longleftrightarrow> p = []"
  by (auto simp: str_contains_iff)

lemma contains_Cons: "str_contains (c # s) p \<longleftrightarrow> has_prefix (c # s) p \<or> str_contains s p"
  unfolding str_contains_def by (subst str_index.simps) simp

lemma contains_append: "str_contains x p \<Longrightarrow> str_contains (x @ y) p" "str_contains y p \<Longrightarrow> str_contains (x @ y) p"
  unfolding str_contains_iff by (metis append_assoc)+

lemma prefix_in_line:
  assumes "CHR 0x0A \<notin> set p"
  shows "has_prefix (x @ nl @ w) p \<longleftrightarrow> has_prefix x p"
proof
  assume "has_prefix (x @ nl @ w) p"
  then obtain r where r: "x @ nl @ w = p @ r" by (auto simp: has_prefix_iff)
  then consider us where "x = p @ us" | us where "p = x @ us" "us @ r = nl @ w"
    using append_eq_append_conv2 [of x "nl @ w" p r] by metis
  then show "has_prefix x p"
  proof cases
    case 2
    have "us = []" using 2 assms by (cases us) (auto simp: nl_def)
    with 2 show ?thesis by (simp add: has_prefix_iff)
  qed (simp add: has_prefix_iff)
next
  assume "has_prefix x p"
  then show "has_prefix (x @ nl @ w) p" by (auto simp: has_prefix_iff)
qed

lemma contains_lines:
  assumes "CHR 0x0A \<notin> set p" and "p \<noteq> []"
  shows "str_contains (x @ nl @ y) p \<longleftrightarrow> str_contains x p \<or> str_contains y p"
proof (induction x)
  case Nil
  have "\<not> has_prefix (nl @ y) p" using prefix_in_line [OF assms(1), of "[]" y] assms(2) by (simp add: has_prefix_def)
  then show ?case using assms(2) by (simp add: nl_def contains_Cons)
next
  case (Cons c x)
  show ?case using Cons.IH prefix_in_line [OF assms(1), of "c # x" y] by (auto simp: contains_Cons)
qed

lemma contains_nl: "CHR 0x0A \<notin> set p \<Longrightarrow> p \<noteq> [] \<Longrightarrow> str_contains (x @ nl) p \<longleftrightarrow> str_contains x p"
  using contains_lines [of p x "[]"] by simp

lemma str_index_here: "str_index (p @ v) p = Some 0"
  by (subst str_index.simps) simp

lemma str_index_at:
  assumes "CHR 0x0A \<notin> set p" and "p \<noteq> []" and "\<not> str_contains x p"
  shows "str_index (x @ nl @ p @ v) p = Some (length x + 1)"
  using assms(3)
proof (induction x)
  case Nil
  have "\<not> has_prefix (nl @ p @ v) p" using prefix_in_line [OF assms(1), of "[]" "p @ v"] assms(2) by (simp add: has_prefix_def)
  then show ?case by (subst str_index.simps) (simp add: nl_def str_index_here)
next
  case (Cons c x)
  have "\<not> has_prefix (c # x) p" "\<not> str_contains x p" using Cons.prems by (simp_all add: contains_Cons)
  then show ?case using Cons.IH prefix_in_line [OF assms(1), of "c # x" "p @ v"]
    by (subst str_index.simps) simp
qed

lemma str_index_first:
  assumes "str_index s p = Some i" and "s = u @ p @ v"
  shows "i \<le> length u"
  using assms
proof (induction u arbitrary: s i)
  case Nil
  then have "has_prefix s p" by simp
  then show ?case using Nil(1) by (subst (asm) str_index.simps) simp
next
  case (Cons x u)
  then show ?case by (subst (asm) (2) str_index.simps) (auto split: if_splits)
qed

lemma marker_facts:
  "CHR 0x0A \<notin> set AgentsSectionStartMarker" "AgentsSectionStartMarker \<noteq> []"
  "CHR 0x0A \<notin> set ClaudeRefStartMarker" "ClaudeRefStartMarker \<noteq> []"
  "CHR 0x0A \<notin> set AntigravityStartMarker" "AntigravityStartMarker \<noteq> []"
  "CHR 0x0A \<notin> set managed_marker" "managed_marker \<noteq> []"
  by code_simp+

lemma removeBlock_none: "\<not> str_contains s start \<Longrightarrow> removeBlockBetween s start e = s"
  by (subst removeBlockBetween.simps) (simp add: str_contains_def)

lemma contains_trim: "str_contains (trim_cut_right cs s) p \<Longrightarrow> str_contains s p"
proof -
  have "\<exists>y. s = trim_cut_right cs s @ y"
    unfolding trim_cut_right_def trim_cut_def by (metis rev_append rev_rev_ident takeWhile_dropWhile_id)
  then show "str_contains (trim_cut_right cs s) p \<Longrightarrow> str_contains s p" by (metis contains_append(1))
qed

text \<open>Removing blocks ends, and nothing is left of the marker: whatever the text is, with balanced, unbalanced, nested or
  adjacent blocks, the result does not contain the start marker any more.\<close>

theorem removeBlockBetween_clean:
  assumes "start \<noteq> []" and "CHR 0x0A \<notin> set start"
  shows "\<not> str_contains (removeBlockBetween s start e) start"
using assms
proof (induction s start e rule: removeBlockBetween.induct)
  case (1 s start e)
  show ?case
  proof (cases "str_index s start")
    case None
    then show ?thesis using 1(2) by (subst removeBlockBetween.simps) (simp add: str_contains_def)
  next
    case (Some i)
    show ?thesis
    proof (cases "str_index (drop (i + length start) s) e")
      case None
      have "\<not> str_contains (take i s) start"
      proof
        assume "str_contains (take i s) start"
        then obtain u v where "take i s = u @ start @ v" by (auto simp: str_contains_iff)
        then have "s = u @ start @ (v @ drop i s)" by (metis append_assoc append_take_drop_id)
        moreover have "length u < i"
        proof -
          have "length u + length start \<le> length (take i s)" using \<open>take i s = u @ start @ v\<close> by simp
          moreover have "length (take i s) \<le> i" by simp
          moreover have "0 < length start" using 1(2) by simp
          ultimately show ?thesis by linarith
        qed
        ultimately show False using str_index_first [OF Some] by fastforce
      qed
      then have "\<not> str_contains (trim_cut_right nl (take i s) @ nl) start"
        using contains_nl [OF 1(3,2)] contains_trim by blast
      then show ?thesis using Some None 1(2) by (subst removeBlockBetween.simps) simp
    next
      case (Some j)
      show ?thesis using "1.IH" [OF 1(2) \<open>str_index s start = Some i\<close> Some 1(2,3)] \<open>str_index s start = Some i\<close> Some 1(2)
        by (subst removeBlockBetween.simps) simp
    qed
  qed
qed

theorem removeBlockBetween_clean_witness:
  "\<not> str_contains (removeBlockBetween ''a<b>x</b><b>y'' ''<b>'' ''</b>'') ''<b>''"
  by (rule removeBlockBetween_clean) simp_all

subsection \<open>Stripping takes back what installing appended\<close>

lemma trim_right_split: obtains k where "s = trim_cut_right nl s @ replicate k CHR 0x0A"
proof -
  have "s = rev (dropWhile (\<lambda>c. c \<in> set nl) (rev s)) @ rev (takeWhile (\<lambda>c. c \<in> set nl) (rev s))"
    by (metis rev_append rev_rev_ident takeWhile_dropWhile_id)
  moreover have "rev (takeWhile (\<lambda>c. c \<in> set nl) (rev s)) = replicate (length (takeWhile (\<lambda>c. c \<in> set nl) (rev s))) CHR 0x0A"
    by (rule replicate_eqI) (auto simp: nl_def dest: set_takeWhileD)
  ultimately show ?thesis using that unfolding trim_cut_right_def trim_cut_def by metis
qed

lemma trim_right_last: "trim_cut_right nl s = [] \<or> last (trim_cut_right nl s) \<noteq> CHR 0x0A"
  using hd_dropWhile [of "\<lambda>c. c \<in> set nl" "rev s"]
  by (auto simp: trim_cut_right_def trim_cut_def last_rev nl_def)

lemma trim_right_nls: "a = [] \<or> last a \<noteq> CHR 0x0A \<Longrightarrow> trim_cut_right nl (a @ nl @ nl) = a"
  by (cases a rule: rev_cases) (auto simp: trim_cut_right_def trim_cut_def nl_def)

lemma block_prefix_line:
  assumes "a = [] \<or> last a \<noteq> CHR 0x0A"
  shows "block_prefix (a @ nl @ w) (length a + 1) = a @ nl"
proof -
  have "\<not> has_suffix (a @ nl) (nl @ nl)"
  proof
    assume "has_suffix (a @ nl) (nl @ nl)"
    then obtain r where "a @ nl = r @ nl @ nl" by (auto simp: has_suffix_iff)
    then have "a = r @ nl" by (metis append.assoc append_same_eq)
    then show False using assms by (simp add: nl_def)
  qed
  then show ?thesis by (simp add: block_prefix_def nl_def)
qed

lemma markerPairs_starts: "(start, e) \<in> set markerPairs \<Longrightarrow> CHR 0x0A \<notin> set start \<and> start \<noteq> []"
  using marker_facts by (auto simp: markerPairs_def)

lemma removeGitignore_none: "\<not> str_contains s managed_marker \<Longrightarrow> removeGitignoreBlock s = s"
  by (simp add: removeGitignoreBlock_def str_contains_def)

lemma unmarked_trim: "\<not> containsAnyMarker c \<Longrightarrow> \<not> containsAnyMarker (trim_cut_right nl c @ nl)"
proof -
  have "str_contains (trim_cut_right nl c @ nl) m \<Longrightarrow> str_contains c m" if "CHR 0x0A \<notin> set m" "m \<noteq> []" for m
    using contains_nl [OF that] contains_trim by blast
  then show "\<not> containsAnyMarker c \<Longrightarrow> \<not> containsAnyMarker (trim_cut_right nl c @ nl)"
    unfolding containsAnyMarker_def list_ex_iff using markerPairs_starts marker_facts by fast
qed

lemma stripMarkers_no_pairs:
  assumes n: "\<And>start e. (start, e) \<in> set markerPairs \<Longrightarrow> \<not> str_contains s start"
  shows "stripMarkers s = removeGitignoreBlock s"
proof -
  have "foldl (\<lambda>s (start, e). removeBlockBetween s start e) s ps = s" if "set ps \<subseteq> set markerPairs" for ps
    using that
  proof (induction ps)
    case (Cons p ps)
    then show ?case using n [of "fst p" "snd p"] by (simp add: split_def removeBlock_none)
  qed simp
  then show ?thesis by (simp add: stripMarkers_def)
qed

lemma stripMarkers_unmarked: "\<not> containsAnyMarker s \<Longrightarrow> stripMarkers s = s"
proof -
  assume "\<not> containsAnyMarker s"
  then have "stripMarkers s = removeGitignoreBlock s" "\<not> str_contains s managed_marker"
    by (auto intro: stripMarkers_no_pairs simp: containsAnyMarker_def list_ex_iff)
  then show "stripMarkers s = s" by (simp add: removeGitignore_none)
qed

lemma os_write_ok: "node_at t p = Some (RegFile c) \<Longrightarrow> p \<noteq> [] \<Longrightarrow> \<exists>t'. os_write_file p x t = (Inr (), t')"
  unfolding os_write_file_def by (rule on_tree_ok [where k = "RegFile c"]) simp_all

text \<open>Stripping takes back the section of AGENTS.md. If the user's AGENTS.md holds no managed marker or section, then after the
  installer has added its section, stripping the managed blocks gives the user's text, with one newline at its end.\<close>

theorem agents_section_roundtrip:
  assumes "tp_agentsMd tp = AgentsSectionStartMarker @ body @ AgentsSectionEndMarker @ nl"
    and "str_index (body @ AgentsSectionEndMarker @ nl) AgentsSectionEndMarker = Some (length body)"
    and "files t (repoRoot @ [''AGENTS.md'']) = Some content"
    and "\<not> containsAnyMarker content" and "\<not> str_contains content CompoundAgentSectionHeader"
  shows "\<exists>t' new. UpdateAgentsMd tp repoRoot t = (Inr True, t') \<and> files t' = (files t)(repoRoot @ [''AGENTS.md''] \<mapsto> new) \<and>
     stripMarkers new = trim_cut_right nl content @ nl"
proof -
  let ?p = "repoRoot @ [''AGENTS.md'']" and ?a = "trim_cut_right nl content"
  let ?S = AgentsSectionStartMarker and ?E = AgentsSectionEndMarker
  define new where "new = ?a @ nl @ tp_agentsMd tp"
  have n: "node_at t ?p = Some (RegFile content)" using assms(3) by (simp add: files_iff)
  obtain t' where w: "os_write_file ?p new t = (Inr (), t')" using os_write_ok [OF n] by auto
  have "UpdateAgentsMd tp repoRoot t = (Inr True, t')"
    using n w assms(5) by (simp add: UpdateAgentsMd_def Let_def try_io_def os_read_file_def lookup_node_at [symmetric] bind_io_def ret_def new_def)
  moreover have "files t' = (files t)(?p \<mapsto> new)" using w by (rule os_write_file_files)
  moreover have "stripMarkers new = ?a @ nl"
  proof -
    have un: "\<not> containsAnyMarker (?a @ nl)" using assms(4) by (rule unmarked_trim)
    have "\<not> str_contains ?a ?S"
      using un contains_append(1) [of ?a ?S nl] by (auto simp: containsAnyMarker_def markerPairs_def)
    then have "str_index new ?S = Some (length ?a + 1)"
      unfolding new_def assms(1) by (rule str_index_at [OF marker_facts(1,2)])
    moreover have "drop (length ?a + 1 + length ?S) new = body @ ?E @ nl"
      by (simp add: new_def assms(1) nl_def)
    moreover have "block_prefix new (length ?a + 1) = ?a @ nl"
      unfolding new_def by (rule block_prefix_line [OF trim_right_last])
    moreover have "block_suffix new (length ?a + 1 + length ?S + length body + length ?E) = []"
      by (simp add: block_suffix_def new_def assms(1) nl_def has_prefix_def)
    ultimately have "removeBlockBetween new ?S ?E = removeBlockBetween (?a @ nl) ?S ?E"
      using assms(2) marker_facts(2) by (subst removeBlockBetween.simps) simp
    then have "stripMarkers new = stripMarkers (?a @ nl)" by (simp add: stripMarkers_def markerPairs_def)
    with stripMarkers_unmarked [OF un] show ?thesis by simp
  qed
  ultimately show ?thesis by blast
qed

theorem agents_section_roundtrip_witness:
  "\<exists>t' new. UpdateAgentsMd sample_tp [] (Dir [(''AGENTS.md'', RegFile (''# Mine'' @ nl @ nl))]) = (Inr True, t') \<and>
     files t' = (files (Dir [(''AGENTS.md'', RegFile (''# Mine'' @ nl @ nl))]))([''AGENTS.md''] \<mapsto> new) \<and>
     stripMarkers new = ''# Mine'' @ nl"
proof -
  let ?t = "Dir [(''AGENTS.md'', RegFile (''# Mine'' @ nl @ nl))]"
  have 1: "str_index ((nl @ CompoundAgentSectionHeader @ nl) @ AgentsSectionEndMarker @ nl) AgentsSectionEndMarker =
      Some (length (nl @ CompoundAgentSectionHeader @ nl))"
    by code_simp
  have 2: "\<not> containsAnyMarker (''# Mine'' @ nl @ nl)" "\<not> str_contains (''# Mine'' @ nl @ nl) CompoundAgentSectionHeader"
    "trim_cut_right nl (''# Mine'' @ nl @ nl) = ''# Mine''"
    by code_simp+
  have 3: "tp_agentsMd sample_tp = AgentsSectionStartMarker @ (nl @ CompoundAgentSectionHeader @ nl) @ AgentsSectionEndMarker @ nl"
    by (simp add: sample_tp_def)
  have 4: "files ?t ([] @ [''AGENTS.md'']) = Some (''# Mine'' @ nl @ nl)" by simp
  from agents_section_roundtrip [OF 3 1 4 2(1,2)] 2(3) show ?thesis by simp
qed

subsection \<open>The root .gitignore\<close>

lemma root_block_facts:
  "str_index root_block managed_marker = Some 0" "str_index root_block (nl @ nl) = None" "trim_cut_right nl root_block @ nl = root_block"
  "\<not> list_ex (\<lambda>(start, e). str_contains root_block start) markerPairs"
  by code_simp+

text \<open>The managed entry of the root .gitignore. If a file without the entry gets it, then running the installer again changes
  nothing, and stripping gives the user's text back with one newline at its end, or nothing if there was no text.\<close>

theorem root_gitignore_roundtrip:
  assumes "files t (repoRoot @ [''.gitignore'']) = Some content" and "\<not> containsAnyMarker content"
  shows "\<exists>t' new. EnsureRootGitignore repoRoot t = (Inr (), t') \<and> files t' = (files t)(repoRoot @ [''.gitignore''] \<mapsto> new) \<and>
     EnsureRootGitignore repoRoot t' = (Inr (), t') \<and>
     stripMarkers new = (if trim_cut_right nl content = [] then [] else trim_cut_right nl content @ nl)"
proof -
  let ?p = "repoRoot @ [''.gitignore'']" and ?a = "trim_cut_right nl content"
  define new where "new = ?a @ nl @ nl @ root_block"
  have n: "node_at t ?p = Some (RegFile content)" using assms(1) by (simp add: files_iff)
  obtain t' where w: "os_write_file ?p new t = (Inr (), t')" using os_write_ok [OF n] by auto
  have nm: "\<not> str_contains content managed_marker" using assms(2) by (simp add: containsAnyMarker_def)
  have f: "files t' = (files t)(?p \<mapsto> new)" using w by (rule os_write_file_files)
  have rb: "root_block = managed_marker @ (nl @ ArtifactRoot @ ''/'' @ nl)" by (simp add: root_block_def)
  have "\<not> str_contains (?a @ nl) managed_marker"
    using nm contains_nl [OF marker_facts(7,8)] contains_trim by blast
  then have idx: "str_index new managed_marker = Some (length ?a + 2)"
    using str_index_at [OF marker_facts(7,8), of "?a @ nl" "nl @ ArtifactRoot @ ''/'' @ nl"] by (simp add: new_def rb nl_def)
  have d: "drop (length ?a + 2) new = root_block" "take (length ?a + 2) new = ?a @ nl @ nl" by (simp_all add: new_def nl_def)
  have e1: "EnsureRootGitignore repoRoot t = (Inr (), t')"
    using n w nm by (simp add: EnsureRootGitignore_def Let_def try_io_def os_read_file_def lookup_node_at [symmetric] new_def)
  have "updateRootGitignoreBlock new managed_marker root_block = None"
    using idx d root_block_facts by (simp add: updateRootGitignoreBlock_def Let_def)
  moreover have "node_at t' ?p = Some (RegFile new)" using f by (simp add: files_iff [symmetric])
  moreover have "str_contains new managed_marker" using idx by (simp add: str_contains_def)
  ultimately have e2: "EnsureRootGitignore repoRoot t' = (Inr (), t')"
    by (simp add: EnsureRootGitignore_def Let_def try_io_def os_read_file_def lookup_node_at [symmetric] ret_def)
  have "stripMarkers new = removeGitignoreBlock new"
  proof -
    have "\<not> str_contains new start" if "(start, e) \<in> set markerPairs" for start e
    proof -
      note s = markerPairs_starts [OF that]
      have "\<not> str_contains ?a start" "\<not> str_contains root_block start"
        using assms(2) contains_trim that root_block_facts(4) by (auto simp: containsAnyMarker_def list_ex_iff)
      then show ?thesis
        unfolding new_def using contains_lines [of start ?a "nl @ root_block"] contains_lines [of start "[]" root_block] s by simp
    qed
    then show ?thesis by (rule stripMarkers_no_pairs)
  qed
  also have "\<dots> = (if ?a = [] then [] else ?a @ nl)"
  proof -
    have ls: "line_start new (length ?a + 2) = length ?a + 2" unfolding line_start_def d by (simp add: nl_def)
    have t: "trim_cut_right nl (?a @ nl @ nl) = ?a"
      by (rule trim_right_nls [OF trim_right_last])
    show ?thesis
      unfolding removeGitignoreBlock_def idx option.case Let_def ls d root_block_facts(2) t
      by (simp add: trim_cut_def)
  qed
  finally show ?thesis using e1 e2 f by blast
qed

theorem root_gitignore_roundtrip_witness:
  "\<exists>t' new. EnsureRootGitignore [] (Dir [(''.gitignore'', RegFile (''*.o'' @ nl))]) = (Inr (), t') \<and>
     files t' = (files (Dir [(''.gitignore'', RegFile (''*.o'' @ nl))]))([''.gitignore''] \<mapsto> new) \<and>
     EnsureRootGitignore [] t' = (Inr (), t') \<and> stripMarkers new = ''*.o'' @ nl"
proof -
  have 1: "\<not> containsAnyMarker (''*.o'' @ nl)" "trim_cut_right nl (''*.o'' @ nl) = ''*.o''" by code_simp+
  have 2: "files (Dir [(''.gitignore'', RegFile (''*.o'' @ nl))]) ([] @ [''.gitignore'']) = Some (''*.o'' @ nl)" by simp
  from root_gitignore_roundtrip [OF 2 1(1)] 1(2) show ?thesis by simp
qed

lemma contains_blank:
  "CHR 0x0A \<notin> set x \<Longrightarrow> str_contains (x @ nl @ y) (nl @ nl) \<longleftrightarrow> has_prefix y nl \<or> str_contains y (nl @ nl)"
  by (induction x) (auto simp: contains_Cons nl_def has_prefix_def)

text \<open>Lines that the user adds right below the managed entry of the root .gitignore are lost: without an empty line between
  them, the installer takes them for an outdated entry of its own and rewrites the file without them.\<close>

theorem root_gitignore_drops_lines:
  assumes "files t (repoRoot @ [''.gitignore'']) = Some (root_block @ line @ nl)"
    and "line \<noteq> []" and "CHR 0x0A \<notin> set line"
  shows "\<exists>t'. EnsureRootGitignore repoRoot t = (Inr (), t') \<and> files t' = (files t)(repoRoot @ [''.gitignore''] \<mapsto> root_block)"
proof -
  let ?p = "repoRoot @ [''.gitignore'']" and ?c = "root_block @ line @ nl"
  have n: "node_at t ?p = Some (RegFile ?c)" using assms(1) by (simp add: files_iff)
  obtain t' where w: "os_write_file ?p root_block t = (Inr (), t')" using os_write_ok [OF n] by auto
  have rb: "root_block = (managed_marker @ nl @ ArtifactRoot @ ''/'') @ nl" by (simp add: root_block_def)
  have i: "str_index ?c managed_marker = Some 0"
    using str_index_here [of managed_marker "nl @ ArtifactRoot @ ''/'' @ nl @ line @ nl"] by (simp add: root_block_def)
  have k: "str_index ?c (nl @ nl) = None"
  proof -
    have "\<not> str_contains (line @ nl @ []) (nl @ nl)"
      using contains_blank [OF assms(3), of "[]"] by (simp add: has_prefix_def nl_def)
    moreover have r: "CHR 0x0A \<notin> set (ArtifactRoot @ ''/'')" by (simp add: ArtifactRoot_def)
    moreover have "\<not> has_prefix (line @ nl @ []) nl" using assms(2,3) by (cases line) (auto simp: has_prefix_def nl_def)
    ultimately have "\<not> str_contains ((ArtifactRoot @ ''/'') @ nl @ line @ nl @ []) (nl @ nl)"
      unfolding contains_blank [OF r] by blast
    then have "\<not> str_contains (managed_marker @ nl @ (ArtifactRoot @ ''/'') @ nl @ line @ nl @ []) (nl @ nl)"
      unfolding contains_blank [OF marker_facts(7)] by (simp add: ArtifactRoot_def has_prefix_def nl_def)
    then show ?thesis by (simp add: root_block_def str_contains_def)
  qed
  have "trim_cut_right nl ?c @ nl = ?c"
    using assms(2,3) by (cases line rule: rev_cases) (auto simp: trim_cut_right_def trim_cut_def nl_def)
  then have "updateRootGitignoreBlock ?c managed_marker root_block = Some root_block"
    using i k assms(2) by (simp add: updateRootGitignoreBlock_def Let_def)
  moreover have "str_contains ?c managed_marker" using i by (simp add: str_contains_def)
  ultimately have "EnsureRootGitignore repoRoot t = (Inr (), t')"
    using n w by (simp add: EnsureRootGitignore_def Let_def try_io_def os_read_file_def lookup_node_at [symmetric])
  then show ?thesis using os_write_file_files [OF w] by blast
qed

theorem root_gitignore_drops_lines_witness:
  "\<exists>t'. EnsureRootGitignore [] (Dir [(''.gitignore'', RegFile (root_block @ ''*.o'' @ nl))]) = (Inr (), t') \<and>
     files t' = (files (Dir [(''.gitignore'', RegFile (root_block @ ''*.o'' @ nl))]))([''.gitignore''] \<mapsto> root_block)"
  using root_gitignore_drops_lines [of "Dir [(''.gitignore'', RegFile (root_block @ ''*.o'' @ nl))]" "[]" "''*.o''"] by simp

subsection \<open>Harness targets and the options of an installation\<close>

lemma canonical_valid: "map_of deprecatedHarnessAliases x = Some c \<Longrightarrow> isValidHarness c"
  by (auto simp: deprecatedHarnessAliases_def isValidHarness_def validHarnessTargets_def split: if_splits)

lemma parse_parts_valid:
  "parse_parts parts out ws = Inr (out', ws') \<Longrightarrow> distinct out \<and> list_all isValidHarness out \<Longrightarrow> distinct out' \<and> list_all isValidHarness out'"
proof (induction parts arbitrary: out ws)
  case (Cons part parts)
  let ?target = "to_lower (trim_space part)"
  show ?case
  proof (cases "trim_space part = []")
    case True
    then show ?thesis using Cons by simp
  next
    case False
    show ?thesis
    proof (cases "map_of deprecatedHarnessAliases ?target")
      case None
      then have "isValidHarness ?target" using Cons.prems(1) False by (auto simp: Let_def split: if_splits)
      then show ?thesis
        using Cons.IH [of "if ?target \<in> set out then out else out @ [?target]" ws] Cons.prems None False by (simp add: Let_def)
    next
      case (Some c)
      note v = canonical_valid [OF Some]
      obtain ws1 where "parse_parts parts (if c \<in> set out then out else out @ [c]) ws1 = Inr (out', ws')"
        using Cons.prems(1) Some False by (simp add: Let_def)
      then show ?thesis
        using Cons.IH [of "if c \<in> set out then out else out @ [c]" ws1] Cons.prems(2) v by (simp split: if_splits)
    qed
  qed
qed simp

lemma parse_items_valid:
  "parse_items items out ws = Inr (out', ws') \<Longrightarrow> distinct out \<and> list_all isValidHarness out \<Longrightarrow> distinct out' \<and> list_all isValidHarness out'"
proof (induction items arbitrary: out ws)
  case (Cons it items)
  then show ?case by (auto split: sum.splits prod.splits dest!: parse_parts_valid)
qed simp

text \<open>Accepted targets are targets. When the --harness values parse, the result has no duplicates and only canonical targets:
  aliases are replaced, whatever the spelling of the values was.\<close>

theorem ParseHarnessTargets_canonical:
  assumes "ParseHarnessTargets raw = Inr (targets, warnings)"
  shows "distinct targets \<and> set targets \<subseteq> {HarnessClaude, HarnessCodex, HarnessAgy, HarnessGoose}"
  using parse_items_valid [OF assms [unfolded ParseHarnessTargets_def]]
  by (auto simp: list_all_iff isValidHarness_def validHarnessTargets_def)

theorem ParseHarnessTargets_canonical_witness:
  "\<exists>ts ws. ParseHarnessTargets [''Claude, gemini'', ''claude''] = Inr (ts, ws) \<and> distinct ts \<and>
     set ts \<subseteq> {HarnessClaude, HarnessCodex, HarnessAgy, HarnessGoose}"
proof -
  have "\<not> isl (ParseHarnessTargets [''Claude, gemini'', ''claude''])" by code_simp
  then obtain ts ws where "ParseHarnessTargets [''Claude, gemini'', ''claude''] = Inr (ts, ws)"
    by (cases "ParseHarnessTargets [''Claude, gemini'', ''claude'']") auto
  with ParseHarnessTargets_canonical [OF this] show ?thesis by blast
qed

text \<open>An installation validates before it writes. With an unknown profile or an unknown target among its options, it returns an
  error message and the repository is what it was.\<close>

theorem InitRepo_validates_first:
  assumes "validateProfile (Profile opts) \<noteq> None \<or> (\<exists>target \<in> set (Targets opts). \<not> isValidHarness target)"
  shows "\<exists>m. InitRepo tp repoRoot opts t = (Inl (Msg m), t)"
proof (cases "validateProfile (Profile opts)")
  case None
  then obtain target where "target \<in> set (Targets opts)" "\<not> isValidHarness target" using assms by blast
  then obtain bad where "find (\<lambda>t. \<not> isValidHarness t) (Targets opts) = Some bad"
    using find_None_iff [of "\<lambda>t. \<not> isValidHarness t" "Targets opts"] by auto
  with None show ?thesis by (simp add: InitRepo_def fail_def)
qed (simp add: InitRepo_def fail_def)

definition bad_options :: InitOptions where
  "bad_options = \<lparr>SkipHooks = False, SkipTemplates = False, BinaryPath = [], Profile = [], ConfirmPrune = False, Targets = [''gemini'']\<rparr>"

theorem InitRepo_validates_first_witness: "\<exists>m. InitRepo sample_tp [] bad_options (Dir []) = (Inl (Msg m), Dir [])"
  by (rule InitRepo_validates_first)
    (simp add: bad_options_def isValidHarness_def validHarnessTargets_def harness_defs validateProfile_def)

end
