(* ===== verification/Database.thy ===== *)
theory Database
  imports GoString
begin

section \<open>Opening and migrating the database files\<close>

text \<open>
  storage/sqlite.go and the opening half of storage/knowledge_db.go: both databases are
  caches that are thrown away when their \<open>user_version\<close> is not the one of this build. The
  driver (modernc.org/sqlite) is a record of parameters; what the code relies on is
  \<open>driver_ok\<close>. The opening code is written out twice in the source and twice here; that the
  two agree, and what both promise, is proved over one interface.
\<close>

subsection \<open>The driver and the disk\<close>

text \<open>
  A connection is named by its data source name. The driver's operations change the files
  of the disk; \<open>dr_view\<close> is what a fresh connection to a file would see, its
  \<open>user_version\<close> and its rows, None when there is no database or it is not readable.
\<close>

type_synonym 'f disk = "string \<rightharpoonup> 'f"

record ('f, 'r) driver =
  dr_connect :: "string \<Rightarrow> string option"
  dr_version :: "string \<Rightarrow> 'f disk \<Rightarrow> (string + int) \<times> 'f disk"
  dr_exec :: "string \<Rightarrow> string \<Rightarrow> 'f disk \<Rightarrow> string option \<times> 'f disk"
  dr_set_version :: "int \<Rightarrow> string \<Rightarrow> 'f disk \<Rightarrow> string option \<times> 'f disk"
  dr_view :: "string \<Rightarrow> 'f disk \<Rightarrow> (int \<times> 'r) option"

text \<open>
  The calls of package os that may fail for a reason outside the model: \<open>os.Stat\<close> with
  an error that is not "not exist", creating the directory, opening and taking the lock,
  and removing one of the files.
\<close>

record os_faults =
  of_mkdir :: "string option"
  of_lock_open :: "string option"
  of_flock :: "string option"
  of_stat :: "string \<Rightarrow> bool"
  of_remove :: "string \<Rightarrow> string option"

definition no_faults :: os_faults where
  "no_faults = \<lparr>of_mkdir = None, of_lock_open = None, of_flock = None, of_stat = (\<lambda>_. False), of_remove = (\<lambda>_. None)\<rparr>"

text \<open>What is visible of a run: the files, and the lock files it created.\<close>

record 'f db_disk =
  dk_files :: "'f disk"
  dk_locks :: "string set"

definition memory_path :: string where
  "memory_path = '':memory:''"

text \<open>The journal files that belong to the database \<open>p\<close>, in the order they are removed.\<close>

definition db_suffixes :: "string list" where
  "db_suffixes = ['''', ''-wal'', ''-shm'']"

subsection \<open>The lessons database\<close>

definition SchemaVersion :: int where
  "SchemaVersion = 7"

definition DBPath :: string where
  "DBPath = ''.claude/.cache/lessons.sqlite''"

text \<open>The tables, the full-text index with its triggers, and the indexes; every statement is
  one of \<open>IF NOT EXISTS\<close>.\<close>

definition schemaDDL :: string where
  "schemaDDL = join [CHR 0x0A]
    ['''',
     ''  CREATE TABLE IF NOT EXISTS lessons ('',
     ''    id TEXT PRIMARY KEY,'',
     ''    type TEXT NOT NULL,'',
     ''    trigger TEXT NOT NULL,'',
     ''    insight TEXT NOT NULL,'',
     ''    evidence TEXT,'',
     ''    severity TEXT,'',
     ''    tags TEXT NOT NULL DEFAULT '' @ [CHR 0x27] @ [CHR 0x27] @ '','',
     ''    source TEXT NOT NULL,'',
     ''    context TEXT NOT NULL DEFAULT '' @ [CHR 0x27] @ ''{}'' @ [CHR 0x27] @ '','',
     ''    supersedes TEXT NOT NULL DEFAULT '' @ [CHR 0x27] @ ''[]'' @ [CHR 0x27] @ '','',
     ''    related TEXT NOT NULL DEFAULT '' @ [CHR 0x27] @ ''[]'' @ [CHR 0x27] @ '','',
     ''    created TEXT NOT NULL,'',
     ''    confirmed INTEGER NOT NULL DEFAULT 0,'',
     ''    deleted INTEGER NOT NULL DEFAULT 0,'',
     ''    retrieval_count INTEGER NOT NULL DEFAULT 0,'',
     ''    last_retrieved TEXT,'',
     ''    embedding BLOB,'',
     ''    content_hash TEXT,'',
     ''    embedding_insight BLOB,'',
     ''    content_hash_insight TEXT,'',
     ''    invalidated_at TEXT,'',
     ''    invalidation_reason TEXT,'',
     ''    citation_file TEXT,'',
     ''    citation_line INTEGER,'',
     ''    citation_commit TEXT,'',
     ''    compaction_level INTEGER DEFAULT 0,'',
     ''    compacted_at TEXT,'',
     ''    pattern_bad TEXT,'',
     ''    pattern_good TEXT'',
     ''  );'',
     '''',
     ''  CREATE VIRTUAL TABLE IF NOT EXISTS lessons_fts USING fts5('',
     ''    id, trigger, insight, tags, pattern_bad, pattern_good,'',
     ''    content='' @ [CHR 0x27] @ ''lessons'' @ [CHR 0x27] @ '', content_rowid='' @ [CHR 0x27] @ ''rowid'' @ [CHR 0x27],
     ''  );'',
     '''',
     ''  CREATE TRIGGER IF NOT EXISTS lessons_ai AFTER INSERT ON lessons BEGIN'',
     ''    INSERT INTO lessons_fts(rowid, id, trigger, insight, tags, pattern_bad, pattern_good)'',
     ''    VALUES (new.rowid, new.id, new.trigger, new.insight, new.tags, new.pattern_bad, new.pattern_good);'',
     ''  END;'',
     '''',
     ''  CREATE TRIGGER IF NOT EXISTS lessons_ad AFTER DELETE ON lessons BEGIN'',
     ''    INSERT INTO lessons_fts(lessons_fts, rowid, id, trigger, insight, tags, pattern_bad, pattern_good)'',
     ''    VALUES ('' @ [CHR 0x27] @ ''delete'' @ [CHR 0x27] @ '', old.rowid, old.id, old.trigger, old.insight, old.tags, old.pattern_bad, old.pattern_good);'',
     ''  END;'',
     '''',
     ''  CREATE TRIGGER IF NOT EXISTS lessons_au AFTER UPDATE OF id, trigger, insight, tags, pattern_bad, pattern_good ON lessons BEGIN'',
     ''    INSERT INTO lessons_fts(lessons_fts, rowid, id, trigger, insight, tags, pattern_bad, pattern_good)'',
     ''    VALUES ('' @ [CHR 0x27] @ ''delete'' @ [CHR 0x27] @ '', old.rowid, old.id, old.trigger, old.insight, old.tags, old.pattern_bad, old.pattern_good);'',
     ''    INSERT INTO lessons_fts(rowid, id, trigger, insight, tags, pattern_bad, pattern_good)'',
     ''    VALUES (new.rowid, new.id, new.trigger, new.insight, new.tags, new.pattern_bad, new.pattern_good);'',
     ''  END;'',
     '''',
     ''  CREATE INDEX IF NOT EXISTS idx_lessons_created ON lessons(created);'',
     ''  CREATE INDEX IF NOT EXISTS idx_lessons_confirmed ON lessons(confirmed);'',
     ''  CREATE INDEX IF NOT EXISTS idx_lessons_severity ON lessons(severity);'',
     ''  CREATE INDEX IF NOT EXISTS idx_lessons_type ON lessons(type);'',
     '''',
     ''  CREATE TABLE IF NOT EXISTS metadata ('',
     ''    key TEXT PRIMARY KEY,'',
     ''    value TEXT NOT NULL'',
     ''  );'',
     '''',
     ''  CREATE TABLE IF NOT EXISTS telemetry ('',
     ''    id INTEGER PRIMARY KEY AUTOINCREMENT,'',
     ''    timestamp TEXT NOT NULL,'',
     ''    event_type TEXT NOT NULL,'',
     ''    hook_name TEXT NOT NULL DEFAULT '' @ [CHR 0x27] @ [CHR 0x27] @ '','',
     ''    phase TEXT NOT NULL DEFAULT '' @ [CHR 0x27] @ [CHR 0x27] @ '','',
     ''    duration_ms INTEGER NOT NULL DEFAULT 0,'',
     ''    success INTEGER NOT NULL DEFAULT 1,'',
     ''    query_hash TEXT NOT NULL DEFAULT '' @ [CHR 0x27] @ [CHR 0x27] @ '','',
     ''    metadata TEXT NOT NULL DEFAULT '' @ [CHR 0x27] @ ''{}'' @ [CHR 0x27],
     ''  );'',
     '''',
     ''  CREATE INDEX IF NOT EXISTS idx_telemetry_timestamp ON telemetry(timestamp);'',
     ''  CREATE INDEX IF NOT EXISTS idx_telemetry_event_type ON telemetry(event_type);'',
     ''  CREATE INDEX IF NOT EXISTS idx_telemetry_hook_name ON telemetry(hook_name);'',
     '''']"

text \<open>\<open>buildDSN(path, isMemory)\<close>\<close>

definition buildDSN :: "string \<Rightarrow> bool \<Rightarrow> string" where
  "buildDSN path isMemory =
     (if isMemory then path
      else path @ (if str_contains path ''?'' then ''&'' else ''?'') @ ''_pragma=journal_mode(WAL)&_pragma=busy_timeout(5000)'')"

text \<open>\<open>os.Stat\<close> reports "not exist".\<close>

definition stat_missing :: "os_faults \<Rightarrow> 'f disk \<Rightarrow> string \<Rightarrow> bool" where
  "stat_missing ft d path \<longleftrightarrow> \<not> of_stat ft path \<and> d path = None"

definition needsRebuild :: "('f, 'r) driver \<Rightarrow> os_faults \<Rightarrow> string \<Rightarrow> 'f disk \<Rightarrow> bool \<times> 'f disk" where
  "needsRebuild dr ft path d =
     (if stat_missing ft d path then (False, d)
      else case dr_connect dr path of
          Some _ \<Rightarrow> (True, d)
        | None \<Rightarrow> (case dr_version dr path d of
              (Inl _, d') \<Rightarrow> (True, d')
            | (Inr version, d') \<Rightarrow> (version \<noteq> SchemaVersion, d')))"

text \<open>
  \<open>initSchema(db)\<close>: the data definitions, then the version; the result is the connection
  or the error text.
\<close>

definition initSchema :: "('f, 'r) driver \<Rightarrow> string \<Rightarrow> 'f disk \<Rightarrow> (string + string) \<times> 'f disk" where
  "initSchema dr dsn d =
     (case dr_exec dr schemaDDL dsn d of
        (Some e, d1) \<Rightarrow> (Inl (''create schema: '' @ e), d1)
      | (None, d1) \<Rightarrow> (case dr_set_version dr SchemaVersion dsn d1 of
            (Some e, d2) \<Rightarrow> (Inl (''set version: '' @ e), d2)
          | (None, d2) \<Rightarrow> (Inr dsn, d2)))"

text \<open>The removal loop; it stops at the first file that cannot be removed.\<close>

fun remove_stale :: "os_faults \<Rightarrow> string \<Rightarrow> string list \<Rightarrow> 'f disk \<Rightarrow> (string \<times> string) option \<times> 'f disk" where
  "remove_stale ft path [] d = (None, d)"
| "remove_stale ft path (suffix # rest) d =
     (case d (path @ suffix) of
        None \<Rightarrow> remove_stale ft path rest d
      | Some _ \<Rightarrow> (case of_remove ft (path @ suffix) of
            Some e \<Rightarrow> (Some (path @ suffix, e), d)
          | None \<Rightarrow> remove_stale ft path rest (d(path @ suffix := None))))"

text \<open>\<open>defer f.Close()\<close> and the unlock leave no trace; the lock file stays.\<close>

definition lockedOpenDB :: "('f, 'r) driver \<Rightarrow> os_faults \<Rightarrow> string \<Rightarrow> 'f db_disk \<Rightarrow> (string + string) \<times> 'f db_disk" where
  "lockedOpenDB dr ft path w =
     (let lockPath = path @ ''.lock'' in
      case of_lock_open ft of
        Some e \<Rightarrow> (Inl (''open lock file: '' @ e), w)
      | None \<Rightarrow>
          (let w = w\<lparr>dk_locks := insert lockPath (dk_locks w)\<rparr> in
           case of_flock ft of
             Some e \<Rightarrow> (Inl (''flock: '' @ e), w)
           | None \<Rightarrow>
               (let (rebuild, d1) = needsRebuild dr ft path (dk_files w);
                    (failed, d2) = (if rebuild then remove_stale ft path db_suffixes d1 else (None, d1)) in
                case failed of
                  Some (f, e) \<Rightarrow> (Inl (''remove stale db '' @ f @ '': '' @ e), w\<lparr>dk_files := d2\<rparr>)
                | None \<Rightarrow>
                    (let dsn = buildDSN path False in
                     case dr_connect dr dsn of
                       Some e \<Rightarrow> (Inl (''open: '' @ e), w\<lparr>dk_files := d2\<rparr>)
                     | None \<Rightarrow> (let (r, d3) = initSchema dr dsn d2 in (r, w\<lparr>dk_files := d3\<rparr>))))))"

definition OpenDB :: "('f, 'r) driver \<Rightarrow> os_faults \<Rightarrow> string \<Rightarrow> 'f db_disk \<Rightarrow> (string + string) \<times> 'f db_disk" where
  "OpenDB dr ft path w =
     (if path = memory_path
      then (case dr_connect dr path of
              Some e \<Rightarrow> (Inl (''open: '' @ e), w)
            | None \<Rightarrow> (let (r, d) = initSchema dr path (dk_files w) in (r, w\<lparr>dk_files := d\<rparr>)))
      else case of_mkdir ft of
          Some e \<Rightarrow> (Inl (''create dir: '' @ e), w)
        | None \<Rightarrow> lockedOpenDB dr ft path w)"

text \<open>\<open>repoRoot\<close> is a clean absolute path other than "/", for which \<open>filepath.Join\<close> is this.\<close>

definition OpenRepoDB :: "('f, 'r) driver \<Rightarrow> os_faults \<Rightarrow> string \<Rightarrow> 'f db_disk \<Rightarrow> (string + string) \<times> 'f db_disk" where
  "OpenRepoDB dr ft repoRoot = OpenDB dr ft (repoRoot @ ''/'' @ DBPath)"

subsection \<open>The knowledge database\<close>

definition KnowledgeSchemaVersion :: int where
  "KnowledgeSchemaVersion = 3"

definition KnowledgeDBPath :: string where
  "KnowledgeDBPath = ''.claude/.cache/knowledge.sqlite''"

text \<open>The chunk table with its full-text index.\<close>

definition knowledgeSchemaDDL :: string where
  "knowledgeSchemaDDL = join [CHR 0x0A]
    ['''',
     ''  CREATE TABLE IF NOT EXISTS chunks ('',
     ''    id TEXT PRIMARY KEY,'',
     ''    file_path TEXT NOT NULL,'',
     ''    start_line INTEGER NOT NULL,'',
     ''    end_line INTEGER NOT NULL,'',
     ''    content_hash TEXT NOT NULL,'',
     ''    text TEXT NOT NULL,'',
     ''    embedding BLOB,'',
     ''    model TEXT,'',
     ''    updated_at TEXT NOT NULL'',
     ''  );'',
     '''',
     ''  CREATE VIRTUAL TABLE IF NOT EXISTS chunks_fts USING fts5('',
     ''    text,'',
     ''    content='' @ [CHR 0x27] @ ''chunks'' @ [CHR 0x27] @ '', content_rowid='' @ [CHR 0x27] @ ''rowid'' @ [CHR 0x27],
     ''  );'',
     '''',
     ''  CREATE TRIGGER IF NOT EXISTS chunks_ai AFTER INSERT ON chunks BEGIN'',
     ''    INSERT INTO chunks_fts(rowid, text)'',
     ''    VALUES (new.rowid, new.text);'',
     ''  END;'',
     '''',
     ''  CREATE TRIGGER IF NOT EXISTS chunks_ad AFTER DELETE ON chunks BEGIN'',
     ''    INSERT INTO chunks_fts(chunks_fts, rowid, text)'',
     ''    VALUES ('' @ [CHR 0x27] @ ''delete'' @ [CHR 0x27] @ '', old.rowid, old.text);'',
     ''  END;'',
     '''',
     ''  CREATE TRIGGER IF NOT EXISTS chunks_au AFTER UPDATE ON chunks BEGIN'',
     ''    INSERT INTO chunks_fts(chunks_fts, rowid, text)'',
     ''    VALUES ('' @ [CHR 0x27] @ ''delete'' @ [CHR 0x27] @ '', old.rowid, old.text);'',
     ''    INSERT INTO chunks_fts(rowid, text)'',
     ''    VALUES (new.rowid, new.text);'',
     ''  END;'',
     '''',
     ''  CREATE INDEX IF NOT EXISTS idx_chunks_file_path ON chunks(file_path);'',
     '''',
     ''  CREATE TABLE IF NOT EXISTS metadata ('',
     ''    key TEXT PRIMARY KEY,'',
     ''    value TEXT NOT NULL'',
     ''  );'',
     '''']"

definition knowledgeNeedsRebuild :: "('f, 'r) driver \<Rightarrow> os_faults \<Rightarrow> string \<Rightarrow> 'f disk \<Rightarrow> bool \<times> 'f disk" where
  "knowledgeNeedsRebuild dr ft path d =
     (if stat_missing ft d path then (False, d)
      else let dsn = path @ ''?_pragma=busy_timeout(5000)'' in
        case dr_connect dr dsn of
          Some _ \<Rightarrow> (True, d)
        | None \<Rightarrow> (case dr_version dr dsn d of
              (Inl _, d') \<Rightarrow> (True, d')
            | (Inr version, d') \<Rightarrow> (version \<noteq> KnowledgeSchemaVersion, d')))"

definition initKnowledgeSchema :: "('f, 'r) driver \<Rightarrow> string \<Rightarrow> 'f disk \<Rightarrow> (string + string) \<times> 'f disk" where
  "initKnowledgeSchema dr dsn d =
     (case dr_exec dr knowledgeSchemaDDL dsn d of
        (Some e, d1) \<Rightarrow> (Inl (''create schema: '' @ e), d1)
      | (None, d1) \<Rightarrow> (case dr_set_version dr KnowledgeSchemaVersion dsn d1 of
            (Some e, d2) \<Rightarrow> (Inl (''set version: '' @ e), d2)
          | (None, d2) \<Rightarrow> (Inr dsn, d2)))"

definition lockedOpenKnowledgeDB :: "('f, 'r) driver \<Rightarrow> os_faults \<Rightarrow> string \<Rightarrow> 'f db_disk \<Rightarrow> (string + string) \<times> 'f db_disk" where
  "lockedOpenKnowledgeDB dr ft path w =
     (let lockPath = path @ ''.lock'' in
      case of_lock_open ft of
        Some e \<Rightarrow> (Inl (''open lock file: '' @ e), w)
      | None \<Rightarrow>
          (let w = w\<lparr>dk_locks := insert lockPath (dk_locks w)\<rparr> in
           case of_flock ft of
             Some e \<Rightarrow> (Inl (''flock: '' @ e), w)
           | None \<Rightarrow>
               (let (rebuild, d1) = knowledgeNeedsRebuild dr ft path (dk_files w);
                    (failed, d2) = (if rebuild then remove_stale ft path db_suffixes d1 else (None, d1)) in
                case failed of
                  Some (f, e) \<Rightarrow> (Inl (''remove stale knowledge db '' @ f @ '': '' @ e), w\<lparr>dk_files := d2\<rparr>)
                | None \<Rightarrow>
                    (let dsn = buildDSN path False in
                     case dr_connect dr dsn of
                       Some e \<Rightarrow> (Inl (''open: '' @ e), w\<lparr>dk_files := d2\<rparr>)
                     | None \<Rightarrow> (let (r, d3) = initKnowledgeSchema dr dsn d2 in (r, w\<lparr>dk_files := d3\<rparr>))))))"

definition OpenKnowledgeDB :: "('f, 'r) driver \<Rightarrow> os_faults \<Rightarrow> string \<Rightarrow> 'f db_disk \<Rightarrow> (string + string) \<times> 'f db_disk" where
  "OpenKnowledgeDB dr ft path w =
     (if path \<noteq> memory_path
      then (case of_mkdir ft of
              Some e \<Rightarrow> (Inl (''create dir: '' @ e), w)
            | None \<Rightarrow> lockedOpenKnowledgeDB dr ft path w)
      else case dr_connect dr path of
              Some e \<Rightarrow> (Inl (''open: '' @ e), w)
            | None \<Rightarrow> (let (r, d) = initKnowledgeSchema dr path (dk_files w) in (r, w\<lparr>dk_files := d\<rparr>)))"

definition OpenRepoKnowledgeDB :: "('f, 'r) driver \<Rightarrow> os_faults \<Rightarrow> string \<Rightarrow> 'f db_disk \<Rightarrow> (string + string) \<times> 'f db_disk" where
  "OpenRepoKnowledgeDB dr ft repoRoot = OpenKnowledgeDB dr ft (repoRoot @ ''/'' @ KnowledgeDBPath)"

end
