(* ===== verification/DatabaseProps.thy ===== *)
theory DatabaseProps
  imports Database
begin

section \<open>What opening a database keeps\<close>

text \<open>
  What the code relies on of the driver, the contract of a versioned cache that both
  databases implement, and its consequences: the rows of the current version survive an open
  exactly when their version can be read or the open does not get as far as removing them,
  rows of another version never reach the caller, and the two databases of a repository do not
  touch each other.
\<close>

subsection \<open>What is relied on of the driver\<close>

text \<open>
  The files that belong to the database at \<open>p\<close>; the driver opens the path in front of the
  query part.
\<close>

definition own_files :: "string \<Rightarrow> string set" where
  "own_files p = (\<lambda>s. p @ s) ` set db_suffixes"

definition dsn_file :: "string \<Rightarrow> string" where
  "dsn_file dsn = takeWhile (\<lambda>c. c \<noteq> CHR ''?'') dsn"

definition plain_path :: "string \<Rightarrow> bool" where
  "plain_path p \<longleftrightarrow> CHR ''?'' \<notin> set p \<and> p \<noteq> memory_path"

definition same_beside :: "string \<Rightarrow> 'f disk \<Rightarrow> 'f disk \<Rightarrow> bool" where
  "same_beside p d d' \<longleftrightarrow> (\<forall>q. q \<notin> own_files p \<longrightarrow> d' q = d q)"

definition no_journal :: "string \<Rightarrow> 'f disk \<Rightarrow> bool" where
  "no_journal p d \<longleftrightarrow> d (p @ ''-wal'') = None \<and> d (p @ ''-shm'') = None"

text \<open>A view depends on the database's own files, and there is none without the main file.\<close>

definition view_law :: "('f, 'r) driver \<Rightarrow> bool" where
  "view_law dr \<longleftrightarrow>
     (\<forall>p d d'. (\<forall>q \<in> own_files p. d' q = d q) \<longrightarrow> dr_view dr p d' = dr_view dr p d) \<and>
     (\<forall>p d. d p = None \<longrightarrow> dr_view dr p d = None)"

text \<open>Reading the version changes no view; the answer is the version in the view, 0 where there is none.\<close>

definition version_law :: "('f, 'r) driver \<Rightarrow> bool" where
  "version_law dr \<longleftrightarrow>
     (\<forall>dsn d r d'. dr_version dr dsn d = (r, d') \<longrightarrow>
        same_beside (dsn_file dsn) d d' \<and> dr_view dr (dsn_file dsn) d' = dr_view dr (dsn_file dsn) d \<and>
        (\<forall>v. r = Inr v \<longrightarrow> v = (case dr_view dr (dsn_file dsn) d of None \<Rightarrow> 0 | Some (u, _) \<Rightarrow> u)))"

text \<open>
  The statements of the two schemas are all of the form \<open>CREATE ... IF NOT EXISTS\<close>: run on a
  database they keep its rows and its version, run where there is nothing they create an
  empty one of version 0; when they fail the view is unchanged or that of an empty database
  of version 0.
\<close>

definition exec_law :: "'r \<Rightarrow> ('f, 'r) driver \<Rightarrow> bool" where
  "exec_law e dr \<longleftrightarrow>
     (\<forall>ddl dsn d r d'. ddl = schemaDDL \<or> ddl = knowledgeSchemaDDL \<longrightarrow> dr_exec dr ddl dsn d = (r, d') \<longrightarrow>
        same_beside (dsn_file dsn) d d' \<and>
        (\<forall>x. dr_view dr (dsn_file dsn) d = Some x \<longrightarrow> dr_view dr (dsn_file dsn) d' = Some x) \<and>
        (dr_view dr (dsn_file dsn) d = None \<longrightarrow> no_journal (dsn_file dsn) d \<longrightarrow>
           dr_view dr (dsn_file dsn) d' = Some (0, e) \<or> r \<noteq> None \<and> dr_view dr (dsn_file dsn) d' = None))"

text \<open>Setting the version keeps the rows; when it fails nothing changes.\<close>

definition set_law :: "('f, 'r) driver \<Rightarrow> bool" where
  "set_law dr \<longleftrightarrow>
     (\<forall>n dsn d r d'. dr_set_version dr n dsn d = (r, d') \<longrightarrow>
        same_beside (dsn_file dsn) d d' \<and>
        dr_view dr (dsn_file dsn) d' =
          (if r = None then map_option (\<lambda>(_, rows). (n, rows)) (dr_view dr (dsn_file dsn) d) else dr_view dr (dsn_file dsn) d))"

definition driver_ok :: "'r \<Rightarrow> ('f, 'r) driver \<Rightarrow> bool" where
  "driver_ok e dr \<longleftrightarrow> view_law dr \<and> version_law dr \<and> exec_law e dr \<and> set_law dr"

lemma view_lawD:
  assumes "driver_ok e dr"
  shows "(\<And>q. q \<in> own_files p \<Longrightarrow> d' q = d q) \<Longrightarrow> dr_view dr p d' = dr_view dr p d"
    and "d p = None \<Longrightarrow> dr_view dr p d = None"
  using assms unfolding driver_ok_def view_law_def by blast+

lemma version_lawD:
  assumes "driver_ok e dr" and "dr_version dr dsn d = (r, d')"
  shows "same_beside (dsn_file dsn) d d'" and "dr_view dr (dsn_file dsn) d' = dr_view dr (dsn_file dsn) d"
    and "r = Inr v \<Longrightarrow> v = (case dr_view dr (dsn_file dsn) d of None \<Rightarrow> 0 | Some (u, _) \<Rightarrow> u)"
  using assms unfolding driver_ok_def version_law_def by blast+

lemma exec_lawD:
  assumes "driver_ok e dr" and "ddl = schemaDDL \<or> ddl = knowledgeSchemaDDL" and "dr_exec dr ddl dsn d = (r, d')"
  shows "same_beside (dsn_file dsn) d d'"
    and "dr_view dr (dsn_file dsn) d = Some x \<Longrightarrow> dr_view dr (dsn_file dsn) d' = Some x"
    and "dr_view dr (dsn_file dsn) d = None \<Longrightarrow> no_journal (dsn_file dsn) d \<Longrightarrow>
           dr_view dr (dsn_file dsn) d' = Some (0, e) \<or> r \<noteq> None \<and> dr_view dr (dsn_file dsn) d' = None"
  using assms unfolding driver_ok_def exec_law_def by blast+

lemma set_lawD:
  assumes "driver_ok e dr" and "dr_set_version dr n dsn d = (r, d')"
  shows "same_beside (dsn_file dsn) d d'"
    and "dr_view dr (dsn_file dsn) d' =
          (if r = None then map_option (\<lambda>(_, rows). (n, rows)) (dr_view dr (dsn_file dsn) d) else dr_view dr (dsn_file dsn) d)"
  using assms unfolding driver_ok_def set_law_def by blast+

lemma same_beside_refl [simp]: "same_beside p d d"
  by (simp add: same_beside_def)

lemma same_beside_trans: "same_beside p d d1 \<Longrightarrow> same_beside p d1 d2 \<Longrightarrow> same_beside p d d2"
  by (simp add: same_beside_def)

lemma own_files_eq: "own_files p = {p, p @ ''-wal'', p @ ''-shm''}"
  by (simp add: own_files_def db_suffixes_def)

subsection \<open>Data source names\<close>

lemma dsn_file_plain: "CHR ''?'' \<notin> set p \<Longrightarrow> dsn_file p = p"
  unfolding dsn_file_def by (subst takeWhile_eq_all_conv) auto

lemma dsn_file_query: "CHR ''?'' \<notin> set p \<Longrightarrow> dsn_file (p @ CHR ''?'' # q) = p"
  unfolding dsn_file_def by (induction p) auto

lemma str_contains_char: "str_contains s [c] \<longleftrightarrow> c \<in> set s"
  unfolding str_contains_iff by (auto simp: in_set_conv_decomp)

lemma buildDSN_file: "CHR ''?'' \<notin> set p \<Longrightarrow> dsn_file (buildDSN p False) = p"
  using dsn_file_query [of p] by (simp add: buildDSN_def str_contains_char)

subsection \<open>The versioned cache\<close>

text \<open>
  One opening of a versioned cache at \<open>path\<close>, for a test whether it must be rebuilt and an
  initialisation. Both \<open>lockedOpenDB\<close> and \<open>lockedOpenKnowledgeDB\<close> are this function.
\<close>

definition open_versioned ::
    "('f disk \<Rightarrow> bool \<times> 'f disk) \<Rightarrow> (string \<Rightarrow> 'f disk \<Rightarrow> (string + string) \<times> 'f disk) \<Rightarrow> string \<Rightarrow>
     ('f, 'r) driver \<Rightarrow> os_faults \<Rightarrow> string \<Rightarrow> 'f db_disk \<Rightarrow> (string + string) \<times> 'f db_disk" where
  "open_versioned needs init stale dr ft path w =
     (case of_lock_open ft of
        Some e \<Rightarrow> (Inl (''open lock file: '' @ e), w)
      | None \<Rightarrow>
          (let w = w\<lparr>dk_locks := insert (path @ ''.lock'') (dk_locks w)\<rparr> in
           case of_flock ft of
             Some e \<Rightarrow> (Inl (''flock: '' @ e), w)
           | None \<Rightarrow>
               (let (rebuild, d1) = needs (dk_files w);
                    (failed, d2) = (if rebuild then remove_stale ft path db_suffixes d1 else (None, d1)) in
                case failed of
                  Some (f, e) \<Rightarrow> (Inl (stale @ f @ '': '' @ e), w\<lparr>dk_files := d2\<rparr>)
                | None \<Rightarrow>
                    (case dr_connect dr (buildDSN path False) of
                       Some e \<Rightarrow> (Inl (''open: '' @ e), w\<lparr>dk_files := d2\<rparr>)
                     | None \<Rightarrow> (let (r, d3) = init (buildDSN path False) d2 in (r, w\<lparr>dk_files := d3\<rparr>))))))"

lemma lockedOpenDB_versioned:
  "lockedOpenDB dr ft path = open_versioned (needsRebuild dr ft path) (initSchema dr) ''remove stale db '' dr ft path"
  by (rule ext) (simp only: lockedOpenDB_def open_versioned_def Let_def)

lemma lockedOpenKnowledgeDB_versioned:
  "lockedOpenKnowledgeDB dr ft path =
     open_versioned (knowledgeNeedsRebuild dr ft path) (initKnowledgeSchema dr) ''remove stale knowledge db '' dr ft path"
  by (rule ext) (simp only: lockedOpenKnowledgeDB_def open_versioned_def Let_def)

lemma remove_stale_beside:
  "remove_stale ft p ss d = (r, d') \<Longrightarrow> set ss \<subseteq> set db_suffixes \<Longrightarrow> same_beside p d d'"
  by (induction ft p ss d arbitrary: r d' rule: remove_stale.induct)
    (auto simp: same_beside_def own_files_def split: option.splits prod.splits)

lemma remove_stale_done:
  "remove_stale ft p ss d = (None, d') \<Longrightarrow> s \<in> set ss \<Longrightarrow> d' (p @ s) = None"
proof (induction ft p ss d arbitrary: d' rule: remove_stale.induct)
  case (2 ft p t ss d)
  have keep: "remove_stale ft p us e = (x, e') \<Longrightarrow> e q = None \<Longrightarrow> e' q = None" for us e x e' q
    by (induction ft p us e arbitrary: x e' rule: remove_stale.induct) (auto split: option.splits if_splits)
  have start: "(d(p @ t := None)) (p @ t) = None" by simp
  from 2 start show ?case by (auto simp del: fun_upd_apply split: option.splits intro: keep)
qed simp

lemma remove_stale_main:
  assumes "remove_stale ft p db_suffixes d = (f, d')" and "d p \<noteq> None"
  shows "case of_remove ft p of None \<Rightarrow> d' p = None | Some _ \<Rightarrow> f \<noteq> None \<and> d' = d"
proof (cases "of_remove ft p")
  case None
  have keep: "remove_stale ft p us x = (y, x') \<Longrightarrow> x q = None \<Longrightarrow> x' q = None" for us x y x' q
    by (induction ft p us x arbitrary: y x' rule: remove_stale.induct) (auto split: option.splits if_splits)
  have "remove_stale ft p [''-wal'', ''-shm''] (d(p := None)) = (f, d')"
    using assms None by (auto simp: db_suffixes_def simp del: remove_stale.simps(2)) (simp add: remove_stale.simps(2) [where suffix = "[]"])
  from keep [OF this, of p] None show ?thesis by simp
next
  case (Some e)
  with assms show ?thesis by (auto simp: db_suffixes_def)
qed

text \<open>The probe of the version succeeds.\<close>

definition version_read :: "('f, 'r) driver \<Rightarrow> string \<Rightarrow> 'f disk \<Rightarrow> bool" where
  "version_read dr dsn d \<longleftrightarrow> dr_connect dr dsn = None \<and> (\<exists>n. fst (dr_version dr dsn d) = Inr n)"

text \<open>
  The contract of the two parts, over the version \<open>current\<close> of the build. The test changes
  no view, and when it finds no reason to rebuild there is nothing at the path or a
  database of the current version. It finds a reason whenever the version is another one
  or cannot be read, and none when the version can be read and is the current one.
\<close>

locale versioned_cache =
  fixes current :: int
    and needs :: "('f, 'r) driver \<Rightarrow> os_faults \<Rightarrow> string \<Rightarrow> 'f disk \<Rightarrow> bool \<times> 'f disk"
    and init :: "('f, 'r) driver \<Rightarrow> string \<Rightarrow> 'f disk \<Rightarrow> (string + string) \<times> 'f disk"
    and probe :: "string \<Rightarrow> string"
  assumes needs_beside: "\<lbrakk>driver_ok e dr; plain_path p; needs dr ft p d = (b, d')\<rbrakk> \<Longrightarrow>
      same_beside p d d' \<and> dr_view dr p d' = dr_view dr p d"
    and needs_no: "\<lbrakk>driver_ok e dr; plain_path p; needs dr ft p d = (False, d')\<rbrakk> \<Longrightarrow>
      stat_missing ft d p \<and> d' = d \<or> (\<exists>rows. dr_view dr p d = Some (current, rows))"
    and needs_read: "\<lbrakk>driver_ok e dr; plain_path p; dr_view dr p d = Some (current, rows);
        dr_connect dr (probe p) = None; dr_version dr (probe p) d = (Inr v, d1)\<rbrakk> \<Longrightarrow>
      \<not> fst (needs dr ft p d)"
    and needs_unread: "\<lbrakk>driver_ok e dr; plain_path p; dr_view dr p d = Some (current, rows); \<not> version_read dr (probe p) d\<rbrakk> \<Longrightarrow>
      fst (needs dr ft p d)"
    and init_beside: "\<lbrakk>driver_ok e dr; init dr dsn d = (r, d')\<rbrakk> \<Longrightarrow> same_beside (dsn_file dsn) d d'"
    and init_some: "\<lbrakk>driver_ok e dr; init dr dsn d = (r, d'); dr_view dr (dsn_file dsn) d = Some (v, rows)\<rbrakk> \<Longrightarrow>
      dr_view dr (dsn_file dsn) d' = Some (if isl r then v else current, rows) \<or>
      dr_view dr (dsn_file dsn) d' = Some (current, rows)"
    and init_none: "\<lbrakk>driver_ok e dr; init dr dsn d = (Inr c, d'); dr_view dr (dsn_file dsn) d = None;
        no_journal (dsn_file dsn) d\<rbrakk> \<Longrightarrow> dr_view dr (dsn_file dsn) d' = Some (current, e)"
    and init_fresh: "\<lbrakk>driver_ok e dr; init dr dsn d = (r, d'); dr_view dr (dsn_file dsn) d = None;
        no_journal (dsn_file dsn) d\<rbrakk> \<Longrightarrow>
      dr_view dr (dsn_file dsn) d' = None \<or> (\<exists>u. dr_view dr (dsn_file dsn) d' = Some (u, e))"
begin

text \<open>What a caller gets: the rows that were there, if the cache could be read and has the current version, and an empty cache otherwise.\<close>

lemma opened_view:
  assumes ok: "driver_ok e dr" and p: "plain_path p"
    and op: "open_versioned (needs dr ft p) (init dr) stale dr ft p w = (Inr c, w')"
    and j: "dk_files w p = None \<Longrightarrow> no_journal p (dk_files w)"
  shows "dr_view dr p (dk_files w') =
    Some (current, if fst (needs dr ft p (dk_files w)) then e
                   else case dr_view dr p (dk_files w) of Some (_, rows) \<Rightarrow> rows | None \<Rightarrow> e)"
proof -
  obtain b d1 where n: "needs dr ft p (dk_files w) = (b, d1)" by fastforce
  obtain f d2 where s: "(if b then remove_stale ft p db_suffixes d1 else (None, d1)) = (f, d2)" by fastforce
  obtain r d3 where i: "init dr (buildDSN p False) d2 = (r, d3)" by fastforce
  have f: "f = None" and r: "r = Inr c" and w': "dk_files w' = d3"
    using op by (auto simp: open_versioned_def n s i Let_def split: option.splits prod.splits)
  have q: "dsn_file (buildDSN p False) = p"
    using p by (simp add: buildDSN_file plain_path_def)
  show ?thesis
  proof (cases b)
    case True
    have gone: "d2 (p @ x) = None" if "x \<in> set db_suffixes" for x
      using s f True that by (auto intro: remove_stale_done)
    have "d2 p = None" "no_journal p d2"
      using gone [of "''''"] gone [of "''-wal''"] gone [of "''-shm''"] by (auto simp: db_suffixes_def no_journal_def)
    then show ?thesis
      using init_none [OF ok i [unfolded r]] view_lawD(2) [OF ok, of d2 p] by (simp add: q w' n True)
  next
    case False
    then have d2: "d2 = d1" using s by simp
    from needs_no [OF ok p] n False
    consider (new) "stat_missing ft (dk_files w) p" "d1 = dk_files w"
      | (old) rows where "dr_view dr p (dk_files w) = Some (current, rows)" by metis
    then show ?thesis
    proof cases
      case new
      then have "dk_files w p = None" by (simp add: stat_missing_def)
      then show ?thesis
        using init_none [OF ok i [unfolded r]] view_lawD(2) [OF ok, of "dk_files w" p] j new
        by (simp add: q w' n False d2)
    next
      case (old rows)
      then have "dr_view dr p d2 = Some (current, rows)"
        using needs_beside [OF ok p n] d2 by simp
      then show ?thesis
        using init_some [OF ok i, of current rows] old by (auto simp: q w' n False split: if_splits)
    qed
  qed
qed

text \<open>Whatever fails: rows of the current version that can be read are still there afterwards.\<close>

lemma rows_survive:
  assumes ok: "driver_ok e dr" and p: "plain_path p"
    and v: "dr_view dr p (dk_files w) = Some (current, rows)"
    and c: "dr_connect dr (probe p) = None" "dr_version dr (probe p) (dk_files w) = (Inr u, d0)"
    and op: "open_versioned (needs dr ft p) (init dr) stale dr ft p w = (x, w')"
  shows "dr_view dr p (dk_files w') = Some (current, rows)"
proof -
  obtain d1 where n: "needs dr ft p (dk_files w) = (False, d1)"
    using needs_read [OF ok p v c, of ft] by (metis prod.exhaust_sel)
  obtain r d3 where i: "init dr (buildDSN p False) d1 = (r, d3)" by fastforce
  have q: "dsn_file (buildDSN p False) = p"
    using p by (simp add: buildDSN_file plain_path_def)
  have d1: "dr_view dr p d1 = Some (current, rows)"
    using needs_beside [OF ok p n] v by simp
  then have "dr_view dr p d3 = Some (current, rows)"
    using init_some [OF ok i, of current rows] by (auto simp: q split: if_splits)
  with d1 v op show ?thesis
    by (auto simp: open_versioned_def n i Let_def split: option.splits)
qed

text \<open>What becomes of rows of the current version.\<close>

lemma rows_fate:
  assumes ok: "driver_ok e dr" and p: "plain_path p"
    and v: "dr_view dr p (dk_files w) = Some (current, rows)"
    and op: "open_versioned (needs dr ft p) (init dr) stale dr ft p w = (x, w')"
  shows "if of_lock_open ft = None \<and> of_flock ft = None \<and> \<not> version_read dr (probe p) (dk_files w) \<and> of_remove ft p = None
    then dr_view dr p (dk_files w') = None \<or> (\<exists>u. dr_view dr p (dk_files w') = Some (u, e))
    else dr_view dr p (dk_files w') = Some (current, rows)"
proof -
  consider (early) "of_lock_open ft \<noteq> None \<or> of_flock ft \<noteq> None" | (read) "version_read dr (probe p) (dk_files w)"
    | (unread) "of_lock_open ft = None" "of_flock ft = None" "\<not> version_read dr (probe p) (dk_files w)" by blast
  then show ?thesis
  proof cases
    case early
    then have "dk_files w' = dk_files w" using op by (auto simp: open_versioned_def Let_def split: option.splits)
    with early v show ?thesis by auto
  next
    case read
    then obtain n d where "dr_connect dr (probe p) = None" "dr_version dr (probe p) (dk_files w) = (Inr n, d)"
      by (metis prod.collapse version_read_def)
    from rows_survive [OF ok p v this op] read show ?thesis by simp
  next
    case unread
    obtain d1 where n: "needs dr ft p (dk_files w) = (True, d1)"
      using needs_unread [OF ok p v unread(3), of ft] by (metis prod.exhaust_sel)
    have d1: "dr_view dr p d1 = Some (current, rows)" using needs_beside [OF ok p n] v by simp
    then have there: "d1 p \<noteq> None" using view_lawD(2) [OF ok, of d1 p] by auto
    obtain f d2 where s: "remove_stale ft p db_suffixes d1 = (f, d2)" by fastforce
    note main = remove_stale_main [OF s there]
    show ?thesis
    proof (cases "of_remove ft p")
      case (Some err)
      then have "f \<noteq> None" "d2 = d1" using main by auto
      then show ?thesis using op unread Some d1 by (auto simp: open_versioned_def n s Let_def)
    next
      case None
      have q: "dsn_file (buildDSN p False) = p" using p by (simp add: buildDSN_file plain_path_def)
      obtain r d3 where i: "init dr (buildDSN p False) d2 = (r, d3)" by fastforce
      have gone: "dr_view dr p d2 = None" using main None view_lawD(2) [OF ok, of d2 p] by simp
      have "no_journal p d2" if "f = None"
        using remove_stale_done [OF s [unfolded that]] by (simp add: no_journal_def db_suffixes_def)
      then have "dr_view dr p d3 = None \<or> (\<exists>u. dr_view dr p d3 = Some (u, e))" if "f = None"
        using init_fresh [OF ok i] gone that by (simp add: q)
      then show ?thesis
        using op unread None gone by (auto simp: open_versioned_def n s i Let_def split: option.splits)
    qed
  qed
qed

lemma opened_beside:
  assumes ok: "driver_ok e dr" and p: "plain_path p"
    and op: "open_versioned (needs dr ft p) (init dr) stale dr ft p w = (x, w')"
  shows "same_beside p (dk_files w) (dk_files w')"
proof -
  obtain b d1 where n: "needs dr ft p (dk_files w) = (b, d1)" by fastforce
  obtain f d2 where s: "(if b then remove_stale ft p db_suffixes d1 else (None, d1)) = (f, d2)" by fastforce
  obtain r d3 where i: "init dr (buildDSN p False) d2 = (r, d3)" by fastforce
  have q: "dsn_file (buildDSN p False) = p"
    using p by (simp add: buildDSN_file plain_path_def)
  have 1: "same_beside p (dk_files w) d1" using needs_beside [OF ok p n] by simp
  have "same_beside p d1 d2"
    using s by (auto split: if_splits dest: remove_stale_beside)
  with 1 have 2: "same_beside p (dk_files w) d2" by (rule same_beside_trans)
  moreover have "same_beside p (dk_files w) d3"
    using same_beside_trans [OF 2] init_beside [OF ok i] by (simp add: q)
  ultimately show ?thesis
    using op by (auto simp: open_versioned_def n s i Let_def split: option.splits prod.splits)
qed

end

subsection \<open>Both databases are versioned caches\<close>

interpretation lessons_cache: versioned_cache SchemaVersion needsRebuild initSchema "\<lambda>p. p"
proof
  fix e :: 'b and dr :: "('a, 'b) driver" and p ft d b d'
  assume ok: "driver_ok e dr" and p: "plain_path p"
  have q: "dsn_file p = p" using p by (simp add: dsn_file_plain plain_path_def)
  show "same_beside p d d' \<and> dr_view dr p d' = dr_view dr p d" if "needsRebuild dr ft p d = (b, d')"
    using that version_lawD(1,2) [OF ok, of p] by (auto simp: needsRebuild_def q split: if_splits option.splits prod.splits sum.splits)
next
  fix e :: 'b and dr :: "('a, 'b) driver" and p ft d d'
  assume ok: "driver_ok e dr" and p: "plain_path p" and n: "needsRebuild dr ft p d = (False, d')"
  have q: "dsn_file p = p" using p by (simp add: dsn_file_plain plain_path_def)
  show "stat_missing ft d p \<and> d' = d \<or> (\<exists>rows. dr_view dr p d = Some (SchemaVersion, rows))"
    using n version_lawD(3) [OF ok, of p d] 
    by (fastforce simp: needsRebuild_def q SchemaVersion_def split: if_splits option.splits prod.splits sum.splits)
next
  fix e :: 'b and dr :: "('a, 'b) driver" and p ft d rows v d1
  assume ok: "driver_ok e dr" and p: "plain_path p" and w: "dr_view dr p d = Some (SchemaVersion, rows)"
    and c: "dr_connect dr p = None" "dr_version dr p d = (Inr v, d1)"
  have q: "dsn_file p = p" using p by (simp add: dsn_file_plain plain_path_def)
  show "\<not> fst (needsRebuild dr ft p d)"
    using c w version_lawD(3) [OF ok c(2), of v] by (simp add: needsRebuild_def q)
next
  fix e :: 'b and dr :: "('a, 'b) driver" and p ft d rows
  assume ok: "driver_ok e dr" and p: "plain_path p" and w: "dr_view dr p d = Some (SchemaVersion, rows)"
    and c: "\<not> version_read dr p d"
  have there: "d p \<noteq> None" using w view_lawD(2) [OF ok, of d p] by auto
  show "fst (needsRebuild dr ft p d)"
    using c there by (auto simp: needsRebuild_def version_read_def stat_missing_def Let_def split: option.split prod.split sum.split)
next
  fix e :: 'b and dr :: "('a, 'b) driver" and dsn d r d'
  assume ok: "driver_ok e dr" and i: "initSchema dr dsn d = (r, d')"
  show "same_beside (dsn_file dsn) d d'"
    using i exec_lawD(1) [OF ok, of schemaDDL] set_lawD(1) [OF ok]
    by (auto simp: initSchema_def split: prod.splits option.splits) (meson same_beside_trans)+
next
  fix e :: 'b and dr :: "('a, 'b) driver" and dsn d r d' v rows
  assume ok: "driver_ok e dr" and i: "initSchema dr dsn d = (r, d')"
    and x: "dr_view dr (dsn_file dsn) d = Some (v, rows)"
  show "dr_view dr (dsn_file dsn) d' = Some (if isl r then v else SchemaVersion, rows) \<or>
        dr_view dr (dsn_file dsn) d' = Some (SchemaVersion, rows)"
    using i exec_lawD(2) [OF ok, of schemaDDL, OF _ _ x] set_lawD(2) [OF ok]
    by (auto simp: initSchema_def split: prod.splits option.splits)
next
  fix e :: 'b and dr :: "('a, 'b) driver" and dsn d c d'
  assume ok: "driver_ok e dr" and i: "initSchema dr dsn d = (Inr c, d')"
    and x: "dr_view dr (dsn_file dsn) d = None" "no_journal (dsn_file dsn) d"
  show "dr_view dr (dsn_file dsn) d' = Some (SchemaVersion, e)"
    using i exec_lawD(3) [OF ok, of schemaDDL, OF _ _ x] set_lawD(2) [OF ok]
    by (auto simp: initSchema_def split: prod.splits option.splits)
next
  fix e :: 'b and dr :: "('a, 'b) driver" and dsn d r d'
  assume ok: "driver_ok e dr" and i: "initSchema dr dsn d = (r, d')"
    and x: "dr_view dr (dsn_file dsn) d = None" "no_journal (dsn_file dsn) d"
  show "dr_view dr (dsn_file dsn) d' = None \<or> (\<exists>u. dr_view dr (dsn_file dsn) d' = Some (u, e))"
    using i exec_lawD(3) [OF ok, of schemaDDL, OF _ _ x] set_lawD(2) [OF ok]
    by (auto simp: initSchema_def split: prod.splits option.splits if_splits)
qed

interpretation knowledge_cache: versioned_cache KnowledgeSchemaVersion knowledgeNeedsRebuild initKnowledgeSchema
  "\<lambda>p. p @ ''?_pragma=busy_timeout(5000)''"
proof
  fix e :: 'b and dr :: "('a, 'b) driver" and p ft d b d'
  assume ok: "driver_ok e dr" and p: "plain_path p"
  have q: "dsn_file (p @ ''?_pragma=busy_timeout(5000)'') = p" using p by (simp add: dsn_file_query plain_path_def)
  show "same_beside p d d' \<and> dr_view dr p d' = dr_view dr p d" if "knowledgeNeedsRebuild dr ft p d = (b, d')"
    using that version_lawD(1,2) [OF ok, of "p @ ''?_pragma=busy_timeout(5000)''"]
    by (auto simp: knowledgeNeedsRebuild_def q Let_def split: if_splits option.splits prod.splits sum.splits)
next
  fix e :: 'b and dr :: "('a, 'b) driver" and p ft d d'
  assume ok: "driver_ok e dr" and p: "plain_path p" and n: "knowledgeNeedsRebuild dr ft p d = (False, d')"
  have q: "dsn_file (p @ ''?_pragma=busy_timeout(5000)'') = p" using p by (simp add: dsn_file_query plain_path_def)
  show "stat_missing ft d p \<and> d' = d \<or> (\<exists>rows. dr_view dr p d = Some (KnowledgeSchemaVersion, rows))"
    using n version_lawD(3) [OF ok, of "p @ ''?_pragma=busy_timeout(5000)''" d] 
    by (fastforce simp: knowledgeNeedsRebuild_def q Let_def KnowledgeSchemaVersion_def split: if_splits option.splits prod.splits sum.splits)
next
  fix e :: 'b and dr :: "('a, 'b) driver" and p ft d rows v d1
  assume ok: "driver_ok e dr" and p: "plain_path p" and w: "dr_view dr p d = Some (KnowledgeSchemaVersion, rows)"
    and c: "dr_connect dr (p @ ''?_pragma=busy_timeout(5000)'') = None"
           "dr_version dr (p @ ''?_pragma=busy_timeout(5000)'') d = (Inr v, d1)"
  have q: "dsn_file (p @ ''?_pragma=busy_timeout(5000)'') = p" using p by (simp add: dsn_file_query plain_path_def)
  show "\<not> fst (knowledgeNeedsRebuild dr ft p d)"
    using c w version_lawD(3) [OF ok c(2), of v] by (simp add: knowledgeNeedsRebuild_def q Let_def)
next
  fix e :: 'b and dr :: "('a, 'b) driver" and p ft d rows
  assume ok: "driver_ok e dr" and p: "plain_path p" and w: "dr_view dr p d = Some (KnowledgeSchemaVersion, rows)"
    and c: "\<not> version_read dr (p @ ''?_pragma=busy_timeout(5000)'') d"
  have there: "d p \<noteq> None" using w view_lawD(2) [OF ok, of d p] by auto
  show "fst (knowledgeNeedsRebuild dr ft p d)"
    using c there by (auto simp: knowledgeNeedsRebuild_def version_read_def stat_missing_def Let_def split: option.split prod.split sum.split)
next
  fix e :: 'b and dr :: "('a, 'b) driver" and dsn d r d'
  assume ok: "driver_ok e dr" and i: "initKnowledgeSchema dr dsn d = (r, d')"
  show "same_beside (dsn_file dsn) d d'"
    using i exec_lawD(1) [OF ok, of knowledgeSchemaDDL] set_lawD(1) [OF ok]
    by (auto simp: initKnowledgeSchema_def split: prod.splits option.splits) (meson same_beside_trans)+
next
  fix e :: 'b and dr :: "('a, 'b) driver" and dsn d r d' v rows
  assume ok: "driver_ok e dr" and i: "initKnowledgeSchema dr dsn d = (r, d')"
    and x: "dr_view dr (dsn_file dsn) d = Some (v, rows)"
  show "dr_view dr (dsn_file dsn) d' = Some (if isl r then v else KnowledgeSchemaVersion, rows) \<or>
        dr_view dr (dsn_file dsn) d' = Some (KnowledgeSchemaVersion, rows)"
    using i exec_lawD(2) [OF ok, of knowledgeSchemaDDL, OF _ _ x] set_lawD(2) [OF ok]
    by (auto simp: initKnowledgeSchema_def split: prod.splits option.splits)
next
  fix e :: 'b and dr :: "('a, 'b) driver" and dsn d c d'
  assume ok: "driver_ok e dr" and i: "initKnowledgeSchema dr dsn d = (Inr c, d')"
    and x: "dr_view dr (dsn_file dsn) d = None" "no_journal (dsn_file dsn) d"
  show "dr_view dr (dsn_file dsn) d' = Some (KnowledgeSchemaVersion, e)"
    using i exec_lawD(3) [OF ok, of knowledgeSchemaDDL, OF _ _ x] set_lawD(2) [OF ok]
    by (auto simp: initKnowledgeSchema_def split: prod.splits option.splits)
next
  fix e :: 'b and dr :: "('a, 'b) driver" and dsn d r d'
  assume ok: "driver_ok e dr" and i: "initKnowledgeSchema dr dsn d = (r, d')"
    and x: "dr_view dr (dsn_file dsn) d = None" "no_journal (dsn_file dsn) d"
  show "dr_view dr (dsn_file dsn) d' = None \<or> (\<exists>u. dr_view dr (dsn_file dsn) d' = Some (u, e))"
    using i exec_lawD(3) [OF ok, of knowledgeSchemaDDL, OF _ _ x] set_lawD(2) [OF ok]
    by (auto simp: initKnowledgeSchema_def split: prod.splits option.splits if_splits)
qed

subsection \<open>A driver over plain values\<close>

text \<open>A database file as a version and its rows, and a file that is no database.\<close>

datatype db_file = DbFile int "string list" | Garbage

definition plain_exec :: "string \<Rightarrow> db_file disk \<Rightarrow> string option \<times> db_file disk" where
  "plain_exec p d =
     (case d p of None \<Rightarrow> (None, d(p \<mapsto> DbFile 0 []))
      | Some (DbFile _ _) \<Rightarrow> (None, d)
      | Some Garbage \<Rightarrow> (Some ''file is not a database'', d))"

definition plain_view :: "string \<Rightarrow> db_file disk \<Rightarrow> (int \<times> string list) option" where
  "plain_view p d = (case d p of Some (DbFile v rows) \<Rightarrow> Some (v, rows) | _ \<Rightarrow> None)"

definition plain_driver :: "(db_file, string list) driver" where
  "plain_driver =
     \<lparr>dr_connect = (\<lambda>_. None),
      dr_version = (\<lambda>dsn d. case d (dsn_file dsn) of
          None \<Rightarrow> (Inr 0, d) | Some (DbFile v _) \<Rightarrow> (Inr v, d) | Some Garbage \<Rightarrow> (Inl ''file is not a database'', d)),
      dr_exec = (\<lambda>ddl dsn. plain_exec (dsn_file dsn)),
      dr_set_version = (\<lambda>n dsn d. case d (dsn_file dsn) of
          Some (DbFile _ rows) \<Rightarrow> (None, d(dsn_file dsn \<mapsto> DbFile n rows)) | _ \<Rightarrow> (Some ''file is not a database'', d)),
      dr_view = plain_view\<rparr>"

lemma plain_driver_ok: "driver_ok [] plain_driver"
proof -
  have own: "p \<in> own_files p" for p by (simp add: own_files_eq)
  have "view_law plain_driver"
    using own by (auto simp: view_law_def plain_driver_def plain_view_def)
  moreover have "version_law plain_driver"
    by (auto simp: version_law_def plain_driver_def plain_view_def split: option.splits db_file.splits)
  moreover have "exec_law [] plain_driver"
    using own by (auto simp: exec_law_def plain_driver_def plain_view_def plain_exec_def same_beside_def
        split: option.splits db_file.splits if_splits)
  moreover have "set_law plain_driver"
    using own by (auto simp: set_law_def plain_driver_def plain_view_def same_beside_def
        split: option.splits db_file.splits if_splits)
  ultimately show ?thesis by (simp add: driver_ok_def)
qed

subsection \<open>What the callers of OpenDB and OpenKnowledgeDB get\<close>

lemma OpenDB_plain: "plain_path p \<Longrightarrow> OpenDB dr ft p w =
    (case of_mkdir ft of Some e \<Rightarrow> (Inl (''create dir: '' @ e), w) | None \<Rightarrow> lockedOpenDB dr ft p w)"
  by (simp add: OpenDB_def plain_path_def)

lemma OpenKnowledgeDB_plain: "plain_path p \<Longrightarrow> OpenKnowledgeDB dr ft p w =
    (case of_mkdir ft of Some e \<Rightarrow> (Inl (''create dir: '' @ e), w) | None \<Rightarrow> lockedOpenKnowledgeDB dr ft p w)"
  by (simp add: OpenKnowledgeDB_def plain_path_def)

text \<open>
  The one way in which opening discards a current database: the open gets as far as the test, the version cannot be
  read, and the file can be removed.
\<close>

definition discards :: "('f, 'r) driver \<Rightarrow> os_faults \<Rightarrow> string \<Rightarrow> 'f disk \<Rightarrow> bool" where
  "discards dr ft p d \<longleftrightarrow> of_mkdir ft = None \<and> of_lock_open ft = None \<and> of_flock ft = None \<and>
     \<not> version_read dr p d \<and> of_remove ft p = None"

lemma OpenDB_fate:
  assumes "driver_ok e dr" and p: "plain_path p" and v: "dr_view dr p (dk_files w) = Some (SchemaVersion, rows)"
  shows "if discards dr ft p (dk_files w)
    then dr_view dr p (dk_files (snd (OpenDB dr ft p w))) = None \<or> (\<exists>u. dr_view dr p (dk_files (snd (OpenDB dr ft p w))) = Some (u, e))
    else dr_view dr p (dk_files (snd (OpenDB dr ft p w))) = Some (SchemaVersion, rows)"
proof (cases "of_mkdir ft")
  case None
  obtain x w' where "open_versioned (needsRebuild dr ft p) (initSchema dr) ''remove stale db '' dr ft p w = (x, w')" by fastforce
  with lessons_cache.rows_fate [OF assms this] None show ?thesis
    by (simp add: OpenDB_plain [OF p] lockedOpenDB_versioned discards_def)
next
  case (Some m)
  then show ?thesis using v by (simp add: OpenDB_plain [OF p] discards_def)
qed

lemma OpenKnowledgeDB_beside:
  assumes "driver_ok e dr" and p: "plain_path p"
  shows "same_beside p (dk_files w) (dk_files (snd (OpenKnowledgeDB dr ft p w)))"
  using knowledge_cache.opened_beside [OF assms, of ft]
  by (auto simp: OpenKnowledgeDB_plain [OF p] lockedOpenKnowledgeDB_versioned split: option.splits prod.splits)
    (metis prod.collapse)

text \<open>
  C0: opening the lessons database succeeds only with a database of the current schema
  version. Its rows are those that were there if they were of the current version, and
  none otherwise: rows of another version never reach the caller, and rows of the current
  version are kept whenever the version can be read.
\<close>

theorem OpenDB_migrates:
  assumes ok: "driver_ok e dr" and p: "plain_path path"
    and j: "dk_files w path = None \<Longrightarrow> no_journal path (dk_files w)"
    and op: "OpenDB dr ft path w = (Inr c, w')"
  shows "\<exists>rows. dr_view dr path (dk_files w') = Some (SchemaVersion, rows) \<and>
    (rows = e \<or> dr_view dr path (dk_files w) = Some (SchemaVersion, rows)) \<and>
    (\<forall>old v d. dr_view dr path (dk_files w) = Some (SchemaVersion, old) \<longrightarrow> dr_connect dr path = None \<longrightarrow>
       dr_version dr path (dk_files w) = (Inr v, d) \<longrightarrow> rows = old)"
proof -
  have op': "open_versioned (needsRebuild dr ft path) (initSchema dr) ''remove stale db '' dr ft path w = (Inr c, w')"
    using op by (simp add: OpenDB_plain [OF p] lockedOpenDB_versioned split: option.splits)
  let ?v = "dr_view dr path (dk_files w)" and ?b = "fst (needsRebuild dr ft path (dk_files w))"
  let ?rows = "if ?b then e else case ?v of Some (_, rows) \<Rightarrow> rows | None \<Rightarrow> e"
  have 1: "dr_view dr path (dk_files w') = Some (SchemaVersion, ?rows)"
    by (rule lessons_cache.opened_view [OF ok p op' j])
  have 2: "?rows = e \<or> ?v = Some (SchemaVersion, ?rows)"
    using lessons_cache.needs_no [OF ok p, of ft "dk_files w"] view_lawD(2) [OF ok, of "dk_files w" path]
    by (cases "needsRebuild dr ft path (dk_files w)") (auto simp: stat_missing_def)
  have 3: "?rows = old" if "?v = Some (SchemaVersion, old)" "dr_connect dr path = None" "dr_version dr path (dk_files w) = (Inr v, d)" for old v d
    using lessons_cache.needs_read [OF ok p that, of ft] that by simp
  from 1 2 3 show ?thesis by blast
qed

text \<open>
  C0: opening the lessons database keeps rows of the current version, with one exception: when the open gets as far as
  testing the version, the version cannot be read (the probe opens the file without a busy timeout), and the file can
  be removed, they are gone, and what is there then is nothing or an empty database. In every other case, whatever call
  fails, they are still in the file afterwards. Opening the knowledge database of the repository, with any
  outcome, changes nothing in the lessons database.
\<close>

theorem OpenDB_keeps_rows:
  assumes ok: "driver_ok e dr" and root: "CHR ''?'' \<notin> set repoRoot"
    and v: "dr_view dr (repoRoot @ ''/'' @ DBPath) (dk_files w) = Some (SchemaVersion, rows)"
  shows "(if discards dr ft (repoRoot @ ''/'' @ DBPath) (dk_files w)
     then dr_view dr (repoRoot @ ''/'' @ DBPath) (dk_files (snd (OpenRepoDB dr ft repoRoot w))) = None \<or>
       (\<exists>u. dr_view dr (repoRoot @ ''/'' @ DBPath) (dk_files (snd (OpenRepoDB dr ft repoRoot w))) = Some (u, e))
     else dr_view dr (repoRoot @ ''/'' @ DBPath) (dk_files (snd (OpenRepoDB dr ft repoRoot w))) = Some (SchemaVersion, rows)) \<and>
    dr_view dr (repoRoot @ ''/'' @ DBPath) (dk_files (snd (OpenRepoKnowledgeDB dr ft repoRoot w))) = Some (SchemaVersion, rows)"
proof -
  let ?p = "repoRoot @ ''/'' @ DBPath" and ?k = "repoRoot @ ''/'' @ KnowledgeDBPath"
  have long: "length ?p > length memory_path" "length ?k > length memory_path"
    by (simp_all add: DBPath_def KnowledgeDBPath_def memory_path_def)
  have p: "plain_path ?p" and k: "plain_path ?k"
    using root arg_cong [of _ _ length] long unfolding plain_path_def
    by (force simp: DBPath_def KnowledgeDBPath_def memory_path_def)+
  have "q \<notin> own_files ?k" if "q \<in> own_files ?p" for q
    using that by (auto simp: own_files_eq DBPath_def KnowledgeDBPath_def)
  then have "dr_view dr ?p (dk_files (snd (OpenKnowledgeDB dr ft ?k w))) = dr_view dr ?p (dk_files w)"
    using OpenKnowledgeDB_beside [OF ok k, of w ft] by (intro view_lawD(1) [OF ok]) (simp add: same_beside_def)
  then have "dr_view dr ?p (dk_files (snd (OpenRepoKnowledgeDB dr ft repoRoot w))) = Some (SchemaVersion, rows)"
    by (simp only: OpenRepoKnowledgeDB_def v)
  then show ?thesis using OpenDB_fate [OF ok p v, of ft] by (simp only: OpenRepoDB_def)
qed

definition sample_db :: string where
  "sample_db = ''/r/.claude/.cache/lessons.sqlite''"

definition sample_disk :: "int \<Rightarrow> db_file db_disk" where
  "sample_disk v = \<lparr>dk_files = [sample_db \<mapsto> DbFile v [''L1'']], dk_locks = {}\<rparr>"

lemma sample_opened:
  "fst (OpenDB plain_driver no_faults sample_db (sample_disk 7)) = Inr (buildDSN sample_db False)"
  "fst (OpenDB plain_driver no_faults sample_db (sample_disk 6)) = Inr (buildDSN sample_db False)"
proof -
  have q: "CHR ''?'' \<notin> set sample_db" by (simp add: sample_db_def)
  then have p: "plain_path sample_db" by (simp add: plain_path_def sample_db_def memory_path_def)
  note ev = OpenDB_plain [OF p] lockedOpenDB_def needsRebuild_def initSchema_def stat_missing_def no_faults_def sample_disk_def
    plain_driver_def plain_exec_def SchemaVersion_def db_suffixes_def dsn_file_plain [OF q] buildDSN_file [OF q] Let_def
  show "fst (OpenDB plain_driver no_faults sample_db (sample_disk 7)) = Inr (buildDSN sample_db False)" by (simp add: ev)
  show "fst (OpenDB plain_driver no_faults sample_db (sample_disk 6)) = Inr (buildDSN sample_db False)" by (simp add: ev)
qed

theorem OpenDB_migrates_witness:
  "\<exists>rows. plain_view sample_db (dk_files (snd (OpenDB plain_driver no_faults sample_db (sample_disk 6)))) = Some (7, rows) \<and> rows = []"
proof -
  have p: "plain_path sample_db" by (simp add: plain_path_def sample_db_def memory_path_def)
  have j: "no_journal sample_db (dk_files (sample_disk 6))"
    by (simp add: no_journal_def sample_disk_def sample_db_def)
  have op: "OpenDB plain_driver no_faults sample_db (sample_disk 6) =
      (Inr (buildDSN sample_db False), snd (OpenDB plain_driver no_faults sample_db (sample_disk 6)))"
    using sample_opened(2) by (metis prod.collapse)
  have old: "plain_view sample_db (dk_files (sample_disk 6)) = Some (6, [''L1''])"
    by (simp add: plain_view_def sample_disk_def)
  show ?thesis
    using OpenDB_migrates [OF plain_driver_ok p j op] old by (simp add: plain_driver_def SchemaVersion_def)
qed

text \<open>A driver whose version query is refused, as when another process holds the file locked.\<close>

definition busy_driver :: "(db_file, string list) driver" where
  "busy_driver = plain_driver\<lparr>dr_version := (\<lambda>dsn d. (Inl ''database is locked'', d))\<rparr>"

lemma busy_driver_ok: "driver_ok [] busy_driver"
  using plain_driver_ok
  by (simp add: driver_ok_def busy_driver_def view_law_def version_law_def exec_law_def set_law_def)

theorem OpenDB_keeps_rows_witness:
  "plain_view sample_db (dk_files (snd (OpenRepoDB plain_driver (no_faults\<lparr>of_flock := Some ''busy''\<rparr>) ''/r'' (sample_disk 7)))) = Some (7, [''L1'']) \<and>
   plain_view sample_db (dk_files (snd (OpenRepoDB busy_driver no_faults ''/r'' (sample_disk 7)))) \<noteq> Some (7, [''L1''])"
proof -
  have path: "''/r'' @ ''/'' @ DBPath = sample_db" by (simp add: DBPath_def sample_db_def)
  have view: "dr_view plain_driver = plain_view" "dr_view busy_driver = plain_view"
    by (simp_all add: plain_driver_def busy_driver_def)
  have v: "plain_view sample_db (dk_files (sample_disk 7)) = Some (SchemaVersion, [''L1''])"
    by (simp add: plain_view_def sample_disk_def SchemaVersion_def)
  have root: "CHR ''?'' \<notin> set ''/r''" by simp
  have kept: "\<not> discards plain_driver (no_faults\<lparr>of_flock := Some ''busy''\<rparr>) sample_db (dk_files (sample_disk 7))"
    by (simp add: discards_def)
  have gone: "discards busy_driver no_faults sample_db (dk_files (sample_disk 7))"
    by (simp add: discards_def version_read_def busy_driver_def no_faults_def)
  note keeps_rows = OpenDB_keeps_rows [where repoRoot = "''/r''", unfolded path]
  show ?thesis
    using keeps_rows [OF plain_driver_ok root v [folded view(1)], of "no_faults\<lparr>of_flock := Some ''busy''\<rparr>"] kept
      keeps_rows [OF busy_driver_ok root v [folded view(2)], of no_faults] gone
    by (auto simp: view SchemaVersion_def)
qed

end
