(* ===== verification/Maintenance.thy ===== *)
theory Maintenance
  imports Crud
begin

section \<open>The maintenance commands (cli/commands_maintenance.go)\<close>

text \<open>
  compact, rebuild, stats, export, import and prime over the lessons file and the index.
  What \<open>OpenRepoDB\<close> returned is part of the state (its own model is the theory \<open>Database\<close>), with
  the faults of the calls that follow. A command returns the texts it printed, an error and
  the new state.
\<close>

record maint_world =
  mw_base :: crud_world                 \<comment> \<open>the lessons file, as the lesson commands see it\<close>
  mw_compact :: compact_fault
  mw_open :: "string option"            \<comment> \<open>the error of OpenRepoDB\<close>
  mw_db :: lesson_db
  mw_dbFault :: db_fault
  mw_mtime :: "int option"              \<comment> \<open>what os.Stat of the lessons file gives when the index is rebuilt\<close>
  mw_jsonlSize :: "int option"
  mw_sqliteSize :: "int option"

datatype maint_error =
    MCount store_error
  | MCompact store_error
  | MOpenDB string
  | MRebuild db_error
  | MRead store_error
  | MSince string
  | MOpenImport
  | MWriteItem string store_error
  | MReadImport

type_synonym maint_result = "(string list \<times> maint_error option) \<times> maint_world"

definition mw_opened :: "maint_world \<Rightarrow> opened" where
  "mw_opened w = (if cr_openFails (mw_base w) then OpenFails else open_file (cr_lessons (mw_base w)))"

definition mw_set_lessons :: "string option \<Rightarrow> maint_world \<Rightarrow> maint_world" where
  "mw_set_lessons f w = w\<lparr>mw_base := (mw_base w)\<lparr>cr_lessons := f\<rparr>\<rparr>"

definition line :: "string \<Rightarrow> string" where
  "line s = s @ nl"

subsection \<open>compact and rebuild\<close>

definition rebuildAfterCompact :: "maint_world \<Rightarrow> maint_result" where
  "rebuildAfterCompact w =
     (case mw_open w of
        Some e \<Rightarrow> (([], Some (MOpenDB e)), w)
      | None \<Rightarrow> (case RebuildIndex (mw_dbFault w) (mw_db w) (mw_opened w) (mw_mtime w) of
            (Some e, db) \<Rightarrow> (([], Some (MRebuild e)), w\<lparr>mw_db := db\<rparr>)
          | (None, db) \<Rightarrow> (([line ''SQLite index rebuilt.''], None), w\<lparr>mw_db := db\<rparr>)))"

definition compaction_status :: "string \<Rightarrow> nat \<Rightarrow> string" where
  "compaction_status status cnt =
     line (''Compaction '' @ status @ '' ('' @ show_int (int cnt) @ '' tombstones, threshold is '' @ show_int (int TombstoneThreshold) @ '').'')"

definition runCompact :: "maint_world \<Rightarrow> bool \<Rightarrow> bool \<Rightarrow> maint_result" where
  "runCompact w force dryRun =
     (case CountTombstones (mw_opened w) of
        (_, Some e) \<Rightarrow> (([], Some (MCount e)), w)
      | (cnt, None) \<Rightarrow>
          if dryRun then (([compaction_status (if cnt \<ge> TombstoneThreshold then ''needed'' else ''not needed'') cnt], None), w)
          else if \<not> force \<and> cnt < TombstoneThreshold then (([compaction_status ''not needed'' cnt], None), w)
          else case Compact (mw_compact w) (cr_openFails (mw_base w)) \<lparr>fs_target = cr_lessons (mw_base w), fs_temp = None\<rparr> of
              ((Some e, _), d) \<Rightarrow> (([], Some (MCompact e)), mw_set_lessons (fs_target d) w)
            | ((None, result), d) \<Rightarrow>
                (let out = [''Compacted: '' @ show_int (int (TombstonesRemoved result)) @ '' tombstones removed, '' @
                              show_int (int (LessonsRemaining result)) @ '' lessons remaining''] @
                           (if DroppedInvalid result > 0 then ['', '' @ show_int (int (DroppedInvalid result)) @ '' invalid dropped''] else []) @
                           [line ''.''];
                     ((out2, err), w') = rebuildAfterCompact (mw_set_lessons (fs_target d) w)
                 in ((out @ out2, err), w')))"

definition rebuildCmd :: "maint_world \<Rightarrow> bool \<Rightarrow> maint_result" where
  "rebuildCmd w force =
     (case mw_open w of
        Some e \<Rightarrow> (([], Some (MOpenDB e)), w)
      | None \<Rightarrow>
          if force then
            (case RebuildIndex (mw_dbFault w) (mw_db w) (mw_opened w) (mw_mtime w) of
               (Some e, db) \<Rightarrow> (([], Some (MRebuild e)), w\<lparr>mw_db := db\<rparr>)
             | (None, db) \<Rightarrow> (([line ''Rebuilt SQLite index from JSONL.''], None), w\<lparr>mw_db := db\<rparr>))
          else
            (case SyncIfNeeded (mw_dbFault w) (mw_db w) (mw_opened w) (mw_mtime w) False of
               ((_, Some e), db) \<Rightarrow> (([], Some (MRebuild e)), w\<lparr>mw_db := db\<rparr>)
             | ((rebuilt, None), db) \<Rightarrow>
                 (([line (if rebuilt then ''Rebuilt SQLite index from JSONL.'' else ''SQLite index is up to date.'')], None), w\<lparr>mw_db := db\<rparr>)))"

subsection \<open>stats\<close>

record stats_data =
  sd_totalItems :: nat
  sd_tombstones :: nat
  sd_skippedCount :: nat
  sd_typeCounts :: "(string, nat) gomap"
  sd_under30 :: nat
  sd_between30_90 :: nat
  sd_over90 :: nat
  sd_unknownAge :: nat
  sd_totalRetrievals :: int
  sd_jsonlSize :: int
  sd_sqliteSize :: int

text \<open>A counter of a Go map: a missing key reads as 0.\<close>

definition count_up :: "'k \<Rightarrow> ('k, nat) gomap \<Rightarrow> ('k, nat) gomap" where
  "count_up k m = AList.update k (Suc (case map_of m k of None \<Rightarrow> 0 | Some n \<Rightarrow> n)) m"

text \<open>\<open>now.Sub(created)\<close> keeps to the range of a duration.\<close>

definition time_sub :: "int \<Rightarrow> int \<Rightarrow> int" where
  "time_sub t u = max (- (2 ^ 63)) (min (2 ^ 63 - 1) (t - u))"

text \<open>Whole days, cut towards zero.\<close>

definition whole_days :: "int \<Rightarrow> int" where
  "whole_days d = (if d < 0 then - ((- d) div day_ns) else d div day_ns)"

definition collect_item :: "int \<Rightarrow> stats_data \<Rightarrow> item \<Rightarrow> stats_data" where
  "collect_item now s0 it =
     (let s = s0\<lparr>sd_typeCounts := count_up (Type it) (sd_typeCounts s0),
                sd_totalRetrievals := sd_totalRetrievals s0 + (case RetrievalCount it of None \<Rightarrow> 0 | Some n \<Rightarrow> n)\<rparr>
      in case parse_rfc3339 (Created it) of
           None \<Rightarrow> s\<lparr>sd_unknownAge := sd_unknownAge s + 1\<rparr>
         | Some created \<Rightarrow>
             (let days = whole_days (time_sub now created) in
              if days < 30 then s\<lparr>sd_under30 := sd_under30 s + 1\<rparr>
              else if days \<le> 90 then s\<lparr>sd_between30_90 := sd_between30_90 s + 1\<rparr>
              else s\<lparr>sd_over90 := sd_over90 s + 1\<rparr>))"

definition fileSize :: "int option \<Rightarrow> int" where
  "fileSize stat = (case stat of None \<Rightarrow> 0 | Some n \<Rightarrow> n)"

definition collectStats :: "maint_world \<Rightarrow> item list \<Rightarrow> nat \<Rightarrow> nat \<Rightarrow> stats_data" where
  "collectStats w items tombstones skippedCount =
     (let s = foldl (collect_item (instant (cr_now (mw_base w))))
                \<lparr>sd_totalItems = length items, sd_tombstones = tombstones, sd_skippedCount = skippedCount, sd_typeCounts = [],
                 sd_under30 = 0, sd_between30_90 = 0, sd_over90 = 0, sd_unknownAge = 0, sd_totalRetrievals = 0,
                 sd_jsonlSize = 0, sd_sqliteSize = 0\<rparr> items
      in s\<lparr>sd_jsonlSize := fileSize (mw_jsonlSize w), sd_sqliteSize := fileSize (mw_sqliteSize w)\<rparr>)"

text \<open>
  \<open>%.1f\<close> of the quotient by a power of two, which a float holds exactly for every file size:
  the tenths, rounded to the nearest and half to even.
\<close>

definition tenths :: "int \<Rightarrow> int \<Rightarrow> int" where
  "tenths b unit =
     (let q = (b * 10) div unit; r = (b * 10) mod unit
      in if 2 * r > unit \<or> (2 * r = unit \<and> odd q) then q + 1 else q)"

definition show_tenths :: "int \<Rightarrow> string" where
  "show_tenths t = show_int (t div 10) @ ''.'' @ show_int (t mod 10)"

definition formatBytes :: "int \<Rightarrow> string" where
  "formatBytes b =
     (let KB = 1024; MB = KB * 1024 in
      if b \<ge> MB then show_tenths (tenths b MB) @ '' MB''
      else if b \<ge> KB then show_tenths (tenths b KB) @ '' KB''
      else show_int b @ '' B'')"

text \<open>\<open>order\<close> is the order in which the map of type counts is ranged over.\<close>

definition formatStats :: "((string \<times> nat) list \<Rightarrow> (string \<times> nat) list) \<Rightarrow> stats_data \<Rightarrow> string" where
  "formatStats order s =
     line (''Lessons:     '' @ show_int (int (sd_totalItems s))) @
     line (''Tombstones:  '' @ show_int (int (sd_tombstones s))) @
     (if sd_skippedCount s > 0 then line (''Corrupted:   '' @ show_int (int (sd_skippedCount s))) else []) @
     (if length (sd_typeCounts s) > 1 \<or>
         (length (sd_typeCounts s) = 1 \<and> (case map_of (sd_typeCounts s) TypeLesson of None \<Rightarrow> 0 | Some n \<Rightarrow> n) = 0)
      then nl @ line ''Type breakdown:'' @
           concat (map (\<lambda>(typ, cnt). line (''  '' @ typ @ '': '' @ show_int (int cnt))) (order (sd_typeCounts s)))
      else []) @
     nl @ line ''Age breakdown:'' @
     line (''  <30d:   '' @ show_int (int (sd_under30 s))) @
     line (''  30-90d: '' @ show_int (int (sd_between30_90 s))) @
     line (''  >90d:   '' @ show_int (int (sd_over90 s))) @
     (if sd_unknownAge s > 0 then line (''  unknown: '' @ show_int (int (sd_unknownAge s))) else []) @
     nl @ line (''Retrievals:  '' @ show_int (sd_totalRetrievals s) @ '' total'') @
     nl @ line ''Storage:'' @
     line (''  JSONL:  '' @ formatBytes (sd_jsonlSize s)) @
     line (''  SQLite: '' @ formatBytes (sd_sqliteSize s))"

definition runStats :: "((string \<times> nat) list \<Rightarrow> (string \<times> nat) list) \<Rightarrow> maint_world \<Rightarrow> maint_result" where
  "runStats order w =
     (case ReadItems (mw_opened w) of Inl e \<Rightarrow> (([], Some (MRead e)), w)
      | Inr result \<Rightarrow>
          (case CountTombstones (mw_opened w) of
             (_, Some e) \<Rightarrow> (([], Some (MCount e)), w)
           | (tombstones, None) \<Rightarrow>
               (([formatStats order (collectStats w (Items result) tombstones (SkippedCount result))], None), w)))"

subsection \<open>export\<close>

text \<open>\<open>time.Parse("2006-01-02", s)\<close>: midnight UTC of a date without anything behind it.\<close>

definition parse_date :: "string \<Rightarrow> int option" where
  "parse_date s0 =
     Option.bind (parse_year s0) (\<lambda>(y, s1).
     Option.bind (expect (CHR ''-'') s1) (\<lambda>s2.
     Option.bind (getnum True s2) (\<lambda>(m, s3).
     Option.bind (if m = 0 \<or> 12 < m then None else expect (CHR ''-'') s3) (\<lambda>s4.
     Option.bind (getnum True s4) (\<lambda>(d, s5).
       if s5 \<noteq> [] \<or> d < 1 \<or> month_days y m < d then None
       else Some (instant \<lparr>dt_year = y, dt_month = m, dt_day = d, dt_hour = 0, dt_minute = 0, dt_second = 0, dt_nanos = 0\<rparr>))))))"

text \<open>The result is None when the flag was not given.\<close>

definition parseSinceFlag :: "string \<Rightarrow> maint_error + int option" where
  "parseSinceFlag since =
     (if since = [] then Inr None
      else case parse_rfc3339 since of
          Some t \<Rightarrow> Inr (Some t)
        | None \<Rightarrow> (case parse_date since of Some t \<Rightarrow> Inr (Some t) | None \<Rightarrow> Inl (MSince since)))"

definition parseTagFilter :: "string \<Rightarrow> string list" where
  "parseTagFilter tags =
     (if tags = [] then [] else filter (\<lambda>t. t \<noteq> []) (map trim_space (split_on (CHR '','') tags)))"

definition matchesAnyTag :: "string list \<Rightarrow> string list \<Rightarrow> bool" where
  "matchesAnyTag itemTags filterTags = list_ex (\<lambda>ft. ft \<in> set itemTags) filterTags"

text \<open>Marshalling an item cannot fail, so the second count of the code stays 0.\<close>

fun exportItems :: "int option \<Rightarrow> string list \<Rightarrow> item list \<Rightarrow> string list \<times> nat" where
  "exportItems since tagFilter [] = ([], 0)"
| "exportItems since tagFilter (it # its) =
     (let (out, skippedDate) = exportItems since tagFilter its;
          emitted = (if tagFilter \<noteq> [] \<and> \<not> matchesAnyTag (tag_list it) tagFilter then out else line (item_line it) # out)
      in case since of
           None \<Rightarrow> (emitted, skippedDate)
         | Some sinceTime \<Rightarrow>
             (case parse_rfc3339 (Created it) of
                None \<Rightarrow> (out, Suc skippedDate)
              | Some created \<Rightarrow> if created < sinceTime then (out, skippedDate) else (emitted, skippedDate)))"

definition runExport :: "maint_world \<Rightarrow> string \<Rightarrow> string \<Rightarrow> maint_result" where
  "runExport w since tags =
     (case ReadItems (mw_opened w) of Inl e \<Rightarrow> (([], Some (MRead e)), w)
      | Inr result \<Rightarrow>
          (case parseSinceFlag since of Inl e \<Rightarrow> (([], Some e), w)
           | Inr sinceTime \<Rightarrow>
               (let (out, skippedDate) = exportItems sinceTime (parseTagFilter tags) (Items result)
                in ((out @ (if skippedDate > 0
                            then [line (''[warn] Export skipped '' @ show_int (int skippedDate) @ '' unparseable date(s), 0 marshal error(s)'')]
                            else []), None), w))))"

subsection \<open>import\<close>

record import_counts =
  ic_imported :: nat
  ic_skipped :: nat
  ic_invalid :: nat

definition loadExistingIDs :: "crud_world \<Rightarrow> maint_error + string list" where
  "loadExistingIDs w =
     (case cr_read w of Inl e \<Rightarrow> Inl (MRead e) | Inr existing \<Rightarrow> Inr (map ID (Items existing)))"

text \<open>The loop over the non-empty lines; it stops at the first append that fails.\<close>

fun import_lines :: "string list \<Rightarrow> import_counts \<Rightarrow> crud_world \<Rightarrow> string list \<Rightarrow> (import_counts \<times> maint_error option) \<times> crud_world" where
  "import_lines ids c w [] = ((c, None), w)"
| "import_lines ids c w (l # ls) =
     (case unmarshal_item l of
        None \<Rightarrow> import_lines ids (c\<lparr>ic_invalid := ic_invalid c + 1\<rparr>) w ls
      | Some it \<Rightarrow>
          if ValidateItem it \<noteq> None then import_lines ids (c\<lparr>ic_invalid := ic_invalid c + 1\<rparr>) w ls
          else if ID it \<in> set ids then import_lines ids (c\<lparr>ic_skipped := ic_skipped c + 1\<rparr>) w ls
          else case cr_append w it of
              (Some e, w') \<Rightarrow> ((c, Some (MWriteItem (ID it) e)), w')
            | (None, w') \<Rightarrow> import_lines (ID it # ids) (c\<lparr>ic_imported := ic_imported c + 1\<rparr>) w' ls)"

definition importItems :: "crud_world \<Rightarrow> string \<Rightarrow> string list \<Rightarrow> (import_counts \<times> maint_error option) \<times> crud_world" where
  "importItems w f existingIDs =
     (let (ls, long) = scan_lines f in
      case import_lines existingIDs \<lparr>ic_imported = 0, ic_skipped = 0, ic_invalid = 0\<rparr> w (content_lines ls) of
        ((c, Some e), w') \<Rightarrow> ((c, Some e), w')
      | ((c, None), w') \<Rightarrow> ((c, if long then Some MReadImport else None), w'))"

text \<open>\<open>f\<close> is the result of \<open>os.Open\<close> of the import file.\<close>

definition runImport :: "maint_world \<Rightarrow> string option \<Rightarrow> maint_result" where
  "runImport w f =
     (case f of None \<Rightarrow> (([], Some MOpenImport), w)
      | Some s \<Rightarrow>
          (case loadExistingIDs (mw_base w) of Inl e \<Rightarrow> (([], Some e), w)
           | Inr existingIDs \<Rightarrow>
               (case importItems (mw_base w) s existingIDs of
                  ((_, Some e), b) \<Rightarrow> (([], Some e), w\<lparr>mw_base := b\<rparr>)
                | ((c, None), b) \<Rightarrow>
                    (([line (''Imported '' @ show_int (int (ic_imported c)) @ '' lessons ('' @ show_int (int (ic_skipped c)) @ '' skipped, '' @
                             show_int (int (ic_invalid c)) @ '' invalid).'')], None), w\<lparr>mw_base := b\<rparr>))))"

subsection \<open>prime\<close>

definition trustLanguage :: string where
  "trustLanguage = concat (map line
    [''# Compound Agent Active'',
     [],
     ''> **Context Recovery**: Run '' @ [CHR 0x60] @ ''npx ca prime'' @ [CHR 0x60] @ '' after compaction, clear, or new session'',
     [],
     ''## CLI Commands (ALWAYS USE THESE)'',
     [],
     ''**You MUST use CLI commands for lesson management:**'',
     [],
     ''| Command | Purpose |'',
     ''|---------|---------|'',
     ''| '' @ [CHR 0x60] @ ''npx ca search '' @ [CHR 0x22] @ ''query'' @ [CHR 0x22, CHR 0x60] @ '' | Search lessons - MUST call before architectural decisions; use anytime you need context |'',
     ''| '' @ [CHR 0x60] @ ''npx ca learn '' @ [CHR 0x22] @ ''insight'' @ [CHR 0x22, CHR 0x60] @ '' | Capture lessons - call AFTER corrections or discoveries |'',
     [],
     ''## Core Constraints'',
     [],
     ''**Default**: Use CLI commands for lesson management'',
     ''**Prohibited**: NEVER edit .claude/lessons/ files directly'',
     [],
     ''**Default**: Propose lessons freely after corrections'',
     ''**Prohibited**: NEVER propose without quality gate (novel + specific; prefer actionable)'',
     [],
     ''## Retrieval Protocol'',
     [],
     ''You MUST call '' @ [CHR 0x60] @ ''npx ca search'' @ [CHR 0x60] @ '' BEFORE:'',
     ''- Architectural decisions or complex planning'',
     ''- Implementing patterns you'' @ [CHR 0x27] @ ''ve done before in this repo'',
     [],
     ''**NEVER skip search for complex decisions.** Past mistakes will repeat.'',
     [],
     ''Beyond mandatory triggers, use these commands freely '' @ [CHR 0xE2, CHR 0x80, CHR 0x94] @ '' they are lightweight queries, not heavyweight operations. Uncertain about a pattern? '' @ [CHR 0x60] @ ''ca search'' @ [CHR 0x60] @ ''. The cost of an unnecessary search is near-zero; the cost of a missed one can be hours.'',
     [],
     ''## Capture Protocol'',
     [],
     ''Run '' @ [CHR 0x60] @ ''npx ca learn'' @ [CHR 0x60] @ '' AFTER:'',
     ''- User corrects you ('' @ [CHR 0x22] @ ''no'' @ [CHR 0x22] @ '', '' @ [CHR 0x22] @ ''wrong'' @ [CHR 0x22] @ '', '' @ [CHR 0x22] @ ''actually...'' @ [CHR 0x22] @ '')'',
     ''- You self-correct after iteration failures'',
     ''- Test fails then you fix it'',
     [],
     ''**Quality gate** (must pass before capturing):'',
     ''- Novel (not already stored)'',
     ''- Specific (clear guidance)'',
     ''- Actionable (preferred, not mandatory)'',
     [],
     ''**Workflow**: Search BEFORE deciding, capture AFTER learning.''])"

definition ISODatePrefixLength :: nat where
  "ISODatePrefixLength = 10"

definition datePrefix :: "string \<Rightarrow> string" where
  "datePrefix created = (if length created \<ge> ISODatePrefixLength then take ISODatePrefixLength created else created)"

text \<open>\<open>srt\<close> is sort.Slice, as in \<open>LoadSessionLessons\<close>.\<close>

definition primeCmd :: "((item \<Rightarrow> item \<Rightarrow> bool) \<Rightarrow> item list \<Rightarrow> item list) \<Rightarrow> maint_world \<Rightarrow> maint_result" where
  "primeCmd srt w =
     (case LoadSessionLessons srt (mw_opened w) 5 of
        Inl e \<Rightarrow> (([trustLanguage], Some (MRead e)), w)
      | Inr lessons \<Rightarrow>
          (([trustLanguage] @
            (if lessons = [] then []
             else (nl @ line ''# [CRITICAL] Mandatory Recall'' @ nl) #
                  map (\<lambda>it. line (''- **'' @ Insight it @ ''** ('' @ join '', '' (tag_list it) @ '')'') @
                            line (''  Learned: '' @ datePrefix (Created it) @ '' via '' @ formatSource (Source it))) lessons), None), w))"

end
