(* ===== verification/MaintenanceProps.thy ===== *)
theory MaintenanceProps
  imports Maintenance CrudProps
begin

section \<open>What export and import do to the stored items\<close>

text \<open>
  Importing is a merge into the abstract store: an item is added unless its ID is taken,
  the first of equal IDs wins, a record marked deleted adds nothing, and doing it again leaves the
  items as they are. Exporting a repository
  and importing the text into an empty one copies its store. The last part shows what
  import makes of items that the readers treat differently.
\<close>

subsection \<open>The abstract import\<close>

text \<open>The items that an import file offers, in order.\<close>

definition valid_items :: "string list \<Rightarrow> item list" where
  "valid_items ls = concat (map (\<lambda>l. case unmarshal_item l of None \<Rightarrow> []
     | Some it \<Rightarrow> if ValidateItem it = None then [it] else []) ls)"

text \<open>
  What they offer under an ID: the first of them, unless it is marked deleted. The merge adds what is offered under the
  free IDs.
\<close>

definition offered :: "item list \<Rightarrow> string \<Rightarrow> item option" where
  "offered its i =
     (case find (\<lambda>it. ID it = i) its of None \<Rightarrow> None
      | Some it \<Rightarrow> if Deleted it = Some True then None else Some it)"

definition merge_items :: "(string \<rightharpoonup> item) \<Rightarrow> item list \<Rightarrow> (string \<rightharpoonup> item)" where
  "merge_items m its = (\<lambda>i. case m i of Some it \<Rightarrow> Some it | None \<Rightarrow> offered its i)"

lemma valid_items_simps [simp]:
  "valid_items [] = []"
  "valid_items (l # ls) = (case unmarshal_item l of None \<Rightarrow> []
     | Some it \<Rightarrow> if ValidateItem it = None then [it] else []) @ valid_items ls"
  by (simp_all add: valid_items_def)

lemma offered_simps [simp]:
  "offered [] i = None"
  "offered (it # its) i =
     (if ID it = i then (if Deleted it = Some True then None else Some it) else offered its i)"
  by (simp_all add: offered_def)

lemma merge_dom: "dom m \<subseteq> dom (merge_items m its)"
  by (auto simp: merge_items_def split: option.splits)

lemma offered_distinct:
  "distinct (map ID its) \<Longrightarrow> \<forall>it \<in> set its. Deleted it \<noteq> Some True \<Longrightarrow> offered its i = Some it \<longleftrightarrow> it \<in> set its \<and> ID it = i"
  by (induction its) (auto simp: image_iff)

lemma merge_idem: "merge_items (merge_items m its) its = merge_items m its"
  by (auto simp: merge_items_def fun_eq_iff split: option.split)

lemma unmarshal_item_ok: "unmarshal_item l = Some it \<Longrightarrow> item_ok it"
  by (auto simp: unmarshal_item_def split: option.splits intro: dec_item_ok json_parse_utf8)

text \<open>The new IDs of an import, counted.\<close>

definition new_ids :: "item list \<Rightarrow> string set \<Rightarrow> string set" where
  "new_ids its A = ID ` set its - A"

lemma new_ids_known: "ID it \<in> A \<Longrightarrow> new_ids (it # its) A = new_ids its A"
  by (auto simp: new_ids_def)

lemma new_ids_fresh: "ID it \<notin> A \<Longrightarrow> card (new_ids (it # its) A) = Suc (card (new_ids its (insert (ID it) A)))"
proof -
  assume "ID it \<notin> A"
  then have "new_ids (it # its) A = insert (ID it) (new_ids its (insert (ID it) A))"
    by (auto simp: new_ids_def)
  then show ?thesis by (simp add: new_ids_def)
qed

lemma cr_append_import:
  assumes "ready w" and "item_ok it" and "ValidateItem it = None" and "short_item it"
  shows "\<exists>w1. cr_append w it = (None, w1) \<and> ready w1 \<and>
    stored w1 = (stored w)(ID it := (if Deleted it = Some True then None else Some it))"
proof -
  have e: "EnsureArrayFields it = it" by (rule ValidateItem_Ensure [OF assms(3)])
  have id: "ID it \<noteq> []" using assms(3) by (simp add: ValidateItem_None)
  show ?thesis
  proof (cases "Deleted it = Some True")
    case True
    then have "line_event (item_line it) = Del (ID it)" by (rule item_event(1) [OF assms(2) id])
    with True cr_append_event [OF assms(1,2)] assms(4) show ?thesis unfolding e by (metis apply_event.simps(2))
  next
    case False
    with cr_append_put_ex [OF assms(1,2)] assms(3,4) show ?thesis unfolding e by simp
  qed
qed

text \<open>The store after the loop: an ID that was known keeps its item, another gets what is offered.\<close>

lemma import_lines_merges:
  assumes "ready w" and "dom (stored w) \<subseteq> set known" and "\<forall>it \<in> set (valid_items ls). short_item it"
  shows "\<exists>c' w'. import_lines known c w ls = ((c', None), w') \<and>
      ready w' \<and> stored w' = (\<lambda>i. if i \<in> set known then stored w i else offered (valid_items ls) i) \<and>
      ic_imported c' = ic_imported c + card (new_ids (valid_items ls) (set known)) \<and>
      ic_imported c' + ic_skipped c' = ic_imported c + ic_skipped c + length (valid_items ls) \<and>
      ic_invalid c' + length (valid_items ls) = ic_invalid c + length ls"
  using assms
proof (induction ls arbitrary: known c w)
  case Nil
  then show ?case by (auto simp: new_ids_def fun_eq_iff)
next
  case (Cons l ls)
  show ?case
  proof (cases "\<exists>it. unmarshal_item l = Some it \<and> ValidateItem it = None")
    case False
    then have v: "valid_items (l # ls) = valid_items ls" by (auto split: option.splits)
    have r: "import_lines known c w (l # ls) = import_lines known (c\<lparr>ic_invalid := ic_invalid c + 1\<rparr>) w ls"
      using False by (auto split: option.splits)
    show ?thesis
      using Cons.IH [of w known "c\<lparr>ic_invalid := ic_invalid c + 1\<rparr>"] Cons.prems unfolding v r by fastforce
  next
    case True
    then obtain it where it: "unmarshal_item l = Some it" "ValidateItem it = None" by blast
    then have v: "valid_items (l # ls) = it # valid_items ls" by simp
    show ?thesis
    proof (cases "ID it \<in> set known")
      case True
      then have r: "import_lines known c w (l # ls) = import_lines known (c\<lparr>ic_skipped := ic_skipped c + 1\<rparr>) w ls"
        using it by simp
      have m: "(\<lambda>i. if i \<in> set known then stored w i else offered (it # valid_items ls) i) =
          (\<lambda>i. if i \<in> set known then stored w i else offered (valid_items ls) i)"
        using True by (auto simp: fun_eq_iff)
      show ?thesis
        using Cons.IH [of w known "c\<lparr>ic_skipped := ic_skipped c + 1\<rparr>"] Cons.prems unfolding v r m
        by (fastforce simp: new_ids_known [OF True])
    next
      case False
      let ?v = "if Deleted it = Some True then None else Some it"
      have "item_ok it" using it(1) by (rule unmarshal_item_ok)
      then obtain w1 where w1: "cr_append w it = (None, w1)" "ready w1" "stored w1 = (stored w)(ID it := ?v)"
        using cr_append_import [OF Cons.prems(1) _ it(2)] Cons.prems(3) unfolding v by auto
      have r: "import_lines known c w (l # ls) = import_lines (ID it # known) (c\<lparr>ic_imported := ic_imported c + 1\<rparr>) w1 ls"
        using it False w1(1) by simp
      have m: "(\<lambda>i. if i \<in> set known then stored w i else offered (it # valid_items ls) i) =
          (\<lambda>i. if i \<in> set (ID it # known) then stored w1 i else offered (valid_items ls) i)"
        using False w1(3) by (auto simp: fun_eq_iff)
      have d: "dom (stored w1) \<subseteq> set (ID it # known)" using Cons.prems(2) w1(3) by (auto split: if_splits)
      have sh: "\<forall>it \<in> set (valid_items ls). short_item it" using Cons.prems(3) unfolding v by simp
      from Cons.IH [OF w1(2) d sh, of "c\<lparr>ic_imported := ic_imported c + 1\<rparr>"] show ?thesis
        unfolding v r m by (fastforce simp: new_ids_fresh [OF False])
    qed
  qed
qed

lemma import_lines_known:
  "ID ` set (valid_items ls) \<subseteq> set known \<Longrightarrow>
   import_lines known c w ls =
     ((c\<lparr>ic_skipped := ic_skipped c + length (valid_items ls), ic_invalid := ic_invalid c + (length ls - length (valid_items ls))\<rparr>, None), w)"
proof (induction ls arbitrary: c)
  case (Cons l ls)
  have "length (valid_items ls) \<le> length ls"
    by (induction ls) (auto split: option.splits)
  moreover have "ID ` set (valid_items ls) \<subseteq> set known"
    using Cons.prems by auto
  moreover have "unmarshal_item l = Some it \<Longrightarrow> ValidateItem it = None \<Longrightarrow> ID it \<in> set known" for it
    using Cons.prems by simp
  ultimately show ?case
    by (cases "unmarshal_item l") (simp_all add: Suc_diff_le Cons.IH)
qed simp

definition import_message :: "nat \<Rightarrow> nat \<Rightarrow> nat \<Rightarrow> string" where
  "import_message imported skipped invalid =
     line (''Imported '' @ show_int (int imported) @ '' lessons ('' @ show_int (int skipped) @ '' skipped, '' @
           show_int (int invalid) @ '' invalid).'')"

lemma runImport_clean:
  assumes "loadExistingIDs (mw_base w) = Inr known" and "scannable f"
    and "import_lines known \<lparr>ic_imported = 0, ic_skipped = 0, ic_invalid = 0\<rparr> (mw_base w) (lines_of f) = ((c, None), b)"
  shows "runImport w (Some f) = (([import_message (ic_imported c) (ic_skipped c) (ic_invalid c)], None), w\<lparr>mw_base := b\<rparr>)"
  using assms scan_lines_ok [OF assms(2)]
  by (simp add: runImport_def importItems_def lines_of_def import_message_def Let_def)

lemma existing_ids:
  assumes "ready w"
  obtains known where "loadExistingIDs w = Inr known" and "set known = dom (stored w)"
proof -
  obtain r where r: "cr_read w = Inr r" "\<And>i. findItem (Items r) i = stored w i"
    by (rule cr_read_stored [OF assms]) blast
  have "set (map ID (Items r)) = {i. findItem (Items r) i \<noteq> None}"
    by (auto simp: findItem_def find_None_iff)
  with r that [of "map ID (Items r)"] show thesis
    by (simp add: loadExistingIDs_def dom_def)
qed

text \<open>One import into a readable repository.\<close>

lemma import_once:
  assumes "ready (mw_base w)" and "scannable f" and "\<forall>it \<in> set (valid_items (lines_of f)). short_item it"
  obtains b n where "n = card (new_ids (valid_items (lines_of f)) (dom (stored (mw_base w))))"
    and "runImport w (Some f) =
      (([import_message n (length (valid_items (lines_of f)) - n) (length (lines_of f) - length (valid_items (lines_of f)))], None),
       w\<lparr>mw_base := b\<rparr>)"
    and "ready b" and "stored b = merge_items (stored (mw_base w)) (valid_items (lines_of f))"
    and "n = 0 \<Longrightarrow> b = mw_base w"
proof -
  let ?ls = "lines_of f" and ?c0 = "\<lparr>ic_imported = 0, ic_skipped = 0, ic_invalid = 0\<rparr>"
  obtain known where known: "loadExistingIDs (mw_base w) = Inr known" "set known = dom (stored (mw_base w))"
    by (rule existing_ids [OF assms(1)])
  from import_lines_merges [OF assms(1) _ assms(3), of known ?c0] known(2)
  obtain c b where i: "import_lines known ?c0 (mw_base w) ?ls = ((c, None), b)" and b: "ready b"
      "stored b = (\<lambda>i. if i \<in> set known then stored (mw_base w) i else offered (valid_items ?ls) i)"
    and c0: "ic_imported c = ic_imported ?c0 + card (new_ids (valid_items ?ls) (set known))"
      "ic_imported c + ic_skipped c = ic_imported ?c0 + ic_skipped ?c0 + length (valid_items ?ls)"
      "ic_invalid c + length (valid_items ?ls) = ic_invalid ?c0 + length ?ls"
    by blast
  from c0 have c: "ic_imported c = card (new_ids (valid_items ?ls) (set known))"
      "ic_imported c + ic_skipped c = length (valid_items ?ls)" "ic_invalid c + length (valid_items ?ls) = length ?ls"
    by (simp_all only: import_counts.select_convs add_0)
  have counts: "ic_skipped c = length (valid_items ?ls) - ic_imported c" "ic_invalid c = length ?ls - length (valid_items ?ls)"
    using c(2,3) by linarith+
  have st: "stored b = merge_items (stored (mw_base w)) (valid_items ?ls)"
    unfolding b(2) known(2) by (auto simp: merge_items_def fun_eq_iff domIff split: option.split)
  have none: "b = mw_base w" if "ic_imported c = 0"
  proof -
    have "new_ids (valid_items ?ls) (set known) = {}" using that c(1) by (simp add: new_ids_def)
    then have "ID ` set (valid_items ?ls) \<subseteq> set known" by (auto simp: new_ids_def)
    from import_lines_known [OF this, of ?c0 "mw_base w"] i show ?thesis by simp
  qed
  show thesis
    by (rule that [OF c(1) [unfolded known(2)] runImport_clean [OF known(1) assms(2) i, unfolded counts] b(1) st none])
qed

text \<open>
  C0: an import into a readable repository, of a readable file whose valid items are short,
  merges them into the store: an ID that is taken keeps its item; under another ID the first valid record
  counts, which becomes an item unless it is marked deleted. The printed counts are those of the new
  IDs, of the valid lines that are left and of the invalid lines. Importing the file again
  leaves the items as they are; it counts the IDs that are still free, which are those whose first
  record is marked deleted, and if there are none it changes nothing at all.
\<close>

theorem runImport_merges:
  assumes "ready (mw_base w)" and "scannable f" and "\<forall>it \<in> set (valid_items (lines_of f)). short_item it"
  shows "\<exists>w' n w'' n'. n = card (new_ids (valid_items (lines_of f)) (dom (stored (mw_base w)))) \<and>
    runImport w (Some f) =
      (([import_message n (length (valid_items (lines_of f)) - n) (length (lines_of f) - length (valid_items (lines_of f)))], None), w') \<and>
    stored (mw_base w') = merge_items (stored (mw_base w)) (valid_items (lines_of f)) \<and>
    n' = card {i \<in> ID ` set (valid_items (lines_of f)).
      stored (mw_base w) i = None \<and> offered (valid_items (lines_of f)) i = None} \<and>
    runImport w' (Some f) =
      (([import_message n' (length (valid_items (lines_of f)) - n') (length (lines_of f) - length (valid_items (lines_of f)))], None), w'') \<and>
    stored (mw_base w'') = stored (mw_base w') \<and> (n' = 0 \<longrightarrow> w'' = w')"
proof -
  let ?its = "valid_items (lines_of f)" and ?bad = "length (lines_of f) - length (valid_items (lines_of f))"
  obtain b n where n: "n = card (new_ids ?its (dom (stored (mw_base w))))"
    and run: "runImport w (Some f) = (([import_message n (length ?its - n) ?bad], None), w\<lparr>mw_base := b\<rparr>)"
    and b: "ready b" "stored b = merge_items (stored (mw_base w)) ?its"
    by (rule import_once [OF assms])
  let ?w' = "w\<lparr>mw_base := b\<rparr>"
  have rd: "ready (mw_base ?w')" and st: "stored (mw_base ?w') = merge_items (stored (mw_base w)) ?its" using b by simp_all
  obtain b2 n2 where n2: "n2 = card (new_ids ?its (dom (stored (mw_base ?w'))))"
    and run2: "runImport ?w' (Some f) = (([import_message n2 (length ?its - n2) ?bad], None), ?w'\<lparr>mw_base := b2\<rparr>)"
    and b2: "stored b2 = merge_items (stored (mw_base ?w')) ?its" and same: "n2 = 0 \<Longrightarrow> b2 = mw_base ?w'"
    by (rule import_once [OF rd assms(2,3)]) (rule that; assumption | simp only:)
  have "new_ids ?its (dom (stored (mw_base ?w'))) = {i \<in> ID ` set ?its. stored (mw_base w) i = None \<and> offered ?its i = None}"
    unfolding st by (auto simp: new_ids_def merge_items_def domIff split: option.splits)
  then have c: "n2 = card {i \<in> ID ` set ?its. stored (mw_base w) i = None \<and> offered ?its i = None}" using n2 by simp
  have "stored (mw_base (?w'\<lparr>mw_base := b2\<rparr>)) = stored (mw_base ?w')" using b2 st merge_idem by simp
  moreover have "n2 = 0 \<longrightarrow> ?w'\<lparr>mw_base := b2\<rparr> = ?w'" using same by simp
  ultimately show ?thesis by (intro exI conjI) (rule n run st c run2 | assumption)+
qed

subsection \<open>Export\<close>

lemma export_all: "exportItems None [] its = (map (\<lambda>it. line (item_line it)) its, 0)"
  by (induction its) simp_all

lemma concat_lines: "concat (map (\<lambda>it. line (item_line it)) its) = items_text its"
  by (simp add: items_text_def line_bytes_def [abs_def] line_def nl_def)

lemma valid_items_of_items:
  "\<forall>it \<in> set its. item_ok it \<and> ValidateItem it = None \<Longrightarrow> valid_items (map item_line its) = its"
  by (induction its) (simp_all add: unmarshal_item_line)

lemma stored_empty: "cr_lessons b = None \<Longrightarrow> stored b = Map.empty"
  by (simp add: stored_def file_text_def file_store_def lines_store_def)

text \<open>
  C0: exporting everything and importing the text into an empty repository copies the
  store, for every plain lessons file, that is a readable one in which \<open>deleted\<close> and the
  three list fields are written as this program writes them and whose items fit a line.
\<close>

theorem export_import_copies:
  assumes "cr_lessons (mw_base w) = Some s" and "\<not> cr_openFails (mw_base w)" and "plain_file s"
    and "cr_lessons (mw_base w2) = None" and "\<not> cr_openFails (mw_base w2)" and "cr_faults (mw_base w2) = []"
  shows "\<exists>out w2'. runExport w [] [] = ((out, None), w) \<and>
    runImport w2 (Some (concat out)) = (([import_message (card (dom (stored (mw_base w)))) 0 0], None), w2') \<and>
    stored (mw_base w2') = stored (mw_base w)"
proof -
  let ?m = "file_store s"
  have m: "stored (mw_base w) = ?m" using assms(1) by (simp add: stored_def file_text_def)
  from assms(3) have sc: "scannable s" and pl: "list_all plain_line (lines_of s)"
    and sh: "\<forall>it \<in> ran ?m. short_item it" by (simp_all add: plain_file_def)
  obtain r where r: "ReadItems (Opened s) = Inr r" and ls: "lists_store (Items r) ?m"
    by (rule ReadItems_store [OF sc])
  have "mw_opened w = Opened s" using assms(1,2) by (simp add: mw_opened_def open_file_def)
  with r have ex: "runExport w [] [] = ((map (\<lambda>it. line (item_line it)) (Items r), None), w)"
    by (simp add: runExport_def parseSinceFlag_def parseTagFilter_def export_all)
  have it: "item_ok it \<and> ValidateItem it = None \<and> Deleted it \<noteq> Some True \<and> short_item it" if "it \<in> set (Items r)" for it
  proof -
    from that ls have st: "?m (ID it) = Some it" by (auto simp: lists_store_def)
    then show ?thesis
      using lines_store_valid [of "lines_of s"] lines_store_live [OF pl] sh ranI [of ?m, OF st]
      unfolding file_store_def by blast
  qed
  have di: "distinct (map ID (Items r))"
    using ls by (auto simp: lists_store_def distinct_map inj_on_def sorted_items_distinct)
  let ?f = "items_text (Items r)"
  have f: "lines_of ?f = map item_line (Items r)" "scannable ?f"
    using lines_of_items [of "Items r"] it by (auto simp: short_item_def)
  have v: "valid_items (lines_of ?f) = Items r"
    unfolding f(1) by (rule valid_items_of_items) (use it in blast)
  have rd: "ready (mw_base w2)" and e2: "stored (mw_base w2) = Map.empty"
    using assms(4-6) by (simp_all add: ready_def file_text_def stored_empty)
  have ok: "\<forall>it \<in> set (valid_items (lines_of ?f)). short_item it"
    unfolding v using it by blast
  obtain b n where n: "n = card (new_ids (Items r) (dom (stored (mw_base w2))))"
    and run: "runImport w2 (Some ?f) =
      (([import_message n (length (Items r) - n) (length (lines_of ?f) - length (Items r))], None), w2\<lparr>mw_base := b\<rparr>)"
    and b: "stored b = merge_items (stored (mw_base w2)) (Items r)"
    using import_once [OF rd f(2) ok] unfolding v by metis
  have key: "?m i = Some x \<Longrightarrow> ID x = i" for i x
    using lines_store_valid [of "lines_of s"] unfolding file_store_def by blast
  have mem: "?m i = Some x \<longleftrightarrow> x \<in> set (Items r) \<and> ID x = i" for i x
    using ls key [of i x] unfolding lists_store_def by blast
  have st: "stored b = ?m"
    unfolding b e2 using offered_distinct [OF di] it by (intro map_SomeI) (simp add: merge_items_def mem)
  have "dom ?m = ID ` set (Items r)" by (auto simp: dom_def image_iff mem)
  then have c: "n = card (dom ?m)" "n = length (Items r)"
    using n distinct_card [OF di] by (simp_all add: new_ids_def e2)
  show ?thesis
    by (rule exI, rule exI [of _ "w2\<lparr>mw_base := b\<rparr>"], intro conjI, rule ex)
      (use run c st f(1) m in \<open>simp_all add: concat_lines\<close>)
qed

subsection \<open>Concrete imports\<close>

definition one_maint :: "crud_world \<Rightarrow> maint_world" where
  "one_maint b = \<lparr>mw_base = b, mw_compact = CNone, mw_open = None, mw_db = db0, mw_dbFault = DNone, mw_mtime = Some 1,
     mw_jsonlSize = None, mw_sqliteSize = None\<rparr>"

definition empty_world :: crud_world where
  "empty_world = \<lparr>cr_lessons = None, cr_openFails = False, cr_faults = [], cr_now = sample_now\<rparr>"

lemma one_file: "lines_of (line_bytes one_item) = [item_line one_item]" "scannable (line_bytes one_item)"
    "valid_items [item_line one_item] = [one_item]" "short_item one_item"
proof -
  have ok: "item_ok one_item" "ValidateItem one_item = None" "short_item one_item"
    using sample_ok sample_short by (simp_all add: one_item_def)
  then show "lines_of (line_bytes one_item) = [item_line one_item]" "scannable (line_bytes one_item)"
    using lines_of_item [of "[]" one_item] by (simp_all add: short_item_def)
  show "valid_items [item_line one_item] = [one_item]" using ok by (simp add: unmarshal_item_line)
  show "short_item one_item" by (rule ok(3))
qed

text \<open>A file with an item and a record marked deleted.\<close>

definition mixed_items :: "item list" where
  "mixed_items = [one_item, one_item\<lparr>ID := ''L2'', Deleted := Some True\<rparr>]"

lemma mixed_file: "lines_of (items_text mixed_items) = map item_line mixed_items" "scannable (items_text mixed_items)"
    "valid_items (map item_line mixed_items) = mixed_items" "\<forall>it \<in> set mixed_items. short_item it"
proof -
  have "list_all (\<lambda>it. item_ok it \<and> ValidateItem it = None \<and> length (item_line it) < 900) mixed_items" by code_simp
  then have ok: "\<forall>it \<in> set mixed_items. item_ok it \<and> ValidateItem it = None \<and> short_item it"
    by (auto simp: list_all_iff intro: short_itemI)
  then show "lines_of (items_text mixed_items) = map item_line mixed_items" "scannable (items_text mixed_items)"
    using lines_of_items [of mixed_items] by (auto simp: short_item_def)
  show "valid_items (map item_line mixed_items) = mixed_items" by (rule valid_items_of_items) (use ok in blast)
  show "\<forall>it \<in> set mixed_items. short_item it" using ok by blast
qed

theorem runImport_merges_witness:
  "\<exists>w' w''. runImport (one_maint empty_world) (Some (items_text mixed_items)) = (([import_message 2 0 0], None), w') \<and>
     stored (mw_base w') = [''L1'' \<mapsto> one_item] \<and>
     runImport w' (Some (items_text mixed_items)) = (([import_message 1 1 0], None), w'') \<and>
     stored (mw_base w'') = stored (mw_base w')"
proof -
  have rd: "ready (mw_base (one_maint empty_world))"
    by (simp add: ready_def one_maint_def empty_world_def file_text_def)
  have e: "stored (mw_base (one_maint empty_world)) = Map.empty"
    by (rule stored_empty) (simp add: one_maint_def empty_world_def)
  have ok: "\<forall>it \<in> set (valid_items (lines_of (items_text mixed_items))). short_item it"
    unfolding mixed_file(1,3) by (rule mixed_file(4))
  have n: "new_ids mixed_items {} = {''L1'', ''L2''}" by (auto simp: new_ids_def mixed_items_def)
  have o: "offered mixed_items = [''L1'' \<mapsto> one_item]" by (rule ext, simp add: mixed_items_def)
  have m: "merge_items Map.empty mixed_items = [''L1'' \<mapsto> one_item]" by (rule ext) (simp add: merge_items_def o)
  have d: "{i \<in> ID ` set mixed_items. None = (None :: item option) \<and> offered mixed_items i = None} = {''L2''}"
    unfolding o by (auto simp: mixed_items_def)
  have l: "length mixed_items = 2" "card {''L1'', ''L2''} = 2" "card {''L2''} = 1" by (simp_all add: mixed_items_def)
  show ?thesis
    using runImport_merges [OF rd mixed_file(2) ok] unfolding mixed_file(1,3) e dom_empty n m length_map d l by auto
qed

theorem export_import_copies_witness:
  "\<exists>out w2'. runExport (one_maint one_world) [] [] = ((out, None), one_maint one_world) \<and>
    runImport (one_maint empty_world) (Some (concat out)) = (([import_message 1 0 0], None), w2') \<and>
    stored (mw_base w2') = [''L1'' \<mapsto> one_item]"
proof -
  have 1: "cr_lessons (mw_base (one_maint one_world)) = Some (line_bytes (EnsureArrayFields sample_item))"
    "\<not> cr_openFails (mw_base (one_maint one_world))" "cr_lessons (mw_base (one_maint empty_world)) = None"
    "\<not> cr_openFails (mw_base (one_maint empty_world))" "cr_faults (mw_base (one_maint empty_world)) = []"
    by (simp_all add: one_maint_def one_world_def empty_world_def one_item_def)
  have 2: "stored (mw_base (one_maint one_world)) = [''L1'' \<mapsto> one_item]"
    using one_world_stored by (simp add: one_maint_def)
  show ?thesis
    using export_import_copies [OF 1(1,2) sample_plain 1(3-5)] unfolding 2 by simp
qed

subsection \<open>Lines that the readers treat differently\<close>

text \<open>
  A record without its tags, as earlier versions wrote it, is read from the lessons file
  but refused by an import.
\<close>

lemma import_rejects_legacy:
  assumes "item_ok it" and "ValidateItem it = None" and "Deleted it \<noteq> Some True"
  shows "line_event (item_line (it\<lparr>Tags := None\<rparr>)) = Put (it\<lparr>Tags := Some []\<rparr>)"
    and "valid_items [item_line (it\<lparr>Tags := None\<rparr>)] = []"
proof -
  let ?old = "it\<lparr>Tags := None\<rparr>"
  have ok: "item_ok ?old" using assms(1) by (simp add: item_ok_def strs_ok_def)
  have bad: "ValidateItem ?old \<noteq> None" by (simp add: ValidateItem_None)
  have lt: "legacy_type ?old = ?old"
    using assms(2) by (auto simp: legacy_type_def ValidateItem_None validTypes_def type_defs)
  show "valid_items [item_line ?old] = []" using unmarshal_item_line [OF ok] bad by (auto split: option.splits)
  have "EnsureArrayFields ?old = (EnsureArrayFields it)\<lparr>Tags := Some []\<rparr>"
    by (simp add: EnsureArrayFields_def)
  then have e: "EnsureArrayFields ?old = it\<lparr>Tags := Some []\<rparr>"
    by (simp add: ValidateItem_Ensure [OF assms(2)])
  have v: "ValidateItem (it\<lparr>Tags := Some []\<rparr>) = None" using assms(2) by (simp add: ValidateItem_None)
  have "\<not> raw_deleted (item_members ?old)" using assms(3) by (simp add: raw_item_deleted)
  then show "line_event (item_line ?old) = Put (it\<lparr>Tags := Some []\<rparr>)"
    using unmarshal_item_line [OF ok] e v lt by (simp add: line_event_def parseLine_def parseTombstone_def)
qed

text \<open>
  A valid record that is marked deleted is appended and counted as imported, and never
  becomes an item: every repetition of the import appends and counts it again.
\<close>

lemma import_deleted_repeats:
  assumes "ready (mw_base w)" and "item_ok it" and "ValidateItem it = None" and "Deleted it = Some True"
    and "short_item it" and "stored (mw_base w) (ID it) = None"
  shows "\<exists>b. runImport w (Some (line_bytes it)) = (([import_message 1 0 0], None), w\<lparr>mw_base := b\<rparr>) \<and>
    ready b \<and> stored b = stored (mw_base w) \<and> cr_lessons b \<noteq> cr_lessons (mw_base w)"
proof -
  have e: "EnsureArrayFields it = it" by (rule ValidateItem_Ensure [OF assms(3)])
  have l: "lines_of (line_bytes it) = [item_line it]" "scannable (line_bytes it)"
    using lines_of_item [of "[]" it] assms(2,5) by (simp_all add: short_item_def)
  obtain known where known: "loadExistingIDs (mw_base w) = Inr known" "set known = dom (stored (mw_base w))"
    by (rule existing_ids [OF assms(1)])
  have id: "ID it \<noteq> []" using assms(3) by (simp add: ValidateItem_None)
  have ev: "line_event (item_line it) = Del (ID it)" by (rule item_event(1) [OF assms(2) id assms(4)])
  obtain b where b: "cr_append (mw_base w) it = (None, b)" "ready b" "stored b = (stored (mw_base w))(ID it := None)"
    using cr_append_event [OF assms(1,2)] assms(5) unfolding e ev by (metis apply_event.simps(2))
  have "line_bytes it \<noteq> []" by (simp add: line_bytes_def)
  then have "cr_lessons b \<noteq> cr_lessons (mw_base w)"
    using b(1) assms(1) by (cases "cr_lessons (mw_base w)")
      (auto simp: cr_append_def AppendItem_def ready_def e file_text_def Let_def)
  moreover have "ID it \<notin> set known" using known(2) assms(6) by (simp add: domIff)
  then have "import_lines known \<lparr>ic_imported = 0, ic_skipped = 0, ic_invalid = 0\<rparr> (mw_base w) (lines_of (line_bytes it)) =
      ((\<lparr>ic_imported = 1, ic_skipped = 0, ic_invalid = 0\<rparr>, None), b)"
    using b(1) assms(2,3) by (simp add: l(1) unmarshal_item_line)
  from runImport_clean [OF known(1) l(2) this]
  have "runImport w (Some (line_bytes it)) = (([import_message 1 0 0], None), w\<lparr>mw_base := b\<rparr>)" by simp
  moreover have "stored b = stored (mw_base w)" using b(3) assms(6) by auto
  ultimately show ?thesis using b(2) by blast
qed

subsection \<open>Compaction and the index\<close>

lemma file_store_items:
  assumes "lists_store its (file_store s)"
    and "\<forall>it \<in> set its. item_ok it \<and> ValidateItem it = None \<and> Deleted it \<noteq> Some True \<and> short_item it"
  shows "file_store (items_text its) = file_store s"
proof (rule map_SomeI)
  fix i x
  have di: "distinct (map ID its)"
    using assms(1) by (auto simp: lists_store_def distinct_map inj_on_def sorted_items_distinct)
  have key: "file_store s i = Some x \<Longrightarrow> ID x = i"
    using lines_store_valid [of "lines_of s"] unfolding file_store_def by blast
  show "file_store (items_text its) i = Some x \<longleftrightarrow> file_store s i = Some x"
    using items_text_store(3) [OF assms(2) di] assms(1) key by (auto simp: lists_store_def)
qed

definition compact_report :: "nat \<Rightarrow> nat \<Rightarrow> nat \<Rightarrow> string list" where
  "compact_report removed remaining dropped =
     [''Compacted: '' @ show_int (int removed) @ '' tombstones removed, '' @ show_int (int remaining) @ '' lessons remaining''] @
     (if dropped > 0 then ['', '' @ show_int (int dropped) @ '' invalid dropped''] else []) @ [line ''.'']"

text \<open>
  C0: \<open>ca compact\<close> on a plain lessons file, when no call fails. With --dry-run, and without --force below the threshold
  of tombstones, it prints the number of tombstones and whether that needs compaction, and changes nothing. Otherwise
  it keeps every item, prints how many there are, leaves no tombstone for the next call to remove, and leaves an index
  whose rows are exactly the items of the file, in their order. Plain means that \<open>deleted\<close> and the three list
  fields of the records are written as this program writes them: a legacy record without its lists is read but
  not kept.
\<close>

theorem runCompact_reindexes:
  assumes "cr_lessons (mw_base w) = Some s" and "\<not> cr_openFails (mw_base w)" and "plain_file s"
    and "mw_compact w = CNone" and "mw_open w = None" and "mw_dbFault w = DNone"
    and "cnt = length (filter is_tombstone_line (lines_of s))"
  shows "if dryRun \<or> \<not> force \<and> cnt < TombstoneThreshold
    then runCompact w force dryRun =
      (([compaction_status (if TombstoneThreshold \<le> cnt then ''needed'' else ''not needed'') cnt], None), w)
    else \<exists>removed dropped w' its. runCompact w force dryRun =
        ((compact_report removed (card (dom (stored (mw_base w)))) dropped @ [line ''SQLite index rebuilt.''], None), w') \<and>
      stored (mw_base w') = stored (mw_base w) \<and> lists_store its (stored (mw_base w)) \<and>
      db_lessons (mw_db w') = map item_row its \<and>
      runCompact w' False False = (([compaction_status ''not needed'' 0], None), w')"
proof -
  have st: "stored (mw_base w) = file_store s" using assms(1) by (simp add: stored_def file_text_def)
  have op: "mw_opened w = Opened s" using assms(1,2) by (simp add: mw_opened_def open_file_def)
  have t: "fs_target \<lparr>fs_target = Some s, fs_temp = None\<rparr> = Some s" by simp
  obtain its r where c: "Compact CNone False \<lparr>fs_target = Some s, fs_temp = None\<rparr> =
      ((None, r), \<lparr>fs_target = Some (items_text its), fs_temp = None\<rparr>)"
    and ls: "lists_store its (file_store s)"
    and left: "LessonsRemaining r = length its"
    and it: "\<forall>it \<in> set its. item_ok it \<and> ValidateItem it = None \<and> Deleted it \<noteq> Some True \<and> short_item it"
    by (rule Compact_plain [OF assms(3) t])
  let ?w = "mw_set_lessons (Some (items_text its)) w"
  have fs: "file_store (items_text its) = file_store s" by (rule file_store_items [OF ls it])
  have di: "distinct (map ID its)"
    using ls by (auto simp: lists_store_def distinct_map inj_on_def sorted_items_distinct)
  have sc: "scannable (items_text its)" and nt: "length (filter is_tombstone_line (lines_of (items_text its))) = 0"
    by (rule items_text_store(1,4) [OF it di])+
  have op': "mw_opened ?w = Opened (items_text its)"
    using assms(2) by (simp add: mw_opened_def mw_set_lessons_def open_file_def)
  obtain res where res: "ReadItems (Opened (items_text its)) = Inr res" "lists_store (Items res) (file_store s)"
    using ReadItems_store [OF sc] unfolding fs by metis
  obtain db where rb: "RebuildIndex DNone (mw_db w) (Opened (items_text its)) (mw_mtime w) = (None, db)"
    and rows: "db_lessons db = map item_row (Items res)"
    using RebuildIndex_ok [OF res(1), of "mw_db w" "mw_mtime w"] by (auto simp: Let_def split: if_splits)
  let ?w' = "?w\<lparr>mw_db := db\<rparr>"
  have re: "rebuildAfterCompact ?w = (([line ''SQLite index rebuilt.''], None), ?w')"
    using rb assms(5,6) op' by (simp add: rebuildAfterCompact_def mw_set_lessons_def)
  have n: "CountTombstones (Opened s) = (cnt, None)"
    using assms(3,7) scan_lines_ok [of s] by (simp add: CountTombstones_def plain_file_def lines_of_def Let_def)
  have key: "file_store s i = Some x \<Longrightarrow> ID x = i" for i x
    using lines_store_valid [of "lines_of s"] unfolding file_store_def by blast
  have "file_store s i = Some x \<longleftrightarrow> x \<in> set its \<and> ID x = i" for i x
    using ls key [of i x] unfolding lists_store_def by blast
  then have "dom (file_store s) = ID ` set its" by (auto simp: dom_def image_iff)
  then have "card (dom (stored (mw_base w))) = length its" unfolding st using distinct_card [OF di] by simp
  then have run: "runCompact w force dryRun = ((compact_report (TombstonesRemoved r) (card (dom (stored (mw_base w)))) (DroppedInvalid r) @
      [line ''SQLite index rebuilt.''], None), ?w')" if "\<not> (dryRun \<or> \<not> force \<and> cnt < TombstoneThreshold)"
    using c re assms(1,2,4) that left by (auto simp: runCompact_def op n Let_def compact_report_def)
  have idle: "runCompact w force dryRun =
      (([compaction_status (if TombstoneThreshold \<le> cnt then ''needed'' else ''not needed'') cnt], None), w)"
    if "dryRun \<or> \<not> force \<and> cnt < TombstoneThreshold"
    using that by (auto simp: runCompact_def op n)
  have same: "mw_opened ?w' = mw_opened ?w" by (simp add: mw_opened_def)
  have cnt: "CountTombstones (mw_opened ?w') = (0, None)"
    using nt scan_lines_ok [OF sc] unfolding same op' by (simp add: CountTombstones_def lines_of_def Let_def)
  have again: "runCompact ?w' False False = (([compaction_status ''not needed'' 0], None), ?w')"
    using cnt by (simp add: runCompact_def TombstoneThreshold_def)
  have "stored (mw_base ?w') = stored (mw_base w)"
    unfolding st by (simp add: mw_set_lessons_def stored_def file_text_def fs)
  then show ?thesis using run idle again rows res(2) st by auto
qed

theorem runCompact_reindexes_witness:
  "\<exists>removed dropped w' its. runCompact (one_maint one_world) True False =
      ((compact_report removed 1 dropped @ [line ''SQLite index rebuilt.''], None), w') \<and>
    stored (mw_base w') = [''L1'' \<mapsto> one_item] \<and> lists_store its [''L1'' \<mapsto> one_item] \<and>
    db_lessons (mw_db w') = map item_row its \<and>
    runCompact w' False False = (([compaction_status ''not needed'' 0], None), w')"
proof -
  have 1: "cr_lessons (mw_base (one_maint one_world)) = Some (line_bytes (EnsureArrayFields sample_item))"
    "\<not> cr_openFails (mw_base (one_maint one_world))" "mw_compact (one_maint one_world) = CNone"
    "mw_open (one_maint one_world) = None" "mw_dbFault (one_maint one_world) = DNone"
    by (simp_all add: one_maint_def one_world_def one_item_def)
  have 2: "stored (mw_base (one_maint one_world)) = [''L1'' \<mapsto> one_item]"
    using one_world_stored by (simp add: one_maint_def)
  have 3: "card (dom [''L1'' \<mapsto> one_item]) = 1" by simp
  show ?thesis
    using runCompact_reindexes [OF 1(1,2) sample_plain 1(3-5) refl, of False True] unfolding 2 3 by simp
qed

end
