(* ===== verification/SetupCli.thy ===== *)
theory SetupCli
  imports Setup Capture
begin

section \<open>The setup commands (cli/commands_setup.go)\<close>

text \<open>
  init, setup, setup claude, doctor and uninstall over the file tree. A command returns what
  it printed and its error; what it changed before an error stays changed. What the
  operating system says is a parameter: the path of the running binary (empty when it
  cannot be found), the home directory, the directories of PATH, the answer on standard
  input, and whether the system is Windows.
\<close>

type_synonym 'a cli = "node \<Rightarrow> (string list \<times> (io_err + 'a)) \<times> node"

definition say :: "string list \<Rightarrow> unit cli" where
  "say out = (\<lambda>t. ((out, Inr ()), t))"

text \<open>Run a computation; its error, in the context of the command, ends the command.\<close>

definition run_io :: "string \<Rightarrow> 'a io \<Rightarrow> 'a cli" where
  "run_io c m = (\<lambda>t. case ctx_io c m t of (r, t') \<Rightarrow> (([], r), t'))"

definition lift_io :: "'a io \<Rightarrow> 'a cli" where
  "lift_io m = (\<lambda>t. case m t of (r, t') \<Rightarrow> (([], r), t'))"

definition then_cli :: "'a cli \<Rightarrow> ('a \<Rightarrow> 'b cli) \<Rightarrow> 'b cli" where
  "then_cli m f = (\<lambda>t. case m t of
       ((out, Inl e), t') \<Rightarrow> ((out, Inl e), t')
     | ((out, Inr x), t') \<Rightarrow> (case f x t' of ((out', r), t'') \<Rightarrow> ((out @ out', r), t'')))"

definition println :: "string \<Rightarrow> string" where
  "println s = s @ [CHR 0x0A]"

definition stat_ok :: "node \<Rightarrow> path \<Rightarrow> bool" where
  "stat_ok t p \<longleftrightarrow> (case lookup_path p t of Inr _ \<Rightarrow> True | Inl _ \<Rightarrow> False)"

definition npx_to_binary :: string where
  "npx_to_binary = ''npx '' @ [CHR 0xE2, CHR 0x86, CHR 0x92] @ '' binary''"

definition jint :: "nat \<Rightarrow> json" where
  "jint n = JNum (show_int (int n))"

subsection \<open>init and setup\<close>

text \<open>
  The members in the order that encoding/json gives the keys of a map. A result that
  \<open>InitRepo\<close> returns without an error has \<open>Success\<close> set.
\<close>

definition printInitResultJSON :: "InitResult \<Rightarrow> string list" where
  "printInitResultJSON r =
     [writeJSON (JObj (
        [(''agentsInstalled'', jint (fst (AgentsCount r))), (''agentsUpdated'', jint (snd (AgentsCount r))),
         (''commandsInstalled'', jint (fst (CommandsCount r))), (''commandsUpdated'', jint (snd (CommandsCount r))),
         (''dirsCreated'', jint (length (DirsCreated r))),
         (''docsInstalled'', jint (fst (DocsCount r))), (''docsUpdated'', jint (snd (DocsCount r))),
         (''filesCreated'', jint (length (FilesCreated r))),
         (''hooksInstalled'', JBool (HooksInstalled r)), (''hooksUpgraded'', JBool (HooksUpgraded r)),
         (''pluginUpdated'', JBool (PluginUpdated r)),
         (''researchInstalled'', jint (fst (ResearchCount r))), (''researchUpdated'', jint (snd (ResearchCount r))),
         (''roleSkillsInstalled'', jint (fst (RoleSkillsCount r))), (''roleSkillsUpdated'', jint (snd (RoleSkillsCount r))),
         (''skillsInstalled'', jint (fst (SkillsCount r))), (''skillsUpdated'', jint (snd (SkillsCount r))),
         (''success'', JBool True)] @
        (if ResTargets r \<noteq> [] then [(''targets'', JArr (map JStr (ResTargets r)))] else []) @
        [(''templatesPruned'', jint (TemplatesPruned r))] @
        (if Warnings r \<noteq> [] then [(''warnings'', JArr (map JStr (Warnings r)))] else [])))]"

definition template_counts :: "string \<Rightarrow> (InitResult \<Rightarrow> nat \<times> nat \<Rightarrow> nat) \<Rightarrow> InitResult \<Rightarrow> string list" where
  "template_counts word pick r =
     (let a = pick r (AgentsCount r); c = pick r (CommandsCount r); s = pick r (SkillsCount r); ro = pick r (RoleSkillsCount r);
          d = pick r (DocsCount r); re = pick r (ResearchCount r); total = a + c + s + ro + d + re
      in if total > 0
         then [println (''  Templates: '' @ show_int (int total) @ '' '' @ word @ '' (agents:'' @ show_int (int a) @
                 '' commands:'' @ show_int (int c) @ '' skills:'' @ show_int (int s) @ '' roles:'' @ show_int (int ro) @
                 '' docs:'' @ show_int (int d) @ '' research:'' @ show_int (int re) @ '')'')]
         else [])"

definition printTemplatesSummary :: "InitResult \<Rightarrow> string list" where
  "printTemplatesSummary r =
     template_counts ''installed'' (\<lambda>_. fst) r @ template_counts ''updated'' (\<lambda>_. snd) r @
     (if TemplatesPruned r > 0
      then [println (''  Templates: '' @ show_int (int (TemplatesPruned r)) @ '' retired files removed'')] else [])"

definition printMdUpdates :: "InitResult \<Rightarrow> string list" where
  "printMdUpdates r =
     (if AgentsMdUpdated r then [println ''  AGENTS.md: updated''] else []) @
     (if ClaudeMdUpdated r then [println ''  CLAUDE.md: reference added''] else [])"

definition printWarnings :: "InitResult \<Rightarrow> string list" where
  "printWarnings r = map (\<lambda>w. println (''  [warn] '' @ w)) (Warnings r)"

definition printInitResultText :: "InitResult \<Rightarrow> string list" where
  "printInitResultText r =
     (if HooksUpgraded r then [println (''  Hooks: upgraded ('' @ npx_to_binary @ '')'')]
      else if HooksInstalled r then [println ''  Hooks: installed''] else []) @
     (if PluginUpdated r then [println ''  Plugin: version updated''] else []) @
     [println (''  Directories: '' @ show_int (int (length (DirsCreated r))) @ '' created'')] @
     printTemplatesSummary r @ printMdUpdates r @ printWarnings r"

definition printSetupResultText :: "InitResult \<Rightarrow> string list" where
  "printSetupResultText r =
     (if HooksUpgraded r then [println (''  Hooks: upgraded ('' @ npx_to_binary @ '') in .claude/settings.json'')]
      else if HooksInstalled r then [println ''  Hooks: installed to .claude/settings.json''] else []) @
     (if PluginUpdated r then [println ''  Plugin: version updated in .claude/plugin.json''] else []) @
     [println (''  Directories: '' @ show_int (int (length (DirsCreated r))) @ '' created'')] @
     printTemplatesSummary r @ printMdUpdates r @ printWarnings r"

definition printBeadsStatus :: "path list \<Rightarrow> path \<Rightarrow> unit cli" where
  "printBeadsStatus PATH repoRoot = (\<lambda>t. say
     (if \<not> list_ex (\<lambda>d. stat_ok t (d @ [''bd''])) PATH then
        [println ''  Beads: not installed'',
         println ''         Install: curl -sSL https://raw.githubusercontent.com/steveyegge/beads/main/scripts/install.sh | bash'']
      else if stat_ok t (repoRoot @ [''.beads'']) then [println ''  Beads: initialized'']
      else [println ''  Beads: installed but not initialized in this repo'', println ''         Run: bd init'']) t)"

record setup_env =
  se_tp :: templates
  se_binary :: string            \<comment> \<open>resolveBinaryPath\<close>
  se_home :: "path option"
  se_cwd :: path
  se_PATH :: "path list"
  se_gitRoot :: path             \<comment> \<open>util.GetRepoRoot\<close>
  se_windows :: bool

text \<open>\<open>os.Executable\<close> without its error.\<close>

definition resolveBinaryPath :: "string option \<Rightarrow> string" where
  "resolveBinaryPath exe = (case exe of None \<Rightarrow> [] | Some p \<Rightarrow> p)"

text \<open>The flag is None when it was not given.\<close>

definition resolveRoot :: "setup_env \<Rightarrow> path option \<Rightarrow> path" where
  "resolveRoot env repoRoot = (case repoRoot of Some p \<Rightarrow> p | None \<Rightarrow> se_gitRoot env)"

definition runInit :: "setup_env \<Rightarrow> path \<Rightarrow> bool \<Rightarrow> bool \<Rightarrow> bool \<Rightarrow> bool \<Rightarrow> unit cli" where
  "runInit env repoRoot skipHooks skipAgents jsonOut quiet =
     then_cli (run_io ''init'' (InitRepo (se_tp env) repoRoot
        \<lparr>SkipHooks = skipHooks, SkipTemplates = skipAgents, BinaryPath = se_binary env, Profile = [], ConfirmPrune = False, Targets = []\<rparr>))
     (\<lambda>r. if jsonOut then say (printInitResultJSON r)
      else if \<not> quiet then
        then_cli (say (println (''[ok] Compound agent initialized in '' @ show_path repoRoot) # printInitResultText r))
          (\<lambda>_. printBeadsStatus (se_PATH env) repoRoot)
      else say [])"

definition runSetup :: "setup_env \<Rightarrow> path \<Rightarrow> bool \<Rightarrow> bool \<Rightarrow> string \<Rightarrow> bool \<Rightarrow> string list \<Rightarrow> bool \<Rightarrow> unit cli" where
  "runSetup env repoRoot skipHooks jsonOut profile confirmPrune harness quiet =
     (case ParseHarnessTargets harness of
        Inl name \<Rightarrow> run_io ''setup'' (fail (Msg (''unknown --harness target '' @ go_quote name @ '' (valid: '' @ harnessTargetList @ '')'')))
      | Inr (targets, harnessWarnings) \<Rightarrow>
          then_cli (run_io ''setup'' (InitRepo (se_tp env) repoRoot
             \<lparr>SkipHooks = skipHooks, SkipTemplates = False, BinaryPath = se_binary env, Profile = profile,
              ConfirmPrune = confirmPrune, Targets = targets\<rparr>))
          (\<lambda>r0. let r = r0\<lparr>Warnings := harnessWarnings @ Warnings r0\<rparr> in
           if jsonOut then say (printInitResultJSON r)
           else if \<not> quiet then
             then_cli (say (println ''[ok] Compound agent setup complete'' # printSetupResultText r))
               (\<lambda>_. printBeadsStatus (se_PATH env) repoRoot)
           else say []))"

subsection \<open>setup claude\<close>

definition hookAction :: "bool \<Rightarrow> bool \<Rightarrow> bool \<Rightarrow> string" where
  "hookAction installed needsUpgrade needsDedupe =
     (if installed \<and> \<not> needsUpgrade \<and> \<not> needsDedupe then ''unchanged''
      else if needsUpgrade \<and> needsDedupe then ''reconcile''
      else if needsUpgrade then ''upgrade''
      else if needsDedupe then ''reconcile''
      else ''install'')"

definition hookActionPastTense :: "(string, string) gomap" where
  "hookActionPastTense =
     [(''install'', ''installed''), (''upgrade'', ''upgraded''), (''reconcile'', ''reconciled''), (''unchanged'', ''unchanged'')]"

definition past_tense :: "string \<Rightarrow> string" where
  "past_tense action = (case map_of hookActionPastTense action of None \<Rightarrow> [] | Some s \<Rightarrow> s)"

definition statusLabel :: "bool \<Rightarrow> bool \<Rightarrow> bool \<Rightarrow> string" where
  "statusLabel installed stale duplicated =
     (if installed \<and> stale then ''stale'' else if installed \<and> duplicated then ''duplicated''
      else if installed then ''connected'' else ''disconnected'')"

definition handleClaudeStatus :: "bool \<Rightarrow> bool \<Rightarrow> bool \<Rightarrow> string \<Rightarrow> path \<Rightarrow> bool \<Rightarrow> unit cli" where
  "handleClaudeStatus installed stale duplicated displayPath settingsPath jsonOut = (\<lambda>t. say
     (if jsonOut then
        [writeJSON (JObj [(''hookDuplicated'', JBool duplicated), (''hookInstalled'', JBool installed), (''hookStale'', JBool stale),
           (''settingsFile'', JStr displayPath), (''status'', JStr (statusLabel installed stale duplicated))])]
      else
        [println ''Claude Code Integration Status'', println ''----------------------------------------'',
         println (''Hooks file: '' @ displayPath),
         println (if stat_ok t settingsPath then ''  [ok] File exists'' else ''  [missing] File not found'')] @
        (if installed \<and> \<not> stale \<and> \<not> duplicated then [println ''  [ok] Compound Agent hooks installed'']
         else if installed \<and> stale then
           [println ''  [warn] Compound Agent hooks installed but stale (using npx instead of binary)'', println ''         Fix: ca setup claude'']
         else if installed \<and> duplicated then
           [println ''  [warn] Compound Agent hooks installed but duplicated'', println ''         Fix: ca setup claude'']
         else [println ''  [warn] Compound Agent hooks not installed''])) t)"

definition show_v :: "bool \<Rightarrow> string" where
  "show_v b = (if b then ''true'' else ''false'')"

definition handleClaudeDryRun :: "bool \<Rightarrow> bool \<Rightarrow> bool \<Rightarrow> string \<Rightarrow> bool \<Rightarrow> unit cli" where
  "handleClaudeDryRun installed needsUpgrade needsDedupe displayPath jsonOut =
     (let action = hookAction installed needsUpgrade needsDedupe in
      say (if jsonOut then
             [writeJSON (JObj [(''action'', JStr action), (''dryRun'', JBool True), (''installed'', JBool installed),
                (''location'', JStr displayPath), (''needsDedupe'', JBool needsDedupe), (''needsUpgrade'', JBool needsUpgrade)])]
           else
             [println ''[dry-run] Claude Code hooks analysis:'', println (''  Settings file: '' @ displayPath),
              println (''  Currently installed: '' @ show_v installed),
              println (if action = ''unchanged'' then ''  Action: no changes needed'' else ''  Action would: '' @ action)] @
             (if needsUpgrade then [println ''  Upgrade: npx hooks would be upgraded to binary path''] else []) @
             (if needsDedupe then [println ''  Deduplicate: duplicate hook entries would be removed''] else [])))"

definition claude_messages :: "string \<Rightarrow> (string, string) gomap" where
  "claude_messages displayPath =
     [(''unchanged'', ''[info] Compound agent hooks already installed at '' @ displayPath),
      (''installed'', ''[ok] Claude Code hooks installed to '' @ displayPath),
      (''upgraded'', ''[ok] Claude Code hooks upgraded in '' @ displayPath @ '' ('' @ npx_to_binary @ '')''),
      (''reconciled'', ''[ok] Claude Code hooks reconciled in '' @ displayPath @ '' (upgraded + deduplicated)'')]"

definition printClaudeResult :: "string \<Rightarrow> string \<Rightarrow> bool \<Rightarrow> string list" where
  "printClaudeResult displayPath action jsonOut =
     (if jsonOut then
        [writeJSON (JObj [(''action'', JStr action), (''installed'', JBool True), (''location'', JStr displayPath)])]
      else
        [println (case map_of (claude_messages displayPath) action of Some msg \<Rightarrow> msg
           | None \<Rightarrow> ''[ok] Claude Code hooks '' @ action @ '' in '' @ displayPath)] @
        (if action \<noteq> ''unchanged''
         then [println ''  Hooks: SessionStart, PreCompact, UserPromptSubmit, PostToolUseFailure, PostToolUse, PreToolUse, Stop'']
         else []))"

definition handleClaudeInstall ::
    "setup_env \<Rightarrow> settings \<Rightarrow> path \<Rightarrow> bool \<Rightarrow> bool \<Rightarrow> bool \<Rightarrow> string \<Rightarrow> bool \<Rightarrow> unit cli" where
  "handleClaudeInstall env s settingsPath installed needsUpgrade needsDedupe displayPath jsonOut =
     (if installed \<and> \<not> needsUpgrade \<and> \<not> needsDedupe then say (printClaudeResult displayPath ''unchanged'' jsonOut)
      else case AddAllHooks s (se_binary env) of
          None \<Rightarrow> lift_io (fail (Panic ''assignment to entry in nil map''))
        | Some m \<Rightarrow>
            then_cli (run_io ''write settings'' (WriteClaudeSettings (tp_float (se_tp env)) settingsPath (Some m)))
              (\<lambda>_. say (printClaudeResult displayPath (past_tense (hookAction installed needsUpgrade needsDedupe)) jsonOut)))"

definition handleClaudeUninstall :: "setup_env \<Rightarrow> settings \<Rightarrow> path \<Rightarrow> string \<Rightarrow> bool \<Rightarrow> unit cli" where
  "handleClaudeUninstall env s settingsPath displayPath jsonOut =
     (let (s', removed) = RemoveAllHooks s in
      then_cli (if removed then run_io ''write settings'' (WriteClaudeSettings (tp_float (se_tp env)) settingsPath s') else say [])
        (\<lambda>_. say
          (if jsonOut then
             [writeJSON (JObj [(''action'', JStr (if removed then ''removed'' else ''unchanged'')), (''installed'', JBool False),
                (''location'', JStr displayPath)])]
           else if removed then [println (''[ok] Compound agent hooks removed from '' @ displayPath)]
           else [println ''[info] No compound agent hooks to remove''])))"

record setupClaudeOpts =
  sc_uninstall :: bool
  sc_status :: bool
  sc_global :: bool
  sc_dryRun :: bool
  sc_jsonOut :: bool
  sc_repoRoot :: "path option"

text \<open>Without a home directory the global file is relative to the working directory.\<close>

definition claude_paths :: "setup_env \<Rightarrow> setupClaudeOpts \<Rightarrow> path \<times> string" where
  "claude_paths env opts =
     (if sc_global opts
      then (settings_path (case se_home env of Some h \<Rightarrow> h | None \<Rightarrow> se_cwd env), ''~/.claude/settings.json'')
      else (settings_path (resolveRoot env (sc_repoRoot opts)), ''.claude/settings.json''))"

definition runSetupClaude :: "setup_env \<Rightarrow> setupClaudeOpts \<Rightarrow> unit cli" where
  "runSetupClaude env opts =
     (let (settingsPath, displayPath) = claude_paths env opts in
      then_cli (run_io ''read settings'' (ReadClaudeSettings settingsPath)) (\<lambda>s.
        let installed = HasAllHooks s;
            needsUpgrade = HooksNeedUpgrade s (se_binary env);
            needsDedupe = HooksNeedDedupe s
        in if sc_status opts then handleClaudeStatus installed needsUpgrade needsDedupe displayPath settingsPath (sc_jsonOut opts)
           else if sc_uninstall opts then handleClaudeUninstall env s settingsPath displayPath (sc_jsonOut opts)
           else if sc_dryRun opts then handleClaudeDryRun installed needsUpgrade needsDedupe displayPath (sc_jsonOut opts)
           else handleClaudeInstall env s settingsPath installed needsUpgrade needsDedupe displayPath (sc_jsonOut opts)))"

subsection \<open>doctor\<close>

record doctorCheck =
  dc_Name :: string
  dc_Status :: string
  dc_Fix :: string

definition dcheck :: "string \<Rightarrow> string \<Rightarrow> string \<Rightarrow> doctorCheck" where
  "dcheck name status fix_it = \<lparr>dc_Name = name, dc_Status = status, dc_Fix = fix_it\<rparr>"

text \<open>Any error of reading the settings, and hooks that are not all there, give the same check.\<close>

definition checkHooks :: "setup_env \<Rightarrow> path \<Rightarrow> doctorCheck io" where
  "checkHooks env repoRoot =
     try_io (ReadClaudeSettings (settings_path repoRoot)) (\<lambda>r. ret
       (let name = ''Claude Code hooks installed'' in
        case r of Inl _ \<Rightarrow> dcheck name ''warn'' ''Run: ca setup claude''
        | Inr s \<Rightarrow>
            if \<not> HasAllHooks s then dcheck name ''warn'' ''Run: ca setup claude''
            else if HooksNeedUpgrade s (se_binary env) then dcheck name ''warn'' ''Hooks are stale (npx). Run: ca setup claude''
            else if HooksNeedDedupe s then dcheck name ''warn'' ''Hooks are duplicated. Run: ca setup claude''
            else dcheck name ''pass'' []))"

definition exists_check :: "node \<Rightarrow> path \<Rightarrow> string \<Rightarrow> string \<Rightarrow> string \<Rightarrow> doctorCheck" where
  "exists_check t p name bad fix_it = (if stat_ok t p then dcheck name ''pass'' [] else dcheck name bad fix_it)"

definition runDoctorChecks :: "setup_env \<Rightarrow> path \<Rightarrow> doctorCheck list io" where
  "runDoctorChecks env repoRoot = (\<lambda>t.
     bind_io (checkHooks env repoRoot) (\<lambda>hooks. ret
       ([exists_check t (repoRoot @ [''.claude'']) ''.claude/ directory exists'' ''fail'' ''Run: ca init'',
         exists_check t (repoRoot @ [''.claude'', ''lessons'', ''index.jsonl'']) ''Lessons index present'' ''fail'' ''Run: ca init'',
         hooks,
         exists_check t (repoRoot @ [''.claude'', ''.gitignore'']) ''.claude/.gitignore present'' ''warn'' ''Run: ca init'',
         dcheck ''Go binary healthy'' ''pass'' [],
         exists_check t (repoRoot @ [''.beads'']) ''Beads initialized'' ''warn'' ''Run: bd init''] @
        (if se_windows env
         then [dcheck ''Windows platform'' ''info'' ''Vector search requires embed daemon (Unix only); keyword search works natively.'']
         else []))) t)"

definition doctor_icon :: "string \<Rightarrow> string" where
  "doctor_icon status = (if status = ''fail'' then ''[fail]'' else if status = ''warn'' then ''[warn]''
     else if status = ''info'' then ''[info]'' else ''[ok]'')"

definition printDoctorResults :: "doctorCheck list \<Rightarrow> string list" where
  "printDoctorResults checks =
     (let icons = map (\<lambda>c. doctor_icon (dc_Status c)) checks;
          num = (\<lambda>i. show_int (int (length (filter (\<lambda>j. j = i) icons)))) in
      concat (map (\<lambda>c. [println (''  '' @ doctor_icon (dc_Status c) @ '' '' @ dc_Name c)] @
                       (if dc_Fix c \<noteq> [] then [println (''       Fix: '' @ dc_Fix c)] else [])) checks) @
      [println [],
       println (''Results: '' @ num ''[ok]'' @ '' passed, '' @ num ''[fail]'' @ '' failed, '' @ num ''[warn]'' @ '' warnings'' @
         (if ''[info]'' \<in> set icons then '', '' @ num ''[info]'' @ '' info'' else []))])"

definition enc_check :: "doctorCheck \<Rightarrow> json" where
  "enc_check c = JObj ([(''name'', JStr (dc_Name c)), (''status'', JStr (dc_Status c))] @
     (if dc_Fix c \<noteq> [] then [(''fix'', JStr (dc_Fix c))] else []))"

definition doctorCmd :: "setup_env \<Rightarrow> path option \<Rightarrow> bool \<Rightarrow> unit cli" where
  "doctorCmd env repoRoot jsonOut =
     then_cli (lift_io (runDoctorChecks env (resolveRoot env repoRoot))) (\<lambda>checks. say
       (if jsonOut then [writeJSON (JObj [(''checks'', JArr (map enc_check checks))])] else printDoctorResults checks))"

subsection \<open>uninstall\<close>

record uninstallRunOpts =
  uo_mode :: UninstallMode
  uo_yes :: bool
  uo_jsonOut :: bool

definition uninstallOptsFromFlags :: "bool \<Rightarrow> bool \<Rightarrow> bool \<Rightarrow> bool \<Rightarrow> uninstallRunOpts" where
  "uninstallOptsFromFlags yes templatesOpt allOpt jsonOut =
     \<lparr>uo_mode = (if allOpt then UninstallAll else if templatesOpt then UninstallTemplates else UninstallHooksOnly),
      uo_yes = yes, uo_jsonOut = jsonOut\<rparr>"

text \<open>\<open>ReadString\<close> up to the first newline; None is a reader that is nil or fails at once.\<close>

definition readConfirmation :: "string option \<Rightarrow> string \<times> bool" where
  "readConfirmation stdin =
     (''Proceed? [y/N]: '',
      case stdin of None \<Rightarrow> False
      | Some s \<Rightarrow> (let l = takeWhile (\<lambda>c. c \<noteq> CHR 0x0A) s in s \<noteq> [] \<and> has_prefix (to_lower (trim_space l)) ''y''))"

definition printUninstallResult :: "UninstallResult \<Rightarrow> string list" where
  "printUninstallResult r =
     (if HooksRemoved r then [println ''[ok] Removed compound-agent hooks from .claude/settings.json''] else []) @
     (if TemplatesRemoved r \<noteq> []
      then println ''[ok] Removed template paths:'' # map (\<lambda>p. println (''       - '' @ p)) (TemplatesRemoved r) else []) @
     (if RuntimeRemoved r then [println ''[ok] Removed runtime state (.compound-agent/)''] else []) @
     (if MarkersStripped r \<noteq> []
      then println ''[ok] Stripped compound-agent blocks from:'' # map (\<lambda>p. println (''       - '' @ p)) (MarkersStripped r) else []) @
     [println ''[ok] Lessons preserved at .claude/lessons/'']"

text \<open>A nil slice is written as null.\<close>

definition str_slice :: "string list \<Rightarrow> json" where
  "str_slice xs = (if xs = [] then JNull else JArr (map JStr xs))"

definition uninstall_json :: "UninstallResult \<Rightarrow> string list" where
  "uninstall_json r =
     [writeJSON (JObj [(''hooksRemoved'', JBool (HooksRemoved r)), (''markersStripped'', str_slice (MarkersStripped r)),
        (''removed'', JBool (\<not> EmptyResult r)), (''runtimeRemoved'', JBool (RuntimeRemoved r)),
        (''templatesRemoved'', str_slice (TemplatesRemoved r))])]"

definition em_dash :: string where
  "em_dash = [CHR 0xE2, CHR 0x80, CHR 0x94]"

definition plan_text :: "string list \<Rightarrow> string list" where
  "plan_text plan =
     println ''[plan] ca uninstall would remove:'' # map (\<lambda>p. println (''  - '' @ p)) plan @
     [println ''[plan] Preserved: .claude/lessons/, .claude/compound-agent.json'']"

definition runUninstall :: "setup_env \<Rightarrow> path \<Rightarrow> uninstallRunOpts \<Rightarrow> string option \<Rightarrow> unit cli" where
  "runUninstall env repoRoot opts stdin =
     then_cli (lift_io (PlanUninstall repoRoot (uo_mode opts))) (\<lambda>plan.
       if plan = [] then
         say (if uo_jsonOut opts
              then [writeJSON (JObj [(''reason'', JStr ''nothing to uninstall''), (''removed'', JBool False)])]
              else [println (''[info] Nothing to uninstall '' @ em_dash @ '' no compound-agent artifacts detected.'')])
       else
         then_cli (say (plan_text plan @ (if uo_yes opts then [] else [fst (readConfirmation stdin)]))) (\<lambda>_.
           if \<not> uo_yes opts \<and> \<not> snd (readConfirmation stdin) then say [println (''[info] Aborted '' @ em_dash @ '' no changes made.'')]
           else then_cli (run_io ''uninstall'' (Uninstall (tp_float (se_tp env)) repoRoot (uo_mode opts))) (\<lambda>r.
             say (if uo_jsonOut opts then uninstall_json r else printUninstallResult r))))"

end
