(* ===== verification/SetupCliProps.thy ===== *)
theory SetupCliProps
  imports SetupCli SettingsFile PruneProps
begin

section \<open>What the setup commands promise\<close>

text \<open>
  \<open>setup claude\<close> converges: the dry run announces what the next run does, and after a run the
  status is "connected" and a further run finds nothing to do. \<open>uninstall\<close> changes nothing
  without consent.
\<close>

lemmas cli_defs = then_cli_def run_io_def lift_io_def say_def

lemma then_say: "then_cli (say out) f t = (case f () t of ((out', r), t') \<Rightarrow> ((out @ out', r), t'))"
  by (simp add: cli_defs split: prod.splits)

lemma say_run: "say out t = ((out, Inr ()), t)"
  by (simp add: say_def)

lemma then_run:
  "then_cli (run_io c m) f t = (case m t of
     (Inl e, t') \<Rightarrow> (([], Inl (if is_panic e then e else Ctx c e)), t') | (Inr x, t') \<Rightarrow> f x t')"
  by (simp add: cli_defs ctx_io_def split: prod.splits sum.splits)

lemma then_lift:
  "then_cli (lift_io m) f t = (case m t of (Inl e, t') \<Rightarrow> (([], Inl e), t') | (Inr x, t') \<Rightarrow> f x t')"
  by (simp add: cli_defs split: prod.splits sum.splits)

subsection \<open>setup claude\<close>

definition install_opts :: "setupClaudeOpts \<Rightarrow> bool" where
  "install_opts o1 \<longleftrightarrow> \<not> sc_uninstall o1 \<and> \<not> sc_status o1 \<and> \<not> sc_dryRun o1"

text \<open>What one run does to readable settings.\<close>

lemma runSetupClaude_run:
  assumes "claude_paths env o1 = (p, disp)" and "ReadClaudeSettings p t = (Inr s, t)" and "install_opts o1"
  shows "runSetupClaude env o1 t = handleClaudeInstall env s p (HasAllHooks s) (HooksNeedUpgrade s (se_binary env)) (HooksNeedDedupe s)
           disp (sc_jsonOut o1) t"
    and "runSetupClaude env (o1\<lparr>sc_dryRun := True\<rparr>) t =
      handleClaudeDryRun (HasAllHooks s) (HooksNeedUpgrade s (se_binary env)) (HooksNeedDedupe s) disp (sc_jsonOut o1) t"
    and "runSetupClaude env (o1\<lparr>sc_status := True\<rparr>) t =
      handleClaudeStatus (HasAllHooks s) (HooksNeedUpgrade s (se_binary env)) (HooksNeedDedupe s) disp p (sc_jsonOut o1) t"
proof -
  have same: "claude_paths env (o1\<lparr>sc_dryRun := x\<rparr>) = (p, disp)" "claude_paths env (o1\<lparr>sc_status := x\<rparr>) = (p, disp)" for x
    using assms(1) by (auto simp: claude_paths_def split: if_splits)
  note u = assms(3) [unfolded install_opts_def]
  show "runSetupClaude env o1 t = handleClaudeInstall env s p (HasAllHooks s) (HooksNeedUpgrade s (se_binary env)) (HooksNeedDedupe s)
      disp (sc_jsonOut o1) t"
    using u by (simp add: runSetupClaude_def assms(1) then_run assms(2) Let_def)
  show "runSetupClaude env (o1\<lparr>sc_dryRun := True\<rparr>) t =
      handleClaudeDryRun (HasAllHooks s) (HooksNeedUpgrade s (se_binary env)) (HooksNeedDedupe s) disp (sc_jsonOut o1) t"
    using u by (simp add: runSetupClaude_def same then_run assms(2) Let_def)
  show "runSetupClaude env (o1\<lparr>sc_status := True\<rparr>) t =
      handleClaudeStatus (HasAllHooks s) (HooksNeedUpgrade s (se_binary env)) (HooksNeedDedupe s) disp p (sc_jsonOut o1) t"
    using u by (simp add: runSetupClaude_def same then_run assms(2) Let_def)
qed

text \<open>After a run that succeeds, what is read back satisfies every check.\<close>

lemma handleClaudeInstall_rests:
  assumes "float_text (tp_float (se_tp env))" and "plain_binary (se_binary env)" and "valid_utf8 (se_binary env)"
    and "\<not> str_contains (se_binary env) ''npx ca ''" and "p \<noteq> []"
    and read: "ReadClaudeSettings p t = (Inr (Some m), t)" and npx: "\<not> HooksNeedUpgrade (Some m) (se_binary env)"
    and run: "handleClaudeInstall env (Some m) p (HasAllHooks (Some m)) False (HooksNeedDedupe (Some m)) disp json t = ((out, Inr ()), t')"
  obtains s where "ReadClaudeSettings p t' = (Inr s, t')" and "HasAllHooks s" and "\<not> HooksNeedUpgrade s (se_binary env)"
    and "\<not> HooksNeedDedupe s"
    and "out = printClaudeResult disp (past_tense (hookAction (HasAllHooks (Some m)) False (HooksNeedDedupe (Some m)))) json"
proof (cases "HasAllHooks (Some m) \<and> \<not> HooksNeedDedupe (Some m)")
  case True
  then have "t' = t" "out = printClaudeResult disp ''unchanged'' json"
    using run by (auto simp: handleClaudeInstall_def say_def)
  moreover have "past_tense (hookAction True False False) = ''unchanged''" by code_simp
  ultimately show thesis using that [of "Some m"] True read npx by simp
next
  case False
  let ?bin = "se_binary env" and ?f = "tp_float (se_tp env)"
  obtain d where d: "max_depth - 1 = Suc (Suc (Suc (Suc (Suc d))))" "Suc (Suc (Suc (Suc (Suc (Suc d))))) \<le> max_depth"
    by (rule that [of 9994]) (simp_all add: max_depth_def)
  have ok: "obj_ok (Suc (Suc (Suc (Suc (Suc d))))) m" using ReadClaudeSettings_ok [OF read] d(1) by simp
  obtain m1 where m1: "AddHooksForProfile (Some m) ?bin ProfileFull = Some m1" "obj_ok (Suc (Suc (Suc (Suc (Suc d))))) m1"
    using AddHooks_ok [OF assms(2,3) ok npx] by blast
  have w: "WriteClaudeSettings ?f p (Some m1) t = (Inr (), t')"
    and out: "out = printClaudeResult disp (past_tense (hookAction (HasAllHooks (Some m)) False (HooksNeedDedupe (Some m)))) json"
    using run False m1(1) by (auto simp: handleClaudeInstall_def AddAllHooks_def then_run say_def split: prod.splits sum.splits)
  have r: "ReadClaudeSettings p t' = (Inr (Some (sorted_map ?f m1)), t')"
    using WriteClaudeSettings_read [OF assms(1) m1(2) d(2) assms(5) w] by blast
  have b: "?bin \<noteq> []" using assms(2) by (simp add: plain_binary_def)
  have "HasAllHooksForProfile (Some m1) ProfileFull \<and> \<not> HooksNeedDedupe (Some m1) \<and> \<not> HooksNeedUpgrade (Some m1) ?bin"
    using AddHooksForProfile_settles [OF assms(2), of m ProfileFull] no_npx_after [OF assms(2,4) npx, of ProfileFull] by (simp add: m1(1))
  then have "HasAllHooks (Some (sorted_map ?f m1))" "\<not> HooksNeedDedupe (Some (sorted_map ?f m1))"
    "\<not> HooksNeedUpgrade (Some (sorted_map ?f m1)) ?bin"
    unfolding HasAllHooks_def using checks_sorted [OF m1(2)] b by simp_all
  with r out that show thesis by blast
qed

text \<open>
  C0: \<open>ca setup claude\<close> converges, for settings that can be read and hold no npx command and a
  plain path of the binary. A dry run changes nothing and announces the action that the run
  then reports. After a run that succeeds, the status is "connected" and a further run
  reports "unchanged" and changes nothing.
\<close>

theorem setup_claude_converges:
  assumes "float_text (tp_float (se_tp env))" and "plain_binary (se_binary env)" and "valid_utf8 (se_binary env)"
    and "\<not> str_contains (se_binary env) ''npx ca ''" and "install_opts o1" and "claude_paths env o1 = (p, disp)"
    and "ReadClaudeSettings p t = (Inr (Some m), t)" and "\<not> HooksNeedUpgrade (Some m) (se_binary env)"
    and "runSetupClaude env o1 t = ((out, Inr ()), t')" and "sc_jsonOut o1"
  shows "\<exists>action.
    runSetupClaude env (o1\<lparr>sc_dryRun := True\<rparr>) t =
      (([writeJSON (JObj [(''action'', JStr action), (''dryRun'', JBool True), (''installed'', JBool (HasAllHooks (Some m))),
           (''location'', JStr disp), (''needsDedupe'', JBool (HooksNeedDedupe (Some m))), (''needsUpgrade'', JBool False)])], Inr ()), t) \<and>
    out = printClaudeResult disp (past_tense action) True \<and>
    runSetupClaude env (o1\<lparr>sc_status := True\<rparr>) t' =
      (([writeJSON (JObj [(''hookDuplicated'', JBool False), (''hookInstalled'', JBool True), (''hookStale'', JBool False),
           (''settingsFile'', JStr disp), (''status'', JStr ''connected'')])], Inr ()), t') \<and>
    runSetupClaude env o1 t' = ((printClaudeResult disp ''unchanged'' True, Inr ()), t')"
proof -
  have p: "p \<noteq> []" using assms(6) by (auto simp: claude_paths_def settings_path_def split: if_splits)
  note before = runSetupClaude_run [OF assms(6,7,5)]
  have run: "handleClaudeInstall env (Some m) p (HasAllHooks (Some m)) False (HooksNeedDedupe (Some m)) disp True t = ((out, Inr ()), t')"
    using before(1) assms(8-10) by simp
  obtain s where s: "ReadClaudeSettings p t' = (Inr s, t')" "HasAllHooks s" "\<not> HooksNeedUpgrade s (se_binary env)" "\<not> HooksNeedDedupe s"
    and out: "out = printClaudeResult disp (past_tense (hookAction (HasAllHooks (Some m)) False (HooksNeedDedupe (Some m)))) True"
    by (rule handleClaudeInstall_rests [OF assms(1-4) p assms(7,8) run])
  note after = runSetupClaude_run [OF assms(6) s(1) assms(5)]
  show ?thesis
    by (rule exI [of _ "hookAction (HasAllHooks (Some m)) False (HooksNeedDedupe (Some m))"])
      (simp add: before(2) after out assms(8,10) s(2-4) handleClaudeDryRun_def handleClaudeStatus_def handleClaudeInstall_def statusLabel_def say_def Let_def)
qed

definition sample_env :: setup_env where
  "sample_env = \<lparr>se_tp = sample_tp\<lparr>tp_float := (\<lambda>_. ''0'')\<rparr>, se_binary = ''/usr/bin/ca'', se_home = None, se_cwd = [],
     se_PATH = [], se_gitRoot = [''repo''], se_windows = False\<rparr>"

definition sample_opts :: setupClaudeOpts where
  "sample_opts = \<lparr>sc_uninstall = False, sc_status = False, sc_global = False, sc_dryRun = False, sc_jsonOut = True, sc_repoRoot = None\<rparr>"

theorem setup_claude_converges_witness:
  "\<exists>out t'. runSetupClaude sample_env sample_opts empty_repo = ((out, Inr ()), t') \<and>
     runSetupClaude sample_env sample_opts t' = ((printClaudeResult ''.claude/settings.json'' ''unchanged'' True, Inr ()), t')"
proof -
  have 1: "plain_binary ''/usr/bin/ca''" "valid_utf8 ''/usr/bin/ca''" "\<not> str_contains ''/usr/bin/ca'' ''npx ca ''" by code_simp+
  have 2: "float_text (tp_float (se_tp sample_env))" "se_binary sample_env = ''/usr/bin/ca''"
    using float_zero by (simp_all add: sample_env_def)
  have 3: "\<not> HooksNeedUpgrade (Some []) (se_binary sample_env)" by (simp add: HooksNeedUpgrade_def hooks_of_def get_any_def as_obj_def)
  have 4: "install_opts sample_opts" "claude_paths sample_env sample_opts = (settings_path [''repo''], ''.claude/settings.json'')"
    "sc_jsonOut sample_opts"
    by (simp_all add: install_opts_def sample_opts_def claude_paths_def sample_env_def resolveRoot_def)
  have n: "\<not> HasAllHooks (Some [])" by (simp add: HasAllHooks_def HasAllHooksForProfile_def hooks_of_def get_any_def as_obj_def)
  obtain m1 where m1: "AddAllHooks (Some []) ''/usr/bin/ca'' = Some m1"
    by (simp add: AddAllHooks_def AddHooksForProfile_def Let_def)
  obtain out t' where run: "runSetupClaude sample_env sample_opts empty_repo = ((out, Inr ()), t')"
    using m1 n by (simp add: runSetupClaude_run(1) [OF 4(2) read_empty_repo 4(1)] handleClaudeInstall_def 2(2) then_run write_empty_repo say_def)
  have "runSetupClaude sample_env sample_opts t' = ((printClaudeResult ''.claude/settings.json'' ''unchanged'' True, Inr ()), t')"
    using setup_claude_converges [OF 2(1) 1 [folded 2(2)] 4(1,2) read_empty_repo 3 run 4(3)] by blast
  with run show ?thesis by blast
qed

subsection \<open>uninstall\<close>

lemma ReadClaudeSettings_pure: "\<exists>r. ReadClaudeSettings p t = (r, t) \<and> (\<forall>e. r = Inl e \<longrightarrow> \<not> is_panic e)"
  by (auto simp: ReadClaudeSettings_def try_io_def os_read_file_def ret_def fail_def is_panic_def split: sum.splits node.splits option.splits json.splits)

lemma PlanUninstall_pure: "\<exists>plan. PlanUninstall repoRoot mode t = (Inr plan, t)"
proof -
  obtain r where r: "ReadClaudeSettings (settings_path repoRoot) t = (r, t)" "\<And>e. r = Inl e \<Longrightarrow> \<not> is_panic e"
    using ReadClaudeSettings_pure by blast
  obtain a where "planHooks repoRoot t = (Inr a, t)"
  proof (cases r)
    case (Inl e)
    then show thesis using r that [of "[]"] by (simp add: planHooks_def try_io_def ret_def)
  next
    case (Inr s)
    then show thesis using r that by (cases "hooks_of s") (simp_all add: planHooks_def try_io_def ret_def)
  qed
  then show ?thesis
    by (simp add: PlanUninstall_def bind_io_def ret_def planTemplates_def planRuntimeAndMarkers_def)
qed

text \<open>
  C0: without \<open>--yes\<close> and without an answer that starts with y, or with nothing to remove,
  \<open>ca uninstall\<close> of any mode changes no file and does not fail.
\<close>

theorem runUninstall_needs_consent:
  assumes "\<not> uo_yes opts \<and> \<not> snd (readConfirmation stdin) \<or> fst (PlanUninstall repoRoot (uo_mode opts) t) = Inr []"
  shows "\<exists>out. runUninstall env repoRoot opts stdin t = ((out, Inr ()), t)"
proof -
  obtain plan where plan: "PlanUninstall repoRoot (uo_mode opts) t = (Inr plan, t)"
    using PlanUninstall_pure by blast
  show ?thesis
    using assms by (auto simp: runUninstall_def then_lift plan then_say say_run)
qed

theorem runUninstall_needs_consent_witness:
  "\<exists>out. runUninstall sample_env [''repo''] (uninstallOptsFromFlags False False True False) (Some ''no'') empty_repo = ((out, Inr ()), empty_repo)"
proof -
  have "\<not> snd (readConfirmation (Some ''no''))" by code_simp
  then show ?thesis by (intro runUninstall_needs_consent) (simp add: uninstallOptsFromFlags_def)
qed

text \<open>With \<open>--json\<close> the plan is printed as text in front of the JSON object, so the output is not JSON.\<close>

lemma runUninstall_json_preceded:
  assumes "PlanUninstall repoRoot (uo_mode opts) t = (Inr plan, t)" and "plan \<noteq> []"
  shows "\<exists>out r t'. runUninstall env repoRoot opts stdin t =
     ((println ''[plan] ca uninstall would remove:'' # out, r), t')"
  using assms by (auto simp: runUninstall_def then_lift then_say plan_text_def split: prod.splits)

end
