(* ===== verification/Query.thy ===== *)
theory Query
  imports Maintenance Knowledge Settings
begin

section \<open>The query commands (cli/commands.go, cli/commands_knowledge.go)\<close>

text \<open>
  search, list, load-session, check-plan, knowledge and index-docs. The embedder that the
  daemon gives is None when there is none; starting the daemon is outside. The parameters
  of the search model (orders, engines, the clock) are gathered in \<open>query_env\<close>, the state is
  that of the maintenance commands.
\<close>

definition DefaultSearchLimit :: int where "DefaultSearchLimit = 10"
definition DefaultListLimit :: int where "DefaultListLimit = 20"
definition DefaultCheckPlanLimit :: int where "DefaultCheckPlanLimit = 5"
definition LessonCountWarning :: nat where "LessonCountWarning = 20"
definition AgeFlagThresholdDays :: int where "AgeFlagThresholdDays = 90"

record query_env =
  qe_search :: search_env
  qe_iter :: "(string, blend_entry) gomap \<Rightarrow> (string, blend_entry) gomap"
  qe_srt :: "(scored_item \<Rightarrow> scored_item \<Rightarrow> bool) \<Rightarrow> scored_item list \<Rightarrow> scored_item list"
  qe_rsrt :: "(ranked_item \<Rightarrow> ranked_item \<Rightarrow> bool) \<Rightarrow> ranked_item list \<Rightarrow> ranked_item list"
  qe_isrt :: "(item \<Rightarrow> item \<Rightarrow> bool) \<Rightarrow> item list \<Rightarrow> item list"
  qe_fts :: "raw_fields list \<Rightarrow> string \<Rightarrow> (raw_fields \<times> real) list option"
  qe_order :: "(raw_fields \<times> real \<Rightarrow> raw_fields \<times> real \<Rightarrow> bool) \<Rightarrow> (raw_fields \<times> real) list \<Rightarrow> (raw_fields \<times> real) list"
  qe_writable :: bool            \<comment> \<open>the embedding cache can be written\<close>
  qe_readFails :: bool           \<comment> \<open>reading all rows fails\<close>
  qe_cct :: "opened option"      \<comment> \<open>the pattern file\<close>
  qe_show :: "real \<Rightarrow> string"     \<comment> \<open>encoding/json of a float64\<close>
  qe_windows :: bool

datatype query_error =
    QOpen string
  | QSync db_error
  | QKeyword
  | QRetrieve search_error
  | QRead store_error
  | QStdin
  | QNoPlan
  | QPanic

subsection \<open>Formatting\<close>

definition tag_line :: "item \<Rightarrow> string" where
  "tag_line it = (if tag_list it = [] then [] else line (''  Tags: '' @ join '', '' (tag_list it)))"

definition formatSearchResults :: "item list \<Rightarrow> string" where
  "formatSearchResults items =
     (if items = [] then line (''No lessons match your search. Try a different query or use '' @ [CHR 0x22] @ ''list'' @ [CHR 0x22] @ '' to see all lessons.'')
      else line (''[info] Found '' @ show_int (int (length items)) @ '' lesson(s):'') @
        concat (map (\<lambda>it. nl @ line (''['' @ ID it @ ''] '' @ Insight it) @ line (''  Trigger: '' @ Trigger it) @ tag_line it) items))"

definition formatListResults :: "item list \<Rightarrow> nat \<Rightarrow> nat \<Rightarrow> string" where
  "formatListResults items allCount skippedCount =
     (if items = []
      then line (''No lessons found. Get started with: learn '' @ [CHR 0x22] @ ''Your first lesson'' @ [CHR 0x22])
      else line (''[info] Showing '' @ show_int (int (length items)) @ '' of '' @ show_int (int allCount) @ '' item(s):'') @
        concat (map (\<lambda>it. nl @ line (''['' @ ID it @ ''] '' @ Insight it) @
          line (''  Type: '' @ Type it @ '' | Source: '' @ formatSource (Source it)) @ tag_line it) items)) @
     (if skippedCount > 0 then nl @ line (''[warn] '' @ show_int (int skippedCount) @ '' corrupted lesson(s) skipped.'') else [])"

text \<open>\<open>AddDate(0, 0, -90)\<close> of a clock without a change of its zone offset.\<close>

definition countOldLessons :: "int \<Rightarrow> item list \<Rightarrow> nat" where
  "countOldLessons now items =
     length (filter (\<lambda>it. case parse_rfc3339 (Created it) of None \<Rightarrow> False
       | Some created \<Rightarrow> created < now - AgeFlagThresholdDays * day_ns) items)"

definition formatSessionHuman :: "int \<Rightarrow> item list \<Rightarrow> nat \<Rightarrow> string" where
  "formatSessionHuman now items totalCount =
     (if items = []
      then line (''No high-severity lessons found. Run '' @ [CHR 0x60] @ ''ca learn '' @ [CHR 0x22] @ ''<insight>'' @ [CHR 0x22, CHR 0x60] @
                 '' to capture your first lesson.'')
      else line ''## Lessons from Past Sessions'' @ nl @
        line ''These lessons were captured from previous corrections and should inform your work:'' @ nl @
        concat (map (\<lambda>(i, it). line (show_int (int i + 1) @ ''. **'' @ Insight it @ ''**'' @
            (if tag_list it = [] then [] else '' ('' @ join '', '' (tag_list it) @ '')'')) @
          line (''   Learned: '' @ datePrefix (Created it) @ '' via '' @ formatSource (Source it)) @ nl) (enumerate 0 items)) @
        (if totalCount > LessonCountWarning
         then line (''[info] '' @ show_int (int totalCount) @ '' lessons in index. Consider '' @ [CHR 0x60] @ ''ca compact'' @ [CHR 0x60] @
                    '' to reduce context pollution.'') else []) @
        (if countOldLessons now items > 0
         then line (''[warn] '' @ show_int (int (countOldLessons now items)) @ '' lesson(s) are over 90 days old. Review for continued validity.'')
         else []))"

definition formatSessionJSON :: "item list \<Rightarrow> nat \<Rightarrow> string" where
  "formatSessionJSON items totalCount =
     marshal (JObj [(''lessons'', JArr (map enc_item items)), (''count'', JNum (show_int (int (length items)))),
       (''totalCount'', JNum (show_int (int totalCount)))])"

definition formatCheckPlanHuman :: "ranked_item list \<Rightarrow> string" where
  "formatCheckPlanHuman ranked =
     (if ranked = [] then line ''No relevant lessons found for this plan.''
      else line ''## Lessons Check'' @ nl @ line ''Relevant to your plan:'' @ nl @
        concat (map (\<lambda>(i, r). let it = si_Item (ri_Scored r) in
          line (show_int (int i + 1) @ ''. ['' @ ID it @ ''] '' @ Insight it) @
          line (''   - Source: '' @ formatSource (Source it)) @ nl) (enumerate 0 ranked)) @
        line ''---'' @ line ''Consider these lessons while implementing.'')"

definition formatCheckPlanJSON :: "(real \<Rightarrow> string) \<Rightarrow> ranked_item list \<Rightarrow> string" where
  "formatCheckPlanJSON show_float ranked =
     marshal (JObj [(''lessons'', JArr (map (\<lambda>r. let it = si_Item (ri_Scored r) in
         JObj [(''id'', JStr (ID it)), (''insight'', JStr (Insight it)), (''rankScore'', JNum (show_float (FinalScore r))),
               (''source'', JStr (Source it))]) ranked)),
       (''count'', JNum (show_int (int (length ranked))))])"

subsection \<open>search\<close>

text \<open>A panic of the vector search ends the program; any other error of it leaves the keyword results.\<close>

definition executeHybridSearch ::
    "query_env \<Rightarrow> int \<Rightarrow> lesson_db \<Rightarrow> embedder \<Rightarrow> string \<Rightarrow> int \<Rightarrow> (query_error + item list) \<times> lesson_db" where
  "executeHybridSearch env now db emb query limit =
     (let candidateLimit = limit * CandidateMultiplier;
          (vecResults, db1) = Vector (qe_search env) (qe_srt env) (qe_writable env) emb (qe_readFails env) db query candidateLimit (qe_cct env)
      in if vecResults = Inl IndexPanic then (Inl QPanic, db1)
         else case SearchKeywordScored (qe_fts env) (qe_order env) db1 query candidateLimit [] of
             None \<Rightarrow> (Inl QKeyword, db1)
           | Some kwScored \<Rightarrow>
               (let kwItems = map (\<lambda>r. \<lparr>si_Item = sr_Item r, si_Score = sr_Score r\<rparr>) kwScored;
                    merged = (case vecResults of Inl _ \<Rightarrow> kwItems
                      | Inr vec \<Rightarrow> MergeHybridScores (qe_iter env) (qe_srt env) vec kwItems (Some with_vectors));
                    ranked = RankItems (qe_rsrt env) now merged;
                    cut = (if int (length ranked) > limit then take (nat limit) ranked else ranked)
                in (Inr (map (\<lambda>r. si_Item (ri_Scored r)) cut), db1)))"

text \<open>The notice of Windows is given once; that it was is remembered in a marker file, if it can be written.\<close>

definition emitWindowsSearchNotice :: "path \<Rightarrow> node \<Rightarrow> string list \<times> node" where
  "emitWindowsSearchNotice repoRoot t =
     (let dir = repoRoot @ [''.claude'', ''.cache'']; marker = dir @ [''.windows-search-notice''] in
      case os_stat marker t of (Inr _, t1) \<Rightarrow> ([], t1)
      | (Inl _, t1) \<Rightarrow>
          ([line ''[keyword-only mode: semantic search unavailable on this platform]''],
           snd (os_write_file marker ''shown'' (snd (os_mkdir_all dir t1)))))"

text \<open>The notices, the result, the index, and the tree of files.\<close>

definition executeSearch ::
    "query_env \<Rightarrow> int \<Rightarrow> lesson_db \<Rightarrow> path \<Rightarrow> node \<Rightarrow> embedder option \<Rightarrow> string \<Rightarrow> int \<Rightarrow>
     string list \<times> (query_error + item list) \<times> lesson_db \<times> node" where
  "executeSearch env now db repoRoot t embedder query limit =
     (case embedder of
        Some emb \<Rightarrow> (case executeHybridSearch env now db emb query limit of (r, db') \<Rightarrow> ([], r, db', t))
      | None \<Rightarrow>
          (let (notices, t') = (if qe_windows env then emitWindowsSearchNotice repoRoot t else ([], t)) in
           case SearchKeyword (qe_fts env) (qe_order env) db query limit [] of
             None \<Rightarrow> (notices, Inl QKeyword, db, t') | Some items \<Rightarrow> (notices, Inr items, db, t')))"

type_synonym query_result = "(string list \<times> query_error option) \<times> maint_world"

text \<open>Opening and syncing, as search and check-plan begin.\<close>

definition synced :: "maint_world \<Rightarrow> (query_error + lesson_db) \<times> maint_world" where
  "synced w =
     (case mw_open w of Some e \<Rightarrow> (Inl (QOpen e), w)
      | None \<Rightarrow> (case SyncIfNeeded (mw_dbFault w) (mw_db w) (mw_opened w) (mw_mtime w) False of
            ((_, Some e), db) \<Rightarrow> (Inl (QSync e), w\<lparr>mw_db := db\<rparr>)
          | ((_, None), db) \<Rightarrow> (Inr db, w\<lparr>mw_db := db\<rparr>)))"

definition runSearch :: "query_env \<Rightarrow> maint_world \<Rightarrow> path \<Rightarrow> node \<Rightarrow> embedder option \<Rightarrow> string list \<Rightarrow> int \<Rightarrow> query_result \<times> node" where
  "runSearch env w repoRoot t embedder args limit =
     (case synced w of (Inl e, w1) \<Rightarrow> ((([], Some e), w1), t)
      | (Inr db, w1) \<Rightarrow>
          (case executeSearch env (instant (cr_now (mw_base w))) db repoRoot t embedder (join '' '' args) limit of
             (notices, Inl e, db', t') \<Rightarrow> (((notices, Some e), w1\<lparr>mw_db := db'\<rparr>), t')
           | (notices, Inr items, db', t') \<Rightarrow> (((notices @ [formatSearchResults items], None), w1\<lparr>mw_db := db'\<rparr>), t')))"

definition searchCmd :: "query_env \<Rightarrow> maint_world \<Rightarrow> path \<Rightarrow> node \<Rightarrow> embedder option \<Rightarrow> string list \<Rightarrow> int \<Rightarrow> query_result \<times> node" where
  "searchCmd env w repoRoot t embedder args limit =
     runSearch env w repoRoot t embedder args (if limit < 1 then DefaultSearchLimit else limit)"

subsection \<open>list and load-session\<close>

definition listCmd :: "maint_world \<Rightarrow> int \<Rightarrow> bool \<Rightarrow> query_result" where
  "listCmd w limit invalidated =
     (case ReadItems (mw_opened w) of Inl e \<Rightarrow> (([], Some (QRead e)), w)
      | Inr result \<Rightarrow>
          (let filtered = filter (\<lambda>it. invalidated = (InvalidatedAt it \<noteq> None)) (Items result);
               cut = (if limit > 0 \<and> int (length filtered) > limit then take (nat limit) filtered else filtered)
           in (([formatListResults cut (length filtered) (SkippedCount result)], None), w)))"

text \<open>The hint is shown once; that it was is remembered in the tree of files.\<close>

definition loadSessionCmd :: "query_env \<Rightarrow> maint_world \<Rightarrow> path \<Rightarrow> bool \<Rightarrow> node \<Rightarrow> query_result \<times> node" where
  "loadSessionCmd env w repoRoot jsonOut t =
     (case LoadSessionLessons (qe_isrt env) (mw_opened w) 5 of
        Inl e \<Rightarrow> ((([], Some (QRead e)), w), t)
      | Inr lessons \<Rightarrow>
          (case ReadItems (mw_opened w) of Inl e \<Rightarrow> ((([], Some (QRead e)), w), t)
           | Inr allResult \<Rightarrow>
               (let totalCount = length (Items allResult) in
                if jsonOut then ((([line (formatSessionJSON lessons totalCount)], None), w), t)
                else
                  let out = [formatSessionHuman (instant (cr_now (mw_base w))) lessons totalCount] in
                  case ShouldShowHint repoRoot t of
                    (Inr True, t1) \<Rightarrow> (((out @ [nl @ WorkflowHint], None), w), snd (MarkHintShown repoRoot t1))
                  | (_, t1) \<Rightarrow> (((out, None), w), t1))))"

subsection \<open>check-plan\<close>

text \<open>\<open>piped\<close> is what reading standard input gives when it is not a terminal.\<close>

definition resolvePlanText :: "string \<Rightarrow> stdin option \<Rightarrow> query_error + string" where
  "resolvePlanText planText piped =
     (case (if planText = [] then
              (case piped of None \<Rightarrow> Inr planText
               | Some r \<Rightarrow> (case ReadStdinFrom (1024 * 1024) r of None \<Rightarrow> Inl QStdin | Some text \<Rightarrow> Inr (trim_space text)))
            else Inr planText) of
        Inl e \<Rightarrow> Inl e
      | Inr p \<Rightarrow> if p = [] then Inl QNoPlan else Inr p)"

definition runCheckPlan :: "query_env \<Rightarrow> maint_world \<Rightarrow> embedder option \<Rightarrow> string \<Rightarrow> bool \<Rightarrow> int \<Rightarrow> query_result" where
  "runCheckPlan env w embedder planText jsonOut limit =
     (case synced w of (Inl e, w1) \<Rightarrow> (([], Some e), w1)
      | (Inr db, w1) \<Rightarrow>
       (case RetrieveForPlan (qe_search env) (qe_iter env) (qe_srt env) (qe_rsrt env) (qe_fts env) (qe_order env) (qe_writable env)
              (qe_readFails env) (instant (cr_now (mw_base w))) db (qe_cct env) embedder planText limit of
         (Inl e, db') \<Rightarrow> (([], Some (if e = IndexPanic then QPanic else QRetrieve e)), w1\<lparr>mw_db := db'\<rparr>)
       | (Inr (lessons, message), db') \<Rightarrow>
           (([if jsonOut then line (formatCheckPlanJSON (qe_show env) lessons) else formatCheckPlanHuman lessons], None), w1\<lparr>mw_db := db'\<rparr>)))"

definition checkPlanCmd :: "query_env \<Rightarrow> maint_world \<Rightarrow> embedder option \<Rightarrow> string \<Rightarrow> stdin option \<Rightarrow> bool \<Rightarrow> int \<Rightarrow> query_result" where
  "checkPlanCmd env w embedder planText piped jsonOut limit0 =
     (let limit = (if limit0 < 1 then DefaultCheckPlanLimit else limit0) in
      case resolvePlanText planText piped of Inl e \<Rightarrow> (([], Some e), w)
      | Inr resolved \<Rightarrow> runCheckPlan env w embedder resolved jsonOut limit)"

subsection \<open>knowledge and index-docs\<close>

definition MaxDisplayText :: nat where "MaxDisplayText = 200"

definition formatKnowledgeResults :: "scored_kchunk list \<Rightarrow> string" where
  "formatKnowledgeResults results =
     (if results = [] then line ''No knowledge chunks match your query. Try indexing first: index-docs''
      else line (''[info] Found '' @ show_int (int (length results)) @ '' result(s):'') @
        concat (map (\<lambda>r. let c = sk_Chunk r;
            text0 = (if length (kc_Text c) > MaxDisplayText then take MaxDisplayText (kc_Text c) @ ''...'' else kc_Text c)
          in nl @ line (''['' @ kc_FilePath c @ '':L'' @ show_int (int (kc_StartLine c)) @ ''-L'' @ show_int (int (kc_EndLine c)) @ ''] '' @
               replace_char CHR 0x0A '' '' text0)) results))"

text \<open>\<open>seconds\<close> is the printed duration.\<close>

definition formatIndexResult :: "string \<Rightarrow> index_result \<Rightarrow> string" where
  "formatIndexResult seconds r =
     ''Indexed '' @ show_int (FilesIndexed r) @ '' file(s), '' @ show_int (ChunksCreated r) @ '' chunk(s) created'' @
     (if FilesSkipped r > 0 then '', '' @ show_int (FilesSkipped r) @ '' file(s) unchanged'' else []) @
     (if ChunksDeleted r > 0 then '', '' @ show_int (ChunksDeleted r) @ '' stale chunk(s) removed'' else []) @
     (if FilesErrored r > 0 then '', '' @ show_int (FilesErrored r) @ '' file(s) errored'' else []) @
     line ('' ('' @ seconds @ ''s)'')"

record know_env =
  kv_frombits :: "32 word \<Rightarrow> real"
  kv_bits :: "real \<Rightarrow> 32 word"
  kv_iter :: "(string, cached_embedding) gomap \<Rightarrow> (string, cached_embedding) gomap"
  kv_kiter :: "(string, kentry) gomap \<Rightarrow> (string, kentry) gomap"
  kv_esrt :: "(string \<times> real \<Rightarrow> string \<times> real \<Rightarrow> bool) \<Rightarrow> (string \<times> real) list \<Rightarrow> (string \<times> real) list"
  kv_ksrt :: "(scored_kchunk \<Rightarrow> scored_kchunk \<Rightarrow> bool) \<Rightarrow> scored_kchunk list \<Rightarrow> scored_kchunk list"
  kv_fts :: "krow list \<Rightarrow> string \<Rightarrow> (krow \<times> real) list option"
  kv_order :: "(krow \<times> real \<Rightarrow> krow \<times> real \<Rightarrow> bool) \<Rightarrow> (krow \<times> real) list \<Rightarrow> (krow \<times> real) list"
  kv_index :: index_env
  kv_seconds :: string

datatype know_error = KOpen string | KSearch search_error | KIndex

text \<open>An empty table is indexed first; that this failed is only a warning.\<close>

definition knowledgeCmd :: "know_env \<Rightarrow> string option \<Rightarrow> knowledge_db \<Rightarrow> embedder option \<Rightarrow> string list \<Rightarrow> int \<Rightarrow>
    (string list \<times> know_error option) \<times> knowledge_db" where
  "knowledgeCmd env opens db embedder args limit0 =
     (let limit = (if limit0 < 1 then DefaultKnowledgeLimit else limit0); query = join '' '' args in
      case opens of Some e \<Rightarrow> (([], Some (KOpen e)), db)
      | None \<Rightarrow>
          (let (warned, db1) = (if GetChunkCount db = 0 then
                 (case IndexDocs (kv_index env) False db of ((ok, _), d) \<Rightarrow> (if ok then [] else [''[warn] auto-index failed:''], d))
               else ([], db))
           in case SearchKnowledge (kv_frombits env) (kv_iter env) (kv_kiter env) (kv_esrt env) (kv_ksrt env) (kv_fts env) (kv_order env)
                db1 embedder query limit of
                Inl e \<Rightarrow> ((warned, Some (KSearch e)), db1)
              | Inr results \<Rightarrow> ((warned @ [formatKnowledgeResults results], None), db1)))"

definition indexDocsCmd :: "know_env \<Rightarrow> string option \<Rightarrow> knowledge_db \<Rightarrow> embedder option \<Rightarrow> bool \<Rightarrow> bool \<Rightarrow>
    (string list \<times> know_error option) \<times> knowledge_db" where
  "indexDocsCmd env opens db embedder force embed_too =
     (case opens of Some e \<Rightarrow> (([], Some (KOpen e)), db)
      | None \<Rightarrow>
          (case IndexDocs (kv_index env) force db of
             ((False, _), db1) \<Rightarrow> (([], Some KIndex), db1)
           | ((True, result), db1) \<Rightarrow>
               (let out = [formatIndexResult (kv_seconds env) result] in
                if \<not> embed_too then ((out, None), db1)
                else case embedder of
                    None \<Rightarrow> ((out @ [line ''[warn] embedding daemon not available, skipping embedding.''], None), db1)
                  | Some emb \<Rightarrow>
                      (case EmbedChunks (kv_bits env) emb None db1 of
                         ((_, Some e), db2) \<Rightarrow> ((out @ [''[warn] embedding failed:''], None), db2)
                       | ((er, None), db2) \<Rightarrow>
                           ((out @ [line (''Embedded '' @ show_int (ChunksEmbedded er) @ '' chunk(s).'')], None), db2)))))"

end
