(* ===== verification/QueryProps.thy ===== *)
theory QueryProps
  imports Query SearchProps MaintenanceProps
begin

section \<open>What the query commands promise\<close>

text \<open>
  A vector search changes only the embedding columns, which the full-text index does not hold
  (\<open>content_only\<close>). So search and check-plan, which do their two searches in opposite orders, find
  the same items as far as both order ties alike; and a search is never worse off for a daemon that fails.
\<close>

subsection \<open>What a vector search changes\<close>

definition text_part :: "raw_fields \<Rightarrow> raw_fields" where
  "text_part r = r\<lparr>rf_embedding := None, rf_contentHash := None, rf_embeddingInsight := None, rf_contentHashInsight := None\<rparr>"

definition same_text :: "lesson_db \<Rightarrow> lesson_db \<Rightarrow> bool" where
  "same_text db db' \<longleftrightarrow> map text_part (db_lessons db') = map text_part (db_lessons db)"

text \<open>The full-text table has the text columns of a lesson only.\<close>

definition content_only ::
    "(raw_fields list \<Rightarrow> string \<Rightarrow> (raw_fields \<times> real) list option) \<Rightarrow>
     ((raw_fields \<times> real \<Rightarrow> raw_fields \<times> real \<Rightarrow> bool) \<Rightarrow> (raw_fields \<times> real) list \<Rightarrow> (raw_fields \<times> real) list) \<Rightarrow> bool" where
  "content_only fts order_by \<longleftrightarrow>
     (\<forall>db db' q n. same_text db db' \<longrightarrow>
        SearchKeywordScored fts order_by db' q n [] = SearchKeywordScored fts order_by db q n [])"

lemma same_text_refl [simp]: "same_text db db"
  by (simp add: same_text_def)

lemma same_text_trans: "same_text a b \<Longrightarrow> same_text b c \<Longrightarrow> same_text a c"
  by (simp add: same_text_def)

lemma same_text_store: "same_text db (SetCachedEmbedding bits db i vec h)"
  by (simp add: same_text_def SetCachedEmbedding_def update_row_def text_part_def)

lemma same_text_fill:
  assumes "\<And>db i v h. same_text db (store db i v h)"
  shows "same_text db (snd (fill_vecs store wr us vecs slots db))"
proof (induction us arbitrary: vecs slots db)
  case (Cons w us)
  show ?case
  proof (cases vecs)
    case Nil
    then show ?thesis by (cases w) simp
  next
    case v: (Cons v vs)
    obtain i u where w: "w = (i, u)" by (cases w)
    let ?db = "if wr then store db (ID (ent_item u)) v (ent_hash u) else db"
    have "same_text db ?db" using assms by simp
    moreover have "same_text ?db (snd (fill_vecs store wr us vs (slots[i := v]) ?db))" by (rule Cons.IH)
    ultimately have "same_text db (snd (fill_vecs store wr us vs (slots[i := v]) ?db))" by (rule same_text_trans)
    then show ?thesis by (simp only: v w fill_vecs.simps)
  qed
qed simp

lemma same_text_resolve: "same_text db (snd (resolveItemEmbeddings env wr emb db items))"
  by (auto simp: resolveItemEmbeddings_def resolve_cached_def Let_def same_text_fill same_text_store split: option.split)

lemma same_text_Vector: "same_text db (snd (Vector env srt wr emb fails db query n cct))"
proof -
  let ?res = "resolveItemEmbeddings env wr emb db (ReadAll (env_deliver env) db)"
  obtain res db' where r: "?res = (res, db')" by fastforce
  then have "same_text db db'" using same_text_resolve [of db env wr emb "ReadAll (env_deliver env) db"] by simp
  then show ?thesis using r by (simp add: Vector_def Let_def split: option.split list.split sum.split)
qed

lemma Vector_no_panic:
  assumes "embedder_ok emb"
  shows "fst (Vector env srt wr emb fails db query n cct) \<noteq> Inl IndexPanic"
proof -
  let ?res = "resolveItemEmbeddings env wr emb db (ReadAll (env_deliver env) db)"
  obtain res db' where r: "?res = (res, db')" by fastforce
  then have "res \<noteq> Inl IndexPanic"
    using item_cache.resolve_cached_ok [OF assms r [unfolded resolveItemEmbeddings_def]] by auto
  moreover have "emb [query] \<noteq> Some []"
    using assms [unfolded embedder_ok_def, rule_format, of "[query]" "[]"] by (auto simp: maxEmbedBatch_def)
  ultimately show ?thesis using r by (auto simp: Vector_def Let_def split: option.split list.split sum.split)
qed

subsection \<open>search and check-plan\<close>

abbreviation ranked_items :: "ranked_item list \<Rightarrow> item list" where
  "ranked_items rs \<equiv> map (\<lambda>r. si_Item (ri_Scored r)) rs"

abbreviation query_vector where
  "query_vector env db emb q n \<equiv>
     Vector (qe_search env) (qe_srt env) (qe_writable env) emb (qe_readFails env) db q n (qe_cct env)"

lemma hybrid_same_text:
  assumes "content_only (qe_fts env) (qe_order env)"
  shows "SearchKeywordScored (qe_fts env) (qe_order env) (snd (query_vector env db emb q n)) q n [] =
    SearchKeywordScored (qe_fts env) (qe_order env) db q n []"
  using assms same_text_Vector unfolding content_only_def by blast

lemma hybrid_is_retrieval:
  assumes "content_only (qe_fts env) (qe_order env)" and "1 \<le> limit"
    and "SearchKeywordScored (qe_fts env) (qe_order env) db q (limit * CandidateMultiplier) [] = Some kw"
    and "query_vector env db emb q (limit * CandidateMultiplier) = (Inr vs, db')"
  shows "\<exists>ranked message. int (length ranked) \<le> limit \<and>
    RetrieveForPlan (qe_search env) (qe_iter env) (qe_srt env) (qe_rsrt env) (qe_fts env) (qe_order env) (qe_writable env)
      (qe_readFails env) now db (qe_cct env) (Some emb) q limit = (Inr (ranked, message), db') \<and>
    executeHybridSearch env now db emb q limit = (Inr (ranked_items ranked), db')"
proof -
  let ?kw = "map (\<lambda>r. \<lparr>si_Item = sr_Item r, si_Score = sr_Score r\<rparr>) kw"
  let ?ranked = "mergeAndRank (qe_iter env) (qe_srt env) (qe_rsrt env) now ?kw vs True limit"
  have k: "SearchKeywordScored (qe_fts env) (qe_order env) db' q (limit * CandidateMultiplier) [] = Some kw"
    using hybrid_same_text [OF assms(1), where db = db and emb = emb and q = q and n = "limit * CandidateMultiplier"] assms(3,4) by simp
  have "int (length ?ranked) \<le> limit" using assms(2) by (simp add: mergeAndRank_def Let_def)
  moreover have "RetrieveForPlan (qe_search env) (qe_iter env) (qe_srt env) (qe_rsrt env) (qe_fts env) (qe_order env)
      (qe_writable env) (qe_readFails env) now db (qe_cct env) (Some emb) q limit =
      (Inr (?ranked, FormatLessonsCheck (map ri_Scored ?ranked)), db')"
    using assms(2,3,4) by (simp add: RetrieveForPlan_def Let_def)
  moreover have "executeHybridSearch env now db emb q limit = (Inr (ranked_items ?ranked), db')"
    using assms(4) k by (simp add: executeHybridSearch_def mergeAndRank_def Let_def)
  ultimately show ?thesis by blast
qed

text \<open>\<open>ca search\<close> and \<open>ca check-plan\<close> with one and the same way to order ties: with an embedder that answers, the same text
  and the same limit, on the same repository, both print the items of one list of at most \<open>limit\<close> ranked results, although
  one searches the vectors first and the other the keywords, and both leave the same index behind. Two runs of the
  program need not order ties alike, since Go ranges over the merged map in a random order: with ties at the
  limit they may print different items.\<close>

theorem search_checkPlan_agree:
  assumes "content_only (qe_fts env) (qe_order env)" and "synced w = (Inr db, w1)" and "1 \<le> limit" and "q \<noteq> []"
    and "SearchKeywordScored (qe_fts env) (qe_order env) db q (limit * CandidateMultiplier) [] = Some kw"
    and "query_vector env db emb q (limit * CandidateMultiplier) = (Inr vs, db')"
  shows "\<exists>ranked. int (length ranked) \<le> limit \<and>
    searchCmd env w repoRoot t (Some emb) [q] limit =
      ((([formatSearchResults (ranked_items ranked)], None), w1\<lparr>mw_db := db'\<rparr>), t) \<and>
    checkPlanCmd env w (Some emb) q piped False limit = (([formatCheckPlanHuman ranked], None), w1\<lparr>mw_db := db'\<rparr>) \<and>
    checkPlanCmd env w (Some emb) q piped True limit =
      (([line (formatCheckPlanJSON (qe_show env) ranked)], None), w1\<lparr>mw_db := db'\<rparr>)"
proof -
  from hybrid_is_retrieval [OF assms(1,3,5,6), of "instant (cr_now (mw_base w))"]
  obtain ranked message where r: "int (length ranked) \<le> limit"
    "RetrieveForPlan (qe_search env) (qe_iter env) (qe_srt env) (qe_rsrt env) (qe_fts env) (qe_order env) (qe_writable env)
      (qe_readFails env) (instant (cr_now (mw_base w))) db (qe_cct env) (Some emb) q limit = (Inr (ranked, message), db')"
    "executeHybridSearch env (instant (cr_now (mw_base w))) db emb q limit = (Inr (ranked_items ranked), db')" by blast
  have "\<not> limit < 1" using assms(3) by simp
  then show ?thesis using r assms(2,4)
    by (intro exI [of _ ranked])
      (simp add: searchCmd_def runSearch_def executeSearch_def checkPlanCmd_def resolvePlanText_def runCheckPlan_def)
qed

text \<open>C25: A search is never worse off for its embedder: once the index is open and synced and the keyword search
  answers, \<open>ca search\<close> succeeds without an embedder and with any embedder that does not answer short, whatever
  errors that one returns; it prints at most \<open>limit\<close> items, and when the vector search failed every one of
  them is a keyword hit.\<close>

theorem searchCmd_degrades:
  assumes "content_only (qe_fts env) (qe_order env)" and "slice_sort (qe_rsrt env)" and "embedder_ok emb"
    and "synced w = (Inr db, w1)" and "1 \<le> limit"
    and "SearchKeywordScored (qe_fts env) (qe_order env) db q (limit * CandidateMultiplier) [] = Some kw"
  shows "\<exists>items db'. searchCmd env w repoRoot t (Some emb) [q] limit =
      ((([formatSearchResults items], None), w1\<lparr>mw_db := db'\<rparr>), t) \<and> same_text db db' \<and> int (length items) \<le> limit \<and>
    (\<forall>e. fst (query_vector env db emb q (limit * CandidateMultiplier)) = Inl e \<longrightarrow> set items \<subseteq> sr_Item ` set kw)"
proof -
  let ?v = "query_vector env db emb q (limit * CandidateMultiplier)" and ?now = "instant (cr_now (mw_base w))"
  let ?kw = "map (\<lambda>r. \<lparr>si_Item = sr_Item r, si_Score = sr_Score r\<rparr>) kw"
  obtain res db' where v: "?v = (res, db')" by fastforce
  have p: "res \<noteq> Inl IndexPanic" using Vector_no_panic [OF assms(3)] v by (metis fst_conv)
  have same: "same_text db db'" using same_text_Vector v by (metis snd_conv)
  have k: "SearchKeywordScored (qe_fts env) (qe_order env) db' q (limit * CandidateMultiplier) [] = Some kw"
    using hybrid_same_text [OF assms(1), where db = db and emb = emb and q = q and n = "limit * CandidateMultiplier"] assms(6) v by simp
  define merged where "merged = (case res of Inl _ \<Rightarrow> ?kw
    | Inr vec \<Rightarrow> MergeHybridScores (qe_iter env) (qe_srt env) vec ?kw (Some with_vectors))"
  define ranked where "ranked = RankItems (qe_rsrt env) ?now merged"
  define chosen where "chosen = (if int (length ranked) > limit then take (nat limit) ranked else ranked)"
  have h: "executeHybridSearch env ?now db emb q limit = (Inr (ranked_items chosen), db')"
    using v p k by (simp add: executeHybridSearch_def Let_def merged_def [symmetric] ranked_def [symmetric] chosen_def)
  have "\<not> limit < 1" using assms(5) by simp
  then have run: "searchCmd env w repoRoot t (Some emb) [q] limit =
      ((([formatSearchResults (ranked_items chosen)], None), w1\<lparr>mw_db := db'\<rparr>), t)"
    using h assms(4) by (simp add: searchCmd_def runSearch_def executeSearch_def)
  have len: "int (length (ranked_items chosen)) \<le> limit" using assms(5) by (simp add: chosen_def)
  have "set (ranked_items chosen) \<subseteq> sr_Item ` set kw" if e: "res = Inl e" for e
  proof -
    have a: "set (map ri_Scored ranked) = set ?kw"
      by (auto simp: ranked_def merged_def e RankItems_def slice_sort.slice_set [OF assms(2)] image_image)
    have b: "set chosen \<subseteq> set ranked" by (auto simp: chosen_def dest: in_set_takeD)
    have "ri_Scored ` set chosen \<subseteq> set ?kw" using image_mono [OF b, of ri_Scored] unfolding a [symmetric] by simp
    then have "si_Item ` ri_Scored ` set chosen \<subseteq> si_Item ` set ?kw" by (rule image_mono)
    then show ?thesis by (simp add: image_image)
  qed
  with run len same v show ?thesis by (intro exI [of _ "ranked_items chosen"] exI [of _ db']) simp
qed

subsection \<open>A full-text engine, and the properties at a concrete search\<close>

definition every_row :: "raw_fields list \<Rightarrow> string \<Rightarrow> (raw_fields \<times> real) list option" where
  "every_row rs q = Some (map (\<lambda>r. (r, 0)) rs)"

definition sample_query :: query_env where
  "sample_query = \<lparr>qe_search = sample_env, qe_iter = id, qe_srt = insertion_sort, qe_rsrt = insertion_sort,
     qe_isrt = insertion_sort, qe_fts = every_row, qe_order = (\<lambda>_ xs. xs), qe_writable = True, qe_readFails = False,
     qe_cct = None, qe_show = (\<lambda>_. ''0''), qe_windows = False\<rparr>"

lemma text_part_keeps: "convertToItem (text_part r) = convertToItem r" "rf_invalidatedAt (text_part r) = rf_invalidatedAt r"
  by (simp_all add: text_part_def convertToItem_def applyOptionalFields_def applyTimestampFields_def Let_def)

lemma every_row_content: "content_only every_row (\<lambda>_ xs. xs)"
proof -
  define hit where "hit r = \<lparr>sr_Item = convertToItem r, sr_Score = normalizeBm25Rank (Some 0)\<rparr>" for r
  have hits: "executeFts every_row (\<lambda>_ xs. xs) db q n [] True =
      Some (sql_limit n (map hit (filter (\<lambda>r. rf_invalidatedAt r = None) (map text_part (db_lessons db)))))" for db q n
    by (simp add: executeFts_def every_row_def Let_def filter_map comp_def hit_def text_part_keeps sql_limit_def take_map)
  show ?thesis by (simp add: content_only_def SearchKeywordScored_def Let_def hits same_text_def)
qed

definition query_world :: maint_world where
  "query_world = (one_maint one_world)\<lparr>mw_mtime := None, mw_db := db0\<lparr>db_lessons := [item_row sample_item]\<rparr>\<rparr>"

lemma query_world_synced: "synced query_world = (Inr (mw_db query_world), query_world)"
  by (simp add: query_world_def synced_def one_maint_def SyncIfNeeded_def getJsonlMtime_def Let_def)

lemma sample_engine: "content_only (qe_fts sample_query) (qe_order sample_query)"
  by (simp add: sample_query_def every_row_content)

lemma sample_hits: "\<exists>kw. SearchKeywordScored (qe_fts sample_query) (qe_order sample_query) db q n [] = Some kw"
  by (simp add: sample_query_def SearchKeywordScored_def executeFts_def every_row_def Let_def)

lemma unit_embeds: "embedBatched unit_embedder ts = Some (map (\<lambda>_. [1]) ts)"
  by (rule embedBatched_pointwise) (simp add: unit_embedder_def)

lemma unit_resolves: "\<exists>vs db'. resolveItemEmbeddings env wr unit_embedder db items = (Inr vs, db')"
  by (simp add: resolveItemEmbeddings_def resolve_cached_def Let_def unit_embeds item_cache.fill_vecs_ok)

lemma sample_vectors: "\<exists>vs db'. query_vector sample_query db unit_embedder q n = (Inr vs, db')"
proof -
  obtain vs db' where "resolveItemEmbeddings sample_env True unit_embedder db (ReadAll (env_deliver sample_env) db) = (Inr vs, db')"
    using unit_resolves by blast
  then show ?thesis by (simp add: Vector_def sample_query_def unit_embedder_def Let_def)
qed

theorem search_checkPlan_agree_witness:
  "\<exists>ranked db'. searchCmd sample_query query_world [] (Dir []) (Some unit_embedder) [''x''] 5 =
      ((([formatSearchResults (ranked_items ranked)], None), query_world\<lparr>mw_db := db'\<rparr>), Dir []) \<and>
    checkPlanCmd sample_query query_world (Some unit_embedder) ''x'' None False 5 =
      (([formatCheckPlanHuman ranked], None), query_world\<lparr>mw_db := db'\<rparr>)"
proof -
  obtain kw where k: "SearchKeywordScored (qe_fts sample_query) (qe_order sample_query) (mw_db query_world) ''x''
      (5 * CandidateMultiplier) [] = Some kw" using sample_hits by blast
  obtain vs db' where v: "query_vector sample_query (mw_db query_world) unit_embedder ''x'' (5 * CandidateMultiplier) = (Inr vs, db')"
    using sample_vectors by blast
  show ?thesis
    using search_checkPlan_agree [OF sample_engine query_world_synced _ _ k v, of "[]" "Dir []" None] by auto
qed

theorem searchCmd_degrades_witness:
  "\<exists>items db'. searchCmd sample_query query_world [] (Dir []) (Some (\<lambda>_. None)) [''x''] 5 =
      ((([formatSearchResults items], None), query_world\<lparr>mw_db := db'\<rparr>), Dir []) \<and> int (length items) \<le> 5"
proof -
  obtain kw where k: "SearchKeywordScored (qe_fts sample_query) (qe_order sample_query) (mw_db query_world) ''x''
      (5 * CandidateMultiplier) [] = Some kw" using sample_hits by blast
  have s: "slice_sort (qe_rsrt sample_query)" using gosort.slice_sort_axioms by (simp add: sample_query_def)
  have e: "embedder_ok (\<lambda>_. None)" by (simp add: embedder_ok_def)
  show ?thesis using searchCmd_degrades [OF sample_engine s e query_world_synced _ k, of "[]" "Dir []"] by auto
qed

end
