(* ===== verification/CompoundCmd.thy ===== *)
theory CompoundCmd
  imports Query MaintenanceProps
begin

section \<open>The compound command (cli/commands_advanced.go)\<close>

text \<open>
  \<open>ca compound\<close> embeds the lessons, clusters them and merges one pattern for each cluster into the
  pattern file; without an embedder it takes the vectors from the index. The embedder here is the
  daemon's client itself: an error message, or a list of vectors in which nil (None) may occur. It is
  called once with all texts, not in batches.
\<close>

type_synonym raw_embedder = "string list \<Rightarrow> string + real list option list"

record compound_env =
  co_sha256 :: "string \<Rightarrow> string"
  co_iter :: "(string, nat) gomap \<Rightarrow> (string, nat) gomap"
  co_srt :: "(string \<times> nat) sorter"
  co_frombits :: "32 word \<Rightarrow> real"
  co_fault :: compact_fault              \<comment> \<open>writing the pattern file\<close>
  co_openFails :: bool

datatype compound_error = CoRead store_error | CoQuery query_error | CoWrite store_error | CoPanic

record compound_world =
  cw_maint :: maint_world
  cw_patterns :: fs                      \<comment> \<open>the pattern file\<close>

type_synonym compound_result = "(string list \<times> compound_error option) \<times> compound_world"

text \<open>The items that have a vector, with their vectors; items beyond the end of the vectors have none.\<close>

fun filterValidEmbeddings :: "item list \<Rightarrow> real list option list \<Rightarrow> item list \<times> real list list" where
  "filterValidEmbeddings (it # its) (v # vs) =
     (case filterValidEmbeddings its vs of (fi, fe) \<Rightarrow> (case v of None \<Rightarrow> (fi, fe) | Some x \<Rightarrow> (it # fi, x # fe)))"
| "filterValidEmbeddings its vs = ([], [])"

definition cluster_pattern :: "compound_env \<Rightarrow> datetime \<Rightarrow> item list \<Rightarrow> cct_pattern" where
  "cluster_pattern env now cluster =
     SynthesizePattern (co_sha256 env) (co_iter env) (co_srt env) now cluster (join ''-'' (map ID cluster))"

definition synthesized :: "nat \<Rightarrow> nat \<Rightarrow> string" where
  "synthesized p n = line (''Synthesized '' @ show_int (int p) @ '' pattern(s) from '' @ show_int (int n) @ '' lessons.'')"

definition synthesizeAndWrite :: "compound_env \<Rightarrow> compound_world \<Rightarrow> item list \<Rightarrow> real list list \<Rightarrow> compound_result" where
  "synthesizeAndWrite env w items embeddings =
     (case ClusterBySimilarity items embeddings DefaultThreshold of None \<Rightarrow> (([], Some CoPanic), w)
      | Some result \<Rightarrow>
          (let patterns = map (cluster_pattern env (cr_now (mw_base (cw_maint w)))) (Clusters result);
               (err, d) = (if patterns = [] then (None, cw_patterns w)
                 else WriteCctPatterns (co_fault env) (co_openFails env) (cw_patterns w) patterns);
               w' = w\<lparr>cw_patterns := d\<rparr>
           in case err of Some e \<Rightarrow> (([], Some (CoWrite e)), w')
              | None \<Rightarrow> (([synthesized (length patterns) (length items)], None), w')))"

text \<open>Lines in front of what a further step prints.\<close>

definition after :: "string list \<Rightarrow> compound_result \<Rightarrow> compound_result" where
  "after out r = (case r of ((out', e), w) \<Rightarrow> ((out @ out', e), w))"

definition cached_vector :: "(string, cached_embedding) gomap \<Rightarrow> item \<Rightarrow> real list option" where
  "cached_vector cache it =
     (case map_of cache (ID it) of None \<Rightarrow> None | Some e \<Rightarrow> if ce_Vector e = [] then None else Some (ce_Vector e))"

definition compoundFromCache :: "compound_env \<Rightarrow> compound_world \<Rightarrow> item list \<Rightarrow> compound_result" where
  "compoundFromCache env w items =
     (case synced (cw_maint w) of (Inl e, m) \<Rightarrow> (([], Some (CoQuery e)), w\<lparr>cw_maint := m\<rparr>)
      | (Inr db, m) \<Rightarrow>
          (let w1 = w\<lparr>cw_maint := m\<rparr>;
               embeddings = map (cached_vector (GetCachedEmbeddingsBulk (co_frombits env) db)) items;
               (filtered, vecs) = filterValidEmbeddings items embeddings;
               skipped = length items - length filtered
           in if filtered = []
              then (([line ''No cached embeddings found. Run search commands first to populate the cache.'',
                      line ''Synthesized 0 patterns from 0 lessons.''], None), w1)
              else after (if skipped > 0 then [line (''[warn] '' @ show_int (int skipped) @
                            '' lesson(s) skipped (no cached embeddings). Run the embedding daemon to include them.'')] else [])
                     (synthesizeAndWrite env w1 filtered vecs)))"

definition lesson_text :: "item \<Rightarrow> string" where
  "lesson_text it = Trigger it @ '' '' @ Insight it"

definition batch_warning :: "string \<Rightarrow> string" where
  "batch_warning msg = line (''[warn] Batch embedding failed: '' @ msg)"

definition compoundWithEmbedder :: "compound_env \<Rightarrow> compound_world \<Rightarrow> item list \<Rightarrow> raw_embedder \<Rightarrow> compound_result" where
  "compoundWithEmbedder env w items emb =
     (case emb (map lesson_text items) of
        Inl msg \<Rightarrow> after [batch_warning msg] (compoundFromCache env w items)
      | Inr vecs \<Rightarrow>
          (let (filtered, fe) = filterValidEmbeddings items vecs; skipped = length items - length filtered
           in after (if skipped > 0 then [line (''[warn] '' @ show_int (int skipped) @ '' lesson(s) skipped (embedding failed).'')] else [])
                (synthesizeAndWrite env w filtered fe)))"

definition runCompound :: "compound_env \<Rightarrow> compound_world \<Rightarrow> raw_embedder option \<Rightarrow> compound_result" where
  "runCompound env w embedder =
     (case ReadItems (mw_opened (cw_maint w)) of Inl e \<Rightarrow> (([], Some (CoRead e)), w)
      | Inr result \<Rightarrow>
          (let items = Items result in
           if items = [] then (([line ''Synthesized 0 patterns from 0 lessons.''], None), w)
           else case embedder of
               None \<Rightarrow> after [line ''[warn] Embedding daemon not available. Using keyword-based clustering is not supported.'',
                             line ''Start the daemon or run: ca download-model''] (compoundFromCache env w items)
             | Some emb \<Rightarrow> compoundWithEmbedder env w items emb))"

subsection \<open>What the command writes\<close>

lemma filterValid_lengths: "length (fst (filterValidEmbeddings its vs)) = length (snd (filterValidEmbeddings its vs))"
  by (induction its vs rule: filterValidEmbeddings.induct) (auto split: option.split prod.split)

lemma filterValid_subseq: "subseq (fst (filterValidEmbeddings its vs)) its"
  by (induction its vs rule: filterValidEmbeddings.induct) (auto split: option.split prod.split)

lemma filterValid_all: "length vs = length its \<Longrightarrow> filterValidEmbeddings its (map Some vs) = (its, vs)"
  by (induction its vs rule: list_induct2') auto

lemma filterValid_set:
  "length its \<le> length vs \<Longrightarrow> set (fst (filterValidEmbeddings its vs)) = {it. \<exists>k < length its. its ! k = it \<and> vs ! k \<noteq> None}"
proof (induction its vs rule: filterValidEmbeddings.induct)
  case (1 it its v vs)
  have "{x. \<exists>k < length (it # its). (it # its) ! k = x \<and> (v # vs) ! k \<noteq> None} =
      (if v \<noteq> None then {it} else {}) \<union> {x. \<exists>k < length its. its ! k = x \<and> vs ! k \<noteq> None}"
    by (auto simp: less_Suc_eq_0_disj)
  with 1 show ?case by (auto split: option.split prod.split)
qed auto

text \<open>The components of two or more lessons.\<close>

definition big_components :: "item list \<Rightarrow> real list list \<Rightarrow> item list set" where
  "big_components items vs = {c \<in> component_of items vs DefaultThreshold ` {..<length items}. length c \<noteq> 1}"

lemma component_not_empty: "i < length items \<Longrightarrow> component_of items vs thr i \<noteq> []"
  by (auto simp: component_of_def connected_def filter_empty_conv)

lemma clusters_are_components:
  assumes "length vs = length items" and "distinct items"
  obtains res where "ClusterBySimilarity items vs DefaultThreshold = Some res"
    and "set (Clusters res) = big_components items vs" and "distinct (Clusters res)"
proof (cases "items = []")
  case True
  then show ?thesis using that by (simp add: ClusterBySimilarity_def big_components_def)
next
  case False
  obtain g where g: "ClusterBySimilarity items vs DefaultThreshold = Some (split_groups g)"
    "set (map snd g) = component_of items vs DefaultThreshold ` {..<length items}" "mset (concat (map snd g)) = mset items"
    by (rule cluster_groups [OF assms(1) False])
  have "set (Clusters (split_groups g)) = {c \<in> set (map snd g). length c \<noteq> 1}" by (auto simp: split_groups_def)
  then have s: "set (Clusters (split_groups g)) = big_components items vs" unfolding g(2) big_components_def .
  have "distinct (concat (map snd g))" using mset_eq_imp_distinct_iff [OF g(3)] assms(2) by blast
  moreover have "[] \<notin> set (map snd g)"
  proof
    assume "[] \<in> set (map snd g)"
    then obtain i where "i < length items" "component_of items vs DefaultThreshold i = []" unfolding g(2) by (metis imageE lessThan_iff)
    then show False using component_not_empty by blast
  qed
  ultimately have "distinct (map snd g)" by (metis distinct_concat_iff removeAll_id)
  then have "distinct (Clusters (split_groups g))" by (simp add: split_groups_def)
  with s show ?thesis by (rule that [OF g(1)])
qed

lemma ReadItems_distinct: "ReadItems f = Inr r \<Longrightarrow> distinct (Items r)"
proof (cases f)
  case (Opened s)
  assume r: "ReadItems f = Inr r"
  with Opened have "scannable s" using ReadItems_too_long by fastforce
  from ReadItems_store [OF this] r Opened have "lists_store (Items r) (file_store s)" by auto
  then show ?thesis using sorted_items_distinct by (simp add: lists_store_def)
qed (auto simp: ReadItems_def)

text \<open>Writing replaces the file by the merge of what it held with the new patterns.\<close>

lemma WriteCctPatterns_replaces:
  assumes "ReadCctPatterns (open_file (fs_target d)) = Inr ex"
  shows "WriteCctPatterns CNone False d ps =
    (None, d\<lparr>fs_temp := None, fs_target := Some (concat (map cct_line (mergePatterns ex ps)))\<rparr>)"
  using assms write_patterns_ok [of CNone 0 "mergePatterns ex ps" "[]"]
  by (cases d) (simp add: WriteCctPatterns_def writePatternFile_def Let_def)

text \<open>The patterns of a run, and the pattern file after it.\<close>

definition patterns_after :: "fs \<Rightarrow> cct_pattern list \<Rightarrow> cct_pattern list \<Rightarrow> fs" where
  "patterns_after d ex ps =
     (if ps = [] then d else d\<lparr>fs_temp := None, fs_target := Some (concat (map cct_line (mergePatterns ex ps)))\<rparr>)"

lemma synthesizeAndWrite_runs:
  assumes "length vs = length items" and "distinct items" and "co_fault env = CNone" and "\<not> co_openFails env"
    and "ReadCctPatterns (open_file (fs_target (cw_patterns w))) = Inr ex"
  obtains clusters where "set clusters = big_components items vs" and "distinct clusters"
    and "synthesizeAndWrite env w items vs =
      (([synthesized (length clusters) (length items)], None),
       w\<lparr>cw_patterns := patterns_after (cw_patterns w) ex
           (map (cluster_pattern env (cr_now (mw_base (cw_maint w)))) clusters)\<rparr>)"
proof -
  obtain res where r: "ClusterBySimilarity items vs DefaultThreshold = Some res"
    "set (Clusters res) = big_components items vs" "distinct (Clusters res)"
    by (rule clusters_are_components [OF assms(1,2)])
  show ?thesis
  proof (rule that [OF r(2,3)])
    show "synthesizeAndWrite env w items vs =
      (([synthesized (length (Clusters res)) (length items)], None),
       w\<lparr>cw_patterns := patterns_after (cw_patterns w) ex
           (map (cluster_pattern env (cr_now (mw_base (cw_maint w)))) (Clusters res))\<rparr>)"
      using WriteCctPatterns_replaces [OF assms(5)] assms(3,4)
      by (simp add: synthesizeAndWrite_def r(1) Let_def patterns_after_def)
  qed
qed

text \<open>The identifier of the pattern of a component: the hash of the identifiers of its lessons.\<close>

definition component_id :: "compound_env \<Rightarrow> item list \<Rightarrow> string" where
  "component_id env c = GenerateCctID (co_sha256 env) (join ''-'' (map ID c))"

lemma cluster_pattern_facts:
  "cct_ID (cluster_pattern env now c) = component_id env c" "cct_SourceIDs (cluster_pattern env now c) = Some (map ID c)"
  "cct_Frequency (cluster_pattern env now c) = int (length c)" "cct_Description (cluster_pattern env now c) = join ''; '' (map Insight c)"
  "cct_Testable (cluster_pattern env now c) = isClusterTestable c" "cct_Created (cluster_pattern env now c) = format_rfc3339 now"
  by (simp_all add: cluster_pattern_def SynthesizePattern_def Let_def component_id_def buildInsightSummary_def)

text \<open>Merging patterns with different identifiers: each is there, in the places of the old ones with its identifier or,
  without one, once at the end; and the others are what they were.\<close>

lemma find_of_distinct:
  "distinct (map cct_ID ps) \<Longrightarrow> p \<in> set ps \<Longrightarrow> find (\<lambda>q. cct_ID q = cct_ID p) (rev ps) = Some p"
  using find_unique [of cct_ID ps p] by simp

lemma merge_new_distinct: "distinct (map cct_ID ps) \<Longrightarrow> merge_new seen ps = filter (\<lambda>q. cct_ID q \<notin> set seen) ps"
proof (induction seen ps rule: merge_new.induct)
  case (2 seen p ps)
  have "filter (\<lambda>q. cct_ID q \<notin> set (cct_ID p # seen)) ps = filter (\<lambda>q. cct_ID q \<notin> set seen) ps"
    using "2.prems" by (intro filter_cong) (auto simp: image_iff)
  with 2 show ?case by simp
qed simp

lemma mergePatterns_distinct:
  assumes "distinct (map cct_ID ps)"
  shows "p \<in> set ps \<Longrightarrow> filter (\<lambda>q. cct_ID q = cct_ID p) (mergePatterns ex ps) =
      replicate (max 1 (length (filter (\<lambda>q. cct_ID q = cct_ID p) ex))) p"
    and "filter (\<lambda>q. cct_ID q \<notin> cct_ID ` set ps) (mergePatterns ex ps) = filter (\<lambda>q. cct_ID q \<notin> cct_ID ` set ps) ex"
proof -
  let ?old = "\<lambda>q. case find (\<lambda>x. cct_ID x = cct_ID q) (rev ps) of Some x \<Rightarrow> x | None \<Rightarrow> q"
  have m: "mergePatterns ex ps = map ?old ex @ filter (\<lambda>q. cct_ID q \<notin> set (map cct_ID ex)) ps"
    by (auto simp: mergePatterns_def merge_existing_def by_id_fold merge_new_distinct [OF assms] split: option.split)
  have old_id: "cct_ID (?old q) = cct_ID q" for q by (auto simp: find_Some_iff split: option.split)
  show "filter (\<lambda>q. cct_ID q = cct_ID p) (mergePatterns ex ps) =
      replicate (max 1 (length (filter (\<lambda>q. cct_ID q = cct_ID p) ex))) p" if p: "p \<in> set ps"
  proof -
    have "?old q = p" if "cct_ID q = cct_ID p" for q using find_of_distinct [OF assms p] that by simp
    then have "filter (\<lambda>q. cct_ID q = cct_ID p) (map ?old ex) = replicate (length (filter (\<lambda>q. cct_ID q = cct_ID p) ex)) p"
      by (induction ex) (simp_all add: old_id)
    moreover have one: "filter (\<lambda>q. cct_ID q = cct_ID p) ps = [p]"
      using assms p by (induction ps) (auto simp: filter_empty_conv image_iff)
    moreover have "filter (\<lambda>q. cct_ID q = cct_ID p) (filter (\<lambda>q. cct_ID q \<notin> set (map cct_ID ex)) ps) =
        (if cct_ID p \<in> set (map cct_ID ex) then [] else filter (\<lambda>q. cct_ID q = cct_ID p) ps)"
      unfolding filter_filter
      by (cases "cct_ID p \<in> set (map cct_ID ex)") (auto simp: filter_empty_conv image_iff intro!: filter_cong)
    moreover have "filter (\<lambda>q. cct_ID q = cct_ID p) ex = [] \<longleftrightarrow> cct_ID p \<notin> set (map cct_ID ex)" by (auto simp: filter_empty_conv image_iff) 
    ultimately show ?thesis unfolding m filter_append
      by (cases "filter (\<lambda>q. cct_ID q = cct_ID p) ex") (simp_all split: if_splits)
  qed
  have "?old q = q" if "cct_ID q \<notin> cct_ID ` set ps" for q
    using that by (auto simp: find_Some_iff in_set_conv_nth image_iff split: option.split) (metis nth_mem set_rev length_rev)
  then have "filter (\<lambda>q. cct_ID q \<notin> cct_ID ` set ps) (map ?old ex) = filter (\<lambda>q. cct_ID q \<notin> cct_ID ` set ps) ex"
    by (induction ex) (simp_all add: old_id)
  moreover have "filter (\<lambda>q. cct_ID q \<notin> cct_ID ` set ps) (filter (\<lambda>q. cct_ID q \<notin> set (map cct_ID ex)) ps) = []"
    by (simp add: filter_empty_conv)
  ultimately show "filter (\<lambda>q. cct_ID q \<notin> cct_ID ` set ps) (mergePatterns ex ps) = filter (\<lambda>q. cct_ID q \<notin> cct_ID ` set ps) ex"
    unfolding m filter_append by simp
qed

text \<open>C23: \<open>ca compound\<close> with a daemon that embeds every lesson writes one pattern for each component of two or more lessons
  of the similarity graph. When the identifiers of the components' patterns, the truncated hashes of their lessons'
  identifiers, do not clash, the command reports the number of components, and in the file each component has its
  pattern, in place of every stored one with its identifier or once at the end, with the identifiers of its lessons as
  sources, their number as frequency and their insights as description; the other patterns stay as they were. Without
  a component nothing is written, and nothing but the pattern file changes.\<close>

theorem runCompound_components:
  assumes "ReadItems (mw_opened (cw_maint w)) = Inr r" and "Items r \<noteq> []"
    and "emb (map lesson_text (Items r)) = Inr (map Some vs)" and "length vs = length (Items r)"
    and "co_fault env = CNone" and "\<not> co_openFails env"
    and "ReadCctPatterns (open_file (fs_target (cw_patterns w))) = Inr ex"
    and "inj_on (component_id env) (big_components (Items r) vs)"
  shows "\<exists>d merged. runCompound env w (Some emb) =
      (([synthesized (card (big_components (Items r) vs)) (length (Items r))], None), w\<lparr>cw_patterns := d\<rparr>) \<and>
    (if big_components (Items r) vs = {} then d = cw_patterns w \<and> merged = ex
     else fs_temp d = None \<and> fs_target d = Some (concat (map cct_line merged))) \<and>
    (\<forall>c \<in> big_components (Items r) vs. \<exists>p.
       filter (\<lambda>q. cct_ID q = component_id env c) merged =
         replicate (max 1 (length (filter (\<lambda>q. cct_ID q = component_id env c) ex))) p \<and>
       cct_ID p = component_id env c \<and> cct_SourceIDs p = Some (map ID c) \<and> cct_Frequency p = int (length c) \<and>
       cct_Description p = join ''; '' (map Insight c) \<and> cct_Testable p = isClusterTestable c \<and>
       cct_Created p = format_rfc3339 (cr_now (mw_base (cw_maint w)))) \<and>
    filter (\<lambda>q. cct_ID q \<notin> component_id env ` big_components (Items r) vs) merged =
      filter (\<lambda>q. cct_ID q \<notin> component_id env ` big_components (Items r) vs) ex"
proof -
  let ?pat = "cluster_pattern env (cr_now (mw_base (cw_maint w)))" and ?big = "big_components (Items r) vs"
  obtain clusters where c: "set clusters = ?big" "distinct clusters"
    and s: "synthesizeAndWrite env w (Items r) vs =
      (([synthesized (length clusters) (length (Items r))], None),
       w\<lparr>cw_patterns := patterns_after (cw_patterns w) ex (map ?pat clusters)\<rparr>)"
    by (rule synthesizeAndWrite_runs [OF assms(4) ReadItems_distinct [OF assms(1)] assms(5-7)])
  let ?ps = "map ?pat clusters"
  have run: "runCompound env w (Some emb) = synthesizeAndWrite env w (Items r) vs"
    using assms(1-4) by (simp add: runCompound_def compoundWithEmbedder_def Let_def filterValid_all after_def split: prod.split)
  have card: "length clusters = card ?big" using distinct_card [OF c(2)] c(1) by simp
  have ids: "map cct_ID ?ps = map (component_id env) clusters" by (simp add: cluster_pattern_facts comp_def)
  have dist: "distinct (map cct_ID ?ps)" unfolding ids using c assms(8) by (simp add: distinct_map)
  have idset: "cct_ID ` set ?ps = component_id env ` ?big" using c(1) by (auto simp: cluster_pattern_facts image_image)
  have one: "filter (\<lambda>q. cct_ID q = component_id env x) (mergePatterns ex ?ps) =
      replicate (max 1 (length (filter (\<lambda>q. cct_ID q = component_id env x) ex))) (?pat x)" if "x \<in> ?big" for x
    using mergePatterns_distinct(1) [OF dist, of "?pat x" ex] that c(1) by (simp add: cluster_pattern_facts)
  show ?thesis
  proof (intro exI conjI)
    show "runCompound env w (Some emb) = (([synthesized (card ?big) (length (Items r))], None),
        w\<lparr>cw_patterns := patterns_after (cw_patterns w) ex ?ps\<rparr>)" unfolding run s card ..
    show "if ?big = {} then patterns_after (cw_patterns w) ex ?ps = cw_patterns w \<and> mergePatterns ex ?ps = ex
        else fs_temp (patterns_after (cw_patterns w) ex ?ps) = None \<and>
          fs_target (patterns_after (cw_patterns w) ex ?ps) = Some (concat (map cct_line (mergePatterns ex ?ps)))"
      using c(1) by (auto simp: patterns_after_def mergePatterns_def merge_existing_def)
    show "\<forall>x \<in> ?big. \<exists>p. filter (\<lambda>q. cct_ID q = component_id env x) (mergePatterns ex ?ps) =
         replicate (max 1 (length (filter (\<lambda>q. cct_ID q = component_id env x) ex))) p \<and>
       cct_ID p = component_id env x \<and> cct_SourceIDs p = Some (map ID x) \<and> cct_Frequency p = int (length x) \<and>
       cct_Description p = join ''; '' (map Insight x) \<and> cct_Testable p = isClusterTestable x \<and>
       cct_Created p = format_rfc3339 (cr_now (mw_base (cw_maint w)))"
      by (intro ballI exI conjI) (erule one | rule cluster_pattern_facts)+
    show "filter (\<lambda>q. cct_ID q \<notin> component_id env ` ?big) (mergePatterns ex ?ps) =
        filter (\<lambda>q. cct_ID q \<notin> component_id env ` ?big) ex"
      using mergePatterns_distinct(2) [OF dist, of ex] unfolding idset .
  qed
qed

text \<open>\<open>ca compound\<close> asks for all texts at once, while the daemon refuses a batch of more than its limit (64 by
  default, which package search keeps to): with more lessons than the limit a running daemon is of no use, the
  command prints a warning and then does what it does without one.\<close>

theorem runCompound_over_limit:
  assumes "ReadItems (mw_opened (cw_maint w)) = Inr r" and "limit < length (Items r)"
    and "\<And>ts. limit < length ts \<Longrightarrow> emb ts = Inl refused"
  shows "runCompound env w (Some emb) = after [batch_warning refused] (compoundFromCache env w (Items r))"
  using assms(2) assms(3) [of "map lesson_text (Items r)"]
  by (auto simp: runCompound_def assms(1) compoundWithEmbedder_def Let_def)

subsection \<open>The properties at concrete repositories\<close>

definition two_items :: "item list" where
  "two_items = [one_item, one_item\<lparr>ID := ''L2''\<rparr>]"

definition sample_compound :: compound_env where
  "sample_compound = \<lparr>co_sha256 = id, co_iter = id, co_srt = insertion_sort, co_frombits = (\<lambda>_. 1), co_fault = CNone,
     co_openFails = False\<rparr>"

definition two_lessons :: compound_world where
  "two_lessons = \<lparr>cw_maint = one_maint (one_world\<lparr>cr_lessons := Some (items_text two_items)\<rparr>),
     cw_patterns = \<lparr>fs_target = None, fs_temp = None\<rparr>\<rparr>"

lemma two_items_ok:
  "\<forall>it \<in> set two_items. item_ok it \<and> ValidateItem it = None \<and> Deleted it \<noteq> Some True \<and> short_item it"
proof -
  have "list_all (\<lambda>it. item_ok it \<and> ValidateItem it = None \<and> Deleted it \<noteq> Some True \<and> length (item_line it) < 900) two_items"
    by code_simp
  then show ?thesis by (auto simp: list_all_iff intro: short_itemI)
qed

lemma two_lessons_read:
  obtains r where "ReadItems (mw_opened (cw_maint two_lessons)) = Inr r" and "set (Items r) = set two_items" and "length (Items r) = 2"
proof -
  have d: "distinct (map ID two_items)" by (simp add: two_items_def)
  note store = items_text_store [OF two_items_ok d]
  obtain r where r: "ReadItems (Opened (items_text two_items)) = Inr r" and l: "lists_store (Items r) (file_store (items_text two_items))"
    by (rule ReadItems_store [OF store(1)])
  from l have s: "set (Items r) = set two_items" using store(3) by (auto simp: lists_store_def)
  have "distinct two_items" using d by (simp add: distinct_map)
  from distinct_card [OF this] have "card (set two_items) = 2" by (simp add: two_items_def)
  with s have "length (Items r) = 2" using distinct_card [OF ReadItems_distinct [OF r]] by simp
  with r s show ?thesis
    by (intro that [of r]) (simp_all add: two_lessons_def mw_opened_def one_maint_def one_world_def open_file_def)
qed

text \<open>Two lessons with the same vector are one component.\<close>

lemma same_vectors_component:
  assumes "length items = 2"
  shows "big_components items (replicate 2 [1]) = {items}"
proof -
  have sim: "Compound.similarity (replicate 2 [1]) 0 1 = 1"
    by (simp add: Compound.similarity_def CosineSimilarity_def cosine_sums_def numeral_2_eq_2)
  have "(0, 1) \<in> linked (replicate 2 [1]) DefaultThreshold 2"
    using sim by (simp add: linked_def DefaultThreshold_def)
  then have "(i, k) \<in> connected (replicate 2 [1]) DefaultThreshold 2" if "i < 2" "k < 2" for i k
    using that unfolding connected_def by (auto simp: less_2_cases_iff)
  then have c: "component_of items (replicate 2 [1]) DefaultThreshold i = map ((!) items) [0..<2]" if "i < 2" for i
    using that assms unfolding component_of_def by (intro arg_cong [where f = "map _"]) (auto intro: filter_True)
  have "map ((!) items) [0..<2] = items" using assms map_nth [of items] by simp
  with c have "component_of items (replicate 2 [1]) DefaultThreshold ` {..<length items} = {items}"
    using assms by (simp add: lessThan_Suc numeral_2_eq_2)
  with assms show ?thesis by (auto simp: big_components_def)
qed

theorem runCompound_components_witness:
  "\<exists>(its :: item list) d p. set its = set two_items \<and> runCompound sample_compound two_lessons (Some (\<lambda>ts. Inr (map (\<lambda>_. Some [1]) ts))) =
      (([synthesized 1 2], None), two_lessons\<lparr>cw_patterns := d\<rparr>) \<and>
    fs_target d = Some (cct_line p) \<and> cct_SourceIDs p = Some (map ID its) \<and> cct_Frequency p = 2"
proof -
  obtain r where r: "ReadItems (mw_opened (cw_maint two_lessons)) = Inr r" "set (Items r) = set two_items" "length (Items r) = 2"
    by (rule two_lessons_read)
  let ?emb = "\<lambda>ts. Inr (map (\<lambda>_. Some [1]) ts) :: string + real list option list"
  have e: "?emb (map lesson_text (Items r)) = Inr (map Some (replicate 2 [1]))" using r(3) by (simp add: map_replicate_const)
  have f: "co_fault sample_compound = CNone" "\<not> co_openFails sample_compound" by (simp_all add: sample_compound_def)
  have n: "Items r \<noteq> []" using r(3) by auto
  have ex: "ReadCctPatterns (open_file (fs_target (cw_patterns two_lessons))) = Inr []"
    by (simp add: two_lessons_def open_file_def ReadCctPatterns_def)
  have l: "length (replicate 2 [1 :: real]) = length (Items r)" using r(3) by simp
  note big = same_vectors_component [OF r(3)]
  have inj: "inj_on (component_id sample_compound) (big_components (Items r) (replicate 2 [1]))" unfolding big by simp
  from runCompound_components [where emb = ?emb, OF r(1) n e l f ex inj, unfolded big r(3)]
  show ?thesis
  proof (elim exE conjE)
    fix d merged
    assume run: "runCompound sample_compound two_lessons (Some ?emb) = (([synthesized (card {Items r}) 2], None), two_lessons\<lparr>cw_patterns := d\<rparr>)"
    and d: "if {Items r} = {} then d = cw_patterns two_lessons \<and> merged = []
      else fs_temp d = None \<and> fs_target d = Some (concat (map cct_line merged))"
    and ps: "\<forall>c \<in> {Items r}. \<exists>p. filter (\<lambda>q. cct_ID q = component_id sample_compound c) merged =
         replicate (max 1 (length (filter (\<lambda>q. cct_ID q = component_id sample_compound c) []))) p \<and>
       cct_ID p = component_id sample_compound c \<and> cct_SourceIDs p = Some (map ID c) \<and> cct_Frequency p = int (length c) \<and>
       cct_Description p = join ''; '' (map Insight c) \<and> cct_Testable p = isClusterTestable c \<and>
       cct_Created p = format_rfc3339 (cr_now (mw_base (cw_maint two_lessons)))"
    and o: "filter (\<lambda>q. cct_ID q \<notin> component_id sample_compound ` {Items r}) merged =
      filter (\<lambda>q. cct_ID q \<notin> component_id sample_compound ` {Items r}) []"
    from bspec [OF ps singletonI] obtain p where m: "filter (\<lambda>q. cct_ID q = component_id sample_compound (Items r)) merged = [p]"
      and p: "cct_SourceIDs p = Some (map ID (Items r))" "cct_Frequency p = 2" using r(3) by auto
    from o have "filter (\<lambda>q. cct_ID q = component_id sample_compound (Items r)) merged = merged"
      by (intro filter_True) (simp add: filter_empty_conv)
    then have one: "merged = [p]" using m by simp
    show ?thesis
    proof (intro exI conjI)
      show "runCompound sample_compound two_lessons (Some ?emb) = (([synthesized 1 2], None), two_lessons\<lparr>cw_patterns := d\<rparr>)"
        using run by simp
      show "fs_target d = Some (cct_line p)" using d one by simp
    qed (rule r(2) p)+
  qed
qed

theorem runCompound_over_limit_witness:
  "\<exists>its. set its = set two_items \<and>
    runCompound sample_compound two_lessons (Some (\<lambda>ts. if 1 < length ts then Inl ''batch too large'' else Inr [])) =
      after [batch_warning ''batch too large''] (compoundFromCache sample_compound two_lessons its)"
proof -
  obtain r where r: "ReadItems (mw_opened (cw_maint two_lessons)) = Inr r" "set (Items r) = set two_items" "length (Items r) = 2"
    by (rule two_lessons_read)
  have more: "1 < length (Items r)" using r(3) by simp
  have e: "(if 1 < length ts then Inl ''batch too large'' else Inr []) = Inl ''batch too large''" if "1 < length ts" for ts :: "string list"
    using that by simp
  have run: "runCompound sample_compound two_lessons (Some (\<lambda>ts. if 1 < length ts then Inl ''batch too large'' else Inr [])) =
      after [batch_warning ''batch too large''] (compoundFromCache sample_compound two_lessons (Items r))"
    by (rule runCompound_over_limit [OF r(1) more e])
  show ?thesis by (rule exI [of _ "Items r"], rule conjI [OF r(2) run])
qed

end
