(* ===== verification/EmbedClient.thy ===== *)
theory EmbedClient
  imports CompoundCmd FileTree
begin

section \<open>The client of the embedding daemon (embed/protocol.go, client.go, retry.go)\<close>

text \<open>
  The client writes one line of JSON for each request and reads one line back. The daemon is a
  script: how it reacts to each request in turn. A line that it sends stays in the connection
  until it is read, also when the client has stopped waiting for it; reading takes the oldest line.
  Closing a connection drops what was not read. Numbers are parsed by \<open>num\<close>, strconv.ParseFloat.
\<close>

subsection \<open>The protocol\<close>

record request =
  rq_ID :: string
  Method :: string
  Texts :: "string list"

record response =
  rp_ID :: string
  Vectors :: "real list option list option"
  Status :: string
  Model :: string
  rp_Error :: string

definition IsError :: "response \<Rightarrow> bool" where
  "IsError r \<longleftrightarrow> rp_Error r \<noteq> []"

definition enc_request :: "request \<Rightarrow> json" where
  "enc_request r = JObj ([(''id'', JStr (rq_ID r)), (''method'', JStr (Method r))] @
     (if Texts r = [] then [] else [(''texts'', JArr (map JStr (Texts r)))]))"

definition EncodeLine :: "request \<Rightarrow> string" where
  "EncodeLine r = marshal (enc_request r) @ [CHR 0x0A]"

text \<open>Decoding into a slice keeps, for a null element, what the slice held there before.\<close>

fun dec_list :: "('a \<Rightarrow> json \<Rightarrow> 'a option) \<Rightarrow> 'a \<Rightarrow> 'a list \<Rightarrow> json list \<Rightarrow> 'a list option" where
  "dec_list f z olds [] = Some []"
| "dec_list f z olds (v # vs) =
     (case f (case olds of [] \<Rightarrow> z | x # _ \<Rightarrow> x) v of None \<Rightarrow> None
      | Some x \<Rightarrow> map_option ((#) x) (dec_list f z (tl olds) vs))"

definition dec_slice :: "('a \<Rightarrow> json \<Rightarrow> 'a option) \<Rightarrow> 'a \<Rightarrow> 'a list option \<Rightarrow> json \<Rightarrow> 'a list option option" where
  "dec_slice f z old v =
     (case v of JNull \<Rightarrow> Some None
      | JArr vs \<Rightarrow> map_option Some (dec_list f z (case old of None \<Rightarrow> [] | Some xs \<Rightarrow> xs) vs)
      | _ \<Rightarrow> None)"

definition dec_float :: "(string \<Rightarrow> real option) \<Rightarrow> real \<Rightarrow> json \<Rightarrow> real option" where
  "dec_float num old v = (case v of JNull \<Rightarrow> Some old | JNum l \<Rightarrow> num l | _ \<Rightarrow> None)"

definition response0 :: response where
  "response0 = \<lparr>rp_ID = [], Vectors = None, Status = [], Model = [], rp_Error = []\<rparr>"

definition response_keys :: "string list" where
  "response_keys = [''id'', ''vectors'', ''status'', ''model'', ''error'']"

definition response_field :: "(string \<Rightarrow> real option) \<Rightarrow> response \<Rightarrow> string \<Rightarrow> json \<Rightarrow> response option" where
  "response_field num r k v =
     (case canon_key response_keys k of None \<Rightarrow> Some r
      | Some n \<Rightarrow>
        if n = ''id'' then map_option (\<lambda>s. r\<lparr>rp_ID := s\<rparr>) (dec_str (rp_ID r) v)
        else if n = ''vectors'' then
          map_option (\<lambda>x. r\<lparr>Vectors := x\<rparr>) (dec_slice (dec_slice (dec_float num) 0) None (Vectors r) v)
        else if n = ''status'' then map_option (\<lambda>s. r\<lparr>Status := s\<rparr>) (dec_str (Status r) v)
        else if n = ''model'' then map_option (\<lambda>s. r\<lparr>Model := s\<rparr>) (dec_str (Model r) v)
        else map_option (\<lambda>s. r\<lparr>rp_Error := s\<rparr>) (dec_str (rp_Error r) v))"

definition DecodeLine :: "(string \<Rightarrow> real option) \<Rightarrow> string \<Rightarrow> response option" where
  "DecodeLine num l = (case json_parse l of None \<Rightarrow> None | Some v \<Rightarrow> dec_obj (response_field num) response0 v)"

subsection \<open>The connection\<close>

datatype net_error = NetOp | Eof

datatype reaction =
    Answers string           \<comment> \<open>sends the line in time\<close>
  | AnswersLate string       \<comment> \<open>sends it after the deadline of the reader\<close>
  | Silent
  | Breaks net_error         \<comment> \<open>the request cannot be written\<close>
  | HangsUp

record conn =
  cn_pending :: "string list"    \<comment> \<open>sent by the daemon, not read yet\<close>
  cn_script :: "reaction list"
  cn_closed :: bool

record client =
  cl_conn :: conn
  cl_reqID :: int
  cl_sent :: "string list"       \<comment> \<open>the lines that were written\<close>

datatype client_error = CeConnect | CeWrite net_error | CeRead net_error | CeDecode

definition client_of :: "conn \<Rightarrow> client" where
  "client_of k = \<lparr>cl_conn = k, cl_reqID = 0, cl_sent = []\<rparr>"

definition NewClient :: "conn option \<Rightarrow> client_error + client" where
  "NewClient dialed = (case dialed of None \<Rightarrow> Inl CeConnect | Some k \<Rightarrow> Inr (client_of k))"

definition close_client :: "client \<Rightarrow> client" where
  "close_client c = c\<lparr>cl_conn := (cl_conn c)\<lparr>cn_closed := True, cn_pending := []\<rparr>\<rparr>"

definition set_pending :: "string list \<Rightarrow> client \<Rightarrow> client" where
  "set_pending p c = c\<lparr>cl_conn := (cl_conn c)\<lparr>cn_pending := p\<rparr>\<rparr>"

text \<open>The oldest line that has arrived, or the error \<open>e\<close> when none does; \<open>late\<close> arrives afterwards.\<close>

definition read_line_of ::
    "(string \<Rightarrow> real option) \<Rightarrow> string list \<Rightarrow> net_error \<Rightarrow> string list \<Rightarrow> client \<Rightarrow> (client_error + response) \<times> client" where
  "read_line_of num arrived e late c =
     (case arrived of
        [] \<Rightarrow> (Inl (CeRead e), set_pending late c)
      | l # ls \<Rightarrow> ((case DecodeLine num l of None \<Rightarrow> Inl CeDecode | Some r \<Rightarrow> Inr r), set_pending (ls @ late) c))"

definition sendLocked :: "(string \<Rightarrow> real option) \<Rightarrow> request \<Rightarrow> client \<Rightarrow> (client_error + response) \<times> client" where
  "sendLocked num req c =
     (let k = cl_conn c; p = cn_pending k;
          (now, later) = (case cn_script k of [] \<Rightarrow> (Silent, []) | r # rs \<Rightarrow> (r, rs));
          c1 = c\<lparr>cl_conn := k\<lparr>cn_script := later\<rparr>\<rparr>;
          c2 = c1\<lparr>cl_sent := cl_sent c @ [EncodeLine req]\<rparr>
      in if cn_closed k then (Inl (CeWrite NetOp), c)
         else case now of
             Breaks e \<Rightarrow> (Inl (CeWrite e), c1)
           | Answers l \<Rightarrow> read_line_of num (p @ [l]) NetOp [] c2
           | AnswersLate l \<Rightarrow> read_line_of num p NetOp [l] c2
           | Silent \<Rightarrow> read_line_of num p NetOp [] c2
           | HangsUp \<Rightarrow> read_line_of num p Eof [] c2)"

definition numbered :: "string \<Rightarrow> string list \<Rightarrow> client \<Rightarrow> request" where
  "numbered m texts c = \<lparr>rq_ID = m @ ''-'' @ show_int (cl_reqID c + 1), Method = m, Texts = texts\<rparr>"

definition call :: "(string \<Rightarrow> real option) \<Rightarrow> string \<Rightarrow> string list \<Rightarrow> client \<Rightarrow> (client_error + response) \<times> client" where
  "call num m texts c = sendLocked num (numbered m texts c) (c\<lparr>cl_reqID := cl_reqID c + 1\<rparr>)"

definition Health where "Health num c = call num ''health'' [] c"
definition EmbedTexts where "EmbedTexts num texts c = call num ''embed'' texts c"
definition Shutdown where "Shutdown num c = call num ''shutdown'' [] c"

subsection \<open>Retrying\<close>

definition isConnectionError :: "client_error \<Rightarrow> bool" where
  "isConnectionError e = (case e of CeDecode \<Rightarrow> False | _ \<Rightarrow> True)"

record retry_client =
  rc_client :: client
  rc_connect :: "(client_error + client) list"     \<comment> \<open>what connecting gives, in turn\<close>

definition reconnect :: "retry_client \<Rightarrow> client_error option \<times> retry_client" where
  "reconnect rc =
     (case rc_connect rc of
        [] \<Rightarrow> (Some CeConnect, rc\<lparr>rc_client := close_client (rc_client rc)\<rparr>)
      | Inl e # cs \<Rightarrow> (Some e, rc\<lparr>rc_client := close_client (rc_client rc), rc_connect := cs\<rparr>)
      | Inr c # cs \<Rightarrow> (None, rc\<lparr>rc_client := c, rc_connect := cs\<rparr>))"

definition retrying :: "(client \<Rightarrow> (client_error + response) \<times> client) \<Rightarrow> retry_client \<Rightarrow> (client_error + response) \<times> retry_client" where
  "retrying f rc =
     (case f (rc_client rc) of
        (Inr r, c) \<Rightarrow> (Inr r, rc\<lparr>rc_client := c\<rparr>)
      | (Inl e, c) \<Rightarrow>
          if \<not> isConnectionError e then (Inl e, rc\<lparr>rc_client := c\<rparr>)
          else case reconnect (rc\<lparr>rc_client := c\<rparr>) of
              (Some e', rc') \<Rightarrow> (Inl e', rc')
            | (None, rc') \<Rightarrow> (case f (rc_client rc') of (r, c') \<Rightarrow> (r, rc'\<lparr>rc_client := c'\<rparr>)))"

definition RetryHealth where "RetryHealth num rc = retrying (Health num) rc"
definition RetryEmbed where "RetryEmbed num texts rc = retrying (EmbedTexts num texts) rc"

definition RetryShutdown where
  "RetryShutdown num rc = (case Shutdown num (rc_client rc) of (r, c) \<Rightarrow> (r, rc\<lparr>rc_client := c\<rparr>))"

subsection \<open>The embedder that the commands use (cli/commands.go)\<close>

text \<open>\<open>message\<close> is the text of an error.\<close>

definition embedderAdapter_Embed ::
    "(string \<Rightarrow> real option) \<Rightarrow> (client_error \<Rightarrow> string) \<Rightarrow> client \<Rightarrow> string list \<Rightarrow> (string + real list option list option) \<times> client" where
  "embedderAdapter_Embed num message c texts =
     (case EmbedTexts num texts c of
        (Inl e, c') \<Rightarrow> (Inl (message e), c')
      | (Inr r, c') \<Rightarrow> if IsError r then (Inl (''daemon error: '' @ rp_Error r), c') else (Inr (Vectors r), c'))"

subsection \<open>Which answer a call gets\<close>

text \<open>Calls one after the other, each with its method and texts.\<close>

fun call_all :: "(string \<Rightarrow> real option) \<Rightarrow> (string \<times> string list) list \<Rightarrow> client \<Rightarrow> (client_error + response) list \<times> client" where
  "call_all num [] c = ([], c)"
| "call_all num ((m, ts) # reqs) c =
     (case call num m ts c of (r, c') \<Rightarrow> (case call_all num reqs c' of (rs, c'') \<Rightarrow> (r # rs, c'')))"

definition answer :: "(string \<Rightarrow> real option) \<Rightarrow> string \<Rightarrow> client_error + response" where
  "answer num l = (case DecodeLine num l of None \<Rightarrow> Inl CeDecode | Some r \<Rightarrow> Inr r)"

lemma call_answered:
  assumes "\<not> cn_closed (cl_conn c)" and "cn_script (cl_conn c) = Answers l # rest" and "cn_pending (cl_conn c) @ [l] = p # ps"
  shows "\<exists>c'. call num m ts c = (answer num p, c') \<and> \<not> cn_closed (cl_conn c') \<and> cn_script (cl_conn c') = rest \<and>
    cn_pending (cl_conn c') = ps"
  using assms by (simp add: call_def sendLocked_def Let_def read_line_of_def answer_def set_pending_def)

lemma call_all_fifo:
  assumes "length reqs = length ls" and "\<not> cn_closed (cl_conn c)" and "cn_script (cl_conn c) = map Answers ls @ rest"
  shows "\<exists>c'. call_all num reqs c = (map (answer num) (take (length ls) (cn_pending (cl_conn c) @ ls)), c') \<and>
    \<not> cn_closed (cl_conn c') \<and> cn_script (cl_conn c') = rest \<and>
    cn_pending (cl_conn c') = drop (length ls) (cn_pending (cl_conn c) @ ls)"
  using assms
proof (induction reqs ls arbitrary: c rule: list_induct2)
  case Nil
  then show ?case by simp
next
  case (Cons q reqs l ls)
  obtain m ts where q: "q = (m, ts)" by (cases q)
  obtain p ps where p: "cn_pending (cl_conn c) @ [l] = p # ps" by (cases "cn_pending (cl_conn c)") auto
  from Cons.prems(2) have sc: "cn_script (cl_conn c) = Answers l # (map Answers ls @ rest)" by simp
  from call_answered [OF Cons.prems(1) sc p, of num m ts] obtain c1 where
    c1: "call num m ts c = (answer num p, c1)" "\<not> cn_closed (cl_conn c1)" "cn_script (cl_conn c1) = map Answers ls @ rest"
      "cn_pending (cl_conn c1) = ps" by blast
  from Cons.IH [OF c1(2,3)] obtain c2 where
    c2: "call_all num reqs c1 = (map (answer num) (take (length ls) (ps @ ls)), c2)" "\<not> cn_closed (cl_conn c2)"
      "cn_script (cl_conn c2) = rest" "cn_pending (cl_conn c2) = drop (length ls) (ps @ ls)" unfolding c1(4) by blast
  have e: "cn_pending (cl_conn c) @ l # ls = p # ps @ ls" using p by (metis append_Cons append_assoc append_self_conv2)
  show ?case using c1(1) c2 unfolding e by (simp add: q del: take_append drop_append)
qed

text \<open>C21: A client that has read everything gets to each call the answer to that call, as long as the daemon answers
  in time; but one answer that comes after the deadline stays in the connection, and from then on every call on the
  same client gets the answer to the call before it: the identifier of a response is never compared with the
  request.\<close>

theorem answers_and_late_answers:
  assumes "length reqs = length ls" and "\<not> cn_closed k" and "cn_pending k = []"
  shows "(cn_script k = map Answers ls \<longrightarrow> fst (call_all num reqs (client_of k)) = map (answer num) ls) \<and>
    (cn_script k = AnswersLate l # map Answers ls \<longrightarrow>
       fst (call_all num ((m, ts) # reqs) (client_of k)) = Inl (CeRead NetOp) # map (answer num) (butlast (l # ls)))"
proof (intro conjI impI)
  assume sc: "cn_script k = map Answers ls"
  then have "cn_script (cl_conn (client_of k)) = map Answers ls @ []" by (simp add: client_of_def)
  from call_all_fifo [OF assms(1) _ this, of num] assms(2,3) show "fst (call_all num reqs (client_of k)) = map (answer num) ls"
    by (auto simp: client_of_def)
next
  assume sc: "cn_script k = AnswersLate l # map Answers ls"
  obtain c' where c: "call num m ts (client_of k) = (Inl (CeRead NetOp), c')" "\<not> cn_closed (cl_conn c')"
    "cn_script (cl_conn c') = map Answers ls @ []" "cn_pending (cl_conn c') = [l]"
    using sc assms(2,3) by (simp add: call_def sendLocked_def Let_def read_line_of_def set_pending_def client_of_def)
  from call_all_fifo [OF assms(1) c(2,3), of num] obtain c2 where
    "call_all num reqs c' = (map (answer num) (take (length ls) ([l] @ ls)), c2)" unfolding c(4) by blast
  then show "fst (call_all num ((m, ts) # reqs) (client_of k)) = Inl (CeRead NetOp) # map (answer num) (butlast (l # ls))"
    using c(1) by (simp add: butlast_conv_take)
qed

definition sample_conn :: "reaction list \<Rightarrow> conn" where
  "sample_conn rs = \<lparr>cn_pending = [], cn_script = rs, cn_closed = False\<rparr>"

definition short_response :: "string \<Rightarrow> string" where
  "short_response i = marshal (JObj [(''id'', JStr i)]) @ [CHR 0x0A]"

theorem answers_and_late_answers_witness:
  "fst (call_all (\<lambda>_. None) [(''health'', []), (''embed'', [''a''])]
      (client_of (sample_conn [AnswersLate (short_response ''health-1''), Answers (short_response ''embed-2'')]))) =
    [Inl (CeRead NetOp), answer (\<lambda>_. None) (short_response ''health-1'')]"
  using answers_and_late_answers [of "[(''embed'', [''a''])]" "[short_response ''embed-2'']"
      "sample_conn [AnswersLate (short_response ''health-1''), Answers (short_response ''embed-2'')]" "\<lambda>_. None"
      "short_response ''health-1''" "''health''" "[]"]
  by (simp add: sample_conn_def)

text \<open>A retry client connects again at most once, and then the answer of the new connection is the result.\<close>

theorem RetryEmbed_recovers:
  assumes "fst (EmbedTexts num texts (rc_client rc)) = Inl e" and "isConnectionError e"
    and "rc_connect rc = Inr (client_of k) # cs" and "\<not> cn_closed k" and "cn_pending k = []" and "cn_script k = Answers l # rest"
  shows "\<exists>rc'. RetryEmbed num texts rc = (answer num l, rc') \<and> rc_connect rc' = cs \<and> cn_pending (cl_conn (rc_client rc')) = []"
proof -
  obtain c where c: "EmbedTexts num texts (rc_client rc) = (Inl e, c)" using assms(1) by (cases "EmbedTexts num texts (rc_client rc)") auto
  have "\<exists>c'. EmbedTexts num texts (client_of k) = (answer num l, c') \<and> cn_pending (cl_conn c') = []"
    unfolding EmbedTexts_def using call_answered [of "client_of k" l rest l "[]" num "''embed''" texts] assms(4-6)
    by (auto simp: client_of_def)
  then show ?thesis using c assms(2,3) by (auto simp: RetryEmbed_def retrying_def reconnect_def)
qed

end
