(* ===== verification/Daemon.thy ===== *)
theory Daemon
  imports EmbedClient
begin

section \<open>Finding, downloading and starting the daemon (embed/lifecycle.go, embed/daemon_unix.go)\<close>

text \<open>
  The first part works on the file tree: where the socket, the binary and the model are, and the
  download of the model. The second part is the start of the daemon by several processes at once, as
  a state machine: each process goes through the steps of \<open>EnsureDaemon\<close>, in any interleaving with the
  others and with the daemons that were started. The third part is the loop that waits for a daemon.
\<close>

subsection \<open>Paths\<close>

definition daemonBinary :: string where "daemonBinary = ''ca-embed''"

definition DaemonBinaryName :: string where "DaemonBinaryName = daemonBinary"

definition SocketPath :: "path \<Rightarrow> path" where
  "SocketPath repoRoot = repoRoot @ [''.claude'', ''.cache'', ''embed-daemon.sock'']"

definition suffixed :: "path \<Rightarrow> string \<Rightarrow> path" where
  "suffixed p s = butlast p @ [last p @ s]"

definition PIDPath :: "path \<Rightarrow> path" where "PIDPath sock = suffixed sock ''.pid''"
definition LockPath :: "path \<Rightarrow> path" where "LockPath sock = suffixed sock ''.lock''"

definition exists_at :: "path \<Rightarrow> node \<Rightarrow> bool" where
  "exists_at p t = (case lookup_path p t of Inl _ \<Rightarrow> False | Inr _ \<Rightarrow> True)"

text \<open>\<open>alive\<close> says whether a process of that number can be signalled.\<close>

definition IsDaemonRunning :: "(int \<Rightarrow> bool) \<Rightarrow> path \<Rightarrow> node \<Rightarrow> bool" where
  "IsDaemonRunning alive pidPath t =
     (case files t pidPath of None \<Rightarrow> False
      | Some data \<Rightarrow> (case atoi (trim_space data) of None \<Rightarrow> False | Some pid \<Rightarrow> alive pid))"

text \<open>\<open>dials\<close> says whether something accepts connections at the socket.\<close>

definition IsSocketStale :: "bool \<Rightarrow> path \<Rightarrow> node \<Rightarrow> bool" where
  "IsSocketStale dials socketPath t \<longleftrightarrow> lookup_path socketPath t = Inl ENOENT \<or> \<not> dials"

definition CleanStaleSocket :: "path \<Rightarrow> node \<Rightarrow> node" where
  "CleanStaleSocket socketPath t = snd (os_remove (PIDPath socketPath) (snd (os_remove socketPath t)))"

text \<open>\<open>self\<close> is the path of the running executable, if it is known; \<open>dirs\<close> are the directories of PATH.\<close>

definition findDaemonBinary :: "bool \<Rightarrow> path option \<Rightarrow> path list \<Rightarrow> node \<Rightarrow> path option" where
  "findDaemonBinary windows self dirs t =
     (let name = (if windows then daemonBinary @ ''.exe'' else daemonBinary);
          candidates = (case self of None \<Rightarrow> [] | Some p \<Rightarrow> [butlast p @ [name]]) @ map (\<lambda>d. d @ [name]) dirs
      in find (\<lambda>p. exists_at p t) candidates)"

subsection \<open>The model files\<close>

definition ModelDownloadDir :: "path \<Rightarrow> path" where
  "ModelDownloadDir repoRoot = repoRoot @ [''.claude'', ''.cache'', ''model'']"

definition model_file :: string where "model_file = ''model_quantized.onnx''"
definition tokenizer_file :: string where "tokenizer_file = ''tokenizer.json''"

definition findNextToBinary :: "path option \<Rightarrow> string \<Rightarrow> path option" where
  "findNextToBinary self f = map_option (\<lambda>p. butlast p @ [f]) self"

definition hf_cache :: path where
  "hf_cache = [''@huggingface'', ''transformers'', ''.cache'', ''nomic-ai'', ''nomic-embed-text-v1.5'']"

definition in_hf :: "path \<Rightarrow> path \<times> path" where
  "in_hf base = (base @ [''onnx'', model_file], base @ [tokenizer_file])"

text \<open>\<open>globbed\<close> is what the pattern of the pnpm cache matches, in lexicographic order.\<close>

definition model_candidates :: "path option \<Rightarrow> path list \<Rightarrow> path \<Rightarrow> (path \<times> path) list" where
  "model_candidates self globbed repoRoot =
     [(ModelDownloadDir repoRoot @ [model_file], ModelDownloadDir repoRoot @ [tokenizer_file])] @
     (case (findNextToBinary self model_file, findNextToBinary self tokenizer_file) of (Some m, Some k) \<Rightarrow> [(m, k)] | _ \<Rightarrow> []) @
     [in_hf (repoRoot @ [''node_modules''] @ hf_cache)] @
     (if globbed = [] then [] else [in_hf (last globbed)])"

definition FindModelFiles :: "path option \<Rightarrow> path list \<Rightarrow> path \<Rightarrow> node \<Rightarrow> (path \<times> path) option" where
  "FindModelFiles self globbed repoRoot t =
     find (\<lambda>(m, k). exists_at m t \<and> exists_at k t) (model_candidates self globbed repoRoot)"

subsection \<open>The download\<close>

text \<open>A reply has a status, the body, and whether reading the body fails after that part.\<close>

datatype http_reply = HttpFails string | HttpReply int string bool

definition hfModelURL :: string where
  "hfModelURL = ''https://huggingface.co/nomic-ai/nomic-embed-text-v1.5/resolve/main/onnx/model_quantized.onnx''"

definition hfTokenizerURL :: string where
  "hfTokenizerURL = ''https://huggingface.co/nomic-ai/nomic-embed-text-v1.5/resolve/main/tokenizer.json''"

text \<open>
  The calls on the temporary file that fail, each with its error; a failing write leaves the first bytes of the body
  in the file. Besides these faults, a call fails when the tree does not allow it.
\<close>

record temp_faults =
  tf_create :: "string option"
  tf_write :: "(nat \<times> string) option"
  tf_close :: "string option"
  tf_rename :: "string option"
  tf_remove :: "string option"

definition faulty :: "string option \<Rightarrow> unit io \<Rightarrow> unit io" where
  "faulty f m = (case f of None \<Rightarrow> m | Some e \<Rightarrow> fail (Msg e))"

text \<open>A removal whose error is ignored, before the error that caused it.\<close>

definition dropping :: "temp_faults \<Rightarrow> path \<Rightarrow> io_err \<Rightarrow> unit io" where
  "dropping f p e = try_io (faulty (tf_remove f) (os_remove p)) (\<lambda>_. fail e)"

text \<open>\<open>io.Copy\<close> into the new file.\<close>

definition copy_body :: "temp_faults \<Rightarrow> path \<Rightarrow> string \<Rightarrow> bool \<Rightarrow> unit io" where
  "copy_body f tmp body broken =
     (case tf_write f of
        Some (n, e) \<Rightarrow> bind_io (os_write_file tmp (take n body)) (\<lambda>_. fail (Msg e))
      | None \<Rightarrow> bind_io (os_write_file tmp body) (\<lambda>_. if broken then fail (Msg ''body'') else ret ()))"

text \<open>\<open>tmp\<close> is the name that CreateTemp finds.\<close>

definition downloadFile :: "temp_faults \<Rightarrow> (string \<Rightarrow> http_reply) \<Rightarrow> path \<Rightarrow> string \<Rightarrow> path \<Rightarrow> unit io" where
  "downloadFile f http tmp url dest =
     (case http url of HttpFails m \<Rightarrow> fail (Ctx (''GET '' @ url) (Msg m))
      | HttpReply status body broken \<Rightarrow>
          if status \<noteq> 200 then fail (Msg (''GET '' @ url @ '': status '' @ show_int status))
          else bind_io (ctx_io ''create temp file'' (faulty (tf_create f) (os_write_file tmp []))) (\<lambda>_.
               try_io (copy_body f tmp body broken) (\<lambda>r. case r of
                   Inl e \<Rightarrow> dropping f tmp (Ctx (''write '' @ show_path tmp) e)
                 | Inr _ \<Rightarrow> try_io (faulty (tf_close f) (ret ())) (\<lambda>r. case r of
                       Inl e \<Rightarrow> dropping f tmp e
                     | Inr _ \<Rightarrow> try_io (faulty (tf_rename f) (os_rename tmp dest)) (\<lambda>r. case r of
                           Inl e \<Rightarrow> dropping f tmp e
                         | Inr _ \<Rightarrow> ret ())))))"

record download_result =
  ModelPath :: path
  TokenizerPath :: path
  AlreadyExists :: bool

text \<open>What fails in a download besides the replies: the two Stat calls, MkdirAll, the calls on the two temporary
  files, and the removal of the model after the tokenizer failed.\<close>

record download_faults =
  df_stat_model :: bool
  df_stat_tokenizer :: bool
  df_mkdir :: "string option"
  df_model :: temp_faults
  df_tokenizer :: temp_faults
  df_undo :: "string option"

text \<open>The result, and the messages to \<open>progress\<close> as far as it got.\<close>

definition DownloadModel :: "download_faults \<Rightarrow> (string \<Rightarrow> http_reply) \<Rightarrow> (path \<Rightarrow> path) \<Rightarrow> path \<Rightarrow> node \<Rightarrow>
    string list \<times> (io_err + download_result) \<times> node" where
  "DownloadModel fs http tmp repoRoot t =
     (let dir = ModelDownloadDir repoRoot; m = dir @ [model_file]; k = dir @ [tokenizer_file];
          p1 = ''Downloading model_quantized.onnx...''; p2 = ''Downloading tokenizer.json...''
      in if (\<not> df_stat_model fs \<and> exists_at m t) \<and> (\<not> df_stat_tokenizer fs \<and> exists_at k t)
         then ([], Inr \<lparr>ModelPath = m, TokenizerPath = k, AlreadyExists = True\<rparr>, t)
         else case ctx_io ''create model dir'' (faulty (df_mkdir fs) (os_mkdir_all dir)) t of
             (Inl e, t1) \<Rightarrow> ([], Inl e, t1)
           | (Inr _, t1) \<Rightarrow>
             (case ctx_io ''download model'' (downloadFile (df_model fs) http (tmp m) hfModelURL m) t1 of
                (Inl e, t2) \<Rightarrow> ([p1], Inl e, t2)
              | (Inr _, t2) \<Rightarrow>
                (case ctx_io ''download tokenizer'' (downloadFile (df_tokenizer fs) http (tmp k) hfTokenizerURL k) t2 of
                   (Inl e, t3) \<Rightarrow> ([p1, p2], Inl e, snd (faulty (df_undo fs) (os_remove m) t3))
                 | (Inr _, t3) \<Rightarrow> ([p1, p2], Inr \<lparr>ModelPath = m, TokenizerPath = k, AlreadyExists = False\<rparr>, t3))))"

subsection \<open>Waiting for a daemon\<close>

text \<open>
  \<open>attempt k\<close> is the duration of the k-th call of \<open>tryConnect\<close> in milliseconds and the client it gives. The result is
  the client, the number of calls and the time at the end.
\<close>

definition coldStartWait :: int where "coldStartWait = 2000"
definition warmTimeout :: int where "warmTimeout = 500"
definition poll_interval :: int where "poll_interval = 50"

function wait_loop :: "(nat \<Rightarrow> nat \<times> 'c option) \<Rightarrow> int \<Rightarrow> nat \<Rightarrow> int \<Rightarrow> 'c option \<times> nat \<times> int" where
  "wait_loop attempt deadline k now =
     (if now < deadline then
        (case attempt k of
           (d, Some c) \<Rightarrow> (Some c, Suc k, now + int d)
         | (d, None) \<Rightarrow> wait_loop attempt deadline (Suc k) (now + int d + poll_interval))
      else (None, k, now))"
  by pat_completeness auto
termination
  by (relation "measure (\<lambda>(f, deadline, k, now). nat (deadline - now))") (auto simp: poll_interval_def)

declare wait_loop.simps [simp del]

definition waitForReady :: "(nat \<Rightarrow> nat \<times> 'c option) \<Rightarrow> int \<Rightarrow> int \<Rightarrow> 'c option \<times> nat \<times> int" where
  "waitForReady attempt now timeout = wait_loop attempt (now + timeout) 0 now"

subsection \<open>Several processes start the daemon\<close>

text \<open>
  Where a process is in \<open>EnsureDaemon\<close>: before the fast path, waiting for the lock, and with the lock before the second
  check, the cleaning, the start and the wait; then connected to a daemon, or done with an error. The lock is given
  back on every return, and by the operating system when a process is killed. A daemon that was started loads its
  model, then binds the socket, and may exit at any time, removing the socket if it had bound it. A call of
  \<open>tryConnect\<close> fails when no ready daemon has the socket; with one it may succeed, or still fail: the dial or the
  health check takes longer than \<open>warmTimeout\<close>, or the status is not ok. Four counters, which no step looks at,
  record the waits that ran out, the daemons that exited, the re-checks that failed although a ready daemon had
  the socket, and the processes that were killed while they waited for their daemon.
\<close>

datatype pc = Fast | Locking | Checking | Cleaning | Starting | Waiting | Connected nat | Failed

datatype daemon_status = Loading | Ready | Dead

record daemon_state =
  ds_lock :: "nat option"
  ds_pc :: "nat \<Rightarrow> pc"
  ds_sock :: "nat option"
  daemons :: "daemon_status list"
  timeouts :: nat
  exits :: nat
  misses :: nat
  kills :: nat

text \<open>The events with a boolean call \<open>tryConnect\<close>: it says whether a ready daemon answers in time and with status ok.\<close>

datatype event =
    FastConnects nat | FastFails nat | LockFails nat | Locks nat | Rechecks nat bool | Cleans nat | Spawns nat
  | SpawnFails nat | Polls nat bool | GivesUp nat | Killed nat | Binds nat | Exits nat

definition ready_at :: "daemon_state \<Rightarrow> nat option" where
  "ready_at s = (case ds_sock s of None \<Rightarrow> None
     | Some d \<Rightarrow> if d < length (daemons s) \<and> daemons s ! d = Ready then Some d else None)"

definition goto :: "nat \<Rightarrow> pc \<Rightarrow> daemon_state \<Rightarrow> daemon_state" where
  "goto p l s = s\<lparr>ds_pc := (ds_pc s)(p := l)\<rparr>"

definition leave :: "nat \<Rightarrow> pc \<Rightarrow> daemon_state \<Rightarrow> daemon_state" where
  "leave p l s = (goto p l s)\<lparr>ds_lock := None\<rparr>"

text \<open>\<open>tryConnect\<close>: the connection to the daemon that has the socket, if it is ready and answers well.\<close>

definition tryConnect :: "bool \<Rightarrow> daemon_state \<Rightarrow> pc option" where
  "tryConnect answers s = (if answers then map_option Connected (ready_at s) else None)"

definition EnsureDaemon_fast :: "nat \<Rightarrow> daemon_state \<Rightarrow> daemon_state option" where
  "EnsureDaemon_fast p s = (if ds_pc s p = Fast then map_option (\<lambda>l. goto p l s) (tryConnect True s) else None)"

definition missed :: "daemon_state \<Rightarrow> nat" where
  "missed s = (if ready_at s = None then 0 else 1)"

fun holding :: "pc \<Rightarrow> bool" where
  "holding Checking = True"
| "holding Cleaning = True"
| "holding Starting = True"
| "holding Waiting = True"
| "holding _ = False"

definition ensureDaemonLocked :: "event \<Rightarrow> daemon_state \<Rightarrow> daemon_state option" where
  "ensureDaemonLocked e s =
     (case e of
        LockFails p \<Rightarrow> if ds_pc s p = Locking then Some (goto p Failed s) else None
      | Locks p \<Rightarrow> if ds_pc s p = Locking \<and> ds_lock s = None then Some ((goto p Checking s)\<lparr>ds_lock := Some p\<rparr>) else None
      | Rechecks p answers \<Rightarrow> if ds_pc s p = Checking
          then Some (case tryConnect answers s of Some l \<Rightarrow> leave p l s
            | None \<Rightarrow> (goto p Cleaning s)\<lparr>misses := misses s + missed s\<rparr>) else None
      | Cleans p \<Rightarrow> if ds_pc s p = Cleaning then Some ((goto p Starting s)\<lparr>ds_sock := None\<rparr>) else None
      | Spawns p \<Rightarrow> if ds_pc s p = Starting then Some ((goto p Waiting s)\<lparr>daemons := daemons s @ [Loading]\<rparr>) else None
      | SpawnFails p \<Rightarrow> if ds_pc s p = Starting then Some (leave p Failed s) else None
      | Polls p answers \<Rightarrow> if ds_pc s p = Waiting
          then Some (case tryConnect answers s of Some l \<Rightarrow> leave p l s | None \<Rightarrow> s) else None
      | GivesUp p \<Rightarrow> if ds_pc s p = Waiting then Some ((leave p Failed s)\<lparr>timeouts := Suc (timeouts s)\<rparr>) else None
      | _ \<Rightarrow> None)"

definition daemon_step :: "event \<Rightarrow> daemon_state \<Rightarrow> daemon_state option" where
  "daemon_step e s =
     (case e of
        Binds d \<Rightarrow> if d < length (daemons s) \<and> daemons s ! d = Loading
          then Some (s\<lparr>daemons := (daemons s)[d := Ready], ds_sock := Some d\<rparr>) else None
      | Exits d \<Rightarrow> if d < length (daemons s) \<and> daemons s ! d \<noteq> Dead
          then Some (s\<lparr>daemons := (daemons s)[d := Dead], exits := Suc (exits s),
                       ds_sock := (if daemons s ! d = Ready then None else ds_sock s)\<rparr>) else None
      | _ \<Rightarrow> None)"

text \<open>The lock of a process that is killed is released.\<close>

definition kill_step :: "nat \<Rightarrow> daemon_state \<Rightarrow> daemon_state" where
  "kill_step p s =
     (if ds_pc s p = Waiting then (leave p Failed s)\<lparr>kills := Suc (kills s)\<rparr>
      else if holding (ds_pc s p) then leave p Failed s else goto p Failed s)"

definition fire :: "event \<Rightarrow> daemon_state \<Rightarrow> daemon_state option" where
  "fire e s =
     (case e of
        FastConnects p \<Rightarrow> EnsureDaemon_fast p s
      | FastFails p \<Rightarrow> if ds_pc s p = Fast then Some (goto p Locking s) else None
      | Killed p \<Rightarrow> Some (kill_step p s)
      | Binds _ \<Rightarrow> daemon_step e s
      | Exits _ \<Rightarrow> daemon_step e s
      | _ \<Rightarrow> ensureDaemonLocked e s)"

definition daemon_start :: daemon_state where
  "daemon_start = \<lparr>ds_lock = None, ds_pc = (\<lambda>_. Fast), ds_sock = None, daemons = [], timeouts = 0, exits = 0,
     misses = 0, kills = 0\<rparr>"

inductive daemon_reach :: "daemon_state \<Rightarrow> bool" where
  dr_start: "daemon_reach daemon_start"
| dr_step: "daemon_reach s \<Longrightarrow> fire e s = Some s' \<Longrightarrow> daemon_reach s'"

subsection \<open>The embedder of a command (cli/commands.go)\<close>

text \<open>
  \<open>dialed\<close> is the connection to a running daemon, \<open>models\<close> what \<open>FindModelFiles\<close> finds, \<open>ensured\<close> the client that
  \<open>EnsureDaemon\<close> gives. None means keyword search only.
\<close>

definition getOrStartEmbedder ::
    "(string \<Rightarrow> real option) \<Rightarrow> conn option \<Rightarrow> (path \<times> path) option \<Rightarrow> client option \<Rightarrow> client option" where
  "getOrStartEmbedder num dialed models ensured =
     (let slow = (case models of None \<Rightarrow> None | Some _ \<Rightarrow> ensured) in
      case NewClient dialed of Inl _ \<Rightarrow> slow
      | Inr c \<Rightarrow> (case Health num c of
            (Inr r, c') \<Rightarrow> if Status r = ''ok'' then Some c' else slow
          | _ \<Rightarrow> slow))"

end
