(* ===== verification/DaemonProps.thy ===== *)
theory DaemonProps
  imports Daemon
begin

section \<open>What starting, downloading and waiting for the daemon promise\<close>

text \<open>
  The start by several processes keeps an invariant: the lock excludes, a process is connected only to
  a daemon that bound the socket, and a further daemon is started only after a wait ran out or a daemon
  exited. The holder of the lock always gives it back. A download leaves whole files only.
\<close>

subsection \<open>The state machine\<close>

definition lock_ok :: "daemon_state \<Rightarrow> bool" where
  "lock_ok s \<longleftrightarrow> (\<forall>p. holding (ds_pc s p) \<longleftrightarrow> ds_lock s = Some p)"

definition links_ok :: "daemon_state \<Rightarrow> bool" where
  "links_ok s \<longleftrightarrow>
     (\<forall>p d. ds_pc s p = Connected d \<longrightarrow> d < length (daemons s) \<and> daemons s ! d \<noteq> Loading) \<and>
     (\<forall>d. ds_sock s = Some d \<longrightarrow> d < length (daemons s) \<and> daemons s ! d \<noteq> Loading)"

text \<open>When nobody waits and no daemon answers, or the holder has found that none does, each start is accounted for.\<close>

definition unserved :: "daemon_state \<Rightarrow> bool" where
  "unserved s \<longleftrightarrow> (\<exists>p. ds_pc s p \<in> {Cleaning, Starting}) \<or> (ready_at s = None \<and> (\<forall>p. ds_pc s p \<noteq> Waiting))"

definition lapses :: "daemon_state \<Rightarrow> nat" where
  "lapses s = timeouts s + exits s + misses s + kills s"

definition starts_ok :: "daemon_state \<Rightarrow> bool" where
  "starts_ok s \<longleftrightarrow> length (daemons s) \<le> Suc (lapses s) \<and>
     (unserved s \<longrightarrow> length (daemons s) \<le> lapses s)"

lemmas step_defs = fire_def EnsureDaemon_fast_def ensureDaemonLocked_def daemon_step_def tryConnect_def kill_step_def missed_def

lemma ready_some: "ready_at s = Some d \<longleftrightarrow> ds_sock s = Some d \<and> d < length (daemons s) \<and> daemons s ! d = Ready"
  by (auto simp: ready_at_def split: option.splits if_splits)

lemma goto_sel [simp]:
  "ds_lock (goto p l s) = ds_lock s" "ds_sock (goto p l s) = ds_sock s" "daemons (goto p l s) = daemons s"
  "timeouts (goto p l s) = timeouts s" "exits (goto p l s) = exits s" "misses (goto p l s) = misses s" "kills (goto p l s) = kills s"
  "ds_pc (goto p l s) = (ds_pc s)(p := l)"
  "ready_at (goto p l s) = ready_at s"
  by (simp_all add: goto_def ready_at_def split: option.split)

lemma leave_sel [simp]:
  "ds_lock (leave p l s) = None" "ds_sock (leave p l s) = ds_sock s" "daemons (leave p l s) = daemons s"
  "timeouts (leave p l s) = timeouts s" "exits (leave p l s) = exits s" "misses (leave p l s) = misses s" "kills (leave p l s) = kills s"
  "ds_pc (leave p l s) = (ds_pc s)(p := l)"
  "ready_at (leave p l s) = ready_at s"
  by (simp_all add: leave_def ready_at_def split: option.split)

text \<open>The lock.\<close>

lemma lock_upd [simp]:
  "lock_ok (s\<lparr>ds_sock := a\<rparr>) = lock_ok s" "lock_ok (s\<lparr>daemons := b\<rparr>) = lock_ok s"
  "lock_ok (s\<lparr>timeouts := n\<rparr>) = lock_ok s" "lock_ok (s\<lparr>exits := n\<rparr>) = lock_ok s"
  "lock_ok (s\<lparr>misses := n\<rparr>) = lock_ok s" "lock_ok (s\<lparr>kills := n\<rparr>) = lock_ok s"
  by (simp_all add: lock_ok_def)

lemma lock_goto: "lock_ok s \<Longrightarrow> holding (ds_pc s p) = holding l \<Longrightarrow> lock_ok (goto p l s)"
  by (simp add: lock_ok_def)

lemma lock_leave: "lock_ok s \<Longrightarrow> holding (ds_pc s p) \<Longrightarrow> \<not> holding l \<Longrightarrow> lock_ok (leave p l s)"
  by (auto simp: lock_ok_def)

lemma lock_take: "lock_ok s \<Longrightarrow> ds_lock s = None \<Longrightarrow> holding l \<Longrightarrow> lock_ok ((goto p l s)\<lparr>ds_lock := Some p\<rparr>)"
  by (auto simp: lock_ok_def)

lemma fire_lock: "lock_ok s \<Longrightarrow> fire e s = Some s' \<Longrightarrow> lock_ok s'"
  by (cases e) (auto simp: step_defs lock_goto lock_leave lock_take split: if_splits option.splits)

text \<open>Connections and the socket lead to daemons that were ready.\<close>

lemma fire_links: "links_ok s \<Longrightarrow> fire e s = Some s' \<Longrightarrow> links_ok s'"
  by (cases e)
    (auto simp: step_defs links_ok_def ready_some nth_list_update nth_append less_Suc_eq split: if_splits option.splits)

text \<open>Starts are accounted for. Only the holder of the lock is cleaning, starting or waiting.\<close>

lemma holder_unique: "lock_ok s \<Longrightarrow> holding (ds_pc s p) \<Longrightarrow> holding (ds_pc s q) \<Longrightarrow> p = q"
  unfolding lock_ok_def by (metis option.inject)

lemma unserved_ready: "lock_ok s \<Longrightarrow> ds_pc s p = Checking \<Longrightarrow> ready_at s = None \<Longrightarrow> unserved s"
  unfolding unserved_def using holder_unique [of s p] by (metis holding.simps(1,4) pc.distinct(31))

fun quiet :: "pc \<Rightarrow> bool" where
  "quiet Cleaning = False"
| "quiet Starting = False"
| "quiet Waiting = False"
| "quiet _ = True"

lemma quietD: "quiet l \<Longrightarrow> l \<noteq> Cleaning \<and> l \<noteq> Starting \<and> l \<noteq> Waiting"
  by (cases l) simp_all

lemma unserved_quiet:
  assumes "quiet (ds_pc s p)" and "quiet l"
  shows "unserved (goto p l s) = unserved s"
proof -
  have "ds_pc (goto p l s) q = x \<longleftrightarrow> ds_pc s q = x" if "x \<in> {Cleaning, Starting, Waiting}" for q x
    using that quietD [OF assms(1)] quietD [OF assms(2)] by (cases "q = p") auto
  then show ?thesis by (simp add: unserved_def del: goto_sel(8))
qed

lemma unserved_lock [simp]: "unserved (s\<lparr>ds_lock := a\<rparr>) = unserved s"
  by (simp add: unserved_def ready_at_def split: option.split)

lemma starts_quiet: "starts_ok s \<Longrightarrow> quiet (ds_pc s p) \<Longrightarrow> quiet l \<Longrightarrow> starts_ok ((goto p l s)\<lparr>ds_lock := a\<rparr>)"
  by (simp add: starts_ok_def lapses_def unserved_quiet)

lemma starts_keep: "length (daemons s) \<le> lapses s \<Longrightarrow> starts_ok s"
  by (simp add: starts_ok_def)

lemma same_lock: "s\<lparr>ds_lock := ds_lock s\<rparr> = s"
  by simp

lemma served_holder: "lock_ok s \<Longrightarrow> ds_pc s p = Waiting \<Longrightarrow> q \<noteq> p \<Longrightarrow> ds_pc s q \<notin> {Cleaning, Starting}"
  using holder_unique [of s p q] by auto

lemma unserved_pc: "ds_pc s p \<in> {Cleaning, Starting} \<Longrightarrow> unserved s"
  by (auto simp: unserved_def)

lemma fire_starts:
  assumes "lock_ok s" and "starts_ok s" and "fire e s = Some s'"
  shows "starts_ok s'"
proof -
  have quiet_move: "starts_ok (goto p l s)" if "quiet (ds_pc s p)" "quiet l" for p l
    using starts_quiet [OF assms(2) that, of "ds_lock s"] by (simp add: goto_def)
  have quiet_leave: "starts_ok (leave p l s)" if "quiet (ds_pc s p)" "quiet l" for p l
    using starts_quiet [OF assms(2) that, of None] by (simp add: leave_def)
  have few: "length (daemons s) \<le> lapses s" if "unserved s" using assms(2) that by (simp add: starts_ok_def)
  have most: "length (daemons s) \<le> Suc (lapses s)" using assms(2) by (simp add: starts_ok_def)
  show ?thesis
  proof (cases e)
    case (FastConnects p)
    with assms(3) show ?thesis by (auto simp: step_defs split: if_splits intro: quiet_move)
  next
    case (FastFails p)
    with assms(3) show ?thesis by (auto simp: step_defs split: if_splits intro: quiet_move)
  next
    case (LockFails p)
    with assms(3) show ?thesis by (auto simp: step_defs split: if_splits intro: quiet_move)
  next
    case (Locks p)
    with assms(3) show ?thesis by (auto simp: step_defs split: if_splits intro: starts_quiet [OF assms(2)])
  next
    case (Rechecks p answers)
    show ?thesis
    proof (cases "tryConnect answers s")
      case None
      with Rechecks assms(3) have p: "ds_pc s p = Checking" "s' = (goto p Cleaning s)\<lparr>misses := misses s + missed s\<rparr>"
        by (auto simp: fire_def ensureDaemonLocked_def split: if_splits)
      have "length (daemons s) \<le> lapses s + missed s"
      proof (cases "ready_at s")
        case None
        then show ?thesis using few [OF unserved_ready [OF assms(1) p(1)]] by simp
      next
        case (Some d)
        then show ?thesis using most by (simp add: missed_def)
      qed
      with p show ?thesis by (intro starts_keep) (simp add: lapses_def)
    next
      case (Some l)
      with Rechecks assms(3) show ?thesis by (auto simp: step_defs split: if_splits intro: quiet_leave)
    qed
  next
    case (Cleans p)
    then have "ds_pc s p = Cleaning" "s' = (goto p Starting s)\<lparr>ds_sock := None\<rparr>" using assms(3) by (auto simp: step_defs split: if_splits)
    with few [OF unserved_pc [of s p]] show ?thesis by (intro starts_keep) (simp add: lapses_def)
  next
    case (Spawns p)
    then have p: "ds_pc s p = Starting" "s' = (goto p Waiting s)\<lparr>daemons := daemons s @ [Loading]\<rparr>"
      using assms(3) by (auto simp: step_defs split: if_splits)
    have "lock_ok s'" using p assms(1) by (simp add: lock_goto)
    from served_holder [OF this, of p] p(2) have "\<not> unserved s'" by (auto simp: unserved_def split: if_splits)
    with p few [OF unserved_pc [of s p]] show ?thesis by (simp add: starts_ok_def lapses_def)
  next
    case (SpawnFails p)
    then have "ds_pc s p = Starting" "s' = leave p Failed s" using assms(3) by (auto simp: step_defs split: if_splits)
    with few [OF unserved_pc [of s p]] show ?thesis by (intro starts_keep) (simp add: lapses_def)
  next
    case (Polls p answers)
    then have w: "ds_pc s p = Waiting" "s' = (case tryConnect answers s of Some l \<Rightarrow> leave p l s | None \<Rightarrow> s)"
      using assms(3) by (auto simp: fire_def ensureDaemonLocked_def split: if_splits)
    then consider "s' = s" | d where "ds_pc s p = Waiting" "ready_at s = Some d" "s' = leave p (Connected d) s"
      by (cases answers; cases "ready_at s") (simp_all add: tryConnect_def)
    then show ?thesis
    proof cases
      case 1
      with assms(2) show ?thesis by simp
    next
      case 2
      have "\<not> unserved s'" using served_holder [OF assms(1) 2(1)] 2 by (auto simp: unserved_def split: if_splits)
      with most 2(3) show ?thesis by (simp add: starts_ok_def lapses_def)
    qed
  next
    case (GivesUp p)
    then have "s' = (leave p Failed s)\<lparr>timeouts := Suc (timeouts s)\<rparr>" using assms(3) by (auto simp: step_defs split: if_splits)
    with most show ?thesis by (intro starts_keep) (simp add: lapses_def)
  next
    case (Killed p)
    then have s: "s' = kill_step p s" using assms(3) by (simp add: fire_def)
    show ?thesis
    proof (cases "quiet (ds_pc s p)")
      case True
      then have "starts_ok (leave p Failed s)" "starts_ok (goto p Failed s)" by (auto intro: quiet_leave quiet_move)
      with True s show ?thesis by (auto simp: kill_step_def)
    next
      case False
      then consider "ds_pc s p = Waiting" | "ds_pc s p \<in> {Cleaning, Starting}" by (cases "ds_pc s p") auto
      then show ?thesis using most few [OF unserved_pc [of s p]] s by cases (auto intro!: starts_keep simp: lapses_def kill_step_def)
    qed
  next
    case (Binds d)
    then have d: "d < length (daemons s)" "s' = s\<lparr>daemons := (daemons s)[d := Ready], ds_sock := Some d\<rparr>"
      using assms(3) by (auto simp: step_defs split: if_splits)
    then have "ready_at s' = Some d" by (simp add: ready_some)
    then have "unserved s' \<Longrightarrow> unserved s" using d(2) by (auto simp: unserved_def)
    with d few most show ?thesis by (auto simp: starts_ok_def lapses_def)
  next
    case (Exits d)
    then have "daemons s' = (daemons s)[d := Dead]" "timeouts s' = timeouts s" "exits s' = Suc (exits s)"
      "misses s' = misses s" "kills s' = kills s"
      using assms(3) by (auto simp: step_defs split: if_splits)
    with most show ?thesis by (intro starts_keep) (simp add: lapses_def)
  qed
qed

lemma reach_ok: "daemon_reach s \<Longrightarrow> lock_ok s \<and> links_ok s \<and> starts_ok s"
proof (induction rule: daemon_reach.induct)
  case dr_start
  show ?case by (simp add: daemon_start_def lock_ok_def links_ok_def starts_ok_def)
next
  case (dr_step s e s')
  then show ?case using fire_lock fire_links fire_starts by blast
qed

text \<open>C4: However many processes start the daemon at once, in every reachable state at most one of them is past the lock, a
  process is connected only to a daemon that has bound its socket, and the number of daemons that were ever started is
  at most one more than the number of waits that ran out, of daemons that exited, of re-checks that failed against a
  ready daemon (a timeout, or a status that is not ok), and of processes killed while they waited: without those
  there is one.\<close>

theorem EnsureDaemon_starts_once:
  assumes "daemon_reach s"
  shows "(\<forall>p q. holding (ds_pc s p) \<and> holding (ds_pc s q) \<longrightarrow> p = q) \<and>
    (\<forall>p d. ds_pc s p = Connected d \<longrightarrow> d < length (daemons s) \<and> daemons s ! d \<noteq> Loading) \<and>
    length (daemons s) \<le> 1 + timeouts s + exits s + misses s + kills s"
  using reach_ok [OF assms] holder_unique [of s] by (simp add: links_ok_def starts_ok_def lapses_def)

text \<open>What is left to do with the lock.\<close>

fun steps_left :: "pc \<Rightarrow> nat" where
  "steps_left Checking = 4"
| "steps_left Cleaning = 3"
| "steps_left Starting = 2"
| "steps_left Waiting = 1"
| "steps_left _ = 0"

text \<open>The lock never stays with a process: whoever holds it has a step of its own to take, whatever the daemons do, and
  after at most four of them the lock is free.\<close>

theorem lock_given_back:
  assumes "daemon_reach s" and "ds_lock s = Some p"
  shows "\<exists>e s'. fire e s = Some s' \<and> steps_left (ds_pc s' p) < steps_left (ds_pc s p) \<and> steps_left (ds_pc s p) \<le> 4 \<and>
    (ds_lock s' = None \<longleftrightarrow> steps_left (ds_pc s' p) = 0)"
proof -
  have "holding (ds_pc s p)" using reach_ok [OF assms(1)] assms(2) by (simp add: lock_ok_def)
  then consider "ds_pc s p = Checking" | "ds_pc s p = Cleaning" | "ds_pc s p = Starting" | "ds_pc s p = Waiting"
    by (cases "ds_pc s p") simp_all
  then show ?thesis
  proof cases
    case 1
    then show ?thesis using assms(2) by (intro exI [of _ "Rechecks p True"]) (auto simp: step_defs split: option.split)
  next
    case 2
    then show ?thesis using assms(2) by (intro exI [of _ "Cleans p"]) (simp add: step_defs)
  next
    case 3
    then show ?thesis using assms(2) by (intro exI [of _ "Spawns p"]) (simp add: step_defs)
  next
    case 4
    then show ?thesis using assms(2) by (intro exI [of _ "GivesUp p"]) (simp add: step_defs)
  qed
qed

subsection \<open>Runs\<close>

fun fire_all :: "event list \<Rightarrow> daemon_state \<Rightarrow> daemon_state option" where
  "fire_all [] s = Some s"
| "fire_all (e # es) s = (case fire e s of None \<Rightarrow> None | Some s' \<Rightarrow> fire_all es s')"

lemma fire_all_reach: "daemon_reach s \<Longrightarrow> fire_all es s = Some s' \<Longrightarrow> daemon_reach s'"
  by (induction es arbitrary: s) (auto split: option.splits intro: dr_step)

text \<open>
  Two runs in which the lock does not keep a second daemon from being started. In the first, the wait of the starter
  runs out while its daemon still loads the model, and the next process finds no socket. In the second, the re-check
  of the next process fails against the ready daemon, whose socket it then removes.
\<close>

definition slow_start :: "event list" where
  "slow_start = [FastFails 0, FastFails 1, Locks 0, Rechecks 0 True, Cleans 0, Spawns 0, Polls 0 True, GivesUp 0,
     Locks 1, Rechecks 1 True, Cleans 1, Spawns 1, Binds 0, Binds 1, Polls 1 True]"

definition missed_start :: "event list" where
  "missed_start = [FastFails 0, FastFails 1, Locks 0, Rechecks 0 True, Cleans 0, Spawns 0, Binds 0, Polls 0 True,
     Locks 1, Rechecks 1 False, Cleans 1, Spawns 1, Binds 1, Polls 1 True]"

lemma slow_start_runs: "\<exists>s. fire_all slow_start daemon_start = Some s \<and> daemons s = [Ready, Ready] \<and> ds_pc s 1 = Connected 1 \<and>
    ds_sock s = Some 1 \<and> timeouts s = 1 \<and> exits s = 0 \<and> misses s = 0 \<and> kills s = 0 \<and> ds_lock s = None"
  by (simp add: slow_start_def daemon_start_def step_defs goto_def leave_def ready_at_def)

lemma missed_start_runs: "\<exists>s. fire_all missed_start daemon_start = Some s \<and> daemons s = [Ready, Ready] \<and>
    ds_pc s 0 = Connected 0 \<and> ds_pc s 1 = Connected 1 \<and> timeouts s = 0 \<and> exits s = 0 \<and> misses s = 1 \<and> kills s = 0"
  by (simp add: missed_start_def daemon_start_def step_defs goto_def leave_def ready_at_def)

lemma slow_start_two_daemons:
  "\<exists>s. daemon_reach s \<and> daemons s = [Ready, Ready] \<and> ds_sock s = Some 1 \<and> timeouts s = 1 \<and> exits s = 0 \<and> misses s = 0 \<and> kills s = 0"
  using slow_start_runs fire_all_reach [OF dr_start] by metis

theorem EnsureDaemon_starts_once_witness:
  "(\<exists>s. fire_all slow_start daemon_start = Some s \<and> length (daemons s) \<le> 2) \<and>
   (\<exists>s. fire_all missed_start daemon_start = Some s \<and> length (daemons s) \<le> 2)"
proof -
  obtain s where s: "fire_all slow_start daemon_start = Some s" "timeouts s = 1" "exits s = 0" "misses s = 0" "kills s = 0"
    using slow_start_runs by blast
  obtain u where u: "fire_all missed_start daemon_start = Some u" "timeouts u = 0" "exits u = 0" "misses u = 1" "kills u = 0"
    using missed_start_runs by blast
  from EnsureDaemon_starts_once [OF fire_all_reach [OF dr_start s(1)]] s
    EnsureDaemon_starts_once [OF fire_all_reach [OF dr_start u(1)]] u show ?thesis by auto
qed

theorem lock_given_back_witness:
  "\<exists>s e s'. fire_all [FastFails 0, Locks 0] daemon_start = Some s \<and> fire e s = Some s' \<and>
    steps_left (ds_pc s' 0) < steps_left (ds_pc s 0)"
proof -
  have "\<exists>s. fire_all [FastFails 0, Locks 0] daemon_start = Some s \<and> ds_lock s = Some 0"
    by (simp add: daemon_start_def step_defs goto_def)
  then obtain s where s: "fire_all [FastFails 0, Locks 0] daemon_start = Some s" "ds_lock s = Some 0" by blast
  from lock_given_back [OF fire_all_reach [OF dr_start s(1)] s(2)] s(1) show ?thesis by blast
qed

subsection \<open>Waiting\<close>

lemma wait_loop_ok:
  assumes "wait_loop attempt deadline k now = (r, n, t)" and "\<And>j. fst (attempt j) \<le> m"
  shows "k \<le> n \<and> 50 * int (n - k) \<le> max 0 (deadline - now + 49) \<and> t \<le> max now (deadline + int m + 50) \<and>
    (\<forall>j. k \<le> j \<and> Suc j < n \<longrightarrow> snd (attempt j) = None) \<and>
    (case r of None \<Rightarrow> deadline \<le> t \<and> (k < n \<longrightarrow> snd (attempt (n - 1)) = None)
     | Some c \<Rightarrow> k < n \<and> snd (attempt (n - 1)) = Some c)"
  using assms
proof (induction attempt deadline k now rule: wait_loop.induct)
  case (1 attempt deadline k now)
  show ?case
  proof (cases "now < deadline")
    case False
    with "1.prems"(1) show ?thesis by (subst (asm) wait_loop.simps) auto
  next
    case True
    obtain d c where a: "attempt k = (d, c)" by (cases "attempt k")
    have dm: "d \<le> m" using "1.prems"(2) [of k] a by simp
    show ?thesis
    proof (cases c)
      case (Some x)
      with True a "1.prems"(1) have "r = Some x" "n = Suc k" "t = now + int d" by (subst (asm) wait_loop.simps, simp)+
      with True a Some dm show ?thesis by (auto simp: le_max_iff_disj)
    next
      case None
      with True a "1.prems"(1) have rec: "wait_loop attempt deadline (Suc k) (now + int d + poll_interval) = (r, n, t)"
        by (subst (asm) wait_loop.simps) simp
      from "1.IH" [OF True a [symmetric] None rec "1.prems"(2)] have
        ih: "Suc k \<le> n" "50 * int (n - Suc k) \<le> max 0 (deadline - (now + int d + poll_interval) + 49)"
          "t \<le> max (now + int d + poll_interval) (deadline + int m + 50)"
          "\<forall>j. Suc k \<le> j \<and> Suc j < n \<longrightarrow> snd (attempt j) = None"
          "case r of None \<Rightarrow> deadline \<le> t \<and> (Suc k < n \<longrightarrow> snd (attempt (n - 1)) = None)
           | Some c \<Rightarrow> Suc k < n \<and> snd (attempt (n - 1)) = Some c" by blast+
      have "50 * int (n - k) \<le> max 0 (deadline - now + 49)"
        using ih(1,2) True by (simp add: poll_interval_def of_nat_diff max_def split: if_splits)
      moreover have "t \<le> max now (deadline + int m + 50)" using ih(3) True dm by (auto simp: poll_interval_def le_max_iff_disj)
      moreover have "snd (attempt j) = None" if "k \<le> j" "Suc j < n" for j
        using that ih(4) a None by (cases "j = k") auto
      moreover have "case r of None \<Rightarrow> deadline \<le> t \<and> (k < n \<longrightarrow> snd (attempt (n - 1)) = None)
          | Some c \<Rightarrow> k < n \<and> snd (attempt (n - 1)) = Some c"
        using ih(1,5) a None by (cases "n = Suc k") (auto split: option.splits)
      ultimately show ?thesis using ih(1) by simp
    qed
  qed
qed

text \<open>C20: Waiting for a daemon ends: it tries to connect at most 40 times, returns the client of the first attempt that gives
  one, gives up only after the two seconds are over, and takes at most one attempt and one pause longer.\<close>

theorem waitForReady_bounded:
  assumes "\<And>j. fst (attempt j) \<le> m"
  shows "\<exists>r n t. waitForReady attempt now coldStartWait = (r, n, t) \<and> n \<le> 40 \<and> t \<le> now + coldStartWait + int m + 50 \<and>
    (\<forall>j. Suc j < n \<longrightarrow> snd (attempt j) = None) \<and>
    (case r of None \<Rightarrow> now + coldStartWait \<le> t \<and> (\<forall>j < n. snd (attempt j) = None)
     | Some c \<Rightarrow> 0 < n \<and> snd (attempt (n - 1)) = Some c)"
proof -
  obtain r n t where w: "wait_loop attempt (now + coldStartWait) 0 now = (r, n, t)" by (metis prod_cases3)
  note f = wait_loop_ok [OF w assms, simplified]
  have "n \<le> 40" using f by (simp add: coldStartWait_def)
  moreover have "(\<forall>j < n. snd (attempt j) = None)" if "r = None"
  proof (intro allI impI)
    fix j assume j: "j < n"
    show "snd (attempt j) = None"
    proof (cases "Suc j < n")
      case True
      with f show ?thesis by blast
    next
      case False
      with j have "j = n - 1" by simp
      with f j that show ?thesis by simp
    qed
  qed
  ultimately show ?thesis using w f by (auto simp: waitForReady_def coldStartWait_def split: option.splits)
qed

theorem waitForReady_bounded_witness:
  "\<exists>n t. waitForReady (\<lambda>j. (500, if j = 1 then Some () else None)) 0 coldStartWait = (Some (), n, t) \<and> n \<le> 40"
  using waitForReady_bounded [of "\<lambda>j. (500, if j = 1 then Some () else None)" 500 0]
  by (simp add: waitForReady_def wait_loop.simps coldStartWait_def poll_interval_def)

subsection \<open>The download\<close>

lemma sys_not_panic [simp]: "\<not> is_panic (Sys e)"
  by (simp add: is_panic_def)

lemma on_tree_sys: "on_tree f p t = (Inl e, t') \<Longrightarrow> \<not> is_panic e"
  by (auto simp: on_tree_def split: sum.splits option.splits)

lemma os_rename_error: "os_rename p q t = (Inl e, t') \<Longrightarrow> t' = t \<and> \<not> is_panic e"
  by (auto simp: os_rename_def bind_io_def is_panic_def on_tree_def split: sum.splits option.splits if_splits prod.splits)

lemma faulty_simps [simp]: "faulty None m = m" "faulty (Some e) m = fail (Msg e)"
  by (simp_all add: faulty_def)

lemma msg_not_panic [simp]: "\<not> is_panic (Msg m)" "\<not> is_panic (Ctx c e)"
  by (simp_all add: is_panic_def)

text \<open>What a download that fails leaves of its temporary file: nothing, unless the removal fails.\<close>

definition leaves_temp :: "string option \<Rightarrow> path \<Rightarrow> node \<Rightarrow> node \<Rightarrow> bool" where
  "leaves_temp f tmp t t' \<longleftrightarrow> files t' = files t \<or> f \<noteq> None \<and> (\<exists>x. files t' = (files t)(tmp \<mapsto> x))"

lemma dropping_leaves:
  assumes "files u = (files t)(p \<mapsto> x)" and "files t p = None" and "p \<noteq> []"
  shows "\<exists>t'. dropping f p e u = (Inl e, t') \<and> leaves_temp (tf_remove f) p t t'"
proof (cases "tf_remove f")
  case None
  have "files u p = Some x" unfolding assms(1) by (rule fun_upd_same)
  then have n: "node_at u p = Some (RegFile x)" by (simp add: files_iff)
  obtain t' where r: "os_remove p u = (Inr (), t')"
    using on_tree_ok [OF n, of "\<lambda>n. case n of None \<Rightarrow> Inl ENOENT | Some (Dir (_ # _)) \<Rightarrow> Inl ENOTEMPTY | Some _ \<Rightarrow> Inr None" None] assms(3)
    by (auto simp: os_remove_def)
  have "files t' = files t" using os_remove_files [OF r] assms(1,2) by auto
  with None r show ?thesis by (simp add: dropping_def try_io_def fail_def leaves_temp_def)
next
  case (Some m)
  with assms(1) show ?thesis by (auto simp: dropping_def try_io_def fail_def leaves_temp_def)
qed

lemma copy_body_files:
  assumes "files u = (files t)(tmp \<mapsto> x)" and "copy_body f tmp body broken u = (r, u')"
  shows "\<exists>y. files u' = (files t)(tmp \<mapsto> y) \<and> (\<forall>e. r = Inl e \<longrightarrow> \<not> is_panic e) \<and>
    (r = Inr () \<longrightarrow> y = body \<and> \<not> broken \<and> tf_write f = None)"
proof -
  have w: "(\<exists>y. files v = (files t)(tmp \<mapsto> y)) \<and> (\<forall>e. q = Inl e \<longrightarrow> \<not> is_panic e) \<and>
      (q = Inr () \<longrightarrow> files v = (files t)(tmp \<mapsto> c))" if "os_write_file tmp c u = (q, v)" for c q v
  proof (cases q)
    case (Inl e)
    with that have "v = u" "\<not> is_panic e" unfolding os_write_file_def by (auto dest: on_tree_error on_tree_sys)
    with Inl assms(1) show ?thesis by auto
  next
    case (Inr z)
    with os_write_file_files that have "files v = (files u)(tmp \<mapsto> c)" by blast
    with Inr assms(1) show ?thesis by auto
  qed
  show ?thesis
  proof (cases "tf_write f")
    case None
    obtain q v where "os_write_file tmp body u = (q, v)" by fastforce
    with w [OF this] None assms(2) show ?thesis
      by (cases q) (auto simp: copy_body_def bind_io_def fail_def ret_def split: if_splits)
  next
    case (Some ne)
    obtain q v where "os_write_file tmp (take (fst ne) body) u = (q, v)" by fastforce
    with w [OF this] Some assms(2) show ?thesis
      by (cases q; cases ne) (auto simp: copy_body_def bind_io_def fail_def)
  qed
qed

lemma downloadFile_atomic:
  assumes "downloadFile f http tmp url dest t = (r, t')" and "files t tmp = None" and "tmp \<noteq> dest" and "tmp \<noteq> []"
  shows "(\<exists>e. r = Inl e) \<and> leaves_temp (tf_remove f) tmp t t' \<or>
    r = Inr () \<and> (\<exists>body. http url = HttpReply 200 body False \<and> files t' = (files t)(dest \<mapsto> body))"
proof (cases "\<exists>body broken. http url = HttpReply 200 body broken")
  case False
  then have "(\<exists>e. r = Inl e) \<and> t' = t" using assms(1) by (cases "http url") (auto simp: downloadFile_def fail_def split: if_splits)
  then show ?thesis by (simp add: leaves_temp_def)
next
  case True
  then obtain body broken where reply: "http url = HttpReply 200 body broken" by blast
  obtain r1 t1 where w1: "faulty (tf_create f) (os_write_file tmp []) t = (r1, t1)" by fastforce
  show ?thesis
  proof (cases r1)
    case (Inl e)
    with w1 have "t1 = t"
      by (cases "tf_create f") (auto simp: fail_def os_write_file_def dest: on_tree_error)
    with Inl w1 reply assms(1) show ?thesis by (auto simp: downloadFile_def bind_io_def ctx_io_def leaves_temp_def)
  next
    case (Inr u1)
    then have f1: "files t1 = (files t)(tmp \<mapsto> [])" using os_write_file_files w1 by (cases "tf_create f") (auto simp: fail_def)
    obtain r2 t2 where w2: "copy_body f tmp body broken t1 = (r2, t2)" by fastforce
    obtain y where f2: "files t2 = (files t)(tmp \<mapsto> y)" and e2: "\<forall>e. r2 = Inl e \<longrightarrow> \<not> is_panic e"
      and ok2: "r2 = Inr () \<longrightarrow> y = body \<and> \<not> broken" using copy_body_files [OF f1 w2] by blast
    obtain r3 t3 where w3: "faulty (tf_rename f) (os_rename tmp dest) t2 = (r3, t3)" by fastforce
    have e3: "t3 = t2 \<and> \<not> is_panic e" if "r3 = Inl e" for e
      using w3 that os_rename_error by (cases "tf_rename f") (auto simp: fail_def)
    have run: "downloadFile f http tmp url dest t =
        (case r2 of Inl e \<Rightarrow> dropping f tmp (Ctx (''write '' @ show_path tmp) e) t2
         | Inr _ \<Rightarrow> (case tf_close f of Some m \<Rightarrow> dropping f tmp (Msg m) t2
           | None \<Rightarrow> (case r3 of Inl e \<Rightarrow> dropping f tmp e t2 | Inr _ \<Rightarrow> (Inr (), t3))))"
      using reply w1 Inr w2 w3 e2 e3
      by (auto simp: downloadFile_def bind_io_def ctx_io_def try_io_def fail_def ret_def split: sum.split option.split)
    show ?thesis
    proof (cases "isl r2 \<or> tf_close f \<noteq> None \<or> isl r3")
      case True
      then obtain e where "downloadFile f http tmp url dest t = dropping f tmp e t2"
        using run by (cases r2; cases "tf_close f"; cases r3) auto
      with dropping_leaves [OF f2 assms(2,4), of f e] assms(1) show ?thesis by auto
    next
      case False
      then have ok: "r2 = Inr ()" "tf_close f = None" "r3 = Inr ()" by (cases r2; cases r3; simp)+
      then have "os_rename tmp dest t2 = (Inr (), t3)" using w3 by (cases "tf_rename f") (auto simp: fail_def)
      then have "files t3 = (files t2)(dest \<mapsto> body, tmp := None)" using os_rename_files f2 ok2 ok(1) assms(3) by simp
      also have "\<dots> = (files t)(dest \<mapsto> body)" using f2 assms(2,3) by auto
      finally show ?thesis using run ok ok2 reply assms(1) by auto
    qed
  qed
qed

lemma exists_file: "files t p = Some c \<Longrightarrow> exists_at p t"
  by (simp add: files_iff exists_at_def flip: lookup_node_at)

lemma os_remove_only: "snd (os_remove p t) = t' \<Longrightarrow> files t' = files t \<or> files t' = (files t)(p := None)"
  by (cases "os_remove p t"; cases "fst (os_remove p t)")
    (auto simp: os_remove_def dest!: on_tree_error os_remove_files [unfolded os_remove_def])

abbreviation model_path :: "path \<Rightarrow> path" where
  "model_path repoRoot \<equiv> ModelDownloadDir repoRoot @ [model_file]"

abbreviation tokenizer_path :: "path \<Rightarrow> path" where
  "tokenizer_path repoRoot \<equiv> ModelDownloadDir repoRoot @ [tokenizer_file]"

lemma model_paths_differ: "model_path r \<noteq> tokenizer_path r"
  by (simp add: model_file_def tokenizer_file_def)

text \<open>What os.CreateTemp promises of the names it makes.\<close>

definition fresh_names :: "(path \<Rightarrow> path) \<Rightarrow> path \<Rightarrow> node \<Rightarrow> bool" where
  "fresh_names tmp r t \<longleftrightarrow>
     (\<forall>p \<in> {model_path r, tokenizer_path r}. files t (tmp p) = None \<and> tmp p \<notin> {[], model_path r, tokenizer_path r})"

text \<open>How a download ends: the files were there; it failed before the model was in place; it failed with the model in place, which
  is then removed if that is possible; or both files are new.\<close>

lemma DownloadModel_outcome:
  fixes repoRoot :: path
  assumes "fresh_names tmp repoRoot t" and "DownloadModel fs http tmp repoRoot t = (messages, r, t')"
  defines "m \<equiv> model_path repoRoot" and "k \<equiv> tokenizer_path repoRoot"
  obtains (there) "r = Inr \<lparr>ModelPath = m, TokenizerPath = k, AlreadyExists = True\<rparr>" "t' = t" "exists_at m t" "exists_at k t"
    | (none) e where "r = Inl e" "leaves_temp (tf_remove (df_model fs)) (tmp m) t t'"
    | (model) e b t2 t3 where "r = Inl e" "http hfModelURL = HttpReply 200 b False" "files t2 = (files t)(m \<mapsto> b)"
        "leaves_temp (tf_remove (df_tokenizer fs)) (tmp k) t2 t3" "files t' = files t3 \<or> files t' = (files t3)(m := None)"
    | (both) b c where "r = Inr \<lparr>ModelPath = m, TokenizerPath = k, AlreadyExists = False\<rparr>"
        "http hfModelURL = HttpReply 200 b False" "http hfTokenizerURL = HttpReply 200 c False" "files t' = (files t)(m \<mapsto> b, k \<mapsto> c)"
proof (cases "(\<not> df_stat_model fs \<and> exists_at m t) \<and> (\<not> df_stat_tokenizer fs \<and> exists_at k t)")
  case True
  then show thesis using assms(2) there by (auto simp: DownloadModel_def Let_def m_def k_def)
next
  case False
  have tmps: "files t (tmp m) = None" "tmp m \<notin> {[], m, k}" "files t (tmp k) = None" "tmp k \<notin> {[], m, k}"
    using assms(1) by (simp_all add: fresh_names_def m_def k_def)
  obtain r1 t1 where d1: "faulty (df_mkdir fs) (os_mkdir_all (ModelDownloadDir repoRoot)) t = (r1, t1)" by fastforce
  have f1: "files t1 = files t"
    using d1 os_mkdir_all_files by (cases "df_mkdir fs"; cases r1) (auto simp: fail_def os_mkdir_all_def split: sum.splits)
  obtain r2 t2 where d2: "downloadFile (df_model fs) http (tmp m) hfModelURL m t1 = (r2, t2)" by fastforce
  from downloadFile_atomic [OF d2] tmps(1,2) f1 have s2:
    "(\<exists>e. r2 = Inl e) \<and> leaves_temp (tf_remove (df_model fs)) (tmp m) t t2 \<or>
     r2 = Inr () \<and> (\<exists>b. http hfModelURL = HttpReply 200 b False \<and> files t2 = (files t)(m \<mapsto> b))"
    by (auto simp: leaves_temp_def)
  obtain r3 t3 where d3: "downloadFile (df_tokenizer fs) http (tmp k) hfTokenizerURL k t2 = (r3, t3)" by fastforce
  have s3: "(\<exists>e. r3 = Inl e) \<and> leaves_temp (tf_remove (df_tokenizer fs)) (tmp k) t2 t3 \<or>
     r3 = Inr () \<and> (\<exists>b. http hfTokenizerURL = HttpReply 200 b False \<and> files t3 = (files t2)(k \<mapsto> b))" if "r2 = Inr ()"
  proof (rule downloadFile_atomic [OF d3])
    show "files t2 (tmp k) = None" using that s2 tmps(3,4) by auto
  qed (use tmps(4) in auto)
  obtain t4 where t4: "t4 = snd (faulty (df_undo fs) (os_remove m) t3)" by blast
  have f4: "files t4 = files t3 \<or> files t4 = (files t3)(m := None)"
    using os_remove_only [of m t3 t4] t4 by (cases "df_undo fs") (auto simp: fail_def)
  have run: "(r, t') =
      (case r1 of Inl e \<Rightarrow> (Inl (if is_panic e then e else Ctx ''create model dir'' e), t1)
       | Inr _ \<Rightarrow> (case r2 of Inl e \<Rightarrow> (Inl (if is_panic e then e else Ctx ''download model'' e), t2)
         | Inr _ \<Rightarrow> (case r3 of Inl e \<Rightarrow> (Inl (if is_panic e then e else Ctx ''download tokenizer'' e), t4)
           | Inr _ \<Rightarrow> (Inr \<lparr>ModelPath = m, TokenizerPath = k, AlreadyExists = False\<rparr>, t3))))"
    using assms(2) False d1 d2 d3 unfolding t4 m_def k_def by (auto simp: DownloadModel_def Let_def ctx_io_def split: sum.splits)
  consider (dir) e where "r1 = Inl e" | (first) e where "r1 = Inr ()" "r2 = Inl e"
    | (second) e where "r1 = Inr ()" "r2 = Inr ()" "r3 = Inl e" | (ok) "r1 = Inr ()" "r2 = Inr ()" "r3 = Inr ()"
    by (cases r1; cases r2; cases r3) auto
  then show thesis
  proof cases
    case dir
    with run f1 none show thesis by (simp add: leaves_temp_def)
  next
    case first
    with run s2 none show thesis by auto
  next
    case second
    then obtain b where "http hfModelURL = HttpReply 200 b False" "files t2 = (files t)(m \<mapsto> b)" using s2 by auto
    with second run s3 f4 show thesis by (intro model [of _ b t2 t3]) auto
  next
    case ok
    then obtain b where b: "http hfModelURL = HttpReply 200 b False" "files t2 = (files t)(m \<mapsto> b)" using s2 by auto
    from ok s3 obtain c where "http hfTokenizerURL = HttpReply 200 c False" "files t3 = (files t2)(k \<mapsto> c)" by auto
    with ok run b show thesis by (intro both) auto
  qed
qed

lemma download_repeats:
  assumes "exists_at (model_path repoRoot) u" and "exists_at (tokenizer_path repoRoot) u"
  shows "FindModelFiles self globbed repoRoot u = Some (model_path repoRoot, tokenizer_path repoRoot) \<and>
    (\<forall>fs' http'. \<not> df_stat_model fs' \<and> \<not> df_stat_tokenizer fs' \<longrightarrow> DownloadModel fs' http' tmp' repoRoot u =
       ([], Inr \<lparr>ModelPath = model_path repoRoot, TokenizerPath = tokenizer_path repoRoot, AlreadyExists = True\<rparr>, u))"
  using assms by (simp add: FindModelFiles_def model_candidates_def DownloadModel_def Let_def)

text \<open>C5: A download of the model leaves whole files only, whatever replies, calls on the temporary files or other calls
  fail: each of the two files is what it was, or all of the body of a successful reply, or, for the model, gone. No
  other file is left or changed, except a temporary file whose removal failed. When it succeeds, both files were
  there or both are whole new bodies, they are found, and a further download whose Stat calls succeed fetches nothing.\<close>

theorem DownloadModel_whole:
  assumes "fresh_names tmp repoRoot t" and "DownloadModel fs http tmp repoRoot t = (messages, r, t')"
  shows "(\<forall>q. q \<noteq> model_path repoRoot \<and> q \<noteq> tokenizer_path repoRoot \<longrightarrow> files t' q = files t q \<or>
       tf_remove (df_model fs) \<noteq> None \<and> q = tmp (model_path repoRoot) \<or>
       tf_remove (df_tokenizer fs) \<noteq> None \<and> q = tmp (tokenizer_path repoRoot)) \<and>
    (files t' (tokenizer_path repoRoot) = files t (tokenizer_path repoRoot) \<or>
      (\<exists>b. http hfTokenizerURL = HttpReply 200 b False \<and> files t' (tokenizer_path repoRoot) = Some b)) \<and>
    (files t' (model_path repoRoot) \<in> {None, files t (model_path repoRoot)} \<or>
      (\<exists>b. http hfModelURL = HttpReply 200 b False \<and> files t' (model_path repoRoot) = Some b)) \<and>
    (\<forall>res. r = Inr res \<longrightarrow>
       (if AlreadyExists res then t' = t
        else \<exists>b c. http hfModelURL = HttpReply 200 b False \<and> http hfTokenizerURL = HttpReply 200 c False \<and>
          files t' = (files t)(model_path repoRoot \<mapsto> b, tokenizer_path repoRoot \<mapsto> c)) \<and>
       FindModelFiles self globbed repoRoot t' = Some (model_path repoRoot, tokenizer_path repoRoot) \<and>
       (\<forall>fs' http'. \<not> df_stat_model fs' \<and> \<not> df_stat_tokenizer fs' \<longrightarrow> DownloadModel fs' http' tmp' repoRoot t' =
          ([], Inr \<lparr>ModelPath = model_path repoRoot, TokenizerPath = tokenizer_path repoRoot, AlreadyExists = True\<rparr>, t')))"
proof -
  let ?m = "model_path repoRoot" and ?k = "tokenizer_path repoRoot"
  note mk = model_paths_differ [of repoRoot]
  have tmps: "tmp ?m \<notin> {[], ?m, ?k}" "tmp ?k \<notin> {[], ?m, ?k}" using assms(1) by (simp_all add: fresh_names_def)
  from assms show ?thesis
  proof (cases rule: DownloadModel_outcome)
    case there
    with download_repeats [of repoRoot t] show ?thesis by simp
  next
    case none
    then show ?thesis using tmps(1) by (auto simp: leaves_temp_def split: if_splits)
  next
    case (model e b t2 t3)
    have o: "files t3 q = files t2 q \<or> tf_remove (df_tokenizer fs) \<noteq> None \<and> q = tmp ?k" for q
      using model(4) by (auto simp: leaves_temp_def split: if_splits)
    have u: "files t' q = files t3 q \<or> q = ?m \<and> files t' q = None" for q using model(5) by (auto split: if_splits)
    show ?thesis using model(1,2,3) mk tmps(2) o u [of ?m] u [of ?k] o [of ?m] o [of ?k] u by auto metis+
  next
    case both
    then have "exists_at ?m t'" "exists_at ?k t'" using mk exists_file [of t' ?m] exists_file [of t' ?k] by auto
    with both mk download_repeats [of repoRoot t'] show ?thesis by auto
  qed
qed

text \<open>The disk is full when the tokenizer is written.\<close>

definition full_disk :: download_faults where
  "full_disk = (let none = \<lparr>tf_create = None, tf_write = None, tf_close = None, tf_rename = None, tf_remove = None\<rparr>
     in \<lparr>df_stat_model = False, df_stat_tokenizer = False, df_mkdir = None, df_model = none,
          df_tokenizer = none\<lparr>tf_write := Some (2, ''no space left'')\<rparr>, df_undo = None\<rparr>)"

theorem DownloadModel_whole_witness:
  "\<exists>messages r t'. DownloadModel full_disk (\<lambda>url. HttpReply 200 ''body'' False) (\<lambda>p. butlast p @ [last p @ ''.tmp.1'']) [] (Dir []) =
      (messages, r, t') \<and> files t' (tokenizer_path []) \<in> {None, Some ''body''} \<and> files t' [''other''] = None"
proof -
  let ?http = "\<lambda>url :: string. HttpReply 200 ''body'' False" and ?tmp = "\<lambda>p :: path. butlast p @ [last p @ ''.tmp.1'']"
  have fresh: "fresh_names ?tmp [] (Dir [])"
    by (simp add: fresh_names_def model_file_def tokenizer_file_def ModelDownloadDir_def)
  obtain messages r t' where d: "DownloadModel full_disk ?http ?tmp [] (Dir []) = (messages, r, t')" by (rule prod_cases3)
  have o: "[''other''] \<noteq> model_path []" "[''other''] \<noteq> tokenizer_path []" by (simp_all add: ModelDownloadDir_def)
  have none: "tf_remove (df_model full_disk) = None" "tf_remove (df_tokenizer full_disk) = None" by (simp_all add: full_disk_def Let_def)
  note w = DownloadModel_whole [OF fresh d]
  from w have "files t' (tokenizer_path []) \<in> {None, Some ''body''}" by auto
  moreover from w o none have "files t' [''other''] = None" by auto
  ultimately show ?thesis using d by blast
qed

end
