(* ===== verification/Gates.thy ===== *)
theory Gates
  imports Regex PhaseState Maintenance Settings
begin

section \<open>The verify-gates command (cli/commands_verify_gates.go)\<close>

text \<open>
  The command reads the dependencies of an epic from the bd program, as JSON or else as text, and
  passes when the review and compound tasks are closed. What bd prints is a parameter: \<open>bd args\<close>
  is the output of a run with these arguments, None when it fails.
\<close>

subsection \<open>Identifiers and dependencies\<close>

definition id_first :: "(nat \<times> nat) list" where
  "id_first = [(0x61, 0x7A), (0x41, 0x5A), (0x30, 0x39)]"

definition epicIDPattern :: re where
  "epicIDPattern = seqs [RBegin, RCls (CRanges id_first),
     RStar True (RCls (CRanges (id_first @ [(0x2E, 0x2E), (0x5F, 0x5F), (0x2D, 0x2D)]))), REnd]"

definition validateEpicID :: "string \<Rightarrow> bool" where
  "validateEpicID epicID = match_string epicIDPattern epicID"

record bd_dep =
  bd_ID :: string
  Title :: string
  bd_Status :: string

definition bd_dep0 :: bd_dep where
  "bd_dep0 = \<lparr>bd_ID = [], Title = [], bd_Status = []\<rparr>"

definition bd_field :: "bd_dep \<Rightarrow> string \<Rightarrow> json \<Rightarrow> bd_dep option" where
  "bd_field d k v =
     (case canon_key [''id'', ''title'', ''status''] k of None \<Rightarrow> Some d
      | Some n \<Rightarrow>
        if n = ''id'' then map_option (\<lambda>s. d\<lparr>bd_ID := s\<rparr>) (dec_str (bd_ID d) v)
        else if n = ''title'' then map_option (\<lambda>s. d\<lparr>Title := s\<rparr>) (dec_str (Title d) v)
        else map_option (\<lambda>s. d\<lparr>bd_Status := s\<rparr>) (dec_str (bd_Status d) v))"

text \<open>All results, or None when one is missing.\<close>

fun all_some :: "'a option list \<Rightarrow> 'a list option" where
  "all_some [] = Some []"
| "all_some (None # xs) = None"
| "all_some (Some x # xs) = map_option ((#) x) (all_some xs)"

text \<open>\<open>[]map[string]interface{}\<close>, or else one \<open>map[string]interface{}\<close>; a null map has no keys.\<close>

definition dec_issue :: "json \<Rightarrow> obj option" where
  "dec_issue v = (case any_of v of JObj m \<Rightarrow> Some m | JNull \<Rightarrow> Some [] | _ \<Rightarrow> None)"

definition dec_issues :: "json \<Rightarrow> obj list option" where
  "dec_issues v =
     (case v of JNull \<Rightarrow> Some [] | JArr vs \<Rightarrow> all_some (map dec_issue vs) | _ \<Rightarrow> map_option (\<lambda>m. [m]) (dec_issue v))"

text \<open>The dependencies are marshalled again, which sorts the keys, and decoded into structs.\<close>

definition dec_deps :: "json \<Rightarrow> bd_dep list option" where
  "dec_deps v = (case sorted_any id v of JArr vs \<Rightarrow> all_some (map (dec_obj bd_field bd_dep0) vs) | _ \<Rightarrow> None)"

definition parseBdShowDeps :: "string \<Rightarrow> bd_dep list option" where
  "parseBdShowDeps raw =
     (case json_parse raw of None \<Rightarrow> None
      | Some v \<Rightarrow> if \<not> nums_finite v then None
          else (case dec_issues v of None \<Rightarrow> None | Some [] \<Rightarrow> Some []
            | Some (issue # _) \<Rightarrow>
                (let deps = (case map_of issue ''depends_on'' of Some d \<Rightarrow> d | None \<Rightarrow> get_any issue ''dependencies'')
                 in if deps = JNull then Some [] else dec_deps deps)))"

subsection \<open>The text output\<close>

definition arrow :: string where "arrow = [CHR 0xE2, CHR 0x86, CHR 0x92]"
definition tick :: string where "tick = [CHR 0xE2, CHR 0x9C, CHR 0x93]"
definition circle :: string where "circle = [CHR 0xE2, CHR 0x97, CHR 0x8B]"
definition bullet :: string where "bullet = [CHR 0xE2, CHR 0x97, CHR 0x8F]"

definition depsTextPattern :: re where
  "depsTextPattern = seqs [RBegin, re_sp, RLit arrow, re_sp, RGroup 1 (RAlt (RLit tick) (RLit circle)), re_sp,
     RPlus True (RCls CNotSpace), RLit '':'', re_sp, RGroup 2 (RPlus False (RCls CAny)), re_sp, RLit bullet]"

definition text_dep :: "string \<Rightarrow> bd_dep option" where
  "text_dep l =
     (case find_match depsTextPattern (runes l) of None \<Rightarrow> None
      | Some (i, j, c) \<Rightarrow> Some (bd_dep0\<lparr>Title := group_text (runes l) c 2,
          bd_Status := (if group_text (runes l) c 1 = tick then ''closed'' else ''open'')\<rparr>))"

fun text_deps :: "bool \<Rightarrow> string list \<Rightarrow> bd_dep list" where
  "text_deps inDeps [] = []"
| "text_deps inDeps (l # ls) =
     (if trim_space l = ''DEPENDS ON'' then text_deps True ls
      else if \<not> inDeps then text_deps False ls
      else case text_dep l of Some d \<Rightarrow> d # text_deps True ls
        | None \<Rightarrow> if trim_space l \<noteq> [] \<and> \<not> has_prefix l ''  '' then [] else text_deps True ls)"

definition parseBdShowDepsText :: "string \<Rightarrow> bd_dep list" where
  "parseBdShowDepsText output = text_deps False (split_on (CHR 0x0A) output)"

definition bd_show_json :: "string \<Rightarrow> string list" where
  "bd_show_json epicID = [''show'', ''--'', epicID, ''--json'']"

definition bd_show :: "string \<Rightarrow> string list" where
  "bd_show epicID = [''show'', ''--'', epicID]"

datatype gate_error = BadEpicID | NoBd | BdFails | GatesFailed nat

definition fetchDeps :: "bool \<Rightarrow> (string list \<Rightarrow> string option) \<Rightarrow> string \<Rightarrow> gate_error + bd_dep list" where
  "fetchDeps found bd epicID =
     (if \<not> found then Inl NoBd
      else case (case bd (bd_show_json epicID) of None \<Rightarrow> None | Some out \<Rightarrow> parseBdShowDeps out) of
          Some deps \<Rightarrow> Inr deps
        | None \<Rightarrow> (case bd (bd_show epicID) of None \<Rightarrow> Inl BdFails | Some out \<Rightarrow> Inr (parseBdShowDepsText out)))"

subsection \<open>The gates\<close>

record gate_result =
  gr_Name :: string
  gr_Status :: string
  gr_Detail :: string

definition checkGate :: "bd_dep list \<Rightarrow> string \<Rightarrow> string \<Rightarrow> gate_result" where
  "checkGate deps pfx gateName =
     (case find (\<lambda>d. has_prefix (Title d) pfx) deps of
        Some d \<Rightarrow> if bd_Status d = ''closed'' then \<lparr>gr_Name = gateName, gr_Status = ''pass'', gr_Detail = []\<rparr>
            else \<lparr>gr_Name = gateName, gr_Status = ''fail'', gr_Detail = gateName @ '' exists but is not closed''\<rparr>
      | None \<Rightarrow> \<lparr>gr_Name = gateName, gr_Status = ''fail'', gr_Detail = ''No '' @ to_lower gateName @ '' found (missing)''\<rparr>)"

definition status_label :: "string \<Rightarrow> string" where
  "status_label s = (if s = ''pass'' then ''PASS'' else ''FAIL'')"

definition gate_lines :: "gate_result \<Rightarrow> string list" where
  "gate_lines c = [line (''  ['' @ status_label (gr_Status c) @ ''] '' @ gr_Name c)] @
     (if gr_Detail c = [] then [] else [line (''          '' @ gr_Detail c)])"

definition epic_checks :: "bd_dep list \<Rightarrow> gate_result list" where
  "epic_checks deps = [checkGate deps ''Review:'' ''Review task'', checkGate deps ''Compound:'' ''Compound task'']"

definition verifyGatesCmd :: "bool \<Rightarrow> (string list \<Rightarrow> string option) \<Rightarrow> int \<Rightarrow> string \<Rightarrow> phase_fs \<Rightarrow>
    (string list \<times> gate_error option) \<times> phase_fs" where
  "verifyGatesCmd found bd now epicID d =
     (if \<not> validateEpicID epicID then (([], Some BadEpicID), d)
      else case fetchDeps found bd epicID of Inl e \<Rightarrow> (([], Some e), d)
      | Inr deps \<Rightarrow>
          (let checks = epic_checks deps; failures = length (filter (\<lambda>c. gr_Status c = ''fail'') checks);
               out = [line (''Gate checks for epic '' @ epicID @ '':'') @ nl] @ concat (map gate_lines checks) @ [nl]
           in if failures = 0 then ((out @ [line ''All gates passed.''], None), CleanPhaseStateIfFinal now d)
              else ((out @ [line (show_int (int failures) @ '' gate(s) failed.'')], Some (GatesFailed failures)), d)))"

subsection \<open>When the gates pass\<close>

text \<open>The first dependency with the prefix is closed.\<close>

definition closed_first :: "bd_dep list \<Rightarrow> string \<Rightarrow> bool" where
  "closed_first deps p \<longleftrightarrow> (case find (\<lambda>d. has_prefix (Title d) p) deps of None \<Rightarrow> False | Some d \<Rightarrow> bd_Status d = ''closed'')"

lemma checkGate_fails: "gr_Status (checkGate deps p n) = ''fail'' \<longleftrightarrow> \<not> closed_first deps p"
  by (simp add: checkGate_def closed_first_def split: option.split)

text \<open>The gates of an epic pass exactly when its identifier is valid, its dependencies can be fetched, and both the first
  review task and the first compound task among them are closed; only then, and only when the final gate was recorded,
  the phase state is removed, and otherwise the phase state file is what it was.\<close>

theorem verifyGates_passes_iff:
  "(snd (fst (verifyGatesCmd found bd now epicID d)) = None \<longleftrightarrow>
      validateEpicID epicID \<and> (\<exists>deps. fetchDeps found bd epicID = Inr deps \<and> closed_first deps ''Review:'' \<and> closed_first deps ''Compound:'')) \<and>
   snd (verifyGatesCmd found bd now epicID d) =
      (if snd (fst (verifyGatesCmd found bd now epicID d)) = None then CleanPhaseStateIfFinal now d else d)"
  by (auto simp: verifyGatesCmd_def Let_def epic_checks_def checkGate_fails split: sum.split)

text \<open>What the pattern of identifiers lets through.\<close>

definition epic_char :: "char \<Rightarrow> bool" where
  "epic_char c \<longleftrightarrow> is_letter c \<or> is_digit c \<or> c \<in> {CHR ''.'', CHR ''_'', CHR ''-''}"

lemma star_cls:
  assumes "matches w r i j" and "r = RStar g (RCls k)"
  shows "\<forall>m. i \<le> m \<and> m < j \<longrightarrow> in_cls k (w ! m)"
  using assms
proof (induction rule: matches.induct)
  case (m_star1 r i j g' l)
  then have j: "j = Suc i" "in_cls k (w ! i)" and rest: "\<forall>m. j \<le> m \<and> m < l \<longrightarrow> in_cls k (w ! m)" by (auto simp: matches_cls)
  show ?case
  proof (intro allI impI)
    fix m assume m: "i \<le> m \<and> m < l"
    show "in_cls k (w ! m)"
    proof (cases "m = i")
      case True
      with j(2) show ?thesis by simp
    next
      case False
      with m j(1) rest show ?thesis by simp
    qed
  qed
qed auto

lemma no_error_valid: "rune_error \<notin> set (runes s) \<Longrightarrow> valid_utf8 s"
proof (induction s rule: runes.induct)
  case (1 s)
  show ?case
  proof (cases s)
    case Nil
    then show ?thesis by (simp add: valid_utf8.simps)
  next
    case (Cons a r)
    have u: "runes s = (if rune_width s = 0 then rune_error # runes r else take (rune_width s) s # runes (drop (rune_width s) s))"
      using Cons by (subst runes.simps) (simp add: Let_def)
    with "1.prems" have w: "rune_width s \<noteq> 0" by (auto split: if_splits)
    with "1.prems" u have "rune_error \<notin> set (runes (drop (rune_width s) s))" by simp
    from "1.IH"(2) [OF Cons refl w] this Cons have "valid_utf8 (drop (rune_width s) s)" by simp
    with w Cons show ?thesis by (subst valid_utf8.simps) (simp add: Let_def)
  qed
qed

lemma in_ranges:
  assumes "in_cls (CRanges rs) r"
  obtains c lo hi where "r = [c]" and "(lo, hi) \<in> set rs" and "lo \<le> of_char c" and "of_char c \<le> hi"
  using assms by (auto simp: byte_in_def split: list.splits)

lemma char_codes: "of_char c = (0x2E :: nat) \<Longrightarrow> c = CHR ''.''" "of_char c = (0x5F :: nat) \<Longrightarrow> c = CHR ''_''"
  "of_char c = (0x2D :: nat) \<Longrightarrow> c = CHR ''-''"
proof -
  have e: "(of_char CHR ''.'' :: nat) = 0x2E" "(of_char CHR ''_'' :: nat) = 0x5F" "(of_char CHR ''-'' :: nat) = 0x2D" by simp_all
  show "of_char c = (0x2E :: nat) \<Longrightarrow> c = CHR ''.''" unfolding e(1) [symmetric] by (simp only: of_char_eq_iff)
  show "of_char c = (0x5F :: nat) \<Longrightarrow> c = CHR ''_''" unfolding e(2) [symmetric] by (simp only: of_char_eq_iff)
  show "of_char c = (0x2D :: nat) \<Longrightarrow> c = CHR ''-''" unfolding e(3) [symmetric] by (simp only: of_char_eq_iff)
qed

lemma in_id_first: "in_cls (CRanges id_first) r \<Longrightarrow> \<exists>c. r = [c] \<and> (is_letter c \<or> is_digit c)"
  by (erule in_ranges) (auto simp: id_first_def is_letter_def is_digit_def byte_in_def)

lemma in_id_rest:
  assumes "in_cls (CRanges (id_first @ [(0x2E, 0x2E), (0x5F, 0x5F), (0x2D, 0x2D)])) r"
  shows "\<exists>c. r = [c] \<and> epic_char c"
proof -
  obtain c lo hi where c: "r = [c]" "(lo, hi) \<in> set (id_first @ [(0x2E, 0x2E), (0x5F, 0x5F), (0x2D, 0x2D)])"
    "lo \<le> of_char c" "of_char c \<le> hi" by (rule in_ranges [OF assms])
  then consider "(lo, hi) \<in> set id_first" | "of_char c = (0x2E :: nat)" | "of_char c = (0x5F :: nat)" | "of_char c = (0x2D :: nat)"
    by auto
  then have "epic_char c"
  proof cases
    case 1
    with c(3,4) show ?thesis by (auto simp: epic_char_def id_first_def is_letter_def is_digit_def byte_in_def)
  qed (drule char_codes, simp add: epic_char_def)+
  with c(1) show ?thesis by blast
qed

theorem validateEpicID_safe:
  assumes "validateEpicID s"
  shows "s \<noteq> [] \<and> hd s \<noteq> CHR ''-'' \<and> list_all epic_char s"
proof -
  let ?w = "runes s" and ?k = "CRanges (id_first @ [(0x2E, 0x2E), (0x5F, 0x5F), (0x2D, 0x2D)])"
  from assms obtain i j where "matches ?w epicIDPattern i j" by (auto simp: validateEpicID_def match_string_iff)
  then have m: "0 < length ?w" "in_cls (CRanges id_first) (?w ! 0)" "matches ?w (RStar True (RCls ?k)) 1 (length ?w)"
    unfolding epicIDPattern_def by (auto simp: matches_seq matches_begin matches_cls matches_end)
  have first: "\<exists>c. ?w ! 0 = [c] \<and> (is_letter c \<or> is_digit c)" by (rule in_id_first [OF m(2)])
  have one: "\<exists>c. ?w ! n = [c] \<and> epic_char c" if "n < length ?w" for n
  proof (cases n)
    case 0
    with first show ?thesis by (auto simp: epic_char_def)
  next
    case (Suc k)
    then have "in_cls ?k (?w ! n)" using star_cls [OF m(3) refl] that by auto
    then show ?thesis by (rule in_id_rest)
  qed
  have each: "\<exists>c. r = [c] \<and> epic_char c" if "r \<in> set ?w" for r using that one by (metis in_set_conv_nth)
  then have "rune_error \<notin> set ?w" by (auto simp: rune_error_def)
  from concat_runes [OF no_error_valid [OF this]] have s: "concat ?w = s" .
  obtain c where c: "?w ! 0 = [c]" "is_letter c \<or> is_digit c" using first by blast
  with m(1) have "?w = [c] # tl ?w" by (metis hd_conv_nth length_0_conv less_numeral_extra(3) list.collapse)
  with s have "s = c # concat (tl ?w)" by (metis concat.simps(2) append_Cons append_Nil)
  then obtain rest where "s = c # rest" by blast
  moreover have "c \<noteq> CHR ''-''" using c(2) by (auto simp: is_letter_def is_digit_def byte_in_def)
  moreover have "epic_char x" if "x \<in> set s" for x
  proof -
    from that have "x \<in> set (concat ?w)" by (simp only: s)
    then obtain r where "r \<in> set ?w" "x \<in> set r" by auto
    with each [of r] show ?thesis by auto
  qed
  ultimately show ?thesis by (simp add: list_all_iff)
qed

end
