(* ===== verification/Migrate.thy ===== *)
theory Migrate
  imports SetupCli SettingsFile
begin

section \<open>The migration from the TypeScript version (cli/commands_migrate.go)\<close>

text \<open>
  migrate-from-ts checks the lines of the lessons file, counts the hooks that call npx, and
  replaces them by calls of the binary. Nothing but the settings file is changed.
\<close>

subsection \<open>Looking at a repository\<close>

definition index_path :: "path \<Rightarrow> path" where
  "index_path repoRoot = repoRoot @ [''.claude'', ''lessons'', ''index.jsonl'']"

definition valid_record :: "string \<Rightarrow> bool" where
  "valid_record l =
     (case json_parse l of None \<Rightarrow> False
      | Some v \<Rightarrow> nums_finite v \<and> (case any_of v of JObj m \<Rightarrow> map_of m ''id'' \<noteq> None | _ \<Rightarrow> False))"

text \<open>The numbers of valid and of invalid lines; a line of a megabyte ends the scan with an error.\<close>

definition validateJSONL :: "path \<Rightarrow> (nat \<times> nat) io" where
  "validateJSONL p =
     bind_io (os_read_file p) (\<lambda>data.
       (let (ls, too_long) = scan_lines data; content = content_lines ls
        in if too_long then fail (Msg ''token too long'')
           else ret (length (filter valid_record content), length (filter (\<lambda>l. \<not> valid_record l) content))))"

definition isNpxHook :: "json \<Rightarrow> bool" where
  "isNpxHook h =
     (case as_obj h of None \<Rightarrow> False
      | Some m \<Rightarrow> str_contains (hook_command m) ''npx ca '' \<or> str_contains (hook_command m) ''npx compound-agent'')"

definition countNpxInEntry :: "json \<Rightarrow> nat" where
  "countNpxInEntry entry = (case entry_hooks entry of None \<Rightarrow> 0 | Some hs \<Rightarrow> length (filter isNpxHook hs))"

definition npx_count :: "settings \<Rightarrow> nat" where
  "npx_count s =
     (case hooks_of s of None \<Rightarrow> 0
      | Some hooks \<Rightarrow> sum_list (map (\<lambda>hookType. case as_arr (get_any hooks hookType) of None \<Rightarrow> 0
          | Some arr \<Rightarrow> sum_list (map countNpxInEntry arr)) HookTypes))"

definition countNpxHooks :: "path \<Rightarrow> nat io" where
  "countNpxHooks p = try_io (ReadClaudeSettings p) (\<lambda>r. case r of Inl _ \<Rightarrow> ret 0 | Inr s \<Rightarrow> ret (npx_count s))"

subsection \<open>Changing it\<close>

definition migrated :: "settings \<Rightarrow> string \<Rightarrow> settings" where
  "migrated s binaryPath = AddAllHooks (fst (RemoveAllHooks s)) binaryPath"

definition migrateHooks :: "(string \<Rightarrow> string) \<Rightarrow> path \<Rightarrow> string \<Rightarrow> unit io" where
  "migrateHooks show_float p binaryPath =
     bind_io (ReadClaudeSettings p) (\<lambda>s.
       case migrated s binaryPath of None \<Rightarrow> fail (Panic ''assignment to entry in nil map'')
       | Some m \<Rightarrow> WriteClaudeSettings show_float p (Some m))"

definition migration_report :: "nat \<Rightarrow> nat \<Rightarrow> nat \<Rightarrow> string list" where
  "migration_report valid invalid npx =
     [println ''Migration Report'', println ''----------------------------------------'',
      println (''  Lessons: '' @ show_int (int valid) @ '' lesson(s) found'')] @
     (if invalid > 0 then [println (''  Warnings: '' @ show_int (int invalid) @ '' invalid line(s) in JSONL (will be skipped on read)'')] else []) @
     [if npx > 0 then println (''  Hooks: '' @ show_int (int npx) @ '' npx-based hook(s) to update'') else println ''  Hooks: no npx hooks found'']"

definition runMigration :: "(string \<Rightarrow> string) \<Rightarrow> path \<Rightarrow> string \<Rightarrow> bool \<Rightarrow> unit cli" where
  "runMigration show_float repoRoot binaryPath dryRun = (\<lambda>t.
     case lookup_path (index_path repoRoot) t of
       Inl ENOENT \<Rightarrow> say [println ''No TS compound-agent installation found.'', println ''  Missing: .claude/lessons/index.jsonl'',
           println (''  Run '' @ [CHR 0x27] @ ''ca init'' @ [CHR 0x27] @ '' to start fresh.'')] t
     | Inl e \<Rightarrow> (([], Inl (Ctx ''check index.jsonl'' (Sys e))), t)
     | Inr _ \<Rightarrow>
         then_cli (run_io ''validate JSONL'' (validateJSONL (index_path repoRoot))) (\<lambda>(valid, invalid).
         then_cli (lift_io (countNpxHooks (settings_path repoRoot))) (\<lambda>npx.
         then_cli (say (migration_report valid invalid npx)) (\<lambda>_.
           if dryRun then say [println [], println ''[dry-run] No changes made. Remove --dry-run to apply migration.'']
           else then_cli
             (if npx > 0 then then_cli (run_io ''update hooks'' (migrateHooks show_float (settings_path repoRoot) binaryPath))
                  (\<lambda>_. say [println ([CHR 0x0A] @ ''[ok] Hooks updated to use Go binary: '' @ binaryPath)])
              else say [])
             (\<lambda>_. say [println ''[ok] Lessons validated (no format conversion needed)'', println ''[ok] Migration complete'']))))
       t)"

text \<open>Flags that are not given are replaced by the repository and the path of the running binary.\<close>

definition migrateFromTSCmd :: "(string \<Rightarrow> string) \<Rightarrow> path \<Rightarrow> string \<Rightarrow> path option \<Rightarrow> string \<Rightarrow> bool \<Rightarrow> unit cli" where
  "migrateFromTSCmd show_float detected self repoRoot binaryPath dryRun =
     runMigration show_float (case repoRoot of None \<Rightarrow> detected | Some r \<Rightarrow> r)
       (if binaryPath = [] then self else binaryPath) dryRun"

subsection \<open>What a migration does\<close>

lemma count_entries: "sum_list (map countNpxInEntry arr) = length (filter isNpxHook (flat arr))"
  by (induction arr) (simp_all add: countNpxInEntry_def split: option.split)

lemma npx_count_hooks: "npx_count s = sum_list (map (\<lambda>ht. length (filter isNpxHook (hooks_in s ht))) HookTypes)"
proof (cases "hooks_of s")
  case None
  then show ?thesis by (simp add: npx_count_def hooks_in_None del: map_map)
next
  case (Some hooks)
  have "(case as_arr (get_any hooks ht) of None \<Rightarrow> 0 | Some arr \<Rightarrow> sum_list (map countNpxInEntry arr)) =
      length (filter isNpxHook (hooks_in s ht))" for ht
    by (simp add: hooks_in_def hook_map_def Some arr_of_as_arr count_entries split: option.split)
  then show ?thesis by (simp add: npx_count_def Some)
qed

lemma npx_count_pos: "ht \<in> set HookTypes \<Longrightarrow> h \<in> set (hooks_in s ht) \<Longrightarrow> isNpxHook h \<Longrightarrow> 0 < npx_count s"
proof -
  assume a: "ht \<in> set HookTypes" "h \<in> set (hooks_in s ht)" "isNpxHook h"
  then have "0 < length (filter isNpxHook (hooks_in s ht))" by (auto simp: filter_empty_conv)
  also have "\<dots> \<le> npx_count s" unfolding npx_count_hooks using a(1) by (intro member_le_sum_list) auto
  finally show ?thesis .
qed

text \<open>The migration counts every command that calls npx with the package's name, but the installer knows only \<open>npx ca\<close>: a
  hook of such a command that bears none of the markers is still there after the hooks were replaced, and each further
  run reports and \<open>updates\<close> it again.\<close>

theorem migrated_keeps_npx_package:
  assumes "plain_binary bin" and "get_any m ''hooks'' = JObj hooks" and "ht \<in> set HookTypes" and "e \<in> set (arr_of hooks ht)"
    and "\<not> isCompoundHookEntry e" and "entry_hooks e = Some hs" and "h \<in> set hs" and "as_obj h = Some c"
    and "str_contains (hook_command c) ''npx compound-agent''" and "\<not> str_contains (hook_command c) ''npx ca ''"
  shows "0 < npx_count (Some m) \<and> 0 < npx_count (migrated (Some m) bin)"
proof -
  have npx: "isNpxHook h" using assms(8,9) by (simp add: isNpxHook_def)
  have "h \<in> set (hooks_in (Some m) ht)"
    using assms(2,4,6,7) by (auto simp: hooks_in_def hook_map_Some getHooksMap_def in_flat)
  then have before: "0 < npx_count (Some m)" by (rule npx_count_pos [OF assms(3) _ npx])
  let ?hooks = "dropEmptyHookArrays (fst (foldl remove_type (hooks, False) HookTypes))"
  let ?m = "AList.update ''hooks'' (JObj ?hooks) m"
  have "hooks_in (Some ?m) ht = flat (filter (\<lambda>e. \<not> isCompoundHookEntry e) (arr_of hooks ht))"
    using assms(3) by (simp add: hooks_in_def hook_map_Some getHooksMap_def dropEmpty_arr remove_types_arr [OF HookTypes_distinct])
  then have kept: "h \<in> set (hooks_in (Some ?m) ht)" and clean: "\<not> managed ht h"
    using assms(4-7) not_compound_unmarked [of "[e]"] by (auto simp: in_flat managed_def list_ex_iff)
  have same: "upgrade_hook (ShellEscape bin) h = h"
    using assms(8,10) by (auto simp: upgrade_hook_def as_obj_def split: json.splits)
  have "migrated (Some m) bin = AddHooksForProfile (Some ?m) bin ProfileFull"
    by (simp add: migrated_def AddAllHooks_def RemoveAllHooks_Some [OF assms(2)])
  with installed_hooks [OF assms(1,3), of ?m ProfileFull] kept clean same
  have "h \<in> set (hooks_in (migrated (Some m) bin) ht)" by force
  with before show ?thesis using npx_count_pos [OF assms(3) _ npx] by blast
qed

definition old_hook :: json where
  "old_hook = hookEntry [] ''npx compound-agent hooks run user-prompt''"

theorem migrated_keeps_npx_package_witness:
  "0 < npx_count (migrated (Some [(''hooks'', JObj [(''UserPromptSubmit'', JArr [old_hook])])]) ''/usr/bin/ca'')"
proof -
  let ?c = "[(''type'', JStr ''command''), (''command'', JStr ''npx compound-agent hooks run user-prompt'')]"
  have "plain_binary ''/usr/bin/ca''" "''UserPromptSubmit'' \<in> set HookTypes" "\<not> isCompoundHookEntry old_hook"
    "entry_hooks old_hook = Some [JObj ?c]" "str_contains (hook_command ?c) ''npx compound-agent''"
    "\<not> str_contains (hook_command ?c) ''npx ca ''" by code_simp+
  then show ?thesis
    using migrated_keeps_npx_package [of "''/usr/bin/ca''" "[(''hooks'', JObj [(''UserPromptSubmit'', JArr [old_hook])])]"
        "[(''UserPromptSubmit'', JArr [old_hook])]" "''UserPromptSubmit''" old_hook "[JObj ?c]" "JObj ?c" ?c]
    by (simp add: get_any_def arr_of_def)
qed

end
