(* ===== verification/Info.thy ===== *)
theory Info
  imports SetupCli Hook Maintenance Database
begin

section \<open>The information commands (cli/commands_info.go, commands_health.go), hooks run, distribution\<close>

text \<open>
  about, version, feedback, info and health with their output, the command \<open>hooks run\<close> of the
  main program, and package npmdist. The commands read the settings, the skills index, the
  phase state, the telemetry table and the lessons; nothing but the phase state is changed, which
  reading it may migrate or expire.
\<close>

subsection \<open>Formatting of package fmt\<close>

text \<open>\<open>%-*s\<close> and \<open>%*s\<close> count runes.\<close>

definition pad_right :: "nat \<Rightarrow> string \<Rightarrow> string" where
  "pad_right n s = s @ replicate (n - length (runes s)) (CHR 0x20)"

definition pad_left :: "nat \<Rightarrow> string \<Rightarrow> string" where
  "pad_left n s = replicate (n - length (runes s)) (CHR 0x20) @ s"

text \<open>\<open>%.1f\<close>: the nearest tenth, half to even.\<close>

definition round_even :: "real \<Rightarrow> int" where
  "round_even x =
     (let q = \<lfloor>x\<rfloor>; r = x - of_int q in if r > 1 / 2 \<or> (r = 1 / 2 \<and> odd q) then q + 1 else q)"

definition show_f1 :: "real \<Rightarrow> string" where
  "show_f1 x = (if x < 0 then ''-'' else []) @ show_tenths (round_even (\<bar>x\<bar> * 10))"

definition backquoted :: "string \<Rightarrow> string" where
  "backquoted s = [CHR 0x60] @ s @ [CHR 0x60]"

subsection \<open>about, version, feedback\<close>

definition repoURL :: string where
  "repoURL = ''https://github.com/Nathandela/compound-agent''"

definition discussionsURL :: string where
  "discussionsURL = repoURL @ ''/discussions''"

definition FormatRepoURL :: string where
  "FormatRepoURL = repoURL"

definition aboutCmd :: "string \<Rightarrow> string list" where
  "aboutCmd Version =
     [line (''compound-agent v'' @ Version @ '' (go)''), nl, line (''Repository:  '' @ repoURL), line (''Discussions: '' @ discussionsURL)]"

definition versionCmd :: "string \<Rightarrow> string list" where
  "versionCmd Version = [line Version]"

datatype open_error = UnsupportedScheme string | StartFailed

text \<open>\<open>start\<close> says whether a command line can be started; what was started is the result.\<close>

definition browser_command :: "string \<Rightarrow> string \<Rightarrow> string list" where
  "browser_command goos rawURL =
     (if goos = ''darwin'' then [''open'', rawURL]
      else if goos = ''windows'' then [''cmd'', ''/c'', ''start'', [], rawURL]
      else [''xdg-open'', rawURL])"

definition openURL :: "string \<Rightarrow> (string list \<Rightarrow> bool) \<Rightarrow> string \<Rightarrow> open_error + string list" where
  "openURL goos start rawURL =
     (if \<not> has_prefix rawURL ''http://'' \<and> \<not> has_prefix rawURL ''https://'' then Inl (UnsupportedScheme rawURL)
      else let argv = browser_command goos rawURL in if start argv then Inr argv else Inl StartFailed)"

definition opened_lines :: "open_error + string list \<Rightarrow> string list" where
  "opened_lines r = (case r of Inl _ \<Rightarrow> [] | Inr _ \<Rightarrow> [line ''Opening in browser...''])"

definition feedbackCmd :: "string \<Rightarrow> (string list \<Rightarrow> bool) \<Rightarrow> bool \<Rightarrow> string list" where
  "feedbackCmd goos start openFlag =
     [line (''Feedback & discussions: '' @ discussionsURL), line (''Repository:             '' @ repoURL)] @
     (if openFlag then opened_lines (openURL goos start discussionsURL)
      else [nl, line (''Run '' @ backquoted ''ca feedback --open'' @ '' to open in your browser.'')])"

text \<open>The environment variable is empty when it is not set.\<close>

definition GetRepoRoot :: "string \<Rightarrow> string option \<Rightarrow> string" where
  "GetRepoRoot env cwd = (if env \<noteq> [] then env else case cwd of None \<Rightarrow> ''.'' | Some d \<Rightarrow> d)"

subsection \<open>What info and health read\<close>

text \<open>The build, the texts of errors of the standard library, and the orders that Go and SQLite leave open.\<close>

record info_env =
  ie_Version :: string
  ie_Commit :: string
  ie_err :: "io_err \<Rightarrow> string"
  ie_jsonErr :: "string \<Rightarrow> string"
  ie_orderBy :: "(hook_stat \<Rightarrow> hook_stat \<Rightarrow> bool) \<Rightarrow> hook_stat list \<Rightarrow> hook_stat list"
  ie_range :: "(string \<times> nat) list \<Rightarrow> (string \<times> nat) list"
  ie_float :: "real \<Rightarrow> string"

record info_world =
  iw_root :: path
  iw_tree :: node
  iw_now :: int
  iw_phase :: phase_fs
  iw_lessons :: opened
  iw_open :: "string option"       \<comment> \<open>the error of OpenRepoDB\<close>
  iw_queryFails :: bool
  iw_tele :: tele_table

definition query_stats :: "info_env \<Rightarrow> info_world \<Rightarrow> stats option" where
  "query_stats env w = (if iw_queryFails w then None else Some (QueryStats (ie_orderBy env) (iw_tele w)))"

text \<open>The skills index decodes as encoding/json decodes structs: a slice is filled in place.\<close>

definition skill0 :: SkillEntry where
  "skill0 = \<lparr>se_Name = [], se_Description = [], se_Phase = [], se_Dir = []\<rparr>"

definition skill_field :: "SkillEntry \<Rightarrow> string \<Rightarrow> json \<Rightarrow> SkillEntry option" where
  "skill_field e k v =
     (case canon_key [''name'', ''description'', ''phase'', ''dir''] k of None \<Rightarrow> Some e
      | Some n \<Rightarrow>
        if n = ''name'' then map_option (\<lambda>s. e\<lparr>se_Name := s\<rparr>) (dec_str (se_Name e) v)
        else if n = ''description'' then map_option (\<lambda>s. e\<lparr>se_Description := s\<rparr>) (dec_str (se_Description e) v)
        else if n = ''phase'' then map_option (\<lambda>s. e\<lparr>se_Phase := s\<rparr>) (dec_str (se_Phase e) v)
        else map_option (\<lambda>s. e\<lparr>se_Dir := s\<rparr>) (dec_str (se_Dir e) v))"

fun dec_entries :: "SkillEntry list \<Rightarrow> json list \<Rightarrow> SkillEntry list option" where
  "dec_entries old [] = Some []"
| "dec_entries old (v # vs) =
     (case dec_obj skill_field (case old of [] \<Rightarrow> skill0 | e # _ \<Rightarrow> e) v of None \<Rightarrow> None
      | Some e \<Rightarrow> map_option ((#) e) (dec_entries (tl old) vs))"

definition index_field :: "SkillEntry list option \<Rightarrow> string \<Rightarrow> json \<Rightarrow> SkillEntry list option option" where
  "index_field old k v =
     (case canon_key [''skills''] k of None \<Rightarrow> Some old
      | Some _ \<Rightarrow> (case v of JNull \<Rightarrow> Some None
          | JArr vs \<Rightarrow> map_option Some (dec_entries (case old of None \<Rightarrow> [] | Some es \<Rightarrow> es) vs)
          | _ \<Rightarrow> None))"

definition unmarshal_index :: "string \<Rightarrow> SkillEntry list option option" where
  "unmarshal_index data = (case json_parse data of None \<Rightarrow> None | Some v \<Rightarrow> dec_obj index_field None v)"

definition index_file :: "info_world \<Rightarrow> path" where
  "index_file w = skills_dir (iw_root w) @ [''skills_index.json'']"

definition entries :: "SkillEntry list option \<Rightarrow> SkillEntry list" where
  "entries es = (case es of None \<Rightarrow> [] | Some x \<Rightarrow> x)"

subsection \<open>info as JSON\<close>

text \<open>The keys of a map are written in order.\<close>

definition buildInfoHooksJSON :: "info_env \<Rightarrow> info_world \<Rightarrow> json" where
  "buildInfoHooksJSON env w =
     (case fst (ReadClaudeSettings (settings_path (iw_root w)) (iw_tree w)) of
        Inl e \<Rightarrow> JObj [(''error'', JStr (ie_err env e)), (''installed'', JBool False)]
      | Inr s \<Rightarrow> JObj [(''installed'', JBool (HasAllHooks s))])"

definition buildInfoSkillsJSON :: "info_env \<Rightarrow> info_world \<Rightarrow> json" where
  "buildInfoSkillsJSON env w =
     (case fst (os_read_file (index_file w) (iw_tree w)) of
        Inl e \<Rightarrow> JObj [(''count'', jint 0), (''skills'', JArr [])]
      | Inr data \<Rightarrow> (case unmarshal_index data of
          None \<Rightarrow> JObj [(''count'', jint 0), (''error'', JStr (ie_jsonErr env data))]
        | Some es \<Rightarrow> JObj [(''count'', jint (length (entries es))),
            (''skills'', case es of None \<Rightarrow> JNull | Some x \<Rightarrow> JArr (map enc_skill x))]))"

definition buildInfoPhaseJSON :: "info_world \<Rightarrow> json \<times> info_world" where
  "buildInfoPhaseJSON w =
     (let (st, d) = GetPhaseState (iw_now w) (iw_phase w)
      in (case st of None \<Rightarrow> JObj [(''active'', JBool False)]
          | Some s \<Rightarrow> JObj [(''active'', JBool True), (''currentPhase'', JStr (CurrentPhase s)), (''epicId'', JStr (EpicID s)),
              (''phaseIndex'', JNum (show_int (PhaseIndex s)))],
          w\<lparr>iw_phase := d\<rparr>))"

definition buildInfoTelemetryJSON :: "info_env \<Rightarrow> info_world \<Rightarrow> json" where
  "buildInfoTelemetryJSON env w =
     (case iw_open w of Some e \<Rightarrow> JObj [(''totalEvents'', jint 0)]
      | None \<Rightarrow> (case query_stats env w of None \<Rightarrow> JObj [(''totalEvents'', jint 0)]
          | Some s \<Rightarrow> if st_TotalEvents s = 0 then JObj [(''totalEvents'', jint 0)]
              else JObj [(''retrievalCount'', jint (st_RetrievalCount s)), (''totalEvents'', jint (st_TotalEvents s))]))"

definition type_counts :: "item list \<Rightarrow> (string, nat) gomap" where
  "type_counts items = foldl (\<lambda>m it. count_up (Type it) m) [] items"

definition buildInfoLessonsJSON :: "info_world \<Rightarrow> json" where
  "buildInfoLessonsJSON w =
     (case ReadItems (iw_lessons w) of Inl _ \<Rightarrow> JObj [(''count'', jint 0)]
      | Inr result \<Rightarrow> JObj [(''count'', jint (length (Items result))),
          (''types'', JObj (sort_key fst (map (\<lambda>(k, n). (k, jint n)) (type_counts (Items result)))))])"

definition buildInfoJSON :: "info_env \<Rightarrow> info_world \<Rightarrow> json \<times> info_world" where
  "buildInfoJSON env w =
     (let (phase, w') = buildInfoPhaseJSON w
      in (JObj [(''commit'', JStr (ie_Commit env)), (''hooks'', buildInfoHooksJSON env w), (''lessons'', buildInfoLessonsJSON w),
           (''phase'', phase), (''skills'', buildInfoSkillsJSON env w), (''telemetry'', buildInfoTelemetryJSON env w),
           (''version'', JStr (ie_Version env))], w'))"

subsection \<open>info as text\<close>

definition formatInfoHooks :: "info_env \<Rightarrow> info_world \<Rightarrow> string" where
  "formatInfoHooks env w =
     (case fst (ReadClaudeSettings (settings_path (iw_root w)) (iw_tree w)) of
        Inl e \<Rightarrow> line (''Could not read settings: '' @ ie_err env e)
      | Inr s \<Rightarrow> if HasAllHooks s then line ''All hooks installed.''
          else line (''Hooks not installed. Run '' @ backquoted ''ca setup claude'' @ '' to install.''))"

definition skill_line :: "SkillEntry \<Rightarrow> string" where
  "skill_line e = line (''  '' @ pad_right 20 (se_Name e) @ '' ['' @ (if se_Phase e = [] then ''-'' else se_Phase e) @ ''] '' @ se_Description e)"

definition formatInfoSkills :: "info_env \<Rightarrow> info_world \<Rightarrow> string" where
  "formatInfoSkills env w =
     (case fst (os_read_file (index_file w) (iw_tree w)) of
        Inl e \<Rightarrow> line (''Skills index not found. Run '' @ backquoted ''ca setup'' @ '' to generate.'')
      | Inr data \<Rightarrow> (case unmarshal_index data of
          None \<Rightarrow> line (''Could not parse skills index: '' @ ie_jsonErr env data)
        | Some es \<Rightarrow>
            if entries es = [] then line (''No skills found. Run '' @ backquoted ''ca setup'' @ '' to install skills.'')
            else line (show_int (int (length (entries es))) @ '' skill(s) installed:'') @ concat (map skill_line (entries es))))"

definition formatInfoPhase :: "info_world \<Rightarrow> string \<times> info_world" where
  "formatInfoPhase w =
     (let (st, d) = GetPhaseState (iw_now w) (iw_phase w)
      in (case st of None \<Rightarrow> line ''No active workflow.''
          | Some s \<Rightarrow>
              (let totalPhases = (if PhaseIndex s > int (length Phases) then PhaseIndex s else int (length Phases))
               in line (''Active workflow: '' @ CurrentPhase s @ '' (phase '' @ show_int (PhaseIndex s) @ ''/'' @ show_int totalPhases @ '')'') @
                  line (''  Epic: '' @ EpicID s) @
                  (if strs (SkillsRead s) = [] then [] else line (''  Skills read: '' @ join '', '' (strs (SkillsRead s)))) @
                  (if strs (GatesPassed s) = [] then [] else line (''  Gates passed: '' @ join '', '' (strs (GatesPassed s))))),
          w\<lparr>iw_phase := d\<rparr>))"

definition no_telemetry :: string where
  "no_telemetry = line (''Telemetry: no data yet. Run '' @ backquoted ''ca setup claude'' @ '' to install hooks that collect telemetry.'')"

text \<open>The width of the first column is that of the longest name, in bytes.\<close>

definition name_width :: "hook_stat list \<Rightarrow> nat" where
  "name_width hss = foldl (\<lambda>n hs. if length (hs_HookName hs) > n then length (hs_HookName hs) else n) (length ''Hook'') hss + 2"

definition info_row :: "nat \<Rightarrow> hook_stat \<Rightarrow> string" where
  "info_row width hs =
     line (pad_right width (hs_HookName hs) @ '' '' @ pad_left 8 (show_int (int (hs_Count hs))) @ '' '' @ pad_left 10 (show_f1 (hs_AvgDurationMs hs)))"

definition formatInfoTelemetry :: "info_env \<Rightarrow> info_world \<Rightarrow> string" where
  "formatInfoTelemetry env w =
     (case iw_open w of Some e \<Rightarrow> no_telemetry
      | None \<Rightarrow> (case query_stats env w of None \<Rightarrow> no_telemetry
          | Some s \<Rightarrow>
              if st_TotalEvents s = 0 then no_telemetry
              else line (''Total events: '' @ show_int (int (st_TotalEvents s))) @
                line (''Retrievals: '' @ show_int (int (st_RetrievalCount s))) @
                (if st_HookStats s = [] then []
                 else (let width = name_width (st_HookStats s)
                       in nl @ line (pad_right width ''Hook'' @ '' '' @ pad_left 8 ''Count'' @ '' '' @ pad_left 10 ''Avg (ms)'') @
                          line (replicate (width + 20) (CHR ''-'')) @ concat (map (info_row width) (st_HookStats s))))))"

text \<open>The parts are sorted, whatever the order of the map.\<close>

definition type_parts :: "(string \<times> nat) list \<Rightarrow> string list" where
  "type_parts counts = sort (map (\<lambda>(typ, n). typ @ '': '' @ show_int (int n)) counts)"

definition last_created :: "item list \<Rightarrow> string" where
  "last_created items = foldl (\<lambda>l it. if Created it > l then Created it else l) [] items"

definition formatInfoLessons :: "info_env \<Rightarrow> info_world \<Rightarrow> string" where
  "formatInfoLessons env w =
     (case ReadItems (iw_lessons w) of
        Inl _ \<Rightarrow> line (''Lessons: 0 (no corpus found). Run '' @ backquoted ''ca init'' @ '' to set up the lesson index.'')
      | Inr result \<Rightarrow>
          (let items = Items result
           in if items = []
              then line (''Lessons: 0. Get started with: '' @ backquoted (''ca learn '' @ [CHR 0x22] @ ''<insight>'' @ [CHR 0x22]))
              else line (''Lessons: '' @ show_int (int (length items))) @
                (if type_counts items = [] then [] else line (''  Types: '' @ join '', '' (type_parts (ie_range env (type_counts items))))) @
                (if last_created items = [] then [] else line (''  Last captured: '' @ datePrefix (last_created items)))))"

definition buildInfoOutput :: "info_env \<Rightarrow> info_world \<Rightarrow> string \<times> info_world" where
  "buildInfoOutput env w =
     (let (phase, w') = formatInfoPhase w
      in (line ''## Version'' @ nl @ line (''compound-agent v'' @ ie_Version env @ '' (commit: '' @ ie_Commit env @ '')'') @ nl @
          line ''## Hooks'' @ nl @ formatInfoHooks env w @ nl @
          line ''## Skills'' @ nl @ formatInfoSkills env w @ nl @
          line ''## Phase'' @ nl @ phase @ nl @
          line ''## Telemetry'' @ nl @ formatInfoTelemetry env w' @ nl @
          line ''## Lessons'' @ nl @ formatInfoLessons env w', w'))"

definition infoCmd :: "info_env \<Rightarrow> string \<Rightarrow> (string list \<Rightarrow> bool) \<Rightarrow> bool \<Rightarrow> bool \<Rightarrow> info_world \<Rightarrow> string list \<times> info_world" where
  "infoCmd env goos start jsonOut openFlag w =
     (if jsonOut then (let (v, w') = buildInfoJSON env w in ([writeJSON v], w'))
      else (let (text, w') = buildInfoOutput env w
            in ([text] @
                (if openFlag then opened_lines (openURL goos start repoURL)
                 else [line (''Run '' @ backquoted ''ca info --open'' @ '' to open in your browser.'')]), w')))"

subsection \<open>health\<close>

definition openHealthDB :: "('f, 'r) driver \<Rightarrow> os_faults \<Rightarrow> string \<Rightarrow> bool \<Rightarrow> 'f db_disk \<Rightarrow> (string + string) \<times> 'f db_disk" where
  "openHealthDB dr ft path isDirect d = (if isDirect then OpenDB dr ft path d else OpenRepoDB dr ft path d)"

definition health_row :: "hook_stat \<Rightarrow> string" where
  "health_row hs =
     line (pad_right 25 (hs_HookName hs) @ '' '' @ pad_left 8 (show_int (int (hs_Count hs))) @ '' '' @
       pad_left 10 (show_f1 (hs_AvgDurationMs hs)) @ '' '' @ pad_left 8 (show_int (int (hs_SuccessCount hs))) @ '' '' @
       pad_left 8 (show_int (int (hs_ErrorCount hs))))"

definition formatHealthHuman :: "stats \<Rightarrow> string" where
  "formatHealthHuman s =
     (if st_TotalEvents s = 0 then line ''No telemetry data recorded yet.'' @ line ''Run hooks to start collecting data.''
      else line ''## Telemetry Health'' @ nl @
        line (''Total events: '' @ show_int (int (st_TotalEvents s))) @
        line (''Lesson retrievals: '' @ show_int (int (st_RetrievalCount s))) @ nl @
        (if st_HookStats s = [] then []
         else line ''### Hook Latency'' @ nl @
           line (pad_right 25 ''Hook'' @ '' '' @ pad_left 8 ''Count'' @ '' '' @ pad_left 10 ''Avg (ms)'' @ '' '' @ pad_left 8 ''OK'' @ '' '' @ pad_left 8 ''Errors'') @
           line (replicate 63 (CHR ''-'')) @ concat (map health_row (st_HookStats s))))"

definition hook_stat_json :: "(real \<Rightarrow> string) \<Rightarrow> hook_stat \<Rightarrow> json" where
  "hook_stat_json show_float hs =
     JObj [(''hookName'', JStr (hs_HookName hs)), (''count'', jint (hs_Count hs)),
       (''avgDurationMs'', JNum (show_float (hs_AvgDurationMs hs))), (''successCount'', jint (hs_SuccessCount hs)),
       (''errorCount'', jint (hs_ErrorCount hs))]"

definition printHealthJSON :: "(real \<Rightarrow> string) \<Rightarrow> stats \<Rightarrow> string" where
  "printHealthJSON show_float s =
     line (marshal_indent (JObj [(''totalEvents'', jint (st_TotalEvents s)), (''retrievalCount'', jint (st_RetrievalCount s)),
       (''hookStats'', JArr (map (hook_stat_json show_float) (st_HookStats s)))]))"

datatype health_error = HOpen string | HQuery

text \<open>\<open>iw_open\<close> is what \<open>openHealthDB\<close> returned.\<close>

definition healthCmd :: "info_env \<Rightarrow> info_world \<Rightarrow> bool \<Rightarrow> health_error + string" where
  "healthCmd env w jsonOut =
     (case iw_open w of Some e \<Rightarrow> Inl (HOpen e)
      | None \<Rightarrow> (case query_stats env w of None \<Rightarrow> Inl HQuery
          | Some s \<Rightarrow> Inr (if jsonOut then printHealthJSON (ie_float env) s else formatHealthHuman s)))"

subsection \<open>hooks run (cmd/ca/main.go)\<close>

definition RunHook :: "string \<Rightarrow> stdin \<Rightarrow> hook_world \<Rightarrow> (hook_output \<times> nat) \<times> hook_world" where
  "RunHook hookName inp w = (let ((out, code, _), w') = runHookCore hookName inp w in ((out, code), w'))"

text \<open>\<open>openErr\<close> is the error of \<open>OpenRepoDB\<close>; cobra refuses more than one argument.\<close>

definition hooksRunCmd :: "string option \<Rightarrow> bool \<Rightarrow> string \<Rightarrow> int \<Rightarrow> string list \<Rightarrow> stdin \<Rightarrow> hook_world \<Rightarrow> tele_table \<Rightarrow>
    (hook_output \<times> nat) \<times> hook_world \<times> tele_table" where
  "hooksRunCmd openErr log_fails ts durationMs args inp w t =
     (let hookName = (case args of [] \<Rightarrow> [] | a # _ \<Rightarrow> a)
      in case openErr of Some _ \<Rightarrow> (let (r, w') = RunHook hookName inp w in (r, w', t))
         | None \<Rightarrow> RunHookWithTelemetry log_fails ts durationMs hookName inp w t)"

subsection \<open>Distribution (npmdist/npmdist.go, build/build.go)\<close>

definition platformMap :: "(string, string) gomap" where
  "platformMap = [(''darwin'', ''darwin''), (''linux'', ''linux''), (''win32'', ''windows'')]"

definition archMap :: "(string, string) gomap" where
  "archMap = [(''x64'', ''amd64''), (''arm64'', ''arm64'')]"

definition GetPlatformKey :: "string \<Rightarrow> string \<Rightarrow> string + string" where
  "GetPlatformKey platform arch =
     (case map_of platformMap platform of None \<Rightarrow> Inl (''unsupported platform: '' @ platform @ ''-'' @ arch)
      | Some p \<Rightarrow> (case map_of archMap arch of None \<Rightarrow> Inl (''unsupported platform: '' @ platform @ ''-'' @ arch)
          | Some a \<Rightarrow> Inr (p @ ''-'' @ a)))"

definition Platforms :: "string list" where
  "Platforms = [''darwin-arm64'', ''darwin-amd64'', ''linux-arm64'', ''linux-amd64'', ''windows-amd64'', ''windows-arm64'']"

fun expected_hash :: "string \<Rightarrow> string list \<Rightarrow> string" where
  "expected_hash artifactName [] = []"
| "expected_hash artifactName (l # ls) =
     (let parts = go_fields l
      in if 2 \<le> length parts \<and> parts ! 1 = artifactName then parts ! 0 else expected_hash artifactName ls)"

datatype checksum_error = ReadChecksums io_err | NotListed string | ReadArtifact io_err

definition VerifyChecksum :: "(string \<Rightarrow> string) \<Rightarrow> node \<Rightarrow> path \<Rightarrow> string \<Rightarrow> path \<Rightarrow> checksum_error + bool" where
  "VerifyChecksum sha256 t filePath artifactName checksumsPath =
     (case fst (os_read_file checksumsPath t) of Inl e \<Rightarrow> Inl (ReadChecksums e)
      | Inr checksumsData \<Rightarrow>
          (let expectedHash = expected_hash artifactName (split_on (CHR 0x0A) (trim_space checksumsData))
           in if expectedHash = [] then Inl (NotListed artifactName)
              else case fst (os_read_file filePath t) of Inl e \<Rightarrow> Inl (ReadArtifact e)
                | Inr fileData \<Rightarrow> Inr (concat (map hex_byte (sha256 fileData)) = expectedHash)))"

subsection \<open>What the reports say\<close>

text \<open>The counters of a Go map, counted up by one key after the other.\<close>

lemma map_of_count_up:
  "map_of (count_up k m) x = (if x = k then Some (Suc (case map_of m k of None \<Rightarrow> 0 | Some n \<Rightarrow> n)) else map_of m x)"
  by (simp add: count_up_def update_conv')

lemma counts_from:
  "map_of (foldl (\<lambda>m x. count_up (f x) m) m xs) k =
     (let n = length (filter (\<lambda>x. f x = k) xs)
      in if n = 0 then map_of m k else Some (n + (case map_of m k of None \<Rightarrow> 0 | Some c \<Rightarrow> c)))"
  by (induction xs arbitrary: m) (auto simp: map_of_count_up Let_def split: option.splits)

lemma type_counts_of:
  "map_of (type_counts items) k =
     (let n = length (filter (\<lambda>it. Type it = k) items) in if n = 0 then None else Some n)"
  by (simp add: type_counts_def counts_from Let_def)

lemma counts_distinct: "distinct (map fst m) \<Longrightarrow> distinct (map fst (foldl (\<lambda>m x. count_up (f x) m) m xs))"
  by (induction xs arbitrary: m) (simp_all add: count_up_def distinct_update)

lemma type_counts_distinct: "distinct (map fst (type_counts items))"
  by (simp add: type_counts_def counts_distinct)

lemma map_of_sorted_keys:
  assumes "distinct (map fst m)"
  shows "map_of (sort_key fst (map (\<lambda>(k, n). (k, f n)) m)) k = map_option f (map_of m k)"
proof -
  let ?m = "map (\<lambda>(k, n). (k, f n)) m"
  have "map fst ?m = map fst m" by auto
  with assms have d: "distinct (map fst ?m)" by (simp only:)
  have "mset (map fst (sort_key fst ?m)) = mset (map fst ?m)" by (simp only: mset_map mset_sort)
  then have "distinct (map fst (sort_key fst ?m))" using d by (metis mset_eq_imp_distinct_iff)
  moreover have "set (sort_key fst ?m) = set ?m" by simp
  ultimately have "map_of (sort_key fst ?m) = map_of ?m" using d by (intro map_of_inject_set [THEN iffD2])
  then have "map_of (sort_key fst ?m) k = map_of ?m k" by (rule fun_cong)
  also have "\<dots> = map_option f (map_of m k)" by (induction m) auto
  finally show ?thesis .
qed

lemma last_created_max:
  "(\<forall>it \<in> set items. Created it \<le> last_created items) \<and> (last_created items = [] \<or> last_created items \<in> Created ` set items)"
proof -
  have "(\<forall>it \<in> set items. Created it \<le> foldl (\<lambda>l it. if Created it > l then Created it else l) l0 items) \<and>
      l0 \<le> foldl (\<lambda>l it. if Created it > l then Created it else l) l0 items \<and>
      (foldl (\<lambda>l it. if Created it > l then Created it else l) l0 items = l0 \<or>
       foldl (\<lambda>l it. if Created it > l then Created it else l) l0 items \<in> Created ` set items)" for l0 :: string
  proof (induction items arbitrary: l0)
    case (Cons it items)
    show ?case
    proof (cases "Created it > l0")
      case True
      with Cons.IH [of "Created it"] show ?thesis by auto
    next
      case False
      with Cons.IH [of l0] show ?thesis by (auto intro: order_trans)
    qed
  qed simp
  from this [of "[]"] show ?thesis by (simp add: last_created_def)
qed

text \<open>What info says of the lessons is exact and does not depend on the order in which Go ranges over the map of types: the
  JSON has the number of items and, under each type, the number of items of that type and no type without one; the text
  is the same for every order of the map; and the last capture it names is the greatest of the items' timestamps.\<close>

theorem info_lessons_exact:
  assumes "ReadItems (iw_lessons w) = Inr result" and "\<And>xs. mset (ie_range env xs) = mset xs"
  shows "\<exists>types. buildInfoLessonsJSON w = JObj [(''count'', jint (length (Items result))), (''types'', JObj types)] \<and>
    (\<forall>k. map_of types k = (let n = length (filter (\<lambda>it. Type it = k) (Items result)) in if n = 0 then None else Some (jint n))) \<and>
    formatInfoLessons env w = formatInfoLessons (env\<lparr>ie_range := \<lambda>xs. xs\<rparr>) w \<and>
    (\<forall>it \<in> set (Items result). Created it \<le> last_created (Items result))"
proof -
  let ?types = "sort_key fst (map (\<lambda>(k, n). (k, jint n)) (type_counts (Items result)))"
  have "buildInfoLessonsJSON w = JObj [(''count'', jint (length (Items result))), (''types'', JObj ?types)]"
    by (simp add: buildInfoLessonsJSON_def assms(1))
  moreover have "map_of ?types k = (let n = length (filter (\<lambda>it. Type it = k) (Items result)) in if n = 0 then None else Some (jint n))" for k
    by (simp add: map_of_sorted_keys [OF type_counts_distinct] type_counts_of Let_def)
  moreover have "type_parts (ie_range env xs) = type_parts xs" for xs
    unfolding type_parts_def by (rule properties_for_sort) (simp_all add: mset_map assms(2))
  then have "formatInfoLessons env w = formatInfoLessons (env\<lparr>ie_range := \<lambda>xs. xs\<rparr>) w"
    by (simp add: formatInfoLessons_def assms(1) Let_def)
  ultimately show ?thesis using last_created_max [of "Items result"] by blast
qed

definition sample_info :: info_env where
  "sample_info = \<lparr>ie_Version = [], ie_Commit = [], ie_err = (\<lambda>_. []), ie_jsonErr = (\<lambda>_. []), ie_orderBy = (\<lambda>_ xs. xs),
     ie_range = rev, ie_float = (\<lambda>_. [])\<rparr>"

definition sample_info_world :: info_world where
  "sample_info_world = \<lparr>iw_root = [], iw_tree = Dir [], iw_now = 0, iw_phase = \<lparr>p_file = None, p_legacy = None, p_writable = True\<rparr>,
     iw_lessons = NotExist, iw_open = None, iw_queryFails = False, iw_tele = \<lparr>tt_rows = [], tt_seq = 0\<rparr>\<rparr>"

theorem info_lessons_exact_witness:
  "\<exists>types. buildInfoLessonsJSON sample_info_world = JObj [(''count'', jint 0), (''types'', JObj types)]"
  using info_lessons_exact [of sample_info_world "\<lparr>Items = [], DeletedIDs = [], SkippedCount = 0\<rparr>" sample_info]
  by (auto simp: sample_info_def sample_info_world_def ReadItems_def)

text \<open>Telemetry never changes what a hook does: whether the database can be opened, what it holds, whether the event can be
  logged and how long the hook took, the output and the exit code of hooks run are the same, and so is every file
  but the phase state, which is read once more for the event.\<close>

theorem hooks_run_telemetry_free:
  "fst (hooksRunCmd o1 lf1 ts1 d1 args inp w t1) = fst (hooksRunCmd o2 lf2 ts2 d2 args inp w t2) \<and>
   hw_failure (fst (snd (hooksRunCmd o1 lf1 ts1 d1 args inp w t1))) = hw_failure (fst (snd (hooksRunCmd o2 lf2 ts2 d2 args inp w t2))) \<and>
   (\<exists>w'. \<forall>o3 lf3 ts3 d3 t3. fst (snd (hooksRunCmd o3 lf3 ts3 d3 args inp w t3)) \<in>
      {w', put_phase w' (hw_root w') (snd (GetPhaseState (hw_now w') (hw_phase w' (hw_root w'))))})"
proof -
  obtain out code err w' where r: "runHookCore (case args of [] \<Rightarrow> [] | a # _ \<Rightarrow> a) inp w = ((out, code, err), w')"
    by (metis prod.exhaust)
  let ?p = "put_phase w' (hw_root w') (snd (GetPhaseState (hw_now w') (hw_phase w' (hw_root w'))))"
  have one: "fst (hooksRunCmd o3 lf3 ts3 d3 args inp w t3) = (out, code) \<and> fst (snd (hooksRunCmd o3 lf3 ts3 d3 args inp w t3)) \<in> {w', ?p}"
    for o3 lf3 ts3 d3 t3
    by (cases o3) (simp_all add: hooksRunCmd_def RunHook_def RunHookWithTelemetry_def r Let_def split: prod.split)
  moreover have "hw_failure w1 = hw_failure w'" if "w1 \<in> {w', ?p}" for w1
    using that by (auto simp: put_phase_def)
  ultimately show ?thesis by metis
qed

definition platform_table :: "(string \<times> string \<times> string) list" where
  "platform_table = concat (map (\<lambda>(p, x). map (\<lambda>(a, y). (p, a, x @ ''-'' @ y)) archMap) platformMap)"

lemma platform_cases: "GetPlatformKey p a = Inr k \<longleftrightarrow> (p, a, k) \<in> set platform_table"
proof -
  have d: "distinct (map fst platformMap)" "distinct (map fst archMap)" by code_simp+
  have "GetPlatformKey p a = Inr k \<longleftrightarrow> (\<exists>x y. map_of platformMap p = Some x \<and> map_of archMap a = Some y \<and> k = x @ ''-'' @ y)"
    by (auto simp: GetPlatformKey_def split: option.splits)
  then show ?thesis unfolding map_of_eq_Some_iff [OF d(1)] map_of_eq_Some_iff [OF d(2)] by (force simp: platform_table_def)
qed

text \<open>The supported pairs of npm's platform and architecture names map one to one onto the targets that are built.\<close>

theorem GetPlatformKey_targets:
  "((\<exists>p a. GetPlatformKey p a = Inr k) \<longleftrightarrow> k \<in> set Platforms) \<and>
   (GetPlatformKey p a = Inr k \<and> GetPlatformKey p' a' = Inr k \<longrightarrow> p = p' \<and> a = a')"
proof -
  have "list_all (\<lambda>(p, a, k). k \<in> set Platforms) platform_table \<and> list_all (\<lambda>k. list_ex (\<lambda>(p, a, k'). k' = k) platform_table) Platforms \<and>
    list_all (\<lambda>(p, a, k). list_all (\<lambda>(p', a', k'). k = k' \<longrightarrow> p = p' \<and> a = a') platform_table) platform_table" by code_simp
  then show ?thesis unfolding platform_cases list_all_iff list_ex_iff by fast
qed

end
