(* ===== verification/Spec2Isabelle.thy ===== *)
theory Spec2Isabelle
  imports MemoryStore PhaseProps Compound StorageProps SearchProps HookProps CrudProps KnowledgeProps MarkerProps DatabaseProps MaintenanceProps SetupCliProps QueryProps DaemonProps Gates Migrate Info
begin

text \<open>
  Verification of compound-agent.

  \<^bold>\<open>The program.\<close> compound-agent (\<open>ca\<close>, the Go module under src/go) keeps a repository's lessons. The lessons are
  lines of a JSONL file, \<open>.claude/lessons/index.jsonl\<close>, to which every command appends; a SQLite database indexes
  them for keyword and vector search; hooks of the coding agent remind it of its lessons and guide it through
  the phases of a work cycle kept in a small state file; recurring lessons are clustered into patterns; documents
  are chunked into a second database. The development models these parts function by function, in the order of the
  code, under the names of the code, with every early return and error as a value. Paths below are relative to
  src/go/internal.

  \<^bold>\<open>Theories.\<close> \<open>Prelude\<close>, \<open>GoString\<close>, \<open>Regex\<close>, \<open>Json\<close>, \<open>JsonProps\<close> and \<open>GoTime\<close> hold what the code uses of Go's standard
  library: maps as association lists, unstable sorting as the contract \<open>slice_sort\<close>, strings as byte lists with
  their UTF-8 runes, package regexp as a backtracking search proved equal to a declarative semantics, encoding/json
  as a printer and a parser with their round trip, RFC 3339 times.

  \<open>MemoryTypes\<close> (memory/types.go) has the item record, validation, identifiers and the JSON form of an item, with
  its round trip; \<open>MemoryStore\<close> (memory/jsonl.go, memory/compact.go) has \<open>ReadItems\<close>, \<open>AppendItem\<close> and \<open>Compact\<close> over the bytes
  of the file. Its abstract specification is \<open>file_store\<close>, a map from identifiers to items: appending is an update of
  that map, \<open>ReadItems\<close> lists it, \<open>Compact\<close> keeps it.

  \<open>PhaseState\<close> (hook/phase_state.go, phase_guard.go, read_tracker.go, stop_audit.go, skill_path.go, cli/commands_phase.go)
  has the phase state file, the hooks over it and the phase-check commands; \<open>PhaseProps\<close> treats them as one state
  machine, with reachability as an inductive predicate and an invariant by rule induction.

  \<open>Hook\<close> (hook/failure_search.go, failure_tracker.go, user_prompt.go, runner.go, util/stdin.go) has failure counting, prompt
  reminders and the dispatch of a hook call from its raw input to its exit code; \<open>HookProps\<close> proves the every-third
  tip and that a hook degrades quietly on unusable input. \<open>Telemetry\<close> (telemetry/telemetry.go) is the event table.

  \<open>Storage\<close> (storage/search.go, sync.go, cache.go) has the lessons table with its rebuild transaction, the embedding
  cache and keyword search; \<open>StorageProps\<close> proves that a rebuild makes the index a view of the file. Its locale
  \<open>embedding_cache\<close> states what both embedding caches promise; it is interpreted for the item cache and for the
  insight cache. \<open>Cosine\<close> and \<open>Search\<close> (util/cosine.go, package search, package retrieval) have vector search over either
  cache, hybrid merging, ranking and retrieval; \<open>SearchProps\<close> proves the client lemmas inside the locale.

  \<open>Compound\<close> (compound/compound.go) has the union-find clustering, proved to give the connected components, and the
  pattern file. \<open>Capture\<close> (package capture, cli/commands_capture.go) has the triggers, the quality gate and the commands
  learn, capture and detect; \<open>Crud\<close> (cli/commands_crud.go) has show, update, delete, wrong and validate. \<open>CaptureProps\<close> and
  \<open>CrudProps\<close> prove what the commands do to the abstract store.

  \<open>Chunking\<close> (knowledge/chunking.go) and \<open>Knowledge\<close> (storage/knowledge_db.go and the rest of package knowledge) have the
  document index; \<open>KnowledgeProps\<close> proves that a run makes it a mirror of the documents.

  \<open>Gates\<close> (cli/commands_verify_gates.go) reads an epic's dependencies from what bd prints and decides whether its gates pass;
  \<open>Migrate\<close> (cli/commands_migrate.go) is the migration from the TypeScript version, with the hooks it leaves behind; \<open>Info\<close>
  (cli/commands_info.go, commands_health.go, util/reporoot.go, npmdist, build and hooks run of src/go/cmd/ca/main.go) has the reports,
  proved exact for the lessons and independent of map order, and shows that telemetry never changes what a hook does.
  \<open>CompoundCmd\<close> (cli/commands_advanced.go) is the compound command, proved to write one pattern for each component of the similarity graph.
  \<open>EmbedClient\<close> (embed/protocol.go, client.go, retry.go) is the daemon's client over a connection whose peer is a script;
  \<open>Daemon\<close> (embed/lifecycle.go, daemon_unix.go) finds, downloads and starts the daemon, the start by several processes as a state
  machine with executable steps; \<open>DaemonProps\<close> has its invariant, two runs that start a second daemon, the bound of the waiting
  loop and the atomicity of the download, with a fault for every call.
  \<open>Query\<close> (cli/commands.go, cli/commands_knowledge.go) has search, list, load-session, check-plan, knowledge and index-docs;
  \<open>QueryProps\<close> shows that a search degrades to keyword hits when the embedder fails, and that search and check-plan
  agree as far as both runs order ties alike, which Go's random map order does not promise.
  \<open>SetupCli\<close> (cli/commands_setup.go) has init, setup, setup claude, doctor and uninstall over the file tree; \<open>SetupCliProps\<close> shows that
  setup claude converges and that uninstall needs consent.
  \<open>Maintenance\<close> (cli/commands_maintenance.go) has compact, rebuild, stats, export, import and prime; \<open>MaintenanceProps\<close> shows that an
  import is a merge into the abstract store, that export and import copy a store, and that a compaction of a plain file
  leaves the index a view of the file.
  \<open>Database\<close> (storage/sqlite.go and the opening half of storage/knowledge_db.go) opens and migrates the two database files;
  the driver is a record of operations. \<open>DatabaseProps\<close> has what is relied on of it (\<open>driver_ok\<close>), the locale \<open>versioned_cache\<close>
  with both databases as its instances, and what an open keeps and when it discards a current database.
  \<open>FileTree\<close> is the part of package os that the setup code uses: a tree of directories and files, the calls with the errors
  that the shape of the tree gives, and computations over it. \<open>Settings\<close> (setup/profile.go, settings.go, hints.go,
  util/shellescape.go) edits the hooks in settings.json; \<open>SettingsProps\<close> and \<open>SettingsFile\<close> prove what installing and removing do
  to the hooks and to the file. \<open>Templates\<close> (setup/templates/embed.go, detect.go and the installing half of setup/primitives.go),
  \<open>Prune\<close> (its pruning half) and \<open>Setup\<close> (setup/init.go, harness.go, uninstall.go) install, prune and remove the files of a
  repository. \<open>SetupProps\<close> proves with frame rules that an uninstall keeps the user's data, \<open>PruneProps\<close> what pruning leaves,
  \<open>MarkerProps\<close> that stripping takes back what the installer appended.

  \<^bold>\<open>Conventions.\<close> A Go string is a list of bytes. An error is a constructor of a datatype, with the values that the
  message is made from; the wording of messages is kept where the program prints it. A slice or pointer that may be
  nil is an option. Integers are ints with their 64-bit range where decoding or counting can leave it (\<open>atoi\<close>, \<open>wrap64\<close>);
  float32 bits are 32-bit words. Scores are reals: rounding is not modelled, and the conversion to float32 is a
  parameter. A system call that may fail takes a fault argument or consumes one from a list in the state, so that
  each failure is a branch; concurrent processes are modelled for the start of the daemon only.

  \<^bold>\<open>Parameters.\<close> SHA-256, the clock, the embedder, the full-text engine of SQLite, the order in which rows are delivered and
  maps are ranged over, the SQLite driver and sort.Slice are arguments of the definitions. What a property needs of them is a hypothesis
  of its own (\<open>slice_sort\<close>, \<open>embedder_ok\<close>, \<open>full_answers\<close>, \<open>no_clash\<close>, \<open>driver_ok\<close>), and its witness instantiates them.

  \<^bold>\<open>Bounds and fuel.\<close> Recursion is structural or has a measure. The JSON parser takes fuel, twice the length of its input and
  one, which the round trip in \<open>JsonProps\<close> shows to be enough for every printed value, and Go's depth limit of 10000. The
  union-find search, which need not end on an arbitrary array, is a partial function; \<open>uf_find_root\<close> shows that it returns on
  every array that clustering builds.

  \<^bold>\<open>Not modelled.\<close> The generators of shell scripts (cli/commands_scripts*.go) are long texts with a few substitutions and no
  state of their own; the daemon itself (a Rust program), the system calls of its start and of the file locks, and the start of the program are
  operating-system services; so are the setting up of logging and the registration of commands and flags with cobra.
\<close>

end
